(* ===== verification/RP_Prelude.thy ===== *)
theory RP_Prelude
  imports Main "HOL-Library.Word"
begin

text \<open>
  The vocabulary shared by the component theories: machine integers and byte strings,
  little-endian (de)serialisation of words, C++ \<^verbatim>\<open>std::string\<close> contents as bytes,
  \<^verbatim>\<open>std::map\<close> as a key-sorted association list, and the generic interface of a component
  that is driven by a sequence of events.
  \<^item> \<open>wire_simps\<close> collects the rewrite rules on serialised values;
  \<^item> \<open>omap_simps\<close> collects the rewrite rules on ordered maps;
  \<^item> the locale \<open>event_machine\<close> states what an invariant of a deterministic event handler is and
    proves once that it holds after every sequence of events; \<open>guarded_machine\<close> does so for
    sequences of admissible events and \<open>output_machine\<close> for handlers with output; \<open>machine_refinement\<close> lifts a
    simulation of single steps to runs.
\<close>

unbundle bit_operations_syntax

named_theorems wire_simps
named_theorems omap_simps

section \<open>Machine integers, byte strings and text\<close>

type_synonym u8 = "8 word"
type_synonym u16 = "16 word"
type_synonym u32 = "32 word"
type_synonym u64 = "64 word"
type_synonym bytes = "u8 list"

text \<open>Characters of a \<^verbatim>\<open>std::string\<close> and the bytes \<^verbatim>\<open>reinterpret_cast\<close> and the iterators of the
  string see.\<close>

definition byte_of_char :: "char \<Rightarrow> u8" where
  "byte_of_char c = word_of_nat (of_char c)"

definition char_of_byte :: "u8 \<Rightarrow> char" where
  "char_of_byte b = char_of (unat b)"

definition str_bytes :: "string \<Rightarrow> bytes" where
  "str_bytes s = map byte_of_char s"

definition bytes_str :: "bytes \<Rightarrow> string" where
  "bytes_str bs = map char_of_byte bs"

lemma char_of_byte_of_char [simp, wire_simps]: "char_of_byte (byte_of_char c) = c"
  by (simp add: char_of_byte_def byte_of_char_def unat_of_nat)

lemma byte_of_char_of_byte [simp, wire_simps]: "byte_of_char (char_of_byte b) = b"
proof -
  have "unat b < 256" using unsigned_less [of b, where 'a = nat] by simp
  then show ?thesis
    by (simp add: char_of_byte_def byte_of_char_def)
qed

lemma bytes_str_str_bytes [simp, wire_simps]: "bytes_str (str_bytes s) = s"
  by (simp add: bytes_str_def str_bytes_def comp_def)

lemma str_bytes_bytes_str [simp, wire_simps]: "str_bytes (bytes_str b) = b"
  by (simp add: bytes_str_def str_bytes_def comp_def)

lemma length_str_bytes [simp]: "length (str_bytes s) = length s"
  by (simp add: str_bytes_def)

lemma length_bytes_str [simp]: "length (bytes_str b) = length b"
  by (simp add: bytes_str_def)

lemma byte_of_char_inject [simp]: "byte_of_char a = byte_of_char b \<longleftrightarrow> a = b"
  by (metis char_of_byte_of_char)

lemma str_bytes_inject [simp]: "str_bytes a = str_bytes b \<longleftrightarrow> a = b"
  by (metis bytes_str_str_bytes)

lemma or_eq_0_word: "(x OR y = (0 :: 'a::len word)) \<longleftrightarrow> x = 0 \<and> y = 0"
  by (auto simp: bit_eq_iff bit_or_iff)

lemma xor_eq_0_word: "(x XOR y = (0 :: 'a::len word)) \<longleftrightarrow> x = y"
  by (auto simp: bit_eq_iff bit_xor_iff)

section \<open>Little-endian words\<close>

text \<open>
  \<open>le_put n v\<close> is the loop \<^verbatim>\<open>for i < n: push_back((v >> (8 * i)) & 0xFF)\<close>; \<open>le_get n bs\<close> is the
  loop \<^verbatim>\<open>for i < n: v |= T(bs[i]) << (8 * i)\<close>. On the little-endian targets of the program a
  \<^verbatim>\<open>memcpy\<close> of an \<open>n\<close>-byte integer is the same function.
\<close>

definition le_put :: "nat \<Rightarrow> 'a::len word \<Rightarrow> bytes" where
  "le_put n v = map (\<lambda>i. ucast (drop_bit (8 * i) v AND 0xFF)) [0..<n]"

definition le_get :: "nat \<Rightarrow> bytes \<Rightarrow> 'a::len word" where
  "le_get n bs = foldl (\<lambda>v i. v OR push_bit (8 * i) (ucast (bs ! i))) 0 [0..<n]"

lemma length_le_put [simp, wire_simps]: "length (le_put n v) = n"
  by (simp add: le_put_def)

lemma bit_0xFF_word: "bit (0xFF :: 'a::len word) k \<longleftrightarrow> k < LENGTH('a) \<and> k < 8"
proof -
  have "(0xFF :: 'a word) = mask 8" by (simp add: mask_eq_exp_minus_1)
  moreover have "bit (mask 8 :: 'a word) k \<longleftrightarrow> k < LENGTH('a) \<and> k < 8"
    by (auto simp: bit_mask_iff)
  ultimately show ?thesis by (simp only:)
qed

lemma bit_le_put:
  "i < n \<Longrightarrow> bit (le_put n (v :: 'a::len word) ! i) k \<longleftrightarrow> k < 8 \<and> bit v (8 * i + k)"
  by (auto simp: le_put_def bit_and_iff bit_drop_bit_eq bit_unsigned_iff bit_0xFF_word
      simp del: bit_numeral_word_iff dest: bit_imp_le_length)

lemma bit_le_get:
  "bit (le_get n bs :: 'a::len word) k \<longleftrightarrow>
     k < LENGTH('a) \<and> k div 8 < n \<and> bit (bs ! (k div 8)) (k mod 8)"
proof (induction n)
  case 0
  then show ?case by (simp add: le_get_def)
next
  case (Suc n)
  have step: "(le_get (Suc n) bs :: 'a word)
      = le_get n bs OR push_bit (8 * n) (ucast (bs ! n))"
    by (simp add: le_get_def)
  have here: "bit (push_bit (8 * n) (ucast (bs ! n)) :: 'a word) k \<longleftrightarrow>
      k < LENGTH('a) \<and> k div 8 = n \<and> bit (bs ! n) (k mod 8)"
  proof (cases "8 * n \<le> k \<and> k - 8 * n < 8")
    case True
    then have d: "k div 8 = n" by (intro div_nat_eqI) auto
    then have "k mod 8 = k - 8 * n" using minus_mult_div_eq_mod [of k 8] by simp
    with True d show ?thesis by (auto simp: bit_simps)
  next
    case False
    then have "k div 8 \<noteq> n" using minus_mult_div_eq_mod [of k 8] by auto
    moreover have "\<not> bit (bs ! n) (k - 8 * n)" if "8 * n \<le> k"
      using False that by (auto dest!: bit_imp_le_length)
    ultimately show ?thesis by (auto simp: bit_simps)
  qed
  show ?case
    unfolding step bit_or_iff here Suc.IH by (auto simp: less_Suc_eq)
qed

lemma le_get_put [simp, wire_simps]:
  "LENGTH('a) \<le> 8 * n \<Longrightarrow> le_get n (le_put n v @ rest) = (v :: 'a::len word)"
proof (rule bit_word_eqI)
  fix k assume n: "LENGTH('a) \<le> 8 * n" and k: "k < LENGTH('a)"
  then have d: "k div 8 < n" by auto
  then have "(le_put n v @ rest) ! (k div 8) = le_put n v ! (k div 8)"
    by (simp add: nth_append)
  moreover have "8 * (k div 8) + k mod 8 = k" by simp
  ultimately show "bit (le_get n (le_put n v @ rest) :: 'a word) k = bit v k"
    using k d by (simp add: bit_le_get bit_le_put)
qed

lemma le_get_put_self [simp, wire_simps]:
  "LENGTH('a) \<le> 8 * n \<Longrightarrow> le_get n (le_put n v) = (v :: 'a::len word)"
  using le_get_put [of n v "[]"] by simp

lemma le_put_get:
  assumes "length bs = n" and "8 * n \<le> LENGTH('a)"
  shows "le_put n (le_get n bs :: 'a::len word) = bs"
proof (rule nth_equalityI)
  show "length (le_put n (le_get n bs :: 'a word)) = length bs" using assms by simp
next
  fix i assume "i < length (le_put n (le_get n bs :: 'a word))"
  then have i: "i < n" by simp
  show "le_put n (le_get n bs :: 'a word) ! i = bs ! i"
  proof (rule bit_word_eqI)
    fix k :: nat assume "k < LENGTH(8)"
    then have k: "k < 8" by simp
    then have "8 * i + k < LENGTH('a)" "(8 * i + k) div 8 = i" "(8 * i + k) mod 8 = k"
      using i assms(2) by auto
    then show "bit (le_put n (le_get n bs :: 'a word) ! i) k = bit (bs ! i) k"
      using i k by (simp add: bit_le_put bit_le_get)
  qed
qed

lemma le_get_take: "le_get n (take n bs) = (le_get n bs :: 'a::len word)"
proof (rule bit_word_eqI)
  fix k
  show "bit (le_get n (take n bs) :: 'a word) k = bit (le_get n bs :: 'a word) k"
    by (auto simp: bit_le_get)
qed

lemma le_put_inject:
  assumes "LENGTH('a) \<le> 8 * n"
  shows "le_put n (a :: 'a::len word) = le_put n b \<longleftrightarrow> a = b"
  using le_get_put_self [OF assms, of a] le_get_put_self [OF assms, of b] by metis

section \<open>\<^verbatim>\<open>std::map\<close> as an ordered association list\<close>

type_synonym ('k, 'v) omap = "('k \<times> 'v) list"

fun omap_upd :: "'k::linorder \<Rightarrow> 'v \<Rightarrow> ('k, 'v) omap \<Rightarrow> ('k, 'v) omap" where
  "omap_upd k v [] = [(k, v)]"
| "omap_upd k v ((a, b) # m) =
     (if k < a then (k, v) # (a, b) # m
      else if k = a then (k, v) # m
      else (a, b) # omap_upd k v m)"

definition omap_del :: "'k \<Rightarrow> ('k, 'v) omap \<Rightarrow> ('k, 'v) omap" where
  "omap_del k m = filter (\<lambda>p. fst p \<noteq> k) m"

definition omap_wf :: "('k::linorder, 'v) omap \<Rightarrow> bool" where
  "omap_wf m \<longleftrightarrow> sorted_wrt (<) (map fst m)"

lemma omap_wf_Nil [simp, omap_simps]: "omap_wf []"
  by (simp add: omap_wf_def)

lemma omap_wf_Cons [omap_simps]:
  "omap_wf ((a, b) # m) \<longleftrightarrow> (\<forall>k \<in> fst ` set m. a < k) \<and> omap_wf m"
  by (auto simp: omap_wf_def)

lemma omap_wf_distinct: "omap_wf m \<Longrightarrow> distinct (map fst m)"
  by (induction m) (auto simp: omap_wf_def)

lemma fst_omap_upd [simp, omap_simps]: "fst ` set (omap_upd k v m) = insert k (fst ` set m)"
  by (induction k v m rule: omap_upd.induct) (auto simp: insert_commute)

lemma omap_wf_upd [simp, intro]: "omap_wf m \<Longrightarrow> omap_wf (omap_upd k v m)"
  by (induction k v m rule: omap_upd.induct) (fastforce simp: omap_wf_Cons)+

lemma omap_wf_del [simp, intro]: "omap_wf m \<Longrightarrow> omap_wf (omap_del k m)"
  by (induction m) (auto simp: omap_wf_Cons omap_del_def)

lemma omap_wf_map_snd: "omap_wf m \<Longrightarrow> omap_wf (map (\<lambda>(k, v). (k, f k v)) m)"
  by (simp add: omap_wf_def comp_def case_prod_beta)

lemma map_of_omap_upd [simp, omap_simps]:
  "map_of (omap_upd k v m) = (map_of m)(k \<mapsto> v)"
  by (induction m) (auto simp: fun_eq_iff)

lemma map_of_omap_del [simp, omap_simps]:
  "map_of (omap_del k m) = (map_of m)(k := None)"
  by (induction m) (auto simp: omap_del_def fun_eq_iff)

lemma set_omap_upd:
  "omap_wf m \<Longrightarrow> set (omap_upd k v m) = insert (k, v) {p \<in> set m. fst p \<noteq> k}"
proof (induction k v m rule: omap_upd.induct)
  case (1 k v)
  then show ?case by simp
next
  case (2 k v a b m)
  consider "k < a" | "k = a" | "a < k" by force
  then show ?case
  proof cases
    case 1
    with 2 show ?thesis by (fastforce simp: omap_wf_Cons)
  next
    case two: 2
    with 2 show ?thesis by (fastforce simp: omap_wf_Cons)
  next
    case 3
    then have "\<not> k < a" "k \<noteq> a" by auto
    with 2 show ?thesis by (auto simp: omap_wf_Cons)
  qed
qed

lemma set_omap_del: "set (omap_del k m) = {p \<in> set m. fst p \<noteq> k}"
  by (auto simp: omap_del_def)

lemma length_omap_upd:
  "length (omap_upd k v m) \<le> Suc (length m)"
  by (induction m) auto

lemma length_omap_upd_present:
  "k \<in> fst ` set m \<Longrightarrow> omap_wf m \<Longrightarrow> length (omap_upd k v m) = length m"
  by (induction k v m rule: omap_upd.induct) (force simp: omap_wf_Cons)+

lemma length_omap_upd_new: "map_of m k = None \<Longrightarrow> length (omap_upd k v m) = Suc (length m)"
  by (induction m) (auto split: if_splits)

lemma length_omap_upd_any: "length (omap_upd k v m) = length (omap_upd k w m)"
  by (induction m) auto

lemma length_omap_upd_ge: "length m \<le> length (omap_upd k v m)"
  by (induction m) auto

lemma length_omap_del_upd: "length (omap_del k m) \<le> length (omap_upd k v m)"
  using length_filter_le [of "\<lambda>p. fst p \<noteq> k" m] length_omap_upd_ge [of m k v]
  unfolding omap_del_def by linarith

lemma omap_upd_same: "map_of m k = Some v \<Longrightarrow> omap_wf m \<Longrightarrow> omap_upd k v m = m"
  by (induction m) (auto simp: omap_wf_Cons dest: map_of_SomeD, force dest: map_of_SomeD)

lemma omap_upd_upd [simp]: "omap_upd k v (omap_upd k w m) = omap_upd k v m"
  by (induction m) auto

lemma omap_del_upd: "map_of m k = None \<Longrightarrow> omap_del k (omap_upd k v m) = m"
  by (induction m) (force simp: omap_del_def map_of_eq_None_iff intro!: filter_True)+

lemma omap_upd_absent:
  "\<forall>a \<in> fst ` set m. a < k \<Longrightarrow> omap_upd k v m = m @ [(k, v)]"
  by (induction m) auto

section \<open>Event-driven components\<close>

text \<open>
  Most components of the program are objects whose state only changes inside a handler that runs
  to completion on one thread. \<open>event_machine\<close> is the interface such a component offers to the
  proofs above it: a start state, a handler for one event, and an invariant every handler keeps.
\<close>

locale event_machine =
  fixes init :: 's
    and handle :: "'e \<Rightarrow> 's \<Rightarrow> 's"
    and inv :: "'s \<Rightarrow> bool"
  assumes inv_init: "inv init"
    and inv_handle: "inv s \<Longrightarrow> inv (handle e s)"
begin

lemma inv_fold: "inv s \<Longrightarrow> inv (fold handle es s)"
  by (induction es arbitrary: s) (auto intro: inv_handle)

lemma inv_run: "inv (fold handle es init)"
  by (rule inv_fold [OF inv_init])

end

text \<open>The same contract for events of which only some are expected of the environment.\<close>

locale guarded_machine =
  fixes init :: 's
    and handle :: "'e \<Rightarrow> 's \<Rightarrow> 's"
    and inv :: "'s \<Rightarrow> bool"
    and ok :: "'e \<Rightarrow> bool"
  assumes inv_init: "inv init"
    and inv_handle: "inv s \<Longrightarrow> ok e \<Longrightarrow> inv (handle e s)"
begin

lemma inv_fold: "list_all ok es \<Longrightarrow> inv s \<Longrightarrow> inv (fold handle es s)"
  by (induction es arbitrary: s) (auto intro: inv_handle)

lemma inv_run: "list_all ok es \<Longrightarrow> inv (fold handle es init)"
  by (rule inv_fold [OF _ inv_init])

end

sublocale event_machine \<subseteq> guarded: guarded_machine init handle inv "\<lambda>_. True"
  by unfold_locales (simp_all add: inv_init inv_handle)

text \<open>The same interface for a handler that also emits output (datagrams, frames, callbacks).\<close>

fun run_out :: "('e \<Rightarrow> 's \<Rightarrow> 's \<times> 'o list) \<Rightarrow> 'e list \<Rightarrow> 's \<Rightarrow> 's \<times> 'o list" where
  "run_out h [] s = (s, [])"
| "run_out h (e # es) s =
     (let (s1, o1) = h e s; (s2, o2) = run_out h es s1 in (s2, o1 @ o2))"

locale output_machine =
  fixes init :: 's
    and handle :: "'e \<Rightarrow> 's \<Rightarrow> 's \<times> 'o list"
    and inv :: "'s \<Rightarrow> bool"
    and emits :: "'o \<Rightarrow> bool"
  assumes inv_init: "inv init"
    and inv_handle: "inv s \<Longrightarrow> inv (fst (handle e s))"
    and emits_handle: "inv s \<Longrightarrow> out \<in> set (snd (handle e s)) \<Longrightarrow> emits out"
begin

lemma run_out_inv: "inv s \<Longrightarrow> inv (fst (run_out handle es s))"
proof (induction es arbitrary: s)
  case Nil
  then show ?case by simp
next
  case (Cons e es)
  then show ?case using inv_handle [of s e] by (simp add: Let_def case_prod_beta)
qed

lemma run_out_emits: "inv s \<Longrightarrow> out \<in> set (snd (run_out handle es s)) \<Longrightarrow> emits out"
proof (induction es arbitrary: s)
  case Nil
  then show ?case by simp
next
  case (Cons e es)
  then show ?case
    using inv_handle [of s e] emits_handle [of s out e] by (auto simp: Let_def case_prod_beta)
qed

end

lemma run_out_append: "run_out h (es @ fs) s = (let (s1, o1) = run_out h es s; (s2, o2) = run_out h fs s1 in (s2, o1 @ o2))"
  by (induction es arbitrary: s) (simp_all add: Let_def case_prod_beta)

text \<open>A machine refines another when each of its steps is a run of the other on the abstraction, with the same
  outputs; then so is each of its runs.\<close>

locale machine_refinement =
  fixes conc :: "'e \<Rightarrow> 's \<Rightarrow> 's \<times> 'o list"
    and abst :: "'f \<Rightarrow> 'a \<Rightarrow> 'a \<times> 'o list"
    and absf :: "'s \<Rightarrow> 'a"
  assumes sim: "\<exists>fs. run_out abst fs (absf s) = (absf (fst (conc e s)), snd (conc e s))"
begin

lemma run_sim: "\<exists>fs. run_out abst fs (absf s) = (absf (fst (run_out conc es s)), snd (run_out conc es s))"
proof (induction es arbitrary: s)
  case Nil
  show ?case by (rule exI [of _ "[]"]) simp
next
  case (Cons e es)
  obtain f1 where f1: "run_out abst f1 (absf s) = (absf (fst (conc e s)), snd (conc e s))" using sim by blast
  obtain f2 where "run_out abst f2 (absf (fst (conc e s))) =
      (absf (fst (run_out conc es (fst (conc e s)))), snd (run_out conc es (fst (conc e s))))" using Cons.IH by blast
  with f1 have "run_out abst (f1 @ f2) (absf s) = (absf (fst (run_out conc (e # es) s)), snd (run_out conc (e # es) s))"
    by (simp add: run_out_append case_prod_beta Let_def)
  then show ?case by blast
qed

end

end
