(* ===== verification/RP_Types.thy ===== *)
theory RP_Types
  imports RP_Prelude
begin

text \<open>
  \<^verbatim>\<open>common/Types.h\<close>, \<^verbatim>\<open>common/Types.cpp\<close> and the constants of \<^verbatim>\<open>common/Version.h\<close>: the enumerations
  and small value types every layer uses. An enumeration with a fixed underlying type
  (\<^verbatim>\<open>enum class VideoCodec : uint8_t\<close>) has every value of that type, named or not, since the
  program casts raw bytes into it; it is modelled by the word itself with the named values as
  constants. The theorems are the print/parse round trips and the bounds \<open>parse\<close> enforces.
\<close>

section \<open>Enumerations\<close>

datatype ConnectionState = Connecting | Authenticating | Connected | Streaming | Disconnected

fun ConnectionState_toString :: "ConnectionState \<Rightarrow> string" where
  "ConnectionState_toString Connecting = ''CONNECTING''"
| "ConnectionState_toString Authenticating = ''AUTHENTICATING''"
| "ConnectionState_toString Connected = ''CONNECTED''"
| "ConnectionState_toString Streaming = ''STREAMING''"
| "ConnectionState_toString Disconnected = ''DISCONNECTED''"

type_synonym VideoCodec = u8

definition H264 :: VideoCodec where "H264 = 0"
definition Hevc :: VideoCodec where "Hevc = 1"
definition Av1 :: VideoCodec where "Av1 = 2"

definition VideoCodec_toString :: "VideoCodec \<Rightarrow> string" where
  "VideoCodec_toString c =
     (if c = H264 then ''H.264''
      else if c = Hevc then ''HEVC''
      else if c = Av1 then ''AV1''
      else ''UNKNOWN'')"

text \<open>\<^verbatim>\<open>std::tolower\<close> in the C locale, on one byte.\<close>

definition tolower :: "char \<Rightarrow> char" where
  "tolower c =
     (let n = (of_char c :: nat)
      in if 65 \<le> n \<and> n \<le> 90 then char_of (n + 32) else c)"

definition videoCodecFromString :: "string \<Rightarrow> VideoCodec option" where
  "videoCodecFromString name =
     (let n = map tolower name
      in if n = ''h264'' \<or> n = ''h.264'' \<or> n = ''avc'' then Some H264
         else if n = ''hevc'' \<or> n = ''h265'' \<or> n = ''h.265'' then Some Hevc
         else if n = ''av1'' then Some Av1
         else None)"

type_synonym CaptureMode = u8

definition CaptureMode_Window :: CaptureMode where "CaptureMode_Window = 0"
definition CaptureMode_Monitor :: CaptureMode where "CaptureMode_Monitor = 1"

definition CaptureMode_toString :: "CaptureMode \<Rightarrow> string" where
  "CaptureMode_toString m =
     (if m = CaptureMode_Window then ''Window''
      else if m = CaptureMode_Monitor then ''Monitor''
      else ''Unknown'')"

section \<open>Resolution\<close>

record Resolution =
  res_width :: u32
  res_height :: u32

text \<open>Decimal digits of a number, as \<^verbatim>\<open>std::ostream\<close> prints an unsigned integer.\<close>

fun dec_digits :: "nat \<Rightarrow> string" where
  "dec_digits n =
     (if n < 10 then [char_of (48 + n)]
      else dec_digits (n div 10) @ [char_of (48 + n mod 10)])"

declare dec_digits.simps [simp del]

definition Resolution_toString :: "Resolution \<Rightarrow> string" where
  "Resolution_toString r =
     dec_digits (unat (res_width r)) @ ''x'' @ dec_digits (unat (res_height r))"

text \<open>\<^verbatim>\<open>std::isspace\<close> and \<^verbatim>\<open>std::isdigit\<close> in the C locale.\<close>

definition isspace :: "char \<Rightarrow> bool" where
  "isspace c \<longleftrightarrow> (let n = (of_char c :: nat) in n = 32 \<or> 9 \<le> n \<and> n \<le> 13)"

definition isdigit :: "char \<Rightarrow> bool" where
  "isdigit c \<longleftrightarrow> (let n = (of_char c :: nat) in 48 \<le> n \<and> n \<le> 57)"

text \<open>\<^verbatim>\<open>std::strtoul\<close> on a nonempty string of decimal digits: the value, saturated at
  \<^verbatim>\<open>ULONG_MAX\<close> of the 32-bit \<^verbatim>\<open>unsigned long\<close> of the Windows target.\<close>

definition digit_val :: "char \<Rightarrow> nat" where
  "digit_val c = of_char c - 48"

definition strtoul10 :: "string \<Rightarrow> nat" where
  "strtoul10 s = min (2 ^ 32 - 1) (foldl (\<lambda>acc c. acc * 10 + digit_val c) 0 s)"

definition Resolution_parse :: "string \<Rightarrow> Resolution option" where
  "Resolution_parse text =
     (let cleaned = filter (\<lambda>ch. \<not> isspace ch) text;
          cleaned = map (\<lambda>ch. if ch = CHR ''X'' \<or> ch = CHR ''*'' \<or> ch = CHR ''x'' then CHR ''x'' else ch) cleaned;
          w = takeWhile (\<lambda>ch. ch \<noteq> CHR ''x'') cleaned;
          rest = dropWhile (\<lambda>ch. ch \<noteq> CHR ''x'') cleaned
      in if rest = [] then None
         else
           let h = tl rest in
           if w = [] \<or> h = [] then None
           else if \<not> list_all isdigit w then None
           else if \<not> list_all isdigit h then None
           else
             let ww = strtoul10 w; hh = strtoul10 h in
             if ww < 320 \<or> ww > 8192 \<or> hh < 240 \<or> hh > 8192 then None
             else Some \<lparr>res_width = word_of_nat ww, res_height = word_of_nat hh\<rparr>)"

definition Resolution_presets :: "Resolution list" where
  "Resolution_presets =
     [\<lparr>res_width = 1280, res_height = 720\<rparr>, \<lparr>res_width = 1920, res_height = 1080\<rparr>,
      \<lparr>res_width = 2560, res_height = 1440\<rparr>, \<lparr>res_width = 3840, res_height = 2160\<rparr>]"

definition fpsPresets :: "int list" where
  "fpsPresets = [30, 60, 120]"

definition res_in_range :: "Resolution \<Rightarrow> bool" where
  "res_in_range r \<longleftrightarrow>
     320 \<le> unat (res_width r) \<and> unat (res_width r) \<le> 8192 \<and>
     240 \<le> unat (res_height r) \<and> unat (res_height r) \<le> 8192"

section \<open>Input permissions\<close>

record InputPermissions =
  perm_controller :: bool
  perm_keyboard :: bool
  perm_mouse :: bool
  perm_vibration :: bool

definition InputPermissions_default :: InputPermissions where
  "InputPermissions_default =
     \<lparr>perm_controller = True, perm_keyboard = False, perm_mouse = False, perm_vibration = True\<rparr>"

definition allDisabled :: "InputPermissions \<Rightarrow> bool" where
  "allDisabled p \<longleftrightarrow> \<not> perm_controller p \<and> \<not> perm_keyboard p \<and> \<not> perm_mouse p"

section \<open>Version constants\<close>

definition kAppVersion :: string where "kAppVersion = ''0.1.1''"
definition kDefaultListenPort :: u16 where "kDefaultListenPort = 41717"
definition kMaxClients :: nat where "kMaxClients = 4"

section \<open>Digits\<close>

lemma digit_val_char [simp]: "d < 10 \<Longrightarrow> digit_val (char_of (48 + d)) = d"
  by (simp add: digit_val_def)

lemma dec_digits_value: "foldl (\<lambda>acc c. acc * 10 + digit_val c) 0 (dec_digits n) = n"
proof (induction n rule: dec_digits.induct)
  case (1 n)
  then show ?case
    by (cases "n < 10") (simp_all add: dec_digits.simps [of n])
qed

lemma dec_digits_isdigit: "list_all isdigit (dec_digits n)"
proof (induction n rule: dec_digits.induct)
  case (1 n)
  then show ?case
    by (cases "n < 10") (simp_all add: dec_digits.simps [of n] isdigit_def Let_def)
qed

lemma dec_digits_nonempty [simp]: "dec_digits n \<noteq> []"
  by (subst dec_digits.simps) simp

lemma strtoul10_dec_digits: "n < 2 ^ 32 \<Longrightarrow> strtoul10 (dec_digits n) = n"
  by (simp add: strtoul10_def dec_digits_value)

lemma isdigit_plain:
  "isdigit c \<Longrightarrow> \<not> isspace c \<and> c \<noteq> CHR ''X'' \<and> c \<noteq> CHR ''*'' \<and> c \<noteq> CHR ''x''"
  by (auto simp: isdigit_def isspace_def Let_def)

lemma digits_cleaned:
  assumes "list_all isdigit s"
  shows "filter (\<lambda>ch. \<not> isspace ch) s = s"
    and "map (\<lambda>ch. if ch = CHR ''X'' \<or> ch = CHR ''*'' \<or> ch = CHR ''x'' then CHR ''x'' else ch) s = s"
    and "takeWhile (\<lambda>ch. ch \<noteq> CHR ''x'') (s @ CHR ''x'' # t) = s"
    and "dropWhile (\<lambda>ch. ch \<noteq> CHR ''x'') (s @ CHR ''x'' # t) = CHR ''x'' # t"
proof -
  have d: "isdigit c" if "c \<in> set s" for c
    using assms that by (simp add: list_all_iff)
  show "filter (\<lambda>ch. \<not> isspace ch) s = s"
    using d isdigit_plain by (simp add: filter_id_conv)
  show "map (\<lambda>ch. if ch = CHR ''X'' \<or> ch = CHR ''*'' \<or> ch = CHR ''x'' then CHR ''x'' else ch) s = s"
    by (rule map_idI) (use d isdigit_plain in auto)
  show "takeWhile (\<lambda>ch. ch \<noteq> CHR ''x'') (s @ CHR ''x'' # t) = s"
    using d isdigit_plain by (subst takeWhile_append2) auto
  show "dropWhile (\<lambda>ch. ch \<noteq> CHR ''x'') (s @ CHR ''x'' # t) = CHR ''x'' # t"
    using d isdigit_plain by (subst dropWhile_append2) auto
qed

lemma isspace_x [simp]: "\<not> isspace CHR ''x''"
  by (simp add: isspace_def)

lemma Resolution_parse_digits:
  assumes "list_all isdigit w" "list_all isdigit h" "w \<noteq> []" "h \<noteq> []"
  shows "Resolution_parse (w @ ''x'' @ h) =
    (let ww = strtoul10 w; hh = strtoul10 h in
     if ww < 320 \<or> ww > 8192 \<or> hh < 240 \<or> hh > 8192 then None
     else Some \<lparr>res_width = word_of_nat ww, res_height = word_of_nat hh\<rparr>)"
proof -
  have "map (\<lambda>ch. if ch = CHR ''X'' \<or> ch = CHR ''*'' \<or> ch = CHR ''x'' then CHR ''x'' else ch)
      (filter (\<lambda>ch. \<not> isspace ch) (w @ ''x'' @ h)) = w @ CHR ''x'' # h"
    by (simp add: digits_cleaned [OF assms(1)] digits_cleaned [OF assms(2)])
  then show ?thesis
    using assms by (simp add: Resolution_parse_def Let_def digits_cleaned [OF assms(1)])
qed

section \<open>Properties\<close>

text \<open>
  Printing a resolution that lies in the accepted range (320..8192 by 240..8192) and parsing the
  text again gives the same resolution, so a configuration file written by the program keeps the
  resolution it was written with.
\<close>

theorem Resolution_roundtrip:
  assumes "res_in_range r"
  shows "Resolution_parse (Resolution_toString r) = Some r"
proof -
  let ?w = "unat (res_width r)" and ?h = "unat (res_height r)"
  have "?w < 2 ^ 32" "?h < 2 ^ 32"
    using assms by (auto simp: res_in_range_def)
  then show ?thesis
    using assms unfolding Resolution_toString_def
    by (subst Resolution_parse_digits)
      (auto simp: dec_digits_isdigit strtoul10_dec_digits res_in_range_def Let_def)
qed

theorem Resolution_roundtrip_witness:
  "Resolution_parse (Resolution_toString \<lparr>res_width = 1920, res_height = 1080\<rparr>) =
     Some \<lparr>res_width = 1920, res_height = 1080\<rparr>"
  by (rule Resolution_roundtrip) (simp add: res_in_range_def)

text \<open>
  Whatever text a configuration file holds, a resolution that \<open>Resolution::parse\<close> accepts is in
  range, so the 16-bit casts of the capability messages never truncate it.
\<close>

theorem Resolution_parse_bounds:
  assumes "Resolution_parse text = Some r"
  shows "res_in_range r \<and> unat (ucast (res_width r) :: u16) = unat (res_width r) \<and>
         unat (ucast (res_height r) :: u16) = unat (res_height r)"
proof -
  obtain ww hh where r: "r = \<lparr>res_width = word_of_nat ww, res_height = word_of_nat hh\<rparr>"
    and b: "320 \<le> ww" "ww \<le> 8192" "240 \<le> hh" "hh \<le> 8192"
    using assms by (auto simp: Resolution_parse_def Let_def split: if_splits)
  have "unat (word_of_nat ww :: u32) = ww" "unat (word_of_nat hh :: u32) = hh"
    using b by (simp_all add: unat_of_nat)
  moreover from this have "unat (ucast (word_of_nat ww :: u32) :: u16) = ww"
      "unat (ucast (word_of_nat hh :: u32) :: u16) = hh"
    using b by (simp_all add: unsigned_ucast_eq take_bit_nat_eq_self)
  ultimately show ?thesis
    using b by (simp add: r res_in_range_def)
qed

theorem Resolution_parse_bounds_witness:
  "res_in_range \<lparr>res_width = 1280, res_height = 720\<rparr> \<and>
   unat (ucast (1280 :: u32) :: u16) = unat (1280 :: u32) \<and>
   unat (ucast (720 :: u32) :: u16) = unat (720 :: u32)"
proof -
  have "Resolution_parse '' 1280 * 720 '' = Some \<lparr>res_width = 1280, res_height = 720\<rparr>"
    by (simp add: Resolution_parse_def isspace_def isdigit_def strtoul10_def digit_val_def)
  from Resolution_parse_bounds [OF this] show ?thesis by simp
qed

end
