(* ===== verification/Config.thy ===== *)
theory Config
  imports RP_Types
begin

text \<open>
  \<^verbatim>\<open>common/Config.h\<close> and \<^verbatim>\<open>common/Config.cpp\<close>: the persisted settings. The JSON library and the file are
  parameters: \<open>JsonLib\<close> holds the operations of \<^verbatim>\<open>nlohmann::json\<close> the code calls, over an arbitrary type
  of values and of texts, and \<open>json_laws\<close> what its documentation promises of them.

  The theorems: whatever the file holds the settings \<^verbatim>\<open>load\<close> returns are in their documented ranges, it
  throws exactly when the parser fails with something else than a \<^verbatim>\<open>parse_error\<close>, and a saved configuration
  is loaded back unchanged.
\<close>

section \<open>Settings\<close>

datatype AudioCodec = Opus

record VideoSettings =
  vs_codec :: VideoCodec
  vs_resolution :: Resolution
  vs_fps :: int
  vs_bitrateMbps :: int

record AudioSettings =
  as_codec :: AudioCodec
  as_bitrateKbps :: int

record InputSettings =
  in_controller :: bool
  in_keyboard :: bool
  in_mouse :: bool
  in_vibration :: bool
  in_requireHostApproval :: bool

record NetworkSettings =
  nw_maxBitrateMbps :: int
  nw_jitterBufferMs :: int
  nw_listenPort :: int
  nw_relayEnabled :: bool

record Config =
  cfg_video :: VideoSettings
  cfg_audio :: AudioSettings
  cfg_input :: InputSettings
  cfg_network :: NetworkSettings
  cfg_profile_name :: string

definition Config_default :: Config where
  "Config_default = \<lparr>
     cfg_video = \<lparr>vs_codec = H264, vs_resolution = \<lparr>res_width = 1920, res_height = 1080\<rparr>, vs_fps = 60, vs_bitrateMbps = 8\<rparr>,
     cfg_audio = \<lparr>as_codec = Opus, as_bitrateKbps = 128\<rparr>,
     cfg_input = \<lparr>in_controller = True, in_keyboard = False, in_mouse = False, in_vibration = True, in_requireHostApproval = True\<rparr>,
     cfg_network = \<lparr>nw_maxBitrateMbps = 15, nw_jitterBufferMs = 30, nw_listenPort = 41717, nw_relayEnabled = False\<rparr>,
     cfg_profile_name = []\<rparr>"

section \<open>The JSON library\<close>

text \<open>\<open>jl_find\<close> is \<^verbatim>\<open>contains\<close> and \<^verbatim>\<open>at\<close> on an object; \<open>jl_int\<close> is \<^verbatim>\<open>get<long long>\<close> of an integer value,
  \<open>jl_bool\<close> and \<open>jl_string\<close> likewise; \<open>jl_parse\<close> fails where the library throws, and \<open>jl_parse_error\<close> says
  whether the exception is a \<^verbatim>\<open>parse_error\<close>: a number too large for a double makes it an \<^verbatim>\<open>out_of_range\<close>.
  \<open>jl_dump\<close> fails on a string that is not valid UTF-8, where the library throws too.\<close>

record ('j, 't) JsonLib =
  jl_is_object :: "'j \<Rightarrow> bool"
  jl_find :: "'j \<Rightarrow> string \<Rightarrow> 'j option"
  jl_int :: "'j \<Rightarrow> int option"
  jl_bool :: "'j \<Rightarrow> bool option"
  jl_string :: "'j \<Rightarrow> string option"
  jl_of_int :: "int \<Rightarrow> 'j"
  jl_of_bool :: "bool \<Rightarrow> 'j"
  jl_of_string :: "string \<Rightarrow> 'j"
  jl_object :: "(string \<times> 'j) list \<Rightarrow> 'j"
  jl_parse :: "'t \<Rightarrow> 'j option"
  jl_parse_error :: "'t \<Rightarrow> bool"
  jl_dump :: "'j \<Rightarrow> 't option"

definition json_laws :: "('j, 't) JsonLib \<Rightarrow> bool" where
  "json_laws J \<longleftrightarrow>
     (\<forall>kvs. jl_is_object J (jl_object J kvs)) \<and>
     (\<forall>kvs k. jl_find J (jl_object J kvs) k = map_of kvs k) \<and>
     (\<forall>n. jl_int J (jl_of_int J n) = Some n) \<and>
     (\<forall>b. jl_bool J (jl_of_bool J b) = Some b) \<and>
     (\<forall>s. jl_string J (jl_of_string J s) = Some s) \<and>
     (\<forall>j text. jl_dump J j = Some text \<longrightarrow> jl_parse J text = Some j)"

section \<open>Reading\<close>

definition clampInt :: "('j, 't) JsonLib \<Rightarrow> 'j \<Rightarrow> string \<Rightarrow> int \<Rightarrow> int \<Rightarrow> int \<Rightarrow> int" where
  "clampInt J j key def lo hi =
     (if \<not> jl_is_object J j then def
      else case jl_find J j key of
        None \<Rightarrow> def
      | Some v \<Rightarrow>
          case jl_int J v of
            None \<Rightarrow> def
          | Some n \<Rightarrow> let n = (if n < lo then lo else n) in if n > hi then hi else n)"

definition boolOr :: "('j, 't) JsonLib \<Rightarrow> 'j \<Rightarrow> string \<Rightarrow> bool \<Rightarrow> bool" where
  "boolOr J j key def =
     (if \<not> jl_is_object J j then def
      else case jl_find J j key of
        None \<Rightarrow> def
      | Some v \<Rightarrow> (case jl_bool J v of None \<Rightarrow> def | Some b \<Rightarrow> b))"

definition stringOr :: "('j, 't) JsonLib \<Rightarrow> 'j \<Rightarrow> string \<Rightarrow> string \<Rightarrow> string" where
  "stringOr J j key def =
     (if \<not> jl_is_object J j then def
      else case jl_find J j key of
        None \<Rightarrow> def
      | Some v \<Rightarrow> (case jl_string J v of None \<Rightarrow> def | Some s \<Rightarrow> s))"

definition std_clamp :: "int \<Rightarrow> int \<Rightarrow> int \<Rightarrow> int" where
  "std_clamp v lo hi = (if v < lo then lo else if hi < v then hi else v)"

definition sanitize_video :: "VideoSettings \<Rightarrow> VideoSettings" where
  "sanitize_video v =
     (let v = (if vs_fps v \<notin> set fpsPresets then v\<lparr>vs_fps := 60\<rparr> else v);
          v = v\<lparr>vs_bitrateMbps := std_clamp (vs_bitrateMbps v) 2 50\<rparr>;
          r = vs_resolution v
      in if res_width r < 320 \<or> res_width r > 8192 \<or> res_height r < 240 \<or> res_height r > 8192
         then v\<lparr>vs_resolution := \<lparr>res_width = 1920, res_height = 1080\<rparr>\<rparr> else v)"

definition audioChoices :: "int list" where "audioChoices = [64, 96, 128, 192]"

definition sanitize_network :: "NetworkSettings \<Rightarrow> NetworkSettings" where
  "sanitize_network n = n\<lparr>nw_maxBitrateMbps := std_clamp (nw_maxBitrateMbps n) 2 50,
     nw_jitterBufferMs := std_clamp (nw_jitterBufferMs n) 10 200,
     nw_listenPort := std_clamp (nw_listenPort n) 1 65535\<rparr>"

definition sanitize :: "Config \<Rightarrow> Config" where
  "sanitize c = c\<lparr>cfg_video := sanitize_video (cfg_video c),
     cfg_audio := (if as_bitrateKbps (cfg_audio c) \<notin> set audioChoices then (cfg_audio c)\<lparr>as_bitrateKbps := 128\<rparr>
                   else cfg_audio c),
     cfg_network := sanitize_network (cfg_network c)\<rparr>"

definition section_of :: "('j, 't) JsonLib \<Rightarrow> 'j \<Rightarrow> string \<Rightarrow> 'j" where
  "section_of J root key = (case jl_find J root key of Some j \<Rightarrow> j | None \<Rightarrow> jl_object J [])"

definition config_of_json :: "('j, 't) JsonLib \<Rightarrow> 'j \<Rightarrow> Config" where
  "config_of_json J root =
     (let video = section_of J root ''video''; audio = section_of J root ''audio'';
          inp = section_of J root ''input''; network = section_of J root ''network'';
          profile = section_of J root ''profile''
      in sanitize \<lparr>
        cfg_video = \<lparr>
          vs_codec = (case videoCodecFromString (stringOr J video ''codec'' ''h264'') of Some c \<Rightarrow> c | None \<Rightarrow> H264),
          vs_resolution = (case Resolution_parse (stringOr J video ''resolution'' ''1920x1080'') of
             Some r \<Rightarrow> r | None \<Rightarrow> \<lparr>res_width = 1920, res_height = 1080\<rparr>),
          vs_fps = clampInt J video ''fps'' 60 1 1000,
          vs_bitrateMbps = clampInt J video ''bitrateMbps'' 8 2 50\<rparr>,
        cfg_audio = \<lparr>as_codec = Opus, as_bitrateKbps = clampInt J audio ''bitrateKbps'' 128 32 512\<rparr>,
        cfg_input = \<lparr>
          in_controller = boolOr J inp ''controller'' True, in_keyboard = boolOr J inp ''keyboard'' False,
          in_mouse = boolOr J inp ''mouse'' False, in_vibration = boolOr J inp ''vibration'' True,
          in_requireHostApproval = boolOr J inp ''requireHostApproval'' True\<rparr>,
        cfg_network = \<lparr>
          nw_maxBitrateMbps = clampInt J network ''maxBitrateMbps'' 15 2 50,
          nw_jitterBufferMs = clampInt J network ''jitterBufferMs'' 30 10 200,
          nw_listenPort = clampInt J network ''listenPort'' (uint kDefaultListenPort) 1 65535,
          nw_relayEnabled = boolOr J network ''relayEnabled'' False\<rparr>,
        cfg_profile_name = take 32 (stringOr J profile ''name'' [])\<rparr>)"

text \<open>A file is absent (\<open>None\<close>), or present and perhaps not readable (\<open>Some None\<close>). The result is \<open>None\<close> when an
  exception leaves the function: only a \<^verbatim>\<open>parse_error\<close> is caught.\<close>

definition config_load :: "('j, 't) JsonLib \<Rightarrow> 't option option \<Rightarrow> Config option" where
  "config_load J file =
     (case file of
        None \<Rightarrow> Some Config_default
      | Some None \<Rightarrow> Some Config_default
      | Some (Some text) \<Rightarrow>
          (case jl_parse J text of
             None \<Rightarrow> if jl_parse_error J text then Some Config_default else None
           | Some root \<Rightarrow> Some (if \<not> jl_is_object J root then Config_default else config_of_json J root)))"

section \<open>Writing\<close>

definition json_of_config :: "('j, 't) JsonLib \<Rightarrow> Config \<Rightarrow> 'j" where
  "json_of_config J c =
     (let v = cfg_video c; a = cfg_audio c; i = cfg_input c; n = cfg_network c
      in jl_object J
        [(''video'', jl_object J
            [(''codec'', jl_of_string J (VideoCodec_toString (vs_codec v))),
             (''resolution'', jl_of_string J (Resolution_toString (vs_resolution v))),
             (''fps'', jl_of_int J (vs_fps v)), (''bitrateMbps'', jl_of_int J (vs_bitrateMbps v))]),
         (''audio'', jl_object J
            [(''codec'', jl_of_string J ''opus''), (''bitrateKbps'', jl_of_int J (as_bitrateKbps a))]),
         (''input'', jl_object J
            [(''controller'', jl_of_bool J (in_controller i)), (''keyboard'', jl_of_bool J (in_keyboard i)),
             (''mouse'', jl_of_bool J (in_mouse i)), (''vibration'', jl_of_bool J (in_vibration i)),
             (''requireHostApproval'', jl_of_bool J (in_requireHostApproval i))]),
         (''network'', jl_object J
            [(''maxBitrateMbps'', jl_of_int J (nw_maxBitrateMbps n)), (''jitterBufferMs'', jl_of_int J (nw_jitterBufferMs n)),
             (''listenPort'', jl_of_int J (nw_listenPort n)), (''relayEnabled'', jl_of_bool J (nw_relayEnabled n))]),
         (''profile'', jl_object J [(''name'', jl_of_string J (cfg_profile_name c))])])"

datatype 't save_result =
    SaveFailed
  | SaveThrows
  | Saved 't

text \<open>\<open>dir\<close>, \<open>opened\<close>, \<open>good\<close>: whether the directory could be created, the file opened and the text
  written. The file is opened, and so truncated, before the text is made.\<close>

definition config_save :: "('j, 't) JsonLib \<Rightarrow> bool \<Rightarrow> bool \<Rightarrow> bool \<Rightarrow> Config \<Rightarrow> 't save_result" where
  "config_save J dir opened good c =
     (if \<not> dir then SaveFailed
      else if \<not> opened then SaveFailed
      else case jl_dump J (json_of_config J c) of
        None \<Rightarrow> SaveThrows
      | Some text \<Rightarrow> if good then Saved text else SaveFailed)"

section \<open>Ranges\<close>

definition config_ok :: "Config \<Rightarrow> bool" where
  "config_ok c \<longleftrightarrow>
     vs_codec (cfg_video c) \<in> {H264, Hevc, Av1} \<and> res_in_range (vs_resolution (cfg_video c)) \<and>
     vs_fps (cfg_video c) \<in> {30, 60, 120} \<and> vs_bitrateMbps (cfg_video c) \<in> {2..50} \<and>
     as_bitrateKbps (cfg_audio c) \<in> {64, 96, 128, 192} \<and>
     nw_maxBitrateMbps (cfg_network c) \<in> {2..50} \<and> nw_jitterBufferMs (cfg_network c) \<in> {10..200} \<and>
     nw_listenPort (cfg_network c) \<in> {1..65535} \<and> length (cfg_profile_name c) \<le> 32"

lemma res_range_words:
  "res_in_range r \<longleftrightarrow> \<not> (res_width r < 320 \<or> res_width r > 8192 \<or> res_height r < 240 \<or> res_height r > 8192)"
  by (auto simp: res_in_range_def word_less_nat_alt word_le_nat_alt not_less)

lemma std_clamp_range: "lo \<le> hi \<Longrightarrow> std_clamp v lo hi \<in> {lo..hi}"
  by (auto simp: std_clamp_def)

lemma std_clamp_id: "v \<in> {lo..hi} \<Longrightarrow> std_clamp v lo hi = v"
  by (auto simp: std_clamp_def)

lemma sanitize_video_range:
  "res_in_range (vs_resolution (sanitize_video v)) \<and> vs_fps (sanitize_video v) \<in> {30, 60, 120} \<and>
   vs_bitrateMbps (sanitize_video v) \<in> {2..50} \<and> vs_codec (sanitize_video v) = vs_codec v"
proof -
  have "res_in_range \<lparr>res_width = 1920, res_height = 1080\<rparr>" by (simp add: res_in_range_def)
  then show ?thesis
    using std_clamp_range [of 2 50]
    by (auto simp: sanitize_video_def Let_def fpsPresets_def res_range_words)
qed

lemma sanitize_ok:
  assumes "vs_codec (cfg_video c) \<in> {H264, Hevc, Av1}" and "length (cfg_profile_name c) \<le> 32"
  shows "config_ok (sanitize c)"
  using assms sanitize_video_range [of "cfg_video c"] std_clamp_range
  by (simp add: config_ok_def sanitize_def sanitize_network_def audioChoices_def)

lemma sanitize_id: "config_ok c \<Longrightarrow> sanitize c = c"
proof -
  assume ok: "config_ok c"
  have v: "sanitize_video (cfg_video c) = cfg_video c"
    using ok by (auto simp: config_ok_def sanitize_video_def Let_def fpsPresets_def res_range_words std_clamp_id)
  have n: "sanitize_network (cfg_network c) = cfg_network c"
    using ok by (simp add: config_ok_def sanitize_network_def std_clamp_id)
  have "as_bitrateKbps (cfg_audio c) \<in> set audioChoices" using ok by (simp add: config_ok_def audioChoices_def)
  then show ?thesis by (simp add: sanitize_def v n)
qed

lemma default_ok: "config_ok Config_default"
  by (simp add: config_ok_def Config_default_def res_in_range_def)

lemma config_of_json_ok: "config_ok (config_of_json J root)"
  unfolding config_of_json_def Let_def
  by (rule sanitize_ok) (auto simp: videoCodecFromString_def Let_def split: option.split)

section \<open>Reading back what was written\<close>

lemma codec_name_parse: "c \<in> {H264, Hevc, Av1} \<Longrightarrow> videoCodecFromString (VideoCodec_toString c) = Some c"
proof -
  have "videoCodecFromString (VideoCodec_toString H264) = Some H264"
    "videoCodecFromString (VideoCodec_toString Hevc) = Some Hevc"
    "videoCodecFromString (VideoCodec_toString Av1) = Some Av1" by code_simp+
  then show "c \<in> {H264, Hevc, Av1} \<Longrightarrow> videoCodecFromString (VideoCodec_toString c) = Some c" by blast
qed

lemma read_written:
  assumes "json_laws J"
  shows "lo \<le> n \<Longrightarrow> n \<le> hi \<Longrightarrow> map_of kvs k = Some (jl_of_int J n) \<Longrightarrow> clampInt J (jl_object J kvs) k d lo hi = n"
    and "map_of kvs k = Some (jl_of_bool J b) \<Longrightarrow> boolOr J (jl_object J kvs) k e = b"
    and "map_of kvs k = Some (jl_of_string J s) \<Longrightarrow> stringOr J (jl_object J kvs) k f = s"
  using assms by (simp_all add: json_laws_def clampInt_def boolOr_def stringOr_def)

lemma section_written:
  "json_laws J \<Longrightarrow> map_of kvs k = Some j \<Longrightarrow> section_of J (jl_object J kvs) k = j"
  by (simp add: json_laws_def section_of_def)

lemma settings_eta:
  "\<lparr>vs_codec = vs_codec v, vs_resolution = vs_resolution v, vs_fps = vs_fps v, vs_bitrateMbps = vs_bitrateMbps v\<rparr> = v"
  "\<lparr>as_codec = Opus, as_bitrateKbps = as_bitrateKbps a\<rparr> = a"
  "\<lparr>in_controller = in_controller i, in_keyboard = in_keyboard i, in_mouse = in_mouse i,
     in_vibration = in_vibration i, in_requireHostApproval = in_requireHostApproval i\<rparr> = i"
  "\<lparr>nw_maxBitrateMbps = nw_maxBitrateMbps n, nw_jitterBufferMs = nw_jitterBufferMs n,
     nw_listenPort = nw_listenPort n, nw_relayEnabled = nw_relayEnabled n\<rparr> = n"
  "\<lparr>cfg_video = cfg_video c, cfg_audio = cfg_audio c, cfg_input = cfg_input c, cfg_network = cfg_network c,
     cfg_profile_name = cfg_profile_name c\<rparr> = c"
  for v :: VideoSettings and a :: AudioSettings and i :: InputSettings and n :: NetworkSettings and c :: Config
  by (simp_all, cases "as_codec a", simp)

lemma config_json_roundtrip:
  assumes J: "json_laws J" and ok: "config_ok c"
  shows "config_of_json J (json_of_config J c) = c"
proof -
  have r: "Resolution_parse (Resolution_toString (vs_resolution (cfg_video c))) = Some (vs_resolution (cfg_video c))"
    using ok by (intro Resolution_roundtrip) (simp add: config_ok_def)
  have bounds: "1 \<le> vs_fps (cfg_video c)" "vs_fps (cfg_video c) \<le> 1000"
    "2 \<le> vs_bitrateMbps (cfg_video c)" "vs_bitrateMbps (cfg_video c) \<le> 50"
    "32 \<le> as_bitrateKbps (cfg_audio c)" "as_bitrateKbps (cfg_audio c) \<le> 512"
    "2 \<le> nw_maxBitrateMbps (cfg_network c)" "nw_maxBitrateMbps (cfg_network c) \<le> 50"
    "10 \<le> nw_jitterBufferMs (cfg_network c)" "nw_jitterBufferMs (cfg_network c) \<le> 200"
    "1 \<le> nw_listenPort (cfg_network c)" "nw_listenPort (cfg_network c) \<le> 65535"
    "length (cfg_profile_name c) \<le> 32" "vs_codec (cfg_video c) \<in> {H264, Hevc, Av1}"
    using ok by (auto simp: config_ok_def)
  have "config_of_json J (json_of_config J c) = sanitize c"
    using bounds codec_name_parse [OF bounds(14)]
    by (simp add: config_of_json_def json_of_config_def Let_def section_written [OF J] read_written [OF J] r settings_eta)
  then show ?thesis by (simp add: sanitize_id ok)
qed

lemma config_load_ok: "config_load J file = Some c \<Longrightarrow> config_ok c"
  by (auto simp: config_load_def default_ok config_of_json_ok split: option.splits if_splits)

lemma config_load_throws:
  "config_load J file = None \<longleftrightarrow> (\<exists>text. file = Some (Some text) \<and> jl_parse J text = None \<and> \<not> jl_parse_error J text)"
  by (auto simp: config_load_def split: option.splits)

text \<open>Whatever the file holds, and whether or not it can be read or parsed, the settings \<^verbatim>\<open>load\<close> returns
  are in their documented ranges, and sanitising them again changes nothing. It returns none, and an
  exception leaves it, exactly when the parser fails with another exception than a \<^verbatim>\<open>parse_error\<close>.\<close>

theorem config_load_in_range:
  "case config_load J file of
     None \<Rightarrow> \<exists>text. file = Some (Some text) \<and> jl_parse J text = None \<and> \<not> jl_parse_error J text
   | Some c \<Rightarrow> config_ok c \<and> sanitize c = c"
  using config_load_throws [of J "file"] config_load_ok [of J "file"] sanitize_id by (auto split: option.split)

text \<open>C37: With a JSON library that keeps its documented laws, a configuration in range that \<^verbatim>\<open>save\<close> writes is
  the one \<^verbatim>\<open>load\<close> reads from the file.\<close>

theorem config_save_load:
  assumes "json_laws J" and "config_ok c" and "config_save J dir opened good c = Saved text"
  shows "config_load J (Some (Some text)) = Some c"
proof -
  have "jl_dump J (json_of_config J c) = Some text"
    using assms(3) by (auto simp: config_save_def split: if_splits option.splits)
  then have "jl_parse J text = Some (json_of_config J c)" using assms(1) by (simp add: json_laws_def)
  moreover have "jl_is_object J (json_of_config J c)" using assms(1) by (simp add: json_laws_def json_of_config_def Let_def)
  ultimately show ?thesis by (simp add: config_load_def config_json_roundtrip [OF assms(1,2)])
qed

text \<open>A small JSON library whose texts are its values.\<close>

datatype json = JInt int | JBool bool | JStr string | JObj "(string \<times> json) list"

definition json_example :: "(json, json) JsonLib" where
  "json_example = \<lparr>
     jl_is_object = (\<lambda>j. case j of JObj kvs \<Rightarrow> True | _ \<Rightarrow> False),
     jl_find = (\<lambda>j k. case j of JObj kvs \<Rightarrow> map_of kvs k | _ \<Rightarrow> None),
     jl_int = (\<lambda>j. case j of JInt n \<Rightarrow> Some n | _ \<Rightarrow> None),
     jl_bool = (\<lambda>j. case j of JBool b \<Rightarrow> Some b | _ \<Rightarrow> None),
     jl_string = (\<lambda>j. case j of JStr s \<Rightarrow> Some s | _ \<Rightarrow> None),
     jl_of_int = JInt, jl_of_bool = JBool, jl_of_string = JStr, jl_object = JObj,
     jl_parse = Some, jl_parse_error = (\<lambda>_. True), jl_dump = Some\<rparr>"

theorem config_save_load_witness:
  "let c = Config_default\<lparr>cfg_profile_name := ''Ann''\<rparr>
   in config_load json_example (Some (Some (json_of_config json_example c))) = Some c"
  unfolding Let_def
proof (rule config_save_load)
  let ?c = "Config_default\<lparr>cfg_profile_name := ''Ann''\<rparr>"
  show "json_laws json_example" by (simp add: json_laws_def json_example_def)
  show "config_ok ?c" using default_ok by (simp add: config_ok_def)
  show "config_save json_example True True True ?c = Saved (json_of_config json_example ?c)"
    by (simp add: config_save_def json_example_def)
qed

end
