(* ===== verification/Packet.thy ===== *)
theory Packet
  imports RP_Prelude "HOL-Library.State_Monad"
begin

text \<open>
  \<^verbatim>\<open>networking/Packet.h\<close> and \<^verbatim>\<open>networking/Packet.cpp\<close>: the 10-byte frame header of the TCP control
  channel, and the little-endian \<open>ByteWriter\<close> and bounds-checked \<open>ByteReader\<close> the message layer is
  built on. A writer is its buffer; a reader is the record of its four members, and its methods are
  state transformers over it, as in the source. The locale \<open>field_codec\<close> is the contract between
  one writer method and the matching reader method; every pair is an interpretation of it, and
  \<open>reader_stable\<close> is the composable fact that reading never looks past the bytes it consumes.
\<close>

section \<open>Frame header\<close>

definition kFrameMagic :: u16 where "kFrameMagic = 0x5250"
definition kFrameVersion :: u8 where "kFrameVersion = 1"
definition kFrameHeaderSize :: nat where "kFrameHeaderSize = 10"
definition kMaxControlPayload :: u32 where "kMaxControlPayload = 64 * 1024"

record FrameHeader =
  fh_magic :: u16
  fh_version :: u8
  fh_type :: u16
  fh_flags :: u8
  fh_payloadSize :: u32

definition FrameHeader_valid :: "FrameHeader \<Rightarrow> bool" where
  "FrameHeader_valid h \<longleftrightarrow>
     fh_magic h = kFrameMagic \<and> fh_version h = kFrameVersion \<and> fh_payloadSize h \<le> kMaxControlPayload"

text \<open>A null payload pointer is \<open>None\<close>.\<close>

definition makeFrame :: "u16 \<Rightarrow> u8 \<Rightarrow> bytes option \<Rightarrow> u32 \<Rightarrow> bytes" where
  "makeFrame ty fl payload payloadSize =
     le_put 2 kFrameMagic @ [kFrameVersion] @ le_put 2 ty @ [fl] @ le_put 4 payloadSize @
     (case payload of
        None \<Rightarrow> []
      | Some p \<Rightarrow> if payloadSize \<noteq> 0 then take (unat payloadSize) p else [])"

definition makeFrame_vec :: "u16 \<Rightarrow> bytes \<Rightarrow> bytes" where
  "makeFrame_vec ty payload =
     makeFrame ty 0 (if payload = [] then None else Some payload) (word_of_nat (length payload))"

definition parseFrameHeader :: "bytes \<Rightarrow> FrameHeader option" where
  "parseFrameHeader data =
     (if length data < kFrameHeaderSize then None
      else
        let h = \<lparr>fh_magic = le_get 2 data, fh_version = data ! 2,
                 fh_type = le_get 2 (drop 3 data), fh_flags = data ! 5,
                 fh_payloadSize = le_get 4 (drop 6 data)\<rparr>
        in if \<not> FrameHeader_valid h then None else Some h)"

lemma makeFrame_vec_eq:
  assumes "length payload < 2 ^ 32"
  shows "makeFrame_vec ty payload =
    le_put 2 kFrameMagic @ [kFrameVersion] @ le_put 2 ty @ [0] @
    le_put 4 (word_of_nat (length payload) :: u32) @ payload"
proof -
  have u: "unat (word_of_nat (length payload) :: u32) = length payload"
    using assms by (simp add: unat_of_nat)
  then have "(word_of_nat (length payload) :: u32) = 0 \<longleftrightarrow> payload = []"
    by (metis length_0_conv unat_eq_zero)
  with u show ?thesis
    by (auto simp: makeFrame_vec_def makeFrame_def)
qed

lemma length_makeFrame_vec:
  "length payload < 2 ^ 32 \<Longrightarrow> length (makeFrame_vec ty payload) = 10 + length payload"
  by (simp add: makeFrame_vec_eq)

lemma parseFrameHeader_makeFrame_vec:
  assumes "length payload \<le> 65536"
  shows "parseFrameHeader (makeFrame_vec ty payload @ rest) =
    Some \<lparr>fh_magic = kFrameMagic, fh_version = kFrameVersion, fh_type = ty, fh_flags = 0,
      fh_payloadSize = word_of_nat (length payload)\<rparr>"
proof -
  have len: "length payload < 2 ^ 32" using assms by simp
  obtain m0 m1 where m: "le_put 2 kFrameMagic = [m0, m1]"
    using length_le_put [of 2 kFrameMagic] by (metis (no_types, lifting) length_0_conv length_Suc_conv numeral_2_eq_2)
  obtain t0 t1 where t: "le_put 2 ty = [t0, t1]"
    using length_le_put [of 2 ty] by (metis (no_types, lifting) length_0_conv length_Suc_conv numeral_2_eq_2)
  have magic: "le_get 2 (m0 # m1 # xs) = kFrameMagic" for xs
    using le_get_put [of 2 kFrameMagic xs] by (simp add: m)
  have type: "le_get 2 (t0 # t1 # xs) = ty" for xs
    using le_get_put [of 2 ty xs] by (simp add: t)
  have size: "(word_of_nat (length payload) :: u32) \<le> kMaxControlPayload"
    using assms by (simp add: kMaxControlPayload_def word_le_nat_alt unat_of_nat)
  show ?thesis
    using size by (simp add: makeFrame_vec_eq [OF len] parseFrameHeader_def kFrameHeaderSize_def
        FrameHeader_valid_def Let_def m t magic type)
qed

section \<open>ByteWriter\<close>

type_synonym ByteWriter = bytes

definition w_u8 :: "u8 \<Rightarrow> ByteWriter \<Rightarrow> ByteWriter" where
  "w_u8 v w = w @ [v]"

definition w_u16 :: "u16 \<Rightarrow> ByteWriter \<Rightarrow> ByteWriter" where
  "w_u16 v w = w @ le_put 2 v"

definition w_u32 :: "u32 \<Rightarrow> ByteWriter \<Rightarrow> ByteWriter" where
  "w_u32 v w = w @ le_put 4 v"

definition w_u64 :: "u64 \<Rightarrow> ByteWriter \<Rightarrow> ByteWriter" where
  "w_u64 v w = w @ le_put 8 v"

definition w_boolean :: "bool \<Rightarrow> ByteWriter \<Rightarrow> ByteWriter" where
  "w_boolean v w = w @ [if v then 1 else 0]"

definition w_bytes :: "bytes \<Rightarrow> ByteWriter \<Rightarrow> ByteWriter" where
  "w_bytes data w = (if data \<noteq> [] then w @ data else w)"

definition w_str :: "string \<Rightarrow> ByteWriter \<Rightarrow> ByteWriter" where
  "w_str s w =
     (let n = (if length s > 1024 then 1024 else length s)
      in (w @ le_put 2 (word_of_nat n :: u16)) @ take n (str_bytes s))"

section \<open>ByteReader\<close>

record ByteReader =
  rdata :: bytes
  rpos :: nat
  rok :: bool

definition mkReader :: "bytes \<Rightarrow> ByteReader" where
  "mkReader data = \<lparr>rdata = data, rpos = 0, rok = True\<rparr>"

definition r_u8 :: "(ByteReader, u8) state" where
  "r_u8 = State (\<lambda>r.
     if \<not> rok r \<or> rpos r + 1 > length (rdata r) then (0, r\<lparr>rok := False\<rparr>)
     else (rdata r ! rpos r, r\<lparr>rpos := rpos r + 1\<rparr>))"

definition r_u16 :: "(ByteReader, u16) state" where
  "r_u16 = State (\<lambda>r.
     if \<not> rok r \<or> rpos r + 2 > length (rdata r) then (0, r\<lparr>rok := False\<rparr>)
     else (le_get 2 (drop (rpos r) (rdata r)), r\<lparr>rpos := rpos r + 2\<rparr>))"

definition r_u32 :: "(ByteReader, u32) state" where
  "r_u32 = State (\<lambda>r.
     if \<not> rok r \<or> rpos r + 4 > length (rdata r) then (0, r\<lparr>rok := False\<rparr>)
     else (le_get 4 (drop (rpos r) (rdata r)), r\<lparr>rpos := rpos r + 4\<rparr>))"

definition r_u64 :: "(ByteReader, u64) state" where
  "r_u64 = State (\<lambda>r.
     if \<not> rok r \<or> rpos r + 8 > length (rdata r) then (0, r\<lparr>rok := False\<rparr>)
     else (le_get 8 (drop (rpos r) (rdata r)), r\<lparr>rpos := rpos r + 8\<rparr>))"

definition r_boolean :: "(ByteReader, bool) state" where
  "r_boolean = do { b \<leftarrow> r_u8; State_Monad.return (b \<noteq> 0) }"

text \<open>\<open>r_bytes out n\<close> copies \<open>n\<close> bytes over the front of the caller's buffer \<open>out\<close>; on failure the
  buffer keeps its contents.\<close>

definition r_bytes :: "bytes \<Rightarrow> nat \<Rightarrow> (ByteReader, bytes) state" where
  "r_bytes out n = State (\<lambda>r.
     if \<not> rok r \<or> rpos r + n > length (rdata r) then (out, r\<lparr>rok := False\<rparr>)
     else (take n (drop (rpos r) (rdata r)) @ drop n out, r\<lparr>rpos := rpos r + n\<rparr>))"

definition r_str :: "(ByteReader, string) state" where
  "r_str = do {
     n \<leftarrow> r_u16;
     State (\<lambda>r.
       if \<not> rok r \<or> rpos r + unat n > length (rdata r) then ([], r\<lparr>rok := False\<rparr>)
       else (bytes_str (take (unat n) (drop (rpos r) (rdata r))), r\<lparr>rpos := rpos r + unat n\<rparr>))
   }"

definition r_ok :: "(ByteReader, bool) state" where
  "r_ok = State (\<lambda>r. (rok r, r))"

definition remaining :: "ByteReader \<Rightarrow> nat" where
  "remaining r = length (rdata r) - rpos r"

text \<open>The end of a strict reader: \<^verbatim>\<open>return r.ok() && r.remaining() == 0;\<close>.\<close>

definition r_ok_done :: "(ByteReader, bool) state" where
  "r_ok_done = State (\<lambda>r. (rok r \<and> remaining r = 0, r))"

section \<open>The contract of a field\<close>

text \<open>A live reader that has consumed \<open>pre\<close> and still has \<open>suf\<close> in front of it.\<close>

definition rd :: "bytes \<Rightarrow> bytes \<Rightarrow> ByteReader" where
  "rd pre suf = \<lparr>rdata = pre @ suf, rpos = length pre, rok = True\<rparr>"

lemma mkReader_rd: "mkReader data = rd [] data"
  by (simp add: mkReader_def rd_def)

lemma rd_ok [simp]: "rok (rd pre suf)"
  by (simp add: rd_def)

lemma rd_remaining [simp]: "remaining (rd pre suf) = length suf"
  by (simp add: rd_def remaining_def)

text \<open>
  \<open>reader_stable m\<close>: a failed reader stays failed, and where \<open>m\<close> succeeds on a buffer it succeeds
  with the same value on every extension of the buffer and leaves the extension unread.
\<close>

definition reader_stable :: "(ByteReader, 'a) state \<Rightarrow> bool" where
  "reader_stable m \<longleftrightarrow>
     (\<forall>r. \<not> rok r \<longrightarrow> \<not> rok (snd (run_state m r))) \<and>
     (\<forall>pre p x r'. run_state m (rd pre p) = (x, r') \<and> rok r' \<longrightarrow>
        (\<exists>pre' p'. r' = rd pre' p' \<and>
           (\<forall>q. run_state m (rd pre (p @ q)) = (x, rd pre' (p' @ q)))))"

lemma reader_stable_return [intro]: "reader_stable (State_Monad.return x)"
  by (auto simp: reader_stable_def State_Monad.return_def)

lemma run_state_bind:
  "run_state (m \<bind> f) r = (case run_state m r of (x, r') \<Rightarrow> run_state (f x) r')"
  by (simp add: State_Monad.bind_def)

lemma run_state_return: "run_state (State_Monad.return x) r = (x, r)"
  by (simp add: State_Monad.return_def)

lemmas run_state_simps [wire_simps] = run_state_bind run_state_return

lemma reader_stable_bind [intro]:
  assumes m: "reader_stable m" and f: "\<And>x. reader_stable (f x)"
  shows "reader_stable (m \<bind> f)"
  unfolding reader_stable_def
proof (intro conjI allI impI)
  fix r :: ByteReader assume "\<not> rok r"
  then show "\<not> rok (snd (run_state (m \<bind> f) r))"
    using m f by (auto simp: reader_stable_def run_state_bind split: prod.splits)
next
  fix pre p x r'
  assume run: "run_state (m \<bind> f) (rd pre p) = (x, r') \<and> rok r'"
  obtain y r1 where y: "run_state m (rd pre p) = (y, r1)" by force
  with run have fy: "run_state (f y) r1 = (x, r')" by (simp add: run_state_bind)
  have "rok r1"
    using f [of y] fy run by (auto simp: reader_stable_def)
  with m y obtain pre1 p1 where r1: "r1 = rd pre1 p1"
    and ext: "\<And>q. run_state m (rd pre (p @ q)) = (y, rd pre1 (p1 @ q))"
    unfolding reader_stable_def by blast
  with f [of y] fy run obtain pre' p' where "r' = rd pre' p'"
    and "\<And>q. run_state (f y) (rd pre1 (p1 @ q)) = (x, rd pre' (p' @ q))"
    unfolding reader_stable_def by blast
  with ext show "\<exists>pre' p'. r' = rd pre' p' \<and>
      (\<forall>q. run_state (m \<bind> f) (rd pre (p @ q)) = (x, rd pre' (p' @ q)))"
    by (auto simp: run_state_bind)
qed

text \<open>Every primitive reader consumes a run of bytes whose length is known before it looks at the
  data, and returns a function of these bytes.\<close>

definition fixed_reader :: "nat \<Rightarrow> (bytes \<Rightarrow> 'a) \<Rightarrow> 'a \<Rightarrow> (ByteReader, 'a) state" where
  "fixed_reader n val dflt = State (\<lambda>r.
     if \<not> rok r \<or> rpos r + n > length (rdata r) then (dflt, r\<lparr>rok := False\<rparr>)
     else (val (take n (drop (rpos r) (rdata r))), r\<lparr>rpos := rpos r + n\<rparr>))"

lemma run_fixed_reader_rd:
  "run_state (fixed_reader n val dflt) (rd pre p) =
     (if n \<le> length p then (val (take n p), rd (pre @ take n p) (drop n p))
      else (dflt, (rd pre p)\<lparr>rok := False\<rparr>))"
  by (simp add: fixed_reader_def rd_def not_le)

lemma reader_stable_fixed_reader [intro]: "reader_stable (fixed_reader n val dflt)"
  unfolding reader_stable_def
  by (auto simp: run_fixed_reader_rd split: if_splits) (auto simp: fixed_reader_def)

lemma r_u8_fixed: "r_u8 = fixed_reader 1 (\<lambda>b. b ! 0) 0"
  by (auto simp: r_u8_def fixed_reader_def fun_eq_iff)

lemma r_u16_fixed: "r_u16 = fixed_reader 2 (le_get 2) 0"
  by (auto simp: r_u16_def fixed_reader_def le_get_take fun_eq_iff)

lemma r_u32_fixed: "r_u32 = fixed_reader 4 (le_get 4) 0"
  by (auto simp: r_u32_def fixed_reader_def le_get_take fun_eq_iff)

lemma r_u64_fixed: "r_u64 = fixed_reader 8 (le_get 8) 0"
  by (auto simp: r_u64_def fixed_reader_def le_get_take fun_eq_iff)

lemma r_bytes_fixed: "r_bytes out n = fixed_reader n (\<lambda>b. b @ drop n out) out"
  by (simp add: r_bytes_def fixed_reader_def)

lemma r_str_fixed:
  "r_str = do { n \<leftarrow> r_u16; fixed_reader (unat n) bytes_str [] }"
  by (simp add: r_str_def fixed_reader_def)

lemmas r_fixed = r_u8_fixed r_u16_fixed r_u32_fixed r_u64_fixed r_bytes_fixed r_str_fixed

lemma reader_stable_prims [intro, simp]:
  "reader_stable r_u8" "reader_stable r_u16" "reader_stable r_u32" "reader_stable r_u64"
  "reader_stable r_boolean" "reader_stable (r_bytes out n)" "reader_stable r_str"
  by (auto simp: r_fixed r_boolean_def)

locale field_codec =
  fixes enc :: "'a \<Rightarrow> bytes"
    and put :: "'a \<Rightarrow> ByteWriter \<Rightarrow> ByteWriter"
    and get :: "(ByteReader, 'a) state"
    and valid :: "'a \<Rightarrow> bool"
  assumes put_enc: "put v w = w @ enc v"
    and get_enc: "valid v \<Longrightarrow> run_state get (rd pre (enc v @ suf)) = (v, rd (pre @ enc v) suf)"
    and get_stable: "reader_stable get"
begin

lemma get_enc_end: "valid v \<Longrightarrow> run_state get (rd pre (enc v)) = (v, rd (pre @ enc v) [])"
  using get_enc [of v pre "[]"] by simp

text \<open>A proper prefix of an encoded field never reads back as a field.\<close>

lemma get_truncated:
  assumes "valid v" and "enc v = p @ q" and "q \<noteq> []"
  shows "\<not> rok (snd (run_state get (rd pre p)))"
proof
  assume ok: "rok (snd (run_state get (rd pre p)))"
  obtain x r' where run: "run_state get (rd pre p) = (x, r')" by force
  with ok have "rok r'" by simp
  with get_stable run obtain pre' p' where
    "\<And>q. run_state get (rd pre (p @ q)) = (x, rd pre' (p' @ q))"
    unfolding reader_stable_def by blast
  then have "run_state get (rd pre (enc v)) = (x, rd pre' (p' @ q))"
    using assms by simp
  moreover have "run_state get (rd pre (enc v)) = (v, rd (pre @ enc v) [])"
    by (rule get_enc_end [OF assms(1)])
  ultimately have "rd pre' (p' @ q) = rd (pre @ enc v) []" by (metis snd_conv)
  then have "remaining (rd pre' (p' @ q)) = 0" by simp
  with assms(3) show False by simp
qed

end

definition enc_u8 :: "u8 \<Rightarrow> bytes" where "enc_u8 v = [v]"
definition enc_bool :: "bool \<Rightarrow> bytes" where "enc_bool v = [if v then 1 else 0]"
definition enc_str :: "string \<Rightarrow> bytes" where
  "enc_str s = le_put 2 (word_of_nat (min 1024 (length s)) :: u16) @ take 1024 (str_bytes s)"

interpretation u8: field_codec enc_u8 w_u8 r_u8 "\<lambda>_. True"
  by unfold_locales (auto simp: enc_u8_def w_u8_def r_u8_fixed run_fixed_reader_rd)

interpretation u16: field_codec "le_put 2" w_u16 r_u16 "\<lambda>_. True"
  by unfold_locales (auto simp: w_u16_def r_u16_fixed run_fixed_reader_rd)

interpretation u32: field_codec "le_put 4" w_u32 r_u32 "\<lambda>_. True"
  by unfold_locales (auto simp: w_u32_def r_u32_fixed run_fixed_reader_rd)

interpretation u64: field_codec "le_put 8" w_u64 r_u64 "\<lambda>_. True"
  by unfold_locales (auto simp: w_u64_def r_u64_fixed run_fixed_reader_rd)

interpretation boolean: field_codec enc_bool w_boolean r_boolean "\<lambda>_. True"
  by unfold_locales
    (auto simp: enc_bool_def w_boolean_def r_boolean_def r_u8_fixed run_fixed_reader_rd run_state_simps)

lemma enc_str_short:
  "length s \<le> 1024 \<Longrightarrow> enc_str s = le_put 2 (word_of_nat (length s) :: u16) @ str_bytes s"
  by (simp add: enc_str_def min_def)

interpretation str: field_codec enc_str w_str r_str "\<lambda>s. length s \<le> 1024"
proof unfold_locales
  fix v :: string and w
  show "w_str v w = w @ enc_str v"
    by (simp add: w_str_def enc_str_def Let_def min_def)
next
  fix v :: string and pre suf
  assume len: "length v \<le> 1024"
  then have "unat (word_of_nat (length v) :: u16) = length v"
    by (simp add: unat_of_nat)
  then show "run_state r_str (rd pre (enc_str v @ suf)) = (v, rd (pre @ enc_str v) suf)"
    by (simp add: enc_str_short [OF len] r_str_fixed r_u16_fixed run_fixed_reader_rd run_state_simps)
qed auto

interpretation blob64: field_codec "\<lambda>b. b" w_bytes "r_bytes (replicate 64 0) 64" "\<lambda>b. length b = 64"
  by unfold_locales (auto simp: w_bytes_def r_bytes_fixed run_fixed_reader_rd)

interpretation blob16: field_codec "\<lambda>b. b" w_bytes "r_bytes (replicate 16 0) 16" "\<lambda>b. length b = 16"
  by unfold_locales (auto simp: w_bytes_def r_bytes_fixed run_fixed_reader_rd)

lemmas put_encs [wire_simps] =
  u8.put_enc u16.put_enc u32.put_enc u64.put_enc boolean.put_enc str.put_enc blob64.put_enc

lemmas get_encs [wire_simps] =
  u8.get_enc u16.get_enc u32.get_enc u64.get_enc boolean.get_enc str.get_enc
  blob64.get_enc blob16.get_enc
  u8.get_enc_end u16.get_enc_end u32.get_enc_end u64.get_enc_end boolean.get_enc_end
  str.get_enc_end blob64.get_enc_end blob16.get_enc_end

lemma run_r_ok [wire_simps]: "run_state r_ok r = (rok r, r)"
  by (simp add: r_ok_def)

lemma run_r_ok_done [wire_simps]: "run_state r_ok_done r = (rok r \<and> remaining r = 0, r)"
  by (simp add: r_ok_done_def)

lemma length_encs [simp]:
  "length (enc_u8 a) = 1" "length (enc_bool b) = 1" "length (enc_str s) = 2 + min 1024 (length s)"
  by (simp_all add: enc_u8_def enc_bool_def enc_str_def min.commute)

end
