(* ===== verification/Protocol.thy ===== *)
theory Protocol
  imports Packet RP_Types
begin

text \<open>
  \<^verbatim>\<open>networking/Protocol.h\<close> and \<^verbatim>\<open>networking/Protocol.cpp\<close>: the messages of the TCP control channel.
  \<open>Body\<close> is the \<^verbatim>\<open>std::variant\<close> of the message structs (one constructor per alternative, its
  arguments the struct's fields in order), \<open>Envelope\<close> pairs it with a message id, and, as in the
  source, nothing ties the id to the alternative: \<open>encodeMessage\<close> looks at the body only and
  \<open>decodeMessage\<close> at the id only. The properties are the round trip of every well-formed message,
  the rejection of every truncated payload, exactly which messages tolerate trailing bytes, and what
  happens to an envelope whose id and body disagree.
\<close>

section \<open>Message identifiers and reasons\<close>

datatype Id = ClientHello | HostReject | HostApproved | HostCapabilities | ClientCapabilities
  | NegotiationResult | Ping | Pong | InputPermission | Kick | Bye
  | StreamStart | StreamStop | KeyframeRequest | KeyExchange | SessionKeyReady

fun id_code :: "Id \<Rightarrow> u16" where
  "id_code ClientHello = 0x0001"
| "id_code HostReject = 0x0002"
| "id_code HostApproved = 0x0003"
| "id_code HostCapabilities = 0x0004"
| "id_code ClientCapabilities = 0x0005"
| "id_code NegotiationResult = 0x0006"
| "id_code Ping = 0x0007"
| "id_code Pong = 0x0008"
| "id_code InputPermission = 0x0009"
| "id_code Kick = 0x000A"
| "id_code Bye = 0x000B"
| "id_code StreamStart = 0x0010"
| "id_code StreamStop = 0x0011"
| "id_code KeyframeRequest = 0x0012"
| "id_code KeyExchange = 0x0013"
| "id_code SessionKeyReady = 0x0014"

definition all_ids :: "Id list" where
  "all_ids = [ClientHello, HostReject, HostApproved, HostCapabilities, ClientCapabilities,
     NegotiationResult, Ping, Pong, InputPermission, Kick, Bye,
     StreamStart, StreamStop, KeyframeRequest, KeyExchange, SessionKeyReady]"

text \<open>\<^verbatim>\<open>static_cast<Id>(raw)\<close> for a raw value that is one of the enumerators.\<close>

definition id_of_raw :: "u16 \<Rightarrow> Id option" where
  "id_of_raw raw = find (\<lambda>i. id_code i = raw) all_ids"

definition knownId :: "u16 \<Rightarrow> bool" where
  "knownId raw \<longleftrightarrow> list_ex (\<lambda>i. id_code i = raw) all_ids"

fun idName :: "Id \<Rightarrow> string" where
  "idName ClientHello = ''CLIENT_HELLO''"
| "idName HostReject = ''HOST_REJECT''"
| "idName HostApproved = ''HOST_APPROVED''"
| "idName HostCapabilities = ''HOST_CAPABILITIES''"
| "idName ClientCapabilities = ''CLIENT_CAPABILITIES''"
| "idName NegotiationResult = ''NEGOTIATION_RESULT''"
| "idName Ping = ''PING''"
| "idName Pong = ''PONG''"
| "idName InputPermission = ''INPUT_PERMISSION''"
| "idName Kick = ''KICK''"
| "idName Bye = ''BYE''"
| "idName StreamStart = ''STREAM_START''"
| "idName StreamStop = ''STREAM_STOP''"
| "idName KeyframeRequest = ''KEYFRAME_REQUEST''"
| "idName KeyExchange = ''KEY_EXCHANGE''"
| "idName SessionKeyReady = ''SESSION_KEY_READY''"

datatype Reason = Ok | BadSessionCode | RejectedByHost | ProtocolError | UnsupportedVersion
  | InactivityTimeout | Kicked | ServerFull | NoCommonCodec

fun reason_code :: "Reason \<Rightarrow> u16" where
  "reason_code Ok = 0"
| "reason_code BadSessionCode = 1"
| "reason_code RejectedByHost = 2"
| "reason_code ProtocolError = 3"
| "reason_code UnsupportedVersion = 4"
| "reason_code InactivityTimeout = 5"
| "reason_code Kicked = 6"
| "reason_code ServerFull = 7"
| "reason_code NoCommonCodec = 8"

fun reasonName :: "Reason \<Rightarrow> string" where
  "reasonName Ok = ''ok''"
| "reasonName BadSessionCode = ''bad session code''"
| "reasonName RejectedByHost = ''rejected by host''"
| "reasonName ProtocolError = ''protocol error''"
| "reasonName UnsupportedVersion = ''unsupported protocol version''"
| "reasonName InactivityTimeout = ''inactivity timeout''"
| "reasonName Kicked = ''kicked by host''"
| "reasonName ServerFull = ''session full''"
| "reasonName NoCommonCodec = ''no common codec''"

section \<open>Message bodies\<close>

datatype Body =
    MClientHello (clientName: string) (sessionCode: string) (appVersion: string)
  | MHostReject (reasonCode: u16) (reasonText: string)
  | MHostApproved
  | MHostCapabilities (hostName: string) (gameName: string) (captureMode: u8)
      (hc_width: u16) (hc_height: u16) (hc_fps: u8) (hc_bitrateKbps: u32)
      (offeredCodecs: "VideoCodec list")
  | MClientCapabilities (supportedCodecs: "VideoCodec list")
  | MNegotiationResult (accepted: bool) (nr_codec: u8) (nr_width: u16) (nr_height: u16)
      (nr_fps: u8) (nr_bitrateKbps: u32) (nr_note: string)
  | MPing (epochMs: u64)
  | MPong (echoEpochMs: u64)
  | MInputPermission (ip_controller: bool) (ip_keyboard: bool) (ip_mouse: bool) (ip_vibration: bool)
  | MKick (kick_reason: string)
  | MBye (bye_reason: string)
  | MStreamStart (udpPort: u16) (sessionId: u32) (playerIndex: u8) (ss_codec: u8)
      (ss_width: u16) (ss_height: u16) (ss_fps: u8) (ss_bitrateKbps: u32)
  | MStreamStop (stop_reason: string)
  | MKeyframeRequest
  | MKeyExchange (publicKey: bytes) (salt: bytes)
  | MSessionKeyReady

record Envelope =
  etype :: Id
  ebody :: Body

text \<open>A default-constructed \<^verbatim>\<open>Envelope\<close>: the first id and the first variant alternative.\<close>

definition Envelope_default :: Envelope where
  "Envelope_default = \<lparr>etype = ClientHello, ebody = MClientHello [] [] []\<rparr>"

section \<open>Writers\<close>

definition writeVideoCodecList :: "VideoCodec list \<Rightarrow> ByteWriter \<Rightarrow> ByteWriter" where
  "writeVideoCodecList list w =
     fold w_u8 (take 32 list) (w_u8 (word_of_nat (min (length list) 32)) w)"

fun writeMsg :: "Body \<Rightarrow> ByteWriter \<Rightarrow> ByteWriter" where
  "writeMsg (MClientHello cn sc av) w = w_str av (w_str sc (w_str cn w))"
| "writeMsg (MHostReject rc rt) w = w_str rt (w_u16 rc w)"
| "writeMsg MHostApproved w = w"
| "writeMsg (MHostCapabilities hn gn cm wd ht fps br codecs) w =
     writeVideoCodecList codecs (w_u32 br (w_u8 fps (w_u16 ht (w_u16 wd (w_u8 cm (w_str gn (w_str hn w)))))))"
| "writeMsg (MClientCapabilities codecs) w = writeVideoCodecList codecs w"
| "writeMsg (MNegotiationResult acc cd wd ht fps br nt) w =
     w_str nt (w_u32 br (w_u8 fps (w_u16 ht (w_u16 wd (w_u8 cd (w_boolean acc w))))))"
| "writeMsg (MPing t) w = w_u64 t w"
| "writeMsg (MPong t) w = w_u64 t w"
| "writeMsg (MInputPermission c k m v) w = w_boolean v (w_boolean m (w_boolean k (w_boolean c w)))"
| "writeMsg (MKick r) w = w_str r w"
| "writeMsg (MBye r) w = w_str r w"
| "writeMsg (MStreamStart port sid pl cd wd ht fps br) w =
     w_u32 br (w_u8 fps (w_u16 ht (w_u16 wd (w_u8 cd (w_u8 pl (w_u32 sid (w_u16 port w)))))))"
| "writeMsg (MStreamStop r) w = w_str r w"
| "writeMsg MKeyframeRequest w = w"
| "writeMsg (MKeyExchange pk s) w = w_bytes s (w_bytes pk w)"
| "writeMsg MSessionKeyReady w = w"

definition encodeMessage :: "Envelope \<Rightarrow> bytes" where
  "encodeMessage e = writeMsg (ebody e) []"

section \<open>Readers\<close>

fun r_codecs :: "nat \<Rightarrow> (ByteReader, VideoCodec list) state" where
  "r_codecs 0 = State_Monad.return []"
| "r_codecs (Suc n) = do { c \<leftarrow> r_u8; cs \<leftarrow> r_codecs n; State_Monad.return (c # cs) }"

definition readVideoCodecList :: "(ByteReader, VideoCodec list) state" where
  "readVideoCodecList = do { n \<leftarrow> r_u8; r_codecs (unat n) }"

fun readMsg :: "Id \<Rightarrow> (ByteReader, bool \<times> Body) state" where
  "readMsg ClientHello = do {
     cn \<leftarrow> r_str; sc \<leftarrow> r_str; av \<leftarrow> r_str; ok \<leftarrow> r_ok;
     State_Monad.return (ok, MClientHello cn sc av) }"
| "readMsg HostReject = do {
     rc \<leftarrow> r_u16; rt \<leftarrow> r_str; ok \<leftarrow> r_ok; State_Monad.return (ok, MHostReject rc rt) }"
| "readMsg HostApproved = do { ok \<leftarrow> r_ok_done; State_Monad.return (ok, MHostApproved) }"
| "readMsg HostCapabilities = do {
     hn \<leftarrow> r_str; gn \<leftarrow> r_str; cm \<leftarrow> r_u8; wd \<leftarrow> r_u16; ht \<leftarrow> r_u16; fps \<leftarrow> r_u8; br \<leftarrow> r_u32;
     codecs \<leftarrow> readVideoCodecList; ok \<leftarrow> r_ok;
     State_Monad.return (ok, MHostCapabilities hn gn cm wd ht fps br codecs) }"
| "readMsg ClientCapabilities = do {
     codecs \<leftarrow> readVideoCodecList; ok \<leftarrow> r_ok; State_Monad.return (ok, MClientCapabilities codecs) }"
| "readMsg NegotiationResult = do {
     acc \<leftarrow> r_boolean; cd \<leftarrow> r_u8; wd \<leftarrow> r_u16; ht \<leftarrow> r_u16; fps \<leftarrow> r_u8; br \<leftarrow> r_u32; nt \<leftarrow> r_str;
     ok \<leftarrow> r_ok; State_Monad.return (ok, MNegotiationResult acc cd wd ht fps br nt) }"
| "readMsg Ping = do { t \<leftarrow> r_u64; ok \<leftarrow> r_ok_done; State_Monad.return (ok, MPing t) }"
| "readMsg Pong = do { t \<leftarrow> r_u64; ok \<leftarrow> r_ok_done; State_Monad.return (ok, MPong t) }"
| "readMsg InputPermission = do {
     c \<leftarrow> r_boolean; k \<leftarrow> r_boolean; m \<leftarrow> r_boolean; v \<leftarrow> r_boolean; ok \<leftarrow> r_ok_done;
     State_Monad.return (ok, MInputPermission c k m v) }"
| "readMsg Kick = do { r \<leftarrow> r_str; ok \<leftarrow> r_ok; State_Monad.return (ok, MKick r) }"
| "readMsg Bye = do { r \<leftarrow> r_str; ok \<leftarrow> r_ok; State_Monad.return (ok, MBye r) }"
| "readMsg StreamStart = do {
     port \<leftarrow> r_u16; sid \<leftarrow> r_u32; pl \<leftarrow> r_u8; cd \<leftarrow> r_u8; wd \<leftarrow> r_u16; ht \<leftarrow> r_u16; fps \<leftarrow> r_u8; br \<leftarrow> r_u32;
     ok \<leftarrow> r_ok_done; State_Monad.return (ok, MStreamStart port sid pl cd wd ht fps br) }"
| "readMsg StreamStop = do { r \<leftarrow> r_str; ok \<leftarrow> r_ok; State_Monad.return (ok, MStreamStop r) }"
| "readMsg KeyframeRequest = do { ok \<leftarrow> r_ok_done; State_Monad.return (ok, MKeyframeRequest) }"
| "readMsg KeyExchange = do {
     pk \<leftarrow> r_bytes (replicate 64 0) 64; s \<leftarrow> r_bytes (replicate 16 0) 16; ok \<leftarrow> r_ok_done;
     State_Monad.return (ok, MKeyExchange pk s) }"
| "readMsg SessionKeyReady = do { ok \<leftarrow> r_ok_done; State_Monad.return (ok, MSessionKeyReady) }"

definition decodeMessage :: "u16 \<Rightarrow> bytes \<Rightarrow> Envelope option" where
  "decodeMessage rawType data =
     (if \<not> knownId rawType then None
      else case id_of_raw rawType of
        None \<Rightarrow> None
      | Some ty \<Rightarrow>
          let (ok, m) = fst (run_state (readMsg ty) (mkReader data))
          in if \<not> ok then None else Some \<lparr>etype = ty, ebody = m\<rparr>)"

section \<open>Codec negotiation\<close>

fun negotiateCodec :: "VideoCodec list \<Rightarrow> VideoCodec list \<Rightarrow> VideoCodec option" where
  "negotiateCodec [] clientSupported = None"
| "negotiateCodec (want # hostPreference) clientSupported =
     (if want \<in> set clientSupported then Some want
      else negotiateCodec hostPreference clientSupported)"

section \<open>Library lemmas\<close>

lemma all_ids_complete [simp]: "i \<in> set all_ids"
  by (cases i) (simp_all add: all_ids_def)

lemma id_of_raw_code [simp, wire_simps]: "id_of_raw (id_code i) = Some i"
  by (cases i) (simp_all add: id_of_raw_def all_ids_def)

lemma knownId_code [simp, wire_simps]: "knownId (id_code i)"
  by (auto simp: knownId_def list_ex_iff intro: all_ids_complete)

lemma knownId_iff: "knownId raw \<longleftrightarrow> (\<exists>i. raw = id_code i)"
  by (auto simp: knownId_def list_ex_iff intro: all_ids_complete)

lemma knownId_cases:
  assumes "knownId raw" obtains i where "raw = id_code i"
  using assms by (auto simp: knownId_iff)

lemma decodeMessage_code:
  "decodeMessage (id_code i) data =
     (let (ok, m) = fst (run_state (readMsg i) (rd [] data))
      in if ok then Some \<lparr>etype = i, ebody = m\<rparr> else None)"
  by (simp add: decodeMessage_def mkReader_rd Let_def split: prod.splits)

definition enc_codecs :: "VideoCodec list \<Rightarrow> bytes" where
  "enc_codecs list = enc_u8 (word_of_nat (min (length list) 32)) @ take 32 list"

lemma fold_w_u8: "fold w_u8 cs w = w @ cs"
  by (induction cs arbitrary: w) (auto simp: w_u8_def)

lemma run_r_codecs:
  "run_state (r_codecs (length cs)) (rd pre (cs @ suf)) = (cs, rd (pre @ cs) suf)"
  by (induction cs arbitrary: pre)
    (simp_all add: run_state_simps r_u8_fixed run_fixed_reader_rd)

lemma reader_stable_r_codecs [intro, simp]: "reader_stable (r_codecs n)"
  by (induction n) auto

lemma reader_stable_codec_list [intro, simp]: "reader_stable readVideoCodecList"
  unfolding readVideoCodecList_def by auto

interpretation codecs: field_codec enc_codecs writeVideoCodecList readVideoCodecList
  "\<lambda>l. length l \<le> 32"
proof unfold_locales
  fix v :: "VideoCodec list" and w
  show "writeVideoCodecList v w = w @ enc_codecs v"
    by (simp add: writeVideoCodecList_def enc_codecs_def fold_w_u8 u8.put_enc)
next
  fix v :: "VideoCodec list" and pre suf
  assume len: "length v \<le> 32"
  then have "unat (word_of_nat (length v) :: u8) = length v"
    by (simp add: unat_of_nat)
  then show "run_state readVideoCodecList (rd pre (enc_codecs v @ suf)) = (v, rd (pre @ enc_codecs v) suf)"
    using len run_r_codecs [of v]
    by (simp add: enc_codecs_def readVideoCodecList_def run_state_simps u8.get_enc min_def)
qed simp

lemmas codec_wire [wire_simps] = codecs.put_enc codecs.get_enc codecs.get_enc_end

text \<open>The id of the message a body is, and what a body must satisfy to travel unchanged: strings
  within the 1024-byte cap of \<open>ByteWriter::str\<close>, codec lists within 32 entries, and key material of
  the sizes the reader allocates.\<close>

fun body_id :: "Body \<Rightarrow> Id" where
  "body_id (MClientHello _ _ _) = ClientHello"
| "body_id (MHostReject _ _) = HostReject"
| "body_id MHostApproved = HostApproved"
| "body_id (MHostCapabilities _ _ _ _ _ _ _ _) = HostCapabilities"
| "body_id (MClientCapabilities _) = ClientCapabilities"
| "body_id (MNegotiationResult _ _ _ _ _ _ _) = NegotiationResult"
| "body_id (MPing _) = Ping"
| "body_id (MPong _) = Pong"
| "body_id (MInputPermission _ _ _ _) = InputPermission"
| "body_id (MKick _) = Kick"
| "body_id (MBye _) = Bye"
| "body_id (MStreamStart _ _ _ _ _ _ _ _) = StreamStart"
| "body_id (MStreamStop _) = StreamStop"
| "body_id MKeyframeRequest = KeyframeRequest"
| "body_id (MKeyExchange _ _) = KeyExchange"
| "body_id MSessionKeyReady = SessionKeyReady"

fun body_fits :: "Body \<Rightarrow> bool" where
  "body_fits (MClientHello cn sc av) \<longleftrightarrow> length cn \<le> 1024 \<and> length sc \<le> 1024 \<and> length av \<le> 1024"
| "body_fits (MHostReject _ rt) \<longleftrightarrow> length rt \<le> 1024"
| "body_fits (MHostCapabilities hn gn _ _ _ _ _ codecs) \<longleftrightarrow>
     length hn \<le> 1024 \<and> length gn \<le> 1024 \<and> length codecs \<le> 32"
| "body_fits (MClientCapabilities codecs) \<longleftrightarrow> length codecs \<le> 32"
| "body_fits (MNegotiationResult _ _ _ _ _ _ nt) \<longleftrightarrow> length nt \<le> 1024"
| "body_fits (MKick r) \<longleftrightarrow> length r \<le> 1024"
| "body_fits (MBye r) \<longleftrightarrow> length r \<le> 1024"
| "body_fits (MStreamStop r) \<longleftrightarrow> length r \<le> 1024"
| "body_fits (MKeyExchange pk s) \<longleftrightarrow> length pk = 64 \<and> length s = 16"
| "body_fits _ \<longleftrightarrow> True"

definition envelope_wf :: "Envelope \<Rightarrow> bool" where
  "envelope_wf e \<longleftrightarrow> body_id (ebody e) = etype e \<and> body_fits (ebody e)"

text \<open>The readers that end with \<^verbatim>\<open>r.ok() && r.remaining() == 0\<close>.\<close>

fun strict_id :: "Id \<Rightarrow> bool" where
  "strict_id i \<longleftrightarrow>
     i \<in> {HostApproved, Ping, Pong, InputPermission, StreamStart, KeyframeRequest, KeyExchange,
          SessionKeyReady}"

definition read_value :: "Id \<Rightarrow> (ByteReader, Body) state" where
  "read_value i = do { p \<leftarrow> readMsg i; State_Monad.return (snd p) }"

lemma run_readMsg_encoded:
  assumes "body_id b = i" and "body_fits b"
  shows "run_state (readMsg i) (rd [] (writeMsg b [] @ junk)) =
    ((strict_id i \<longrightarrow> junk = [], b), rd (writeMsg b []) junk)"
  using assms by (cases b) (auto simp: wire_simps)

lemma run_readMsg_ok:
  "fst (fst (run_state (readMsg i) r)) \<longleftrightarrow>
     rok (snd (run_state (readMsg i) r)) \<and>
     (strict_id i \<longrightarrow> remaining (snd (run_state (readMsg i) r)) = 0)"
  by (cases i) (auto simp: run_state_simps run_r_ok run_r_ok_done split: prod.splits)

lemma state_bind_assoc:
  "(m \<bind> f) \<bind> g = m \<bind> (\<lambda>x. f x \<bind> g)"
  for m :: "('s, 'a) state" and f :: "'a \<Rightarrow> ('s, 'b) state" and g :: "'b \<Rightarrow> ('s, 'c) state"
  by (simp add: State_Monad.bind_def case_prod_beta)

lemma r_ok_ignored:
  "r_ok \<bind> (\<lambda>_. m) = m" "r_ok_done \<bind> (\<lambda>_. m) = m"
  by (simp_all add: State_Monad.bind_def r_ok_def r_ok_done_def)

lemma reader_stable_read_value: "reader_stable (read_value i)"
  unfolding read_value_def
  by (cases i; simp add: state_bind_assoc r_ok_ignored;
      intro reader_stable_bind reader_stable_return reader_stable_prims reader_stable_codec_list)

lemma run_read_value:
  "run_state (read_value i) r = (snd (fst (run_state (readMsg i) r)), snd (run_state (readMsg i) r))"
  by (simp add: read_value_def run_state_simps case_prod_beta)

lemma encodeMessage_app: "writeMsg b w = w @ writeMsg b []"
  by (cases b) (simp_all add: put_encs codecs.put_enc)

lemma length_enc_codecs [simp]: "length (enc_codecs l) = 1 + min 32 (length l)"
  by (simp add: enc_codecs_def min.commute)

lemma length_encodeMessage:
  assumes "body_fits (ebody e)"
  shows "length (encodeMessage e) \<le> 3078"
  using assms unfolding encodeMessage_def
  by (cases "ebody e") (auto simp: put_encs codecs.put_enc min_def)

lemma decode_encode:
  "envelope_wf e \<Longrightarrow> decodeMessage (id_code (etype e)) (encodeMessage e) = Some e"
  using run_readMsg_encoded [of "ebody e" "etype e" "[]"]
  by (simp add: envelope_wf_def decodeMessage_code encodeMessage_def)

section \<open>Properties\<close>

text \<open>C38: Every well-formed message survives the wire: decoding the encoded payload of an envelope under
  its own id gives the envelope back, field by field, for all sixteen message types.
\<close>

theorem decode_encode_roundtrip:
  assumes "envelope_wf e"
  shows "decodeMessage (id_code (etype e)) (encodeMessage e) = Some e"
  by (rule decode_encode [OF assms])

theorem decode_encode_roundtrip_witness:
  "decodeMessage 4 (encodeMessage \<lparr>etype = HostCapabilities,
      ebody = MHostCapabilities ''PC'' ''Rayman'' 1 1920 1080 60 8000 [Hevc, H264]\<rparr>) =
   Some \<lparr>etype = HostCapabilities,
      ebody = MHostCapabilities ''PC'' ''Rayman'' 1 1920 1080 60 8000 [Hevc, H264]\<rparr>"
  using decode_encode_roundtrip [of "\<lparr>etype = HostCapabilities,
      ebody = MHostCapabilities ''PC'' ''Rayman'' 1 1920 1080 60 8000 [Hevc, H264]\<rparr>"]
  by (simp add: envelope_wf_def)

text \<open>No truncated payload is ever accepted: if a prefix of the payload of a well-formed message
  decodes at all under the message's id, it is the whole payload.
\<close>

theorem decode_truncated_rejected:
  assumes "envelope_wf e" and "encodeMessage e = p @ q" and "q \<noteq> []"
  shows "decodeMessage (id_code (etype e)) p = None"
proof (rule ccontr)
  let ?i = "etype e"
  assume "decodeMessage (id_code ?i) p \<noteq> None"
  then have "fst (fst (run_state (readMsg ?i) (rd [] p)))"
    by (auto simp: decodeMessage_code Let_def split: prod.splits if_splits)
  then have ok: "rok (snd (run_state (read_value ?i) (rd [] p)))"
    by (simp add: run_readMsg_ok run_read_value)
  obtain x r' where run: "run_state (read_value ?i) (rd [] p) = (x, r')" by force
  with ok obtain pre' p' where
    "run_state (read_value ?i) (rd [] (p @ q)) = (x, rd pre' (p' @ q))"
    using reader_stable_read_value [of ?i] unfolding reader_stable_def by (metis snd_conv)
  moreover have "run_state (read_value ?i) (rd [] (p @ q)) = (ebody e, rd (p @ q) [])"
    using assms run_readMsg_encoded [of "ebody e" ?i "[]"]
    by (simp add: run_read_value envelope_wf_def encodeMessage_def)
  ultimately have "remaining (rd pre' (p' @ q)) = remaining (rd (p @ q) [])" by simp
  with assms(3) show False by simp
qed

theorem decode_truncated_rejected_witness:
  "decodeMessage 7 [1, 0, 0, 0] = None"
proof -
  let ?e = "\<lparr>etype = Ping, ebody = MPing 1\<rparr>"
  have e: "encodeMessage ?e = [1, 0, 0, 0] @ [0, 0, 0, 0]"
    by (simp add: encodeMessage_def w_u64_def le_put_def upt_rec)
  show ?thesis
    using decode_truncated_rejected [of ?e, OF _ e] by (simp add: envelope_wf_def)
qed

text \<open>Trailing bytes after a well-formed payload are rejected for exactly the message types whose
  reader checks \<open>remaining() == 0\<close>; the string- and list-terminated messages (hello, reject,
  capabilities, negotiation, kick, bye, stream stop) are accepted with the garbage ignored, although
  the protocol document and the comment on \<open>decodeMessage\<close> say trailing bytes are malformed.
\<close>

theorem decode_trailing_bytes:
  assumes "envelope_wf e" and "junk \<noteq> []"
  shows "decodeMessage (id_code (etype e)) (encodeMessage e @ junk) =
           (if strict_id (etype e) then None else Some e)"
  using assms run_readMsg_encoded [of "ebody e" "etype e" junk]
  by (simp add: envelope_wf_def decodeMessage_code encodeMessage_def del: strict_id.simps)

theorem decode_trailing_bytes_witness:
  "decodeMessage 11 (encodeMessage \<lparr>etype = Bye, ebody = MBye ''x''\<rparr> @ [255]) =
     Some \<lparr>etype = Bye, ebody = MBye ''x''\<rparr> \<and>
   decodeMessage 3 [255] = None"
  using decode_trailing_bytes [of "\<lparr>etype = Bye, ebody = MBye ''x''\<rparr>" "[255]"]
    decode_trailing_bytes [of "\<lparr>etype = HostApproved, ebody = MHostApproved\<rparr>" "[255]"]
  by (simp add: envelope_wf_def encodeMessage_def)

lemma decode_id:
  "decodeMessage raw data = Some e \<Longrightarrow> id_code (etype e) = raw \<and> body_id (ebody e) = etype e"
proof -
  have body: "body_id (snd (fst (run_state (readMsg i) r))) = i" for i r
    by (cases i) (auto simp: run_state_simps split: prod.splits)
  assume d: "decodeMessage raw data = Some e"
  then obtain i where "raw = id_code i"
    by (auto simp: decodeMessage_def knownId_iff split: if_splits)
  with d body [of i "rd [] data"] show ?thesis
    by (auto simp: decodeMessage_code Let_def split: prod.splits if_splits)
qed

text \<open>C39: Unknown message ids are rejected whatever the payload, and every accepted payload comes back
  under the id it was decoded with and as that id's message.
\<close>

theorem decode_respects_id:
  "decodeMessage raw data = Some e \<Longrightarrow> id_code (etype e) = raw \<and> body_id (ebody e) = etype e"
  by (rule decode_id)

theorem decode_respects_id_witness:
  "id_code (etype \<lparr>etype = Kick, ebody = MKick []\<rparr>) = 10 \<and> body_id (MKick []) = Kick"
proof -
  have "decodeMessage 10 (encodeMessage \<lparr>etype = Kick, ebody = MKick []\<rparr>) =
      Some \<lparr>etype = Kick, ebody = MKick []\<rparr>"
    using run_readMsg_encoded [of "MKick []" Kick "[]"] decodeMessage_code [of Kick]
    by (simp add: encodeMessage_def)
  from decode_respects_id [OF this] show ?thesis by simp
qed

text \<open>The negotiated codec is the host's most preferred codec among those the client supports: it is
  supported by the client, everything the host prefers to it is not, and negotiation fails exactly
  when the two lists are disjoint.
\<close>

theorem negotiateCodec_correct:
  "(negotiateCodec host client = Some c \<longleftrightarrow>
      (\<exists>better worse. host = better @ c # worse \<and> c \<in> set client \<and> set better \<inter> set client = {})) \<and>
   (negotiateCodec host client = None \<longleftrightarrow> set host \<inter> set client = {})"
proof (induction host)
  case Nil
  then show ?case by simp
next
  case (Cons want host)
  show ?case
  proof (cases "want \<in> set client")
    case True
    then have "(\<exists>better worse. want # host = better @ c # worse \<and> c \<in> set client \<and>
        set better \<inter> set client = {}) \<longleftrightarrow> want = c"
      by (auto simp: Cons_eq_append_conv)
    with True show ?thesis by auto
  next
    case False
    have "(\<exists>better worse. want # host = better @ c # worse \<and> c \<in> set client \<and>
        set better \<inter> set client = {}) \<longleftrightarrow>
      (\<exists>better worse. host = better @ c # worse \<and> c \<in> set client \<and> set better \<inter> set client = {})"
      (is "?L \<longleftrightarrow> ?R")
    proof
      assume ?L
      then obtain better worse where "want # host = better @ c # worse" "c \<in> set client"
        "set better \<inter> set client = {}" by auto
      with False show ?R by (cases better) auto
    next
      assume ?R
      then obtain better worse where "want # host = (want # better) @ c # worse" "c \<in> set client"
        "set (want # better) \<inter> set client = {}" using False by auto
      then show ?L by blast
    qed
    with False Cons.IH show ?thesis by simp
  qed
qed

text \<open>An envelope whose type is set but whose body is left default-constructed (a \<open>ClientHello\<close>) does
  not encode as the message its type names: its payload is six bytes, and the peer's decoder rejects
  it under the id \<open>SessionKeyReady\<close>. Both coordinators send their key confirmation this way.
\<close>

theorem default_body_not_decodable:
  "encodeMessage (Envelope_default\<lparr>etype := SessionKeyReady\<rparr>) = replicate 6 0 \<and>
   decodeMessage (id_code SessionKeyReady)
     (encodeMessage (Envelope_default\<lparr>etype := SessionKeyReady\<rparr>)) = None"
proof -
  have "encodeMessage (Envelope_default\<lparr>etype := SessionKeyReady\<rparr>) = replicate 6 0"
    by (simp add: encodeMessage_def Envelope_default_def w_str_def le_put_def upt_rec
        str_bytes_def numeral_eq_Suc)
  then show ?thesis
    by (simp add: decodeMessage_code run_state_simps run_r_ok_done del: id_code.simps)
qed

end
