(* ===== verification/SessionCodes.thy ===== *)
theory SessionCodes
  imports RP_Prelude
begin

text \<open>
  \<^verbatim>\<open>security/SessionCodes.cpp\<close>: the human-transcribable codes that admit a client to a session:
  generation, normalisation of typed input, and the comparison that does not leave early. The
  random source \<^verbatim>\<open>std::random_device\<close> is a parameter \<open>rnd\<close>: \<open>rnd i\<close> is the value of the
  \<open>i\<close>-th call of \<^verbatim>\<open>secureRandom32\<close>, and the generator threads the number of calls made so far.
\<close>

definition kCodeAlphabet :: string where
  "kCodeAlphabet = ''ABCDEFGHJKLMNPQRSTUVWXYZ23456789''"

definition kCodeAlphabetSize :: nat where "kCodeAlphabetSize = 32"

text \<open>One round of the loop takes the low byte of the buffer, refilling it when fewer than eight bits
  are left; the loop runs until \<open>count\<close> characters are out.\<close>

fun randomCodeLoop :: "(nat \<Rightarrow> u32) \<Rightarrow> nat \<Rightarrow> u32 \<Rightarrow> nat \<Rightarrow> nat \<Rightarrow> string \<times> nat" where
  "randomCodeLoop rnd 0 buf bits calls = ([], calls)"
| "randomCodeLoop rnd (Suc count) buf bits calls =
     (let (buf, bits, calls) = (if bits < 8 then (rnd calls, 32, Suc calls) else (buf, bits, calls));
          byte = ucast (buf AND 0xFF) :: u8;
          c = kCodeAlphabet ! unat (byte AND of_nat (kCodeAlphabetSize - 1));
          (out, calls) = randomCodeLoop rnd count (drop_bit 8 buf) (bits - 8) calls
      in (c # out, calls))"

definition randomCodeChars :: "(nat \<Rightarrow> u32) \<Rightarrow> nat \<Rightarrow> nat \<Rightarrow> string \<times> nat" where
  "randomCodeChars rnd count calls = randomCodeLoop rnd count 0 0 calls"

definition generateSessionCode :: "(nat \<Rightarrow> u32) \<Rightarrow> nat \<Rightarrow> string \<times> nat" where
  "generateSessionCode rnd calls =
     (let (a, calls) = randomCodeChars rnd 4 calls;
          (b, calls) = randomCodeChars rnd 4 calls
      in (a @ ''-'' @ b, calls))"

definition code_upper :: "char \<Rightarrow> char" where
  "code_upper ch =
     (if of_char ch \<ge> (97 :: nat) \<and> of_char ch \<le> (122 :: nat)
      then char_of (of_char ch - 97 + 65 :: nat) else ch)"

fun code_compact :: "string \<Rightarrow> string" where
  "code_compact [] = []"
| "code_compact (ch # s) =
     (if ch = CHR ''-'' \<or> ch = CHR '' '' then code_compact s else code_upper ch # code_compact s)"

definition normalizeSessionCode :: "string \<Rightarrow> string option" where
  "normalizeSessionCode input =
     (let compact = code_compact input in
      if length compact \<noteq> 8 then None
      else if \<not> list_all (\<lambda>ch. List.member kCodeAlphabet ch) compact then None
      else Some (take 4 compact @ ''-'' @ take 4 (drop 4 compact)))"

fun ct_diff :: "u8 \<Rightarrow> string \<Rightarrow> string \<Rightarrow> u8" where
  "ct_diff diff (a # as) (b # bs) = ct_diff (diff OR (byte_of_char a XOR byte_of_char b)) as bs"
| "ct_diff diff _ _ = diff"

definition constantTimeEqual :: "string \<Rightarrow> string \<Rightarrow> bool" where
  "constantTimeEqual a b = (if length a \<noteq> length b then False else ct_diff 0 a b = 0)"

definition verifySessionCode :: "string \<Rightarrow> string \<Rightarrow> bool" where
  "verifySessionCode presented actual =
     (case (normalizeSessionCode presented, normalizeSessionCode actual) of
        (Some p, Some a) \<Rightarrow> constantTimeEqual p a
      | _ \<Rightarrow> False)"

section \<open>Comparison\<close>

lemma ct_diff_zero_iff: "length a = length b \<Longrightarrow> ct_diff d a b = 0 \<longleftrightarrow> d = 0 \<and> a = b"
  by (induction d a b rule: ct_diff.induct) (auto simp: or_eq_0_word xor_eq_0_word)

lemma constantTimeEqual_iff: "constantTimeEqual a b \<longleftrightarrow> a = b"
  by (auto simp: constantTimeEqual_def ct_diff_zero_iff)

section \<open>Canonical codes\<close>

definition is_canonical :: "string \<Rightarrow> bool" where
  "is_canonical c \<longleftrightarrow> length c = 9 \<and> c ! 4 = CHR ''-'' \<and>
     set (take 4 c) \<subseteq> set kCodeAlphabet \<and> set (drop 5 c) \<subseteq> set kCodeAlphabet"

lemma alphabet_size: "length kCodeAlphabet = kCodeAlphabetSize"
  by (simp add: kCodeAlphabet_def kCodeAlphabetSize_def)

lemma alphabet_fixed:
  "ch \<in> set kCodeAlphabet \<Longrightarrow> ch \<noteq> CHR ''-'' \<and> ch \<noteq> CHR '' '' \<and> code_upper ch = ch"
  by (auto simp: kCodeAlphabet_def code_upper_def)

lemma code_compact_append: "code_compact (a @ b) = code_compact a @ code_compact b"
  by (induction a rule: code_compact.induct) auto

lemma code_compact_alphabet: "set a \<subseteq> set kCodeAlphabet \<Longrightarrow> code_compact a = a"
  by (induction a rule: code_compact.induct) (auto dest: alphabet_fixed)

lemma canonical_split:
  assumes "is_canonical c"
  obtains a b where "c = a @ ''-'' @ b" "length a = 4" "length b = 4"
    "set a \<subseteq> set kCodeAlphabet" "set b \<subseteq> set kCodeAlphabet"
proof (rule that [of "take 4 c" "drop 5 c"])
  show "c = take 4 c @ ''-'' @ drop 5 c"
    using assms id_take_nth_drop [of 4 c] by (simp add: is_canonical_def)
qed (use assms in \<open>simp_all add: is_canonical_def\<close>)

lemma is_canonicalI:
  "length a = 4 \<Longrightarrow> length b = 4 \<Longrightarrow> set a \<subseteq> set kCodeAlphabet \<Longrightarrow> set b \<subseteq> set kCodeAlphabet \<Longrightarrow>
   is_canonical (a @ ''-'' @ b)"
  by (simp add: is_canonical_def nth_append)

lemmas is_canonicalI_Cons = is_canonicalI [simplified]

lemma normalize_canonical: "is_canonical c \<Longrightarrow> normalizeSessionCode c = Some c"
  by (elim canonical_split)
    (auto simp: normalizeSessionCode_def code_compact_append code_compact_alphabet list_all_iff Let_def)

lemma normalize_result: "normalizeSessionCode s = Some c \<Longrightarrow> is_canonical c"
  by (auto simp: normalizeSessionCode_def Let_def list_all_iff split: if_splits
      intro!: is_canonicalI_Cons dest!: in_set_takeD in_set_dropD)

section \<open>Generated codes\<close>

lemma and_31_less: "unat (b AND 31 :: u8) < 32"
  using word_and_le1 [of b "31 :: u8"] by (simp add: word_le_nat_alt)

lemma randomCodeLoop_out:
  "length (fst (randomCodeLoop rnd n buf bits k)) = n \<and>
   set (fst (randomCodeLoop rnd n buf bits k)) \<subseteq> set kCodeAlphabet"
proof (induction rnd n buf bits k rule: randomCodeLoop.induct)
  case (1 rnd buf bits calls)
  then show ?case by simp
next
  case (2 rnd count buf bits calls)
  have in_alphabet: "kCodeAlphabet ! unat (b AND 31 :: u8) \<in> set kCodeAlphabet" for b
    using and_31_less [of b] alphabet_size by (intro nth_mem) (simp add: kCodeAlphabetSize_def)
  show ?case
    using 2 in_alphabet by (cases "bits < 8") (simp_all add: Let_def case_prod_beta kCodeAlphabetSize_def)
qed

lemma generate_canonical: "is_canonical (fst (generateSessionCode rnd k))"
  using randomCodeLoop_out [of rnd 4 0 0]
  by (auto simp: generateSessionCode_def randomCodeChars_def Let_def case_prod_beta
      intro!: is_canonicalI_Cons)

section \<open>Properties\<close>

text \<open>C34: \<open>verifySessionCode\<close> accepts exactly the inputs that have the same canonical code as the active
  code: the comparison that never leaves early decides equality, and typing (case, blanks,
  dashes) does not matter.
\<close>

theorem verifySessionCode_iff:
  "verifySessionCode presented actual \<longleftrightarrow>
     (\<exists>c. normalizeSessionCode presented = Some c \<and> normalizeSessionCode actual = Some c)"
  by (auto simp: verifySessionCode_def constantTimeEqual_iff split: option.splits)

text \<open>Normalisation returns \<open>c\<close> exactly when \<open>c\<close> is in the canonical form \<open>XXXX-XXXX\<close> over the
  unambiguous alphabet and the input spells the same characters once case, blanks and dashes
  are ignored; every other input is refused.
\<close>

theorem normalizeSessionCode_canonical:
  "normalizeSessionCode s = Some c \<longleftrightarrow> is_canonical c \<and> code_compact s = code_compact c"
proof
  assume n: "normalizeSessionCode s = Some c"
  then have canon: "is_canonical c" by (rule normalize_result)
  moreover from n have *: "set (code_compact s) \<subseteq> set kCodeAlphabet" "length (code_compact s) = 8"
      "c = take 4 (code_compact s) @ ''-'' @ drop 4 (code_compact s)"
    by (auto simp: normalizeSessionCode_def Let_def list_all_iff split: if_splits)
  have "code_compact (take 4 (code_compact s) @ drop 4 (code_compact s)) = code_compact s"
    by (simp add: code_compact_alphabet [OF *(1)])
  then have "code_compact c = code_compact s"
    unfolding *(3) code_compact_append by simp
  ultimately show "is_canonical c \<and> code_compact s = code_compact c" by simp
next
  assume "is_canonical c \<and> code_compact s = code_compact c"
  then show "normalizeSessionCode s = Some c"
    using normalize_canonical [of c] by (simp add: normalizeSessionCode_def)
qed

text \<open>Whatever the random source returns, a generated code is canonical and a client that presents
  it is accepted.
\<close>

theorem generated_code_verifies:
  "is_canonical (fst (generateSessionCode rnd k)) \<and>
   verifySessionCode (fst (generateSessionCode rnd k)) (fst (generateSessionCode rnd k))"
  using generate_canonical [of rnd k] by (auto simp: verifySessionCode_def constantTimeEqual_iff normalize_canonical)

end
