(* ===== verification/TcpTransport.thy ===== *)
theory TcpTransport
  imports Protocol "HOL-Library.Sublist"
begin

text \<open>
  \<^verbatim>\<open>networking/TcpTransport.cpp\<close>. Asio is a library the program calls: the asynchronous operations
  are outputs of the model (\<open>StartRead\<close>, \<open>StartWrite\<close>) and their completions are events, one for
  each completion handler; posted lambdas are events too. All of them run on the one thread
  of the \<^verbatim>\<open>io_context\<close>, so an event is handled to its end before the next. A completion only arrives
  for an operation in flight, which \<open>tc_reading\<close> and \<open>tc_writing\<close> record.
\<close>

section \<open>TcpConnection\<close>

datatype error_code = NoError | InvalidArgument | TimedOut | ConnectionRefused | OperationAborted | SystemError nat

datatype read_phase = NotReading | ReadingHeader | ReadingBody u16 u8 u32

record TcpConnection =
  tc_reading :: read_phase
  tc_outbox :: "bytes list"
  tc_writing :: bool
  tc_closeAfterWrite :: bool
  tc_closed :: bool

definition TcpConnection_new :: TcpConnection where
  "TcpConnection_new = \<lparr>tc_reading = NotReading, tc_outbox = [], tc_writing = False,
     tc_closeAfterWrite = False, tc_closed = False\<rparr>"

datatype tc_output =
    StartRead nat
  | StartWrite bytes
  | OnFrame u16 u8 bytes
  | OnClose error_code

type_synonym tc_result = "TcpConnection \<times> tc_output list"

definition tc_shutdown :: "error_code \<Rightarrow> TcpConnection \<Rightarrow> tc_result" where
  "tc_shutdown ec c =
     (if tc_closed c then (c, [])
      else (c\<lparr>tc_closed := True, tc_outbox := []\<rparr>, [OnClose ec]))"

definition readHeader :: "TcpConnection \<Rightarrow> tc_result" where
  "readHeader c = (c\<lparr>tc_reading := ReadingHeader\<rparr>, [StartRead kFrameHeaderSize])"

text \<open>The frame handler only posts further work, so it does not change the connection before it
  returns.\<close>

definition readBody :: "u16 \<Rightarrow> u8 \<Rightarrow> u32 \<Rightarrow> TcpConnection \<Rightarrow> tc_result" where
  "readBody ty fl payloadSize c =
     (if payloadSize = 0 then
        if \<not> tc_closed c
        then (case readHeader c of (c', os) \<Rightarrow> (c', OnFrame ty fl [] # os))
        else (c\<lparr>tc_reading := NotReading\<rparr>, [OnFrame ty fl []])
      else (c\<lparr>tc_reading := ReadingBody ty fl payloadSize\<rparr>, [StartRead (unat payloadSize)]))"

definition onHeaderRead :: "error_code \<Rightarrow> bytes \<Rightarrow> TcpConnection \<Rightarrow> tc_result" where
  "onHeaderRead ec headerBuf c =
     (let c = c\<lparr>tc_reading := NotReading\<rparr> in
      if ec \<noteq> NoError then tc_shutdown ec c
      else case parseFrameHeader headerBuf of
        None \<Rightarrow> tc_shutdown InvalidArgument c
      | Some h \<Rightarrow> readBody (fh_type h) (fh_flags h) (fh_payloadSize h) c)"

definition onBodyRead :: "u16 \<Rightarrow> u8 \<Rightarrow> error_code \<Rightarrow> bytes \<Rightarrow> TcpConnection \<Rightarrow> tc_result" where
  "onBodyRead ty fl ec bodyBuf c =
     (let c = c\<lparr>tc_reading := NotReading\<rparr> in
      if ec \<noteq> NoError then tc_shutdown ec c
      else if \<not> tc_closed c
      then (case readHeader c of (c', os) \<Rightarrow> (c', OnFrame ty fl bodyBuf # os))
      else (c, [OnFrame ty fl bodyBuf]))"

definition pumpWrite :: "TcpConnection \<Rightarrow> tc_result" where
  "pumpWrite c =
     (if tc_writing c \<or> tc_outbox c = [] \<or> tc_closed c then (c, [])
      else (c\<lparr>tc_writing := True\<rparr>, [StartWrite (hd (tc_outbox c))]))"

definition onWriteDone :: "error_code \<Rightarrow> TcpConnection \<Rightarrow> tc_result" where
  "onWriteDone ec c =
     (let c = c\<lparr>tc_writing := False\<rparr> in
      if ec \<noteq> NoError then tc_shutdown ec c
      else let c = (if tc_outbox c \<noteq> [] then c\<lparr>tc_outbox := tl (tc_outbox c)\<rparr> else c) in
      if tc_closeAfterWrite c \<and> tc_outbox c = [] then tc_shutdown NoError c
      else pumpWrite c)"

definition postSend :: "bytes \<Rightarrow> TcpConnection \<Rightarrow> tc_result" where
  "postSend frame c =
     (if tc_closed c then (c, []) else pumpWrite (c\<lparr>tc_outbox := tc_outbox c @ [frame]\<rparr>))"

definition postSendAndClose :: "bytes \<Rightarrow> TcpConnection \<Rightarrow> tc_result" where
  "postSendAndClose frame c =
     (if tc_closed c then (c, [])
      else pumpWrite (c\<lparr>tc_outbox := tc_outbox c @ [frame], tc_closeAfterWrite := True\<rparr>))"

definition tc_start :: "TcpConnection \<Rightarrow> tc_result" where
  "tc_start c = (if \<not> tc_closed c then readHeader c else (c, []))"

datatype tc_event =
    TStart
  | TSend u16 bytes
  | TSendAndClose u16 bytes
  | TClose
  | THeaderRead error_code bytes
  | TBodyRead error_code bytes
  | TWriteDone error_code

fun tc_handle :: "tc_event \<Rightarrow> TcpConnection \<Rightarrow> tc_result" where
  "tc_handle TStart c = tc_start c"
| "tc_handle (TSend ty payload) c = postSend (makeFrame_vec ty payload) c"
| "tc_handle (TSendAndClose ty payload) c = postSendAndClose (makeFrame_vec ty payload) c"
| "tc_handle TClose c = tc_shutdown NoError c"
| "tc_handle (THeaderRead ec buf) c =
     (if tc_reading c = ReadingHeader then onHeaderRead ec buf c else (c, []))"
| "tc_handle (TBodyRead ec buf) c =
     (case tc_reading c of ReadingBody ty fl n \<Rightarrow> onBodyRead ty fl ec buf c | _ \<Rightarrow> (c, []))"
| "tc_handle (TWriteDone ec) c = (if tc_writing c then onWriteDone ec c else (c, []))"

text \<open>What \<^verbatim>\<open>asio::async_read\<close> does with a byte stream: a read of \<open>n\<close> bytes completes as soon as \<open>n\<close> bytes
  are there, and takes them off the stream.\<close>

definition wanted :: "TcpConnection \<Rightarrow> nat" where
  "wanted c = (case tc_reading c of NotReading \<Rightarrow> 0 | ReadingHeader \<Rightarrow> kFrameHeaderSize
                                  | ReadingBody ty fl n \<Rightarrow> unat n)"

definition read_event :: "TcpConnection \<Rightarrow> bytes \<Rightarrow> tc_event" where
  "read_event c bs = (if tc_reading c = ReadingHeader then THeaderRead NoError bs else TBodyRead NoError bs)"

function drain :: "TcpConnection \<Rightarrow> bytes \<Rightarrow> TcpConnection \<times> bytes \<times> tc_output list" where
  "drain c stream =
     (if wanted c = 0 \<or> length stream < wanted c then (c, stream, [])
      else let (c1, o1) = tc_handle (read_event c (take (wanted c) stream)) c;
               (c2, rest, o2) = drain c1 (drop (wanted c) stream)
           in (c2, rest, o1 @ o2))"
  by pat_completeness auto
termination
  by (relation "measure (\<lambda>(c, s). length s)") auto

declare drain.simps [simp del]

fun frames_of :: "tc_output list \<Rightarrow> (u16 \<times> u8 \<times> bytes) list" where
  "frames_of [] = []"
| "frames_of (OnFrame ty fl p # os) = (ty, fl, p) # frames_of os"
| "frames_of (_ # os) = frames_of os"

fun writes_of :: "tc_output list \<Rightarrow> bytes list" where
  "writes_of [] = []"
| "writes_of (StartWrite b # os) = b # writes_of os"
| "writes_of (_ # os) = writes_of os"

fun closes_of :: "tc_output list \<Rightarrow> error_code list" where
  "closes_of [] = []"
| "closes_of (OnClose e # os) = e # closes_of os"
| "closes_of (_ # os) = closes_of os"

lemma outs_append:
  "frames_of (a @ b) = frames_of a @ frames_of b" "writes_of (a @ b) = writes_of a @ writes_of b"
  "closes_of (a @ b) = closes_of a @ closes_of b"
proof -
  show "frames_of (a @ b) = frames_of a @ frames_of b" by (induction a rule: frames_of.induct) auto
  show "writes_of (a @ b) = writes_of a @ writes_of b" by (induction a rule: writes_of.induct) auto
  show "closes_of (a @ b) = closes_of a @ closes_of b" by (induction a rule: closes_of.induct) auto
qed

lemmas tc_defs = tc_start_def postSend_def postSendAndClose_def tc_shutdown_def onHeaderRead_def
  onBodyRead_def onWriteDone_def pumpWrite_def readHeader_def readBody_def Let_def

section \<open>Reading\<close>

lemma le_get_take_le:
  "n \<le> m \<Longrightarrow> le_get n (take m d) = (le_get n d :: 'a::len word)"
  using le_get_take [of n "take m d", where 'a = 'a] le_get_take [of n d, where 'a = 'a]
  by (simp add: min_def)

lemma parseFrameHeader_take:
  assumes "kFrameHeaderSize \<le> length d"
  shows "parseFrameHeader (take kFrameHeaderSize d) = parseFrameHeader d"
  using assms by (simp add: parseFrameHeader_def Let_def kFrameHeaderSize_def drop_take le_get_take_le)

definition tc_ready :: "TcpConnection \<Rightarrow> bool" where
  "tc_ready c \<longleftrightarrow> tc_reading c = ReadingHeader \<and> \<not> tc_closed c"

lemma drain_frame:
  assumes "tc_ready c" and "length p \<le> 65536"
  shows "\<exists>os. drain c (makeFrame_vec ty p @ rest) = (case drain c rest of (c2, r, o2) \<Rightarrow> (c2, r, os @ o2)) \<and>
    frames_of os = [(ty, 0, p)] \<and> closes_of os = []"
proof -
  let ?n = "word_of_nat (length p) :: u32"
  have n: "unat ?n = length p" using assms(2) by (simp add: unat_of_nat)
  have len: "length (makeFrame_vec ty p) = 10 + length p" using assms(2) by (simp add: length_makeFrame_vec)
  have hdr: "parseFrameHeader (take 10 (makeFrame_vec ty p @ rest)) = Some \<lparr>fh_magic = kFrameMagic,
      fh_version = kFrameVersion, fh_type = ty, fh_flags = 0, fh_payloadSize = ?n\<rparr>"
    using parseFrameHeader_take [of "makeFrame_vec ty p @ rest"] parseFrameHeader_makeFrame_vec [OF assms(2)] len
    by (simp add: kFrameHeaderSize_def)
  have body: "drop 10 (makeFrame_vec ty p) = p"
    using assms(2) makeFrame_vec_eq [of p ty] by simp
  have c: "tc_reading c = ReadingHeader" "\<not> tc_closed c" "c\<lparr>tc_reading := ReadingHeader\<rparr> = c"
    using assms(1) by (simp_all add: tc_ready_def)
  have step: "drain c (makeFrame_vec ty p @ rest) =
      (let (c1, o1) = readBody ty 0 ?n (c\<lparr>tc_reading := NotReading\<rparr>); (c2, r, o2) = drain c1 (p @ rest)
       in (c2, r, o1 @ o2))"
    using hdr body c len
    by (subst drain.simps) (simp add: wanted_def read_event_def onHeaderRead_def kFrameHeaderSize_def Let_def)
  show ?thesis
  proof (cases "p = []")
    case True
    then show ?thesis
      using step c by (intro exI [of _ "[OnFrame ty 0 [], StartRead 10]"])
        (simp add: readBody_def readHeader_def kFrameHeaderSize_def case_prod_beta)
  next
    case False
    then have nz: "?n \<noteq> 0" using n by (metis length_0_conv unat_0)
    let ?c1 = "c\<lparr>tc_reading := ReadingBody ty 0 ?n\<rparr>"
    have "drain ?c1 (p @ rest) =
        (case drain c rest of (c2, r, o2) \<Rightarrow> (c2, r, [OnFrame ty 0 p, StartRead 10] @ o2))"
      using False n
      by (subst drain.simps)
        (simp add: wanted_def read_event_def onBodyRead_def readHeader_def kFrameHeaderSize_def Let_def c)
    then show ?thesis
      using step nz c by (intro exI [of _ "[StartRead (length p), OnFrame ty 0 p, StartRead 10]"])
        (simp add: readBody_def n case_prod_beta)
  qed
qed

lemma drain_empty: "tc_ready c \<Longrightarrow> drain c [] = (c, [], [])"
  by (subst drain.simps) (simp add: wanted_def tc_ready_def kFrameHeaderSize_def)

lemma drain_frames:
  assumes "tc_ready c" and "\<forall>(ty, p) \<in> set fs. length p \<le> 65536"
  shows "\<exists>os. drain c (concat (map (\<lambda>(ty, p). makeFrame_vec ty p) fs)) = (c, [], os) \<and>
    frames_of os = map (\<lambda>(ty, p). (ty, 0, p)) fs \<and> closes_of os = []"
  using assms(2)
proof (induction fs)
  case Nil
  then show ?case using drain_empty [OF assms(1)] by simp
next
  case (Cons f fs)
  obtain ty p where f: "f = (ty, p)" by fastforce
  from Cons obtain os where os: "drain c (concat (map (\<lambda>(ty, p). makeFrame_vec ty p) fs)) = (c, [], os)"
    "frames_of os = map (\<lambda>(ty, p). (ty, 0, p)) fs" "closes_of os = []" by auto
  have "length p \<le> 65536" using Cons.prems f by auto
  from drain_frame [OF assms(1) this, of ty "concat (map (\<lambda>(ty, p). makeFrame_vec ty p) fs)"] os f
  show ?case by (auto simp: outs_append)
qed

text \<open>How the stream is cut into segments does not matter.\<close>

lemma drain_append:
  "drain c (a @ b) = (case drain c a of (c1, r, o1) \<Rightarrow> case drain c1 (r @ b) of (c2, r2, o2) \<Rightarrow> (c2, r2, o1 @ o2))"
proof (induction c a rule: drain.induct)
  case (1 c a)
  show ?case
  proof (cases "wanted c = 0 \<or> length a < wanted c")
    case True
    then show ?thesis by (subst (2) drain.simps) simp
  next
    case False
    then have f: "\<not> (wanted c = 0 \<or> length (a @ b) < wanted c)" by auto
    obtain c1 o1 where h: "tc_handle (read_event c (take (wanted c) a)) c = (c1, o1)" by fastforce
    have a: "drain c a = (case drain c1 (drop (wanted c) a) of (c2, r, o2) \<Rightarrow> (c2, r, o1 @ o2))"
      using False h by (subst drain.simps) (simp add: Let_def)
    have ab: "drain c (a @ b) = (case drain c1 (drop (wanted c) a @ b) of (c2, r, o2) \<Rightarrow> (c2, r, o1 @ o2))"
      using False f h by (subst drain.simps) (simp add: Let_def)
    from "1.IH" [OF False h [symmetric] refl] show ?thesis
      unfolding a ab by (simp add: case_prod_beta)
  qed
qed

fun receive :: "TcpConnection \<Rightarrow> bytes \<Rightarrow> bytes list \<Rightarrow> TcpConnection \<times> bytes \<times> tc_output list" where
  "receive c buf [] = (c, buf, [])"
| "receive c buf (x # xs) =
     (let (c1, b1, o1) = drain c (buf @ x); (c2, b2, o2) = receive c1 b1 xs in (c2, b2, o1 @ o2))"

lemma drain_idem:
  "drain c s = (c1, b1, o1) \<Longrightarrow> drain c1 b1 = (c1, b1, [])"
proof (induction c s arbitrary: o1 rule: drain.induct)
  case (1 c s)
  show ?case
  proof (cases "wanted c = 0 \<or> length s < wanted c")
    case True
    with "1.prems" show ?thesis by (metis drain.simps prod.inject)
  next
    case False
    obtain c2 o2 where h: "tc_handle (read_event c (take (wanted c) s)) c = (c2, o2)" by fastforce
    obtain o3 where "drain c2 (drop (wanted c) s) = (c1, b1, o3)"
      using "1.prems" False h by (subst (asm) drain.simps) (auto simp: Let_def split: prod.splits)
    with "1.IH" [OF False h [symmetric] refl] show ?thesis by blast
  qed
qed

lemma receive_concat:
  "drain c buf = (c, buf, []) \<Longrightarrow> receive c buf xs = drain c (buf @ concat xs)"
proof (induction xs arbitrary: c buf)
  case Nil
  then show ?case by simp
next
  case (Cons x xs)
  obtain c1 b1 o1 where d: "drain c (buf @ x) = (c1, b1, o1)" by (metis prod_cases3)
  have idem: "drain c1 b1 = (c1, b1, [])" using drain_idem [of c "buf @ x"] d by simp
  show ?case
    using d Cons.IH [OF idem] drain_append [of c "buf @ x" "concat xs"] by (simp add: case_prod_beta)
qed

section \<open>Writing and closing\<close>

text \<open>\<open>sent\<close> is what was accepted for sending so far, \<open>started\<close> the writes handed to the socket.\<close>

definition tc_inv :: "bytes list \<Rightarrow> bytes list \<Rightarrow> TcpConnection \<Rightarrow> bool" where
  "tc_inv sent started c \<longleftrightarrow>
     (if tc_closed c then tc_outbox c = [] \<and> prefix started sent
      else (\<exists>done. sent = done @ tc_outbox c \<and>
              started = (if tc_writing c then done @ [hd (tc_outbox c)] else done)) \<and>
           (tc_writing c \<longleftrightarrow> tc_outbox c \<noteq> []))"

fun sent_by :: "tc_event \<Rightarrow> bytes list" where
  "sent_by (TSend ty p) = [makeFrame_vec ty p]"
| "sent_by (TSendAndClose ty p) = [makeFrame_vec ty p]"
| "sent_by _ = []"

lemma tc_inv_new: "tc_inv [] [] TcpConnection_new"
  by (simp add: tc_inv_def TcpConnection_new_def)

text \<open>What the shutdown and the pump do to the invariant; the read side leaves the writer alone.\<close>

lemma tc_inv_closed:
  "tc_inv sent started c \<Longrightarrow> tc_inv (sent @ rest) started (c\<lparr>tc_closed := True, tc_outbox := []\<rparr>)"
  by (auto simp: tc_inv_def prefix_def split: if_splits) (metis append_Cons append_Nil hd_Cons_tl)

lemma tc_inv_reading [simp]: "tc_inv sent started (c\<lparr>tc_reading := r\<rparr>) = tc_inv sent started c"
  by (simp add: tc_inv_def)

lemma tc_inv_shutdown:
  "tc_inv sent started c \<Longrightarrow> tc_shutdown ec c = (c', os) \<Longrightarrow>
   tc_inv sent (started @ writes_of os) c' \<and> closes_of os = (if tc_closed c then [] else [ec]) \<and> tc_closed c'"
  using tc_inv_closed [of sent started c "[]"] by (auto simp: tc_shutdown_def split: if_splits)

definition read_only :: "TcpConnection \<Rightarrow> tc_result \<Rightarrow> bool" where
  "read_only c res \<longleftrightarrow>
     (\<exists>r. fst res = c\<lparr>tc_reading := r\<rparr>) \<and> writes_of (snd res) = [] \<and> closes_of (snd res) = []"

lemma readHeader_only: "read_only c (readHeader (c\<lparr>tc_reading := x\<rparr>))"
  by (auto simp: read_only_def readHeader_def)

lemma readBody_only: "read_only c (readBody ty fl n (c\<lparr>tc_reading := x\<rparr>))"
  by (auto simp: read_only_def readHeader_def readBody_def)

text \<open>Every read event is either such a step or a shutdown.\<close>

definition read_step :: "TcpConnection \<Rightarrow> tc_result \<Rightarrow> bool" where
  "read_step c res \<longleftrightarrow> read_only c res \<or> (\<exists>x r. res = tc_shutdown x (c\<lparr>tc_reading := r\<rparr>))"

lemma read_step_noop: "read_step c (c, [])"
  using exI [of "\<lambda>r. c = c\<lparr>tc_reading := r\<rparr>" "tc_reading c"] by (simp add: read_step_def read_only_def)

lemma read_step_header: "read_step c (onHeaderRead ec buf c)"
  using readBody_only by (fastforce simp: read_step_def onHeaderRead_def Let_def split: option.splits)

lemma read_step_body: "read_step c (onBodyRead ty fl ec buf c)"
  by (fastforce simp: read_step_def onBodyRead_def Let_def read_only_def readHeader_def)

lemma read_step_start: "read_step c (tc_start c)"
  using readHeader_only [of c "tc_reading c"] read_step_noop [of c]
  by (auto simp: tc_start_def read_step_def)

lemma tc_inv_pump:
  assumes "\<not> tc_closed c" and "sent = done @ tc_outbox c"
    and "started = (if tc_writing c then done @ [hd (tc_outbox c)] else done)"
    and "tc_writing c \<longrightarrow> tc_outbox c \<noteq> []" and "pumpWrite c = (c', os)"
  shows "tc_inv sent (started @ writes_of os) c' \<and> closes_of os = [] \<and> \<not> tc_closed c'"
  using assms by (auto simp: pumpWrite_def tc_inv_def split: if_splits)

lemma tc_inv_post:
  assumes inv: "tc_inv sent started c" and "\<not> tc_closed c"
    and "pumpWrite (c\<lparr>tc_outbox := tc_outbox c @ [f], tc_closeAfterWrite := b\<rparr>) = (c', os)"
  shows "tc_inv (sent @ [f]) (started @ writes_of os) c' \<and> closes_of os = [] \<and> \<not> tc_closed c'"
proof -
  obtain "done" where d: "sent = done @ tc_outbox c"
    "started = (if tc_writing c then done @ [hd (tc_outbox c)] else done)" "tc_writing c \<longleftrightarrow> tc_outbox c \<noteq> []"
    using assms(1,2) by (auto simp: tc_inv_def)
  show ?thesis by (rule tc_inv_pump [OF _ _ _ _ assms(3), of _ "done"]) (use d assms(2) in auto)
qed

lemma tc_inv_writeDone:
  assumes inv: "tc_inv sent started c" and w: "tc_writing c" and h: "onWriteDone ec c = (c', os)"
  shows "tc_inv sent (started @ writes_of os) c' \<and>
    length (closes_of os) = (if tc_closed c' \<and> \<not> tc_closed c then 1 else 0) \<and> (tc_closed c \<longrightarrow> tc_closed c')"
proof (cases "tc_closed c")
  case True
  with inv h show ?thesis
    by (auto simp: onWriteDone_def tc_shutdown_def pumpWrite_def Let_def tc_inv_def split: if_splits)
next
  case False
  obtain "done" where d: "sent = done @ tc_outbox c" "started = done @ [hd (tc_outbox c)]" "tc_outbox c \<noteq> []"
    using inv False w by (auto simp: tc_inv_def)
  let ?c = "c\<lparr>tc_writing := False, tc_outbox := tl (tc_outbox c)\<rparr>"
  have d': "sent = started @ tl (tc_outbox c)" using d by simp
  then have pre: "prefix started sent" by simp
  have eq: "onWriteDone ec c = (if ec \<noteq> NoError then tc_shutdown ec (c\<lparr>tc_writing := False\<rparr>)
      else if tc_closeAfterWrite c \<and> tl (tc_outbox c) = [] then tc_shutdown NoError ?c else pumpWrite ?c)"
    using d(3) by (simp add: onWriteDone_def Let_def)
  show ?thesis
  proof (cases "ec \<noteq> NoError \<or> tc_closeAfterWrite c \<and> tl (tc_outbox c) = []")
    case True
    with h False have "c' = ?c\<lparr>tc_closed := True, tc_outbox := []\<rparr> \<and> writes_of os = [] \<and> length (closes_of os) = 1"
      unfolding eq by (auto simp: tc_shutdown_def split: if_splits)
    with False pre show ?thesis by (simp add: tc_inv_def)
  next
    case not_closing: False
    then have "pumpWrite ?c = (c', os)" using h unfolding eq by auto
    from tc_inv_pump [OF _ _ _ _ this, of sent started started] d' False show ?thesis by simp
  qed
qed

lemma tc_handle_inv:
  assumes inv: "tc_inv sent started c" and h: "tc_handle e c = (c', os)"
  shows "tc_inv (sent @ sent_by e) (started @ writes_of os) c' \<and>
    length (closes_of os) = (if tc_closed c' \<and> \<not> tc_closed c then 1 else 0) \<and> (tc_closed c \<longrightarrow> tc_closed c')"
proof -
  have read: ?thesis if st: "read_step c (c', os)" and sb: "sent_by e = []"
  proof (cases "read_only c (c', os)")
    case True
    with inv sb show ?thesis by (auto simp: read_only_def)
  next
    case False
    then obtain x r where "tc_shutdown x (c\<lparr>tc_reading := r\<rparr>) = (c', os)" using st by (auto simp: read_step_def)
    from tc_inv_shutdown [OF _ this, of sent started] inv sb show ?thesis by auto
  qed
  have post: ?thesis if "tc_closed c" "c' = c" "os = []"
    using that inv by (auto simp: tc_inv_def)
  show ?thesis
  proof (cases e)
    case TStart
    then show ?thesis using h read_step_start [of c] by (intro read) auto
  next
    case (TSend ty p)
    then show ?thesis
      using h post tc_inv_post [OF inv, of "tc_closeAfterWrite c" "makeFrame_vec ty p" c' os]
      by (auto simp: postSend_def split: if_splits)
  next
    case (TSendAndClose ty p)
    then show ?thesis
      using h post tc_inv_post [OF inv, of True "makeFrame_vec ty p" c' os]
      by (auto simp: postSendAndClose_def split: if_splits)
  next
    case TClose
    then show ?thesis using h inv tc_inv_shutdown [OF inv, of NoError c' os] by auto
  next
    case (THeaderRead ec buf)
    then show ?thesis using h read_step_noop [of c] read_step_header [of c ec buf]
      by (intro read) (auto split: if_splits)
  next
    case (TBodyRead ec buf)
    then have "read_step c (tc_handle e c)"
      using read_step_noop [of c] read_step_body by (simp split: read_phase.split)
    then show ?thesis using h TBodyRead by (intro read) simp_all
  next
    case (TWriteDone ec)
    then show ?thesis using h inv tc_inv_writeDone [OF inv, of ec c' os] by (auto split: if_splits)
  qed
qed

lemma tc_run_inv:
  assumes "tc_inv sent started c" and "run_out tc_handle es c = (c', os)"
  shows "tc_inv (sent @ concat (map sent_by es)) (started @ writes_of os) c' \<and>
    length (closes_of os) = (if tc_closed c' \<and> \<not> tc_closed c then 1 else 0) \<and> (tc_closed c \<longrightarrow> tc_closed c')"
  using assms
proof (induction es arbitrary: sent started c os)
  case Nil
  then show ?case by simp
next
  case (Cons e es)
  obtain c1 o1 where h: "tc_handle e c = (c1, o1)" by fastforce
  obtain o2 where r: "run_out tc_handle es c1 = (c', o2)" "os = o1 @ o2"
    using Cons.prems(2) h by (cases "run_out tc_handle es c1") auto
  note step = tc_handle_inv [OF Cons.prems(1) h]
  note ih = Cons.IH [OF conjunct1 [OF step] r(1)]
  have "length (closes_of os) = length (closes_of o1) + length (closes_of o2)"
    by (simp add: r(2) outs_append)
  with step ih show ?case
    by (cases "tc_closed c"; cases "tc_closed c1"; cases "tc_closed c'") (simp_all add: r(2) outs_append)
qed

section \<open>Establishing connections\<close>

text \<open>
  \<^verbatim>\<open>ConnectAttempt\<close> and \<^verbatim>\<open>RelayConnectAttempt\<close>: both wait for a chain of completions next to one
  timer; the relay attempt has two more links, the handshake line and the reply lines. The phase is
  the operation in flight, \<open>Result\<close> is the call of the result handler (with the connection
  when there is one).
\<close>

datatype attempt_phase = Resolving | ConnectingTo | WritingHandshake | ReadingReply | Idle

record ConnectAttempt =
  at_relay :: bool
  at_phase :: attempt_phase
  at_finished :: bool

datatype at_output = StartConnect | StartHandshake string | StartReadReply | Result error_code "string option"

datatype at_event =
    ATimer error_code
  | AResolved error_code
  | AConnected error_code
  | AHandshakeWritten error_code
  | AReply error_code string
  | ACancel

definition at_finish :: "error_code \<Rightarrow> string option \<Rightarrow> ConnectAttempt \<Rightarrow> ConnectAttempt \<times> at_output list" where
  "at_finish ec conn a =
     (if at_finished a then (a, []) else (a\<lparr>at_finished := True, at_phase := Idle\<rparr>, [Result ec conn]))"

definition at_cancel :: "ConnectAttempt \<Rightarrow> ConnectAttempt \<times> at_output list" where
  "at_cancel a = (if at_finished a then (a, []) else (a\<lparr>at_finished := True, at_phase := Idle\<rparr>, []))"

fun str_contains :: "string \<Rightarrow> string \<Rightarrow> bool" where
  "str_contains pat [] = (pat = [])"
| "str_contains pat (c # s) = (take (length pat) (c # s) = pat \<or> str_contains pat s)"

definition at_onReply :: "error_code \<Rightarrow> string \<Rightarrow> ConnectAttempt \<Rightarrow> ConnectAttempt \<times> at_output list" where
  "at_onReply ec line a =
     (if at_finished a then (a, [])
      else if ec \<noteq> NoError then at_finish ec None a
      else if str_contains ''relay_rejected'' line then at_finish ConnectionRefused None a
      else if str_contains ''relay_paired'' line then at_finish NoError (Some ''relay'') a
      else (a\<lparr>at_phase := ReadingReply\<rparr>, [StartReadReply]))"

definition at_onConnected :: "string \<Rightarrow> error_code \<Rightarrow> ConnectAttempt \<Rightarrow> ConnectAttempt \<times> at_output list" where
  "at_onConnected hello ec a =
     (if at_finished a then (a, [])
      else if ec \<noteq> NoError then at_finish ec None a
      else if at_relay a then (a\<lparr>at_phase := WritingHandshake\<rparr>, [StartHandshake hello])
      else at_finish NoError (Some ''client'') a)"

definition relay_hello :: "string \<Rightarrow> string \<Rightarrow> string" where
  "relay_hello token role =
     [CHR 0x7B, CHR 0x22] @ ''type'' @ [CHR 0x22, CHR 0x3A, CHR 0x22] @ ''relay'' @ [CHR 0x22, CHR 0x2C, CHR 0x22] @
     ''token'' @ [CHR 0x22, CHR 0x3A, CHR 0x22] @ token @ [CHR 0x22, CHR 0x2C, CHR 0x22] @
     ''role'' @ [CHR 0x22, CHR 0x3A, CHR 0x22] @ role @ [CHR 0x22, CHR 0x7D, CHR 0x0A]"

fun at_handle :: "string \<Rightarrow> at_event \<Rightarrow> ConnectAttempt \<Rightarrow> ConnectAttempt \<times> at_output list" where
  "at_handle hello (ATimer ec) a =
     (if ec = OperationAborted then (a, [])
      else if at_finished a then (a, []) else at_finish TimedOut None a)"
| "at_handle hello (AResolved ec) a =
     (if at_phase a \<noteq> Resolving \<or> at_finished a then (a, [])
      else if ec \<noteq> NoError then at_finish ec None a
      else (a\<lparr>at_phase := ConnectingTo\<rparr>, [StartConnect]))"
| "at_handle hello (AConnected ec) a =
     (if at_phase a \<noteq> ConnectingTo then (a, []) else at_onConnected hello ec a)"
| "at_handle hello (AHandshakeWritten ec) a =
     (if at_phase a \<noteq> WritingHandshake \<or> at_finished a then (a, [])
      else if ec \<noteq> NoError then at_finish ec None a
      else (a\<lparr>at_phase := ReadingReply\<rparr>, [StartReadReply]))"
| "at_handle hello (AReply ec line) a =
     (if at_phase a \<noteq> ReadingReply then (a, []) else at_onReply ec line a)"
| "at_handle hello ACancel a = at_cancel a"

definition attempt_new :: "bool \<Rightarrow> ConnectAttempt" where
  "attempt_new relay = \<lparr>at_relay = relay, at_phase = Resolving, at_finished = False\<rparr>"

fun results_of :: "at_output list \<Rightarrow> (error_code \<times> string option) list" where
  "results_of [] = []"
| "results_of (Result ec c # os) = (ec, c) # results_of os"
| "results_of (_ # os) = results_of os"

lemma results_append: "results_of (a @ b) = results_of a @ results_of b"
  by (induction a rule: results_of.induct) auto

lemmas at_defs = at_finish_def at_cancel_def at_onReply_def at_onConnected_def

lemma at_handle_once:
  assumes "at_handle hello e a = (a', os)"
  shows "at_finished a \<longrightarrow> at_finished a' \<and> results_of os = []"
    and "length (results_of os) \<le> (if at_finished a' \<and> \<not> at_finished a then 1 else 0)"
    and "e \<noteq> ACancel \<Longrightarrow> at_finished a' \<Longrightarrow> \<not> at_finished a \<Longrightarrow> length (results_of os) = 1"
  using assms by (cases e; auto simp: at_defs split: if_splits)+

lemma at_run_once:
  assumes "run_out (at_handle hello) es a = (a', os)"
  shows "(at_finished a \<longrightarrow> at_finished a' \<and> results_of os = []) \<and> length (results_of os) \<le> 1 \<and>
    (ACancel \<notin> set es \<longrightarrow> \<not> at_finished a \<longrightarrow> at_finished a' \<longrightarrow> length (results_of os) = 1)"
  using assms
proof (induction es arbitrary: a os)
  case Nil
  then show ?case by auto
next
  case (Cons e es)
  obtain a1 o1 where h: "at_handle hello e a = (a1, o1)" by fastforce
  obtain o2 where r: "run_out (at_handle hello) es a1 = (a', o2)" "os = o1 @ o2"
    using Cons.prems h by (cases "run_out (at_handle hello) es a1") auto
  note step = at_handle_once [OF h] and ih = Cons.IH [OF r(1)]
  show ?case
  proof (cases "at_finished a1")
    case True
    with ih step r(2) show ?thesis by (auto simp: results_append split: if_splits)
  next
    case False
    with step have "results_of o1 = []" "\<not> at_finished a" by auto
    with ih r(2) False show ?thesis by (auto simp: results_append)
  qed
qed

text \<open>\<^verbatim>\<open>TcpClient\<close> keeps the latest attempt behind a \<^verbatim>\<open>shared_ptr<void>\<close>; an attempt it replaces goes on by itself.
  \<^verbatim>\<open>cancel\<close> casts the pointer to \<^verbatim>\<open>ConnectAttempt\<close> whatever was stored: on a relay attempt it works on an object
  of an unrelated class.\<close>

record TcpClient =
  cl_attempt :: "ConnectAttempt option"

datatype cl_fault = WrongAttemptType

definition TcpClient_new :: TcpClient where
  "TcpClient_new = \<lparr>cl_attempt = None\<rparr>"

definition cl_connect :: "TcpClient \<Rightarrow> TcpClient" where
  "cl_connect c = c\<lparr>cl_attempt := Some (attempt_new False)\<rparr>"

definition cl_connectRelay :: "TcpClient \<Rightarrow> TcpClient" where
  "cl_connectRelay c = c\<lparr>cl_attempt := Some (attempt_new True)\<rparr>"

definition cl_cancel :: "TcpClient \<Rightarrow> cl_fault + TcpClient \<times> at_output list" where
  "cl_cancel c =
     (case cl_attempt c of
        None \<Rightarrow> Inr (c, [])
      | Some a \<Rightarrow> if at_relay a then Inl WrongAttemptType
                   else case at_cancel a of (a', os) \<Rightarrow> Inr (c\<lparr>cl_attempt := None\<rparr>, os))"

text \<open>The completions of the stored attempt.\<close>

definition cl_handle :: "string \<Rightarrow> at_event \<Rightarrow> TcpClient \<Rightarrow> TcpClient \<times> at_output list" where
  "cl_handle hello e c =
     (case cl_attempt c of
        None \<Rightarrow> (c, [])
      | Some a \<Rightarrow> case at_handle hello e a of (a', os) \<Rightarrow> (c\<lparr>cl_attempt := Some a'\<rparr>, os))"

lemma at_handle_kind: "at_relay (fst (at_handle hello e a)) = at_relay a"
  by (cases e) (auto simp: at_defs)

lemma cl_run_kind: "map_option at_relay (cl_attempt (fst (run_out (cl_handle hello) es c))) = map_option at_relay (cl_attempt c)"
proof (induction es arbitrary: c)
  case (Cons e es)
  have "map_option at_relay (cl_attempt (fst (cl_handle hello e c))) = map_option at_relay (cl_attempt c)"
    using at_handle_kind [of hello e] by (simp add: cl_handle_def case_prod_beta split: option.split)
  then show ?case using Cons.IH by (simp add: Let_def case_prod_beta)
qed simp

text \<open>Cancelling is sound after a direct connect, at every moment; after a relay connect it never is.\<close>

lemma cancel_by_kind:
  "\<exists>c'. cl_cancel (fst (run_out (cl_handle hello) es (cl_connect c))) = Inr (c', []) \<and> cl_attempt c' = None"
  "cl_cancel (fst (run_out (cl_handle hello) es (cl_connectRelay c))) = Inl WrongAttemptType"
proof -
  show "\<exists>c'. cl_cancel (fst (run_out (cl_handle hello) es (cl_connect c))) = Inr (c', []) \<and> cl_attempt c' = None"
    using cl_run_kind [of hello es "cl_connect c"]
    by (auto simp: cl_cancel_def cl_connect_def attempt_new_def at_cancel_def split: option.splits)
  show "cl_cancel (fst (run_out (cl_handle hello) es (cl_connectRelay c))) = Inl WrongAttemptType"
    using cl_run_kind [of hello es "cl_connectRelay c"]
    by (auto simp: cl_cancel_def cl_connectRelay_def attempt_new_def split: option.splits)
qed

text \<open>\<^verbatim>\<open>TcpServer\<close>: the accept loop. \<open>Accept\<close> is the start of the next asynchronous accept.\<close>

record TcpServer =
  sv_stopped :: bool
  sv_hasHandler :: bool

datatype sv_output = Accept | OnConnection | CloseAcceptor

definition TcpServer_new :: TcpServer where
  "TcpServer_new = \<lparr>sv_stopped = False, sv_hasHandler = False\<rparr>"

text \<open>The local endpoint of the acceptor, or 0 when it has none.\<close>

definition sv_port :: "u16 option \<Rightarrow> u16" where
  "sv_port local_endpoint = (case local_endpoint of None \<Rightarrow> 0 | Some p \<Rightarrow> p)"

definition acceptNext :: "TcpServer \<Rightarrow> TcpServer \<times> sv_output list" where
  "acceptNext s = (if sv_stopped s then (s, []) else (s, [Accept]))"

definition setConnectionHandler :: "TcpServer \<Rightarrow> TcpServer \<times> sv_output list" where
  "setConnectionHandler s = acceptNext (s\<lparr>sv_hasHandler := True\<rparr>)"

definition onAccept :: "error_code \<Rightarrow> TcpServer \<Rightarrow> TcpServer \<times> sv_output list" where
  "onAccept ec s =
     (if sv_stopped s then (s, [])
      else if ec = OperationAborted then (s, [])
      else case acceptNext s of (s', os) \<Rightarrow>
        (s', (if ec = NoError \<and> sv_hasHandler s then [OnConnection] else []) @ os))"

definition sv_stop :: "TcpServer \<Rightarrow> TcpServer \<times> sv_output list" where
  "sv_stop s = (if sv_stopped s then (s, []) else (s\<lparr>sv_stopped := True\<rparr>, [CloseAcceptor]))"

section \<open>Properties\<close>

definition frame_bytes :: "Envelope \<Rightarrow> bytes" where
  "frame_bytes e = makeFrame_vec (id_code (etype e)) (encodeMessage e)"

lemma frame_payload_small: "envelope_wf e \<Longrightarrow> length (encodeMessage e) \<le> 65536"
  using length_encodeMessage [of e] by (simp add: envelope_wf_def)

text \<open>C1: The control channel is reliable end to end: if the bytes of a sequence of well-formed messages
  reach a connection that waits for a frame, cut into segments in any way, the frame handler is
  called once for each message, in order, with the payload that decodes to that message; no byte
  is left over and the connection stays open.
\<close>

theorem stream_delivers_messages:
  assumes "tc_ready c" and "\<forall>e \<in> set es. envelope_wf e" and "concat segments = concat (map frame_bytes es)"
  shows "\<exists>os. receive c [] segments = (c, [], os) \<and> closes_of os = [] \<and>
    map (\<lambda>(ty, fl, p). decodeMessage ty p) (frames_of os) = map Some es"
proof -
  let ?fs = "map (\<lambda>e. (id_code (etype e), encodeMessage e)) es"
  have bytes: "concat (map (\<lambda>(ty, p). makeFrame_vec ty p) ?fs) = concat segments"
    unfolding assms(3) by (simp add: frame_bytes_def [abs_def] comp_def)
  have "\<forall>(ty, p) \<in> set ?fs. length p \<le> 65536" using assms(2) frame_payload_small by auto
  from drain_frames [OF assms(1) this] obtain os where os: "drain c (concat segments) = (c, [], os)"
    "frames_of os = map (\<lambda>(ty, p). (ty, 0, p)) ?fs" "closes_of os = []"
    unfolding bytes by blast
  have "map (\<lambda>(ty, fl, p). decodeMessage ty p) (frames_of os) = map Some es"
    unfolding os(2) using assms(2) decode_encode by (simp add: comp_def)
  with os receive_concat [OF drain_empty [OF assms(1)], of segments] show ?thesis by simp
qed

theorem stream_delivers_messages_witness:
  "\<exists>os. receive (fst (tc_start TcpConnection_new)) []
      (map (\<lambda>b. [b]) (frame_bytes \<lparr>etype = Kick, ebody = MKick ''bye''\<rparr> @ frame_bytes \<lparr>etype = HostApproved, ebody = MHostApproved\<rparr>))
     = (fst (tc_start TcpConnection_new), [], os) \<and>
     map (\<lambda>(ty, fl, p). decodeMessage ty p) (frames_of os) =
       [Some \<lparr>etype = Kick, ebody = MKick ''bye''\<rparr>, Some \<lparr>etype = HostApproved, ebody = MHostApproved\<rparr>]"
proof -
  have ready: "tc_ready (fst (tc_start TcpConnection_new))"
    by (simp add: tc_ready_def tc_start_def TcpConnection_new_def readHeader_def)
  have "concat (map (\<lambda>b. [b]) xs) = xs" for xs :: bytes by (induction xs) auto
  then show ?thesis
    using stream_delivers_messages [OF ready, of "[\<lparr>etype = Kick, ebody = MKick ''bye''\<rparr>, \<lparr>etype = HostApproved, ebody = MHostApproved\<rparr>]"
        "map (\<lambda>b. [b]) (frame_bytes \<lparr>etype = Kick, ebody = MKick ''bye''\<rparr> @ frame_bytes \<lparr>etype = HostApproved, ebody = MHostApproved\<rparr>)"]
    by (auto simp: envelope_wf_def)
qed

text \<open>A peer that breaks the framing is cut off: as soon as ten bytes that are no valid frame header
  (wrong magic or version, or a payload of more than 64 KiB) are read, the connection closes with
  an invalid-argument error, the handler sees no frame and no more bytes are consumed.
\<close>

theorem invalid_header_closes:
  assumes "tc_ready c" and "kFrameHeaderSize \<le> length stream" and "parseFrameHeader stream = None"
  shows "drain c stream =
    (c\<lparr>tc_reading := NotReading, tc_closed := True, tc_outbox := []\<rparr>, drop kFrameHeaderSize stream, [OnClose InvalidArgument])"
proof -
  let ?c = "c\<lparr>tc_reading := NotReading, tc_closed := True, tc_outbox := []\<rparr>"
  have "drain ?c s = (?c, s, [])" for s by (subst drain.simps) (simp add: wanted_def)
  with assms parseFrameHeader_take [OF assms(2)] show ?thesis
    by (subst drain.simps)
      (simp add: wanted_def read_event_def tc_ready_def onHeaderRead_def tc_shutdown_def Let_def kFrameHeaderSize_def)
qed

theorem invalid_header_closes_witness:
  "snd (snd (drain (fst (tc_start TcpConnection_new)) (replicate 12 0))) = [OnClose InvalidArgument]"
proof -
  have ready: "tc_ready (fst (tc_start TcpConnection_new))"
    by (simp add: tc_ready_def tc_start_def TcpConnection_new_def readHeader_def)
  have "le_get 2 (replicate 12 0) = (0 :: u16)" by (simp add: le_get_def numeral_2_eq_2)
  then have "parseFrameHeader (replicate 12 0) = None"
    by (simp add: parseFrameHeader_def FrameHeader_valid_def kFrameMagic_def)
  from invalid_header_closes [OF ready _ this] show ?thesis by (simp add: kFrameHeaderSize_def)
qed

text \<open>C23: Frames leave in the order they were sent: for every sequence of sends, closes and completions
  of the socket, the writes handed to the socket are a prefix of the frames sent; while the
  connection is open and no write is in flight every frame sent has been written; and the close
  handler runs exactly once if the connection has closed and not at all otherwise.
\<close>

theorem writes_in_order:
  assumes "run_out tc_handle es TcpConnection_new = (c, os)"
  shows "prefix (writes_of os) (concat (map sent_by es)) \<and>
    (\<not> tc_closed c \<longrightarrow> \<not> tc_writing c \<longrightarrow> writes_of os = concat (map sent_by es)) \<and>
    length (closes_of os) = (if tc_closed c then 1 else 0)"
proof -
  have closed: "\<not> tc_closed TcpConnection_new" by (simp add: TcpConnection_new_def)
  have inv: "tc_inv (concat (map sent_by es)) (writes_of os) c"
    and once: "length (closes_of os) = (if tc_closed c then 1 else 0)"
    using tc_run_inv [OF tc_inv_new assms] closed by auto
  have hd: "prefix (done @ [hd xs]) (done @ xs)" if "xs \<noteq> []" for xs :: "bytes list" and "done"
    using that by (cases xs) (auto simp: prefix_def)
  show ?thesis using inv once hd by (auto simp: tc_inv_def split: if_splits)
qed

theorem writes_in_order_witness:
  "prefix (writes_of (snd (run_out tc_handle [TSend 7 [1], TSend 8 [2], TWriteDone NoError] TcpConnection_new)))
     (concat (map sent_by [TSend 7 [1], TSend 8 [2], TWriteDone NoError]))"
  using writes_in_order [of "[TSend 7 [1], TSend 8 [2], TWriteDone NoError]", OF prod.collapse [symmetric]]
  by blast

text \<open>The result handler of a connect attempt, direct or through the relay, runs at most once whatever
  the order of resolution, connection, replies, timeout and cancellation; exactly once when the
  attempt ended and was not cancelled; and never after a cancellation.
\<close>

theorem connect_result_once:
  assumes "run_out (at_handle hello) es (attempt_new relay) = (a, os)"
  shows "length (results_of os) \<le> 1 \<and> (ACancel \<notin> set es \<longrightarrow> at_finished a \<longrightarrow> length (results_of os) = 1) \<and>
    results_of (snd (run_out (at_handle hello) es (fst (at_cancel (attempt_new relay))))) = []"
proof -
  have "at_finished (fst (at_cancel (attempt_new relay)))" by (simp add: at_cancel_def attempt_new_def)
  then show ?thesis
    using at_run_once [OF assms] at_run_once [of hello es "fst (at_cancel (attempt_new relay))", OF prod.collapse [symmetric]]
    by (simp add: attempt_new_def)
qed

theorem connect_result_once_witness:
  "length (results_of (snd (run_out (at_handle []) [AResolved NoError, AConnected NoError, ATimer NoError] (attempt_new False)))) = 1"
  using connect_result_once [of "[]" "[AResolved NoError, AConnected NoError, ATimer NoError]" False, OF prod.collapse [symmetric]]
  by (simp add: attempt_new_def at_defs)

end
