(* ===== verification/HostSession.thy ===== *)
theory HostSession
  imports Protocol SessionCodes TcpTransport
begin

text \<open>
  \<^verbatim>\<open>host/HostSession.h\<close> and \<^verbatim>\<open>host/HostSession.cpp\<close>: the host's session state machine. All handlers
  run on one network thread, so the model is a handler per event over the object's fields; the
  tasks other threads post (\<^verbatim>\<open>approveClient\<close>, \<^verbatim>\<open>kickClient\<close>, ...) are events of their own, and what a
  handler does to the outside world (frames, closes, callbacks, posted tasks) is appended to
  \<open>hs_out\<close>. Connections are handles; the value of \<^verbatim>\<open>steady_clock::now()\<close> is an argument, in
  nanoseconds. Log lines are left out.

  The theorems: who gets past the handshake and with which evidence, the capacity bound, that the
  table the user interface reads agrees with the client map, what a malformed frame leads to,
  and which clients housekeeping removes.
\<close>

section \<open>State\<close>

record HostSessionParams =
  hp_hostName :: string
  hp_gameName :: string
  hp_captureMode :: CaptureMode
  hp_resolution :: Resolution
  hp_fps :: u32
  hp_bitrateKbps :: u32
  hp_preferredCodec :: VideoCodec
  hp_listenPort :: u16
  hp_autoApprove :: bool
  hp_inputDefaults :: InputPermissions
  hp_maxClients :: nat

definition HostSessionParams_default :: HostSessionParams where
  "HostSessionParams_default = \<lparr>hp_hostName = ''Host'', hp_gameName = [],
     hp_captureMode = CaptureMode_Window, hp_resolution = \<lparr>res_width = 1920, res_height = 1080\<rparr>,
     hp_fps = 60, hp_bitrateKbps = 8000, hp_preferredCodec = H264,
     hp_listenPort = kDefaultListenPort, hp_autoApprove = False,
     hp_inputDefaults = InputPermissions_default, hp_maxClients = kMaxClients\<rparr>"

record ClientRow =
  row_id :: u32
  row_name :: string
  row_state :: ConnectionState
  row_rttMs :: u32
  row_inputEnabled :: bool
  row_address :: string

definition ClientRow_default :: ClientRow where
  "ClientRow_default = \<lparr>row_id = 0, row_name = [], row_state = Disconnected, row_rttMs = 0,
     row_inputEnabled = True, row_address = []\<rparr>"

record ClientRecord =
  rec_id :: u32
  rec_name :: string
  rec_state :: ConnectionState
  rec_lastActivity :: int
  rec_lastHostPing :: int
  rec_connection :: "nat option"
  rec_input :: InputPermissions
  rec_rttMs :: u32
  rec_address :: string

definition ClientRecord_default :: ClientRecord where
  "ClientRecord_default = \<lparr>rec_id = 0, rec_name = [], rec_state = Connecting,
     rec_lastActivity = 0, rec_lastHostPing = 0, rec_connection = None,
     rec_input = InputPermissions_default, rec_rttMs = 0, rec_address = []\<rparr>"

datatype hs_output =
    SendFrame nat u16 bytes
  | SendFrameAndClose nat u16 bytes
  | CloseConnection nat
  | StartConnection nat u32
  | OnListening u16 string
  | OnApprovalRequest u32 string
  | OnClientUpdated ClientRow
  | OnInputPermissions u32 InputPermissions
  | OnAppMessage u32 u16 bytes
  | OnStopped
  | PostApprove u32 bool
  | DialRelay string u16 string
  | StopServer
  | ArmHousekeeper

text \<open>\<open>hs_thread\<close> tells whether the network thread exists, from \<^verbatim>\<open>start\<close> to the \<^verbatim>\<open>join\<close> in \<^verbatim>\<open>stop\<close>;
  \<open>hs_appHandler\<close> whether \<^verbatim>\<open>events_.onAppMessage\<close> is set.\<close>

record HostSession =
  hs_params :: HostSessionParams
  hs_clients :: "(u32, ClientRecord) omap"
  hs_relayDialers :: "nat list"
  hs_snapshot :: "ClientRow list"
  hs_nextClientId :: u32
  hs_sessionCode :: string
  hs_actualPort :: u16
  hs_running :: bool
  hs_stopping :: bool
  hs_thread :: bool
  hs_appHandler :: bool
  hs_out :: "hs_output list"

definition HostSession_new :: "bool \<Rightarrow> HostSession" where
  "HostSession_new handler = \<lparr>hs_params = HostSessionParams_default, hs_clients = [],
     hs_relayDialers = [], hs_snapshot = [], hs_nextClientId = 1, hs_sessionCode = [],
     hs_actualPort = 0, hs_running = False, hs_stopping = False, hs_thread = False,
     hs_appHandler = handler, hs_out = []\<rparr>"

definition emit :: "hs_output \<Rightarrow> HostSession \<Rightarrow> HostSession" where
  "emit out s = s\<lparr>hs_out := hs_out s @ [out]\<rparr>"

definition find_client :: "u32 \<Rightarrow> HostSession \<Rightarrow> ClientRecord option" where
  "find_client cid s = map_of (hs_clients s) cid"

definition put_client :: "u32 \<Rightarrow> ClientRecord \<Rightarrow> HostSession \<Rightarrow> HostSession" where
  "put_client cid r s = s\<lparr>hs_clients := omap_upd cid r (hs_clients s)\<rparr>"

definition erase_client :: "u32 \<Rightarrow> HostSession \<Rightarrow> HostSession" where
  "erase_client cid s = s\<lparr>hs_clients := omap_del cid (hs_clients s)\<rparr>"

section \<open>Times\<close>

definition seconds :: "int \<Rightarrow> int" where "seconds n = n * 1000000000"

definition kHelloTimeout :: int where "kHelloTimeout = seconds 10"
definition kApprovalTimeout :: int where "kApprovalTimeout = seconds 75"
definition kHeartbeatTimeout :: int where "kHeartbeatTimeout = seconds 15"
definition kPingPeriod :: int where "kPingPeriod = seconds 2"

text \<open>\<^verbatim>\<open>duration_cast<milliseconds>\<close> of a nonnegative time since the epoch, cut to 32 bits.\<close>

definition sinceEpochMs :: "int \<Rightarrow> u32" where
  "sinceEpochMs t = word_of_int (t div 1000000)"

section \<open>Helpers of the handlers\<close>

definition sendTo :: "u32 \<Rightarrow> Envelope \<Rightarrow> HostSession \<Rightarrow> HostSession" where
  "sendTo cid msg s =
     (case find_client cid s of
        None \<Rightarrow> s
      | Some r \<Rightarrow>
          (case rec_connection r of
             None \<Rightarrow> s
           | Some c \<Rightarrow> emit (SendFrame c (id_code (etype msg)) (encodeMessage msg)) s))"

definition sendAndClose :: "u32 \<Rightarrow> Envelope \<Rightarrow> HostSession \<Rightarrow> HostSession" where
  "sendAndClose cid msg s =
     (case find_client cid s of
        None \<Rightarrow> s
      | Some r \<Rightarrow>
          (case rec_connection r of
             None \<Rightarrow> s
           | Some c \<Rightarrow> emit (SendFrameAndClose c (id_code (etype msg)) (encodeMessage msg)) s))"

definition client_row :: "u32 \<Rightarrow> ClientRecord \<Rightarrow> ClientRow" where
  "client_row cid r = \<lparr>row_id = cid, row_name = rec_name r, row_state = rec_state r,
     row_rttMs = rec_rttMs r, row_inputEnabled = (\<not> allDisabled (rec_input r)),
     row_address = rec_address r\<rparr>"

definition rebuildSnapshot :: "HostSession \<Rightarrow> HostSession" where
  "rebuildSnapshot s = s\<lparr>hs_snapshot := map (\<lambda>(cid, r). client_row cid r) (hs_clients s)\<rparr>"

definition hs_setState :: "u32 \<Rightarrow> ConnectionState \<Rightarrow> HostSession \<Rightarrow> HostSession" where
  "hs_setState cid st s =
     (case find_client cid s of
        None \<Rightarrow> s
      | Some r \<Rightarrow>
          let s = rebuildSnapshot (put_client cid (r\<lparr>rec_state := st\<rparr>) s);
              row = (case find (\<lambda>w. row_id w = cid) (hs_snapshot s) of
                       Some w \<Rightarrow> w | None \<Rightarrow> ClientRow_default)
          in emit (OnClientUpdated row) s)"

definition dropClient :: "u32 \<Rightarrow> bool \<Rightarrow> Reason \<Rightarrow> string \<Rightarrow> HostSession \<Rightarrow> HostSession" where
  "dropClient cid sendReject reason msgText s =
     (case find_client cid s of
        None \<Rightarrow> s
      | Some r \<Rightarrow>
          let s = (if sendReject
                   then sendAndClose cid
                     \<lparr>etype = HostReject, ebody = MHostReject (reason_code reason) msgText\<rparr> s
                   else case rec_connection r of
                     Some c \<Rightarrow> emit (CloseConnection c) s
                   | None \<Rightarrow> s)
          in rebuildSnapshot (erase_client cid (hs_setState cid Disconnected s)))"

definition pushInputPermissions :: "u32 \<Rightarrow> HostSession \<Rightarrow> HostSession" where
  "pushInputPermissions cid s =
     (case find_client cid s of
        None \<Rightarrow> s
      | Some r \<Rightarrow>
          let p = rec_input r;
              s = sendTo cid \<lparr>etype = InputPermission,
                ebody = MInputPermission (perm_controller p) (perm_keyboard p) (perm_mouse p)
                  (perm_vibration p)\<rparr> s
          in emit (OnInputPermissions cid p) s)"

section \<open>Messages of a client\<close>

definition handleClientHello ::
  "u32 \<Rightarrow> string \<Rightarrow> string \<Rightarrow> HostSession \<Rightarrow> HostSession" where
  "handleClientHello cid name code s =
     (case find_client cid s of
        None \<Rightarrow> s
      | Some r \<Rightarrow>
          if rec_state r \<noteq> Connecting then s
          else
            let r = r\<lparr>rec_name := (if name = [] then ''Player'' else name)\<rparr>;
                s = put_client cid r s
            in if length (hs_clients s) > hp_maxClients (hs_params s)
               then dropClient cid True ServerFull
                 ''The session already has the maximum number of players.'' s
               else if \<not> verifySessionCode code (hs_sessionCode s)
               then dropClient cid True BadSessionCode ''Invalid session code.'' s
               else
                 let s = rebuildSnapshot (put_client cid
                       (r\<lparr>rec_state := Authenticating,
                          rec_input := hp_inputDefaults (hs_params s)\<rparr>) s)
                 in if hp_autoApprove (hs_params s) then emit (PostApprove cid True) s
                    else emit (OnApprovalRequest cid (rec_name r)) s)"

definition min_fps :: "u32 \<Rightarrow> u8" where
  "min_fps fps = ucast (min fps 255)"

definition negotiation_result :: "HostSessionParams \<Rightarrow> VideoCodec option \<Rightarrow> Body" where
  "negotiation_result p negotiated =
     (case negotiated of
        None \<Rightarrow> MNegotiationResult False 0 1920 1080 60 8000
          ''No common video codec between host and client.''
      | Some c \<Rightarrow> MNegotiationResult True c (ucast (res_width (hp_resolution p)))
          (ucast (res_height (hp_resolution p))) (min_fps (hp_fps p)) (hp_bitrateKbps p)
          (VideoCodec_toString c))"

definition handleClientCapabilities :: "u32 \<Rightarrow> VideoCodec list \<Rightarrow> HostSession \<Rightarrow> HostSession" where
  "handleClientCapabilities cid supported s =
     (case find_client cid s of
        None \<Rightarrow> s
      | Some r \<Rightarrow>
          if rec_state r \<noteq> Authenticating then s
          else
            let negotiated = negotiateCodec [hp_preferredCodec (hs_params s), H264] supported;
                s = sendTo cid \<lparr>etype = NegotiationResult,
                  ebody = negotiation_result (hs_params s) negotiated\<rparr> s
            in if negotiated = None then dropClient cid True NoCommonCodec ''No common codec.'' s
               else pushInputPermissions cid (hs_setState cid Connected s))"

definition hs_handlePing :: "u32 \<Rightarrow> u64 \<Rightarrow> HostSession \<Rightarrow> HostSession" where
  "hs_handlePing cid t s = sendTo cid \<lparr>etype = Pong, ebody = MPong t\<rparr> s"

definition hs_handlePong :: "int \<Rightarrow> u32 \<Rightarrow> u64 \<Rightarrow> HostSession \<Rightarrow> HostSession" where
  "hs_handlePong now cid echo s =
     (case find_client cid s of
        None \<Rightarrow> s
      | Some r \<Rightarrow>
          let sample = sinceEpochMs now - ucast echo;
              rtt = (if rec_rttMs r = 0 then sample else (rec_rttMs r * 7 + sample) div 8)
          in rebuildSnapshot (put_client cid (r\<lparr>rec_rttMs := rtt\<rparr>) s))"

definition handleBye :: "u32 \<Rightarrow> string \<Rightarrow> HostSession \<Rightarrow> HostSession" where
  "handleBye cid reason s = dropClient cid False Ok reason s"

definition is_connected :: "u32 \<Rightarrow> HostSession \<Rightarrow> bool" where
  "is_connected cid s \<longleftrightarrow>
     (case find_client cid s of None \<Rightarrow> False | Some r \<Rightarrow> rec_state r = Connected)"

definition handleOther :: "u32 \<Rightarrow> u16 \<Rightarrow> bytes \<Rightarrow> HostSession \<Rightarrow> HostSession" where
  "handleOther cid ty data s =
     (if ty \<ge> 0x0010 \<and> is_connected cid s \<and> hs_appHandler s
      then emit (OnAppMessage cid ty data) s
      else dropClient cid True ProtocolError ''Unexpected message in current state.'' s)"

definition hs_dispatch :: "int \<Rightarrow> u32 \<Rightarrow> u16 \<Rightarrow> bytes \<Rightarrow> Envelope \<Rightarrow> HostSession \<Rightarrow> HostSession" where
  "hs_dispatch now cid ty data env s =
     (case etype env of
        ClientHello \<Rightarrow>
          (case ebody env of MClientHello name code ver \<Rightarrow> handleClientHello cid name code s | _ \<Rightarrow> s)
      | ClientCapabilities \<Rightarrow>
          (case ebody env of MClientCapabilities codecs \<Rightarrow> handleClientCapabilities cid codecs s | _ \<Rightarrow> s)
      | Ping \<Rightarrow> (case ebody env of MPing t \<Rightarrow> hs_handlePing cid t s | _ \<Rightarrow> s)
      | Pong \<Rightarrow> (case ebody env of MPong t \<Rightarrow> hs_handlePong now cid t s | _ \<Rightarrow> s)
      | Bye \<Rightarrow> (case ebody env of MBye reason \<Rightarrow> handleBye cid reason s | _ \<Rightarrow> s)
      | _ \<Rightarrow> handleOther cid ty data s)"

definition hs_handleFrame :: "int \<Rightarrow> u32 \<Rightarrow> u16 \<Rightarrow> bytes \<Rightarrow> HostSession \<Rightarrow> HostSession" where
  "hs_handleFrame now cid ty data s =
     (if hs_stopping s then s
      else if \<not> knownId ty then dropClient cid True ProtocolError ''Unknown message type.'' s
      else case find_client cid s of
        None \<Rightarrow> s
      | Some r \<Rightarrow>
          let s = put_client cid (r\<lparr>rec_lastActivity := now\<rparr>) s in
          case decodeMessage ty data of
            None \<Rightarrow> dropClient cid True ProtocolError ''Malformed message.'' s
          | Some env \<Rightarrow> hs_dispatch now cid ty data env s)"

section \<open>Connections\<close>

definition handleNewConnection :: "int \<Rightarrow> nat \<Rightarrow> string \<Rightarrow> HostSession \<Rightarrow> HostSession" where
  "handleNewConnection now conn address s =
     (if hs_stopping s then emit (CloseConnection conn) s
      else
        let cid = hs_nextClientId s;
            s = s\<lparr>hs_nextClientId := cid + 1\<rparr>;
            r = ClientRecord_default\<lparr>rec_id := cid, rec_name := ''pending'', rec_state := Connecting,
                  rec_lastActivity := now, rec_connection := Some conn, rec_address := address\<rparr>
        in emit (StartConnection conn cid) (rebuildSnapshot (put_client cid r s)))"

definition handleClientClosed :: "u32 \<Rightarrow> HostSession \<Rightarrow> HostSession" where
  "handleClientClosed cid s =
     (if hs_stopping s then s
      else case find_client cid s of
        None \<Rightarrow> s
      | Some r \<Rightarrow>
          let row = ClientRow_default\<lparr>row_id := cid, row_name := rec_name r,
                row_state := Disconnected, row_inputEnabled := \<not> allDisabled (rec_input r),
                row_address := rec_address r\<rparr>
          in emit (OnClientUpdated row) (rebuildSnapshot (erase_client cid s)))"

section \<open>Host decisions\<close>

fun std_unique :: "'a list \<Rightarrow> 'a list" where
  "std_unique (x # y # ys) = (if x = y then std_unique (x # ys) else x # std_unique (y # ys))"
| "std_unique xs = xs"

definition host_capabilities :: "HostSessionParams \<Rightarrow> Body" where
  "host_capabilities p = MHostCapabilities (hp_hostName p) (hp_gameName p) (hp_captureMode p)
     (ucast (res_width (hp_resolution p))) (ucast (res_height (hp_resolution p)))
     (min_fps (hp_fps p)) (hp_bitrateKbps p) (std_unique [hp_preferredCodec p, H264])"

definition approveClient :: "int \<Rightarrow> u32 \<Rightarrow> bool \<Rightarrow> HostSession \<Rightarrow> HostSession" where
  "approveClient now cid accept s =
     (case find_client cid s of
        None \<Rightarrow> s
      | Some r \<Rightarrow>
          if rec_state r \<noteq> Authenticating then s
          else if \<not> accept
          then dropClient cid True RejectedByHost ''The host rejected your join request.'' s
          else
            let s = sendTo cid \<lparr>etype = HostApproved, ebody = MHostApproved\<rparr> s;
                s = sendTo cid \<lparr>etype = HostCapabilities, ebody = host_capabilities (hs_params s)\<rparr> s
            in put_client cid (r\<lparr>rec_lastActivity := now\<rparr>) s)"

definition kickClient :: "u32 \<Rightarrow> string \<Rightarrow> HostSession \<Rightarrow> HostSession" where
  "kickClient cid reason s =
     (case find_client cid s of
        None \<Rightarrow> s
      | Some r \<Rightarrow>
          hs_setState cid Disconnected
            (sendAndClose cid \<lparr>etype = Kick, ebody = MKick reason\<rparr> s))"

definition setClientInput :: "u32 \<Rightarrow> bool \<Rightarrow> HostSession \<Rightarrow> HostSession" where
  "setClientInput cid enableAll s =
     (case find_client cid s of
        None \<Rightarrow> s
      | Some r \<Rightarrow>
          let p = (if enableAll then hp_inputDefaults (hs_params s)
                   else \<lparr>perm_controller = False, perm_keyboard = False, perm_mouse = False,
                          perm_vibration = False\<rparr>)
          in pushInputPermissions cid (put_client cid (r\<lparr>rec_input := p\<rparr>) s))"

definition hs_sendAppMessage :: "u32 \<Rightarrow> u16 \<Rightarrow> bytes \<Rightarrow> HostSession \<Rightarrow> HostSession" where
  "hs_sendAppMessage cid ty payload s =
     (if ty < 0x0010 then s
      else case find_client cid s of
        None \<Rightarrow> s
      | Some r \<Rightarrow>
          (case rec_connection r of
             None \<Rightarrow> s
           | Some c \<Rightarrow> emit (SendFrame c ty payload) s))"

definition connectRelayClient ::
  "nat \<Rightarrow> string \<Rightarrow> u16 \<Rightarrow> string \<Rightarrow> HostSession \<Rightarrow> HostSession" where
  "connectRelayClient dialer serverHost relayTcpPort token s =
     (let s = emit (DialRelay serverHost relayTcpPort token) s;
          ds = hs_relayDialers s @ [dialer]
      in s\<lparr>hs_relayDialers := (if length ds > 8 then tl ds else ds)\<rparr>)"

section \<open>Housekeeping\<close>

definition overdue :: "int \<Rightarrow> ClientRecord \<Rightarrow> bool" where
  "overdue now r =
     (let idle = now - rec_lastActivity r in
      case rec_state r of
        Connecting \<Rightarrow> idle > kHelloTimeout
      | Authenticating \<Rightarrow> idle > kApprovalTimeout
      | Connected \<Rightarrow> idle > kHeartbeatTimeout
      | Streaming \<Rightarrow> idle > kHeartbeatTimeout
      | Disconnected \<Rightarrow> False)"

definition ping_due :: "int \<Rightarrow> ClientRecord \<Rightarrow> bool" where
  "ping_due now r \<longleftrightarrow>
     (rec_state r = Connected \<or> rec_state r = Streaming) \<and>
     (rec_lastHostPing r = 0 \<or> now - rec_lastHostPing r \<ge> kPingPeriod)"

definition hostPing :: "int \<Rightarrow> u32 \<times> ClientRecord \<Rightarrow> HostSession \<Rightarrow> HostSession" where
  "hostPing now = (\<lambda>(cid, r) s.
     if ping_due now r
     then sendTo cid \<lparr>etype = Ping, ebody = MPing (ucast (sinceEpochMs now))\<rparr>
            (put_client cid (r\<lparr>rec_lastHostPing := now\<rparr>) s)
     else s)"

definition housekeeping :: "int \<Rightarrow> HostSession \<Rightarrow> HostSession" where
  "housekeeping now s =
     (let toDrop = map fst (filter (\<lambda>(cid, r). overdue now r) (hs_clients s));
          s = fold (hostPing now) (hs_clients s) s;
          s = fold (\<lambda>cid. dropClient cid True InactivityTimeout ''Connection timed out.'') toDrop s
      in emit ArmHousekeeper s)"

section \<open>Start and stop\<close>

text \<open>\<open>listen p\<close> is the port a listener opened on port \<open>p\<close> gets, \<open>None\<close> when the operating system
  refuses. The thread's first actions are to install the accept handler and to arm the timer.\<close>

definition hs_start ::
  "(nat \<Rightarrow> u32) \<Rightarrow> (u16 \<Rightarrow> u16 option) \<Rightarrow> HostSessionParams \<Rightarrow> HostSession \<Rightarrow> HostSession \<times> bool" where
  "hs_start rnd listen p s =
     (if hs_running s then (s, True)
      else
        let s = s\<lparr>hs_running := True, hs_stopping := False, hs_params := p,
                  hs_sessionCode := fst (generateSessionCode rnd 0)\<rparr>;
            server = (case listen (hp_listenPort p) of Some port \<Rightarrow> Some port | None \<Rightarrow> listen 0)
        in case server of
             None \<Rightarrow> (s\<lparr>hs_running := False\<rparr>, False)
           | Some port \<Rightarrow>
               (emit ArmHousekeeper
                  (emit (OnListening port (hs_sessionCode s))
                     (s\<lparr>hs_actualPort := port, hs_thread := True\<rparr>)), True))"

text \<open>\<^verbatim>\<open>stop\<close> in the calling thread: the flags, then the posted task (which may or may not run before
  \<^verbatim>\<open>io_.stop()\<close> takes effect), then, after the \<^verbatim>\<open>join\<close>, the tables are cleared.\<close>

definition hs_stop_begin :: "HostSession \<Rightarrow> HostSession" where
  "hs_stop_begin s = (if \<not> hs_running s then s else s\<lparr>hs_running := False, hs_stopping := True\<rparr>)"

definition hs_stop_task :: "HostSession \<Rightarrow> HostSession" where
  "hs_stop_task s =
     fold (\<lambda>(cid, r) s. case rec_connection r of Some c \<Rightarrow> emit (CloseConnection c) s | None \<Rightarrow> s)
       (hs_clients s) (emit StopServer s)"

definition hs_stop_end :: "HostSession \<Rightarrow> HostSession" where
  "hs_stop_end s =
     (if hs_thread s \<and> \<not> hs_running s
      then emit OnStopped (s\<lparr>hs_thread := False, hs_snapshot := [], hs_clients := []\<rparr>)
      else s)"

section \<open>The machine\<close>

datatype hs_event =
    HStart "nat \<Rightarrow> u32" "u16 \<Rightarrow> u16 option" HostSessionParams
  | HStopBegin
  | HStopTask
  | HStopEnd
  | HConnection int nat string
  | HFrame int u32 u16 bytes
  | HClosed u32
  | HApprove int u32 bool
  | HKick u32 string
  | HSetInput u32 bool
  | HAppMessage u32 u16 bytes
  | HDialRelay nat string u16 string
  | HTimer int

text \<open>Handlers other than \<^verbatim>\<open>start\<close> and \<^verbatim>\<open>stop\<close> run on the network thread and only while it exists; a
  session is started when no thread of an earlier run is left. A stop task still queued when a new run begins is not
  executed by it.\<close>

fun hs_io :: "hs_event \<Rightarrow> HostSession \<Rightarrow> HostSession" where
  "hs_io HStopTask s = (if hs_stopping s then hs_stop_task s else s)"
| "hs_io (HConnection now conn address) s = handleNewConnection now conn address s"
| "hs_io (HFrame now cid ty data) s = hs_handleFrame now cid ty data s"
| "hs_io (HClosed cid) s = handleClientClosed cid s"
| "hs_io (HApprove now cid accept) s = approveClient now cid accept s"
| "hs_io (HKick cid reason) s = kickClient cid reason s"
| "hs_io (HSetInput cid enableAll) s = setClientInput cid enableAll s"
| "hs_io (HAppMessage cid ty payload) s = hs_sendAppMessage cid ty payload s"
| "hs_io (HDialRelay dialer host port token) s = connectRelayClient dialer host port token s"
| "hs_io (HTimer now) s = (if hs_stopping s then s else housekeeping now s)"
| "hs_io _ s = s"

fun hs_handle :: "hs_event \<Rightarrow> HostSession \<Rightarrow> HostSession" where
  "hs_handle (HStart rnd listen p) s = (if hs_thread s \<and> \<not> hs_running s then s else fst (hs_start rnd listen p s))"
| "hs_handle HStopBegin s = hs_stop_begin s"
| "hs_handle HStopEnd s = hs_stop_end s"
| "hs_handle e s = (if hs_thread s then hs_io e s else s)"

section \<open>What the helpers do to the client map\<close>

named_theorems hs_simps

definition phase :: "u32 \<Rightarrow> HostSession \<Rightarrow> ConnectionState option" where
  "phase cid s = map_option rec_state (find_client cid s)"

definition rows :: "(u32, ClientRecord) omap \<Rightarrow> ClientRow list" where
  "rows m = map (\<lambda>(cid, r). client_row cid r) m"

text \<open>The parts of the object no handler on the network thread touches.\<close>

definition same_session :: "HostSession \<Rightarrow> HostSession \<Rightarrow> bool" where
  "same_session s t \<longleftrightarrow> hs_params t = hs_params s \<and> hs_sessionCode t = hs_sessionCode s \<and>
     hs_running t = hs_running s \<and> hs_stopping t = hs_stopping s \<and> hs_thread t = hs_thread s \<and>
     hs_appHandler t = hs_appHandler s \<and> hs_actualPort t = hs_actualPort s"

lemma same_session_refl [simp, intro]: "same_session s s"
  by (simp add: same_session_def)

lemma same_session_trans: "same_session s t \<Longrightarrow> same_session t u \<Longrightarrow> same_session s u"
  by (simp add: same_session_def)

lemma omap_del_upd_same [simp]: "omap_del k (omap_upd k v m) = omap_del k m"
  by (induction m) (auto simp: omap_del_def)

lemma omap_del_absent: "map_of m k = None \<Longrightarrow> omap_del k m = m"
  by (force simp: omap_del_def map_of_eq_None_iff intro!: filter_True)

lemma emit_fields [hs_simps]:
  "hs_clients (emit x s) = hs_clients s" "hs_snapshot (emit x s) = hs_snapshot s"
  "hs_out (emit x s) = hs_out s @ [x]" "hs_params (emit x s) = hs_params s"
  "same_session s (emit x t) = same_session s t"
  "hs_sessionCode (emit x s) = hs_sessionCode s" "hs_relayDialers (emit x s) = hs_relayDialers s"
  by (simp_all add: emit_def same_session_def)

lemma put_client_fields [hs_simps]:
  "hs_clients (put_client cid r s) = omap_upd cid r (hs_clients s)"
  "hs_snapshot (put_client cid r s) = hs_snapshot s"
  "hs_out (put_client cid r s) = hs_out s" "hs_params (put_client cid r s) = hs_params s"
  "same_session s (put_client cid r t) = same_session s t"
  "hs_sessionCode (put_client cid r s) = hs_sessionCode s"
  "hs_relayDialers (put_client cid r s) = hs_relayDialers s"
  by (simp_all add: put_client_def same_session_def)

lemma erase_client_fields [hs_simps]:
  "hs_clients (erase_client cid s) = omap_del cid (hs_clients s)"
  "hs_snapshot (erase_client cid s) = hs_snapshot s"
  "hs_out (erase_client cid s) = hs_out s" "hs_params (erase_client cid s) = hs_params s"
  "same_session s (erase_client cid t) = same_session s t"
  "hs_sessionCode (erase_client cid s) = hs_sessionCode s"
  by (simp_all add: erase_client_def same_session_def)

lemma rebuildSnapshot_fields [hs_simps]:
  "hs_clients (rebuildSnapshot s) = hs_clients s"
  "hs_snapshot (rebuildSnapshot s) = rows (hs_clients s)"
  "hs_out (rebuildSnapshot s) = hs_out s" "hs_params (rebuildSnapshot s) = hs_params s"
  "same_session s (rebuildSnapshot t) = same_session s t"
  "hs_sessionCode (rebuildSnapshot s) = hs_sessionCode s"
  "hs_relayDialers (rebuildSnapshot s) = hs_relayDialers s"
  by (simp_all add: rebuildSnapshot_def same_session_def rows_def)

lemma sendTo_fields [hs_simps]:
  "hs_clients (sendTo cid msg s) = hs_clients s" "hs_snapshot (sendTo cid msg s) = hs_snapshot s"
  "hs_params (sendTo cid msg s) = hs_params s"
  "same_session s (sendTo cid msg t) = same_session s t"
  "hs_sessionCode (sendTo cid msg s) = hs_sessionCode s"
  "hs_relayDialers (sendTo cid msg s) = hs_relayDialers s"
  by (simp_all add: sendTo_def hs_simps split: option.split)

lemma sendAndClose_fields [hs_simps]:
  "hs_clients (sendAndClose cid msg s) = hs_clients s"
  "hs_snapshot (sendAndClose cid msg s) = hs_snapshot s"
  "hs_params (sendAndClose cid msg s) = hs_params s"
  "same_session s (sendAndClose cid msg t) = same_session s t"
  "hs_sessionCode (sendAndClose cid msg s) = hs_sessionCode s"
  by (simp_all add: sendAndClose_def hs_simps split: option.split)

lemma setState_clients [hs_simps]:
  "find_client cid s = Some r \<Longrightarrow>
     hs_clients (hs_setState cid st s) = omap_upd cid (r\<lparr>rec_state := st\<rparr>) (hs_clients s)"
  "find_client cid s = Some r \<Longrightarrow>
     hs_snapshot (hs_setState cid st s) = rows (hs_clients (hs_setState cid st s))"
  by (simp_all add: hs_setState_def hs_simps Let_def)

lemma setState_fields [hs_simps]:
  "hs_params (hs_setState cid st s) = hs_params s"
  "same_session s (hs_setState cid st t) = same_session s t"
  by (simp_all add: hs_setState_def hs_simps Let_def split: option.split)

lemma find_client_same:
  "hs_clients t = hs_clients s \<Longrightarrow> find_client cid t = find_client cid s"
  by (simp add: find_client_def)

lemma dropClient_clients [hs_simps]:
  "hs_clients (dropClient cid b reason msgText s) = omap_del cid (hs_clients s)"
proof (cases "find_client cid s")
  case None
  then show ?thesis by (simp add: dropClient_def omap_del_absent find_client_def)
next
  case (Some r)
  define t where "t = (if b then sendAndClose cid
      \<lparr>etype = HostReject, ebody = MHostReject (reason_code reason) msgText\<rparr> s
    else case rec_connection r of Some c \<Rightarrow> emit (CloseConnection c) s | None \<Rightarrow> s)"
  have t: "hs_clients t = hs_clients s" by (simp add: t_def hs_simps split: option.split)
  then have "find_client cid t = Some r" using Some by (simp add: find_client_def)
  then show ?thesis
    using Some t by (simp add: dropClient_def t_def [symmetric] hs_simps Let_def)
qed

lemma dropClient_fields [hs_simps]:
  "hs_params (dropClient cid b reason msgText s) = hs_params s"
  "same_session s (dropClient cid b reason msgText t) = same_session s t"
  by (simp_all add: dropClient_def hs_simps Let_def split: option.split)

lemma dropClient_snapshot [hs_simps]:
  "hs_snapshot (dropClient cid b reason msgText s) =
     (if find_client cid s = None then hs_snapshot s else rows (omap_del cid (hs_clients s)))"
proof (cases "find_client cid s")
  case None
  then show ?thesis by (simp add: dropClient_def)
next
  case (Some r)
  then have "hs_snapshot (dropClient cid b reason msgText s) = rows (hs_clients (dropClient cid b reason msgText s))"
    by (simp add: dropClient_def hs_simps Let_def del: dropClient_clients)
  with Some show ?thesis by (simp add: dropClient_clients)
qed

lemma pushInputPermissions_fields [hs_simps]:
  "hs_clients (pushInputPermissions cid s) = hs_clients s"
  "hs_snapshot (pushInputPermissions cid s) = hs_snapshot s"
  "hs_params (pushInputPermissions cid s) = hs_params s"
  "same_session s (pushInputPermissions cid t) = same_session s t"
  by (simp_all add: pushInputPermissions_def hs_simps Let_def split: option.split)

section \<open>The client map and its snapshot\<close>

text \<open>\<open>mask_row\<close> hides the one column of a row that \<^verbatim>\<open>setClientInput\<close> changes without rebuilding the
  snapshot.\<close>

definition mask_row :: "ClientRow \<Rightarrow> ClientRow" where
  "mask_row w = w\<lparr>row_inputEnabled := True\<rparr>"

definition hs_inv :: "HostSession \<Rightarrow> bool" where
  "hs_inv s \<longleftrightarrow> omap_wf (hs_clients s) \<and> (\<forall>(cid, r) \<in> set (hs_clients s). rec_id r = cid) \<and>
     map mask_row (hs_snapshot s) = map mask_row (rows (hs_clients s)) \<and>
     (hs_running s \<longrightarrow> hs_thread s) \<and>
     (\<not> hs_thread s \<longrightarrow> hs_clients s = []) \<and> length (hs_relayDialers s) \<le> 8"

lemma hs_inv_new: "hs_inv (HostSession_new h)"
  by (simp add: hs_inv_def HostSession_new_def rows_def)

lemma rows_omap_upd:
  assumes "omap_wf m" and "map_of m cid = Some r" and "mask_row (client_row cid r') = mask_row (client_row cid r)"
  shows "map mask_row (rows (omap_upd cid r' m)) = map mask_row (rows m)"
  using assms
  by (induction m) (auto simp: rows_def omap_wf_Cons dest!: map_of_SomeD, force)

lemma find_client_in: "find_client cid s = Some r \<Longrightarrow> (cid, r) \<in> set (hs_clients s)"
  by (auto simp: find_client_def dest: map_of_SomeD)

text \<open>How the handlers change the map: they remove an entry, replace one by a record of the same id,
  or leave it. A replacement that changes the row is always followed by a rebuild.\<close>

lemma hs_inv_emit [simp]: "hs_inv (emit x s) = hs_inv s"
  by (simp add: hs_inv_def emit_def)

lemma hs_inv_sendTo [simp]: "hs_inv (sendTo cid msg s) = hs_inv s"
  by (simp add: sendTo_def split: option.split)

lemma hs_inv_sendAndClose [simp]: "hs_inv (sendAndClose cid msg s) = hs_inv s"
  by (simp add: sendAndClose_def split: option.split)

lemma hs_inv_put:
  assumes "hs_inv s" and "find_client cid s = Some r" and "rec_id r' = rec_id r"
    and "mask_row (client_row cid r') = mask_row (client_row cid r)"
  shows "hs_inv (put_client cid r' s)"
proof -
  have wf: "omap_wf (hs_clients s)" using assms(1) by (simp add: hs_inv_def)
  have m: "map_of (hs_clients s) cid = Some r" using assms(2) by (simp add: find_client_def)
  have "rec_id r' = cid" using assms find_client_in [OF assms(2)] by (auto simp: hs_inv_def)
  moreover have "hs_clients s \<noteq> []" using m by auto
  ultimately show ?thesis
    using assms(1) rows_omap_upd [OF wf m assms(4)] wf
    by (auto simp: hs_inv_def put_client_def set_omap_upd)
qed

lemma hs_inv_put_rebuild:
  assumes "hs_inv s" and "hs_thread s" and "rec_id r' = cid"
  shows "hs_inv (rebuildSnapshot (put_client cid r' s))"
  using assms by (auto simp: hs_inv_def put_client_def rebuildSnapshot_def rows_def set_omap_upd)

lemma hs_inv_erase_rebuild:
  assumes "hs_inv s"
  shows "hs_inv (rebuildSnapshot (erase_client cid s))"
  using assms by (auto simp: hs_inv_def erase_client_def rebuildSnapshot_def rows_def set_omap_del
      omap_del_absent)

lemma hs_inv_thread: "hs_inv s \<Longrightarrow> find_client cid s = Some r \<Longrightarrow> hs_thread s \<and> rec_id r = cid"
  using find_client_in [of cid s r] by (force simp: hs_inv_def find_client_def)

lemma hs_inv_setState [intro]:
  assumes "hs_inv s" shows "hs_inv (hs_setState cid st s)"
proof (cases "find_client cid s")
  case None
  with assms show ?thesis by (simp add: hs_setState_def)
next
  case (Some r)
  have "hs_inv (rebuildSnapshot (put_client cid (r\<lparr>rec_state := st\<rparr>) s))"
    using hs_inv_thread [OF assms Some] by (intro hs_inv_put_rebuild [OF assms]) simp_all
  with Some show ?thesis by (simp add: hs_setState_def Let_def)
qed

lemma hs_inv_dropClient [intro]:
  assumes "hs_inv s" shows "hs_inv (dropClient cid b reason msgText s)"
  using assms
  by (auto simp: dropClient_def Let_def split: option.split intro!: hs_inv_erase_rebuild hs_inv_setState)

lemma hs_inv_push [simp]: "hs_inv (pushInputPermissions cid s) = hs_inv s"
  by (simp add: pushInputPermissions_def Let_def split: option.split)

lemma hs_inv_hello:
  assumes "hs_inv s" shows "hs_inv (handleClientHello cid name code s)"
proof (cases "find_client cid s")
  case None
  with assms show ?thesis by (simp add: handleClientHello_def)
next
  case (Some r)
  note th = hs_inv_thread [OF assms Some]
  define r1 where "r1 = r\<lparr>rec_name := (if name = [] then ''Player'' else name)\<rparr>"
  have drop: "hs_inv (dropClient cid True reason msgText (put_client cid r1 s))" for reason msgText
  proof -
    have f: "find_client cid (put_client cid r1 s) = Some r1"
      by (simp add: find_client_def put_client_def)
    define t where "t = dropClient cid True reason msgText (put_client cid r1 s)"
    have "hs_clients t = omap_del cid (hs_clients s)" "hs_snapshot t = rows (omap_del cid (hs_clients s))"
      "same_session s t"
      unfolding t_def using f by (simp_all add: hs_simps)
    moreover have "hs_relayDialers t = hs_relayDialers s"
      unfolding t_def using f
      by (simp add: dropClient_def sendAndClose_def hs_setState_def erase_client_def put_client_def
          rebuildSnapshot_def emit_def Let_def split: option.split)
    ultimately show ?thesis
      using assms unfolding t_def [symmetric]
      by (auto simp: hs_inv_def same_session_def set_omap_del omap_del_absent)
  qed
  have "hs_inv (rebuildSnapshot (put_client cid
      (r1\<lparr>rec_state := Authenticating, rec_input := p\<rparr>) (put_client cid r1 s)))" for p
  proof -
    have "put_client cid r2 (put_client cid r1 s) = put_client cid r2 s" for r2
      by (simp add: put_client_def)
    then show ?thesis
      using th by (simp add: r1_def hs_inv_put_rebuild [OF assms])
  qed
  then show ?thesis
    using Some assms drop unfolding handleClientHello_def r1_def by (simp add: Let_def)
qed

lemma hs_inv_capabilities:
  assumes "hs_inv s" shows "hs_inv (handleClientCapabilities cid codecs s)"
  using assms
  by (auto simp: handleClientCapabilities_def Let_def split: option.split)

lemma hs_inv_pong:
  assumes "hs_inv s" shows "hs_inv (hs_handlePong now cid t s)"
  using assms hs_inv_thread [OF assms, of cid]
  by (auto simp: hs_handlePong_def Let_def split: option.split intro!: hs_inv_put_rebuild)

lemma hs_inv_activity:
  assumes "hs_inv s" and "find_client cid s = Some r"
  shows "hs_inv (put_client cid (r\<lparr>rec_lastActivity := now\<rparr>) s)"
  by (rule hs_inv_put [OF assms]) (simp_all add: client_row_def)

lemma hs_inv_other:
  assumes "hs_inv s" shows "hs_inv (handleOther cid ty data s)"
  using assms by (auto simp: handleOther_def)

lemma hs_inv_dispatch:
  assumes "hs_inv s" shows "hs_inv (hs_dispatch now cid ty data env s)"
  unfolding hs_dispatch_def
  using assms hs_inv_hello [OF assms] hs_inv_capabilities [OF assms] hs_inv_pong [OF assms]
    hs_inv_other [OF assms]
  by (auto simp: hs_handlePing_def handleBye_def split: Id.split Body.split)

lemma hs_inv_frame:
  assumes "hs_inv s" shows "hs_inv (hs_handleFrame now cid ty data s)"
proof (cases "find_client cid s")
  case None
  with assms show ?thesis by (auto simp: hs_handleFrame_def)
next
  case (Some r)
  note act = hs_inv_activity [OF assms Some, of now]
  show ?thesis
    using assms Some hs_inv_dispatch [OF act, of now cid ty data] hs_inv_dropClient [OF act]
    by (auto simp: hs_handleFrame_def Let_def split: option.split)
qed

lemma hs_inv_connection:
  assumes "hs_inv s" and "hs_thread s"
  shows "hs_inv (handleNewConnection now conn address s)"
proof -
  have "hs_inv (s\<lparr>hs_nextClientId := n\<rparr>)" for n using assms by (simp add: hs_inv_def)
  then show ?thesis
    using assms by (auto simp: handleNewConnection_def Let_def intro!: hs_inv_put_rebuild)
qed

lemma hs_inv_closed:
  assumes "hs_inv s" shows "hs_inv (handleClientClosed cid s)"
  using assms
  by (auto simp: handleClientClosed_def Let_def split: option.split intro!: hs_inv_erase_rebuild)

lemma hs_inv_approve:
  assumes "hs_inv s" shows "hs_inv (approveClient now cid accept s)"
proof (cases "find_client cid s")
  case None
  with assms show ?thesis by (simp add: approveClient_def)
next
  case (Some r)
  have "hs_inv (put_client cid (r\<lparr>rec_lastActivity := now\<rparr>) (sendTo cid a (sendTo cid b s)))" for a b
    using assms Some by (intro hs_inv_activity) (simp_all add: find_client_def hs_simps)
  with Some assms show ?thesis by (auto simp: approveClient_def Let_def)
qed

lemma hs_inv_kick:
  assumes "hs_inv s" shows "hs_inv (kickClient cid reason s)"
  using assms by (auto simp: kickClient_def split: option.split)

lemma hs_inv_setInput:
  assumes "hs_inv s" shows "hs_inv (setClientInput cid en s)"
proof (cases "find_client cid s")
  case None
  with assms show ?thesis by (simp add: setClientInput_def)
next
  case (Some r)
  have "hs_inv (put_client cid (r\<lparr>rec_input := p\<rparr>) s)" for p
    by (rule hs_inv_put [OF assms Some]) (simp_all add: client_row_def mask_row_def)
  with Some show ?thesis by (simp add: setClientInput_def)
qed

lemma hs_inv_app:
  assumes "hs_inv s" shows "hs_inv (hs_sendAppMessage cid ty payload s)"
  using assms by (auto simp: hs_sendAppMessage_def split: option.split)

lemma hs_inv_dial:
  assumes "hs_inv s" shows "hs_inv (connectRelayClient d h p t s)"
  using assms by (auto simp: connectRelayClient_def hs_inv_def emit_def Let_def)

section \<open>Housekeeping, exactly\<close>

definition pinged :: "int \<Rightarrow> ClientRecord \<Rightarrow> ClientRecord" where
  "pinged now r = (if ping_due now r then r\<lparr>rec_lastHostPing := now\<rparr> else r)"

lemma omap_upd_middle:
  assumes "omap_wf (pre @ (cid, r) # suf)"
  shows "omap_upd cid r' (pre @ (cid, r) # suf) = pre @ (cid, r') # suf"
  using assms by (induction pre) (force simp: omap_wf_Cons)+

lemma hostPing_fold:
  assumes "hs_clients s = pre @ suf" and "omap_wf (pre @ suf)"
  shows "hs_clients (fold (hostPing now) suf s) = pre @ map (\<lambda>(k, r). (k, pinged now r)) suf"
  using assms
proof (induction suf arbitrary: pre s)
  case Nil
  then show ?case by simp
next
  case (Cons p suf)
  obtain cid r where p: "p = (cid, r)" by (cases p)
  have upd: "omap_upd cid r' (pre @ (cid, r) # suf) = pre @ (cid, r') # suf" for r'
    using Cons.prems p by (simp add: omap_upd_middle)
  have here: "hs_clients (hostPing now p s) = (pre @ [(cid, pinged now r)]) @ suf"
    using Cons.prems(1) upd p by (simp add: hostPing_def pinged_def hs_simps)
  have wf: "omap_wf ((pre @ [(cid, pinged now r)]) @ suf)"
    using Cons.prems(2) p by (simp add: omap_wf_def)
  show ?case using Cons.IH [OF here wf] p by simp
qed

lemma dropClient_fold:
  "hs_clients (fold (\<lambda>cid. dropClient cid b reason msgText) cids s) =
     filter (\<lambda>p. fst p \<notin> set cids) (hs_clients s)"
proof (induction cids arbitrary: s)
  case Nil
  then show ?case by simp
next
  case (Cons c cids)
  then show ?case by (auto simp: hs_simps omap_del_def intro: filter_cong)
qed

lemma housekeeping_clients:
  assumes "omap_wf (hs_clients s)"
  shows "hs_clients (housekeeping now s) =
    map (\<lambda>(k, r). (k, pinged now r)) (filter (\<lambda>(k, r). \<not> overdue now r) (hs_clients s))"
proof -
  let ?m = "hs_clients s"
  let ?drop = "map fst (filter (\<lambda>(k, r). overdue now r) ?m)"
  have *: "fst p \<in> set ?drop \<longleftrightarrow> overdue now (snd p)" if "p \<in> set ?m" for p
  proof
    assume "fst p \<in> set ?drop"
    then obtain q where q: "q \<in> set ?m" "overdue now (snd q)" "fst q = fst p" by auto
    then have "snd q = snd p"
      using that omap_wf_distinct [OF assms] by (metis eq_key_imp_eq_value prod.collapse)
    with q show "overdue now (snd p)" by simp
  next
    assume "overdue now (snd p)"
    with that have "p \<in> set (filter (\<lambda>(k, r). overdue now r) ?m)" by (simp add: case_prod_beta)
    then show "fst p \<in> set ?drop" by (simp only: set_map image_eqI)
  qed
  have "hs_clients (housekeeping now s) =
      filter (\<lambda>p. fst p \<notin> set ?drop) (map (\<lambda>(k, r). (k, pinged now r)) ?m)"
    using hostPing_fold [of s "[]" ?m now] assms
    by (simp add: housekeeping_def Let_def dropClient_fold hs_simps del: set_map)
  also have "\<dots> = map (\<lambda>(k, r). (k, pinged now r)) (filter (\<lambda>p. fst p \<notin> set ?drop) ?m)"
    by (simp add: filter_map comp_def case_prod_beta del: set_map)
  also have "filter (\<lambda>p. fst p \<notin> set ?drop) ?m = filter (\<lambda>(k, r). \<not> overdue now r) ?m"
    using * by (intro filter_cong) (auto simp: case_prod_beta simp del: set_map)
  finally show ?thesis .
qed

lemma hs_inv_hostPing_fold:
  assumes "hs_inv s" and "hs_clients s = pre @ suf"
  shows "hs_inv (fold (hostPing now) suf s)"
  using assms
proof (induction suf arbitrary: pre s)
  case Nil
  then show ?case by simp
next
  case (Cons p suf)
  obtain cid r where p: "p = (cid, r)" by (cases p)
  have wf: "omap_wf (pre @ (cid, r) # suf)" using Cons.prems p by (simp add: hs_inv_def)
  then have "map_of (hs_clients s) cid = Some r"
    using Cons.prems(2) p map_of_eq_Some_iff [OF omap_wf_distinct [OF wf], of cid r] by simp
  then have f: "find_client cid s = Some r" by (simp add: find_client_def)
  have "hs_inv (put_client cid (r\<lparr>rec_lastHostPing := now\<rparr>) s)"
    by (rule hs_inv_put [OF Cons.prems(1) f]) (simp_all add: client_row_def)
  then have inv: "hs_inv (hostPing now p s)" using Cons.prems(1) by (simp add: hostPing_def p)
  have "hs_clients (hostPing now p s) = (pre @ [(cid, pinged now r)]) @ suf"
    using Cons.prems(2) p omap_upd_middle [OF wf] by (simp add: hostPing_def pinged_def hs_simps)
  then show ?case using Cons.IH [OF inv] by simp
qed

lemma hs_inv_housekeeping:
  assumes "hs_inv s" shows "hs_inv (housekeeping now s)"
proof -
  have "hs_inv t \<Longrightarrow> hs_inv (fold (\<lambda>cid. dropClient cid b reason m) cids t)" for t b reason m cids
    by (induction cids arbitrary: t) auto
  then show ?thesis
    using hs_inv_hostPing_fold [OF assms, of "[]" "hs_clients s"]
    by (simp add: housekeeping_def Let_def)
qed

lemma stop_task_state: "hs_stop_task s = s\<lparr>hs_out := hs_out (hs_stop_task s)\<rparr>"
proof -
  have "\<exists>os. fold (\<lambda>(cid, r) s. case rec_connection r of Some c \<Rightarrow> emit (CloseConnection c) s | None \<Rightarrow> s)
      m t = t\<lparr>hs_out := os\<rparr>" for m and t :: HostSession
  proof (induction m arbitrary: t)
    case Nil
    show ?case by (rule exI [of _ "hs_out t"]) simp
  next
    case (Cons p m)
    obtain cid r where p: "p = (cid, r)" by (cases p)
    obtain os' where "(case rec_connection r of Some c \<Rightarrow> emit (CloseConnection c) t | None \<Rightarrow> t)
        = t\<lparr>hs_out := os'\<rparr>"
    proof (cases "rec_connection r")
      case None
      show ?thesis by (rule that [of "hs_out t"]) (simp add: None)
    next
      case (Some c)
      show ?thesis by (rule that [of "hs_out t @ [CloseConnection c]"]) (simp add: Some emit_def)
    qed
    with Cons.IH [of "t\<lparr>hs_out := os'\<rparr>"] show ?case by (auto simp: p)
  qed
  from this [of "hs_clients s" "emit StopServer s"] show ?thesis
    by (auto simp: hs_stop_task_def emit_def)
qed

lemma hs_inv_stop_task: "hs_inv s \<Longrightarrow> hs_inv (hs_stop_task s)"
  by (subst stop_task_state) (simp add: hs_inv_def)

lemmas hs_inv_handlers = hs_inv_stop_task hs_inv_connection hs_inv_frame hs_inv_closed hs_inv_approve
  hs_inv_kick hs_inv_setInput hs_inv_app hs_inv_dial hs_inv_housekeeping

lemma hs_inv_io: "hs_inv s \<Longrightarrow> hs_thread s \<Longrightarrow> hs_inv (hs_io e s)"
  by (cases e) (simp_all add: hs_inv_handlers)

lemma hs_inv_start: "hs_inv s \<Longrightarrow> hs_inv (fst (hs_start rnd listen p s))"
  by (auto simp: hs_start_def hs_inv_def emit_def Let_def split: option.split)

lemma hs_inv_stop_begin: "hs_inv s \<Longrightarrow> hs_inv (hs_stop_begin s)"
  by (auto simp: hs_stop_begin_def hs_inv_def)

lemma hs_inv_stop_end: "hs_inv s \<Longrightarrow> hs_inv (hs_stop_end s)"
  by (auto simp: hs_stop_end_def hs_inv_def emit_def rows_def)

lemma hs_inv_handle: "hs_inv s \<Longrightarrow> hs_inv (hs_handle e s)"
  by (cases e) (simp_all add: hs_inv_io hs_inv_start hs_inv_stop_begin hs_inv_stop_end del: hs_io.simps)

interpretation hs: event_machine "HostSession_new h" hs_handle hs_inv
  by unfold_locales (simp_all add: hs_inv_new hs_inv_handle)

section \<open>The life of one client\<close>

text \<open>The abstract state machine of a connection as the comment at the head of \<^verbatim>\<open>HostSession.h\<close> draws
  it: the moves a client's entry in the table may make, each with the event and the evidence it
  needs. \<open>hello\<close> is the only way in, \<open>negotiate\<close> the only way to \<open>Connected\<close>.\<close>

inductive lifecycle ::
  "HostSession \<Rightarrow> hs_event \<Rightarrow> u32 \<Rightarrow> ConnectionState option \<Rightarrow> ConnectionState option \<Rightarrow> bool" for s where
  stay: "lifecycle s e cid p p"
| accept: "\<not> hs_stopping s \<Longrightarrow> cid = hs_nextClientId s \<Longrightarrow>
    lifecycle s (HConnection now conn address) cid p (Some Connecting)"
| hello: "\<not> hs_stopping s \<Longrightarrow>
    decodeMessage ty data = Some \<lparr>etype = ClientHello, ebody = MClientHello name code ver\<rparr> \<Longrightarrow>
    verifySessionCode code (hs_sessionCode s) \<Longrightarrow>
    length (hs_clients s) \<le> hp_maxClients (hs_params s) \<Longrightarrow>
    lifecycle s (HFrame now cid ty data) cid (Some Connecting) (Some Authenticating)"
| negotiate: "\<not> hs_stopping s \<Longrightarrow>
    decodeMessage ty data = Some \<lparr>etype = ClientCapabilities, ebody = MClientCapabilities codecs\<rparr> \<Longrightarrow>
    negotiateCodec [hp_preferredCodec (hs_params s), H264] codecs = Some codec \<Longrightarrow>
    lifecycle s (HFrame now cid ty data) cid (Some Authenticating) (Some Connected)"
| kick: "lifecycle s (HKick cid reason) cid (Some p) (Some Disconnected)"
| leave_frame: "lifecycle s (HFrame now cid ty data) cid (Some p) None"
| leave_closed: "lifecycle s (HClosed cid) cid (Some p) None"
| leave_refused: "lifecycle s (HApprove now cid False) cid (Some Authenticating) None"
| leave_idle: "find_client cid s = Some r \<Longrightarrow> overdue now r \<Longrightarrow>
    lifecycle s (HTimer now) cid (Some (rec_state r)) None"
| leave_stop: "lifecycle s HStopEnd cid (Some p) None"

inductive_cases lifecycle_to_auth: "lifecycle s e cid p (Some Authenticating)"
inductive_cases lifecycle_to_connected: "lifecycle s e cid p (Some Connected)"
inductive_cases lifecycle_to_streaming: "lifecycle s e cid p (Some Streaming)"

lemma phase_same: "hs_clients t = hs_clients s \<Longrightarrow> phase cid t = phase cid s"
  by (simp add: phase_def find_client_def)

lemma phase_upd:
  "hs_clients t = omap_upd cid r (hs_clients s) \<Longrightarrow>
     phase k t = (if k = cid then Some (rec_state r) else phase k s)"
  by (simp add: phase_def find_client_def)

lemma phase_del:
  "hs_clients t = omap_del cid (hs_clients s) \<Longrightarrow> phase k t = (if k = cid then None else phase k s)"
  by (simp add: phase_def find_client_def)

lemma phase_None: "find_client cid s = None \<Longrightarrow> phase cid s = None"
  by (simp add: phase_def)

lemma phase_Some: "find_client cid s = Some r \<Longrightarrow> phase cid s = Some (rec_state r)"
  by (simp add: phase_def)

lemma lifecycle_del_frame:
  assumes "hs_clients t = omap_del cid (hs_clients s)" and "find_client cid s = Some r"
  shows "lifecycle s (HFrame now cid ty data) k (phase k s) (phase k t)"
  using assms by (simp add: phase_del [OF assms(1)] phase_Some lifecycle.intros)

lemma lifecycle_hello:
  assumes dec: "decodeMessage ty data = Some \<lparr>etype = ClientHello, ebody = MClientHello name code ver\<rparr>"
    and ns: "\<not> hs_stopping s" and r: "find_client cid s = Some r"
    and t0: "t = put_client cid (r\<lparr>rec_lastActivity := now\<rparr>) s" and wf: "omap_wf (hs_clients s)"
  shows "lifecycle s (HFrame now cid ty data) k (phase k s) (phase k (handleClientHello cid name code t))"
proof -
  let ?r0 = "r\<lparr>rec_lastActivity := now\<rparr>"
  have ft: "find_client cid t = Some ?r0" by (simp add: t0 find_client_def hs_simps)
  define r1 where "r1 = ?r0\<lparr>rec_name := (if name = [] then ''Player'' else name)\<rparr>"
  define t1 where "t1 = put_client cid r1 t"
  have t1: "hs_clients t1 = omap_upd cid r1 (hs_clients s)" by (simp add: t1_def t0 hs_simps)
  have len: "length (hs_clients t1) = length (hs_clients s)"
    using r wf unfolding t1 find_client_def
    by (intro length_omap_upd_present) (auto simp: rev_image_eqI dest!: map_of_SomeD)
  have ctx: "hs_params t1 = hs_params s" "hs_sessionCode t1 = hs_sessionCode s"
    by (simp_all add: t1_def t0 hs_simps)
  have eq: "handleClientHello cid name code t =
    (if rec_state r \<noteq> Connecting then t
     else if length (hs_clients t1) > hp_maxClients (hs_params t1)
     then dropClient cid True ServerFull ''The session already has the maximum number of players.'' t1
     else if \<not> verifySessionCode code (hs_sessionCode t1)
     then dropClient cid True BadSessionCode ''Invalid session code.'' t1
     else let t2 = rebuildSnapshot (put_client cid
                (r1\<lparr>rec_state := Authenticating, rec_input := hp_inputDefaults (hs_params t1)\<rparr>) t1)
          in if hp_autoApprove (hs_params t2) then emit (PostApprove cid True) t2
             else emit (OnApprovalRequest cid (rec_name r1)) t2)"
    using ft by (simp add: handleClientHello_def Let_def r1_def t1_def)
  have same: "phase k t = phase k s"
    using phase_upd [of t cid ?r0 s k] r by (simp add: t0 hs_simps phase_Some)
  have drop: "lifecycle s (HFrame now cid ty data) k (phase k s) (phase k (dropClient cid True reason m t1))"
    for reason m
    by (rule lifecycle_del_frame [OF _ r]) (simp add: hs_simps t1)
  have ok: "lifecycle s (HFrame now cid ty data) k (phase k s)
      (phase k (emit x (rebuildSnapshot (put_client cid (r1\<lparr>rec_state := Authenticating, rec_input := p\<rparr>) t1))))"
    if "rec_state r = Connecting" "length (hs_clients s) \<le> hp_maxClients (hs_params s)"
      "verifySessionCode code (hs_sessionCode s)" for x p
  proof -
    have "hs_clients (emit x (rebuildSnapshot (put_client cid (r1\<lparr>rec_state := Authenticating, rec_input := p\<rparr>) t1)))
        = omap_upd cid (r1\<lparr>rec_state := Authenticating, rec_input := p\<rparr>) (hs_clients s)"
      by (simp add: hs_simps t1)
    from phase_upd [OF this, of k] phase_Some [OF r] that lifecycle.hello [OF ns dec]
    show ?thesis by (auto intro: lifecycle.stay)
  qed
  show ?thesis
    unfolding eq Let_def using drop ok same len ctx by (simp add: lifecycle.stay)
qed

lemma lifecycle_capabilities:
  assumes dec: "decodeMessage ty data = Some \<lparr>etype = ClientCapabilities, ebody = MClientCapabilities codecs\<rparr>"
    and ns: "\<not> hs_stopping s" and r: "find_client cid s = Some r"
    and t0: "t = put_client cid (r\<lparr>rec_lastActivity := now\<rparr>) s"
  shows "lifecycle s (HFrame now cid ty data) k (phase k s) (phase k (handleClientCapabilities cid codecs t))"
proof -
  let ?r0 = "r\<lparr>rec_lastActivity := now\<rparr>"
  let ?n = "negotiateCodec [hp_preferredCodec (hs_params s), H264] codecs"
  have ft: "find_client cid t = Some ?r0" by (simp add: t0 find_client_def hs_simps)
  define t1 where "t1 = sendTo cid \<lparr>etype = NegotiationResult,
    ebody = negotiation_result (hs_params t) ?n\<rparr> t"
  have t1: "hs_clients t1 = omap_upd cid ?r0 (hs_clients s)" by (simp add: t1_def t0 hs_simps)
  then have ft1: "find_client cid t1 = Some ?r0" by (simp add: find_client_def)
  have eq: "handleClientCapabilities cid codecs t =
    (if rec_state r \<noteq> Authenticating then t
     else if ?n = None then dropClient cid True NoCommonCodec ''No common codec.'' t1
     else pushInputPermissions cid (hs_setState cid Connected t1))"
    using ft by (simp add: handleClientCapabilities_def Let_def t1_def t0 hs_simps)
  consider "rec_state r \<noteq> Authenticating" | "rec_state r = Authenticating" "?n = None"
    | codec where "rec_state r = Authenticating" "?n = Some codec" by auto
  then show ?thesis
  proof cases
    case 1
    have "phase k t = phase k s"
      using phase_upd [of t cid ?r0 s k] r by (simp add: t0 hs_simps phase_Some)
    with 1 have "phase k (handleClientCapabilities cid codecs t) = phase k s" unfolding eq by simp
    then show ?thesis by (simp add: lifecycle.stay)
  next
    case 2
    then have "hs_clients (handleClientCapabilities cid codecs t) = omap_del cid (hs_clients s)"
      by (simp add: eq hs_simps t1)
    then show ?thesis by (rule lifecycle_del_frame [OF _ r])
  next
    case 3
    then have "hs_clients (handleClientCapabilities cid codecs t) =
        omap_upd cid (?r0\<lparr>rec_state := Connected\<rparr>) (hs_clients s)"
      using ft1 by (simp add: eq hs_simps t1)
    from phase_upd [OF this, of k] phase_Some [OF r] 3 lifecycle.negotiate [OF ns dec]
    show ?thesis by (auto intro: lifecycle.stay)
  qed
qed

lemma lifecycle_dispatch:
  assumes dec: "decodeMessage ty data = Some env" and wf: "omap_wf (hs_clients s)"
    and ns: "\<not> hs_stopping s" and r: "find_client cid s = Some r"
    and t0: "t = put_client cid (r\<lparr>rec_lastActivity := now\<rparr>) s"
  shows "lifecycle s (HFrame now cid ty data) k (phase k s) (phase k (hs_dispatch now cid ty data env t))"
proof -
  let ?L = "\<lambda>u. lifecycle s (HFrame now cid ty data) k (phase k s) (phase k u)"
  have tc: "hs_clients t = omap_upd cid (r\<lparr>rec_lastActivity := now\<rparr>) (hs_clients s)"
    by (simp add: t0 hs_simps)
  have same: "phase k u = phase k s" if "hs_clients u = hs_clients t" for u
    using phase_upd [of u cid "r\<lparr>rec_lastActivity := now\<rparr>" s k] that tc phase_Some [OF r] by simp
  have drop: "?L (dropClient cid b reason m t)" for b reason m
    by (rule lifecycle_del_frame [OF _ r]) (simp add: hs_simps tc)
  have stay: "?L u" if "hs_clients u = hs_clients t" for u
    using same [OF that] by (simp add: lifecycle.stay)
  have env: "env = \<lparr>etype = etype env, ebody = ebody env\<rparr>" by simp
  have hello: "?L (handleClientHello cid name code t)"
    if "etype env = ClientHello" "ebody env = MClientHello name code ver" for name code ver
    using lifecycle_hello [OF _ ns r t0 wf, of ty data name code ver] dec env that by metis
  have caps: "?L (handleClientCapabilities cid codecs t)"
    if "etype env = ClientCapabilities" "ebody env = MClientCapabilities codecs" for codecs
    using lifecycle_capabilities [OF _ ns r t0, of ty data codecs] dec env that by metis
  have pong: "?L (hs_handlePong now cid v t)" for v
  proof -
    have "find_client cid t = Some (r\<lparr>rec_lastActivity := now\<rparr>)" by (simp add: find_client_def tc)
    then obtain n where "hs_clients (hs_handlePong now cid v t) =
        omap_upd cid (r\<lparr>rec_lastActivity := now, rec_rttMs := n\<rparr>) (hs_clients s)"
      by (simp add: hs_handlePong_def Let_def hs_simps tc)
    from phase_upd [OF this, of k] phase_Some [OF r] show ?thesis by (simp add: lifecycle.stay)
  qed
  have other: "?L (handleOther cid ty data t)"
    using drop stay by (simp add: handleOther_def hs_simps)
  have ping: "?L (hs_handlePing cid v t)" for v
    by (rule stay) (simp add: hs_handlePing_def hs_simps)
  have bye: "?L (handleBye cid reason t)" for reason using drop by (simp add: handleBye_def)
  show ?thesis
    unfolding hs_dispatch_def
    by (cases "etype env"; cases "ebody env")
      (simp_all add: other ping bye pong stay hello caps)
qed

lemma lifecycle_frame:
  assumes wf: "omap_wf (hs_clients s)"
  shows "lifecycle s (HFrame now cid ty data) k (phase k s) (phase k (hs_handleFrame now cid ty data s))"
proof (cases "hs_stopping s")
  case True
  then show ?thesis by (simp add: hs_handleFrame_def lifecycle.stay)
next
  case ns: False
  show ?thesis
  proof (cases "find_client cid s")
    case None
    then show ?thesis using ns by (simp add: hs_handleFrame_def dropClient_def lifecycle.stay)
  next
    case (Some r)
    define t where "t = put_client cid (r\<lparr>rec_lastActivity := now\<rparr>) s"
    have d1: "lifecycle s (HFrame now cid ty data) k (phase k s) (phase k (dropClient cid b reason m s))"
      for b reason m by (rule lifecycle_del_frame [OF _ Some]) (simp add: hs_simps)
    have d2: "lifecycle s (HFrame now cid ty data) k (phase k s) (phase k (dropClient cid b reason m t))"
      for b reason m by (rule lifecycle_del_frame [OF _ Some]) (simp add: hs_simps t_def)
    show ?thesis
      using ns Some d1 d2 lifecycle_dispatch [OF _ wf ns Some t_def, of ty data]
      by (auto simp: hs_handleFrame_def Let_def t_def [symmetric] split: option.split)
  qed
qed

lemma map_of_filter_map:
  assumes "distinct (map fst m)"
  shows "map_of (map (\<lambda>(k, r). (k, f r)) (filter (\<lambda>(k, r). P r) m)) k =
    (case map_of m k of None \<Rightarrow> None | Some r \<Rightarrow> if P r then Some (f r) else None)"
  using assms
proof (induction m)
  case Nil
  then show ?case by simp
next
  case (Cons p m)
  then have "fst p = k \<Longrightarrow> map_of m k = None" by (simp add: map_of_eq_None_iff)
  with Cons show ?case by (auto simp: case_prod_beta)
qed

lemma lifecycle_timer:
  assumes wf: "omap_wf (hs_clients s)"
  shows "lifecycle s (HTimer now) k (phase k s) (phase k (housekeeping now s))"
proof -
  have st: "rec_state (pinged now r) = rec_state r" for r by (simp add: pinged_def)
  have "find_client k (housekeeping now s) = (case find_client k s of None \<Rightarrow> None
      | Some r \<Rightarrow> if overdue now r then None else Some (pinged now r))"
    unfolding find_client_def housekeeping_clients [OF wf] map_of_filter_map [OF omap_wf_distinct [OF wf]]
    by (auto split: option.split)
  note fc = this
  show ?thesis
  proof (cases "find_client k s")
    case None
    then show ?thesis using fc by (simp add: phase_def lifecycle.stay)
  next
    case (Some r)
    show ?thesis
      using fc lifecycle.leave_idle [OF Some, of now]
      by (cases "overdue now r") (simp_all add: phase_def Some st lifecycle.stay)
  qed
qed

lemma lifecycle_unchanged:
  "hs_clients t = hs_clients s \<Longrightarrow> lifecycle s e k (phase k s) (phase k t)"
  by (simp only: phase_same [of t s] lifecycle.stay)

lemma lifecycle_connection:
  "lifecycle s (HConnection now conn address) k (phase k s) (phase k (handleNewConnection now conn address s))"
proof (cases "hs_stopping s")
  case True
  then show ?thesis by (intro lifecycle_unchanged) (simp add: handleNewConnection_def hs_simps)
next
  case False
  then obtain r where "hs_clients (handleNewConnection now conn address s) =
      omap_upd (hs_nextClientId s) r (hs_clients s)" "rec_state r = Connecting"
    by (simp add: handleNewConnection_def Let_def hs_simps)
  then show ?thesis using False phase_upd [of "handleNewConnection now conn address s" _ r s k]
    by (simp add: lifecycle.intros)
qed

lemma lifecycle_closed:
  "lifecycle s (HClosed cid) k (phase k s) (phase k (handleClientClosed cid s))"
proof (cases "hs_stopping s \<or> find_client cid s = None")
  case True
  then show ?thesis by (auto simp: handleClientClosed_def lifecycle.stay)
next
  case False
  then obtain r where r: "find_client cid s = Some r" by auto
  then have "hs_clients (handleClientClosed cid s) = omap_del cid (hs_clients s)"
    using False by (simp add: handleClientClosed_def Let_def hs_simps)
  from phase_del [OF this, of k] show ?thesis using phase_Some [OF r] by (simp add: lifecycle.intros)
qed

lemma lifecycle_approve:
  "lifecycle s (HApprove now cid accept) k (phase k s) (phase k (approveClient now cid accept s))"
proof (cases "find_client cid s")
  case None
  then show ?thesis by (simp add: approveClient_def lifecycle.stay)
next
  case (Some r)
  have eq: "hs_clients (approveClient now cid accept s) =
    (if rec_state r \<noteq> Authenticating then hs_clients s
     else if \<not> accept then omap_del cid (hs_clients s)
     else omap_upd cid (r\<lparr>rec_lastActivity := now\<rparr>) (hs_clients s))"
    using Some by (simp add: approveClient_def Let_def hs_simps)
  consider "rec_state r \<noteq> Authenticating" | "rec_state r = Authenticating" "\<not> accept"
    | "rec_state r = Authenticating" "accept" by auto
  then show ?thesis
  proof cases
    case 1
    with eq show ?thesis by (intro lifecycle_unchanged) simp
  next
    case 2
    with eq have "hs_clients (approveClient now cid accept s) = omap_del cid (hs_clients s)" by simp
    from phase_del [OF this, of k] phase_Some [OF Some] 2 show ?thesis by (simp add: lifecycle.intros)
  next
    case 3
    with eq have "hs_clients (approveClient now cid accept s) =
        omap_upd cid (r\<lparr>rec_lastActivity := now\<rparr>) (hs_clients s)" by simp
    from phase_upd [OF this, of k] phase_Some [OF Some] show ?thesis by (simp add: lifecycle.stay)
  qed
qed

lemma lifecycle_kick:
  "lifecycle s (HKick cid reason) k (phase k s) (phase k (kickClient cid reason s))"
proof (cases "find_client cid s")
  case None
  then show ?thesis by (simp add: kickClient_def lifecycle.stay)
next
  case (Some r)
  then have "find_client cid (sendAndClose cid m s) = Some r" for m
    by (simp add: find_client_def hs_simps)
  then have "hs_clients (kickClient cid reason s) =
      omap_upd cid (r\<lparr>rec_state := Disconnected\<rparr>) (hs_clients s)"
    using Some by (simp add: kickClient_def hs_simps)
  from phase_upd [OF this, of k] show ?thesis using phase_Some [OF Some] by (simp add: lifecycle.intros)
qed

lemma lifecycle_setInput:
  "lifecycle s (HSetInput cid en) k (phase k s) (phase k (setClientInput cid en s))"
proof (cases "find_client cid s")
  case None
  then show ?thesis by (simp add: setClientInput_def lifecycle.stay)
next
  case (Some r)
  then obtain p where "hs_clients (setClientInput cid en s) = omap_upd cid (r\<lparr>rec_input := p\<rparr>) (hs_clients s)"
    by (simp add: setClientInput_def Let_def hs_simps)
  from phase_upd [OF this, of k] show ?thesis using phase_Some [OF Some] by (simp add: lifecycle.intros)
qed

lemma lifecycle_app:
  "lifecycle s (HAppMessage cid ty payload) k (phase k s) (phase k (hs_sendAppMessage cid ty payload s))"
  by (rule lifecycle_unchanged) (simp add: hs_sendAppMessage_def hs_simps split: option.split)

lemma lifecycle_dial:
  "lifecycle s (HDialRelay d h p tok) k (phase k s) (phase k (connectRelayClient d h p tok s))"
  by (rule lifecycle_unchanged) (simp add: connectRelayClient_def hs_simps Let_def)

lemmas lifecycle_rest = lifecycle_connection lifecycle_closed lifecycle_approve lifecycle_kick lifecycle_setInput lifecycle_app lifecycle_dial

lemma stop_task_clients [hs_simps]: "hs_clients (hs_stop_task s) = hs_clients s"
  by (subst stop_task_state) simp

lemma lifecycle_io:
  assumes "omap_wf (hs_clients s)"
  shows "lifecycle s e k (phase k s) (phase k (hs_io e s))"
proof -
  have stop: "phase k (hs_stop_task s) = phase k s" by (rule phase_same) (simp add: hs_simps)
  show ?thesis
    by (cases e) (simp_all add: lifecycle_rest lifecycle_frame [OF assms] lifecycle_timer [OF assms]
      stop lifecycle.stay)
qed

lemma lifecycle_handle:
  assumes "hs_inv s"
  shows "lifecycle s e k (phase k s) (phase k (hs_handle e s))"
proof -
  have wf: "omap_wf (hs_clients s)" using assms by (simp add: hs_inv_def)
  have start: "phase k (fst (hs_start rnd listen p s)) = phase k s" for rnd listen p
    by (rule phase_same) (simp add: hs_start_def Let_def hs_simps split: option.split)
  have begin_stop: "phase k (hs_stop_begin s) = phase k s"
    by (rule phase_same) (simp add: hs_stop_begin_def)
  have "phase k (hs_stop_end s) = (if hs_thread s \<and> \<not> hs_running s then None else phase k s)"
    by (simp add: hs_stop_end_def phase_def find_client_def emit_def)
  then have "lifecycle s HStopEnd k (phase k s) (phase k (hs_stop_end s))"
    by (cases "phase k s") (auto intro: lifecycle.stay lifecycle.leave_stop)
  then show ?thesis
    using lifecycle_io [OF wf]
    by (cases e) (simp_all add: start begin_stop lifecycle.stay del: hs_io.simps)
qed

section \<open>What the network thread leaves alone\<close>

lemma same_session_hello: "same_session s t \<Longrightarrow> same_session s (handleClientHello cid name code t)"
  by (simp add: handleClientHello_def hs_simps Let_def split: option.split)

lemma same_session_capabilities:
  "same_session s t \<Longrightarrow> same_session s (handleClientCapabilities cid codecs t)"
  by (simp add: handleClientCapabilities_def hs_simps Let_def split: option.split)

lemma same_session_dispatch:
  assumes "same_session s t" shows "same_session s (hs_dispatch now cid ty data env t)"
proof -
  have "same_session s (handleOther cid ty data t)" "same_session s (hs_handlePong now cid v t)"
    "same_session s (hs_handlePing cid v t)" "same_session s (handleBye cid reason t)" for v reason
    using assms
    by (simp_all add: handleOther_def hs_handlePong_def hs_handlePing_def handleBye_def hs_simps Let_def
        split: option.split)
  then show ?thesis
    using assms same_session_hello [OF assms] same_session_capabilities [OF assms]
    unfolding hs_dispatch_def by (simp split: Id.split Body.split)
qed

lemma same_session_frame: "same_session s (hs_handleFrame now cid ty data s)"
  by (simp add: hs_handleFrame_def hs_simps Let_def same_session_dispatch split: option.split)

lemma same_session_fold:
  assumes "\<And>x t. same_session s t \<Longrightarrow> same_session s (f x t)"
  shows "same_session s t \<Longrightarrow> same_session s (fold f xs t)"
  using assms by (induction xs arbitrary: t) auto

lemma same_session_timer: "same_session s (housekeeping now s)"
  unfolding housekeeping_def Let_def
  by (simp only: hs_simps, intro same_session_fold)
    (auto simp: hostPing_def hs_simps intro!: same_session_fold split: prod.split)

lemma same_session_io: "same_session s (hs_io e s)"
proof (cases e)
  case HStopTask
  then show ?thesis using arg_cong [OF stop_task_state [of s], of "same_session s"]
    by (simp add: same_session_def)
next
  case (HConnection now conn address)
  then show ?thesis
    by (simp add: handleNewConnection_def Let_def hs_simps) (simp add: same_session_def)
next
  case (HFrame now cid ty data)
  then show ?thesis by (simp add: same_session_frame)
next
  case (HClosed cid)
  then show ?thesis by (simp add: handleClientClosed_def Let_def hs_simps split: option.split)
next
  case (HApprove now cid accept)
  then show ?thesis by (simp add: approveClient_def Let_def hs_simps split: option.split)
next
  case (HKick cid reason)
  then show ?thesis by (simp add: kickClient_def hs_simps split: option.split)
next
  case (HSetInput cid en)
  then show ?thesis by (simp add: setClientInput_def Let_def hs_simps split: option.split)
next
  case (HAppMessage cid ty payload)
  then show ?thesis by (simp add: hs_sendAppMessage_def hs_simps split: option.split)
next
  case (HDialRelay d h p t)
  then show ?thesis
    by (simp add: connectRelayClient_def Let_def hs_simps) (simp add: same_session_def emit_def)
next
  case (HTimer now)
  then show ?thesis by (simp add: same_session_timer)
qed simp_all

text \<open>The code and the parameters of a session change only when a session starts, and then the client
  table is empty.\<close>

lemma session_changes_when_empty:
  assumes "hs_inv s"
  shows "hs_sessionCode (hs_handle e s) = hs_sessionCode s \<and> hs_params (hs_handle e s) = hs_params s \<or>
    (\<forall>cid. phase cid (hs_handle e s) = None)"
proof (cases "\<exists>rnd listen p. e = HStart rnd listen p")
  case True
  then obtain rnd listen p where e: "e = HStart rnd listen p" by auto
  show ?thesis
  proof (cases "hs_thread s")
    case True
    then show ?thesis by (auto simp: e hs_start_def)
  next
    case False
    then have "hs_clients s = []" using assms by (simp add: hs_inv_def)
    then have "hs_clients (fst (hs_start rnd listen p s)) = []"
      by (simp add: hs_start_def Let_def hs_simps split: option.split)
    then show ?thesis using False by (simp add: e phase_def find_client_def)
  qed
next
  case False
  then have "same_session s (hs_handle e s) \<or> e = HStopBegin \<or> e = HStopEnd"
    using same_session_io [of s e] by (cases e) (auto simp del: hs_io.simps)
  then show ?thesis
    by (auto simp: same_session_def hs_stop_begin_def hs_stop_end_def emit_def)
qed

section \<open>Admission\<close>

fun presents :: "string \<Rightarrow> u32 \<Rightarrow> hs_event \<Rightarrow> bool" where
  "presents actual cid (HFrame now k ty data) \<longleftrightarrow> k = cid \<and>
     (case decodeMessage ty data of
        None \<Rightarrow> False
      | Some env \<Rightarrow> etype env = ClientHello \<and>
          (case ebody env of MClientHello name code ver \<Rightarrow> verifySessionCode code actual | _ \<Rightarrow> False))"
| "presents actual cid _ \<longleftrightarrow> False"

fun admitted :: "ConnectionState option \<Rightarrow> bool" where
  "admitted p \<longleftrightarrow> p = Some Authenticating \<or> p = Some Connected \<or> p = Some Streaming"

declare admitted.simps [simp del]

lemma admitted_simps [simp]: "\<not> admitted None" "\<not> admitted (Some Connecting)"
  "\<not> admitted (Some Disconnected)" "admitted (Some Authenticating)" "admitted (Some Connected)"
  by (simp_all add: admitted.simps)

lemma lifecycle_admit:
  assumes "lifecycle s e cid p q" and "admitted q" and "\<not> admitted p"
  shows "presents (hs_sessionCode s) cid e \<and> length (hs_clients s) \<le> hp_maxClients (hs_params s) \<and>
    p = Some Connecting"
  using assms by (cases rule: lifecycle.cases) auto

definition hs_trace_inv :: "hs_event list \<times> HostSession \<Rightarrow> bool" where
  "hs_trace_inv = (\<lambda>(h, s). hs_inv s \<and>
     (\<forall>cid. admitted (phase cid s) \<longrightarrow> (\<exists>e \<in> set h. presents (hs_sessionCode s) cid e)) \<and>
     card {cid. admitted (phase cid s)} \<le> hp_maxClients (hs_params s))"

definition hs_trace_handle :: "hs_event \<Rightarrow> hs_event list \<times> HostSession \<Rightarrow> hs_event list \<times> HostSession" where
  "hs_trace_handle e = (\<lambda>(h, s). (h @ [e], hs_handle e s))"

lemma hs_trace_fold: "fold hs_trace_handle es (h, s) = (h @ es, fold hs_handle es s)"
  by (induction es arbitrary: h s) (simp_all add: hs_trace_handle_def)

lemma admitted_subset: "{cid. admitted (phase cid s)} \<subseteq> fst ` set (hs_clients s)"
  by (auto simp: admitted.simps phase_def find_client_def rev_image_eqI dest!: map_of_SomeD)

lemma card_admitted_length: "card {cid. admitted (phase cid s)} \<le> length (hs_clients s)"
proof -
  have "card {cid. admitted (phase cid s)} \<le> card (fst ` set (hs_clients s))"
    by (rule card_mono [OF _ admitted_subset]) simp
  also have "\<dots> \<le> length (hs_clients s)" by (rule le_trans [OF card_image_le card_length]) simp
  finally show ?thesis .
qed

lemma capacity_step:
  assumes inv: "hs_inv s" and cap: "card {cid. admitted (phase cid s)} \<le> hp_maxClients (hs_params s)"
  shows "card {cid. admitted (phase cid (hs_handle e s))} \<le> hp_maxClients (hs_params (hs_handle e s))"
proof (cases "\<forall>cid. phase cid (hs_handle e s) = None")
  case True
  then show ?thesis by simp
next
  case False
  then have p: "hs_params (hs_handle e s) = hs_params s"
    using session_changes_when_empty [OF inv, of e] by blast
  let ?A = "\<lambda>t. {cid. admitted (phase cid t)}"
  have fin: "finite (?A s)" by (rule finite_subset [OF admitted_subset]) simp
  show ?thesis
  proof (cases "?A (hs_handle e s) \<subseteq> ?A s")
    case True
    show ?thesis unfolding p by (rule le_trans [OF card_mono [OF fin True] cap])
  next
    case False
    then obtain cid where cid: "admitted (phase cid (hs_handle e s))" "\<not> admitted (phase cid s)" by blast
    note lc = lifecycle_handle [OF inv, of e]
    have len: "length (hs_clients s) \<le> hp_maxClients (hs_params s)" and con: "phase cid s = Some Connecting"
      using lifecycle_admit [OF lc [of cid] cid] by auto
    have "presents (hs_sessionCode s) cid e" using lifecycle_admit [OF lc [of cid] cid] by simp
    then have only: "k = cid" if "presents (hs_sessionCode s) k e" for k
      using that by (cases e) auto
    have "?A (hs_handle e s) \<subseteq> insert cid (?A s)"
      using lifecycle_admit [OF lc] only by blast
    moreover have "insert cid (?A s) \<subseteq> fst ` set (hs_clients s)"
      using admitted_subset [of s] con
      by (auto simp: phase_def find_client_def rev_image_eqI dest!: map_of_SomeD)
    ultimately have "card (?A (hs_handle e s)) \<le> card (fst ` set (hs_clients s))"
      by (intro card_mono) auto
    also have "\<dots> \<le> length (hs_clients s)" by (rule le_trans [OF card_image_le card_length]) simp
    finally show ?thesis using len p by simp
  qed
qed

lemma hs_trace_inv_step:
  assumes "hs_trace_inv hsx" shows "hs_trace_inv (hs_trace_handle e hsx)"
proof -
  obtain h s where x: "hsx = (h, s)" by (cases hsx)
  have inv: "hs_inv s" and ev: "admitted (phase cid s) \<Longrightarrow> \<exists>e \<in> set h. presents (hs_sessionCode s) cid e"
    and cap: "card {cid. admitted (phase cid s)} \<le> hp_maxClients (hs_params s)" for cid
    using assms by (simp_all add: hs_trace_inv_def x)
  have "\<exists>e' \<in> set (h @ [e]). presents (hs_sessionCode (hs_handle e s)) cid e'"
    if adm: "admitted (phase cid (hs_handle e s))" for cid
  proof -
    have code: "hs_sessionCode (hs_handle e s) = hs_sessionCode s"
      using session_changes_when_empty [OF inv, of e] adm by auto
    show ?thesis
    proof (cases "admitted (phase cid s)")
      case True
      then show ?thesis using ev [OF True] code by auto
    next
      case False
      then show ?thesis using lifecycle_admit [OF lifecycle_handle [OF inv] adm False] code by simp
    qed
  qed
  then show ?thesis
    using hs_inv_handle [OF inv] capacity_step [OF inv cap] by (simp add: hs_trace_inv_def hs_trace_handle_def x)
qed

interpretation hst: event_machine "([], HostSession_new h)" hs_trace_handle hs_trace_inv
proof unfold_locales
  show "hs_trace_inv ([], HostSession_new h)"
    using hs_inv_new by (simp add: hs_trace_inv_def phase_def find_client_def HostSession_new_def)
qed (rule hs_trace_inv_step)

lemma hs_reachable:
  "hs_trace_inv (es, fold hs_handle es (HostSession_new h))"
  using hst.inv_run [of es h] by (simp add: hs_trace_fold)

section \<open>Application messages\<close>

fun is_app :: "hs_output \<Rightarrow> bool" where
  "is_app (OnAppMessage cid ty data) \<longleftrightarrow> True"
| "is_app _ \<longleftrightarrow> False"

definition app_outs :: "HostSession \<Rightarrow> hs_output list" where
  "app_outs s = filter is_app (hs_out s)"

lemma app_outs_emit [hs_simps]:
  "app_outs (emit x s) = app_outs s @ (if is_app x then [x] else [])"
  by (simp add: app_outs_def emit_def)

lemma app_outs_update [hs_simps]:
  "app_outs (put_client cid r s) = app_outs s" "app_outs (erase_client cid s) = app_outs s"
  "app_outs (rebuildSnapshot s) = app_outs s"
  by (simp_all add: app_outs_def hs_simps)

lemma app_outs_send [hs_simps]:
  "app_outs (sendTo cid msg s) = app_outs s" "app_outs (sendAndClose cid msg s) = app_outs s"
  by (simp_all add: sendTo_def sendAndClose_def hs_simps split: option.split)

lemma app_outs_setState [hs_simps]: "app_outs (hs_setState cid st s) = app_outs s"
  by (simp add: hs_setState_def hs_simps Let_def split: option.split)

lemma app_outs_drop [hs_simps]: "app_outs (dropClient cid b reason m s) = app_outs s"
  by (simp add: dropClient_def hs_simps Let_def split: option.split)

lemma app_outs_push [hs_simps]: "app_outs (pushInputPermissions cid s) = app_outs s"
  by (simp add: pushInputPermissions_def hs_simps Let_def split: option.split)

lemma app_outs_dispatch:
  "app_outs (hs_dispatch now cid ty data env s) = app_outs s \<or>
   (app_outs (hs_dispatch now cid ty data env s) = app_outs s @ [OnAppMessage cid ty data] \<and>
      is_connected cid s \<and> ty \<ge> 0x0010)"
proof -
  have "app_outs (handleClientHello cid name code s) = app_outs s"
    "app_outs (handleClientCapabilities cid codecs s) = app_outs s"
    "app_outs (hs_handlePing cid v s) = app_outs s" "app_outs (hs_handlePong now cid v s) = app_outs s"
    "app_outs (handleBye cid reason s) = app_outs s" for name code codecs v reason
    by (simp_all add: handleClientHello_def handleClientCapabilities_def hs_handlePing_def
        hs_handlePong_def handleBye_def hs_simps Let_def split: option.split)
  moreover have "app_outs (handleOther cid ty data s) = app_outs s \<or>
    (app_outs (handleOther cid ty data s) = app_outs s @ [OnAppMessage cid ty data] \<and>
      is_connected cid s \<and> ty \<ge> 0x0010)"
    by (auto simp: handleOther_def hs_simps)
  ultimately show ?thesis
    unfolding hs_dispatch_def by (simp split: Id.split Body.split)
qed

lemma is_connected_phase: "is_connected cid s \<longleftrightarrow> phase cid s = Some Connected"
  by (auto simp: is_connected_def phase_def split: option.split)

lemma app_outs_frame:
  "app_outs (hs_handleFrame now cid ty data s) = app_outs s \<or>
   (app_outs (hs_handleFrame now cid ty data s) = app_outs s @ [OnAppMessage cid ty data] \<and>
      phase cid s = Some Connected \<and> ty \<ge> 0x0010)"
proof (cases "find_client cid s")
  case None
  then show ?thesis by (simp add: hs_handleFrame_def hs_simps)
next
  case (Some r)
  define t where "t = put_client cid (r\<lparr>rec_lastActivity := now\<rparr>) s"
  have "is_connected cid t = is_connected cid s" "app_outs t = app_outs s"
    using Some by (simp_all add: t_def is_connected_def find_client_def hs_simps)
  then show ?thesis
    using Some app_outs_dispatch [of now cid ty data _ t]
    by (auto simp: hs_handleFrame_def hs_simps Let_def t_def [symmetric] is_connected_phase [symmetric]
        split: option.split)
qed

lemma app_outs_fold:
  assumes "\<And>x t. app_outs (f x t) = app_outs t"
  shows "app_outs (fold f xs t) = app_outs t"
  using assms by (induction xs arbitrary: t) auto

lemma app_outs_timer: "app_outs (housekeeping now s) = app_outs s"
  unfolding housekeeping_def Let_def
  by (simp add: hs_simps app_outs_fold hostPing_def split: prod.split)

lemma app_outs_stop_task: "app_outs (hs_stop_task s) = app_outs s"
  unfolding hs_stop_task_def
  by (subst app_outs_fold) (auto simp: hs_simps split: option.split)

lemma app_outs_handle:
  "app_outs (hs_handle e s) = app_outs s \<or>
   (\<exists>now cid ty data. e = HFrame now cid ty data \<and> hs_thread s \<and> phase cid s = Some Connected \<and>
      ty \<ge> 0x0010 \<and> app_outs (hs_handle e s) = app_outs s @ [OnAppMessage cid ty data])"
proof (cases e)
  case (HFrame now cid ty data)
  then show ?thesis using app_outs_frame [of now cid ty data s] by auto
next
  case (HStart rnd listen p)
  then show ?thesis by (simp add: hs_start_def Let_def app_outs_def emit_def split: option.split)
next
  case (HConnection now conn address)
  have "app_outs (s\<lparr>hs_nextClientId := n\<rparr>) = app_outs s" for n by (simp add: app_outs_def)
  with HConnection show ?thesis by (simp add: handleNewConnection_def Let_def hs_simps)
next
  case (HDialRelay d h p t)
  have "app_outs (u\<lparr>hs_relayDialers := n\<rparr>) = app_outs u" for u n by (simp add: app_outs_def)
  with HDialRelay show ?thesis by (simp add: connectRelayClient_def Let_def hs_simps)
next
  case HStopBegin
  then show ?thesis by (simp add: hs_stop_begin_def app_outs_def)
next
  case HStopEnd
  then show ?thesis by (simp add: hs_stop_end_def app_outs_def emit_def)
qed (simp_all add: app_outs_stop_task app_outs_timer handleClientClosed_def approveClient_def
    kickClient_def setClientInput_def hs_sendAppMessage_def Let_def hs_simps split: option.split)

lemma app_message_presented:
  "OnAppMessage cid ty data \<in> set (hs_out (fold hs_handle es (HostSession_new h))) \<Longrightarrow>
     ty \<ge> 0x0010 \<and> (\<exists>now. HFrame now cid ty data \<in> set es) \<and>
     (\<exists>actual. \<exists>e \<in> set es. presents actual cid e)"
proof (induction es rule: rev_induct)
  case Nil
  then show ?case by (simp add: HostSession_new_def)
next
  case (snoc e es)
  let ?s = "fold hs_handle es (HostSession_new h)"
  have mem: "OnAppMessage cid ty data \<in> set (hs_out t) \<longleftrightarrow> OnAppMessage cid ty data \<in> set (app_outs t)" for t
    by (simp add: app_outs_def)
  show ?case
  proof (cases "OnAppMessage cid ty data \<in> set (hs_out ?s)")
    case True
    then show ?thesis using snoc.IH by auto
  next
    case False
    then obtain now where e: "e = HFrame now cid ty data" and ph: "phase cid ?s = Some Connected" "ty \<ge> 0x0010"
      using app_outs_handle [of e ?s] snoc.prems mem by auto
    then have "\<exists>e \<in> set es. presents (hs_sessionCode ?s) cid e"
      using hs_reachable [of es h] by (simp add: hs_trace_inv_def)
    then show ?thesis using e ph by auto
  qed
qed

section \<open>Properties\<close>

text \<open>C9: in every run of the host session, every event moves the table entry of every client along
  the life cycle of \<open>lifecycle\<close> and in no other way: a client enters as Connecting, becomes
  Authenticating only by a CLIENT_HELLO with a code that verifies while there is room, Connected only
  by CLIENT_CAPABILITIES with a common codec, and leaves on its own frames, close, refusal, idleness
  or the end of the session.\<close>

theorem host_client_lifecycle:
  "let s = fold hs_handle es (HostSession_new handler)
   in lifecycle s e cid (phase cid s) (phase cid (hs_handle e s))"
  using lifecycle_handle [of "fold hs_handle es (HostSession_new handler)"] hs.inv_run
  by (simp add: Let_def)

text \<open>C8: whatever arrives on whatever connections, a client that is past Connecting (and not
  disconnected) sent a CLIENT_HELLO whose code verifies against the code of the current session.\<close>

theorem admitted_client_presented_code:
  assumes "admitted (phase cid (fold hs_handle es (HostSession_new handler)))"
  shows "\<exists>e \<in> set es. presents (hs_sessionCode (fold hs_handle es (HostSession_new handler))) cid e"
  using hs_reachable [of es handler] assms by (simp add: hs_trace_inv_def)

definition demo_hello :: bytes where
  "demo_hello = encodeMessage \<lparr>etype = ClientHello,
     ebody = MClientHello ''Ann'' ''aaaa aaaa'' ''0.1.1''\<rparr>"

definition demo_caps :: bytes where
  "demo_caps = encodeMessage \<lparr>etype = ClientCapabilities, ebody = MClientCapabilities [H264]\<rparr>"

definition demo_run :: "hs_event list" where
  "demo_run = [HStart (\<lambda>_. 0) (\<lambda>p. Some p) HostSessionParams_default,
     HConnection 5 7 ''10.0.0.2'', HFrame 6 1 0x0001 demo_hello]"

lemma demo_state:
  "phase 1 (fold hs_handle demo_run (HostSession_new True)) = Some Authenticating"
  "phase 1 (hs_handle (HFrame 7 1 0x0005 demo_caps) (fold hs_handle demo_run (HostSession_new True)))
     = Some Connected"
  by code_simp+

lemma demo_live:
  "hs_thread (fold hs_handle demo_run (HostSession_new True))" "\<not> hs_stopping (fold hs_handle demo_run (HostSession_new True))"
  "map_option rec_connection (find_client 1 (fold hs_handle demo_run (HostSession_new True))) = Some (Some 7)"
  by code_simp+

theorem admitted_client_presented_code_witness:
  "\<exists>e \<in> set demo_run. presents (hs_sessionCode (fold hs_handle demo_run (HostSession_new True))) 1 e"
  by (rule admitted_client_presented_code) (simp add: demo_state)

text \<open>At every moment at most \<open>maxClients\<close> clients are past Connecting, however many connections
  are open.\<close>

theorem admitted_within_capacity:
  "card {cid. admitted (phase cid (fold hs_handle es (HostSession_new handler)))}
     \<le> hp_maxClients (hs_params (fold hs_handle es (HostSession_new handler)))"
  using hs_reachable [of es handler] by (simp add: hs_trace_inv_def)

text \<open>An application message is forwarded only for a client that presented a code that verified,
  it carries an id of the application range, and it is exactly a frame that client sent.\<close>

theorem app_message_only_from_admitted:
  assumes "OnAppMessage cid ty data \<in> set (hs_out (fold hs_handle es (HostSession_new handler)))"
  shows "ty \<ge> 0x0010 \<and> (\<exists>now. HFrame now cid ty data \<in> set es) \<and>
    (\<exists>actual. \<exists>e \<in> set es. presents actual cid e)"
  by (rule app_message_presented [OF assms])

theorem app_message_only_from_admitted_witness:
  "(0x0012 :: u16) \<ge> 0x0010 \<and>
   (\<exists>now. HFrame now 1 0x0012 [] \<in> set (demo_run @ [HFrame 7 1 0x0005 demo_caps, HFrame 8 1 0x0012 []])) \<and>
   (\<exists>actual. \<exists>e \<in> set (demo_run @ [HFrame 7 1 0x0005 demo_caps, HFrame 8 1 0x0012 []]). presents actual 1 e)"
proof (rule app_message_only_from_admitted)
  show "OnAppMessage 1 0x0012 [] \<in> set (hs_out (fold hs_handle
      (demo_run @ [HFrame 7 1 0x0005 demo_caps, HFrame 8 1 0x0012 []]) (HostSession_new True)))"
    by code_simp
qed

lemma rows_find:
  "omap_wf m \<Longrightarrow> find (\<lambda>w. row_id w = cid) (rows (omap_upd cid r m)) = Some (client_row cid r)"
  by (induction m) (auto simp: rows_def client_row_def omap_wf_Cons)

lemma dropClient_out:
  assumes "find_client cid s = Some r" and "rec_connection r = Some c" and "omap_wf (hs_clients s)"
  shows "hs_out (dropClient cid True reason m s) = hs_out s @
    [SendFrameAndClose c 0x0002 (encodeMessage \<lparr>etype = HostReject, ebody = MHostReject (reason_code reason) m\<rparr>),
     OnClientUpdated (client_row cid (r\<lparr>rec_state := Disconnected\<rparr>))]"
proof -
  have f: "find_client cid (sendAndClose cid msg s) = Some r" for msg
    using assms(1) by (simp add: find_client_def hs_simps)
  show ?thesis
    using assms(1,2) f rows_find [OF assms(3)] by (simp add: dropClient_def hs_setState_def hs_simps Let_def)
      (simp add: sendAndClose_def assms hs_simps)
qed

text \<open>A frame of unknown type or with a malformed payload costs its sender the connection and
  nobody else anything: the entry is removed, every other entry is untouched, and exactly two effects
  follow, a HOST_REJECT with the reason ProtocolError after which the connection closes, and the
  notification that the client is disconnected.\<close>

theorem malformed_frame_rejected:
  assumes run: "s = fold hs_handle es (HostSession_new handler)" and live: "hs_thread s" "\<not> hs_stopping s"
    and r: "find_client cid s = Some r" "rec_connection r = Some c"
    and bad: "decodeMessage ty data = None"
  shows "hs_clients (hs_handle (HFrame now cid ty data) s) = omap_del cid (hs_clients s) \<and>
    (\<exists>m row. hs_out (hs_handle (HFrame now cid ty data) s) = hs_out s @
      [SendFrameAndClose c 0x0002 (encodeMessage
         \<lparr>etype = HostReject, ebody = MHostReject (reason_code ProtocolError) m\<rparr>), OnClientUpdated row] \<and>
      row_id row = cid \<and> row_state row = Disconnected)"
proof -
  have wf: "omap_wf (hs_clients s)" using hs.inv_run [of es handler] run by (simp add: hs_inv_def)
  define t where "t = put_client cid (r\<lparr>rec_lastActivity := now\<rparr>) s"
  have t: "find_client cid t = Some (r\<lparr>rec_lastActivity := now\<rparr>)" "omap_wf (hs_clients t)" "hs_out t = hs_out s"
    using wf by (simp_all add: t_def find_client_def hs_simps)
  have eq: "hs_handle (HFrame now cid ty data) s =
     (if knownId ty then dropClient cid True ProtocolError ''Malformed message.'' t
      else dropClient cid True ProtocolError ''Unknown message type.'' s)"
    using live r bad by (simp add: hs_handleFrame_def t_def Let_def)
  then have cl: "hs_clients (hs_handle (HFrame now cid ty data) s) = omap_del cid (hs_clients s)"
    by (simp add: hs_simps t_def)
  have "rec_connection (r\<lparr>rec_lastActivity := now\<rparr>) = Some c" using r by simp
  note outs = dropClient_out [OF r wf, of ProtocolError] dropClient_out [OF t(1) this t(2), of ProtocolError]
  have "\<exists>m row. hs_out (hs_handle (HFrame now cid ty data) s) = hs_out s @
      [SendFrameAndClose c 0x0002 (encodeMessage
         \<lparr>etype = HostReject, ebody = MHostReject (reason_code ProtocolError) m\<rparr>), OnClientUpdated row] \<and>
      row_id row = cid \<and> row_state row = Disconnected"
    unfolding eq by (cases "knownId ty") (auto simp: outs t(3) client_row_def)
  with cl show ?thesis by blast
qed

theorem malformed_frame_rejected_witness:
  "\<exists>s r c. s = fold hs_handle demo_run (HostSession_new True) \<and> find_client 1 s = Some r \<and>
     rec_connection r = Some c \<and>
     hs_clients (hs_handle (HFrame 9 1 0x0007 [1, 2, 3]) s) = omap_del 1 (hs_clients s)"
proof -
  let ?s = "fold hs_handle demo_run (HostSession_new True)"
  have "hs_thread ?s" "\<not> hs_stopping ?s" by (rule demo_live)+
  moreover have "map_option rec_connection (find_client 1 ?s) = Some (Some 7)" by (rule demo_live)
  then obtain r where "find_client 1 ?s = Some r" "rec_connection r = Some 7" by auto
  moreover have "decodeMessage 7 [1, 2, 3] = None" by code_simp
  ultimately show ?thesis using malformed_frame_rejected [OF refl, of demo_run True 1 r 7] by blast
qed

text \<open>Housekeeping removes exactly the clients that were silent for longer than their phase
  allows (10 s before HELLO, 75 s while authenticating, 15 s when connected), keeps the others in
  place and only notes the time of the pings it sends; the published table follows.\<close>

theorem housekeeping_removes_exactly_idle:
  "let s = fold hs_handle es (HostSession_new handler)
   in hs_clients (housekeeping now s) =
        map (\<lambda>(k, r). (k, if ping_due now r then r\<lparr>rec_lastHostPing := now\<rparr> else r))
          (filter (\<lambda>(k, r). \<not> overdue now r) (hs_clients s)) \<and>
      map mask_row (hs_snapshot (housekeeping now s)) = map mask_row (rows (hs_clients (housekeeping now s)))"
proof -
  let ?s = "fold hs_handle es (HostSession_new handler)"
  have inv: "hs_inv ?s" by (rule hs.inv_run)
  then have "omap_wf (hs_clients ?s)" by (simp add: hs_inv_def)
  with hs_inv_housekeeping [OF inv, of now] show ?thesis
    by (simp add: housekeeping_clients pinged_def hs_inv_def Let_def)
qed

text \<open>The table other threads read has one row per client, in the order of the ids, and agrees
  with the client map in every column but \<open>inputEnabled\<close>; records carry the id they are filed
  under, and at most eight relay dialers are kept.\<close>

theorem snapshot_agrees:
  "let s = fold hs_handle es (HostSession_new handler)
   in map mask_row (hs_snapshot s) = map mask_row (rows (hs_clients s)) \<and>
      sorted_wrt (<) (map row_id (hs_snapshot s)) \<and>
      list_all (\<lambda>(cid, r). rec_id r = cid) (hs_clients s) \<and> length (hs_relayDialers s) \<le> 8"
proof -
  let ?s = "fold hs_handle es (HostSession_new handler)"
  have inv: "hs_inv ?s" by (rule hs.inv_run)
  have "map row_id w = map row_id (map mask_row w)" for w by (simp add: mask_row_def)
  then have "map row_id (hs_snapshot ?s) = map row_id (map mask_row (rows (hs_clients ?s)))"
    using inv by (metis hs_inv_def)
  also have "\<dots> = map fst (hs_clients ?s)" by (simp add: rows_def mask_row_def client_row_def case_prod_beta)
  finally show ?thesis using inv by (auto simp: hs_inv_def omap_wf_def Let_def list_all_iff)
qed

text \<open>The approval step can be skipped: with approval required, a client that presented the code
  and then sends CLIENT_CAPABILITIES unasked becomes Connected although the host was only asked and
  never answered.\<close>

theorem connected_without_approval:
  "let es = demo_run @ [HFrame 7 1 0x0005 demo_caps];
       s = fold hs_handle es (HostSession_new True)
   in \<not> hp_autoApprove (hs_params s) \<and> list_all (\<lambda>e. case e of HApprove _ _ _ \<Rightarrow> False | _ \<Rightarrow> True) es \<and>
      phase 1 s = Some Connected"
  by code_simp

text \<open>The column \<open>inputEnabled\<close> of the published table is stale after \<^verbatim>\<open>setClientInput\<close>.\<close>

lemma snapshot_input_stale:
  "let s = fold hs_handle (demo_run @ [HSetInput 1 False]) (HostSession_new True)
   in map row_inputEnabled (hs_snapshot s) = [True] \<and>
      map row_inputEnabled (rows (hs_clients s)) = [False]"
  by code_simp

end
