(* ===== verification/ClientSession.thy ===== *)
theory ClientSession
  imports Protocol TcpTransport
begin

text \<open>
  \<^verbatim>\<open>client/ClientSession.h\<close> and \<^verbatim>\<open>client/ClientSession.cpp\<close>: the client's session state machine. As for
  the host, a handler per event over the object's fields; effects are appended to \<open>cs_out\<close>.
  \<open>cs_thread\<close> says that the network thread has not been joined, \<open>cs_loop\<close> that its \<^verbatim>\<open>io_.run()\<close> has
  not been stopped: after \<^verbatim>\<open>finish\<close> no handler runs any more; \<open>cs_inStop\<close> that a call of \<^verbatim>\<open>stop\<close> is
  between its two halves; \<open>cs_dialing\<close> that a connect attempt has not reported its result yet. Connections are handles, times are
  nanoseconds, the text of a system error is an argument of the event that reports it. Log lines
  are left out.
\<close>

section \<open>State\<close>

record ClientSessionParams =
  cp_clientName :: string
  cp_sessionCode :: string
  cp_hostAddress :: string
  cp_hostPort :: u16
  cp_connectTimeoutMs :: u32
  cp_supportedCodecs :: "VideoCodec list"

definition ClientSessionParams_default :: ClientSessionParams where
  "ClientSessionParams_default = \<lparr>cp_clientName = ''Player'', cp_sessionCode = [],
     cp_hostAddress = ''127.0.0.1'', cp_hostPort = kDefaultListenPort, cp_connectTimeoutMs = 5000,
     cp_supportedCodecs = [H264]\<rparr>"

record ClientStatus =
  cst_state :: ConnectionState
  cst_hostName :: string
  cst_gameName :: string
  cst_codec :: VideoCodec
  cst_width :: u32
  cst_height :: u32
  cst_fps :: u32
  cst_bitrateKbps :: u32
  cst_rttMs :: u32
  cst_input :: InputPermissions
  cst_lastError :: string
  cst_bytesIn :: u64
  cst_bytesOut :: u64

definition ClientStatus_default :: ClientStatus where
  "ClientStatus_default = \<lparr>cst_state = Disconnected, cst_hostName = [], cst_gameName = [],
     cst_codec = H264, cst_width = 0, cst_height = 0, cst_fps = 0, cst_bitrateKbps = 0,
     cst_rttMs = 0, cst_input = InputPermissions_default, cst_lastError = [], cst_bytesIn = 0,
     cst_bytesOut = 0\<rparr>"

datatype cs_output =
    CSend nat u16 bytes
  | CSendAndClose nat u16 bytes
  | CCloseConnection nat
  | CStartConnection nat
  | CDial string u16 u32
  | CDialRelay string u16 string
  | COnState ConnectionState
  | COnConnected ClientStatus
  | COnDisconnected string
  | COnError string
  | COnInputPermissions InputPermissions
  | COnAppMessage u16 bytes
  | CArmHeartbeat

record ClientSession =
  cs_params :: ClientSessionParams
  cs_status :: ClientStatus
  cs_connection :: "nat option"
  cs_relay :: bool
  cs_lastActivity :: int
  cs_running :: bool
  cs_stopping :: bool
  cs_thread :: bool
  cs_loop :: bool
  cs_inStop :: bool
  cs_dialing :: bool
  cs_appHandler :: bool
  cs_out :: "cs_output list"

definition ClientSession_new :: "bool \<Rightarrow> ClientSession" where
  "ClientSession_new handler = \<lparr>cs_params = ClientSessionParams_default,
     cs_status = ClientStatus_default, cs_connection = None, cs_relay = False, cs_lastActivity = 0,
     cs_running = False, cs_stopping = False, cs_thread = False, cs_loop = False,
     cs_inStop = False, cs_dialing = False, cs_appHandler = handler, cs_out = []\<rparr>"

definition cs_emit :: "cs_output \<Rightarrow> ClientSession \<Rightarrow> ClientSession" where
  "cs_emit x s = s\<lparr>cs_out := cs_out s @ [x]\<rparr>"

section \<open>Helpers\<close>

definition updateStatus :: "(ClientStatus \<Rightarrow> ClientStatus) \<Rightarrow> ClientSession \<Rightarrow> ClientSession" where
  "updateStatus mutator s = s\<lparr>cs_status := mutator (cs_status s)\<rparr>"

definition cs_setState :: "ConnectionState \<Rightarrow> ClientSession \<Rightarrow> ClientSession" where
  "cs_setState st s = cs_emit (COnState st) (updateStatus (\<lambda>u. u\<lparr>cst_state := st\<rparr>) s)"

definition cs_send :: "Envelope \<Rightarrow> ClientSession \<Rightarrow> ClientSession" where
  "cs_send msg s =
     (case cs_connection s of
        None \<Rightarrow> s
      | Some c \<Rightarrow>
          let payload = encodeMessage msg;
              s = updateStatus (\<lambda>u. u\<lparr>cst_bytesOut := cst_bytesOut u + of_nat (length payload)\<rparr>) s
          in cs_emit (CSend c (id_code (etype msg)) payload) s)"

definition sendHello :: "ClientSession \<Rightarrow> ClientSession" where
  "sendHello s = cs_send \<lparr>etype = ClientHello,
     ebody = MClientHello (cp_clientName (cs_params s)) (cp_sessionCode (cs_params s)) kAppVersion\<rparr> s"

definition finish :: "ConnectionState \<Rightarrow> string \<Rightarrow> bool \<Rightarrow> ClientSession \<Rightarrow> ClientSession" where
  "finish finalState reason notifyDisconnected s =
     (let s = updateStatus (\<lambda>u. u\<lparr>cst_state := finalState,
            cst_lastError := (if reason \<noteq> [] then reason else cst_lastError u)\<rparr>) s;
          s = cs_setState finalState s;
          s = (case cs_connection s of None \<Rightarrow> s | Some c \<Rightarrow> cs_emit (CCloseConnection c) s);
          s = s\<lparr>cs_connection := None, cs_running := False, cs_loop := False\<rparr>
      in if notifyDisconnected then cs_emit (COnDisconnected reason) s else s)"

definition joinNetworkThread :: "ClientSession \<Rightarrow> ClientSession" where
  "joinNetworkThread s = s\<lparr>cs_thread := False, cs_loop := False, cs_connection := None\<rparr>"

section \<open>Connection events\<close>

definition handleConnected :: "int \<Rightarrow> nat \<Rightarrow> ClientSession \<Rightarrow> ClientSession" where
  "handleConnected now conn s =
     (let s = s\<lparr>cs_connection := Some conn, cs_lastActivity := now\<rparr>;
          s = updateStatus (\<lambda>u. u\<lparr>cst_bytesIn := 0, cst_bytesOut := 0\<rparr>) s;
          s = cs_emit (CStartConnection conn) s
      in cs_setState Authenticating (sendHello s))"

definition connect_failed :: "string \<Rightarrow> ClientSession \<Rightarrow> ClientSession" where
  "connect_failed message s =
     (let msg = (if cs_relay s then ''Relay connection failed: '' else ''Connection failed: '') @ message
      in finish Disconnected msg True (cs_emit (COnError msg) s))"

definition handleClosed :: "bool \<Rightarrow> string \<Rightarrow> ClientSession \<Rightarrow> ClientSession" where
  "handleClosed clean message s =
     (if cs_stopping s then s
      else finish Disconnected
             (if clean then ''Connection closed by host'' else ''Connection lost: '' @ message) True s)"

section \<open>Messages of the host\<close>

definition handleHostReject :: "string \<Rightarrow> ClientSession \<Rightarrow> ClientSession" where
  "handleHostReject txt s =
     (let msg = ''Host rejected: '' @ txt
      in cs_emit (COnError msg) (finish Disconnected msg True s))"

definition handleKick :: "string \<Rightarrow> ClientSession \<Rightarrow> ClientSession" where
  "handleKick reason s = finish Disconnected (''Kicked by host: '' @ reason) True s"

definition handleHostCapabilities ::
  "string \<Rightarrow> string \<Rightarrow> u16 \<Rightarrow> u16 \<Rightarrow> u8 \<Rightarrow> u32 \<Rightarrow> ClientSession \<Rightarrow> ClientSession" where
  "handleHostCapabilities hn gn w h fps br s =
     (let s = updateStatus (\<lambda>u. u\<lparr>cst_hostName := hn, cst_gameName := gn, cst_width := ucast w,
            cst_height := ucast h, cst_fps := ucast fps, cst_bitrateKbps := br\<rparr>) s
      in cs_send \<lparr>etype = ClientCapabilities,
           ebody = MClientCapabilities (cp_supportedCodecs (cs_params s))\<rparr> s)"

definition handleNegotiation ::
  "bool \<Rightarrow> u8 \<Rightarrow> u16 \<Rightarrow> u16 \<Rightarrow> u8 \<Rightarrow> u32 \<Rightarrow> string \<Rightarrow> ClientSession \<Rightarrow> ClientSession" where
  "handleNegotiation acc codec w h fps br nt s =
     (if \<not> acc
      then let msg = ''Codec negotiation failed: '' @ nt
           in cs_emit (COnError msg) (finish Disconnected msg True s)
      else
        let s = updateStatus (\<lambda>u. u\<lparr>cst_codec := codec, cst_width := ucast w, cst_height := ucast h,
              cst_fps := ucast fps, cst_bitrateKbps := br, cst_state := Connected\<rparr>) s;
            s = cs_setState Connected s
        in cs_emit (COnConnected (cs_status s)) s)"

definition cs_handlePing :: "u64 \<Rightarrow> ClientSession \<Rightarrow> ClientSession" where
  "cs_handlePing t s = cs_send \<lparr>etype = Pong, ebody = MPong t\<rparr> s"

definition steadyNowMs :: "int \<Rightarrow> u64" where
  "steadyNowMs now = word_of_int (now div 1000000)"

definition cs_handlePong :: "int \<Rightarrow> u64 \<Rightarrow> ClientSession \<Rightarrow> ClientSession" where
  "cs_handlePong now echo s =
     (let n = steadyNowMs now;
          sample = (if echo < n then ucast (n - echo) else 0)
      in updateStatus (\<lambda>u. u\<lparr>cst_rttMs :=
           (if cst_rttMs u = 0 then sample else (cst_rttMs u * 7 + sample) div 8)\<rparr>) s)"

definition handleInputPermission :: "bool \<Rightarrow> bool \<Rightarrow> bool \<Rightarrow> bool \<Rightarrow> ClientSession \<Rightarrow> ClientSession" where
  "handleInputPermission c k m v s =
     (let p = \<lparr>perm_controller = c, perm_keyboard = k, perm_mouse = m, perm_vibration = v\<rparr>
      in cs_emit (COnInputPermissions p) (updateStatus (\<lambda>u. u\<lparr>cst_input := p\<rparr>) s))"

definition cs_handleOther :: "u16 \<Rightarrow> bytes \<Rightarrow> ClientSession \<Rightarrow> ClientSession" where
  "cs_handleOther ty data s =
     (if ty \<ge> 0x0010 \<and> cst_state (cs_status s) = Connected \<and> cs_appHandler s
      then cs_emit (COnAppMessage ty data) s else s)"

definition cs_dispatch :: "int \<Rightarrow> u16 \<Rightarrow> bytes \<Rightarrow> Envelope \<Rightarrow> ClientSession \<Rightarrow> ClientSession" where
  "cs_dispatch now ty data env s =
     (case etype env of
        HostReject \<Rightarrow> (case ebody env of MHostReject rc txt \<Rightarrow> handleHostReject txt s | _ \<Rightarrow> s)
      | HostApproved \<Rightarrow> s
      | HostCapabilities \<Rightarrow>
          (case ebody env of
             MHostCapabilities hn gn cm w h fps br codecs \<Rightarrow> handleHostCapabilities hn gn w h fps br s
           | _ \<Rightarrow> s)
      | NegotiationResult \<Rightarrow>
          (case ebody env of
             MNegotiationResult acc cd w h fps br nt \<Rightarrow> handleNegotiation acc cd w h fps br nt s
           | _ \<Rightarrow> s)
      | Ping \<Rightarrow> (case ebody env of MPing t \<Rightarrow> cs_handlePing t s | _ \<Rightarrow> s)
      | Pong \<Rightarrow> (case ebody env of MPong t \<Rightarrow> cs_handlePong now t s | _ \<Rightarrow> s)
      | InputPermission \<Rightarrow>
          (case ebody env of MInputPermission c k m v \<Rightarrow> handleInputPermission c k m v s | _ \<Rightarrow> s)
      | Kick \<Rightarrow> (case ebody env of MKick reason \<Rightarrow> handleKick reason s | _ \<Rightarrow> s)
      | Bye \<Rightarrow> finish Disconnected ''Host closed the session'' True s
      | _ \<Rightarrow> cs_handleOther ty data s)"

definition unknown_type_msg :: "u16 \<Rightarrow> string" where
  "unknown_type_msg ty = ''Host sent an unknown message type (0x'' @ dec_digits (unat ty) @ '')''"

definition cs_handleFrame :: "int \<Rightarrow> u16 \<Rightarrow> bytes \<Rightarrow> ClientSession \<Rightarrow> ClientSession" where
  "cs_handleFrame now ty data s =
     (if cs_stopping s then s
      else
        let s = s\<lparr>cs_lastActivity := now\<rparr> in
        if \<not> knownId ty
        then let msg = unknown_type_msg ty in finish Disconnected msg True (cs_emit (COnError msg) s)
        else case decodeMessage ty data of
          None \<Rightarrow>
            let msg = ''Host sent a malformed message''
            in finish Disconnected msg True (cs_emit (COnError msg) s)
        | Some env \<Rightarrow> cs_dispatch now ty data env s)"

section \<open>Heartbeat and application messages\<close>

definition cs_kHeartbeatTimeout :: int where "cs_kHeartbeatTimeout = 12 * 1000000000"

definition startHeartbeat :: "int \<Rightarrow> ClientSession \<Rightarrow> ClientSession" where
  "startHeartbeat now s =
     (if cs_stopping s then s
      else if now - cs_lastActivity s > cs_kHeartbeatTimeout
      then finish Disconnected ''Connection timed out (no data from host)'' True s
      else
        let st = cst_state (cs_status s);
            s = (if st = Connected \<or> st = Streaming
                 then cs_send \<lparr>etype = Ping, ebody = MPing (steadyNowMs now)\<rparr> s else s)
        in cs_emit CArmHeartbeat s)"

definition cs_sendAppMessage :: "u16 \<Rightarrow> bytes \<Rightarrow> ClientSession \<Rightarrow> ClientSession" where
  "cs_sendAppMessage ty payload s =
     (if ty < 0x0010 then s
      else case cs_connection s of None \<Rightarrow> s | Some c \<Rightarrow> cs_emit (CSend c ty payload) s)"

section \<open>Start and stop\<close>

definition cs_begin :: "bool \<Rightarrow> bool \<Rightarrow> bool \<Rightarrow> ClientSessionParams \<Rightarrow> ClientSession \<Rightarrow> ClientSession" where
  "cs_begin resetBytes dial relay p s =
     (let s = s\<lparr>cs_running := True, cs_stopping := False, cs_params := p, cs_relay := relay\<rparr>;
          s = updateStatus (\<lambda>u. u\<lparr>cst_state := Connecting, cst_hostName := [], cst_gameName := [],
                cst_lastError := [], cst_rttMs := 0,
                cst_bytesIn := (if resetBytes then 0 else cst_bytesIn u),
                cst_bytesOut := (if resetBytes then 0 else cst_bytesOut u)\<rparr>) s;
          s = cs_setState Connecting s
      in s\<lparr>cs_thread := True, cs_loop := True, cs_dialing := dial\<rparr>)"

definition cs_start :: "ClientSessionParams \<Rightarrow> ClientSession \<Rightarrow> ClientSession" where
  "cs_start p s =
     (let s = joinNetworkThread s in
      if cs_running s then s
      else cs_emit CArmHeartbeat
             (cs_emit (CDial (cp_hostAddress p) (cp_hostPort p) (cp_connectTimeoutMs p))
                (cs_begin True True False p s)))"

definition startViaRelay ::
  "ClientSessionParams \<Rightarrow> string \<Rightarrow> u16 \<Rightarrow> string \<Rightarrow> ClientSession \<Rightarrow> ClientSession" where
  "startViaRelay p serverHost relayTcpPort token s =
     (let s = joinNetworkThread s in
      if cs_running s then s
      else cs_emit CArmHeartbeat
             (cs_emit (CDialRelay serverHost relayTcpPort token) (cs_begin False True True p s)))"

definition cs_attachConnection :: "int \<Rightarrow> nat \<Rightarrow> ClientSessionParams \<Rightarrow> ClientSession \<Rightarrow> ClientSession" where
  "cs_attachConnection now conn p s =
     (let s = joinNetworkThread s in
      if cs_running s then s
      else cs_emit CArmHeartbeat (handleConnected now conn (cs_begin False False False p s)))"

text \<open>\<^verbatim>\<open>stop\<close>: the flags, then the posted BYE task with the wait for the loop to drain, then the join.\<close>

definition cs_stop_begin :: "ClientSession \<Rightarrow> ClientSession" where
  "cs_stop_begin s =
     (if \<not> cs_running s then joinNetworkThread s
      else s\<lparr>cs_running := False, cs_stopping := True, cs_inStop := True\<rparr>)"

definition cs_bye_task :: "bool \<Rightarrow> ClientSession \<Rightarrow> ClientSession" where
  "cs_bye_task isOpen s =
     (case cs_connection s of
        None \<Rightarrow> s
      | Some c \<Rightarrow>
          if isOpen
          then cs_emit (CSendAndClose c (id_code Bye)
            (encodeMessage \<lparr>etype = Bye, ebody = MBye ''Disconnected by user''\<rparr>)) s
          else s)"

definition cs_stop_end :: "ClientSession \<Rightarrow> ClientSession" where
  "cs_stop_end s =
     cs_emit (COnDisconnected ''Disconnected'')
       (updateStatus (\<lambda>u. u\<lparr>cst_state := Disconnected\<rparr>) ((joinNetworkThread s)\<lparr>cs_inStop := False\<rparr>))"

section \<open>The machine\<close>

datatype cs_event =
    CStart ClientSessionParams
  | CStartRelay ClientSessionParams string u16 string
  | CAttach int nat ClientSessionParams
  | CStopBegin
  | CByeTask bool
  | CStopEnd
  | CConnected int nat
  | CConnectFailed string
  | CFrame int u16 bytes
  | CClosed bool string
  | CHeartbeat int
  | CAppMessage u16 bytes

text \<open>The second half of \<^verbatim>\<open>stop\<close> follows the first in the same thread; no other public call comes in
  between. Everything else runs on the network thread while its loop runs; frames and the close
  notification come from the connection whose handlers \<^verbatim>\<open>handleConnected\<close> installed, and an attempt
  reports once.\<close>

fun cs_io :: "cs_event \<Rightarrow> ClientSession \<Rightarrow> ClientSession" where
  "cs_io (CByeTask isOpen) s = (if cs_inStop s then cs_bye_task isOpen s else s)"
| "cs_io (CConnected now conn) s =
     (if cs_dialing s then handleConnected now conn (s\<lparr>cs_dialing := False\<rparr>) else s)"
| "cs_io (CConnectFailed message) s =
     (if cs_dialing s then connect_failed message (s\<lparr>cs_dialing := False\<rparr>) else s)"
| "cs_io (CFrame now ty data) s = (if cs_connection s = None then s else cs_handleFrame now ty data s)"
| "cs_io (CClosed clean message) s = (if cs_connection s = None then s else handleClosed clean message s)"
| "cs_io (CHeartbeat now) s = startHeartbeat now s"
| "cs_io (CAppMessage ty payload) s = cs_sendAppMessage ty payload s"
| "cs_io _ s = s"

fun cs_handle :: "cs_event \<Rightarrow> ClientSession \<Rightarrow> ClientSession" where
  "cs_handle (CStart p) s = (if cs_inStop s then s else cs_start p s)"
| "cs_handle (CStartRelay p host port token) s =
     (if cs_inStop s then s else startViaRelay p host port token s)"
| "cs_handle (CAttach now conn p) s =
     (if cs_inStop s then s else cs_attachConnection now conn p s)"
| "cs_handle CStopBegin s = (if cs_inStop s then s else cs_stop_begin s)"
| "cs_handle CStopEnd s = (if cs_inStop s then cs_stop_end s else s)"
| "cs_handle e s = (if cs_thread s \<and> cs_loop s then cs_io e s else s)"

section \<open>Field lemmas\<close>

named_theorems cs_simps

abbreviation cs_state :: "ClientSession \<Rightarrow> ConnectionState" where
  "cs_state s \<equiv> cst_state (cs_status s)"

lemma cs_emit_fields [cs_simps]:
  "cs_status (cs_emit x s) = cs_status s" "cs_connection (cs_emit x s) = cs_connection s"
  "cs_running (cs_emit x s) = cs_running s" "cs_loop (cs_emit x s) = cs_loop s"
  "cs_thread (cs_emit x s) = cs_thread s" "cs_stopping (cs_emit x s) = cs_stopping s"
  "cs_inStop (cs_emit x s) = cs_inStop s" "cs_params (cs_emit x s) = cs_params s"
  "cs_appHandler (cs_emit x s) = cs_appHandler s" "cs_out (cs_emit x s) = cs_out s @ [x]"
  "cs_lastActivity (cs_emit x s) = cs_lastActivity s" "cs_relay (cs_emit x s) = cs_relay s"
  by (simp_all add: cs_emit_def)

lemma updateStatus_fields [cs_simps]:
  "cs_status (updateStatus f s) = f (cs_status s)" "cs_connection (updateStatus f s) = cs_connection s"
  "cs_running (updateStatus f s) = cs_running s" "cs_loop (updateStatus f s) = cs_loop s"
  "cs_thread (updateStatus f s) = cs_thread s" "cs_stopping (updateStatus f s) = cs_stopping s"
  "cs_inStop (updateStatus f s) = cs_inStop s" "cs_params (updateStatus f s) = cs_params s"
  "cs_appHandler (updateStatus f s) = cs_appHandler s" "cs_out (updateStatus f s) = cs_out s"
  "cs_lastActivity (updateStatus f s) = cs_lastActivity s" "cs_relay (updateStatus f s) = cs_relay s"
  by (simp_all add: updateStatus_def)

lemma cs_setState_fields [cs_simps]:
  "cs_status (cs_setState st s) = (cs_status s)\<lparr>cst_state := st\<rparr>"
  "cs_connection (cs_setState st s) = cs_connection s"
  "cs_running (cs_setState st s) = cs_running s" "cs_loop (cs_setState st s) = cs_loop s"
  "cs_thread (cs_setState st s) = cs_thread s" "cs_stopping (cs_setState st s) = cs_stopping s"
  "cs_inStop (cs_setState st s) = cs_inStop s" "cs_params (cs_setState st s) = cs_params s"
  "cs_appHandler (cs_setState st s) = cs_appHandler s"
  "cs_out (cs_setState st s) = cs_out s @ [COnState st]"
  by (simp_all add: cs_setState_def cs_simps)

lemma cs_send_fields [cs_simps]:
  "cs_state (cs_send m s) = cs_state s" "cs_connection (cs_send m s) = cs_connection s"
  "cs_running (cs_send m s) = cs_running s" "cs_loop (cs_send m s) = cs_loop s"
  "cs_thread (cs_send m s) = cs_thread s" "cs_stopping (cs_send m s) = cs_stopping s"
  "cs_inStop (cs_send m s) = cs_inStop s" "cs_params (cs_send m s) = cs_params s"
  "cs_appHandler (cs_send m s) = cs_appHandler s"
  by (simp_all add: cs_send_def cs_simps Let_def split: option.split)

lemma finish_fields [cs_simps]:
  "cs_state (finish st reason n s) = st" "cs_connection (finish st reason n s) = None"
  "cs_running (finish st reason n s) = False" "cs_loop (finish st reason n s) = False"
  "cs_thread (finish st reason n s) = cs_thread s" "cs_stopping (finish st reason n s) = cs_stopping s"
  "cs_inStop (finish st reason n s) = cs_inStop s" "cs_params (finish st reason n s) = cs_params s"
  "cs_appHandler (finish st reason n s) = cs_appHandler s"
  by (simp_all add: finish_def cs_simps Let_def split: option.split)

lemma finish_out [cs_simps]:
  "cs_out (finish st reason True s) = cs_out s @ [COnState st] @
     (case cs_connection s of None \<Rightarrow> [] | Some c \<Rightarrow> [CCloseConnection c]) @ [COnDisconnected reason]"
  by (simp add: finish_def cs_simps Let_def split: option.split)

lemma join_fields [cs_simps]:
  "cs_status (joinNetworkThread s) = cs_status s" "cs_connection (joinNetworkThread s) = None"
  "cs_running (joinNetworkThread s) = cs_running s" "cs_loop (joinNetworkThread s) = False"
  "cs_thread (joinNetworkThread s) = False" "cs_stopping (joinNetworkThread s) = cs_stopping s"
  "cs_inStop (joinNetworkThread s) = cs_inStop s" "cs_out (joinNetworkThread s) = cs_out s"
  "cs_params (joinNetworkThread s) = cs_params s"
  by (simp_all add: joinNetworkThread_def)

section \<open>Invariant\<close>

definition n_start :: "ClientSession \<Rightarrow> nat" where
  "n_start s = length (filter (\<lambda>x. x = COnState Connecting) (cs_out s))"

fun is_disc :: "cs_output \<Rightarrow> bool" where
  "is_disc (COnDisconnected reason) \<longleftrightarrow> True"
| "is_disc _ \<longleftrightarrow> False"

definition n_disc :: "ClientSession \<Rightarrow> nat" where
  "n_disc s = length (filter is_disc (cs_out s))"

fun is_fail :: "cs_event \<Rightarrow> bool" where
  "is_fail (CConnectFailed message) \<longleftrightarrow> True"
| "is_fail _ \<longleftrightarrow> False"

text \<open>The frame by which the host accepts the negotiation.\<close>

fun accepts_negotiation :: "cs_event \<Rightarrow> bool" where
  "accepts_negotiation (CFrame now ty data) \<longleftrightarrow>
     (case decodeMessage ty data of
        None \<Rightarrow> False
      | Some env \<Rightarrow> etype env = NegotiationResult \<and>
          (case ebody env of MNegotiationResult acc cd w h fps br nt \<Rightarrow> acc | _ \<Rightarrow> False))"
| "accepts_negotiation _ \<longleftrightarrow> False"

definition cs_flags_ok :: "ClientSession \<Rightarrow> bool" where
  "cs_flags_ok s \<longleftrightarrow> (cs_loop s \<longrightarrow> cs_thread s) \<and> (cs_connection s \<noteq> None \<longrightarrow> cs_loop s) \<and>
     (cs_inStop s \<longrightarrow> cs_stopping s \<and> \<not> cs_running s) \<and> (cs_running s \<longrightarrow> \<not> cs_stopping s) \<and>
     (cs_loop s \<and> \<not> cs_running s \<longrightarrow> cs_inStop s)"

lemma cs_counts_emit [cs_simps]:
  "n_start (cs_emit x s) = n_start s + (if x = COnState Connecting then 1 else 0)"
  "n_disc (cs_emit x s) = n_disc s + (if is_disc x then 1 else 0)"
  by (simp_all add: n_start_def n_disc_def cs_simps)

lemma cs_counts_out: "cs_out t = cs_out s \<Longrightarrow> n_start t = n_start s \<and> n_disc t = n_disc s"
  by (simp add: n_start_def n_disc_def)

lemma cs_counts_update [cs_simps]:
  "n_start (updateStatus f s) = n_start s" "n_disc (updateStatus f s) = n_disc s"
  "n_start (joinNetworkThread s) = n_start s" "n_disc (joinNetworkThread s) = n_disc s"
  by (simp_all add: n_start_def n_disc_def cs_simps)

lemma cs_counts_setState [cs_simps]:
  "n_start (cs_setState st s) = n_start s + (if st = Connecting then 1 else 0)"
  "n_disc (cs_setState st s) = n_disc s"
  by (simp_all add: cs_setState_def cs_simps)

lemma cs_counts_send [cs_simps]:
  "n_start (cs_send m s) = n_start s" "n_disc (cs_send m s) = n_disc s"
  by (simp_all add: cs_send_def cs_simps Let_def split: option.split)

lemma cs_counts_finish [cs_simps]:
  "n_start (finish Disconnected reason True s) = n_start s"
  "n_disc (finish Disconnected reason True s) = Suc (n_disc s)"
  by (simp_all add: n_start_def n_disc_def cs_simps split: option.split)

text \<open>What a handler of the network thread can do to a session that is not being stopped: keep it
  going, without a report, or finish it, with one report.\<close>

definition keeps :: "ClientSession \<Rightarrow> ClientSession \<Rightarrow> bool" where
  "keeps s t \<longleftrightarrow> cs_running t = cs_running s \<and> cs_loop t = cs_loop s \<and> cs_thread t = cs_thread s \<and>
     cs_stopping t = cs_stopping s \<and> cs_inStop t = cs_inStop s \<and>
     (cs_connection t = cs_connection s) \<and> n_start t = n_start s \<and> n_disc t = n_disc s"

definition finishes :: "ClientSession \<Rightarrow> ClientSession \<Rightarrow> bool" where
  "finishes s t \<longleftrightarrow> \<not> cs_running t \<and> \<not> cs_loop t \<and> cs_connection t = None \<and> cs_thread t = cs_thread s \<and>
     cs_stopping t = cs_stopping s \<and> cs_inStop t = cs_inStop s \<and> cst_state (cs_status t) = Disconnected \<and>
     n_start t = n_start s \<and> n_disc t = Suc (n_disc s)"

lemma keeps_refl [simp]: "keeps s s"
  by (simp add: keeps_def)

lemma finishes_finish [simp]: "finishes s (finish Disconnected reason True s)"
  by (simp add: finishes_def cs_simps)

lemma keeps_activity [cs_simps]:
  "keeps (s\<lparr>cs_lastActivity := now\<rparr>) t \<longleftrightarrow> keeps s t" "finishes (s\<lparr>cs_lastActivity := now\<rparr>) t \<longleftrightarrow> finishes s t"
  "keeps s (s\<lparr>cs_lastActivity := now\<rparr>)"
  by (simp_all add: keeps_def finishes_def n_start_def n_disc_def)

lemma finishes_emit [cs_simps]: "\<not> is_disc x \<Longrightarrow> x \<noteq> COnState Connecting \<Longrightarrow>
    finishes s (cs_emit x t) = finishes s t"
  "\<not> is_disc x \<Longrightarrow> x \<noteq> COnState Connecting \<Longrightarrow> finishes (cs_emit x s) t = finishes s t"
  by (simp_all add: finishes_def cs_simps)

lemma finishes_error_finish [simp]:
  "finishes s (finish Disconnected reason True (cs_emit (COnError m) s))"
  "finishes s (finish Disconnected reason True (cs_emit (COnError m) (s\<lparr>cs_lastActivity := now\<rparr>)))"
  by (simp_all add: finishes_def cs_simps n_start_def n_disc_def split: option.split)

lemma keeps_handlers [simp]:
  "keeps s (handleHostCapabilities hn gn w h fps br s)" "keeps s (cs_handlePing t s)"
  "keeps s (cs_handlePong now t s)" "keeps s (handleInputPermission c k m v s)"
  "keeps s (cs_handleOther ty data s)" "keeps s (cs_sendAppMessage ty data s)"
  by (simp_all add: keeps_def handleHostCapabilities_def cs_handlePing_def cs_handlePong_def
      handleInputPermission_def cs_handleOther_def cs_sendAppMessage_def cs_simps Let_def split: option.split)

lemma negotiation_effect:
  "if acc then keeps s (handleNegotiation acc cd w h fps br nt s)
   else finishes s (handleNegotiation acc cd w h fps br nt s)"
  by (simp add: handleNegotiation_def cs_simps Let_def) (simp add: keeps_def cs_simps)

lemma dispatch_effect:
  "keeps s (cs_dispatch now ty data env s) \<or> finishes s (cs_dispatch now ty data env s)"
proof -
  have "finishes s (handleHostReject m s)" "finishes s (handleKick m s)" for m
    by (simp_all add: handleHostReject_def handleKick_def cs_simps Let_def)
  moreover have "keeps s (handleNegotiation acc cd w h fps br nt s) \<or>
      finishes s (handleNegotiation acc cd w h fps br nt s)" for acc cd w h fps br nt
    using negotiation_effect [of acc s cd w h fps br nt] by (cases acc) auto
  ultimately show ?thesis
    unfolding cs_dispatch_def by (simp split: Id.split Body.split)
qed

lemma frame_effect:
  "keeps s (cs_handleFrame now ty data s) \<or> finishes s (cs_handleFrame now ty data s)"
proof (cases "cs_stopping s \<or> \<not> knownId ty")
  case True
  then show ?thesis by (auto simp: cs_handleFrame_def Let_def cs_simps intro!: disjI2)
next
  case False
  show ?thesis
    using False dispatch_effect [of "s\<lparr>cs_lastActivity := now\<rparr>" now ty data]
    by (auto simp: cs_handleFrame_def Let_def cs_simps split: option.split)
qed

lemma closed_effect: "keeps s (handleClosed clean m s) \<or> finishes s (handleClosed clean m s)"
  by (simp add: handleClosed_def)

lemma heartbeat_effect: "keeps s (startHeartbeat now s) \<or> finishes s (startHeartbeat now s)"
  by (simp add: startHeartbeat_def Let_def) (simp add: keeps_def cs_simps)

lemma not_stopping_effect:
  assumes "cs_stopping s"
  shows "cs_handleFrame now ty data s = s" "handleClosed clean m s = s" "startHeartbeat now s = s"
  using assms by (simp_all add: cs_handleFrame_def handleClosed_def startHeartbeat_def)

section \<open>State and application messages\<close>

fun is_capp :: "cs_output \<Rightarrow> bool" where
  "is_capp (COnAppMessage ty data) \<longleftrightarrow> True"
| "is_capp _ \<longleftrightarrow> False"

definition capps :: "ClientSession \<Rightarrow> cs_output list" where
  "capps s = filter is_capp (cs_out s)"

lemma capps_simps [cs_simps]:
  "capps (cs_emit x s) = capps s @ (if is_capp x then [x] else [])"
  "capps (updateStatus f s) = capps s" "capps (joinNetworkThread s) = capps s"
  "capps (cs_setState st s) = capps s" "capps (cs_send m s) = capps s"
  "capps (finish Disconnected reason True s) = capps s" "capps (s\<lparr>cs_lastActivity := now\<rparr>) = capps s"
  by (simp_all add: capps_def cs_simps cs_send_def Let_def split: option.split)

text \<open>A session gets to \<open>Connected\<close> only by an accepted negotiation, and hands on an application
  message only when it is there.\<close>

definition moves_ok :: "cs_event \<Rightarrow> ClientSession \<Rightarrow> ClientSession \<Rightarrow> bool" where
  "moves_ok e s t \<longleftrightarrow>
     (cs_state t = cs_state s \<or> cs_state t \<in> {Connecting, Authenticating, Disconnected} \<or>
        accepts_negotiation e \<and> cs_state t = Connected) \<and>
     (capps t = capps s \<or>
        (\<exists>now ty data. e = CFrame now ty data \<and> cs_state s = Connected \<and> ty \<ge> 0x0010 \<and>
           capps t = capps s @ [COnAppMessage ty data]))"

lemma moves_dispatch:
  assumes "decodeMessage ty data = Some env"
  shows "moves_ok (CFrame now ty data) s (cs_dispatch now ty data env s)"
proof -
  let ?e = "CFrame now ty data"
  have "moves_ok ?e s s" by (simp add: moves_ok_def)
  moreover have "moves_ok ?e s (handleHostReject m s)" "moves_ok ?e s (handleKick m s)"
    "moves_ok ?e s (finish Disconnected m True s)" for m
    by (simp_all add: moves_ok_def handleHostReject_def handleKick_def Let_def cs_simps)
  moreover have "moves_ok ?e s (handleHostCapabilities hn gn w h fps br s)" for hn gn w h fps br
    by (simp add: moves_ok_def handleHostCapabilities_def Let_def cs_simps)
  moreover have "moves_ok ?e s (cs_handlePing t s)" "moves_ok ?e s (cs_handlePong now t s)"
    "moves_ok ?e s (handleInputPermission c k m v s)" for t c k m v
    by (simp_all add: moves_ok_def cs_handlePing_def cs_handlePong_def handleInputPermission_def Let_def cs_simps)
  moreover have "moves_ok ?e s (cs_handleOther ty data s)"
    by (simp add: moves_ok_def cs_handleOther_def cs_simps)
  moreover have "moves_ok ?e s (handleNegotiation acc cd w h fps br nt s)"
    if "etype env = NegotiationResult" "ebody env = MNegotiationResult acc cd w h fps br nt"
    for acc cd w h fps br nt
    using that assms by (simp add: moves_ok_def handleNegotiation_def Let_def cs_simps)
  ultimately show ?thesis
    unfolding cs_dispatch_def by (cases "etype env"; cases "ebody env") simp_all
qed

lemma moves_frame: "moves_ok (CFrame now ty data) s (cs_handleFrame now ty data s)"
proof -
  let ?t = "s\<lparr>cs_lastActivity := now\<rparr>"
  have "moves_ok (CFrame now ty data) s u = moves_ok (CFrame now ty data) ?t u" for u
    by (simp add: moves_ok_def cs_simps)
  then show ?thesis
    using moves_dispatch [of ty data _ now ?t]
    by (auto simp: cs_handleFrame_def Let_def split: option.split)
      (auto simp: moves_ok_def cs_simps)
qed

lemma moves_handle: "moves_ok e s (cs_handle e s)"
proof (cases e)
  case (CFrame now ty data)
  then show ?thesis using moves_frame [of now ty data s] by (simp add: moves_ok_def)
next
  case CStopEnd
  have "capps (u\<lparr>cs_inStop := False\<rparr>) = capps u" for u by (simp add: capps_def)
  with CStopEnd show ?thesis by (simp add: moves_ok_def cs_stop_end_def cs_simps)
next
  case CStopBegin
  have "capps (u\<lparr>cs_running := False, cs_stopping := True, cs_inStop := True\<rparr>) = capps u" for u
    by (simp add: capps_def)
  with CStopBegin show ?thesis by (simp add: moves_ok_def cs_stop_begin_def cs_simps)
next
  case (CConnected now conn)
  then show ?thesis
    by (simp add: moves_ok_def handleConnected_def sendHello_def cs_simps Let_def) (simp add: capps_def cs_simps)
next
  case (CConnectFailed m)
  then show ?thesis
    by (simp add: moves_ok_def connect_failed_def cs_simps Let_def) (simp add: capps_def cs_simps)
next
  case (CStart p)
  then show ?thesis
    by (simp add: moves_ok_def cs_start_def cs_begin_def cs_simps Let_def) (simp add: capps_def cs_simps)
next
  case (CStartRelay p host port token)
  then show ?thesis
    by (simp add: moves_ok_def startViaRelay_def cs_begin_def cs_simps Let_def) (simp add: capps_def cs_simps)
next
  case (CAttach now conn p)
  then show ?thesis
    by (simp add: moves_ok_def cs_attachConnection_def cs_begin_def handleConnected_def sendHello_def
        cs_simps Let_def) (simp add: capps_def cs_simps)
qed (simp_all add: moves_ok_def cs_bye_task_def handleClosed_def startHeartbeat_def
    cs_sendAppMessage_def Let_def cs_simps split: option.split)

section \<open>Every run\<close>

definition pending :: "ClientSession \<Rightarrow> nat" where
  "pending s = (if cs_running s \<or> cs_inStop s then 1 else 0)"

definition counts_ok :: "nat \<Rightarrow> ClientSession \<Rightarrow> bool" where
  "counts_ok fails s \<longleftrightarrow> n_start s \<le> n_disc s + pending s \<and> n_disc s + pending s \<le> n_start s + fails"

lemma flags_keep:
  assumes "cs_flags_ok s" and "counts_ok n s" and "keeps s t"
  shows "cs_flags_ok t \<and> counts_ok n t"
  using assms by (simp add: cs_flags_ok_def counts_ok_def pending_def keeps_def)

lemma flags_finish:
  assumes "cs_flags_ok s" and "counts_ok n s" and "finishes s t" and "cs_running s"
  shows "cs_flags_ok t \<and> counts_ok n t"
  using assms by (auto simp: cs_flags_ok_def counts_ok_def pending_def finishes_def)

lemma flags_effect:
  assumes ok: "cs_flags_ok s" "counts_ok n s" and loop: "cs_loop s"
    and eff: "keeps s t \<or> finishes s t" and stop: "cs_stopping s \<Longrightarrow> t = s"
  shows "cs_flags_ok t \<and> counts_ok n t"
proof (cases "cs_running s")
  case True
  then show ?thesis using eff flags_keep [OF ok] flags_finish [OF ok] by blast
next
  case False
  then have "cs_stopping s" using ok(1) loop by (auto simp: cs_flags_ok_def)
  then show ?thesis using stop ok by simp
qed

lemma flags_fail:
  assumes ok: "cs_flags_ok s" "counts_ok n s" and loop: "cs_loop s" and d: "finishes s t"
  shows "cs_flags_ok t \<and> counts_ok (Suc n) t"
  using assms by (auto simp: cs_flags_ok_def counts_ok_def pending_def finishes_def)

lemma counts_mono: "counts_ok n s \<Longrightarrow> n \<le> m \<Longrightarrow> counts_ok m s"
  by (simp add: counts_ok_def)

lemma connected_effect:
  assumes "cs_flags_ok s" and "counts_ok n s" and "cs_loop s"
  shows "cs_flags_ok (handleConnected now conn s) \<and> counts_ok n (handleConnected now conn s)"
proof -
  have "n_start (handleConnected now conn s) = n_start s" "n_disc (handleConnected now conn s) = n_disc s"
    by (simp_all add: handleConnected_def sendHello_def Let_def cs_simps) (simp_all add: n_start_def n_disc_def)
  moreover have "cs_running (handleConnected now conn s) = cs_running s"
    "cs_loop (handleConnected now conn s) = cs_loop s" "cs_thread (handleConnected now conn s) = cs_thread s"
    "cs_stopping (handleConnected now conn s) = cs_stopping s"
    "cs_inStop (handleConnected now conn s) = cs_inStop s"
    by (simp_all add: handleConnected_def sendHello_def Let_def cs_simps)
  ultimately show ?thesis using assms by (simp add: cs_flags_ok_def counts_ok_def pending_def)
qed

lemma dialing_irrelevant [simp]:
  "cs_flags_ok (s\<lparr>cs_dialing := d\<rparr>) = cs_flags_ok s" "counts_ok n (s\<lparr>cs_dialing := d\<rparr>) = counts_ok n s"
  by (simp_all add: cs_flags_ok_def counts_ok_def pending_def n_start_def n_disc_def)

lemma begin_effect:
  assumes "cs_flags_ok s" and "counts_ok n s" and "\<not> cs_running s" and "\<not> cs_inStop s"
  shows "cs_flags_ok (cs_begin b d r p (joinNetworkThread s)) \<and>
    counts_ok n (cs_begin b d r p (joinNetworkThread s)) \<and> cs_loop (cs_begin b d r p (joinNetworkThread s))"
proof -
  let ?t = "cs_begin b d r p (joinNetworkThread s)"
  have "n_start ?t = Suc (n_start s)" "n_disc ?t = n_disc s"
    by (simp_all add: cs_begin_def Let_def n_start_def n_disc_def cs_simps)
  moreover have "cs_running ?t" "\<not> cs_stopping ?t" "cs_thread ?t" "cs_loop ?t" "\<not> cs_inStop ?t"
    using assms by (simp_all add: cs_begin_def Let_def cs_simps)
  ultimately show ?thesis using assms by (simp add: cs_flags_ok_def counts_ok_def pending_def)
qed

lemma emit_irrelevant [simp]:
  "cs_flags_ok (cs_emit x s) = cs_flags_ok s"
  "x \<noteq> COnState Connecting \<Longrightarrow> \<not> is_disc x \<Longrightarrow> counts_ok n (cs_emit x s) = counts_ok n s"
  by (simp_all add: cs_flags_ok_def counts_ok_def pending_def cs_simps)

lemma join_effect:
  assumes "cs_flags_ok s" and "counts_ok n s"
  shows "cs_flags_ok (joinNetworkThread s) \<and> counts_ok n (joinNetworkThread s)"
  using assms by (simp add: cs_flags_ok_def counts_ok_def pending_def cs_simps)

lemma flags_io:
  assumes ok: "cs_flags_ok s" "counts_ok n s" and loop: "cs_loop s"
  shows "cs_flags_ok (cs_io e s) \<and> counts_ok (n + (if is_fail e then 1 else 0)) (cs_io e s)"
proof (cases e)
  case (CConnectFailed m)
  have "finishes (s\<lparr>cs_dialing := False\<rparr>) (connect_failed m (s\<lparr>cs_dialing := False\<rparr>))"
    by (simp add: connect_failed_def Let_def)
  then show ?thesis
    using CConnectFailed ok loop flags_fail [of "s\<lparr>cs_dialing := False\<rparr>" n] counts_mono [OF ok(2), of "Suc n"]
    by simp
next
  case (CConnected now conn)
  then show ?thesis using ok loop connected_effect [of "s\<lparr>cs_dialing := False\<rparr>" n] by simp
next
  case (CFrame now ty data)
  then show ?thesis
    using ok flags_effect [OF ok loop frame_effect] not_stopping_effect [of s] by simp
next
  case (CClosed clean m)
  then show ?thesis
    using ok flags_effect [OF ok loop closed_effect] not_stopping_effect [of s] by simp
next
  case (CHeartbeat now)
  then show ?thesis
    using ok flags_effect [OF ok loop heartbeat_effect] not_stopping_effect [of s] by simp
next
  case (CByeTask isOpen)
  then show ?thesis using ok by (simp add: cs_bye_task_def split: option.split)
next
  case (CAppMessage ty payload)
  then show ?thesis using flags_keep [OF ok keeps_handlers(6)] by simp
qed (use ok in simp_all)

lemma flags_start:
  assumes ok: "cs_flags_ok s" "counts_ok n s" and ns: "\<not> cs_inStop s"
  shows "cs_flags_ok (cs_start p s) \<and> counts_ok n (cs_start p s)"
    and "cs_flags_ok (startViaRelay p host port token s) \<and> counts_ok n (startViaRelay p host port token s)"
    and "cs_flags_ok (cs_attachConnection now conn p s) \<and> counts_ok n (cs_attachConnection now conn p s)"
proof -
  note b = begin_effect [OF ok _ ns, where p = p] and j = join_effect [OF ok]
  show "cs_flags_ok (cs_start p s) \<and> counts_ok n (cs_start p s)"
    using b j by (simp add: cs_start_def Let_def cs_simps)
  show "cs_flags_ok (startViaRelay p host port token s) \<and> counts_ok n (startViaRelay p host port token s)"
    using b j by (simp add: startViaRelay_def Let_def cs_simps)
  show "cs_flags_ok (cs_attachConnection now conn p s) \<and> counts_ok n (cs_attachConnection now conn p s)"
  proof (cases "cs_running s")
    case True
    then show ?thesis using j by (simp add: cs_attachConnection_def Let_def cs_simps)
  next
    case False
    from b [OF this, of False False False] have "cs_flags_ok (handleConnected now conn
        (cs_begin False False False p (joinNetworkThread s))) \<and>
      counts_ok n (handleConnected now conn (cs_begin False False False p (joinNetworkThread s)))"
      by (intro connected_effect) simp_all
    with False show ?thesis by (simp add: cs_attachConnection_def Let_def cs_simps)
  qed
qed

lemma flags_stop:
  assumes ok: "cs_flags_ok s" "counts_ok n s"
  shows "\<not> cs_inStop s \<Longrightarrow> cs_flags_ok (cs_stop_begin s) \<and> counts_ok n (cs_stop_begin s)"
    and "cs_inStop s \<Longrightarrow> cs_flags_ok (cs_stop_end s) \<and> counts_ok n (cs_stop_end s)"
proof -
  assume "\<not> cs_inStop s"
  then show "cs_flags_ok (cs_stop_begin s) \<and> counts_ok n (cs_stop_begin s)"
    using ok join_effect [OF ok]
    by (cases "cs_running s")
      (simp_all add: cs_stop_begin_def cs_flags_ok_def counts_ok_def pending_def n_start_def n_disc_def)
next
  assume st: "cs_inStop s"
  have "n_start (cs_stop_end s) = n_start s" "n_disc (cs_stop_end s) = Suc (n_disc s)"
    by (simp_all add: cs_stop_end_def cs_simps n_start_def n_disc_def)
  then show "cs_flags_ok (cs_stop_end s) \<and> counts_ok n (cs_stop_end s)"
    using ok st by (simp add: cs_stop_end_def cs_flags_ok_def counts_ok_def pending_def cs_simps)
qed

lemma flags_handle:
  assumes ok: "cs_flags_ok s" "counts_ok n s"
  shows "cs_flags_ok (cs_handle e s) \<and> counts_ok (n + (if is_fail e then 1 else 0)) (cs_handle e s)"
proof -
  have io: "cs_loop s \<Longrightarrow> cs_flags_ok (cs_io e s)"
    "cs_loop s \<Longrightarrow> counts_ok (n + (if is_fail e then 1 else 0)) (cs_io e s)"
    "counts_ok (n + (if is_fail e then 1 else 0)) s"
    using flags_io [OF ok, of e] counts_mono [OF ok(2), of "n + (if is_fail e then 1 else 0)"]
    by (simp_all del: cs_io.simps)
  show ?thesis
  proof (cases "cs_inStop s")
    case True
    show ?thesis
      by (cases e) (use io ok flags_stop(2) [OF ok True] True in \<open>simp_all del: cs_io.simps\<close>)
  next
    case False
    show ?thesis
    proof (cases e)
      case (CStart p)
      then show ?thesis using flags_start(1) [OF ok False, of p] False by simp
    next
      case (CStartRelay p host port token)
      then show ?thesis using flags_start(2) [OF ok False, of p host port token] False by simp
    next
      case (CAttach now conn p)
      then show ?thesis using flags_start(3) [OF ok False, of now conn p] False by simp
    next
      case CStopBegin
      then show ?thesis using flags_stop(1) [OF ok False] False by simp
    next
      case CStopEnd
      then show ?thesis using ok False by simp
    qed (use io ok False in \<open>simp_all del: cs_io.simps\<close>)
  qed
qed

definition cs_trace_inv :: "cs_event list \<times> ClientSession \<Rightarrow> bool" where
  "cs_trace_inv = (\<lambda>(h, s). cs_flags_ok s \<and> counts_ok (length (filter is_fail h)) s \<and>
     (cs_state s = Connected \<or> cs_state s = Streaming \<longrightarrow> (\<exists>e \<in> set h. accepts_negotiation e)) \<and>
     (\<forall>ty data. COnAppMessage ty data \<in> set (capps s) \<longrightarrow> ty \<ge> 0x0010 \<and>
        (\<exists>now. CFrame now ty data \<in> set h) \<and> (\<exists>e \<in> set h. accepts_negotiation e)))"

definition cs_trace_handle :: "cs_event \<Rightarrow> cs_event list \<times> ClientSession \<Rightarrow> cs_event list \<times> ClientSession" where
  "cs_trace_handle e = (\<lambda>(h, s). (h @ [e], cs_handle e s))"

lemma cs_trace_fold: "fold cs_trace_handle es (h, s) = (h @ es, fold cs_handle es s)"
  by (induction es arbitrary: h s) (simp_all add: cs_trace_handle_def)

lemma cs_trace_inv_step: "cs_trace_inv hs \<Longrightarrow> cs_trace_inv (cs_trace_handle e hs)"
proof -
  assume inv: "cs_trace_inv hs"
  obtain h s where hs: "hs = (h, s)" by (cases hs)
  have st: "cs_state s = Connected \<or> cs_state s = Streaming \<Longrightarrow> \<exists>e \<in> set h. accepts_negotiation e"
    and apps: "\<And>ty data. COnAppMessage ty data \<in> set (capps s) \<Longrightarrow> ty \<ge> 0x0010 \<and>
        (\<exists>now. CFrame now ty data \<in> set h) \<and> (\<exists>e \<in> set h. accepts_negotiation e)"
    using inv by (auto simp: cs_trace_inv_def hs)
  have flags: "cs_flags_ok (cs_handle e s) \<and> counts_ok (length (filter is_fail (h @ [e]))) (cs_handle e s)"
    using inv flags_handle [of s "length (filter is_fail h)" e]
    by (simp add: cs_trace_inv_def hs split: if_splits)
  note mv = moves_handle [of e s, unfolded moves_ok_def]
  have "\<exists>e' \<in> set (h @ [e]). accepts_negotiation e'"
    if "cs_state (cs_handle e s) = Connected \<or> cs_state (cs_handle e s) = Streaming"
    using that mv st by auto
  moreover have "ty \<ge> 0x0010 \<and> (\<exists>now. CFrame now ty data \<in> set (h @ [e])) \<and>
      (\<exists>e' \<in> set (h @ [e]). accepts_negotiation e')"
    if mem: "COnAppMessage ty data \<in> set (capps (cs_handle e s))" for ty data
  proof (cases "COnAppMessage ty data \<in> set (capps s)")
    case True
    then show ?thesis using apps [OF True] by auto
  next
    case False
    then obtain now where "e = CFrame now ty data" "cs_state s = Connected" "ty \<ge> 0x0010"
      using mem mv [THEN conjunct2] by (auto simp del: cs_handle.simps)
    then show ?thesis using st by auto
  qed
  ultimately show ?thesis using flags by (simp add: cs_trace_inv_def cs_trace_handle_def hs)
qed

interpretation cst: event_machine "([], ClientSession_new h)" cs_trace_handle cs_trace_inv
proof unfold_locales
  show "cs_trace_inv ([], ClientSession_new h)"
    by (simp add: cs_trace_inv_def ClientSession_new_def cs_flags_ok_def counts_ok_def pending_def
        n_start_def n_disc_def capps_def ClientStatus_default_def)
qed (rule cs_trace_inv_step)

lemma cs_reachable: "cs_trace_inv (es, fold cs_handle es (ClientSession_new h))"
  using cst.inv_run [of es h] by (simp add: cs_trace_fold)

section \<open>Properties\<close>

text \<open>An application message reaches the application only after the host accepted the negotiation
  on this session object, it has an id of the application range, and it is exactly a frame the host
  sent; a session in state Connected has seen such an acceptance.\<close>

theorem client_connected_by_negotiation:
  fixes es handler
  defines "s \<equiv> fold cs_handle es (ClientSession_new handler)"
  shows "(cst_state (cs_status s) = Connected \<longrightarrow> (\<exists>e \<in> set es. accepts_negotiation e)) \<and>
    (COnAppMessage ty data \<in> set (cs_out s) \<longrightarrow> ty \<ge> 0x0010 \<and>
       (\<exists>now. CFrame now ty data \<in> set es) \<and> (\<exists>e \<in> set es. accepts_negotiation e))"
proof -
  have "COnAppMessage ty data \<in> set (cs_out s) \<Longrightarrow> COnAppMessage ty data \<in> set (capps s)"
    by (simp add: capps_def)
  then show ?thesis using cs_reachable [of es handler] by (auto simp: cs_trace_inv_def s_def)
qed

definition demo_negotiation :: bytes where
  "demo_negotiation = encodeMessage \<lparr>etype = NegotiationResult,
     ebody = MNegotiationResult True 0 1280 720 60 8000 ''H.264''\<rparr>"

definition demo_client_run :: "cs_event list" where
  "demo_client_run = [CStart ClientSessionParams_default, CConnected 5 3,
     CFrame 6 0x0006 demo_negotiation, CFrame 7 0x0012 []]"

lemma demo_client_state:
  "last (cs_out (fold cs_handle demo_client_run (ClientSession_new True))) = COnAppMessage 0x0012 []"
  "cs_out (fold cs_handle demo_client_run (ClientSession_new True)) \<noteq> []"
  by code_simp+

theorem client_connected_by_negotiation_witness:
  "COnAppMessage 0x0012 [] \<in> set (cs_out (fold cs_handle demo_client_run (ClientSession_new True))) \<and>
   (\<exists>now. CFrame now 0x0012 [] \<in> set demo_client_run) \<and> (\<exists>e \<in> set demo_client_run. accepts_negotiation e)"
proof -
  have "COnAppMessage 0x0012 [] \<in> set (cs_out (fold cs_handle demo_client_run (ClientSession_new True)))"
    using last_in_set [OF demo_client_state(2)] demo_client_state(1) by simp
  then show ?thesis
    using client_connected_by_negotiation [of demo_client_run True "0x0012" "[]"] by blast
qed

text \<open>Every session that was started and is over was reported as disconnected, and no session is
  reported twice unless its connect attempt failed while it was being stopped: with \<open>n\<close> starts, \<open>d\<close>
  reports and \<open>f\<close> failed connect attempts, \<open>n \<le> d \<le> n + f\<close> when the object is idle, and exactly one
  report is missing while a session runs or is being stopped and no attempt failed.\<close>

theorem client_disconnect_reported:
  fixes es handler
  defines "s \<equiv> fold cs_handle es (ClientSession_new handler)"
  shows "(\<not> cs_running s \<and> \<not> cs_inStop s \<longrightarrow>
      n_start s \<le> n_disc s \<and> n_disc s \<le> n_start s + length (filter is_fail es)) \<and>
    (cs_running s \<or> cs_inStop s \<longrightarrow>
      n_start s \<le> Suc (n_disc s) \<and> n_disc s < n_start s + length (filter is_fail es))"
  using cs_reachable [of es handler] by (auto simp: cs_trace_inv_def s_def counts_ok_def pending_def)

theorem client_disconnect_reported_witness:
  "let s = fold cs_handle (demo_client_run @ [CClosed True []]) (ClientSession_new True)
   in n_start s \<le> n_disc s \<and> n_disc s \<le> n_start s + 0"
proof -
  let ?s = "fold cs_handle (demo_client_run @ [CClosed True []]) (ClientSession_new True)"
  have "\<not> cs_running ?s" "\<not> cs_inStop ?s" by code_simp+
  moreover have "filter is_fail (demo_client_run @ [CClosed True []]) = []"
    by (simp add: demo_client_run_def)
  ultimately show ?thesis
    using client_disconnect_reported [of "demo_client_run @ [CClosed True []]" True] unfolding Let_def
    by (metis list.size(3))
qed

text \<open>C31: \<^verbatim>\<open>start\<close> on a running session is not without effect: it joins the network thread and drops the
  connection first and only then notices that the session runs. The session stays marked as running
  in its old state, without a loop, a connection or a report, until it is stopped.\<close>

theorem client_start_while_running:
  assumes "cs_running s" and "\<not> cs_inStop s"
  shows "cs_handle (CStart p) s = s\<lparr>cs_thread := False, cs_loop := False, cs_connection := None\<rparr> \<and>
    cs_handle (CFrame now ty data) (cs_handle (CStart p) s) = cs_handle (CStart p) s \<and>
    cs_handle (CHeartbeat now) (cs_handle (CStart p) s) = cs_handle (CStart p) s"
  using assms by (simp add: cs_start_def joinNetworkThread_def)

theorem client_start_while_running_witness:
  "let s = fold cs_handle demo_client_run (ClientSession_new True) in
   cs_state (cs_handle (CStart ClientSessionParams_default) s) = Connected \<and>
   cs_connection (cs_handle (CStart ClientSessionParams_default) s) = None"
proof -
  let ?s = "fold cs_handle demo_client_run (ClientSession_new True)"
  have "cs_running ?s" "\<not> cs_inStop ?s" "cs_state ?s = Connected" by code_simp+
  then show ?thesis using client_start_while_running [of ?s ClientSessionParams_default] by simp
qed

text \<open>A connect attempt that fails while the session is being stopped is reported a second time.\<close>

lemma client_double_report:
  "n_disc (fold cs_handle [CStart ClientSessionParams_default, CStopBegin, CConnectFailed ''timed out'', CStopEnd]
     (ClientSession_new True)) = 2"
  by code_simp

end
