(* ===== verification/HostApp.thy ===== *)
theory HostApp
  imports Config HostSession ClientSession
begin

text \<open>
  \<^verbatim>\<open>host/HostApp\<close> and \<^verbatim>\<open>client/ClientApp\<close>: the facades between the user interface and the sessions. A
  facade owns at most one session. The forwarders post a task to the network thread of the session,
  if there is one: they return the posted events, which \<open>ha_io\<close> runs.

  The theorem: launch settings made from a loaded configuration are in range, whatever the file.
\<close>

section \<open>HostApp\<close>

record HostLaunchSettings =
  hl_hostName :: string
  hl_gameName :: string
  hl_captureMode :: CaptureMode
  hl_resolution :: Resolution
  hl_fps :: u32
  hl_bitrateKbps :: u32
  hl_codec :: VideoCodec
  hl_listenPort :: u16
  hl_requireApproval :: bool
  hl_inputDefaults :: InputPermissions
  hl_maxClients :: nat
  hl_outputIndex :: int
  hl_windowHwnd :: nat
  hl_audioEnabled :: bool
  hl_audioBitrateKbps :: int

definition HostLaunchSettings_default :: HostLaunchSettings where
  "HostLaunchSettings_default = \<lparr>hl_hostName = ''Host'', hl_gameName = [], hl_captureMode = CaptureMode_Window,
     hl_resolution = \<lparr>res_width = 1920, res_height = 1080\<rparr>, hl_fps = 60, hl_bitrateKbps = 8000, hl_codec = H264,
     hl_listenPort = kDefaultListenPort, hl_requireApproval = True, hl_inputDefaults = InputPermissions_default,
     hl_maxClients = kMaxClients, hl_outputIndex = 0, hl_windowHwnd = 0, hl_audioEnabled = True,
     hl_audioBitrateKbps = 128\<rparr>"

definition settingsFromConfig :: "Config \<Rightarrow> HostLaunchSettings" where
  "settingsFromConfig cfg =
     (let rate = word_of_int (vs_bitrateMbps (cfg_video cfg)) * 1000;
          rate = min rate (word_of_int (nw_maxBitrateMbps (cfg_network cfg)) * 1000);
          i = cfg_input cfg
      in HostLaunchSettings_default\<lparr>hl_captureMode := CaptureMode_Window,
        hl_resolution := vs_resolution (cfg_video cfg), hl_fps := word_of_int (vs_fps (cfg_video cfg)),
        hl_bitrateKbps := rate, hl_codec := vs_codec (cfg_video cfg),
        hl_listenPort := word_of_int (nw_listenPort (cfg_network cfg)),
        hl_requireApproval := in_requireHostApproval i,
        hl_inputDefaults := \<lparr>perm_controller = in_controller i, perm_keyboard = in_keyboard i,
          perm_mouse = in_mouse i, perm_vibration = in_vibration i\<rparr>,
        hl_maxClients := kMaxClients\<rparr>)"

record HostApp =
  ha_session :: "HostSession option"
  ha_current :: HostLaunchSettings

definition HostApp_new :: HostApp where
  "HostApp_new = \<lparr>ha_session = None, ha_current = HostLaunchSettings_default\<rparr>"

definition hostDisplayName :: "string \<Rightarrow> string" where
  "hostDisplayName user = (if user \<noteq> [] then user @ [CHR 0x27] @ ''s PC'' else ''Host PC'')"

definition session_params :: "string \<Rightarrow> HostLaunchSettings \<Rightarrow> HostSessionParams" where
  "session_params user l = \<lparr>hp_hostName = hostDisplayName user, hp_gameName = hl_gameName l,
     hp_captureMode = hl_captureMode l, hp_resolution = hl_resolution l, hp_fps = hl_fps l,
     hp_bitrateKbps = hl_bitrateKbps l, hp_preferredCodec = hl_codec l, hp_listenPort = hl_listenPort l,
     hp_autoApprove = (\<not> hl_requireApproval l), hp_inputDefaults = hl_inputDefaults l,
     hp_maxClients = hl_maxClients l\<rparr>"

definition ha_stop :: "HostApp \<Rightarrow> HostApp" where
  "ha_stop a = a\<lparr>ha_session := None\<rparr>"

text \<open>\<open>user\<close>: the name of the operating system's user; \<open>rnd\<close>, \<open>listen\<close>: as for the session.\<close>

definition ha_start ::
  "string \<Rightarrow> (nat \<Rightarrow> u32) \<Rightarrow> (u16 \<Rightarrow> u16 option) \<Rightarrow> HostLaunchSettings \<Rightarrow> HostApp \<Rightarrow> HostApp \<times> bool" where
  "ha_start user rnd listen settings a =
     (let a = ha_stop a; (s, ok) = hs_start rnd listen (session_params user settings) (HostSession_new True)
      in if \<not> ok then (a, False)
         else (a\<lparr>ha_current := settings, ha_session := Some s\<rparr>, True))"

definition hosting :: "HostApp \<Rightarrow> bool" where
  "hosting a = (case ha_session a of None \<Rightarrow> False | Some s \<Rightarrow> hs_running s)"

definition ha_sessionCode :: "HostApp \<Rightarrow> string" where
  "ha_sessionCode a = (case ha_session a of None \<Rightarrow> [] | Some s \<Rightarrow> hs_sessionCode s)"

definition ha_port :: "HostApp \<Rightarrow> u16" where
  "ha_port a = (case ha_session a of None \<Rightarrow> 0 | Some s \<Rightarrow> hs_actualPort s)"

definition ha_clients :: "HostApp \<Rightarrow> ClientRow list" where
  "ha_clients a = (case ha_session a of None \<Rightarrow> [] | Some s \<Rightarrow> hs_snapshot s)"

definition ha_post :: "hs_event \<Rightarrow> HostApp \<Rightarrow> hs_event list" where
  "ha_post e a = (case ha_session a of None \<Rightarrow> [] | Some s \<Rightarrow> [e])"

definition ha_sendAppMessage :: "u32 \<Rightarrow> u16 \<Rightarrow> bytes \<Rightarrow> HostApp \<Rightarrow> hs_event list" where
  "ha_sendAppMessage cid ty payload = ha_post (HAppMessage cid ty payload)"

definition ha_connectRelayClient :: "nat \<Rightarrow> string \<Rightarrow> u16 \<Rightarrow> string \<Rightarrow> HostApp \<Rightarrow> hs_event list" where
  "ha_connectRelayClient dialer serverHost relayTcpPort token = ha_post (HDialRelay dialer serverHost relayTcpPort token)"

definition ha_approve :: "int \<Rightarrow> u32 \<Rightarrow> bool \<Rightarrow> HostApp \<Rightarrow> hs_event list" where
  "ha_approve now cid accept = ha_post (HApprove now cid accept)"

definition ha_kick :: "u32 \<Rightarrow> HostApp \<Rightarrow> hs_event list" where
  "ha_kick cid = ha_post (HKick cid ''Kicked by host'')"

definition ha_setClientInputEnabled :: "u32 \<Rightarrow> bool \<Rightarrow> HostApp \<Rightarrow> hs_event list" where
  "ha_setClientInputEnabled cid enabled = ha_post (HSetInput cid enabled)"

definition ha_io :: "hs_event \<Rightarrow> HostApp \<Rightarrow> HostApp" where
  "ha_io e a = a\<lparr>ha_session := map_option (hs_handle e) (ha_session a)\<rparr>"

section \<open>ClientApp\<close>

record JoinSettings =
  jo_displayName :: string
  jo_sessionCode :: string
  jo_hostAddress :: string
  jo_hostPort :: u16
  jo_connectTimeoutMs :: u32

record ClientApp =
  ca_session :: "ClientSession option"

definition ClientApp_new :: ClientApp where
  "ClientApp_new = \<lparr>ca_session = None\<rparr>"

definition join_params :: "JoinSettings \<Rightarrow> ClientSessionParams" where
  "join_params j = ClientSessionParams_default\<lparr>
     cp_clientName := (if jo_displayName j = [] then ''Player'' else jo_displayName j),
     cp_sessionCode := jo_sessionCode j, cp_hostAddress := jo_hostAddress j, cp_hostPort := jo_hostPort j,
     cp_connectTimeoutMs := jo_connectTimeoutMs j, cp_supportedCodecs := [H264]\<rparr>"

definition ca_disconnect :: "ClientApp \<Rightarrow> ClientApp" where
  "ca_disconnect a = a\<lparr>ca_session := None\<rparr>"

definition ca_connect :: "JoinSettings \<Rightarrow> ClientApp \<Rightarrow> ClientApp" where
  "ca_connect j a = (ca_disconnect a)\<lparr>ca_session := Some (cs_start (join_params j) (ClientSession_new True))\<rparr>"

definition ca_sendAppMessage :: "u16 \<Rightarrow> bytes \<Rightarrow> ClientApp \<Rightarrow> (u16 \<times> bytes) list" where
  "ca_sendAppMessage ty payload a = (case ca_session a of None \<Rightarrow> [] | Some s \<Rightarrow> [(ty, payload)])"

definition ca_startViaRelay :: "ClientSessionParams \<Rightarrow> string \<Rightarrow> u16 \<Rightarrow> string \<Rightarrow> ClientApp \<Rightarrow> ClientApp" where
  "ca_startViaRelay p serverHost relayTcpPort token a =
     a\<lparr>ca_session := map_option (startViaRelay p serverHost relayTcpPort token) (ca_session a)\<rparr>"

definition ca_status :: "ClientApp \<Rightarrow> ClientStatus" where
  "ca_status a = (case ca_session a of None \<Rightarrow> ClientStatus_default | Some s \<Rightarrow> cs_status s)"

section \<open>Properties\<close>

lemma rate_word:
  assumes "2 \<le> m" and "m \<le> 50"
  shows "unat (word_of_int m * 1000 :: u32) = nat m * 1000"
proof -
  have "unat (word_of_int m :: u32) = nat m" using assms by (simp add: unat_eq_nat_uint uint_word_of_int)
  moreover have "nat m \<le> 50" using assms by simp
  ultimately show ?thesis by (simp add: unat_word_ariths)
qed

text \<open>Launch settings made from whatever configuration \<^verbatim>\<open>load\<close> returned: the bitrate is the smaller of
  the video rate and the network cap in kbit/s, between 2000 and 50000, without wrap-around; the frame
  rate is a preset, the port is the configured one and not 0, and the resolution is in range.\<close>

theorem launch_settings_in_range:
  assumes "config_load J file = Some c"
  shows "let l = settingsFromConfig c
   in unat (hl_bitrateKbps l) = nat (min (vs_bitrateMbps (cfg_video c)) (nw_maxBitrateMbps (cfg_network c))) * 1000 \<and>
      2000 \<le> unat (hl_bitrateKbps l) \<and> unat (hl_bitrateKbps l) \<le> 50000 \<and>
      unat (hl_fps l) \<in> {30, 60, 120} \<and> uint (hl_listenPort l) = nw_listenPort (cfg_network c) \<and>
      hl_listenPort l \<noteq> 0 \<and> res_in_range (hl_resolution l)"
proof -
  have ok: "config_ok c" by (rule config_load_ok [OF assms])
  let ?a = "vs_bitrateMbps (cfg_video c)" and ?b = "nw_maxBitrateMbps (cfg_network c)"
  have a: "2 \<le> ?a" "?a \<le> 50" and b: "2 \<le> ?b" "?b \<le> 50" using ok by (auto simp: config_ok_def)
  have r: "unat (min (word_of_int ?a * 1000) (word_of_int ?b * 1000) :: u32) = nat (min ?a ?b) * 1000"
    using rate_word [OF a] rate_word [OF b] by (auto simp: min_def word_le_nat_alt)
  have f: "unat (word_of_int (vs_fps (cfg_video c)) :: u32) \<in> {30, 60, 120}" using ok by (auto simp: config_ok_def)
  have p: "1 \<le> nw_listenPort (cfg_network c)" "nw_listenPort (cfg_network c) \<le> 65535"
    using ok by (auto simp: config_ok_def)
  have pu: "uint (word_of_int (nw_listenPort (cfg_network c)) :: u16) = nw_listenPort (cfg_network c)"
    using p by (simp add: uint_word_of_int)
  then have p0: "(word_of_int (nw_listenPort (cfg_network c)) :: u16) \<noteq> 0" using p by auto
  define m where "m = nat (min ?a ?b)"
  have m: "2000 \<le> m * 1000" "m * 1000 \<le> 50000" using a b by (simp_all add: m_def)
  have res: "res_in_range (vs_resolution (cfg_video c))" using ok by (simp add: config_ok_def)
  have l: "hl_bitrateKbps (settingsFromConfig c) = min (word_of_int ?a * 1000) (word_of_int ?b * 1000)"
    "hl_fps (settingsFromConfig c) = word_of_int (vs_fps (cfg_video c))"
    "hl_listenPort (settingsFromConfig c) = word_of_int (nw_listenPort (cfg_network c))"
    "hl_resolution (settingsFromConfig c) = vs_resolution (cfg_video c)"
    by (simp_all add: settingsFromConfig_def Let_def)
  show ?thesis
    unfolding Let_def l r m_def [symmetric] using m f pu p0 res by blast
qed

text \<open>The host name of the settings is not used: the session takes the name of the user.\<close>

lemma host_name_ignored: "session_params user (l\<lparr>hl_hostName := n\<rparr>) = session_params user l"
  by (simp add: session_params_def)

text \<open>Joining through the relay needs a session, and only \<^verbatim>\<open>connect\<close> makes one: on a fresh facade
  \<^verbatim>\<open>startViaRelay\<close> does nothing.\<close>

lemma relay_needs_session: "ca_startViaRelay p h port token ClientApp_new = ClientApp_new"
  by (simp add: ca_startViaRelay_def ClientApp_new_def)

end
