(* ===== verification/InputProtocol.thy ===== *)
theory InputProtocol
  imports RP_Prelude
begin

text \<open>
  \<^verbatim>\<open>input/InputProtocol.h\<close>: the packed structs of input datagrams and of the rumble command. A
  \<^verbatim>\<open>memcpy\<close> of a packed struct is the concatenation of its fields, little-endian. Signed 16-bit
  fields are kept as their 16-bit pattern. The theorem is that unpacking accepts exactly the two
  packed forms and gives the packed value back.
\<close>

section \<open>Structs\<close>

definition BtnA :: u16 where "BtnA = push_bit 0 1"
definition BtnB :: u16 where "BtnB = push_bit 1 1"
definition BtnX :: u16 where "BtnX = push_bit 2 1"
definition BtnY :: u16 where "BtnY = push_bit 3 1"
definition DUp :: u16 where "DUp = push_bit 11 1"
definition DDown :: u16 where "DDown = push_bit 12 1"
definition DLeft :: u16 where "DLeft = push_bit 13 1"
definition DRight :: u16 where "DRight = push_bit 14 1"

record GameControllerState =
  gc_version :: u8
  gc_connected :: u8
  gc_buttons :: u16
  gc_leftTrigger :: u8
  gc_rightTrigger :: u8
  gc_thumbLX :: u16
  gc_thumbLY :: u16
  gc_thumbRX :: u16
  gc_thumbRY :: u16
  gc_timestampNs :: u64

definition GameControllerState_default :: GameControllerState where
  "GameControllerState_default = \<lparr>gc_version = 1, gc_connected = 0, gc_buttons = 0,
     gc_leftTrigger = 0, gc_rightTrigger = 0, gc_thumbLX = 0, gc_thumbLY = 0, gc_thumbRX = 0,
     gc_thumbRY = 0, gc_timestampNs = 0\<rparr>"

text \<open>\<^verbatim>\<open>enum class InputEventType : uint8_t\<close>; the wire field holds any byte.\<close>

definition KeyDown :: u8 where "KeyDown = 1"
definition KeyUp :: u8 where "KeyUp = 2"
definition MouseMove :: u8 where "MouseMove = 3"
definition MouseButtonDown :: u8 where "MouseButtonDown = 4"
definition MouseButtonUp :: u8 where "MouseButtonUp = 5"
definition MouseWheel :: u8 where "MouseWheel = 6"

lemmas input_event_types = KeyDown_def KeyUp_def MouseMove_def MouseButtonDown_def
  MouseButtonUp_def MouseWheel_def

record InputEvent =
  ie_type :: u8
  ie_code :: u8
  ie_x :: u16
  ie_y :: u16
  ie_delta :: u16
  ie_pad0 :: u8
  ie_flags :: u8
  ie_timestampNs :: u64

definition InputEvent_default :: InputEvent where
  "InputEvent_default = \<lparr>ie_type = 0, ie_code = 0, ie_x = 0, ie_y = 0, ie_delta = 0, ie_pad0 = 0,
     ie_flags = 0, ie_timestampNs = 0\<rparr>"

record RumbleCommand =
  rc_tag :: u8
  rc_leftMotor :: u8
  rc_rightMotor :: u8
  rc_playerIndex :: u8

definition kControllerStateSize :: nat where "kControllerStateSize = 22"
definition kInputEventSize :: nat where "kInputEventSize = 18"

section \<open>Object representations\<close>

definition controller_bytes :: "GameControllerState \<Rightarrow> bytes" where
  "controller_bytes s = [gc_version s, gc_connected s] @ le_put 2 (gc_buttons s) @
     [gc_leftTrigger s, gc_rightTrigger s] @ le_put 2 (gc_thumbLX s) @ le_put 2 (gc_thumbLY s) @
     le_put 2 (gc_thumbRX s) @ le_put 2 (gc_thumbRY s) @ le_put 8 (gc_timestampNs s)"

definition controller_of_bytes :: "bytes \<Rightarrow> GameControllerState" where
  "controller_of_bytes b = \<lparr>gc_version = b ! 0, gc_connected = b ! 1, gc_buttons = le_get 2 (drop 2 b),
     gc_leftTrigger = b ! 4, gc_rightTrigger = b ! 5, gc_thumbLX = le_get 2 (drop 6 b),
     gc_thumbLY = le_get 2 (drop 8 b), gc_thumbRX = le_get 2 (drop 10 b),
     gc_thumbRY = le_get 2 (drop 12 b), gc_timestampNs = le_get 8 (drop 14 b)\<rparr>"

definition event_bytes :: "InputEvent \<Rightarrow> bytes" where
  "event_bytes e = [ie_type e, ie_code e] @ le_put 2 (ie_x e) @ le_put 2 (ie_y e) @
     le_put 2 (ie_delta e) @ [ie_pad0 e, ie_flags e] @ le_put 8 (ie_timestampNs e)"

definition event_of_bytes :: "bytes \<Rightarrow> InputEvent" where
  "event_of_bytes b = \<lparr>ie_type = b ! 0, ie_code = b ! 1, ie_x = le_get 2 (drop 2 b),
     ie_y = le_get 2 (drop 4 b), ie_delta = le_get 2 (drop 6 b), ie_pad0 = b ! 8, ie_flags = b ! 9,
     ie_timestampNs = le_get 8 (drop 10 b)\<rparr>"

section \<open>Packing and unpacking\<close>

definition packControllerState :: "GameControllerState \<Rightarrow> bytes" where
  "packControllerState s = 0 # controller_bytes s"

definition packInputEvent :: "InputEvent \<Rightarrow> bytes" where
  "packInputEvent e = 1 # event_bytes e"

datatype unpacked = Controller GameControllerState | Event InputEvent

definition unpackInput :: "bytes \<Rightarrow> unpacked option" where
  "unpackInput data =
     (if length data < 1 then None
      else if data ! 0 = 0 \<and> length data = 1 + kControllerStateSize
      then Some (Controller (controller_of_bytes (drop 1 data)))
      else if data ! 0 = 1 \<and> length data = 1 + kInputEventSize
      then Some (Event (event_of_bytes (drop 1 data)))
      else None)"

definition rumble_bytes :: "RumbleCommand \<Rightarrow> bytes" where
  "rumble_bytes r = [rc_tag r, rc_leftMotor r, rc_rightMotor r, rc_playerIndex r]"

definition rumble_of_bytes :: "bytes \<Rightarrow> RumbleCommand" where
  "rumble_of_bytes b = \<lparr>rc_tag = b ! 0, rc_leftMotor = b ! 1, rc_rightMotor = b ! 2, rc_playerIndex = b ! 3\<rparr>"

section \<open>Round trips\<close>

lemma length_input_bytes [simp, wire_simps]:
  "length (controller_bytes s) = kControllerStateSize" "length (event_bytes e) = kInputEventSize"
  by (simp_all add: controller_bytes_def event_bytes_def kControllerStateSize_def kInputEventSize_def)

lemma controller_of_controller_bytes [simp, wire_simps]: "controller_of_bytes (controller_bytes s) = s"
  by (simp add: controller_of_bytes_def controller_bytes_def nth_append)

lemma event_of_event_bytes [simp, wire_simps]: "event_of_bytes (event_bytes e) = e"
  by (simp add: event_of_bytes_def event_bytes_def nth_append)

lemma rumble_of_rumble_bytes [simp, wire_simps]: "rumble_of_bytes (rumble_bytes r @ rest) = r"
  by (simp add: rumble_of_bytes_def rumble_bytes_def)

text \<open>A fixed-length byte string is the concatenation of its slices.\<close>

lemma slice_le: "length b \<ge> i + n \<Longrightarrow> 8 * n = LENGTH('a) \<Longrightarrow>
    le_put n (le_get n (drop i b) :: 'a::len word) = take n (drop i b)"
  using le_put_get [of "take n (drop i b)" n, where 'a = 'a] le_get_take [of n "drop i b", where 'a = 'a]
  by simp

lemma controller_bytes_of [simp, wire_simps]:
  assumes "length b = kControllerStateSize"
  shows "controller_bytes (controller_of_bytes b) = b"
proof -
  have l: "length b = 22" using assms by (simp add: kControllerStateSize_def)
  have "controller_bytes (controller_of_bytes b) =
    [b ! 0] @ [b ! 1] @ take 2 (drop 2 b) @ [b ! 4] @ [b ! 5] @ take 2 (drop 6 b) @ take 2 (drop 8 b) @
    take 2 (drop 10 b) @ take 2 (drop 12 b) @ take 8 (drop 14 b)"
    using l by (simp add: controller_bytes_def controller_of_bytes_def slice_le)
  also have "\<dots> = b"
    using l by (auto intro!: nth_equalityI simp: nth_append nth_Cons' less_Suc_eq numeral_eq_Suc)
  finally show ?thesis .
qed

lemma event_bytes_of [simp, wire_simps]:
  assumes "length b = kInputEventSize"
  shows "event_bytes (event_of_bytes b) = b"
proof -
  have l: "length b = 18" using assms by (simp add: kInputEventSize_def)
  have "event_bytes (event_of_bytes b) =
    [b ! 0] @ [b ! 1] @ take 2 (drop 2 b) @ take 2 (drop 4 b) @ take 2 (drop 6 b) @ [b ! 8] @ [b ! 9] @
    take 8 (drop 10 b)"
    using l by (simp add: event_bytes_def event_of_bytes_def slice_le)
  also have "\<dots> = b"
    using l by (auto intro!: nth_equalityI simp: nth_append nth_Cons' less_Suc_eq numeral_eq_Suc)
  finally show ?thesis .
qed

lemma unpack_pack [simp, wire_simps]:
  "unpackInput (packControllerState s) = Some (Controller s)"
  "unpackInput (packInputEvent e) = Some (Event e)"
  by (simp_all add: unpackInput_def packControllerState_def packInputEvent_def)

lemma unpack_SomeD:
  assumes "unpackInput data = Some u"
  shows "data = (case u of Controller s \<Rightarrow> packControllerState s | Event e \<Rightarrow> packInputEvent e)"
proof -
  have "data \<noteq> []" using assms by (auto simp: unpackInput_def)
  then obtain k rest where d: "data = k # rest" by (cases data) auto
  show ?thesis
    using assms
    by (auto simp: unpackInput_def d packControllerState_def packInputEvent_def split: if_splits)
qed

text \<open>C26: \<open>unpackInput\<close> accepts exactly the packed controller states and the packed input events and
  returns the value that was packed; anything else, of whatever length, is refused.\<close>

theorem unpackInput_iff:
  "unpackInput data = Some u \<longleftrightarrow>
     data = (case u of Controller s \<Rightarrow> packControllerState s | Event e \<Rightarrow> packInputEvent e)"
  using unpack_SomeD [of data u] by (cases u) auto

end
