(* ===== verification/VirtualGamepad.thy ===== *)
theory VirtualGamepad
  imports InputProtocol
begin

text \<open>
  \<^verbatim>\<open>input/VirtualGamepad.h\<close> and \<^verbatim>\<open>input/VirtualGamepad.cpp\<close>: the virtual Xbox pads the host plugs in
  through the ViGEm client library. What the library returns is an argument of the operation that
  calls it; the calls themselves are appended to \<open>vg_calls\<close>. Targets are handles.
\<close>

record XUsbReport =
  xr_wButtons :: u16
  xr_bLeftTrigger :: u8
  xr_bRightTrigger :: u8
  xr_sThumbLX :: u16
  xr_sThumbLY :: u16
  xr_sThumbRX :: u16
  xr_sThumbRY :: u16

datatype vigem_call =
    VTargetAdd nat
  | VTargetFree nat
  | VTargetRemove nat
  | VRegister nat
  | VUnregister nat
  | VUpdate nat XUsbReport
  | VDisconnect
  | VFreeClient
  | VFreeLibrary

text \<open>Which of the optional exports of the library were found.\<close>

record vigem_exports =
  ve_target_free :: bool
  ve_register :: bool
  ve_unregister :: bool
  ve_disconnect :: bool

record VirtualGamepad =
  vg_dll :: bool
  vg_client :: bool
  vg_exports :: vigem_exports
  vg_pads :: "(u8 \<times> nat) list"
  vg_status :: string
  vg_calls :: "vigem_call list"

definition VirtualGamepad_new :: VirtualGamepad where
  "VirtualGamepad_new = \<lparr>vg_dll = False, vg_client = False,
     vg_exports = \<lparr>ve_target_free = False, ve_register = False, ve_unregister = False, ve_disconnect = False\<rparr>,
     vg_pads = [], vg_status = [], vg_calls = []\<rparr>"

definition vg_call :: "vigem_call list \<Rightarrow> VirtualGamepad \<Rightarrow> VirtualGamepad" where
  "vg_call cs g = g\<lparr>vg_calls := vg_calls g @ cs\<rparr>"

text \<open>\<open>loaded\<close>: the library and the mandatory exports; \<open>alloc\<close>, \<open>rc\<close>: the results of \<^verbatim>\<open>vigem_alloc\<close> and
  \<^verbatim>\<open>vigem_connect\<close>.\<close>

definition vg_init ::
  "bool \<Rightarrow> bool \<Rightarrow> vigem_exports \<Rightarrow> bool \<Rightarrow> int \<Rightarrow> string \<Rightarrow> VirtualGamepad \<Rightarrow> VirtualGamepad \<times> bool" where
  "vg_init dll mandatory ex alloc rc rcText g =
     (if \<not> dll
      then (g\<lparr>vg_status := ''vigemClient.dll not found (install ViGEmBus driver)''\<rparr>, False)
      else
        let g = g\<lparr>vg_dll := True, vg_exports := ex\<rparr> in
        if \<not> mandatory
        then (g\<lparr>vg_status := ''vigemClient.dll found but exports missing (wrong version?)''\<rparr>, False)
        else if \<not> alloc then (g\<lparr>vg_client := False, vg_status := ''vigem_alloc failed''\<rparr>, False)
        else if rc \<noteq> 0
        then (vg_call [VFreeClient] (g\<lparr>vg_client := False, vg_status :=
               ''vigem_connect failed (ViGEmBus driver not installed?) error='' @ rcText\<rparr>), False)
        else (g\<lparr>vg_client := True, vg_status := ''ViGEm ready''\<rparr>, True))"

definition unplug_calls :: "VirtualGamepad \<Rightarrow> nat \<Rightarrow> vigem_call list" where
  "unplug_calls g t =
     (if ve_unregister (vg_exports g) then [VUnregister t] else []) @
     (if vg_client g then [VTargetRemove t] else []) @
     (if ve_target_free (vg_exports g) then [VTargetFree t] else [])"

definition vg_shutdown :: "VirtualGamepad \<Rightarrow> VirtualGamepad" where
  "vg_shutdown g =
     (let g = vg_call (concat (map (\<lambda>(p, t). unplug_calls g t) (vg_pads g))) g;
          g = g\<lparr>vg_pads := []\<rparr>;
          g = (if vg_client g
               then (vg_call ((if ve_disconnect (vg_exports g) then [VDisconnect] else []) @ [VFreeClient]) g)
                      \<lparr>vg_client := False\<rparr>
               else g)
      in if vg_dll g then (vg_call [VFreeLibrary] g)\<lparr>vg_dll := False\<rparr> else g)"

definition hasPlayer :: "u8 \<Rightarrow> VirtualGamepad \<Rightarrow> bool" where
  "hasPlayer p g \<longleftrightarrow> list_ex (\<lambda>pad. fst pad = p) (vg_pads g)"

text \<open>\<open>alloc\<close>, \<open>rc\<close>: the results of \<^verbatim>\<open>vigem_target_x360_alloc\<close> and \<^verbatim>\<open>vigem_target_add\<close>.\<close>

definition addPlayer :: "nat option \<Rightarrow> int \<Rightarrow> u8 \<Rightarrow> VirtualGamepad \<Rightarrow> VirtualGamepad \<times> bool" where
  "addPlayer alloc rc p g =
     (if \<not> vg_client g then (g, False)
      else if hasPlayer p g then (g, True)
      else if length (vg_pads g) \<ge> 4 then (g, False)
      else case alloc of
        None \<Rightarrow> (g, False)
      | Some t \<Rightarrow>
          let g = vg_call [VTargetAdd t] g in
          if rc \<noteq> 0 then (vg_call (if ve_target_free (vg_exports g) then [VTargetFree t] else []) g, False)
          else ((vg_call (if ve_register (vg_exports g) then [VRegister t] else []) g)
                  \<lparr>vg_pads := vg_pads g @ [(p, t)]\<rparr>, True))"

fun drop_pad :: "u8 \<Rightarrow> (u8 \<times> nat) list \<Rightarrow> (u8 \<times> nat) list \<times> nat option" where
  "drop_pad p [] = ([], None)"
| "drop_pad p ((q, t) # pads) =
     (if q = p then (pads, Some t) else let (rest, r) = drop_pad p pads in ((q, t) # rest, r))"

definition removePlayer :: "u8 \<Rightarrow> VirtualGamepad \<Rightarrow> VirtualGamepad" where
  "removePlayer p g =
     (case drop_pad p (vg_pads g) of
        (pads, None) \<Rightarrow> g
      | (pads, Some t) \<Rightarrow> (vg_call (unplug_calls g t) g)\<lparr>vg_pads := pads\<rparr>)"

definition report_of :: "GameControllerState \<Rightarrow> XUsbReport" where
  "report_of s = \<lparr>xr_wButtons = gc_buttons s, xr_bLeftTrigger = gc_leftTrigger s,
     xr_bRightTrigger = gc_rightTrigger s, xr_sThumbLX = gc_thumbLX s, xr_sThumbLY = gc_thumbLY s,
     xr_sThumbRX = gc_thumbRX s, xr_sThumbRY = gc_thumbRY s\<rparr>"

text \<open>\<open>rc\<close>: the result of \<^verbatim>\<open>vigem_target_x360_update\<close>.\<close>

definition vg_update :: "int \<Rightarrow> u8 \<Rightarrow> GameControllerState \<Rightarrow> VirtualGamepad \<Rightarrow> VirtualGamepad \<times> bool" where
  "vg_update rc p s g =
     (case map_of (vg_pads g) p of
        None \<Rightarrow> (g, False)
      | Some t \<Rightarrow>
          if \<not> vg_client g then (g, False)
          else (vg_call [VUpdate t (report_of s)] g, rc = 0))"

text \<open>The player whose pad is the target of a vibration notification.\<close>

definition handleVibration :: "nat \<Rightarrow> VirtualGamepad \<Rightarrow> u8 option" where
  "handleVibration target g = map_option fst (find (\<lambda>pad. snd pad = target) (vg_pads g))"

section \<open>At most four pads, one per player\<close>

definition vg_inv :: "VirtualGamepad \<Rightarrow> bool" where
  "vg_inv g \<longleftrightarrow> distinct (map fst (vg_pads g)) \<and> length (vg_pads g) \<le> 4 \<and>
     (vg_pads g \<noteq> [] \<longrightarrow> vg_client g)"

lemma vg_inv_new: "vg_inv VirtualGamepad_new"
  by (simp add: vg_inv_def VirtualGamepad_new_def)

lemma vg_inv_add: "vg_inv g \<Longrightarrow> vg_inv (fst (addPlayer alloc rc p g))"
  by (auto simp: addPlayer_def vg_inv_def hasPlayer_def list_ex_iff vg_call_def Let_def split: option.split)

lemma drop_pad_pads: "distinct (map fst pads) \<Longrightarrow> fst (drop_pad p pads) = filter (\<lambda>q. fst q \<noteq> p) pads"
proof (induction pads)
  case Nil
  then show ?case by simp
next
  case (Cons q pads)
  have "filter (\<lambda>q. fst q \<noteq> p) pads = pads" if "fst q = p"
    using Cons.prems that by (auto simp: image_iff intro!: filter_True)
  with Cons show ?case by (cases q) (auto simp: Let_def split: prod.split)
qed

lemma drop_pad_None: "snd (drop_pad p pads) = None \<longleftrightarrow> p \<notin> fst ` set pads"
  by (induction pads) (auto simp: Let_def case_prod_beta split: if_splits)

lemma removePlayer_pads:
  assumes "distinct (map fst (vg_pads g))"
  shows "vg_pads (removePlayer p g) = filter (\<lambda>q. fst q \<noteq> p) (vg_pads g)"
proof (cases "snd (drop_pad p (vg_pads g))")
  case None
  then have "\<forall>q \<in> set (vg_pads g). fst q \<noteq> p" by (auto simp: drop_pad_None)
  with None show ?thesis by (auto simp: removePlayer_def split: prod.split)
next
  case (Some t)
  with drop_pad_pads [OF assms, of p] show ?thesis
    by (auto simp: removePlayer_def split: prod.split)
qed

lemma removePlayer_client [simp]: "vg_client (removePlayer p g) = vg_client g"
  by (simp add: removePlayer_def vg_call_def split: prod.split option.split)

lemma vg_inv_remove: "vg_inv g \<Longrightarrow> vg_inv (removePlayer p g)"
  using removePlayer_pads [of g p]
  by (auto simp: vg_inv_def distinct_map_filter intro: le_trans [OF length_filter_le])

lemma vg_inv_update: "vg_inv g \<Longrightarrow> vg_inv (fst (vg_update rc p s g))"
  by (auto simp: vg_update_def vg_inv_def vg_call_def split: option.split)

lemma vg_update_pads [simp]: "vg_pads (fst (vg_update rc p s g)) = vg_pads g"
  by (simp add: vg_update_def vg_call_def split: option.split)

lemma vg_shutdown_pads [simp]: "vg_pads (vg_shutdown g) = []"
  by (simp add: vg_shutdown_def vg_call_def Let_def)

lemma vg_inv_shutdown: "vg_inv (vg_shutdown g)"
  by (simp add: vg_inv_def)

end
