(* ===== verification/InputInjector.thy ===== *)
theory InputInjector
  imports VirtualGamepad RP_Types
begin

text \<open>
  \<^verbatim>\<open>input/InputInjector.h\<close> and \<^verbatim>\<open>input/InputInjector.cpp\<close>: the host applies a client's input to its own
  desktop, after checking the client's permissions, and lets go of everything a client still holds
  when the client leaves. \<open>ij_out\<close> records every \<^verbatim>\<open>SendInput\<close> with its result, which is an argument
  of the operation (\<open>si\<close>), as are the results of the pad library; \<open>mapVk\<close> stands for
  \<^verbatim>\<open>MapVirtualKeyW\<close>.

  The theorems: input is applied only for a permission in force, and nothing a client pressed can
  stay pressed once the clients are gone.
\<close>

section \<open>Native input events\<close>

datatype INPUT =
    KeyInput (wVk: u16) (wScan: u16) (ki_flags: u32)
  | MouseInput (mi_dx: u32) (mi_dy: u32) (mouseData: u32) (mi_flags: u32)

definition KEYEVENTF_EXTENDEDKEY :: u32 where "KEYEVENTF_EXTENDEDKEY = 0x0001"
definition KEYEVENTF_KEYUP :: u32 where "KEYEVENTF_KEYUP = 0x0002"
definition MOUSEEVENTF_MOVE :: u32 where "MOUSEEVENTF_MOVE = 0x0001"
definition MOUSEEVENTF_LEFTDOWN :: u32 where "MOUSEEVENTF_LEFTDOWN = 0x0002"
definition MOUSEEVENTF_LEFTUP :: u32 where "MOUSEEVENTF_LEFTUP = 0x0004"
definition MOUSEEVENTF_RIGHTDOWN :: u32 where "MOUSEEVENTF_RIGHTDOWN = 0x0008"
definition MOUSEEVENTF_RIGHTUP :: u32 where "MOUSEEVENTF_RIGHTUP = 0x0010"
definition MOUSEEVENTF_MIDDLEDOWN :: u32 where "MOUSEEVENTF_MIDDLEDOWN = 0x0020"
definition MOUSEEVENTF_MIDDLEUP :: u32 where "MOUSEEVENTF_MIDDLEUP = 0x0040"
definition MOUSEEVENTF_XDOWN :: u32 where "MOUSEEVENTF_XDOWN = 0x0080"
definition MOUSEEVENTF_XUP :: u32 where "MOUSEEVENTF_XUP = 0x0100"
definition MOUSEEVENTF_WHEEL :: u32 where "MOUSEEVENTF_WHEEL = 0x0800"
definition MOUSEEVENTF_ABSOLUTE :: u32 where "MOUSEEVENTF_ABSOLUTE = 0x8000"
definition XBUTTON1 :: u32 where "XBUTTON1 = 0x0001"
definition XBUTTON2 :: u32 where "XBUTTON2 = 0x0002"
definition WHEEL_DELTA :: u32 where "WHEEL_DELTA = 120"

lemmas win_flags = KEYEVENTF_EXTENDEDKEY_def KEYEVENTF_KEYUP_def MOUSEEVENTF_MOVE_def
  MOUSEEVENTF_LEFTDOWN_def MOUSEEVENTF_LEFTUP_def MOUSEEVENTF_RIGHTDOWN_def MOUSEEVENTF_RIGHTUP_def
  MOUSEEVENTF_MIDDLEDOWN_def MOUSEEVENTF_MIDDLEUP_def MOUSEEVENTF_XDOWN_def MOUSEEVENTF_XUP_def
  MOUSEEVENTF_WHEEL_def MOUSEEVENTF_ABSOLUTE_def XBUTTON1_def XBUTTON2_def

definition makeKeyInput :: "(u16 \<Rightarrow> u16) \<Rightarrow> u16 \<Rightarrow> bool \<Rightarrow> bool \<Rightarrow> INPUT" where
  "makeKeyInput mapVk vk down extended =
     KeyInput vk (mapVk vk)
       ((if down then 0 else KEYEVENTF_KEYUP) OR (if extended then KEYEVENTF_EXTENDEDKEY else 0))"

definition makeMouseMoveInput :: "u16 \<Rightarrow> u16 \<Rightarrow> INPUT" where
  "makeMouseMoveInput x y = MouseInput (ucast x) (ucast y) 0 (MOUSEEVENTF_MOVE OR MOUSEEVENTF_ABSOLUTE)"

definition makeMouseButtonInput :: "nat \<Rightarrow> bool \<Rightarrow> INPUT" where
  "makeMouseButtonInput button down =
     (if button = 0 then MouseInput 0 0 0 (if down then MOUSEEVENTF_LEFTDOWN else MOUSEEVENTF_LEFTUP)
      else if button = 1 then MouseInput 0 0 0 (if down then MOUSEEVENTF_RIGHTDOWN else MOUSEEVENTF_RIGHTUP)
      else if button = 2 then MouseInput 0 0 0 (if down then MOUSEEVENTF_MIDDLEDOWN else MOUSEEVENTF_MIDDLEUP)
      else if button = 3 then MouseInput 0 0 XBUTTON1 (if down then MOUSEEVENTF_XDOWN else MOUSEEVENTF_XUP)
      else if button = 4 then MouseInput 0 0 XBUTTON2 (if down then MOUSEEVENTF_XDOWN else MOUSEEVENTF_XUP)
      else MouseInput 0 0 0 0)"

section \<open>State\<close>

record PerClient =
  pc_playerIndex :: u8
  pc_controller :: bool
  pc_keyboard :: bool
  pc_mouse :: bool
  pc_vibration :: bool
  pc_keysDown :: "bool list"
  pc_mouseButtons :: "bool list"

definition PerClient_default :: PerClient where
  "PerClient_default = \<lparr>pc_playerIndex = 0, pc_controller = True, pc_keyboard = False, pc_mouse = False,
     pc_vibration = True, pc_keysDown = replicate 256 False, pc_mouseButtons = replicate 5 False\<rparr>"

datatype ij_output =
    SendInput INPUT bool
  | SendRumble u8 u8 u8

record InputInjector =
  ij_pads :: VirtualGamepad
  ij_hasRumbleSender :: bool
  ij_clients :: "PerClient list"
  ij_injectedEvents :: u64
  ij_rejectedEvents :: u64
  ij_out :: "ij_output list"

definition InputInjector_new :: InputInjector where
  "InputInjector_new = \<lparr>ij_pads = VirtualGamepad_new, ij_hasRumbleSender = False, ij_clients = [],
     ij_injectedEvents = 0, ij_rejectedEvents = 0, ij_out = []\<rparr>"

definition setRumbleSender :: "InputInjector \<Rightarrow> InputInjector" where
  "setRumbleSender s = s\<lparr>ij_hasRumbleSender := True\<rparr>"

definition rejected :: "InputInjector \<Rightarrow> InputInjector \<times> bool" where
  "rejected s = (s\<lparr>ij_rejectedEvents := ij_rejectedEvents s + 1\<rparr>, False)"

definition injected :: "InputInjector \<Rightarrow> InputInjector \<times> bool" where
  "injected s = (s\<lparr>ij_injectedEvents := ij_injectedEvents s + 1\<rparr>, True)"

section \<open>The client table\<close>

definition find_player :: "u8 \<Rightarrow> PerClient list \<Rightarrow> PerClient option" where
  "find_player p cs = find (\<lambda>c. pc_playerIndex c = p) cs"

definition new_client :: "u8 \<Rightarrow> PerClient" where
  "new_client p = PerClient_default\<lparr>pc_playerIndex := p, pc_controller := True\<rparr>"

definition ensureClient :: "u8 \<Rightarrow> InputInjector \<Rightarrow> InputInjector" where
  "ensureClient p s =
     (case find_player p (ij_clients s) of
        Some c \<Rightarrow> s
      | None \<Rightarrow> s\<lparr>ij_clients := ij_clients s @ [new_client p]\<rparr>)"

text \<open>The reference \<open>ensureClient\<close> returns: the record of the player, and writing through it.\<close>

definition client_of :: "u8 \<Rightarrow> InputInjector \<Rightarrow> PerClient" where
  "client_of p s = (case find_player p (ij_clients s) of Some c \<Rightarrow> c | None \<Rightarrow> new_client p)"

fun upd_player :: "u8 \<Rightarrow> (PerClient \<Rightarrow> PerClient) \<Rightarrow> PerClient list \<Rightarrow> PerClient list" where
  "upd_player p f [] = []"
| "upd_player p f (c # cs) = (if pc_playerIndex c = p then f c # cs else c # upd_player p f cs)"

definition modify_client :: "u8 \<Rightarrow> (PerClient \<Rightarrow> PerClient) \<Rightarrow> InputInjector \<Rightarrow> InputInjector" where
  "modify_client p f s = s\<lparr>ij_clients := upd_player p f (ij_clients s)\<rparr>"

fun erase_player :: "u8 \<Rightarrow> PerClient list \<Rightarrow> PerClient list" where
  "erase_player p [] = []"
| "erase_player p (c # cs) = (if pc_playerIndex c = p then cs else c # erase_player p cs)"

section \<open>Operations\<close>

definition send :: "(INPUT \<Rightarrow> bool) \<Rightarrow> INPUT \<Rightarrow> InputInjector \<Rightarrow> InputInjector" where
  "send si inp s = s\<lparr>ij_out := ij_out s @ [SendInput inp (si inp)]\<rparr>"

definition release_key :: "(u16 \<Rightarrow> u16) \<Rightarrow> (INPUT \<Rightarrow> bool) \<Rightarrow> u8 \<Rightarrow> nat \<Rightarrow> InputInjector \<Rightarrow> InputInjector" where
  "release_key mapVk si p vk s =
     (if \<not> pc_keysDown (client_of p s) ! vk then s
      else modify_client p (\<lambda>c. c\<lparr>pc_keysDown := (pc_keysDown c)[vk := False]\<rparr>)
             (send si (makeKeyInput mapVk (of_nat vk) False False) s))"

definition release_button :: "(INPUT \<Rightarrow> bool) \<Rightarrow> u8 \<Rightarrow> nat \<Rightarrow> InputInjector \<Rightarrow> InputInjector" where
  "release_button si p b s =
     (if \<not> pc_mouseButtons (client_of p s) ! b then s
      else modify_client p (\<lambda>c. c\<lparr>pc_mouseButtons := (pc_mouseButtons c)[b := False]\<rparr>)
             (send si (makeMouseButtonInput b False) s))"

definition releaseAllKeys :: "(u16 \<Rightarrow> u16) \<Rightarrow> (INPUT \<Rightarrow> bool) \<Rightarrow> u8 \<Rightarrow> InputInjector \<Rightarrow> InputInjector" where
  "releaseAllKeys mapVk si p s =
     fold (release_button si p) [0..<5] (fold (release_key mapVk si p) [1..<256] (ensureClient p s))"

definition with_pads :: "(VirtualGamepad \<Rightarrow> VirtualGamepad) \<Rightarrow> InputInjector \<Rightarrow> InputInjector" where
  "with_pads f s = s\<lparr>ij_pads := f (ij_pads s)\<rparr>"

definition ij_init ::
  "bool \<Rightarrow> bool \<Rightarrow> vigem_exports \<Rightarrow> bool \<Rightarrow> int \<Rightarrow> string \<Rightarrow> InputInjector \<Rightarrow> InputInjector \<times> bool" where
  "ij_init dll mandatory ex alloc rc rcText s =
     (with_pads (\<lambda>g. fst (vg_init dll mandatory ex alloc rc rcText g)) s, True)"

text \<open>The vibration callback \<^verbatim>\<open>init\<close> installs.\<close>

definition onVibration :: "u8 \<Rightarrow> u8 \<Rightarrow> u8 \<Rightarrow> InputInjector \<Rightarrow> InputInjector" where
  "onVibration player left right s =
     (if list_ex (\<lambda>c. pc_playerIndex c = player \<and> pc_vibration c \<and> ij_hasRumbleSender s) (ij_clients s)
      then s\<lparr>ij_out := ij_out s @ [SendRumble player left right]\<rparr>
      else s)"

definition vibration_notification :: "nat \<Rightarrow> u8 \<Rightarrow> u8 \<Rightarrow> InputInjector \<Rightarrow> InputInjector" where
  "vibration_notification target largeMotor smallMotor s =
     (case handleVibration target (ij_pads s) of
        None \<Rightarrow> s
      | Some p \<Rightarrow> onVibration p largeMotor smallMotor s)"

definition setPermissions ::
  "(u16 \<Rightarrow> u16) \<Rightarrow> (INPUT \<Rightarrow> bool) \<Rightarrow> nat option \<Rightarrow> int \<Rightarrow> u8 \<Rightarrow> InputPermissions \<Rightarrow> InputInjector \<Rightarrow> InputInjector" where
  "setPermissions mapVk si alloc rc p perms s =
     (let s = ensureClient p s;
          controllerWas = pc_controller (client_of p s);
          s = modify_client p (\<lambda>c. c\<lparr>pc_controller := perm_controller perms, pc_keyboard := perm_keyboard perms,
                pc_mouse := perm_mouse perms, pc_vibration := perm_vibration perms\<rparr>) s;
          s = (if perm_controller perms \<and> \<not> controllerWas
               then with_pads (\<lambda>g. fst (addPlayer alloc rc p g)) s
               else if \<not> perm_controller perms \<and> controllerWas then with_pads (removePlayer p) s
               else s)
      in if \<not> perm_keyboard perms then releaseAllKeys mapVk si p s else s)"

definition applyController :: "int \<Rightarrow> u8 \<Rightarrow> GameControllerState \<Rightarrow> InputInjector \<Rightarrow> InputInjector \<times> bool" where
  "applyController rc p st s =
     (if gc_version st \<noteq> 1 then rejected s
      else if gc_connected st = 0 then (s, True)
      else
        let (g, ok) = vg_update rc p st (ij_pads s); s = s\<lparr>ij_pads := g\<rparr>
        in if ok then injected s else rejected s)"

definition send_counted :: "(INPUT \<Rightarrow> bool) \<Rightarrow> INPUT \<Rightarrow> InputInjector \<Rightarrow> InputInjector \<times> bool" where
  "send_counted si inp s = (if si inp then injected (send si inp s) else rejected (send si inp s))"

definition applyEvent ::
  "(u16 \<Rightarrow> u16) \<Rightarrow> (INPUT \<Rightarrow> bool) \<Rightarrow> u8 \<Rightarrow> InputEvent \<Rightarrow> InputInjector \<Rightarrow> InputInjector \<times> bool" where
  "applyEvent mapVk si p e s =
     (let s = ensureClient p s; code = unat (ie_code e) in
      if ie_type e = KeyDown \<or> ie_type e = KeyUp
      then if code = 0 \<or> code \<ge> 256 then rejected s
           else let down = (ie_type e = KeyDown);
                    inp = makeKeyInput mapVk (ucast (ie_code e)) down (ie_flags e AND 1 \<noteq> 0)
                in send_counted si inp
                     (modify_client p (\<lambda>c. c\<lparr>pc_keysDown := (pc_keysDown c)[code := down]\<rparr>) s)
      else if ie_type e = MouseMove
      then send_counted si (makeMouseMoveInput (ie_x e) (ie_y e)) s
      else if ie_type e = MouseButtonDown \<or> ie_type e = MouseButtonUp
      then if code \<ge> 5 then rejected s
           else let down = (ie_type e = MouseButtonDown)
                in send_counted si (makeMouseButtonInput code down)
                     (modify_client p (\<lambda>c. c\<lparr>pc_mouseButtons := (pc_mouseButtons c)[code := down]\<rparr>) s)
      else if ie_type e = MouseWheel
      then send_counted si (MouseInput 0 0 (scast (ie_delta e) * WHEEL_DELTA) MOUSEEVENTF_WHEEL) s
      else rejected s)"

definition applyInput ::
  "(u16 \<Rightarrow> u16) \<Rightarrow> (INPUT \<Rightarrow> bool) \<Rightarrow> int \<Rightarrow> u8 \<Rightarrow> bytes \<Rightarrow> InputInjector \<Rightarrow> InputInjector \<times> bool" where
  "applyInput mapVk si rc p data s =
     (case unpackInput data of
        None \<Rightarrow> rejected s
      | Some u \<Rightarrow>
          let s = ensureClient p s; c = client_of p s in
          case u of
            Controller st \<Rightarrow> if \<not> pc_controller c then rejected s else applyController rc p st s
          | Event e \<Rightarrow>
              let keyboardEvent = (ie_type e = KeyDown \<or> ie_type e = KeyUp)
              in if keyboardEvent \<and> \<not> pc_keyboard c then rejected s
                 else if \<not> keyboardEvent \<and> \<not> pc_mouse c then rejected s
                 else applyEvent mapVk si p e s)"

definition clientDisconnected :: "(u16 \<Rightarrow> u16) \<Rightarrow> (INPUT \<Rightarrow> bool) \<Rightarrow> u8 \<Rightarrow> InputInjector \<Rightarrow> InputInjector" where
  "clientDisconnected mapVk si p s =
     (let s = with_pads (removePlayer p) (releaseAllKeys mapVk si p s)
      in s\<lparr>ij_clients := erase_player p (ij_clients s)\<rparr>)"

definition ij_shutdown :: "(u16 \<Rightarrow> u16) \<Rightarrow> (INPUT \<Rightarrow> bool) \<Rightarrow> InputInjector \<Rightarrow> InputInjector" where
  "ij_shutdown mapVk si s =
     (let s = fold (\<lambda>p s. with_pads (removePlayer p) (releaseAllKeys mapVk si p s))
                (map pc_playerIndex (ij_clients s)) s
      in with_pads vg_shutdown (s\<lparr>ij_clients := []\<rparr>))"

section \<open>The machine\<close>

datatype ij_event =
    ISetPermissions "nat option" int u8 InputPermissions
  | IApply int u8 bytes
  | IDisconnected u8
  | IVibration nat u8 u8
  | ISetRumble
  | IInit bool bool vigem_exports bool int string
  | IShutdown

fun ij_handle :: "(u16 \<Rightarrow> u16) \<Rightarrow> (INPUT \<Rightarrow> bool) \<times> ij_event \<Rightarrow> InputInjector \<Rightarrow> InputInjector" where
  "ij_handle mapVk (si, ISetPermissions alloc rc p perms) s = setPermissions mapVk si alloc rc p perms s"
| "ij_handle mapVk (si, IApply rc p data) s = fst (applyInput mapVk si rc p data s)"
| "ij_handle mapVk (si, IDisconnected p) s = clientDisconnected mapVk si p s"
| "ij_handle mapVk (si, IVibration t l r) s = vibration_notification t l r s"
| "ij_handle mapVk (si, ISetRumble) s = setRumbleSender s"
| "ij_handle mapVk (si, IInit dll mandatory ex alloc rc rcText) s = fst (ij_init dll mandatory ex alloc rc rcText s)"
| "ij_handle mapVk (si, IShutdown) s = ij_shutdown mapVk si s"

section \<open>The client table as a map\<close>

named_theorems ij_simps

lemma find_player_upd [ij_simps]:
  assumes "\<And>c. pc_playerIndex (f c) = pc_playerIndex c"
  shows "find_player q (upd_player p f cs) =
    (if q = p then map_option f (find_player p cs) else find_player q cs)"
  using assms by (induction cs) (auto simp: find_player_def)

lemma upd_player_upd [ij_simps]:
  assumes "\<And>c. pc_playerIndex (f c) = pc_playerIndex c"
  shows "upd_player p g (upd_player p f cs) = upd_player p (g \<circ> f) cs"
  using assms by (induction cs) auto

lemma upd_player_same:
  assumes "find_player p cs = Some c" and "f c = c"
  shows "upd_player p f cs = cs"
  using assms by (induction cs) (auto simp: find_player_def split: if_splits)

lemma map_index_upd [ij_simps]:
  assumes "\<And>c. pc_playerIndex (f c) = pc_playerIndex c"
  shows "map pc_playerIndex (upd_player p f cs) = map pc_playerIndex cs"
  using assms by (induction cs) auto

lemma find_player_None: "find_player p cs = None \<longleftrightarrow> p \<notin> pc_playerIndex ` set cs"
  by (auto simp: find_player_def find_None_iff)

lemma find_player_Some: "find_player p cs = Some c \<Longrightarrow> c \<in> set cs \<and> pc_playerIndex c = p"
  by (auto simp: find_player_def find_Some_iff)

lemma find_player_append:
  "find_player p (xs @ ys) = (case find_player p xs of Some c \<Rightarrow> Some c | None \<Rightarrow> find_player p ys)"
  by (induction xs) (auto simp: find_player_def)

lemma find_player_erase:
  "distinct (map pc_playerIndex cs) \<Longrightarrow>
     find_player q (erase_player p cs) = (if q = p then None else find_player q cs)"
proof (induction cs)
  case Nil
  then show ?case by (simp add: find_player_def)
next
  case (Cons c cs)
  then show ?case
    by (auto simp: find_player_def find_None_iff image_iff)
qed

lemma erase_player_filter:
  "distinct (map pc_playerIndex cs) \<Longrightarrow> erase_player p cs = filter (\<lambda>c. pc_playerIndex c \<noteq> p) cs"
proof (induction cs)
  case Nil
  then show ?case by simp
next
  case (Cons c cs)
  have "filter (\<lambda>c. pc_playerIndex c \<noteq> p) cs = cs" if "pc_playerIndex c = p"
    using Cons.prems that by (auto simp: image_iff intro!: filter_True)
  with Cons show ?case by auto
qed

section \<open>What is pressed\<close>

text \<open>\<open>held\<close> replays the successful \<^verbatim>\<open>SendInput\<close> calls as the operating system does: the keys and
  buttons that are down; a key is identified by its virtual-key code, as for every \<^verbatim>\<open>SendInput\<close> without
  \<^verbatim>\<open>KEYEVENTF_SCANCODE\<close>. \<open>tracked\<close> is what the injector remembers.\<close>

datatype switch = Key u16 | Button nat

definition button_of :: "u32 \<Rightarrow> u32 \<Rightarrow> (nat \<times> bool) option" where
  "button_of flags data =
     (if flags = MOUSEEVENTF_LEFTDOWN then Some (0, True) else if flags = MOUSEEVENTF_LEFTUP then Some (0, False)
      else if flags = MOUSEEVENTF_RIGHTDOWN then Some (1, True) else if flags = MOUSEEVENTF_RIGHTUP then Some (1, False)
      else if flags = MOUSEEVENTF_MIDDLEDOWN then Some (2, True) else if flags = MOUSEEVENTF_MIDDLEUP then Some (2, False)
      else if flags = MOUSEEVENTF_XDOWN then Some (if data = XBUTTON1 then 3 else 4, True)
      else if flags = MOUSEEVENTF_XUP then Some (if data = XBUTTON1 then 3 else 4, False)
      else None)"

fun os_effect :: "ij_output \<Rightarrow> switch set \<Rightarrow> switch set" where
  "os_effect (SendInput (KeyInput vk scan flags) ok) H =
     (if \<not> ok then H else if flags AND KEYEVENTF_KEYUP \<noteq> 0 then H - {Key vk} else insert (Key vk) H)"
| "os_effect (SendInput (MouseInput dx dy data flags) ok) H =
     (if \<not> ok then H
      else case button_of flags data of
        None \<Rightarrow> H | Some (b, down) \<Rightarrow> if down then insert (Button b) H else H - {Button b})"
| "os_effect (SendRumble p l r) H = H"

definition held :: "ij_output list \<Rightarrow> switch set" where
  "held out = fold os_effect out {}"

text \<open>\<open>refused\<close> are the keys and buttons whose release the system refused (\<^verbatim>\<open>SendInput\<close> returned 0) and for
  which it accepted no event since.\<close>

fun switch_of :: "INPUT \<Rightarrow> (switch \<times> bool) option" where
  "switch_of (KeyInput vk scan flags) = Some (Key vk, flags AND KEYEVENTF_KEYUP = 0)"
| "switch_of (MouseInput dx dy data flags) = map_option (\<lambda>(b, down). (Button b, down)) (button_of flags data)"

fun refused_effect :: "ij_output \<Rightarrow> switch set \<Rightarrow> switch set" where
  "refused_effect (SendInput inp ok) R =
     (case switch_of inp of
        None \<Rightarrow> R
      | Some (k, down) \<Rightarrow> if ok then R - {k} else if down then R else insert k R)"
| "refused_effect (SendRumble p l r) R = R"

declare refused_effect.simps(1) [simp del]

definition refused :: "ij_output list \<Rightarrow> switch set" where
  "refused out = fold refused_effect out {}"

definition holds :: "PerClient \<Rightarrow> switch set" where
  "holds c = {Key (of_nat vk) |vk. vk < 256 \<and> pc_keysDown c ! vk} \<union>
     {Button b |b. b < 5 \<and> pc_mouseButtons c ! b}"

definition tracked :: "PerClient list \<Rightarrow> switch set" where
  "tracked cs = (\<Union>c \<in> set cs. holds c)"

lemma held_snoc [ij_simps]: "held (out @ [x]) = os_effect x (held out)" "refused (out @ [x]) = refused_effect x (refused out)"
  by (simp_all add: held_def refused_def)

lemma effect_key [ij_simps]:
  "os_effect (SendInput (makeKeyInput mapVk vk down ext) ok) H =
     (if \<not> ok then H else if down then insert (Key vk) H else H - {Key vk})"
  "refused_effect (SendInput (makeKeyInput mapVk vk down ext) ok) R =
     (if ok then R - {Key vk} else if down then R else insert (Key vk) R)"
proof -
  have "(0 :: u32) OR 0 = 0" "KEYEVENTF_KEYUP OR 0 = KEYEVENTF_KEYUP" by simp_all
  moreover have "KEYEVENTF_EXTENDEDKEY AND KEYEVENTF_KEYUP = 0" "KEYEVENTF_KEYUP AND KEYEVENTF_KEYUP \<noteq> 0"
    "(KEYEVENTF_KEYUP OR KEYEVENTF_EXTENDEDKEY) AND KEYEVENTF_KEYUP \<noteq> 0"
    by (simp_all add: win_flags)
  ultimately show "os_effect (SendInput (makeKeyInput mapVk vk down ext) ok) H =
     (if \<not> ok then H else if down then insert (Key vk) H else H - {Key vk})"
    "refused_effect (SendInput (makeKeyInput mapVk vk down ext) ok) R =
     (if ok then R - {Key vk} else if down then R else insert (Key vk) R)"
    by (cases down; cases ext; simp add: makeKeyInput_def refused_effect.simps(1))+
qed

lemma effect_button [ij_simps]:
  assumes "b < 5"
  shows "os_effect (SendInput (makeMouseButtonInput b down) ok) H =
     (if \<not> ok then H else if down then insert (Button b) H else H - {Button b})"
    and "refused_effect (SendInput (makeMouseButtonInput b down) ok) R =
     (if ok then R - {Button b} else if down then R else insert (Button b) R)"
proof -
  consider "b = 0" | "b = 1" | "b = 2" | "b = 3" | "b = 4" using assms by linarith
  then show "os_effect (SendInput (makeMouseButtonInput b down) ok) H =
     (if \<not> ok then H else if down then insert (Button b) H else H - {Button b})"
    "refused_effect (SendInput (makeMouseButtonInput b down) ok) R =
     (if ok then R - {Button b} else if down then R else insert (Button b) R)"
    by (cases; simp add: makeMouseButtonInput_def button_of_def win_flags refused_effect.simps(1))+
qed

lemma effect_move [ij_simps]:
  "os_effect (SendInput (makeMouseMoveInput x y) ok) H = H"
  "os_effect (SendInput (MouseInput dx dy d MOUSEEVENTF_WHEEL) ok) H = H"
  "refused_effect (SendInput (makeMouseMoveInput x y) ok) R = R"
  "refused_effect (SendInput (MouseInput dx dy d MOUSEEVENTF_WHEEL) ok) R = R"
  by (simp_all add: makeMouseMoveInput_def button_of_def win_flags refused_effect.simps(1))

definition pc_wf :: "PerClient \<Rightarrow> bool" where
  "pc_wf c \<longleftrightarrow> length (pc_keysDown c) = 256 \<and> length (pc_mouseButtons c) = 5 \<and> \<not> pc_keysDown c ! 0"

lemma pc_wf_new [simp]: "pc_wf (new_client p)"
  by (simp add: pc_wf_def new_client_def PerClient_default_def)

lemma holds_new [simp]: "holds (new_client p) = {}"
  by (auto simp: holds_def new_client_def PerClient_default_def)

lemma key_inject: "a < 256 \<Longrightarrow> b < 256 \<Longrightarrow> (of_nat a :: u16) = of_nat b \<longleftrightarrow> a = b"
  by (simp add: word_unat_eq_iff unat_of_nat)

lemma holds_key_update:
  assumes "pc_wf c" and "vk < 256"
  shows "holds (c\<lparr>pc_keysDown := (pc_keysDown c)[vk := d]\<rparr>) =
    (if d then insert (Key (of_nat vk)) (holds c) else holds c - {Key (of_nat vk)})"
  using assms by (auto simp: holds_def pc_wf_def nth_list_update key_inject split: if_splits)

lemma holds_button_update:
  assumes "pc_wf c" and "b < 5"
  shows "holds (c\<lparr>pc_mouseButtons := (pc_mouseButtons c)[b := d]\<rparr>) =
    (if d then insert (Button b) (holds c) else holds c - {Button b})"
  using assms by (auto simp: holds_def pc_wf_def nth_list_update split: if_splits)

lemma pc_wf_updates [simp]:
  "pc_wf c \<Longrightarrow> vk \<noteq> 0 \<Longrightarrow> pc_wf (c\<lparr>pc_keysDown := (pc_keysDown c)[vk := d]\<rparr>)"
  "pc_wf c \<Longrightarrow> pc_wf (c\<lparr>pc_mouseButtons := (pc_mouseButtons c)[b := d]\<rparr>)"
  by (simp_all add: pc_wf_def)

lemma holds_perms [simp]:
  "holds (c\<lparr>pc_controller := a, pc_keyboard := k, pc_mouse := m, pc_vibration := v\<rparr>) = holds c"
  "pc_wf (c\<lparr>pc_controller := a, pc_keyboard := k, pc_mouse := m, pc_vibration := v\<rparr>) = pc_wf c"
  by (simp_all add: holds_def pc_wf_def)

definition table_ok :: "PerClient list \<Rightarrow> bool" where
  "table_ok cs \<longleftrightarrow> distinct (map pc_playerIndex cs) \<and> list_all pc_wf cs"

definition others :: "u8 \<Rightarrow> PerClient list \<Rightarrow> switch set" where
  "others p cs = (\<Union>c \<in> {c \<in> set cs. pc_playerIndex c \<noteq> p}. holds c)"

lemma others_upd [ij_simps]:
  "(\<And>c. pc_playerIndex (f c) = pc_playerIndex c) \<Longrightarrow> others p (upd_player p f cs) = others p cs"
  by (induction cs) (auto simp: others_def)

lemma unique_player:
  "distinct (map pc_playerIndex cs) \<Longrightarrow> c \<in> set cs \<Longrightarrow> find_player (pc_playerIndex c) cs = Some c"
  by (induction cs) (auto simp: find_player_def image_iff)

lemma tracked_split:
  assumes "table_ok cs" and "find_player p cs = Some c"
  shows "tracked cs = holds c \<union> others p cs"
proof -
  have "c' = c" if "c' \<in> set cs" "pc_playerIndex c' = p" for c'
    using unique_player [of cs c'] that assms by (simp add: table_ok_def)
  then show ?thesis using find_player_Some [OF assms(2)] by (auto simp: tracked_def others_def)
qed

lemma table_ok_find: "table_ok cs \<Longrightarrow> find_player p cs = Some c \<Longrightarrow> pc_wf c"
  using find_player_Some [of p cs c] by (auto simp: table_ok_def list_all_iff)

lemma table_ok_upd:
  assumes "table_ok cs" and "\<And>c. pc_playerIndex (f c) = pc_playerIndex c" and "\<And>c. pc_wf c \<Longrightarrow> pc_wf (f c)"
  shows "table_ok (upd_player p f cs)"
proof -
  have "list_all pc_wf cs \<Longrightarrow> list_all pc_wf (upd_player p f cs)"
    using assms(3) by (induction cs) auto
  then show ?thesis using assms(1) map_index_upd [of f p cs] assms(2) by (simp add: table_ok_def)
qed

lemma tracked_upd:
  assumes ok: "table_ok cs" and c: "find_player p cs = Some c"
    and f: "\<And>c. pc_playerIndex (f c) = pc_playerIndex c" "\<And>c. pc_wf c \<Longrightarrow> pc_wf (f c)"
  shows "tracked (upd_player p f cs) = holds (f c) \<union> others p cs"
proof -
  have "table_ok (upd_player p f cs)" by (rule table_ok_upd [OF ok f])
  moreover have "find_player p (upd_player p f cs) = Some (f c)" using c f(1) by (simp add: ij_simps)
  ultimately show ?thesis using tracked_split [of "upd_player p f cs" p "f c"] others_upd [of f p cs] f(1) by simp
qed

definition ij_inv :: "InputInjector \<Rightarrow> bool" where
  "ij_inv s \<longleftrightarrow> table_ok (ij_clients s) \<and> held (ij_out s) \<subseteq> tracked (ij_clients s) \<union> refused (ij_out s)"

lemma find_player_single [simp]:
  "find_player q [new_client p] = (if q = p then Some (new_client p) else None)"
  by (simp add: find_player_def new_client_def)

lemma ensureClient_find [ij_simps]:
  "find_player q (ij_clients (ensureClient p s)) =
     (if q = p then Some (client_of p s) else find_player q (ij_clients s))"
  by (simp add: ensureClient_def client_of_def find_player_append split: option.split)

lemma ensureClient_fields [ij_simps]:
  "ij_out (ensureClient p s) = ij_out s" "ij_pads (ensureClient p s) = ij_pads s"
  "ij_rejectedEvents (ensureClient p s) = ij_rejectedEvents s"
  "ij_injectedEvents (ensureClient p s) = ij_injectedEvents s"
  by (simp_all add: ensureClient_def split: option.split)

lemma client_of_ensure [ij_simps]: "client_of q (ensureClient p s) = client_of q s"
  by (simp add: client_of_def ensureClient_find split: option.split)

lemma ij_inv_ensure [simp]:
  assumes "ij_inv s" shows "ij_inv (ensureClient p s)"
proof (cases "find_player p (ij_clients s)")
  case None
  have "pc_playerIndex (new_client p) = p" by (simp add: new_client_def)
  moreover have "tracked (ij_clients s @ [new_client p]) = tracked (ij_clients s)"
    by (simp add: tracked_def)
  ultimately show ?thesis
    using assms None unfolding find_player_None
    by (simp add: ij_inv_def ensureClient_def table_ok_def None)
next
  case (Some c)
  then show ?thesis using assms by (simp add: ensureClient_def)
qed

section \<open>Releasing\<close>

lemma modify_fields [ij_simps]:
  "ij_clients (modify_client p f s) = upd_player p f (ij_clients s)"
  "ij_out (modify_client p f s) = ij_out s" "ij_pads (modify_client p f s) = ij_pads s"
  "ij_clients (send si inp s) = ij_clients s" "ij_out (send si inp s) = ij_out s @ [SendInput inp (si inp)]"
  "ij_pads (send si inp s) = ij_pads s"
  "ij_clients (with_pads g s) = ij_clients s" "ij_out (with_pads g s) = ij_out s"
  by (simp_all add: modify_client_def send_def with_pads_def)

lemma release_key_clients [ij_simps]:
  assumes "find_player p (ij_clients s) = Some c"
  shows "ij_clients (release_key mapVk si p vk s) =
    upd_player p (\<lambda>c. c\<lparr>pc_keysDown := (pc_keysDown c)[vk := False]\<rparr>) (ij_clients s)"
proof (cases "pc_keysDown c ! vk")
  case True
  then show ?thesis using assms by (simp add: release_key_def client_of_def ij_simps)
next
  case False
  then have "(pc_keysDown c)[vk := False] = pc_keysDown c" using list_update_id [of "pc_keysDown c" vk] by simp
  then have "c\<lparr>pc_keysDown := (pc_keysDown c)[vk := False]\<rparr> = c" by simp
  then show ?thesis
    using False assms upd_player_same [OF assms] by (simp add: release_key_def client_of_def)
qed

lemma release_button_clients [ij_simps]:
  assumes "find_player p (ij_clients s) = Some c"
  shows "ij_clients (release_button si p b s) =
    upd_player p (\<lambda>c. c\<lparr>pc_mouseButtons := (pc_mouseButtons c)[b := False]\<rparr>) (ij_clients s)"
proof (cases "pc_mouseButtons c ! b")
  case True
  then show ?thesis using assms by (simp add: release_button_def client_of_def ij_simps)
next
  case False
  then have "(pc_mouseButtons c)[b := False] = pc_mouseButtons c" using list_update_id [of "pc_mouseButtons c" b] by simp
  then have "c\<lparr>pc_mouseButtons := (pc_mouseButtons c)[b := False]\<rparr> = c" by simp
  then show ?thesis
    using False assms upd_player_same [OF assms] by (simp add: release_button_def client_of_def)
qed

lemma release_key_inv:
  assumes inv: "ij_inv s" and c: "find_player p (ij_clients s) = Some c" and vk: "0 < vk" "vk < 256"
  shows "ij_inv (release_key mapVk si p vk s)"
proof -
  let ?f = "\<lambda>c. c\<lparr>pc_keysDown := (pc_keysDown c)[vk := False]\<rparr>"
  have tab: "table_ok (ij_clients s)" using inv by (simp add: ij_inv_def)
  have wf: "pc_wf c" by (rule table_ok_find [OF tab c])
  have tr: "tracked (upd_player p ?f (ij_clients s)) = (holds c - {Key (of_nat vk)}) \<union> others p (ij_clients s)"
    using tracked_upd [OF tab c, of ?f] vk wf by (simp add: holds_key_update)
  have "table_ok (upd_player p ?f (ij_clients s))" using vk by (intro table_ok_upd [OF tab]) simp_all
  moreover have "held (ij_out (release_key mapVk si p vk s)) \<subseteq>
      tracked (upd_player p ?f (ij_clients s)) \<union> refused (ij_out (release_key mapVk si p vk s))"
  proof (cases "pc_keysDown c ! vk")
    case True
    then have "ij_out (release_key mapVk si p vk s) = ij_out s @
        [SendInput (makeKeyInput mapVk (of_nat vk) False False) (si (makeKeyInput mapVk (of_nat vk) False False))]"
      using c by (simp add: release_key_def client_of_def ij_simps)
    then show ?thesis
      using inv tracked_split [OF tab c] unfolding tr by (auto simp: ij_inv_def ij_simps)
  next
    case False
    then have "Key (of_nat vk) \<notin> holds c" using vk by (auto simp: holds_def key_inject)
    then show ?thesis
      using inv tracked_split [OF tab c] False c unfolding tr
      by (auto simp: ij_inv_def release_key_def client_of_def)
  qed
  ultimately show ?thesis using release_key_clients [OF c, of mapVk si vk] by (simp add: ij_inv_def)
qed

lemma release_button_inv:
  assumes inv: "ij_inv s" and c: "find_player p (ij_clients s) = Some c" and b: "b < 5"
  shows "ij_inv (release_button si p b s)"
proof -
  let ?f = "\<lambda>c. c\<lparr>pc_mouseButtons := (pc_mouseButtons c)[b := False]\<rparr>"
  have tab: "table_ok (ij_clients s)" using inv by (simp add: ij_inv_def)
  have wf: "pc_wf c" by (rule table_ok_find [OF tab c])
  have tr: "tracked (upd_player p ?f (ij_clients s)) = (holds c - {Button b}) \<union> others p (ij_clients s)"
    using tracked_upd [OF tab c, of ?f] b wf by (simp add: holds_button_update)
  have "table_ok (upd_player p ?f (ij_clients s))" by (intro table_ok_upd [OF tab]) simp_all
  moreover have "held (ij_out (release_button si p b s)) \<subseteq>
      tracked (upd_player p ?f (ij_clients s)) \<union> refused (ij_out (release_button si p b s))"
  proof (cases "pc_mouseButtons c ! b")
    case True
    then have "ij_out (release_button si p b s) =
        ij_out s @ [SendInput (makeMouseButtonInput b False) (si (makeMouseButtonInput b False))]"
      using c by (simp add: release_button_def client_of_def ij_simps)
    then show ?thesis
      using inv b tracked_split [OF tab c] unfolding tr by (auto simp: ij_inv_def ij_simps)
  next
    case False
    then have "Button b \<notin> holds c" using b by (auto simp: holds_def)
    then show ?thesis
      using inv tracked_split [OF tab c] False c unfolding tr
      by (auto simp: ij_inv_def release_button_def client_of_def)
  qed
  ultimately show ?thesis using release_button_clients [OF c, of si b] by (simp add: ij_inv_def)
qed

definition key_up :: "nat \<Rightarrow> PerClient \<Rightarrow> PerClient" where
  "key_up vk c = c\<lparr>pc_keysDown := (pc_keysDown c)[vk := False]\<rparr>"

definition button_up :: "nat \<Rightarrow> PerClient \<Rightarrow> PerClient" where
  "button_up b c = c\<lparr>pc_mouseButtons := (pc_mouseButtons c)[b := False]\<rparr>"

definition released :: "PerClient \<Rightarrow> PerClient" where
  "released c = fold button_up [0..<5] (fold key_up [1..<256] c)"

definition perms_of :: "PerClient \<Rightarrow> InputPermissions" where
  "perms_of c = \<lparr>perm_controller = pc_controller c, perm_keyboard = pc_keyboard c, perm_mouse = pc_mouse c,
     perm_vibration = pc_vibration c\<rparr>"

lemma key_up_fields [simp]:
  "pc_playerIndex (key_up vk c) = pc_playerIndex c" "perms_of (key_up vk c) = perms_of c"
  "pc_mouseButtons (key_up vk c) = pc_mouseButtons c" "length (pc_keysDown (key_up vk c)) = length (pc_keysDown c)"
  by (simp_all add: key_up_def perms_of_def)

lemma button_up_fields [simp]:
  "pc_playerIndex (button_up b c) = pc_playerIndex c" "perms_of (button_up b c) = perms_of c"
  "pc_keysDown (button_up b c) = pc_keysDown c"
  "length (pc_mouseButtons (button_up b c)) = length (pc_mouseButtons c)"
  by (simp_all add: button_up_def perms_of_def)

lemma fold_key_up [simp]:
  "pc_playerIndex (fold key_up vks c) = pc_playerIndex c" "perms_of (fold key_up vks c) = perms_of c"
  "pc_mouseButtons (fold key_up vks c) = pc_mouseButtons c"
  "length (pc_keysDown (fold key_up vks c)) = length (pc_keysDown c)"
  by (induction vks arbitrary: c) simp_all

lemma nth_update_False: "v < length l \<Longrightarrow> l[a := False] ! v \<longleftrightarrow> l ! v \<and> v \<noteq> a"
  by (cases "a = v") auto

lemma fold_key_up_nth:
  "v < length (pc_keysDown c) \<Longrightarrow> pc_keysDown (fold key_up vks c) ! v \<longleftrightarrow> pc_keysDown c ! v \<and> v \<notin> set vks"
  by (induction vks arbitrary: c) (auto simp: key_up_def nth_update_False)

lemma fold_button_up [simp]:
  "pc_playerIndex (fold button_up bs c) = pc_playerIndex c" "perms_of (fold button_up bs c) = perms_of c"
  "pc_keysDown (fold button_up bs c) = pc_keysDown c"
  "length (pc_mouseButtons (fold button_up bs c)) = length (pc_mouseButtons c)"
  by (induction bs arbitrary: c) simp_all

lemma fold_button_up_nth:
  "v < length (pc_mouseButtons c) \<Longrightarrow>
     pc_mouseButtons (fold button_up bs c) ! v \<longleftrightarrow> pc_mouseButtons c ! v \<and> v \<notin> set bs"
  by (induction bs arbitrary: c) (auto simp: button_up_def nth_update_False)

lemma released_fields [simp]:
  "pc_playerIndex (released c) = pc_playerIndex c" "perms_of (released c) = perms_of c"
  by (simp_all add: released_def del: upt_rec_numeral)

lemma pc_wf_released: "pc_wf c \<Longrightarrow> pc_wf (released c)"
  by (simp add: pc_wf_def released_def fold_key_up_nth del: upt_rec_numeral)

lemma holds_released:
  assumes "pc_wf c" shows "holds (released c) = {}"
proof -
  have "\<not> pc_keysDown (released c) ! vk" if "vk < 256" for vk
    using that assms by (cases "vk = 0") (simp_all add: released_def pc_wf_def fold_key_up_nth del: upt_rec_numeral)
  moreover have "\<not> pc_mouseButtons (released c) ! b" if "b < 5" for b
    using that assms by (simp add: released_def pc_wf_def fold_button_up_nth del: upt_rec_numeral)
  ultimately show ?thesis by (auto simp: holds_def)
qed

lemma release_keys_fold:
  assumes "ij_inv s" and "find_player p (ij_clients s) = Some c" and "\<forall>vk \<in> set vks. 0 < vk \<and> vk < 256"
  shows "ij_inv (fold (release_key mapVk si p) vks s) \<and>
    ij_clients (fold (release_key mapVk si p) vks s) = upd_player p (fold key_up vks) (ij_clients s)"
  using assms
proof (induction vks arbitrary: s c)
  case Nil
  then show ?case by (simp add: upd_player_same)
next
  case (Cons vk vks)
  let ?t = "release_key mapVk si p vk s"
  have cl: "ij_clients ?t = upd_player p (key_up vk) (ij_clients s)"
    using release_key_clients [OF Cons.prems(2), of mapVk si vk] by (simp add: key_up_def [abs_def])
  have inv: "ij_inv ?t" using release_key_inv [OF Cons.prems(1,2)] Cons.prems(3) by simp
  have f: "find_player p (ij_clients ?t) = Some (key_up vk c)"
    using Cons.prems(2) by (simp add: cl ij_simps)
  from Cons.IH [OF inv f] Cons.prems(3) show ?case
    by (simp add: cl ij_simps comp_def)
qed

lemma release_buttons_fold:
  assumes "ij_inv s" and "find_player p (ij_clients s) = Some c" and "\<forall>b \<in> set bs. b < 5"
  shows "ij_inv (fold (release_button si p) bs s) \<and>
    ij_clients (fold (release_button si p) bs s) = upd_player p (fold button_up bs) (ij_clients s)"
  using assms
proof (induction bs arbitrary: s c)
  case Nil
  then show ?case by (simp add: upd_player_same)
next
  case (Cons b bs)
  let ?t = "release_button si p b s"
  have cl: "ij_clients ?t = upd_player p (button_up b) (ij_clients s)"
    using release_button_clients [OF Cons.prems(2), of si b] by (simp add: button_up_def [abs_def])
  have inv: "ij_inv ?t" using release_button_inv [OF Cons.prems(1,2)] Cons.prems(3) by simp
  have f: "find_player p (ij_clients ?t) = Some (button_up b c)"
    using Cons.prems(2) by (simp add: cl ij_simps)
  from Cons.IH [OF inv f] Cons.prems(3) show ?case
    by (simp add: cl ij_simps comp_def)
qed

lemma releaseAllKeys_effect:
  assumes inv: "ij_inv s"
  shows "ij_inv (releaseAllKeys mapVk si p s) \<and>
    ij_clients (releaseAllKeys mapVk si p s) = upd_player p released (ij_clients (ensureClient p s))"
proof -
  let ?s0 = "ensureClient p s"
  let ?s1 = "fold (release_key mapVk si p) [1..<256] ?s0"
  have f0: "find_player p (ij_clients ?s0) = Some (client_of p s)" by (simp add: ij_simps)
  have k: "ij_inv ?s1 \<and> ij_clients ?s1 = upd_player p (fold key_up [1..<256]) (ij_clients ?s0)"
    by (rule release_keys_fold [OF ij_inv_ensure [OF inv] f0]) (simp del: upt_rec_numeral)
  have f1: "find_player p (ij_clients ?s1) = Some (fold key_up [1..<256] (client_of p s))"
    using k f0 by (simp add: ij_simps del: upt_rec_numeral)
  have b: "ij_inv (fold (release_button si p) [0..<5] ?s1) \<and> ij_clients (fold (release_button si p) [0..<5] ?s1) =
      upd_player p (fold button_up [0..<5]) (ij_clients ?s1)"
    by (rule release_buttons_fold [OF conjunct1 [OF k] f1]) (simp del: upt_rec_numeral)
  have "upd_player p (fold button_up [0..<5]) (upd_player p (fold key_up [1..<256]) cs) = upd_player p released cs" for cs
    by (simp add: ij_simps released_def [abs_def] comp_def del: upt_rec_numeral)
  then show ?thesis using b k unfolding releaseAllKeys_def by (simp del: upt_rec_numeral fold_simps)
qed

section \<open>Every operation keeps track\<close>

lemma counters_inv [simp]:
  "ij_inv (s\<lparr>ij_rejectedEvents := n\<rparr>) = ij_inv s" "ij_inv (s\<lparr>ij_injectedEvents := n\<rparr>) = ij_inv s"
  "ij_inv (s\<lparr>ij_pads := g\<rparr>) = ij_inv s" "ij_inv (with_pads h s) = ij_inv s"
  "ij_inv (s\<lparr>ij_hasRumbleSender := r\<rparr>) = ij_inv s"
  by (simp_all add: ij_inv_def with_pads_def)

lemma outcome_inv [simp]: "ij_inv (fst (rejected s)) = ij_inv s" "ij_inv (fst (injected s)) = ij_inv s"
  by (simp_all add: rejected_def injected_def)

lemma send_counted_inv: "ij_inv (fst (send_counted si inp s)) = ij_inv (send si inp s)"
  by (simp add: send_counted_def)

lemma ij_inv_send_modified:
  assumes inv: "ij_inv s" and c: "find_player p (ij_clients s) = Some c"
    and f: "\<And>c. pc_playerIndex (f c) = pc_playerIndex c" "\<And>c. pc_wf c \<Longrightarrow> pc_wf (f c)"
    and eff: "\<And>H T R. H \<subseteq> T \<union> R \<Longrightarrow> os_effect (SendInput inp (si inp)) H \<subseteq>
      (if d then insert k T else T - {k}) \<union> refused_effect (SendInput inp (si inp)) R"
    and hold: "holds (f c) = (if d then insert k (holds c) else holds c - {k})"
  shows "ij_inv (send si inp (modify_client p f s))"
proof -
  have tab: "table_ok (ij_clients s)" using inv by (simp add: ij_inv_def)
  let ?T = "holds c \<union> others p (ij_clients s)"
  have "held (ij_out s @ [SendInput inp (si inp)]) \<subseteq>
      (if d then insert k ?T else ?T - {k}) \<union> refused (ij_out s @ [SendInput inp (si inp)])"
    unfolding held_snoc by (rule eff) (use inv tracked_split [OF tab c] in \<open>simp add: ij_inv_def\<close>)
  moreover have "(if d then insert k ?T else ?T - {k}) \<subseteq> tracked (upd_player p f (ij_clients s))"
    using tracked_upd [OF tab c f] by (auto simp: hold)
  ultimately show ?thesis using table_ok_upd [OF tab f] by (auto simp: ij_inv_def ij_simps)
qed

lemma ij_inv_send_neutral:
  assumes "ij_inv s" and "\<And>H. os_effect (SendInput inp (si inp)) H = H" and "\<And>R. refused_effect (SendInput inp (si inp)) R = R"
  shows "ij_inv (send si inp s)"
  using assms by (simp add: ij_inv_def ij_simps)

lemma ij_inv_applyEvent:
  assumes inv: "ij_inv s"
  shows "ij_inv (fst (applyEvent mapVk si p e s))"
proof -
  let ?s = "ensureClient p s" and ?code = "unat (ie_code e)"
  have inv': "ij_inv ?s" using inv by simp
  have c: "find_player p (ij_clients ?s) = Some (client_of p s)" by (simp add: ij_simps)
  have tab: "table_ok (ij_clients ?s)" using inv' by (simp add: ij_inv_def)
  have wf: "pc_wf (client_of p s)" by (rule table_ok_find [OF tab c])
  have code: "?code < 256" using unsigned_less [of "ie_code e", where 'a = nat] by simp
  have uc: "(ucast (ie_code e) :: u16) = of_nat ?code" by simp
  have key: "ij_inv (fst (send_counted si (makeKeyInput mapVk (ucast (ie_code e)) d x)
      (modify_client p (\<lambda>c. c\<lparr>pc_keysDown := (pc_keysDown c)[?code := d]\<rparr>) ?s)))" if "?code \<noteq> 0" for d x
    unfolding send_counted_inv uc
    by (rule ij_inv_send_modified [OF inv' c, where k = "Key (of_nat ?code)" and d = d])
      (use that wf code in \<open>auto simp: holds_key_update ij_simps\<close>)
  have but: "ij_inv (fst (send_counted si (makeMouseButtonInput ?code d)
      (modify_client p (\<lambda>c. c\<lparr>pc_mouseButtons := (pc_mouseButtons c)[?code := d]\<rparr>) ?s)))" if "?code < 5" for d
    unfolding send_counted_inv
    by (rule ij_inv_send_modified [OF inv' c, where k = "Button ?code" and d = d])
      (use that wf in \<open>auto simp: holds_button_update ij_simps\<close>)
  have mov: "ij_inv (fst (send_counted si (makeMouseMoveInput x y) ?s))"
    "ij_inv (fst (send_counted si (MouseInput 0 0 d MOUSEEVENTF_WHEEL) ?s))" for x y d
    unfolding send_counted_inv by (rule ij_inv_send_neutral [OF inv'], rule effect_move, rule effect_move)+
  show ?thesis
  proof (cases "ie_type e = KeyDown \<or> ie_type e = KeyUp")
    case True
    then show ?thesis
      unfolding applyEvent_def Let_def using inv' key by (cases "?code = 0") simp_all
  next
    case False
    then show ?thesis
      unfolding applyEvent_def Let_def using inv' but mov by (cases "?code < 5") simp_all
  qed
qed

lemma ij_inv_applyInput:
  assumes "ij_inv s"
  shows "ij_inv (fst (applyInput mapVk si rc p data s))"
proof -
  have inv: "ij_inv (ensureClient p s)" using assms(1) by simp
  have "ij_inv (fst (applyController rc p st (ensureClient p s)))" for st
    using inv by (simp add: applyController_def Let_def split: prod.split)
  then show ?thesis
    using assms inv ij_inv_applyEvent [OF inv, of _ _ p]
    by (simp add: applyInput_def Let_def split: option.split unpacked.split)
qed

lemma ij_inv_setPermissions:
  assumes inv: "ij_inv s"
  shows "ij_inv (setPermissions mapVk si alloc rc p perms s)"
proof -
  let ?f = "\<lambda>c. c\<lparr>pc_controller := perm_controller perms, pc_keyboard := perm_keyboard perms,
    pc_mouse := perm_mouse perms, pc_vibration := perm_vibration perms\<rparr>"
  let ?s = "ensureClient p s"
  have inv': "ij_inv ?s" using inv by simp
  then have tab: "table_ok (ij_clients ?s)" by (simp add: ij_inv_def)
  have c: "find_player p (ij_clients ?s) = Some (client_of p s)" by (simp add: ij_simps)
  have "tracked (upd_player p ?f (ij_clients ?s)) = tracked (ij_clients ?s)"
    using tracked_upd [OF tab c, of ?f] tracked_split [OF tab c] by simp
  moreover have "table_ok (upd_player p ?f (ij_clients ?s))" by (rule table_ok_upd [OF tab]) simp_all
  moreover define t where "t = modify_client p ?f ?s"
  ultimately have m: "ij_inv t" using inv' by (simp add: ij_inv_def ij_simps)
  show ?thesis
    unfolding setPermissions_def Let_def t_def [symmetric] using m releaseAllKeys_effect by simp
qed

lemma ij_inv_erase:
  assumes "table_ok cs" and "find_player p cs = Some c" and "holds c = {}"
  shows "table_ok (erase_player p cs) \<and> tracked (erase_player p cs) = tracked cs"
proof -
  have d: "distinct (map pc_playerIndex cs)" using assms(1) by (simp add: table_ok_def)
  have "tracked (erase_player p cs) = others p cs"
    using erase_player_filter [OF d] by (auto simp: tracked_def others_def)
  then show ?thesis
    using assms tracked_split [OF assms(1,2)] erase_player_filter [OF d, of p] d
    by (simp add: table_ok_def distinct_map_filter list_all_iff)
qed

lemma ij_inv_clientDisconnected:
  assumes inv: "ij_inv s"
  shows "ij_inv (clientDisconnected mapVk si p s)"
proof -
  let ?t = "releaseAllKeys mapVk si p s"
  have rel: "ij_inv ?t" and cl: "ij_clients ?t = upd_player p released (ij_clients (ensureClient p s))"
    using releaseAllKeys_effect [OF inv] by auto
  have "table_ok (ij_clients (ensureClient p s))" using ij_inv_ensure [OF inv, of p] by (simp add: ij_inv_def)
  then have wf: "pc_wf (client_of p s)" by (rule table_ok_find [where p = p]) (simp add: ij_simps)
  have f: "find_player p (ij_clients ?t) = Some (released (client_of p s))" by (simp add: cl ij_simps)
  have "table_ok (ij_clients ?t)" using rel by (simp add: ij_inv_def)
  from ij_inv_erase [OF this f holds_released [OF wf]] rel show ?thesis
    by (simp add: clientDisconnected_def Let_def ij_inv_def ij_simps)
qed

lemma shutdown_loop:
  fixes mapVk :: "u16 \<Rightarrow> u16" and si :: "INPUT \<Rightarrow> bool"
  assumes "ij_inv s"
  defines "step \<equiv> \<lambda>p s. with_pads (removePlayer p) (releaseAllKeys mapVk si p s)"
  shows "ij_inv (fold step ps s) \<and>
    (\<forall>q c. find_player q (ij_clients (fold step ps s)) = Some c \<longrightarrow> q \<in> set ps \<longrightarrow> holds c = {})"
  using assms(1)
proof (induction ps rule: rev_induct)
  case Nil
  then show ?case by simp
next
  case (snoc p ps)
  let ?t = "fold step ps s"
  have inv: "ij_inv ?t" using snoc by blast
  have cl: "ij_clients (step p ?t) = upd_player p released (ij_clients (ensureClient p ?t))"
    and inv': "ij_inv (step p ?t)"
    using releaseAllKeys_effect [OF inv, of mapVk si p] by (simp_all add: step_def ij_simps)
  have "table_ok (ij_clients (ensureClient p ?t))" using ij_inv_ensure [OF inv, of p] by (simp add: ij_inv_def)
  then have wf: "pc_wf (client_of p ?t)" by (rule table_ok_find [where p = p]) (simp add: ij_simps)
  have "holds c = {}" if "find_player q (ij_clients (step p ?t)) = Some c" "q \<in> insert p (set ps)" for q c
    using that snoc holds_released [OF wf] by (auto simp: cl ij_simps split: if_splits)
  then show ?case using inv' by simp
qed

lemma shutdown_players:
  assumes "ij_inv s"
  shows "pc_playerIndex ` set (ij_clients (fold (\<lambda>p s. with_pads (removePlayer p) (releaseAllKeys mapVk si p s)) ps s))
    = pc_playerIndex ` set (ij_clients s) \<union> set ps"
  using assms(1)
proof (induction ps arbitrary: s)
  case Nil
  then show ?case by simp
next
  case (Cons p ps)
  let ?t = "with_pads (removePlayer p) (releaseAllKeys mapVk si p s)"
  have cl: "ij_clients ?t = upd_player p released (ij_clients (ensureClient p s))" and inv: "ij_inv ?t"
    using releaseAllKeys_effect [OF Cons.prems, of mapVk si p] by (simp_all add: ij_simps)
  have "pc_playerIndex ` set (ij_clients ?t) = pc_playerIndex ` set (ij_clients (ensureClient p s))"
    using arg_cong [OF map_index_upd [of released p "ij_clients (ensureClient p s)"], of set] cl by simp
  also have "\<dots> = insert p (pc_playerIndex ` set (ij_clients s))"
  proof (cases "find_player p (ij_clients s)")
    case None
    then show ?thesis by (simp add: ensureClient_def new_client_def)
  next
    case (Some c)
    then show ?thesis using find_player_Some [OF Some] by (auto simp: ensureClient_def)
  qed
  finally show ?case using Cons.IH [OF inv] by simp
qed

lemma shutdown_releases:
  assumes inv: "ij_inv s"
  shows "ij_clients (ij_shutdown mapVk si s) = [] \<and>
    held (ij_out (ij_shutdown mapVk si s)) \<subseteq> refused (ij_out (ij_shutdown mapVk si s))"
proof -
  let ?ps = "map pc_playerIndex (ij_clients s)"
  let ?t = "fold (\<lambda>p s. with_pads (removePlayer p) (releaseAllKeys mapVk si p s)) ?ps s"
  have loop: "ij_inv ?t" "\<And>q c. find_player q (ij_clients ?t) = Some c \<Longrightarrow> q \<in> set ?ps \<Longrightarrow> holds c = {}"
    using shutdown_loop [OF inv, of mapVk si ?ps] by blast+
  have "holds c = {}" if "c \<in> set (ij_clients ?t)" for c
  proof -
    have "pc_playerIndex c \<in> set ?ps" using that shutdown_players [OF inv, of mapVk si ?ps] by auto
    moreover have "distinct (map pc_playerIndex (ij_clients ?t))" using loop(1) by (simp add: ij_inv_def table_ok_def)
    ultimately show ?thesis using loop(2) unique_player [OF _ that] by blast
  qed
  then have "tracked (ij_clients ?t) = {}" by (auto simp: tracked_def)
  then have "held (ij_out ?t) \<subseteq> refused (ij_out ?t)" using loop(1) by (auto simp: ij_inv_def)
  then show ?thesis by (simp add: ij_shutdown_def Let_def ij_simps)
qed

lemma ij_inv_shutdown:
  assumes "ij_inv s" shows "ij_inv (ij_shutdown mapVk si s)"
  using shutdown_releases [OF assms, of mapVk si] by (auto simp: ij_inv_def table_ok_def)

lemma ij_inv_vibration: "ij_inv s \<Longrightarrow> ij_inv (vibration_notification t l r s)"
  by (simp add: vibration_notification_def onVibration_def ij_inv_def ij_simps split: option.split)

lemma ij_inv_handle:
  assumes "ij_inv s"
  shows "ij_inv (ij_handle mapVk e s)"
proof (cases e)
  case (Pair si ev)
  then show ?thesis
    using assms ij_inv_setPermissions ij_inv_applyInput ij_inv_clientDisconnected ij_inv_shutdown ij_inv_vibration
    by (cases ev) (simp_all add: setRumbleSender_def ij_init_def)
qed

lemma ij_inv_new: "ij_inv InputInjector_new"
  by (simp add: ij_inv_def InputInjector_new_def table_ok_def held_def)

interpretation ij: event_machine InputInjector_new "ij_handle mapVk" ij_inv
  by unfold_locales (simp_all add: ij_inv_new ij_inv_handle)

section \<open>Permissions\<close>

text \<open>The specification: a table of permissions per player that only pushes, departures and shutdown
  change; \<open>granted\<close> reads the injector's table through the defaults of an unknown player.\<close>

fun perm_spec :: "ij_event \<Rightarrow> (u8 \<Rightarrow> InputPermissions) \<Rightarrow> (u8 \<Rightarrow> InputPermissions)" where
  "perm_spec (ISetPermissions alloc rc p perms) m = m(p := perms)"
| "perm_spec (IDisconnected p) m = m(p := InputPermissions_default)"
| "perm_spec IShutdown m = (\<lambda>_. InputPermissions_default)"
| "perm_spec _ m = m"

definition granted :: "InputInjector \<Rightarrow> u8 \<Rightarrow> InputPermissions" where
  "granted s p = perms_of (client_of p s)"

lemma perms_new [simp]: "perms_of (new_client p) = InputPermissions_default"
  by (simp add: perms_of_def new_client_def PerClient_default_def InputPermissions_default_def)

lemma granted_clients: "ij_clients t = ij_clients s \<Longrightarrow> granted t = granted s"
  by (simp add: granted_def client_of_def fun_eq_iff)

lemma granted_ensure [simp]: "granted (ensureClient p s) = granted s"
  by (simp add: granted_def ij_simps fun_eq_iff)

lemma granted_modify:
  assumes "find_player p (ij_clients s) = Some c" and "\<And>c. pc_playerIndex (f c) = pc_playerIndex c"
  shows "granted (modify_client p f s) = (granted s)(p := perms_of (f c))"
  using assms by (auto simp: granted_def client_of_def ij_simps fun_eq_iff)

lemma client_of_Some: "find_player p (ij_clients s) = Some c \<Longrightarrow> client_of p s = c"
  by (simp add: client_of_def)

lemma granted_release:
  assumes "ij_inv s"
  shows "granted (releaseAllKeys mapVk si p s) = granted s"
proof -
  have cl: "ij_clients (releaseAllKeys mapVk si p s) = upd_player p released (ij_clients (ensureClient p s))"
    using releaseAllKeys_effect [OF assms] by simp
  show ?thesis
    by (auto simp: granted_def client_of_def cl ij_simps fun_eq_iff split: option.split)
qed

lemma granted_applyEvent: "granted (fst (applyEvent mapVk si p e s)) = granted s"
proof -
  let ?s = "ensureClient p s"
  have c: "find_player p (ij_clients ?s) = Some (client_of p s)" by (simp add: ij_simps)
  have same: "granted (modify_client p f ?s) = granted s"
    if "\<And>c. pc_playerIndex (f c) = pc_playerIndex c" "\<And>c. perms_of (f c) = perms_of c" for f
    using granted_modify [OF c that(1)] that(2) by (simp add: granted_def ij_simps fun_eq_iff)
  have sc: "granted (fst (send_counted si inp t)) = granted t" for inp t
    by (rule granted_clients) (simp add: send_counted_def rejected_def injected_def send_def)
  have rej: "granted (fst (rejected t)) = granted t" for t
    by (rule granted_clients) (simp add: rejected_def)
  have "granted (modify_client p (\<lambda>c. c\<lparr>pc_keysDown := (pc_keysDown c)[n := d]\<rparr>) ?s) = granted s"
    "granted (modify_client p (\<lambda>c. c\<lparr>pc_mouseButtons := (pc_mouseButtons c)[n := d]\<rparr>) ?s) = granted s" for n d
    by (rule same; simp add: perms_of_def)+
  then show ?thesis
    by (simp add: applyEvent_def Let_def sc rej)
qed

lemma granted_applyInput: "granted (fst (applyInput mapVk si rc p data s)) = granted s"
proof -
  have rej: "granted (fst (rejected t)) = granted t" for t
    by (rule granted_clients) (simp add: rejected_def)
  have "granted (fst (applyController rc p st t)) = granted t" for st t
    by (rule granted_clients) (simp add: applyController_def rejected_def injected_def Let_def split: prod.split)
  then show ?thesis
    by (simp add: applyInput_def Let_def rej granted_applyEvent split: option.split unpacked.split)
qed

lemma perms_eta: "\<lparr>perm_controller = perm_controller q, perm_keyboard = perm_keyboard q,
    perm_mouse = perm_mouse q, perm_vibration = perm_vibration q\<rparr> = q" for q :: InputPermissions
  by (cases q) simp

lemma granted_setPermissions:
  assumes inv: "ij_inv s"
  shows "granted (setPermissions mapVk si alloc rc p perms s) = (granted s)(p := perms)"
proof -
  let ?f = "\<lambda>c. c\<lparr>pc_controller := perm_controller perms, pc_keyboard := perm_keyboard perms,
    pc_mouse := perm_mouse perms, pc_vibration := perm_vibration perms\<rparr>"
  let ?s = "ensureClient p s"
  define t where "t = modify_client p ?f ?s"
  have c: "find_player p (ij_clients ?s) = Some (client_of p s)" by (simp add: ij_simps)
  have tab: "table_ok (ij_clients ?s)" using ij_inv_ensure [OF inv, of p] by (simp add: ij_inv_def)
  have g: "granted t = (granted s)(p := perms)"
    using granted_modify [OF c, of ?f] by (simp add: t_def perms_of_def perms_eta)
  have "tracked (upd_player p ?f (ij_clients ?s)) = tracked (ij_clients ?s)"
    using tracked_upd [OF tab c, of ?f] tracked_split [OF tab c] by simp
  moreover have "table_ok (upd_player p ?f (ij_clients ?s))" by (rule table_ok_upd [OF tab]) simp_all
  ultimately have inv_t: "ij_inv t" using ij_inv_ensure [OF inv, of p] by (simp add: ij_inv_def ij_simps t_def)
  have wp: "granted (with_pads h t) = granted t" for h by (rule granted_clients) (simp add: with_pads_def)
  have rel: "granted (releaseAllKeys mapVk si p u) = granted t" if "u = t \<or> (\<exists>h. u = with_pads h t)" for u
    using that inv_t wp granted_release [of u mapVk si p] by auto
  show ?thesis
    unfolding setPermissions_def Let_def t_def [symmetric] using g wp rel by auto
qed

lemma granted_clientDisconnected:
  assumes inv: "ij_inv s"
  shows "granted (clientDisconnected mapVk si p s) = (granted s)(p := InputPermissions_default)"
proof -
  let ?t = "releaseAllKeys mapVk si p s"
  have d: "distinct (map pc_playerIndex (ij_clients ?t))"
    using releaseAllKeys_effect [OF inv, of mapVk si p] unfolding ij_inv_def table_ok_def by blast
  have "granted (clientDisconnected mapVk si p s) = (granted ?t)(p := InputPermissions_default)"
    using find_player_erase [OF d]
    by (auto simp: clientDisconnected_def Let_def granted_def client_of_def with_pads_def fun_eq_iff)
  then show ?thesis by (simp add: granted_release [OF inv])
qed

lemma granted_handle:
  assumes "ij_inv s"
  shows "granted (ij_handle mapVk e s) = perm_spec (snd e) (granted s)"
proof (cases e)
  case (Pair si ev)
  have empty: "granted t = (\<lambda>_. InputPermissions_default)" if "ij_clients t = []" for t
    using that by (simp add: granted_def client_of_def find_player_def fun_eq_iff)
  have vib: "granted (vibration_notification t l r s) = granted s" for t l r
    by (rule granted_clients) (simp add: vibration_notification_def onVibration_def split: option.split)
  have misc: "granted (setRumbleSender s) = granted s" "granted (fst (ij_init a b c d i x s)) = granted s" for a b c d i x
    by (rule granted_clients, simp add: setRumbleSender_def ij_init_def with_pads_def)+
  show ?thesis
    using assms Pair empty shutdown_releases [OF assms(1), of mapVk si]
    by (cases ev) (simp_all add: granted_setPermissions granted_applyInput granted_clientDisconnected vib misc)
qed

text \<open>The injector's table refines the specification on every run.\<close>

lemma granted_run:
  "granted (fold (ij_handle mapVk) es InputInjector_new) =
    fold (perm_spec \<circ> snd) es (\<lambda>_. InputPermissions_default)"
proof (induction es rule: rev_induct)
  case Nil
  then show ?case by (simp add: granted_def client_of_def find_player_def InputInjector_new_def fun_eq_iff)
next
  case (snoc e es)
  then show ?case using ij.inv_run [of mapVk es] by (simp add: granted_handle)
qed

text \<open>What one datagram can make the injector do, by the permissions of its player.\<close>

fun input_allowed :: "InputPermissions \<Rightarrow> INPUT \<Rightarrow> bool" where
  "input_allowed q (KeyInput vk scan flags) = perm_keyboard q"
| "input_allowed q (MouseInput dx dy data flags) = perm_mouse q"

definition native_step :: "InputPermissions \<Rightarrow> InputInjector \<Rightarrow> InputInjector \<Rightarrow> bool" where
  "native_step q s t \<longleftrightarrow> ij_out t = ij_out s \<or>
     (\<exists>inp ok. input_allowed q inp \<and> ij_out t = ij_out s @ [SendInput inp ok])"

definition pad_step :: "InputPermissions \<Rightarrow> u8 \<Rightarrow> InputInjector \<Rightarrow> InputInjector \<Rightarrow> bool" where
  "pad_step q p s t \<longleftrightarrow> vg_pads (ij_pads t) = vg_pads (ij_pads s) \<and>
     (vg_calls (ij_pads t) = vg_calls (ij_pads s) \<or>
      perm_controller q \<and> (\<exists>h r. (p, h) \<in> set (vg_pads (ij_pads s)) \<and>
         vg_calls (ij_pads t) = vg_calls (ij_pads s) @ [VUpdate h r]))"

definition same_others :: "u8 \<Rightarrow> InputInjector \<Rightarrow> InputInjector \<Rightarrow> bool" where
  "same_others p s t \<longleftrightarrow> (\<forall>q. q \<noteq> p \<longrightarrow> find_player q (ij_clients t) = find_player q (ij_clients s))"

definition input_step :: "InputPermissions \<Rightarrow> u8 \<Rightarrow> InputInjector \<Rightarrow> InputInjector \<Rightarrow> bool" where
  "input_step q p s t \<longleftrightarrow> native_step q s t \<and> pad_step q p s t \<and> same_others p s t"

lemmas step_defs = input_step_def native_step_def pad_step_def same_others_def

lemma find_player_ensure_other: "q \<noteq> p \<Longrightarrow> find_player q (ij_clients (ensureClient p s)) = find_player q (ij_clients s)"
proof -
  assume "q \<noteq> p"
  then have "find_player q [new_client p] = None" by (simp add: find_player_def new_client_def)
  then show ?thesis by (simp add: ensureClient_def find_player_append split: option.split)
qed

lemma ensure_twice [simp]: "ensureClient p (ensureClient p s) = ensureClient p s"
proof (cases "find_player p (ij_clients s)")
  case None
  moreover have "find_player p [new_client p] = Some (new_client p)" by (simp add: find_player_def new_client_def)
  ultimately show ?thesis by (simp add: ensureClient_def find_player_append)
next
  case (Some c)
  then show ?thesis by (simp add: ensureClient_def)
qed

lemma ensure_keeps [simp]: "ij_out (ensureClient p s) = ij_out s" "ij_pads (ensureClient p s) = ij_pads s"
  by (simp_all add: ensureClient_def split: option.split)

lemma step_rejected: "input_step q p s (fst (rejected s))" "input_step q p s (fst (rejected (ensureClient p s)))"
  by (simp_all add: step_defs rejected_def find_player_ensure_other)

lemma step_send_counted:
  assumes "input_allowed q inp" and "ij_out t = ij_out s" and "ij_pads t = ij_pads s" and "same_others p s t"
  shows "input_step q p s (fst (send_counted si inp t))"
  using assms by (auto simp: step_defs send_counted_def send_def injected_def rejected_def)

lemma step_send_modified:
  assumes "input_allowed q inp" and "\<And>c. pc_playerIndex (f c) = pc_playerIndex c"
  shows "input_step q p s (fst (send_counted si inp (modify_client p f (ensureClient p s))))"
  using assms
  by (intro step_send_counted) (simp_all add: modify_client_def same_others_def find_player_upd find_player_ensure_other)

lemma step_send_ensured:
  "input_allowed q inp \<Longrightarrow> input_step q p s (fst (send_counted si inp (ensureClient p s)))"
  by (rule step_send_counted) (simp_all add: same_others_def find_player_ensure_other)

lemma allowed_inputs:
  "perm_keyboard q \<Longrightarrow> input_allowed q (makeKeyInput mapVk vk d x)"
  "perm_mouse q \<Longrightarrow> input_allowed q (makeMouseMoveInput mx my)"
  "perm_mouse q \<Longrightarrow> input_allowed q (makeMouseButtonInput b d)"
  by (simp_all add: makeKeyInput_def makeMouseMoveInput_def makeMouseButtonInput_def)

lemma step_applyEvent:
  assumes "if ie_type e = KeyDown \<or> ie_type e = KeyUp then perm_keyboard q else perm_mouse q"
  shows "input_step q p s (fst (applyEvent mapVk si p e s))"
proof (cases "ie_type e = KeyDown \<or> ie_type e = KeyUp")
  case True
  then show ?thesis
    using assms by (simp add: applyEvent_def Let_def step_rejected step_send_modified allowed_inputs)
next
  case False
  then show ?thesis
    using assms by (simp add: applyEvent_def Let_def step_rejected step_send_modified step_send_ensured allowed_inputs)
qed

lemma step_applyController:
  assumes "perm_controller q"
  shows "input_step q p s (fst (applyController rc p st (ensureClient p s)))"
  using assms
  by (auto simp: applyController_def Let_def step_rejected vg_update_def vg_call_def split: option.split prod.split)
    (auto simp: step_defs injected_def rejected_def find_player_ensure_other dest: map_of_SomeD)

lemma step_applyInput: "input_step (granted s p) p s (fst (applyInput mapVk si rc p data s))"
proof -
  have g: "pc_controller (client_of p (ensureClient p s)) = perm_controller (granted s p)"
    "pc_keyboard (client_of p (ensureClient p s)) = perm_keyboard (granted s p)"
    "pc_mouse (client_of p (ensureClient p s)) = perm_mouse (granted s p)"
    by (simp_all add: granted_def perms_of_def ij_simps)
  have ens: "applyEvent mapVk si p e (ensureClient p s) = applyEvent mapVk si p e s" for e
    by (simp add: applyEvent_def)
  show ?thesis
    by (simp add: applyInput_def Let_def g ens step_rejected step_applyController step_applyEvent
        split: option.split unpacked.split)
qed

section \<open>Properties\<close>

text \<open>C15: After any run, whatever \<^verbatim>\<open>SendInput\<close> answered, one more datagram of player \<open>p\<close> makes the
  injector send at most one native event, a key only with the keyboard permission and a mouse event
  only with the mouse permission in force, and update at most the pad of \<open>p\<close>, only with the controller
  permission; the records of the other players stay as they were. The permissions in force are those
  of the abstract table: the last push since the player joined, or the defaults.\<close>

theorem input_needs_permission:
  assumes "s = fold (ij_handle mapVk) es InputInjector_new"
    and "q = fold (perm_spec \<circ> snd) es (\<lambda>_. InputPermissions_default) p"
    and "t = fst (applyInput mapVk si rc p data s)"
  shows "native_step q s t \<and> pad_step q p s t \<and> same_others p s t"
  using step_applyInput [of s p mapVk si rc data] granted_run [of mapVk es] assms
  by (simp add: input_step_def)

definition perms_example :: InputPermissions where
  "perms_example = \<lparr>perm_controller = False, perm_keyboard = True, perm_mouse = False, perm_vibration = True\<rparr>"

definition key_down_example :: bytes where
  "key_down_example = packInputEvent (InputEvent_default\<lparr>ie_type := KeyDown, ie_code := 65\<rparr>)"

definition injector_example :: "((INPUT \<Rightarrow> bool) \<times> ij_event) list" where
  "injector_example = [(\<lambda>_. True, ISetPermissions None 0 1 perms_example), (\<lambda>_. True, IApply 0 1 key_down_example)]"

theorem input_needs_permission_witness:
  "fold (perm_spec \<circ> snd) injector_example (\<lambda>_. InputPermissions_default) 1 = perms_example \<and>
   (let s = fold (ij_handle ucast) injector_example InputInjector_new
    in ij_out s \<noteq> [] \<and> native_step perms_example s (fst (applyInput ucast (\<lambda>_. True) 0 1 key_down_example s)))"
proof -
  have q: "perms_example = fold (perm_spec \<circ> snd) injector_example (\<lambda>_. InputPermissions_default) 1"
    by (simp add: injector_example_def)
  have "ij_out (fold (ij_handle ucast) injector_example InputInjector_new) \<noteq> []" by code_simp
  then show ?thesis
    using input_needs_permission [OF refl q refl, of ucast "\<lambda>_. True" 0 key_down_example] q by (simp add: Let_def)
qed

text \<open>C16: Only what the system itself refused to release can stay pressed. On every run, whatever
  \<^verbatim>\<open>SendInput\<close> answers, each key (by its virtual-key code) and button that the injected events hold down is
  recorded for a player of the table, or its release was refused and no event for it accepted since; after
  \<^verbatim>\<open>shutdown\<close> only the latter can be down. So when no release is refused nothing stays pressed without a record,
  and \<^verbatim>\<open>shutdown\<close> leaves nothing pressed.\<close>

theorem no_stuck_input:
  assumes "s = fold (ij_handle mapVk) es InputInjector_new"
  shows "held (ij_out s) \<subseteq> tracked (ij_clients s) \<union> refused (ij_out s) \<and>
    held (ij_out (ij_shutdown mapVk si s)) \<subseteq> refused (ij_out (ij_shutdown mapVk si s))"
  using ij.inv_run [of mapVk es] shutdown_releases [OF ij.inv_run, of mapVk si mapVk es] assms
  by (simp add: ij_inv_def)

theorem no_stuck_input_witness:
  "let s = fold (ij_handle ucast) injector_example InputInjector_new; t = ij_shutdown ucast (\<lambda>_. True) s
   in Key 65 \<in> held (ij_out s) \<and> Key 65 \<in> tracked (ij_clients s) \<and> held (ij_out t) = {}"
proof -
  let ?s = "fold (ij_handle ucast) injector_example InputInjector_new"
  have out: "ij_out ?s = [SendInput (makeKeyInput ucast 65 True False) True]" by code_simp
  then have h: "Key 65 \<in> held (ij_out ?s)" "refused (ij_out ?s) = {}" by (simp_all add: held_def refused_def effect_key)
  have rel: "ij_out (releaseAllKeys ucast (\<lambda>_. True) 1 ?s) =
      [SendInput (makeKeyInput ucast 65 True False) True, SendInput (makeKeyInput ucast 65 False False) True]" by code_simp
  have "map pc_playerIndex (ij_clients ?s) = [1]" by code_simp
  then have "ij_out (ij_shutdown ucast (\<lambda>_. True) ?s) = ij_out (releaseAllKeys ucast (\<lambda>_. True) 1 ?s)"
    by (simp add: ij_shutdown_def with_pads_def Let_def)
  then have "refused (ij_out (ij_shutdown ucast (\<lambda>_. True) ?s)) = {}" by (simp add: rel refused_def effect_key)
  then show ?thesis using no_stuck_input [OF refl, of ucast injector_example "\<lambda>_. True"] h by (auto simp: Let_def)
qed

text \<open>The exception is real: the injector forgets a key before it knows whether the system took the release.
  If the system refuses it, the key is down, no record names it, and no later disconnect or shutdown tries
  again.\<close>

lemma refused_release_forgotten:
  assumes inv: "ij_inv s" and c: "find_player p (ij_clients s) = Some c" and vk: "0 < vk" "vk < 256" "pc_keysDown c ! vk"
    and held: "Key (of_nat vk) \<in> held (ij_out s)" and refuses: "\<not> si (makeKeyInput mapVk (of_nat vk) False False)"
  shows "Key (of_nat vk) \<in> held (ij_out (release_key mapVk si p vk s))"
    and "find_player p (ij_clients (release_key mapVk si p vk s)) = Some (key_up vk c)"
    and "Key (of_nat vk) \<notin> holds (key_up vk c)"
proof -
  show "Key (of_nat vk) \<in> held (ij_out (release_key mapVk si p vk s))"
    using assms by (simp add: release_key_def client_of_def ij_simps)
  show "find_player p (ij_clients (release_key mapVk si p vk s)) = Some (key_up vk c)"
    using c by (simp add: release_key_clients [OF c] find_player_upd key_up_def)
  have "pc_wf c" using inv table_ok_find [OF _ c] by (simp add: ij_inv_def)
  then show "Key (of_nat vk) \<notin> holds (key_up vk c)" using vk by (simp add: key_up_def holds_key_update)
qed

theorem refused_release_sticks:
  "\<exists>es. let s = fold (ij_handle ucast) es InputInjector_new
    in ij_clients s = [] \<and> held (ij_out s) = {Key 65} \<and> held (ij_out (ij_shutdown ucast (\<lambda>_. True) s)) = {Key 65}"
proof
  let ?es = "injector_example @ [(\<lambda>_. False, IDisconnected 1)]"
  let ?s = "fold (ij_handle ucast) ?es InputInjector_new"
  have "ij_clients ?s = []" "ij_out ?s = [SendInput (makeKeyInput ucast 65 True False) True,
      SendInput (makeKeyInput ucast 65 False False) False]" by code_simp+
  moreover from this have "ij_out (ij_shutdown ucast (\<lambda>_. True) ?s) = ij_out ?s" by (simp add: ij_shutdown_def with_pads_def Let_def)
  ultimately show "let s = ?s in ij_clients s = [] \<and> held (ij_out s) = {Key 65} \<and>
      held (ij_out (ij_shutdown ucast (\<lambda>_. True) s)) = {Key 65}"
    by (simp add: Let_def held_def effect_key)
qed

section \<open>Plugging the pad\<close>

fun grants_controller :: "u8 \<Rightarrow> ij_event \<Rightarrow> bool" where
  "grants_controller p (ISetPermissions alloc rc r perms) = (r = p \<longrightarrow> perm_controller perms)"
| "grants_controller p _ = True"

lemma pads_release [simp]: "ij_pads (releaseAllKeys mapVk si p s) = ij_pads s"
proof -
  have k: "ij_pads (fold (release_key mapVk si p) vks t) = ij_pads t" for vks t
    by (induction vks arbitrary: t) (simp_all add: release_key_def modify_client_def send_def)
  have "ij_pads (fold (release_button si p) bs t) = ij_pads t" for bs t
    by (induction bs arbitrary: t) (simp_all add: release_button_def modify_client_def send_def)
  with k show ?thesis by (simp add: releaseAllKeys_def)
qed

lemma drop_pad_subset: "set (fst (drop_pad p pads)) \<subseteq> set pads"
  by (induction pads) (auto simp: Let_def case_prod_beta split: if_splits)

lemma hasPlayer_remove: "hasPlayer p (removePlayer r g) \<Longrightarrow> hasPlayer p g"
  using drop_pad_subset [of r "vg_pads g"]
  by (auto simp: removePlayer_def hasPlayer_def list_ex_iff vg_call_def split: prod.splits option.splits)

lemma hasPlayer_add: "r \<noteq> p \<Longrightarrow> hasPlayer p (fst (addPlayer alloc rc r g)) = hasPlayer p g"
  by (auto simp: addPlayer_def hasPlayer_def vg_call_def Let_def split: option.split)

lemma pads_shutdown: "\<not> hasPlayer p (ij_pads (ij_shutdown mapVk si s))"
  by (simp add: ij_shutdown_def with_pads_def Let_def hasPlayer_def)

lemma pads_setPermissions:
  assumes "\<not> hasPlayer p (ij_pads s)" and "r = p \<longrightarrow> perm_controller (granted s p) \<and> perm_controller perms"
  shows "\<not> hasPlayer p (ij_pads (setPermissions mapVk si alloc rc r perms s))"
proof -
  have "ij_pads (setPermissions mapVk si alloc rc r perms s) =
      (if perm_controller perms \<and> \<not> perm_controller (granted s r) then fst (addPlayer alloc rc r (ij_pads s))
       else if \<not> perm_controller perms \<and> perm_controller (granted s r) then removePlayer r (ij_pads s)
       else ij_pads s)"
  proof -
    define f where "f = (\<lambda>c :: PerClient. c\<lparr>pc_controller := perm_controller perms, pc_keyboard := perm_keyboard perms,
      pc_mouse := perm_mouse perms, pc_vibration := perm_vibration perms\<rparr>)"
    have was: "pc_controller (client_of r (ensureClient r s)) = perm_controller (granted s r)"
      by (simp add: granted_def perms_of_def ij_simps)
    have keep: "ij_pads (modify_client r f (ensureClient r s)) = ij_pads s"
      by (simp add: modify_client_def)
    have wp: "ij_pads (with_pads h t) = h (ij_pads t)" for h t by (simp add: with_pads_def)
    show ?thesis unfolding setPermissions_def Let_def f_def [symmetric] was by (simp add: keep wp)
  qed
  moreover have "\<not> hasPlayer p (removePlayer r (ij_pads s))" using assms(1) hasPlayer_remove by blast
  moreover have "r \<noteq> p \<Longrightarrow> \<not> hasPlayer p (fst (addPlayer alloc rc r (ij_pads s)))"
    using assms(1) hasPlayer_add by blast
  ultimately show ?thesis using assms by (cases "r = p") simp_all
qed

lemma pads_handle:
  assumes "\<not> hasPlayer p (ij_pads s)" and "perm_controller (granted s p)" and "grants_controller p (snd e)"
  shows "\<not> hasPlayer p (ij_pads (ij_handle mapVk e s))"
proof (cases e)
  case (Pair si ev)
  have app: "vg_pads (ij_pads (fst (applyInput mapVk si rc r data s))) = vg_pads (ij_pads s)" for rc r data
    using step_applyInput [of s r mapVk si rc data] by (simp add: step_defs)
  have vib: "ij_pads (vibration_notification t l r s) = ij_pads s" for t l r
    by (simp add: vibration_notification_def onVibration_def split: option.split)
  have init: "vg_pads (fst (vg_init a b c d i x g)) = vg_pads g" for a b c d i x g
    by (simp add: vg_init_def Let_def vg_call_def)
  show ?thesis
  proof (cases ev)
    case (ISetPermissions alloc rc r perms)
    then show ?thesis using assms Pair pads_setPermissions [of p s r perms] by auto
  next
    case (IApply rc r data)
    then show ?thesis using assms(1) Pair app by (simp add: hasPlayer_def)
  next
    case (IDisconnected r)
    then show ?thesis
      using assms(1) Pair hasPlayer_remove by (auto simp: clientDisconnected_def Let_def with_pads_def)
  qed (use assms(1) Pair vib init pads_shutdown in
      \<open>auto simp: setRumbleSender_def ij_init_def with_pads_def hasPlayer_def\<close>)
qed

definition padless :: "u8 \<Rightarrow> InputInjector \<Rightarrow> bool" where
  "padless p s \<longleftrightarrow> ij_inv s \<and> \<not> hasPlayer p (ij_pads s) \<and> perm_controller (granted s p)"

interpretation ij_pad: guarded_machine InputInjector_new "ij_handle mapVk" "padless p" "\<lambda>e. grants_controller p (snd e)"
proof unfold_locales
  show "padless p InputInjector_new"
    by (simp add: padless_def ij_inv_new) (simp add: InputInjector_new_def VirtualGamepad_new_def hasPlayer_def granted_def
        client_of_def find_player_def InputPermissions_default_def)
next
  fix s and e :: "(INPUT \<Rightarrow> bool) \<times> ij_event"
  assume s: "padless p s" and e: "grants_controller p (snd e)"
  have "perm_controller (perm_spec (snd e) (granted s) p)"
    using s e by (cases "snd e") (auto simp: padless_def InputPermissions_default_def)
  then show "padless p (ij_handle mapVk e s)"
    using s e pads_handle [of p s e mapVk] granted_handle [of s mapVk e] ij_inv_handle [of s mapVk e] by (simp add: padless_def)
qed

text \<open>A player whose controller permission is never withdrawn, which is the default and what the host
  grants first, never gets a virtual pad, since the pad is plugged only by a push that turns the
  permission from off to on; so every controller state of that player with the right version and a
  connected pad is rejected.\<close>

theorem unrevoked_controller_has_no_pad:
  assumes "list_all (\<lambda>e. grants_controller p (snd e)) es"
    and "s = fold (ij_handle mapVk) es InputInjector_new"
    and "unpackInput data = Some (Controller st)" and "gc_version st = 1" and "gc_connected st \<noteq> 0"
  shows "\<not> hasPlayer p (ij_pads s) \<and> \<not> snd (applyInput mapVk si rc p data s)"
proof -
  have np: "\<not> hasPlayer p (ij_pads s)" using ij_pad.inv_run [OF assms(1)] assms(2) by (simp add: padless_def)
  then have "map_of (vg_pads (ij_pads s)) p = None"
    by (auto simp: hasPlayer_def list_ex_iff map_of_eq_None_iff)
  with np assms(3-5) show ?thesis
    by (simp add: applyInput_def applyController_def rejected_def Let_def vg_update_def)
qed

definition pad_example :: GameControllerState where
  "pad_example = GameControllerState_default\<lparr>gc_connected := 1\<rparr>"

definition granted_example :: "((INPUT \<Rightarrow> bool) \<times> ij_event) list" where
  "granted_example =
     [(\<lambda>_. True, IInit True True \<lparr>ve_target_free = True, ve_register = True, ve_unregister = True, ve_disconnect = True\<rparr>
        True 0 []),
      (\<lambda>_. True, ISetPermissions (Some 7) 0 1 InputPermissions_default)]"

theorem unrevoked_controller_has_no_pad_witness:
  "let s = fold (ij_handle ucast) granted_example InputInjector_new
   in vg_client (ij_pads s) \<and> \<not> hasPlayer 1 (ij_pads s) \<and>
      \<not> snd (applyInput ucast (\<lambda>_. True) 0 1 (packControllerState pad_example) s)"
proof -
  have ok: "list_all (\<lambda>e. grants_controller 1 (snd e)) granted_example"
    by (simp add: granted_example_def InputPermissions_default_def)
  have u: "unpackInput (packControllerState pad_example) = Some (Controller pad_example)" by code_simp
  have v: "gc_version pad_example = 1" "gc_connected pad_example \<noteq> 0"
    by (simp_all add: pad_example_def GameControllerState_default_def)
  have "vg_client (ij_pads (fold (ij_handle ucast) granted_example InputInjector_new))" by code_simp
  then show ?thesis using unrevoked_controller_has_no_pad [OF ok refl u v] by (simp add: Let_def)
qed

end
