(* ===== verification/Crypto.thy ===== *)
theory Crypto
  imports RP_Prelude
begin

text \<open>
  \<^verbatim>\<open>security/Crypto.cpp\<close>. The Windows CNG library is not part of the program: the record \<open>Cng\<close> has
  one function for each group of CNG calls the wrappers make, \<open>None\<close> standing for a failing
  status, and everything below takes it as an argument. What the program relies on is stated as
  named predicates: \<open>cng_hmac_len\<close> (an HMAC-SHA256 value has 32 bytes), \<open>cng_gcm_correct\<close> (GCM
  decrypts what it encrypted under the same key, nonce and additional data) and \<open>cng_dh\<close> (the two
  sides of a Diffie-Hellman agreement compute the same secret). The wrappers, the key derivation
  of RFC 5869 and its limits are the program's own code and are modelled as they are.
\<close>

record Cng =
  cng_random :: "nat \<Rightarrow> bytes option"
  cng_sha256 :: "bytes \<Rightarrow> bytes option"
  cng_hmac :: "bytes \<Rightarrow> bytes \<Rightarrow> bytes option"
  cng_export :: "(bytes \<times> bytes) option"
  cng_agree :: "bytes \<Rightarrow> bytes \<Rightarrow> bytes option"
  cng_encrypt :: "bytes \<Rightarrow> bytes \<Rightarrow> bytes \<Rightarrow> bytes \<Rightarrow> (bytes \<times> bytes) option"
  cng_decrypt :: "bytes \<Rightarrow> bytes \<Rightarrow> bytes \<Rightarrow> bytes \<Rightarrow> bytes \<Rightarrow> bytes option"

definition kAesKeyBytes :: nat where "kAesKeyBytes = 32"
definition kGcmNonceBytes :: nat where "kGcmNonceBytes = 12"
definition kGcmTagBytes :: nat where "kGcmTagBytes = 16"
definition kEcdhPubBytes :: nat where "kEcdhPubBytes = 64"

definition randomBytes :: "Cng \<Rightarrow> nat \<Rightarrow> bytes" where
  "randomBytes cng n = (if n = 0 then [] else case cng_random cng n of Some bs \<Rightarrow> bs | None \<Rightarrow> [])"

text \<open>The output array is zero-initialised and stays so when CNG fails.\<close>

definition sha256 :: "Cng \<Rightarrow> bytes \<Rightarrow> bytes" where
  "sha256 cng dat = (case cng_sha256 cng dat of Some t \<Rightarrow> t | None \<Rightarrow> replicate 32 0)"

definition hmacSha256 :: "Cng \<Rightarrow> bytes \<Rightarrow> bytes \<Rightarrow> bytes" where
  "hmacSha256 cng key dat = (case cng_hmac cng key dat of Some t \<Rightarrow> t | None \<Rightarrow> replicate 32 0)"

text \<open>The expand loop: \<open>t\<close> is the previous block (empty at first), \<open>left\<close> the bytes still to produce.\<close>

fun hkdf_expand :: "Cng \<Rightarrow> bytes \<Rightarrow> bytes \<Rightarrow> bytes \<Rightarrow> u8 \<Rightarrow> nat \<Rightarrow> bytes" where
  "hkdf_expand cng prk info t counter left =
     (if left = 0 then []
      else let t = hmacSha256 cng prk (t @ info @ [counter]); n = min 32 left
           in take n t @ hkdf_expand cng prk info t (counter + 1) (left - n))"

declare hkdf_expand.simps [simp del]

definition hkdfSha256 :: "Cng \<Rightarrow> bytes \<Rightarrow> bytes \<Rightarrow> bytes \<Rightarrow> nat \<Rightarrow> bytes" where
  "hkdfSha256 cng ikm salt info outLen =
     (if outLen = 0 \<or> outLen > 255 * 32 then []
      else let prk = hmacSha256 cng salt ikm in hkdf_expand cng prk info [] 1 outLen)"

record EcdhKeyPair =
  kp_public :: bytes
  kp_private :: bytes

text \<open>\<open>cng_export\<close> is the pair of exported blobs of a fresh key: the public one starts with an 8-byte
  blob header; the wrapper only accepts the expected sizes.\<close>

definition generateEcdhP256 :: "Cng \<Rightarrow> EcdhKeyPair option" where
  "generateEcdhP256 cng =
     (case cng_export cng of
        None \<Rightarrow> None
      | Some (pub, priv) \<Rightarrow>
          let pk = (if length pub = 8 + kEcdhPubBytes then drop 8 pub else [])
          in if length pk \<noteq> kEcdhPubBytes \<or> priv = [] then None
             else Some \<lparr>kp_public = pk, kp_private = priv\<rparr>)"

text \<open>\<^verbatim>\<open>BCRYPT_ECDH_PUBLIC_P256_MAGIC\<close> and the key size precede the raw coordinates in the blob; the raw
  secret is 32 bytes, little-endian, and is reversed.\<close>

definition ecdhP256 :: "Cng \<Rightarrow> EcdhKeyPair \<Rightarrow> bytes \<Rightarrow> bytes option" where
  "ecdhP256 cng ours peerPublic =
     (if length peerPublic \<noteq> kEcdhPubBytes \<or> kp_private ours = [] then None
      else let pubBlob = le_put 4 (0x314B4345 :: u32) @ le_put 4 (of_nat (kEcdhPubBytes div 2) :: u32) @ peerPublic
           in case cng_agree cng (kp_private ours) pubBlob of
                None \<Rightarrow> None
              | Some raw \<Rightarrow> if length raw \<noteq> 32 then None else Some (rev raw))"

definition aesGcmEncrypt :: "Cng \<Rightarrow> bytes \<Rightarrow> bytes \<Rightarrow> bytes \<Rightarrow> bytes \<Rightarrow> (bytes \<times> bytes) option" where
  "aesGcmEncrypt cng key nonce plaintext aad = cng_encrypt cng key nonce aad plaintext"

definition aesGcmDecrypt :: "Cng \<Rightarrow> bytes \<Rightarrow> bytes \<Rightarrow> bytes \<Rightarrow> bytes \<Rightarrow> bytes \<Rightarrow> bytes option" where
  "aesGcmDecrypt cng key nonce ciphertext aad tag = cng_decrypt cng key nonce aad ciphertext tag"

text \<open>The comparison of two buffers reads all \<open>n\<close> positions whatever they hold.\<close>

definition constantTimeEqual_bytes :: "bytes \<Rightarrow> bytes \<Rightarrow> nat \<Rightarrow> bool" where
  "constantTimeEqual_bytes a b n = (fold (\<lambda>i diff. diff OR (a ! i XOR b ! i)) [0..<n] 0 = 0)"

lemma fold_diff_zero:
  "fold (\<lambda>i diff. diff OR (f i XOR g i)) xs (d :: u8) = 0 \<longleftrightarrow> d = 0 \<and> (\<forall>i \<in> set xs. f i = g i)"
  by (induction xs arbitrary: d) (auto simp: or_eq_0_word xor_eq_0_word)

lemma constantTimeEqual_bytes_iff:
  "n \<le> length a \<Longrightarrow> n \<le> length b \<Longrightarrow> constantTimeEqual_bytes a b n \<longleftrightarrow> take n a = take n b"
  by (auto simp: constantTimeEqual_bytes_def fold_diff_zero list_eq_iff_nth_eq)

section \<open>What the program relies on\<close>

definition cng_hmac_len :: "Cng \<Rightarrow> bool" where
  "cng_hmac_len cng \<longleftrightarrow> (\<forall>k d t. cng_hmac cng k d = Some t \<longrightarrow> length t = 32)"

definition cng_gcm_correct :: "Cng \<Rightarrow> bool" where
  "cng_gcm_correct cng \<longleftrightarrow>
     (\<forall>k n a p c t. cng_encrypt cng k n a p = Some (c, t) \<longrightarrow>
        length c = length p \<and> length t = kGcmTagBytes \<and> cng_decrypt cng k n a c t = Some p)"

text \<open>Two key pairs agree when each private key yields the same secret with the other's public key.\<close>

definition cng_dh :: "Cng \<Rightarrow> EcdhKeyPair \<Rightarrow> EcdhKeyPair \<Rightarrow> bool" where
  "cng_dh cng a b \<longleftrightarrow> ecdhP256 cng a (kp_public b) = ecdhP256 cng b (kp_public a)"

section \<open>Key derivation\<close>

text \<open>The blocks of RFC 5869: \<open>T(0)\<close> is empty and \<open>T(n + 1) = HMAC(PRK, T(n) | info | n + 1)\<close>.\<close>

fun hkdf_T :: "Cng \<Rightarrow> bytes \<Rightarrow> bytes \<Rightarrow> nat \<Rightarrow> bytes" where
  "hkdf_T cng prk info 0 = []"
| "hkdf_T cng prk info (Suc n) = hmacSha256 cng prk (hkdf_T cng prk info n @ info @ [of_nat (Suc n)])"

lemma length_hmac: "cng_hmac_len cng \<Longrightarrow> length (hmacSha256 cng k d) = 32"
  by (simp add: hmacSha256_def cng_hmac_len_def split: option.splits)

lemma length_hkdf_T: "cng_hmac_len cng \<Longrightarrow> length (hkdf_T cng prk info (Suc n)) = 32"
  by (simp add: length_hmac)

lemma hkdf_expand_blocks:
  assumes "cng_hmac_len cng" and "left \<le> 32 * m"
  shows "hkdf_expand cng prk info (hkdf_T cng prk info n) (of_nat (Suc n)) left =
    take left (concat (map (hkdf_T cng prk info) [Suc n..<Suc n + m]))"
  using assms(2)
proof (induction m arbitrary: n left)
  case 0
  then show ?case by (simp add: hkdf_expand.simps)
next
  case (Suc m)
  let ?T = "hkdf_T cng prk info"
  show ?case
  proof (cases "left = 0")
    case True
    then show ?thesis by (simp add: hkdf_expand.simps)
  next
    case False
    have "hkdf_expand cng prk info (?T n) (of_nat (Suc n)) left =
        take (min 32 left) (?T (Suc n)) @
        hkdf_expand cng prk info (?T (Suc n)) (of_nat (Suc (Suc n))) (left - min 32 left)"
      using False by (subst hkdf_expand.simps) (simp add: Let_def add.commute)
    also have "\<dots> = take (min 32 left) (?T (Suc n)) @
        take (left - min 32 left) (concat (map ?T [Suc (Suc n)..<Suc (Suc n) + m]))"
    proof -
      have "left - min 32 left \<le> 32 * m" using Suc.prems by (auto simp: min_def)
      then show ?thesis by (simp only: Suc.IH)
    qed
    also have "\<dots> = take left (?T (Suc n) @ concat (map ?T [Suc (Suc n)..<Suc (Suc n) + m]))"
      using length_hkdf_T [OF assms(1), of prk info n] by (auto simp: min_def)
    also have "\<dots> = take left (concat (map ?T [Suc n..<Suc n + Suc m]))"
    proof -
      have "[Suc n..<Suc n + Suc m] = Suc n # [Suc (Suc n)..<Suc (Suc n) + m]"
        by (simp add: upt_conv_Cons del: upt_Suc)
      then show ?thesis by (simp only: list.map concat.simps)
    qed
    finally show ?thesis .
  qed
qed

lemma length_concat_T:
  "cng_hmac_len cng \<Longrightarrow> length (concat (map (hkdf_T cng prk info) [Suc n..<Suc n + m])) = 32 * m"
proof (induction m)
  case 0
  then show ?case by simp
next
  case (Suc m)
  then show ?case using length_hkdf_T [OF Suc.prems, of prk info "n + m"] by simp
qed

lemma hkdf_blocks:
  assumes "cng_hmac_len cng" and "0 < outLen" and "outLen \<le> 255 * 32"
  shows "hkdfSha256 cng ikm salt info outLen =
      take outLen (concat (map (hkdf_T cng (hmacSha256 cng salt ikm) info) [1..<256]))"
    and "length (hkdfSha256 cng ikm salt info outLen) = outLen"
proof -
  let ?prk = "hmacSha256 cng salt ikm"
  show eq: "hkdfSha256 cng ikm salt info outLen = take outLen (concat (map (hkdf_T cng ?prk info) [1..<256]))"
    using hkdf_expand_blocks [OF assms(1), of outLen 255 ?prk info 0] assms(2,3)
    by (simp add: hkdfSha256_def del: upt_rec_numeral)
  show "length (hkdfSha256 cng ikm salt info outLen) = outLen"
    unfolding eq using length_concat_T [OF assms(1), of ?prk info 0 255] assms(3)
    by (simp del: upt_rec_numeral length_concat)
qed

section \<open>Properties\<close>

text \<open>C40: \<open>hkdfSha256\<close> is HKDF of RFC 5869: for every admissible length it returns exactly that many bytes
  of the concatenated blocks \<open>T(1) T(2) ...\<close>, and outside \<open>1 .. 255 * 32\<close> it returns nothing.
\<close>

theorem hkdf_is_rfc5869:
  assumes "cng_hmac_len cng"
  shows "hkdfSha256 cng ikm salt info outLen =
      (if outLen = 0 \<or> 255 * 32 < outLen then []
       else take outLen (concat (map (hkdf_T cng (hmacSha256 cng salt ikm) info) [1..<256]))) \<and>
    length (hkdfSha256 cng ikm salt info outLen) = (if 255 * 32 < outLen then 0 else outLen)"
  using hkdf_blocks [OF assms, of outLen] by (cases "outLen = 0 \<or> 255 * 32 < outLen") (auto simp: hkdfSha256_def)

text \<open>A stand-in for CNG that satisfies what the program relies on, for the examples: the HMAC value
  depends on the input lengths only and the cipher adds one to every byte.\<close>

definition demo_cng :: Cng where
  "demo_cng = \<lparr>cng_random = (\<lambda>n. Some (replicate n 5)),
     cng_sha256 = (\<lambda>d. Some (replicate 32 (of_nat (length d)))),
     cng_hmac = (\<lambda>k d. Some (replicate 32 (of_nat (length k + length d)))),
     cng_export = Some (replicate 72 9, [7]),
     cng_agree = (\<lambda>priv pub. Some (replicate 32 3)),
     cng_encrypt = (\<lambda>k n a p. Some (map (\<lambda>b. b + 1) p, replicate 16 (of_nat (length p)))),
     cng_decrypt = (\<lambda>k n a c t. if t = replicate 16 (of_nat (length c)) then Some (map (\<lambda>b. b - 1) c) else None)\<rparr>"

lemma demo_cng_ok: "cng_hmac_len demo_cng" "cng_gcm_correct demo_cng"
  by (auto simp: cng_hmac_len_def cng_gcm_correct_def demo_cng_def kGcmTagBytes_def comp_def)

theorem hkdf_is_rfc5869_witness:
  "length (hkdfSha256 demo_cng [1] [2] [3] 68) = 68 \<and> hkdfSha256 demo_cng [1] [2] [3] 9000 = []"
  using hkdf_is_rfc5869 [OF demo_cng_ok(1), of "[1]" "[2]" "[3]" 68]
    hkdf_is_rfc5869 [OF demo_cng_ok(1), of "[1]" "[2]" "[3]" 9000]
  by (intro conjI) (elim conjE, simp only:, simp)+

end
