(* ===== verification/UdpCrypto.thy ===== *)
theory UdpCrypto
  imports RP_Prelude
begin

text \<open>
  \<^verbatim>\<open>networking/UdpCrypto.h\<close>: the interface through which the UDP transport seals and opens payloads
  without knowing the secure channel. The virtual functions are a record of operations on the
  state \<open>'c\<close> of the implementation; the locale states what the transport relies on: an
  inactive sink refuses to seal and to open, and neither operation changes whether it is active.
\<close>

record 'c UdpCryptoSink =
  cs_active :: "'c \<Rightarrow> bool"
  cs_seal :: "bytes \<Rightarrow> bytes \<Rightarrow> 'c \<Rightarrow> 'c \<times> bytes option"
  cs_open :: "bytes \<Rightarrow> bytes \<Rightarrow> 'c \<Rightarrow> 'c \<times> bytes option"

locale crypto_sink =
  fixes ops :: "'c UdpCryptoSink"
  assumes seal_inactive: "\<not> cs_active ops c \<Longrightarrow> snd (cs_seal ops h p c) = None"
    and open_inactive: "\<not> cs_active ops c \<Longrightarrow> snd (cs_open ops h p c) = None"
    and seal_active: "cs_active ops (fst (cs_seal ops h p c)) = cs_active ops c"
    and open_active: "cs_active ops (fst (cs_open ops h p c)) = cs_active ops c"
begin

lemma sealed_active: "cs_seal ops h p c = (c', Some s) \<Longrightarrow> cs_active ops c \<and> cs_active ops c'"
  using seal_inactive [of c h p] seal_active [of h p c] by auto

lemma opened_active: "cs_open ops h p c = (c', Some s) \<Longrightarrow> cs_active ops c \<and> cs_active ops c'"
  using open_inactive [of c h p] open_active [of h p c] by auto

end

end
