(* ===== verification/SecureChannel.thy ===== *)
theory SecureChannel
  imports Crypto UdpCrypto
begin

text \<open>
  \<^verbatim>\<open>security/SecureChannel.cpp\<close>: the key schedule that follows the key exchange, sealing and opening
  of datagram payloads, and the sliding window against replays. The atomics and the mutex protect
  single steps (\<^verbatim>\<open>fetch_add\<close>, the window test, the window update); the model runs one call at a time.
  The additional data are the first 30 bytes behind the header pointer, as in the code.
\<close>

record SecureChannel =
  sc_active :: bool
  sc_sendKey :: bytes
  sc_recvKey :: bytes
  sc_nonceSalt :: bytes
  sc_sendCounter :: u64
  sc_recvHighest :: u64
  sc_recvInit :: bool
  sc_recvWindow :: "u64 list"
  sc_sealed :: u64
  sc_opened :: u64
  sc_authFailures :: u64
  sc_replaysRejected :: u64

definition SecureChannel_new :: SecureChannel where
  "SecureChannel_new = \<lparr>sc_active = False, sc_sendKey = replicate 32 0, sc_recvKey = replicate 32 0,
     sc_nonceSalt = replicate 4 0, sc_sendCounter = 1, sc_recvHighest = 0, sc_recvInit = False,
     sc_recvWindow = replicate 64 0, sc_sealed = 0, sc_opened = 0, sc_authFailures = 0,
     sc_replaysRejected = 0\<rparr>"

definition kOkmLen :: nat where "kOkmLen = 68"

text \<open>\<^verbatim>\<open>operator<=\<close> on byte vectors is the lexicographic order.\<close>

fun bytes_le :: "bytes \<Rightarrow> bytes \<Rightarrow> bool" where
  "bytes_le [] b = True"
| "bytes_le (x # a) [] = False"
| "bytes_le (x # a) (y # b) = (if x < y then True else if y < x then False else bytes_le a b)"

definition channel_salt :: "string \<Rightarrow> bytes \<Rightarrow> bytes \<Rightarrow> bytes" where
  "channel_salt code a b = (if bytes_le a b then str_bytes code @ a @ b else str_bytes code @ b @ a)"

definition session_info :: bytes where "session_info = str_bytes ''RemotePlay session v1''"

definition sc_finish ::
  "Cng \<Rightarrow> EcdhKeyPair \<Rightarrow> bytes \<Rightarrow> bytes \<Rightarrow> bytes \<Rightarrow> string \<Rightarrow> bool \<Rightarrow> SecureChannel \<Rightarrow> SecureChannel \<times> bool" where
  "sc_finish cng ourKeyPair ourSalt peerPublicKey peerSalt sessionCode weAreHost c =
     (let c = c\<lparr>sc_active := False\<rparr> in
      if length peerPublicKey \<noteq> kEcdhPubBytes \<or> length ourSalt \<noteq> 16 \<or> length peerSalt \<noteq> 16 then (c, False)
      else case ecdhP256 cng ourKeyPair peerPublicKey of
        None \<Rightarrow> (c, False)
      | Some shared \<Rightarrow>
          if length shared \<noteq> 32 then (c, False)
          else let okm = hkdfSha256 cng shared (channel_salt sessionCode ourSalt peerSalt) session_info kOkmLen in
          if length okm \<noteq> kOkmLen then (c, False)
          else let hostKey = take 32 okm; clientKey = take 32 (drop 32 okm);
                   c = c\<lparr>sc_nonceSalt := take 4 (drop 64 okm)\<rparr>;
                   c = (if weAreHost then c\<lparr>sc_sendKey := hostKey, sc_recvKey := clientKey\<rparr>
                        else c\<lparr>sc_sendKey := clientKey, sc_recvKey := hostKey\<rparr>)
               in (c\<lparr>sc_recvHighest := 0, sc_recvInit := False, sc_recvWindow := replicate 64 0,
                     sc_sendCounter := 1, sc_active := True\<rparr>, True))"

definition sc_nonce :: "SecureChannel \<Rightarrow> u64 \<Rightarrow> bytes" where
  "sc_nonce c counter = sc_nonceSalt c @ le_put 8 counter"

definition sc_aad :: "bytes \<Rightarrow> bytes" where "sc_aad header = take 30 header"

definition sc_seal :: "Cng \<Rightarrow> bytes \<Rightarrow> bytes \<Rightarrow> SecureChannel \<Rightarrow> SecureChannel \<times> bytes option" where
  "sc_seal cng header payload c =
     (if \<not> sc_active c \<or> length payload > 64 * 1024 then (c, None)
      else let counter = sc_sendCounter c; c = c\<lparr>sc_sendCounter := counter + 1\<rparr> in
      if counter = 0 then (c, None)
      else case aesGcmEncrypt cng (sc_sendKey c) (sc_nonce c counter) (le_put 8 counter @ payload) (sc_aad header) of
        None \<Rightarrow> (c, None)
      | Some (ct, tag) \<Rightarrow> (c\<lparr>sc_sealed := sc_sealed c + 1\<rparr>, Some (ct @ tag)))"

text \<open>The window test before decryption: too old, or the slot already holds the counter.\<close>

definition sc_replayed :: "u64 \<Rightarrow> SecureChannel \<Rightarrow> bool" where
  "sc_replayed counter c \<longleftrightarrow> sc_recvInit c \<and> counter \<le> sc_recvHighest c \<and>
     (sc_recvHighest c - counter \<ge> 64 \<or> sc_recvWindow c ! unat (counter mod 64) = counter)"

definition sc_mark_seen :: "u64 \<Rightarrow> SecureChannel \<Rightarrow> SecureChannel" where
  "sc_mark_seen counter c =
     (let c = (if \<not> sc_recvInit c then c\<lparr>sc_recvInit := True, sc_recvHighest := counter\<rparr>
               else if counter > sc_recvHighest c then c\<lparr>sc_recvHighest := counter\<rparr> else c)
      in c\<lparr>sc_recvWindow := (sc_recvWindow c)[unat (counter mod 64) := counter]\<rparr>)"

definition sc_authFail :: "SecureChannel \<Rightarrow> SecureChannel" where
  "sc_authFail c = c\<lparr>sc_authFailures := sc_authFailures c + 1\<rparr>"

definition sc_open :: "Cng \<Rightarrow> bytes \<Rightarrow> bytes \<Rightarrow> SecureChannel \<Rightarrow> SecureChannel \<times> bytes option" where
  "sc_open cng header sealed c =
     (if \<not> sc_active c \<or> length sealed < 8 + kGcmTagBytes then (sc_authFail c, None)
      else let ctLen = length sealed - kGcmTagBytes;
               counter = le_get 8 sealed :: u64;
               tag = drop ctLen sealed
      in if sc_replayed counter c then (c\<lparr>sc_replaysRejected := sc_replaysRejected c + 1\<rparr>, None)
      else case aesGcmDecrypt cng (sc_recvKey c) (sc_nonce c counter) (take ctLen sealed) (sc_aad header) tag of
        None \<Rightarrow> (sc_authFail c, None)
      | Some pt \<Rightarrow>
          if length pt < 8 then (sc_authFail c, None)
          else if le_get 8 pt \<noteq> counter then (sc_authFail c, None)
          else let c = sc_mark_seen counter c
               in (c\<lparr>sc_opened := sc_opened c + 1\<rparr>, Some (drop 8 pt)))"

section \<open>Key schedule\<close>

lemma bytes_le_total: "bytes_le a b \<or> bytes_le b a"
  by (induction a b rule: bytes_le.induct) auto

lemma bytes_le_antisym: "bytes_le a b \<Longrightarrow> bytes_le b a \<Longrightarrow> a = b"
  by (induction a b rule: bytes_le.induct) (auto split: if_splits elim: bytes_le.elims)

lemma channel_salt_sym: "channel_salt code a b = channel_salt code b a"
  using bytes_le_total [of a b] bytes_le_antisym [of a b] by (auto simp: channel_salt_def)

lemma ecdhP256_length: "ecdhP256 cng kp pub = Some s \<Longrightarrow> length s = 32"
  by (auto simp: ecdhP256_def Let_def split: option.splits if_splits)

text \<open>Success, the keys of the host role and those of the client role.\<close>

definition derived_okm :: "Cng \<Rightarrow> bytes \<Rightarrow> string \<Rightarrow> bytes \<Rightarrow> bytes \<Rightarrow> bytes" where
  "derived_okm cng shared code a b = hkdfSha256 cng shared (channel_salt code a b) session_info kOkmLen"

lemma derived_okm_sym: "derived_okm cng s code a b = derived_okm cng s code b a"
  by (simp add: derived_okm_def channel_salt_sym [of code a b])

lemma finish_success:
  "snd (sc_finish cng kp ourSalt pub peerSalt code host c) \<longleftrightarrow>
     length ourSalt = 16 \<and> length peerSalt = 16 \<and>
     (\<exists>s. ecdhP256 cng kp pub = Some s \<and> length (derived_okm cng s code ourSalt peerSalt) = kOkmLen)"
  by (auto simp: sc_finish_def Let_def derived_okm_def ecdhP256_def split: option.splits)

lemma finish_result:
  assumes "ecdhP256 cng kp pub = Some s" and "snd (sc_finish cng kp ourSalt pub peerSalt code host c)"
  defines "c' \<equiv> fst (sc_finish cng kp ourSalt pub peerSalt code host c)"
    and "okm \<equiv> derived_okm cng s code ourSalt peerSalt"
  shows "sc_sendKey c' = (if host then take 32 okm else take 32 (drop 32 okm))"
    and "sc_recvKey c' = (if host then take 32 (drop 32 okm) else take 32 okm)"
    and "sc_nonceSalt c' = take 4 (drop 64 okm)" and "\<not> sc_recvInit c'"
    and "sc_recvWindow c' = replicate 64 0" and "sc_sendCounter c' = 1"
  using assms(1,2) ecdhP256_length [OF assms(1)] unfolding c'_def okm_def
  by (auto simp: sc_finish_def Let_def derived_okm_def split: if_splits)

lemma finish_active:
  "sc_active (fst (sc_finish cng kp ourSalt pub peerSalt code host c)) =
   snd (sc_finish cng kp ourSalt pub peerSalt code host c)"
  by (auto simp: sc_finish_def Let_def split: option.splits)

section \<open>Sealing and opening\<close>

definition sc_ops :: "Cng \<Rightarrow> SecureChannel UdpCryptoSink" where
  "sc_ops cng = \<lparr>cs_active = sc_active, cs_seal = sc_seal cng, cs_open = sc_open cng\<rparr>"

lemma sc_mark_seen_simps [simp]:
  "sc_active (sc_mark_seen n c) = sc_active c" "sc_nonceSalt (sc_mark_seen n c) = sc_nonceSalt c"
  "sc_recvInit (sc_mark_seen n c)" "sc_sendCounter (sc_mark_seen n c) = sc_sendCounter c"
  by (simp_all add: sc_mark_seen_def Let_def)

lemma sc_authFail_simps [simp]:
  "sc_active (sc_authFail c) = sc_active c" "sc_recvHighest (sc_authFail c) = sc_recvHighest c"
  "sc_recvInit (sc_authFail c) = sc_recvInit c" "sc_recvWindow (sc_authFail c) = sc_recvWindow c"
  "sc_sendCounter (sc_authFail c) = sc_sendCounter c" "sc_nonceSalt (sc_authFail c) = sc_nonceSalt c"
  by (simp_all add: sc_authFail_def)

text \<open>The secure channel is a sink the transport can rely on.\<close>

interpretation sc: crypto_sink "sc_ops cng" for cng
  by unfold_locales (auto simp: sc_ops_def sc_seal_def sc_open_def Let_def split: option.splits prod.splits)

lemma seal_cases:
  assumes "sc_seal cng h p c = (c', r)"
  shows "sc_recvInit c' = sc_recvInit c" "sc_recvHighest c' = sc_recvHighest c"
    "sc_recvWindow c' = sc_recvWindow c" "sc_nonceSalt c' = sc_nonceSalt c"
    "sc_sendCounter c' = sc_sendCounter c \<or> sc_sendCounter c' = sc_sendCounter c + 1"
    "r \<noteq> None \<Longrightarrow> sc_sendCounter c' = sc_sendCounter c + 1 \<and> sc_sendCounter c \<noteq> 0"
  using assms by (auto simp: sc_seal_def Let_def split: if_splits option.splits)

text \<open>When \<open>open\<close> succeeds, and what it leaves behind in either case.\<close>

lemma open_success:
  assumes "sc_open cng h s c = (c', Some out)"
  shows "\<not> sc_replayed (le_get 8 s) c" "c' = (sc_mark_seen (le_get 8 s) c)\<lparr>sc_opened := sc_opened c' \<rparr>"
    "sc_active c" "8 + kGcmTagBytes \<le> length s"
    "aesGcmDecrypt cng (sc_recvKey c) (sc_nonce c (le_get 8 s)) (take (length s - kGcmTagBytes) s) (sc_aad h)
       (drop (length s - kGcmTagBytes) s) = Some (take 8 s @ out)"
proof -
  have *: "take 8 pt = take 8 s" if "le_get 8 pt = (le_get 8 s :: u64)" "8 \<le> length pt" "8 \<le> length s" for pt
    using that le_put_get [of "take 8 pt" 8, where 'a = 64] le_put_get [of "take 8 s" 8, where 'a = 64]
    by (simp add: le_get_take)
  from assms obtain pt where pt: "aesGcmDecrypt cng (sc_recvKey c) (sc_nonce c (le_get 8 s))
      (take (length s - kGcmTagBytes) s) (sc_aad h) (drop (length s - kGcmTagBytes) s) = Some pt"
    "8 \<le> length pt" "le_get 8 pt = (le_get 8 s :: u64)" "out = drop 8 pt"
    by (auto simp: sc_open_def Let_def not_less split: if_splits option.splits)
  show len: "8 + kGcmTagBytes \<le> length s" and "\<not> sc_replayed (le_get 8 s) c" "sc_active c"
    "c' = (sc_mark_seen (le_get 8 s) c)\<lparr>sc_opened := sc_opened c' \<rparr>"
    using assms by (auto simp: sc_open_def Let_def not_less split: if_splits option.splits)
  have "pt = take 8 s @ out" using * [OF pt(3,2)] len pt(4) by (metis append_take_drop_id add_leD1)
  with pt(1) show "aesGcmDecrypt cng (sc_recvKey c) (sc_nonce c (le_get 8 s)) (take (length s - kGcmTagBytes) s)
      (sc_aad h) (drop (length s - kGcmTagBytes) s) = Some (take 8 s @ out)" by simp
qed

lemma open_failure:
  assumes "sc_open cng h s c = (c', None)"
  shows "sc_recvInit c' = sc_recvInit c" "sc_recvHighest c' = sc_recvHighest c"
    "sc_recvWindow c' = sc_recvWindow c"
  using assms by (auto simp: sc_open_def Let_def split: if_splits option.splits)

lemma open_counter: "sc_open cng h s c = (c', r) \<Longrightarrow>
    sc_sendCounter c' = sc_sendCounter c \<and> sc_nonceSalt c' = sc_nonceSalt c"
  by (auto simp: sc_open_def Let_def split: if_splits option.splits)

section \<open>The replay window\<close>

text \<open>The window remembers every accepted counter of the last 64.\<close>

definition window_ok :: "u64 set \<Rightarrow> SecureChannel \<Rightarrow> bool" where
  "window_ok A c \<longleftrightarrow> length (sc_recvWindow c) = 64 \<and> (A \<noteq> {} \<longrightarrow> sc_recvInit c) \<and>
     (\<forall>a \<in> A. a \<le> sc_recvHighest c \<and>
        (sc_recvHighest c - a < 64 \<longrightarrow> sc_recvWindow c ! unat (a mod 64) = a))"

lemma mod_64_close:
  assumes "(x :: nat) \<le> h" "y \<le> h" "h - x < 64" "h - y < 64" "x mod 64 = y mod 64"
  shows "x = y"
proof -
  have close: "a = b" if "a \<le> b" "b \<le> h" "h - a < 64" "a mod 64 = b mod 64" for a b :: nat
  proof -
    have "64 dvd b - a" using that(1,4) by (metis mod_eq_dvd_iff_nat)
    moreover have "b - a < 64" using that by linarith
    ultimately show ?thesis using that(1) by (auto dest: dvd_imp_le)
  qed
  show ?thesis using assms close [of x y] close [of y x] by (cases "x \<le> y") auto
qed

lemma slots_differ:
  fixes a b h :: u64
  assumes "a \<le> h" "b \<le> h" "h - a < 64" "h - b < 64" "a \<noteq> b"
  shows "unat (a mod 64) \<noteq> unat (b mod 64)"
proof
  assume "unat (a mod 64) = unat (b mod 64)"
  then have m: "unat a mod 64 = unat b mod 64" by (simp add: unat_mod)
  have le: "unat a \<le> unat h" "unat b \<le> unat h" using assms by (simp_all add: word_le_nat_alt)
  have "unat h - unat a < 64" "unat h - unat b < 64"
    using assms by (simp_all add: word_less_nat_alt unat_sub)
  then have "unat a = unat b" by (rule mod_64_close [OF le _ _ m])
  with assms(5) show False by (simp add: word_unat_eq_iff)
qed

lemma window_recognises: "window_ok A c \<Longrightarrow> a \<in> A \<Longrightarrow> sc_replayed a c"
  by (auto simp: window_ok_def sc_replayed_def linorder_not_less [symmetric])

lemma sub_mono_u64: "(a :: u64) \<le> h \<Longrightarrow> h \<le> k \<Longrightarrow> k - a < 64 \<Longrightarrow> h - a < 64"
  by (simp add: word_le_nat_alt word_less_nat_alt unat_sub)

lemma window_ok_mark:
  assumes ok: "window_ok A c" and fresh: "\<not> sc_replayed n c"
  shows "window_ok (insert n A) (sc_mark_seen n c)"
proof -
  let ?c = "sc_mark_seen n c"
  have slot: "unat (n mod 64) < 64" by (simp add: unat_mod)
  have len: "length (sc_recvWindow c) = 64" using ok by (simp add: window_ok_def)
  have win: "sc_recvWindow ?c = (sc_recvWindow c)[unat (n mod 64) := n]"
    by (simp add: sc_mark_seen_def Let_def)
  have high: "sc_recvHighest ?c = (if sc_recvInit c then max (sc_recvHighest c) n else n)"
    by (auto simp: sc_mark_seen_def Let_def max_def)
  have notin: "n \<notin> A" using window_recognises [OF ok] fresh by blast
  have old: "a \<le> sc_recvHighest ?c \<and> (sc_recvHighest ?c - a < 64 \<longrightarrow> sc_recvWindow ?c ! unat (a mod 64) = a)"
    if "a \<in> A" for a
  proof -
    have a: "sc_recvInit c" "a \<le> sc_recvHighest c"
      "sc_recvHighest c - a < 64 \<longrightarrow> sc_recvWindow c ! unat (a mod 64) = a"
      using ok that by (auto simp: window_ok_def)
    have top: "sc_recvHighest ?c = max (sc_recvHighest c) n" using high a(1) by simp
    have le: "a \<le> max (sc_recvHighest c) n" "n \<le> max (sc_recvHighest c) n" using a(2) by (auto simp: max_def)
    have near: "max (sc_recvHighest c) n - n < 64"
      using fresh a(1) by (auto simp: sc_replayed_def max_def not_le)
    have "sc_recvWindow ?c ! unat (a mod 64) = a" if c: "max (sc_recvHighest c) n - a < 64"
    proof -
      have "unat (a mod 64) \<noteq> unat (n mod 64)"
        using slots_differ [OF le c near] \<open>a \<in> A\<close> notin by blast
      moreover have "sc_recvHighest c - a < 64" using sub_mono_u64 [OF a(2) _ c] by simp
      ultimately show ?thesis using a(3) by (simp add: win)
    qed
    with le(1) show ?thesis unfolding top by blast
  qed
  have new: "n \<le> sc_recvHighest ?c \<and> sc_recvWindow ?c ! unat (n mod 64) = n"
    using slot len by (simp add: win high)
  show ?thesis using old new len by (simp add: window_ok_def win)
qed

lemma window_ok_cong:
  "sc_recvWindow c' = sc_recvWindow c \<Longrightarrow> sc_recvInit c' = sc_recvInit c \<Longrightarrow>
   sc_recvHighest c' = sc_recvHighest c \<Longrightarrow> window_ok A c \<Longrightarrow> window_ok A c'"
  by (simp add: window_ok_def)

text \<open>Runs of the channel: what it seals (the header and payload it was given with the datagram it
  returned) and opens (with the counter).\<close>

datatype sc_event = ESeal bytes bytes | EOpen bytes bytes
datatype sc_output = Sealed "bytes \<times> bytes \<times> bytes" | Opened u64 bytes

fun sc_handle :: "Cng \<Rightarrow> sc_event \<Rightarrow> SecureChannel \<Rightarrow> SecureChannel \<times> sc_output list" where
  "sc_handle cng (ESeal h p) c =
     (case sc_seal cng h p c of (c', r) \<Rightarrow>
        (c', case r of None \<Rightarrow> [] | Some s \<Rightarrow> [Sealed (h, p, s)]))"
| "sc_handle cng (EOpen h s) c =
     (case sc_open cng h s c of (c', r) \<Rightarrow>
        (c', case r of None \<Rightarrow> [] | Some p \<Rightarrow> [Opened (le_get 8 s) p]))"

fun opened_counters :: "sc_output list \<Rightarrow> u64 list" where
  "opened_counters [] = []"
| "opened_counters (Opened n p # os) = n # opened_counters os"
| "opened_counters (Sealed r # os) = opened_counters os"

fun sealed_log :: "sc_output list \<Rightarrow> (bytes \<times> bytes \<times> bytes) list" where
  "sealed_log [] = []"
| "sealed_log (Opened n p # os) = sealed_log os"
| "sealed_log (Sealed r # os) = r # sealed_log os"

lemma opened_counters_append: "opened_counters (a @ b) = opened_counters a @ opened_counters b"
  by (induction a rule: opened_counters.induct) auto

lemma sealed_log_append: "sealed_log (a @ b) = sealed_log a @ sealed_log b"
  by (induction a rule: sealed_log.induct) auto

lemma handle_window:
  assumes "window_ok A c" and "sc_handle cng e c = (c', os)"
  shows "window_ok (set (opened_counters os) \<union> A) c' \<and> distinct (opened_counters os) \<and>
    set (opened_counters os) \<inter> A = {}"
proof (cases e)
  case (ESeal h p)
  obtain c1 r where "sc_seal cng h p c = (c1, r)" by fastforce
  with seal_cases [OF this] assms ESeal show ?thesis
    by (auto intro: window_ok_cong split: option.splits)
next
  case (EOpen h s)
  obtain c1 r where o: "sc_open cng h s c = (c1, r)" by fastforce
  show ?thesis
  proof (cases r)
    case None
    with open_failure [of cng h s c c1] o assms EOpen show ?thesis by (auto intro: window_ok_cong)
  next
    case (Some out)
    note ok = open_success [OF o [unfolded Some]]
    have "window_ok (insert (le_get 8 s) A) (sc_mark_seen (le_get 8 s) c)"
      by (rule window_ok_mark [OF assms(1) ok(1)])
    then have "window_ok (insert (le_get 8 s) A) c1"
      by (rule window_ok_cong [rotated 3]) (subst ok(2), simp)+
    moreover have "le_get 8 s \<notin> A" using window_recognises [OF assms(1)] ok(1) by blast
    ultimately show ?thesis using assms(2) EOpen o Some by auto
  qed
qed

lemma run_window:
  assumes "window_ok A c"
  shows "distinct (opened_counters (snd (run_out (sc_handle cng) es c))) \<and>
    set (opened_counters (snd (run_out (sc_handle cng) es c))) \<inter> A = {}"
  using assms
proof (induction es arbitrary: A c)
  case Nil
  then show ?case by simp
next
  case (Cons e es)
  obtain c1 o1 where h: "sc_handle cng e c = (c1, o1)" by fastforce
  note hw = handle_window [OF Cons.prems h]
  with Cons.IH [of "set (opened_counters o1) \<union> A" c1] h show ?case
    by (auto simp: opened_counters_append case_prod_beta)
qed

section \<open>Nonces\<close>

lemma sc_nonce_cong: "sc_nonceSalt c' = sc_nonceSalt c \<Longrightarrow> sc_nonce c' = sc_nonce c"
  by (simp add: sc_nonce_def fun_eq_iff)

lemma sc_nonce_inject: "sc_nonce c a = sc_nonce c b \<longleftrightarrow> a = b"
  by (simp add: sc_nonce_def le_put_inject)

lemma plus_one_u64:
  assumes "unat (x :: u64) + Suc n < 2 ^ 64"
  shows "unat (x + 1) = unat x + 1" "x < x + 1"
proof -
  show u: "unat (x + 1) = unat x + 1" using assms by (simp add: unat_word_ariths)
  then show "x < x + 1" by (simp add: word_less_nat_alt)
qed

text \<open>A returned datagram is what the cipher makes, under a given key and nonce, of the counter in the
  last eight bytes of that nonce followed by the payload, with the header authenticated.\<close>

fun sealed_under :: "Cng \<Rightarrow> bytes \<Rightarrow> bytes \<Rightarrow> bytes \<times> bytes \<times> bytes \<Rightarrow> bool" where
  "sealed_under cng key nonce (header, payload, out) \<longleftrightarrow>
     map_option (\<lambda>(ct, tag). ct @ tag)
       (aesGcmEncrypt cng key nonce (drop (length nonce - 8) nonce @ payload) (sc_aad header)) = Some out"

lemma seal_under:
  assumes "sc_seal cng h p c = (c', Some out)"
  shows "sealed_under cng (sc_sendKey c) (sc_nonce c (sc_sendCounter c)) (h, p, out)"
  using assms by (auto simp: sc_seal_def sc_nonce_def Let_def split: if_splits option.splits)

lemma seal_key: "sc_seal cng h p c = (c', r) \<Longrightarrow> sc_sendKey c' = sc_sendKey c"
  by (auto simp: sc_seal_def Let_def split: if_splits option.splits)

lemma open_key: "sc_open cng h s c = (c', r) \<Longrightarrow> sc_sendKey c' = sc_sendKey c"
  by (auto simp: sc_open_def sc_mark_seen_def sc_authFail_def Let_def split: if_splits option.splits)

lemma handle_counter:
  assumes "sc_handle cng e c = (c', os)"
  shows "sc_nonceSalt c' = sc_nonceSalt c" and "sc_sendKey c' = sc_sendKey c"
    and "sc_sendCounter c' = sc_sendCounter c \<and> sealed_log os = [] \<or>
         sc_sendCounter c' = sc_sendCounter c + 1 \<and>
         (sealed_log os = [] \<or>
          (\<exists>r. sealed_log os = [r] \<and> sealed_under cng (sc_sendKey c) (sc_nonce c (sc_sendCounter c)) r))"
proof -
  obtain c1 r where s: "\<And>h p. e = ESeal h p \<Longrightarrow> sc_seal cng h p c = (c1, r)"
    "\<And>h p. e = EOpen h p \<Longrightarrow> sc_open cng h p c = (c1, r)"
    by (cases e) fastforce+
  show "sc_nonceSalt c' = sc_nonceSalt c"
    using assms s seal_cases [of cng _ _ c c1 r] open_counter [of cng _ _ c c1 r] by (cases e) fastforce+
  show "sc_sendKey c' = sc_sendKey c"
    using assms s seal_key [of cng _ _ c c1 r] open_key [of cng _ _ c c1 r] by (cases e) fastforce+
  show "sc_sendCounter c' = sc_sendCounter c \<and> sealed_log os = [] \<or>
      sc_sendCounter c' = sc_sendCounter c + 1 \<and>
      (sealed_log os = [] \<or>
       (\<exists>r. sealed_log os = [r] \<and> sealed_under cng (sc_sendKey c) (sc_nonce c (sc_sendCounter c)) r))"
  proof (cases e)
    case (ESeal h p)
    note sl = s(1) [OF this]
    show ?thesis
    proof (cases r)
      case None
      with assms ESeal sl seal_cases(5) [OF sl] show ?thesis by auto
    next
      case (Some out)
      with assms ESeal sl seal_cases(6) [OF sl] seal_under [of cng h p c c1 out] show ?thesis by auto
    qed
  next
    case (EOpen h p)
    with assms s(2) [OF EOpen] open_counter [of cng h p c c1 r] show ?thesis by (cases r) auto
  qed
qed

lemma run_nonces:
  assumes "unat (sc_sendCounter c) + length es < 2 ^ 64"
  shows "\<exists>ns. list_all2 (sealed_under cng (sc_sendKey c)) (map (sc_nonce c) ns)
      (sealed_log (snd (run_out (sc_handle cng) es c))) \<and>
    sorted_wrt (<) ns \<and> (\<forall>n \<in> set ns. sc_sendCounter c \<le> n)"
  using assms
proof (induction es arbitrary: c)
  case Nil
  then show ?case by simp
next
  case (Cons e es)
  obtain c1 o1 where h: "sc_handle cng e c = (c1, o1)" by fastforce
  note hc = handle_counter [OF h]
  have inc: "unat (sc_sendCounter c + 1) = unat (sc_sendCounter c) + 1" "sc_sendCounter c < sc_sendCounter c + 1"
    using plus_one_u64 [of "sc_sendCounter c" "length es"] Cons.prems by simp_all
  have "unat (sc_sendCounter c1) + length es < 2 ^ 64" using hc(3) inc(1) Cons.prems by auto
  from Cons.IH [OF this] obtain ns where
    ns: "list_all2 (sealed_under cng (sc_sendKey c)) (map (sc_nonce c) ns)
        (sealed_log (snd (run_out (sc_handle cng) es c1)))" "sorted_wrt (<) ns"
      "\<forall>n \<in> set ns. sc_sendCounter c1 \<le> n"
    using sc_nonce_cong [OF hc(1)] hc(2) by auto
  have tail: "sealed_log (snd (run_out (sc_handle cng) (e # es) c)) =
      sealed_log o1 @ sealed_log (snd (run_out (sc_handle cng) es c1))"
    using h by (simp add: sealed_log_append case_prod_beta)
  show ?case
  proof (cases "sealed_log o1 = []")
    case True
    with tail ns hc(3) inc(2) show ?thesis by (intro exI [of _ ns]) (auto intro: order_trans)
  next
    case False
    with hc(3) obtain r where o: "sealed_log o1 = [r]" "sc_sendCounter c1 = sc_sendCounter c + 1"
      "sealed_under cng (sc_sendKey c) (sc_nonce c (sc_sendCounter c)) r"
      by auto
    with tail ns inc(2) show ?thesis
      by (intro exI [of _ "sc_sendCounter c # ns"]) (auto intro: less_le_trans less_imp_le)
  qed
qed

section \<open>Properties\<close>

lemma finish_agree:
  assumes "cng_dh cng hk ck"
    and "sc_finish cng hk hs (kp_public ck) cs code True h0 = (h, okh)"
    and "sc_finish cng ck cs (kp_public hk) hs code False c0 = (c, okc)"
  shows "okh = okc \<and> sc_active h = okh \<and> sc_active c = okc \<and>
    (okh \<longrightarrow> sc_sendKey h = sc_recvKey c \<and> sc_recvKey h = sc_sendKey c \<and> sc_nonceSalt h = sc_nonceSalt c)"
proof -
  have dh: "ecdhP256 cng hk (kp_public ck) = ecdhP256 cng ck (kp_public hk)" using assms(1) by (simp add: cng_dh_def)
  have same: "okh = okc"
    using finish_success [of cng hk hs "kp_public ck" cs code True h0]
      finish_success [of cng ck cs "kp_public hk" hs code False c0] assms(2,3) dh derived_okm_sym
    by auto
  have act: "sc_active h = okh" "sc_active c = okc"
    using finish_active [of cng hk hs "kp_public ck" cs code True h0]
      finish_active [of cng ck cs "kp_public hk" hs code False c0] assms(2,3) by auto
  have "sc_sendKey h = sc_recvKey c \<and> sc_recvKey h = sc_sendKey c \<and> sc_nonceSalt h = sc_nonceSalt c" if okh
  proof -
    from that assms(2) have oh: "snd (sc_finish cng hk hs (kp_public ck) cs code True h0)" by simp
    from that same assms(3) have oc: "snd (sc_finish cng ck cs (kp_public hk) hs code False c0)" by simp
    from oh finish_success obtain s where s: "ecdhP256 cng hk (kp_public ck) = Some s" by blast
    then have s': "ecdhP256 cng ck (kp_public hk) = Some s" using dh by simp
    show ?thesis
      using finish_result [OF s oh] finish_result [OF s' oc] assms(2,3) derived_okm_sym [of cng s code hs cs] by simp
  qed
  with same act show ?thesis by blast
qed

text \<open>C4: Host and client agree on their keys: when the two Diffie-Hellman computations yield the same
  secret and both sides use the same session code and exchanged salts, either both channels become
  active or neither does; when they do, each side receives with the key the other sends with and
  both build nonces from the same salt. The order of the salts does not matter.
\<close>

theorem finish_keys_agree:
  assumes "cng_dh cng hk ck"
    and "sc_finish cng hk hs (kp_public ck) cs code True h0 = (h, okh)"
    and "sc_finish cng ck cs (kp_public hk) hs code False c0 = (c, okc)"
  shows "okh = okc \<and> sc_active h = okh \<and> sc_active c = okc \<and>
    (okh \<longrightarrow> sc_sendKey h = sc_recvKey c \<and> sc_recvKey h = sc_sendKey c \<and> sc_nonceSalt h = sc_nonceSalt c)"
  by (rule finish_agree [OF assms])

definition demo_key :: EcdhKeyPair where
  "demo_key = \<lparr>kp_public = replicate 64 9, kp_private = [7]\<rparr>"

lemma demo_finish:
  "snd (sc_finish demo_cng demo_key (replicate 16 x) (kp_public demo_key) (replicate 16 y) code host c)"
proof -
  have "ecdhP256 demo_cng demo_key (kp_public demo_key) = Some (replicate 32 3)"
    by (simp add: ecdhP256_def demo_cng_def demo_key_def kEcdhPubBytes_def)
  moreover have "length (derived_okm demo_cng s code a b) = kOkmLen" for s a b
    using hkdf_blocks(2) [OF demo_cng_ok(1), of kOkmLen] by (simp add: derived_okm_def kOkmLen_def)
  ultimately show ?thesis by (simp add: finish_success)
qed

definition demo_channel :: "bool \<Rightarrow> SecureChannel" where
  "demo_channel host =
     fst (sc_finish demo_cng demo_key (replicate 16 1) (kp_public demo_key) (replicate 16 1) ''ABC7-K92P'' host SecureChannel_new)"

lemma demo_channel_finished:
  "sc_finish demo_cng demo_key (replicate 16 1) (kp_public demo_key) (replicate 16 1) ''ABC7-K92P'' host SecureChannel_new
   = (demo_channel host, True)"
  using demo_finish [of 1 1 "''ABC7-K92P''" host SecureChannel_new] by (simp add: demo_channel_def prod_eq_iff)

theorem finish_keys_agree_witness:
  "let h = fst (sc_finish demo_cng demo_key (replicate 16 1) (kp_public demo_key) (replicate 16 2) ''ABC7-K92P'' True SecureChannel_new);
       c = fst (sc_finish demo_cng demo_key (replicate 16 2) (kp_public demo_key) (replicate 16 1) ''ABC7-K92P'' False SecureChannel_new)
   in sc_sendKey h = sc_recvKey c \<and> sc_active h \<and> sc_active c"
proof -
  have dh: "cng_dh demo_cng demo_key demo_key" by (simp add: cng_dh_def)
  show ?thesis
    using finish_keys_agree [OF dh prod.collapse [symmetric] prod.collapse [symmetric],
        of "replicate 16 1" "replicate 16 2" "''ABC7-K92P''" SecureChannel_new SecureChannel_new]
      demo_finish [of 1 2 "''ABC7-K92P''" True] demo_finish [of 2 1 "''ABC7-K92P''" False]
    by (simp add: Let_def)
qed

text \<open>C2: No replay is ever accepted: from a channel whose keys were just established, in every sequence
  of sealing and opening (with arbitrary datagrams, reordered, forged or repeated) the counters of
  the datagrams that were opened are pairwise distinct.
\<close>

theorem no_replay_accepted:
  assumes "sc_finish cng kp ourSalt pub peerSalt code host c0 = (c, True)"
  shows "distinct (opened_counters (snd (run_out (sc_handle cng) es c)))"
proof -
  obtain s where s: "ecdhP256 cng kp pub = Some s"
    using finish_success [of cng kp ourSalt pub peerSalt code host c0] assms by auto
  have "window_ok {} c"
    using finish_result(4,5) [OF s, of ourSalt peerSalt code host c0] assms by (simp add: window_ok_def)
  then show ?thesis using run_window by blast
qed

theorem no_replay_accepted_witness:
  "distinct (opened_counters (snd (run_out (sc_handle demo_cng)
     [EOpen [] (replicate 8 1 @ replicate 16 8), EOpen [] (replicate 8 1 @ replicate 16 8)] (demo_channel True))))"
  by (rule no_replay_accepted [OF demo_channel_finished])

text \<open>C24: A nonce is never used twice under the key of one session. For every cipher, and every sequence
  of fewer than \<open>2 ^ 64 - 1\<close> calls of \<open>seal\<close> and \<open>open\<close> since the keys were established, there are
  pairwise distinct nonces under which the datagrams that \<open>seal\<close> returned, in their order, are
  exactly what the cipher computes: from the send key, that nonce, the counter in the nonce's last
  eight bytes followed by the payload, and the first thirty bytes of the header.
\<close>

theorem nonces_unique:
  assumes "sc_finish cng kp ourSalt pub peerSalt code host c0 = (c, True)" and "length es < 2 ^ 64 - 1"
  shows "\<exists>nonces. distinct nonces \<and>
    list_all2 (sealed_under cng (sc_sendKey c)) nonces (sealed_log (snd (run_out (sc_handle cng) es c)))"
proof -
  obtain s where s: "ecdhP256 cng kp pub = Some s"
    using finish_success [of cng kp ourSalt pub peerSalt code host c0] assms(1) by auto
  have "sc_sendCounter c = 1"
    using finish_result(6) [OF s, of ourSalt peerSalt code host c0] assms(1) by simp
  then have "unat (sc_sendCounter c) + length es < 2 ^ 64" using assms(2) by simp
  from run_nonces [OF this, of cng] obtain ns where
    "list_all2 (sealed_under cng (sc_sendKey c)) (map (sc_nonce c) ns)
       (sealed_log (snd (run_out (sc_handle cng) es c)))" "sorted_wrt (<) ns" by blast
  moreover from this(2) have "distinct (map (sc_nonce c) ns)"
    by (simp add: distinct_map inj_on_def sc_nonce_inject strict_sorted_iff)
  ultimately show ?thesis by blast
qed

text \<open>A cipher that shows the nonce it is given: the same payload sealed twice gives two different
  datagrams, each the cipher's output under its own nonce.\<close>

definition echo_cng :: Cng where
  "echo_cng = demo_cng\<lparr>cng_encrypt := \<lambda>k n a p. Some (n @ p, replicate 16 0)\<rparr>"

lemma echo_finish:
  "\<exists>c. sc_finish echo_cng demo_key (replicate 16 1) (kp_public demo_key) (replicate 16 2) ''ABC7-K92P'' True
     SecureChannel_new = (c, True)"
proof -
  have "ecdhP256 echo_cng demo_key (kp_public demo_key) = Some (replicate 32 3)"
    by (simp add: ecdhP256_def echo_cng_def demo_cng_def demo_key_def kEcdhPubBytes_def)
  moreover have "cng_hmac_len echo_cng" by (simp add: cng_hmac_len_def echo_cng_def demo_cng_def)
  then have "length (derived_okm echo_cng s code a b) = kOkmLen" for s code a b
    using hkdf_blocks(2) [of echo_cng kOkmLen] by (simp add: derived_okm_def kOkmLen_def)
  ultimately have "snd (sc_finish echo_cng demo_key (replicate 16 1) (kp_public demo_key) (replicate 16 2)
      ''ABC7-K92P'' True SecureChannel_new)" by (simp add: finish_success)
  then show ?thesis by (simp add: prod_eq_iff)
qed

lemma echo_sealings:
  assumes "sc_active c" "sc_sendCounter c = 1"
  shows "sealed_log (snd (run_out (sc_handle echo_cng) [ESeal [] [7], ESeal [] [7]] c)) =
    [([], [7], sc_nonceSalt c @ le_put 8 (1 :: u64) @ le_put 8 (1 :: u64) @ 7 # replicate 16 0),
     ([], [7], sc_nonceSalt c @ le_put 8 (2 :: u64) @ le_put 8 (2 :: u64) @ 7 # replicate 16 0)]"
  using assms
  by (simp add: sc_seal_def Let_def aesGcmEncrypt_def echo_cng_def sc_nonce_def)

theorem nonces_unique_witness:
  "\<exists>c a b. a \<noteq> b \<and> sc_active c \<and>
     sealed_log (snd (run_out (sc_handle echo_cng) [ESeal [] [7], ESeal [] [7]] c)) = [([], [7], a), ([], [7], b)] \<and>
     (\<exists>m n. m \<noteq> n \<and> sealed_under echo_cng (sc_sendKey c) m ([], [7], a) \<and>
        sealed_under echo_cng (sc_sendKey c) n ([], [7], b))"
proof -
  obtain c where f: "sc_finish echo_cng demo_key (replicate 16 1) (kp_public demo_key) (replicate 16 2)
      ''ABC7-K92P'' True SecureChannel_new = (c, True)" using echo_finish by blast
  then obtain s where "ecdhP256 echo_cng demo_key (kp_public demo_key) = Some s"
    using finish_success [of echo_cng demo_key "replicate 16 1" "kp_public demo_key" "replicate 16 2"
        "''ABC7-K92P''" True SecureChannel_new] by auto
  from finish_result(6) [OF this, of "replicate 16 1" "replicate 16 2" "''ABC7-K92P''" True SecureChannel_new] f
  have one: "sc_sendCounter c = 1" by simp
  have act: "sc_active c"
    using finish_active [of echo_cng demo_key "replicate 16 1" "kp_public demo_key" "replicate 16 2"
        "''ABC7-K92P''" True SecureChannel_new] f by simp
  note two = echo_sealings [OF act one]
  have "le_put 8 (1 :: u64) \<noteq> le_put 8 (2 :: u64)" by (simp add: le_put_inject)
  then have differ: "sc_nonceSalt c @ le_put 8 (1 :: u64) @ le_put 8 (1 :: u64) @ 7 # replicate 16 0 \<noteq>
      sc_nonceSalt c @ le_put 8 (2 :: u64) @ le_put 8 (2 :: u64) @ 7 # replicate 16 0" by simp
  obtain m n where mn: "m \<noteq> n"
    "sealed_under echo_cng (sc_sendKey c) m
       ([], [7], sc_nonceSalt c @ le_put 8 (1 :: u64) @ le_put 8 (1 :: u64) @ 7 # replicate 16 0)"
    "sealed_under echo_cng (sc_sendKey c) n
       ([], [7], sc_nonceSalt c @ le_put 8 (2 :: u64) @ le_put 8 (2 :: u64) @ 7 # replicate 16 0)"
    using nonces_unique [OF f, of "[ESeal [] [7], ESeal [] [7]]"]
    unfolding two by (auto simp: list_all2_Cons2 simp del: sealed_under.simps)
  show ?thesis by (intro exI conjI, rule differ, rule act, rule two, rule mn(1), rule mn(2), rule mn(3))
qed

text \<open>What \<open>open\<close> accepts: an active channel, a counter outside the replay window, and a ciphertext that
  decrypts, under the receive key and the nonce built from the first eight bytes of the sealed
  datagram, to those same eight bytes followed by the returned payload. The counter is taken
  from the ciphertext itself, so a datagram is only accepted when its first eight ciphertext bytes
  equal the first eight plaintext bytes.
\<close>

theorem open_accepts_only:
  assumes "sc_open cng header sealed c = (c', Some out)"
  shows "sc_active c \<and> \<not> sc_replayed (le_get 8 sealed) c \<and>
    aesGcmDecrypt cng (sc_recvKey c) (sc_nonceSalt c @ take 8 sealed) (take (length sealed - 16) sealed)
      (take 30 header) (drop (length sealed - 16) sealed) = Some (take 8 sealed @ out)"
proof -
  have "le_put 8 (le_get 8 sealed :: u64) = take 8 sealed"
    using le_put_get [of "take 8 sealed" 8, where 'a = 64] open_success(4) [OF assms]
    by (simp add: le_get_take kGcmTagBytes_def)
  with open_success [OF assms] show ?thesis by (simp add: sc_nonce_def sc_aad_def kGcmTagBytes_def)
qed

theorem open_accepts_only_witness:
  "\<exists>cng sealed c c'. sc_open cng [] sealed c = (c', Some []) \<and>
     aesGcmDecrypt cng (sc_recvKey c) (sc_nonceSalt c @ take 8 sealed) (take (length sealed - 16) sealed) []
       (drop (length sealed - 16) sealed) = Some (take 8 sealed @ [])"
proof -
  define cng where "cng = demo_cng\<lparr>cng_decrypt := \<lambda>k n a c t. Some c\<rparr>"
  define c where "c = SecureChannel_new\<lparr>sc_active := True\<rparr>"
  have o: "sc_open cng [] (replicate 24 0) c = (fst (sc_open cng [] (replicate 24 0) c), Some [])"
    using le_get_take [of 8 "replicate 24 0", where 'a = 64]
    by (simp add: cng_def c_def sc_open_def Let_def kGcmTagBytes_def aesGcmDecrypt_def SecureChannel_new_def
        sc_replayed_def prod_eq_iff)
  from open_accepts_only [OF o] o show ?thesis by (metis take_Nil)
qed

lemma demo_channel_state:
  "sc_active (demo_channel host)" "sc_sendCounter (demo_channel host) = 1"
proof -
  let ?f = "sc_finish demo_cng demo_key (replicate 16 1) (kp_public demo_key) (replicate 16 1) ''ABC7-K92P'' host SecureChannel_new"
  have ok: "snd ?f" by (rule demo_finish)
  then obtain s where s: "ecdhP256 demo_cng demo_key (kp_public demo_key) = Some s"
    using finish_success by blast
  show "sc_active (demo_channel host)" using ok finish_active by (simp add: demo_channel_def)
  show "sc_sendCounter (demo_channel host) = 1" using finish_result(6) [OF s ok] by (simp add: demo_channel_def)
qed

lemma demo_seal:
  assumes "length payload \<le> 64 * 1024"
  shows "snd (sc_seal demo_cng header payload (demo_channel host)) =
    Some (map (\<lambda>b. b + 1) (le_put 8 (1 :: u64) @ payload) @ replicate 16 (of_nat (8 + length payload)))"
  using assms by (simp add: sc_seal_def demo_channel_state Let_def aesGcmEncrypt_def demo_cng_def)

lemma map_plus_one_neq: "xs \<noteq> [] \<Longrightarrow> map (\<lambda>b. b + 1 :: u8) xs \<noteq> xs"
  by (cases xs) auto

text \<open>Consequently sealing and opening are not inverse. With a cipher that satisfies every law the
  program relies on, the client rejects every payload the host seals for it, although both
  derived the same keys: the counter sits inside the encrypted part, while \<open>open\<close> reads it from
  the ciphertext.
\<close>

theorem sealed_datagram_rejected:
  assumes "length payload \<le> 64 * 1024"
  shows "\<exists>sealed. snd (sc_seal demo_cng header payload (demo_channel True)) = Some sealed \<and>
    snd (sc_open demo_cng header sealed (demo_channel False)) = None"
proof -
  let ?ct = "map (\<lambda>b. b + 1) (le_put 8 (1 :: u64) @ payload)"
  let ?s = "?ct @ replicate 16 (of_nat (8 + length payload))"
  have "snd (sc_open demo_cng header ?s (demo_channel False)) = None"
  proof (rule ccontr)
    assume "snd (sc_open demo_cng header ?s (demo_channel False)) \<noteq> None"
    then obtain c' out where o: "sc_open demo_cng header ?s (demo_channel False) = (c', Some out)"
      by (cases "sc_open demo_cng header ?s (demo_channel False)") auto
    have "le_put 8 (1 :: u64) @ payload = take 8 ?s @ out"
      using open_success(5) [OF o]
      by (simp add: aesGcmDecrypt_def demo_cng_def kGcmTagBytes_def comp_def split: if_splits)
    then have "take 8 (le_put 8 (1 :: u64) @ payload) = take 8 (take 8 ?s @ out)" by (rule arg_cong)
    then have "map (\<lambda>b. b + 1) (le_put 8 (1 :: u64)) = le_put 8 (1 :: u64)" by simp
    then show False
      using map_plus_one_neq [of "le_put 8 (1 :: u64)"] length_le_put [of 8 "1 :: u64"] by fastforce
  qed
  with demo_seal [OF assms] show ?thesis by blast
qed

theorem sealed_datagram_rejected_witness:
  "\<exists>sealed. snd (sc_seal demo_cng [1, 2] [3] (demo_channel True)) = Some sealed \<and>
    snd (sc_open demo_cng [1, 2] sealed (demo_channel False)) = None"
  by (rule sealed_datagram_rejected) simp

end
