(* ===== verification/AdaptiveBitrate.thy ===== *)
theory AdaptiveBitrate
  imports Complex_Main RP_Prelude
begin

text \<open>
  \<^verbatim>\<open>adapt/AdaptiveBitrate.h\<close> and \<^verbatim>\<open>adapt/AdaptiveBitrate.cpp\<close>: the hysteresis controller that turns
  one link sample per second into a bitrate target. The record has every member of the class, the
  tunable thresholds included. The C++ \<^verbatim>\<open>double\<close>s are modelled by the rationals they denote; samples
  are finite, and for the fractions 0.15 and 0.10 the truncated product with an \<^verbatim>\<open>int\<close> below
  \<open>2 ^ 31\<close> is the same in both (the exact product is either an integer, to which the rounded one
  rounds, or at least 1/20 away from one). The \<^verbatim>\<open>int\<close> counters are \<open>int\<close>: the targets stay within
  their bounds and the streaks grow by one per second.
\<close>

record LinkSample =
  rttMs :: rat
  lossPercent :: rat
  jitterMs :: rat
  decodeQueueFrames :: rat
  fpsRatio :: rat

record AdaptiveBitrate =
  badRttMs :: rat
  badLossPercent :: rat
  badJitterMs :: rat
  badQueueFrames :: rat
  badFpsRatio :: rat
  goodRttMs :: rat
  goodLossPercent :: rat
  goodJitterMs :: rat
  goodFpsRatio :: rat
  downStreakNeeded :: int
  upStreakNeeded :: int
  cooldownSamples :: int
  downStepFraction :: rat
  upStepFraction :: rat
  currentKbps :: int
  minKbps :: int
  maxKbps :: int
  downStreak :: int
  upStreak :: int
  cooldown :: int

definition clamp_int :: "int \<Rightarrow> int \<Rightarrow> int \<Rightarrow> int" where
  "clamp_int v lo hi = (if v < lo then lo else if hi < v then hi else v)"

definition mkAdaptiveBitrate :: "int \<Rightarrow> int \<Rightarrow> int \<Rightarrow> AdaptiveBitrate" where
  "mkAdaptiveBitrate initial lo hi =
     \<lparr>badRttMs = 150, badLossPercent = 2, badJitterMs = 15, badQueueFrames = 4, badFpsRatio = 4/5,
      goodRttMs = 80, goodLossPercent = 3/10, goodJitterMs = 5, goodFpsRatio = 19/20,
      downStreakNeeded = 3, upStreakNeeded = 10, cooldownSamples = 2,
      downStepFraction = 3/20, upStepFraction = 1/10,
      currentKbps = clamp_int initial lo hi, minKbps = lo, maxKbps = hi,
      downStreak = 0, upStreak = 0, cooldown = 0\<rparr>"

definition isBad :: "AdaptiveBitrate \<Rightarrow> LinkSample \<Rightarrow> bool" where
  "isBad a s =
     (if lossPercent s \<ge> badLossPercent a then True
      else if rttMs s \<ge> badRttMs a then True
      else if jitterMs s \<ge> badJitterMs a then True
      else if decodeQueueFrames s \<ge> badQueueFrames a then True
      else if fpsRatio s > 0 \<and> fpsRatio s \<le> badFpsRatio a then True
      else False)"

definition isGood :: "AdaptiveBitrate \<Rightarrow> LinkSample \<Rightarrow> bool" where
  "isGood a s =
     (if lossPercent s > goodLossPercent a then False
      else if rttMs s > badRttMs a then False
      else if jitterMs s > goodJitterMs a then False
      else if decodeQueueFrames s \<ge> 2 then False
      else if fpsRatio s > 0 \<and> fpsRatio s < goodFpsRatio a then False
      else True)"

text \<open>\<^verbatim>\<open>static_cast<int>(kbps * fraction)\<close> truncates towards zero.\<close>

definition trunc_scale :: "int \<Rightarrow> rat \<Rightarrow> int" where
  "trunc_scale k f = (let x = rat_of_int k * f in if x < 0 then \<lceil>x\<rceil> else \<lfloor>x\<rfloor>)"

definition update_bad :: "AdaptiveBitrate \<Rightarrow> AdaptiveBitrate \<times> int option" where
  "update_bad a =
     (let a = a\<lparr>downStreak := downStreak a + 1, upStreak := 0\<rparr> in
      if downStreak a \<ge> downStreakNeeded a \<and> cooldown a = 0 then
        let step = max 250 (trunc_scale (currentKbps a) (downStepFraction a));
            nxt = max (minKbps a) (currentKbps a - step);
            a = a\<lparr>downStreak := 0\<rparr>
        in if nxt \<noteq> currentKbps a
           then (a\<lparr>currentKbps := nxt, cooldown := cooldownSamples a\<rparr>, Some nxt)
           else (a, None)
      else (a, None))"

definition update_good :: "AdaptiveBitrate \<Rightarrow> AdaptiveBitrate \<times> int option" where
  "update_good a =
     (let a = a\<lparr>upStreak := upStreak a + 1, downStreak := 0\<rparr> in
      if upStreak a \<ge> upStreakNeeded a \<and> cooldown a = 0 \<and> currentKbps a < maxKbps a then
        let step = max 250 (trunc_scale (currentKbps a) (upStepFraction a));
            nxt = min (maxKbps a) (currentKbps a + step);
            a = a\<lparr>upStreak := 0\<rparr>
        in if nxt \<noteq> currentKbps a
           then (a\<lparr>currentKbps := nxt, cooldown := cooldownSamples a\<rparr>, Some nxt)
           else (a, None)
      else (a, None))"

text \<open>The cooldown counts down once per sample, whatever the sample is.\<close>

definition abr_cool :: "AdaptiveBitrate \<Rightarrow> AdaptiveBitrate" where
  "abr_cool a = (if cooldown a > 0 then a\<lparr>cooldown := cooldown a - 1\<rparr> else a)"

definition abr_update :: "AdaptiveBitrate \<Rightarrow> LinkSample \<Rightarrow> AdaptiveBitrate \<times> int option" where
  "abr_update a s =
     (let a = abr_cool a in
      if isBad a s then update_bad a
      else if isGood a s then update_good a
      else (a\<lparr>downStreak := 0, upStreak := 0\<rparr>, None))"

definition setManual :: "AdaptiveBitrate \<Rightarrow> int \<Rightarrow> AdaptiveBitrate" where
  "setManual a kbps =
     a\<lparr>currentKbps := clamp_int kbps (minKbps a) (maxKbps a), downStreak := 0, upStreak := 0,
       cooldown := cooldownSamples a\<rparr>"

section \<open>Invariant\<close>

definition abr_inv :: "AdaptiveBitrate \<Rightarrow> bool" where
  "abr_inv a \<longleftrightarrow> minKbps a \<le> currentKbps a \<and> currentKbps a \<le> maxKbps a \<and>
     0 \<le> downStreak a \<and> 0 \<le> upStreak a \<and> 0 \<le> cooldown a \<and> 0 \<le> cooldownSamples a"

text \<open>What one call of \<open>update\<close> may change, branch by branch.\<close>

lemma isBad_upd [simp]:
  "isBad (a\<lparr>downStreak := n\<rparr>) = isBad a" "isBad (a\<lparr>upStreak := n\<rparr>) = isBad a"
  "isBad (a\<lparr>cooldown := n\<rparr>) = isBad a" "isBad (a\<lparr>currentKbps := n\<rparr>) = isBad a"
  by (simp_all add: isBad_def fun_eq_iff)

definition abr_same_tuning :: "AdaptiveBitrate \<Rightarrow> AdaptiveBitrate \<Rightarrow> bool" where
  "abr_same_tuning a' a \<longleftrightarrow> minKbps a' = minKbps a \<and> maxKbps a' = maxKbps a \<and>
     cooldownSamples a' = cooldownSamples a \<and> downStreakNeeded a' = downStreakNeeded a \<and>
     upStreakNeeded a' = upStreakNeeded a \<and> isBad a' = isBad a"

lemma abr_cool_frame:
  "abr_same_tuning (abr_cool a) a" "currentKbps (abr_cool a) = currentKbps a"
  "downStreak (abr_cool a) = downStreak a" "upStreak (abr_cool a) = upStreak a"
  "cooldown (abr_cool a) = (if cooldown a > 0 then cooldown a - 1 else cooldown a)"
  by (simp_all add: abr_cool_def abr_same_tuning_def)

lemma abr_inv_cool: "abr_inv a \<Longrightarrow> abr_inv (abr_cool a)"
  by (auto simp: abr_cool_def abr_inv_def)

lemma update_bad_cases:
  obtains (wait) "downStreak a + 1 < downStreakNeeded a \<or> cooldown a \<noteq> 0"
      "update_bad a = (a\<lparr>downStreak := downStreak a + 1, upStreak := 0\<rparr>, None)"
  | (floor) step where "250 \<le> step" "max (minKbps a) (currentKbps a - step) = currentKbps a"
      "cooldown a = 0" "update_bad a = (a\<lparr>downStreak := 0, upStreak := 0\<rparr>, None)"
  | (step) step nxt where "250 \<le> step" "nxt = max (minKbps a) (currentKbps a - step)"
      "nxt \<noteq> currentKbps a" "cooldown a = 0" "downStreakNeeded a \<le> downStreak a + 1"
      "update_bad a = (a\<lparr>downStreak := 0, upStreak := 0, currentKbps := nxt,
                          cooldown := cooldownSamples a\<rparr>, Some nxt)"
proof -
  define step where "step = max 250 (trunc_scale (currentKbps a) (downStepFraction a))"
  have ge: "250 \<le> step" by (simp add: step_def)
  consider "downStreak a + 1 < downStreakNeeded a \<or> cooldown a \<noteq> 0"
    | "downStreakNeeded a \<le> downStreak a + 1" "cooldown a = 0"
        "max (minKbps a) (currentKbps a - step) = currentKbps a"
    | "downStreakNeeded a \<le> downStreak a + 1" "cooldown a = 0"
        "max (minKbps a) (currentKbps a - step) \<noteq> currentKbps a"
    by linarith
  then show ?thesis
  proof cases
    case 1
    then show ?thesis by (intro wait) (auto simp: update_bad_def Let_def)
  next
    case 2
    then show ?thesis
      by (intro floor [OF ge]) (simp_all add: update_bad_def Let_def step_def [symmetric])
  next
    case 3
    then show ?thesis
      by (intro step [OF ge refl]) (simp_all add: update_bad_def Let_def step_def [symmetric])
  qed
qed

lemma update_good_cases:
  obtains (wait) "update_good a = (a\<lparr>upStreak := upStreak a + 1, downStreak := 0\<rparr>, None)"
  | (step) step nxt where "250 \<le> step" "nxt = min (maxKbps a) (currentKbps a + step)"
      "currentKbps a < maxKbps a" "cooldown a = 0" "upStreakNeeded a \<le> upStreak a + 1"
      "update_good a = (a\<lparr>upStreak := 0, downStreak := 0, currentKbps := nxt,
                           cooldown := cooldownSamples a\<rparr>, Some nxt)"
proof -
  define step where "step = max 250 (trunc_scale (currentKbps a) (upStepFraction a))"
  have ge: "250 \<le> step" by (simp add: step_def)
  show ?thesis
  proof (cases "upStreak a + 1 \<ge> upStreakNeeded a \<and> cooldown a = 0 \<and> currentKbps a < maxKbps a")
    case True
    with ge have "min (maxKbps a) (currentKbps a + step) \<noteq> currentKbps a" by (auto simp: min_def)
    with True show ?thesis
      by (intro step [OF ge refl]) (simp_all add: update_good_def Let_def step_def [symmetric])
  next
    case False
    then show ?thesis by (intro wait) (auto simp: update_good_def Let_def)
  qed
qed

lemma update_bad_frame: "abr_same_tuning (fst (update_bad a)) a"
  by (cases a rule: update_bad_cases) (simp_all add: abr_same_tuning_def)

lemma update_good_frame: "abr_same_tuning (fst (update_good a)) a"
  by (cases a rule: update_good_cases) (simp_all add: abr_same_tuning_def)

lemma abr_update_frame: "abr_same_tuning (fst (abr_update a s)) a"
  using update_bad_frame [of "abr_cool a"] update_good_frame [of "abr_cool a"] abr_cool_frame(1) [of a]
  by (auto simp: abr_update_def abr_same_tuning_def Let_def)

lemma abr_inv_update_bad: "abr_inv a \<Longrightarrow> abr_inv (fst (update_bad a))"
  by (cases a rule: update_bad_cases) (auto simp: abr_inv_def)

lemma abr_inv_update_good: "abr_inv a \<Longrightarrow> abr_inv (fst (update_good a))"
  by (cases a rule: update_good_cases) (auto simp: abr_inv_def)

lemma abr_inv_update: "abr_inv a \<Longrightarrow> abr_inv (fst (abr_update a s))"
  using abr_inv_update_bad [of "abr_cool a"] abr_inv_update_good [of "abr_cool a"] abr_inv_cool [of a]
  by (auto simp: abr_update_def Let_def abr_inv_def)

lemma abr_inv_setManual: "abr_inv a \<Longrightarrow> abr_inv (setManual a k)"
  by (auto simp: setManual_def abr_inv_def clamp_int_def)

datatype abr_event = Sample LinkSample | Manual int

fun abr_handle :: "abr_event \<Rightarrow> AdaptiveBitrate \<Rightarrow> AdaptiveBitrate" where
  "abr_handle (Sample s) a = fst (abr_update a s)"
| "abr_handle (Manual k) a = setManual a k"

lemma abr_inv_handle: "abr_inv a \<Longrightarrow> abr_inv (abr_handle e a)"
  by (cases e) (auto intro: abr_inv_update abr_inv_setManual)

lemma abr_inv_mk: "lo \<le> hi \<Longrightarrow> abr_inv (mkAdaptiveBitrate k lo hi)"
  by (auto simp: mkAdaptiveBitrate_def abr_inv_def clamp_int_def)

text \<open>The controller with the bounds the program constructs it with (2000 and 30000 kbit/s).\<close>

interpretation abr: event_machine "mkAdaptiveBitrate k 2000 30000" abr_handle
  "\<lambda>a. abr_inv a \<and> minKbps a = 2000 \<and> maxKbps a = 30000"
proof unfold_locales
  show "abr_inv (mkAdaptiveBitrate k 2000 30000) \<and> minKbps (mkAdaptiveBitrate k 2000 30000) = 2000 \<and>
      maxKbps (mkAdaptiveBitrate k 2000 30000) = 30000"
    using abr_inv_mk [of 2000 30000 k] by (simp add: mkAdaptiveBitrate_def)
next
  fix a e
  assume "abr_inv a \<and> minKbps a = 2000 \<and> maxKbps a = 30000"
  then show "abr_inv (abr_handle e a) \<and> minKbps (abr_handle e a) = 2000 \<and> maxKbps (abr_handle e a) = 30000"
    using abr_inv_handle [of a e]
    by (cases e) (auto simp: setManual_def abr_update_frame [unfolded abr_same_tuning_def])
qed

section \<open>Waiting for a step\<close>

text \<open>Samples in a row that change nothing, and the state after a list of samples.\<close>

fun abr_run :: "AdaptiveBitrate \<Rightarrow> LinkSample list \<Rightarrow> AdaptiveBitrate \<times> int option list" where
  "abr_run a [] = (a, [])"
| "abr_run a (s # ss) =
     (let (a1, r) = abr_update a s; (a2, rs) = abr_run a1 ss in (a2, r # rs))"

lemma abr_quiet_step:
  assumes "abr_inv a" and "downStreak a + 1 < downStreakNeeded a" and "upStreak a + 1 < upStreakNeeded a"
  shows "snd (abr_update a s) = None"
    and "downStreak (fst (abr_update a s)) \<le> downStreak a + 1"
    and "upStreak (fst (abr_update a s)) \<le> upStreak a + 1"
proof -
  let ?c = "abr_cool a"
  have bad: "snd (update_bad ?c) = None \<and> downStreak (fst (update_bad ?c)) \<le> downStreak a + 1 \<and>
      upStreak (fst (update_bad ?c)) \<le> upStreak a + 1"
    using assms abr_cool_frame [of a]
    by (cases ?c rule: update_bad_cases) (auto simp: abr_inv_def abr_same_tuning_def)
  have good: "snd (update_good ?c) = None \<and> downStreak (fst (update_good ?c)) \<le> downStreak a + 1 \<and>
      upStreak (fst (update_good ?c)) \<le> upStreak a + 1"
    using assms abr_cool_frame [of a]
    by (cases ?c rule: update_good_cases) (auto simp: abr_inv_def abr_same_tuning_def)
  have "0 \<le> downStreak a" "0 \<le> upStreak a" using assms(1) by (simp_all add: abr_inv_def)
  with bad good show "snd (abr_update a s) = None"
    and "downStreak (fst (abr_update a s)) \<le> downStreak a + 1"
    and "upStreak (fst (abr_update a s)) \<le> upStreak a + 1"
    by (simp_all add: abr_update_def Let_def)
qed

lemma abr_run_quiet:
  assumes "abr_inv a"
    and "downStreak a + int (length ss) < downStreakNeeded a"
    and "upStreak a + int (length ss) < upStreakNeeded a"
  shows "set (snd (abr_run a ss)) \<subseteq> {None}"
  using assms
proof (induction ss arbitrary: a)
  case Nil
  then show ?case by simp
next
  case (Cons s ss)
  let ?a1 = "fst (abr_update a s)"
  have pre: "downStreak a + 1 < downStreakNeeded a" "upStreak a + 1 < upStreakNeeded a"
    using Cons.prems(2,3) by simp_all
  note q = abr_quiet_step [OF Cons.prems(1) pre, of s]
  have "set (snd (abr_run ?a1 ss)) \<subseteq> {None}"
    using Cons.prems q abr_inv_update [OF Cons.prems(1), of s]
      abr_update_frame [of a s]
    by (intro Cons.IH) (auto simp: abr_same_tuning_def)
  then show ?case
    using q(1) by (simp add: Let_def case_prod_beta)
qed

text \<open>Under bad samples, \<open>wait\<close> counts down to the next step.\<close>

definition abr_wait :: "AdaptiveBitrate \<Rightarrow> nat" where
  "abr_wait a = nat (max (max (downStreakNeeded a - downStreak a) (cooldown a)) 1)"

lemma abr_update_bad: "isBad a s \<Longrightarrow> abr_update a s = update_bad (abr_cool a)"
  using abr_cool_frame(1) [of a] by (simp add: abr_update_def abr_same_tuning_def)

lemma abr_bad_counts_down:
  assumes "abr_inv a" and "isBad a s" and "1 < abr_wait a"
  shows "currentKbps (fst (abr_update a s)) = currentKbps a"
    and "abr_wait (fst (abr_update a s)) < abr_wait a"
proof -
  let ?c = "abr_cool a"
  have "downStreak ?c + 1 < downStreakNeeded ?c \<or> cooldown ?c \<noteq> 0"
    using assms(1,3) abr_cool_frame [of a] by (auto simp: abr_wait_def abr_inv_def abr_same_tuning_def)
  then have u: "update_bad ?c = (?c\<lparr>downStreak := downStreak ?c + 1, upStreak := 0\<rparr>, None)"
    by (cases ?c rule: update_bad_cases) (auto simp: update_bad_def Let_def)
  show "currentKbps (fst (abr_update a s)) = currentKbps a"
    by (simp add: abr_update_bad [OF assms(2)] u abr_cool_frame)
  show "abr_wait (fst (abr_update a s)) < abr_wait a"
    using assms(1,3) abr_cool_frame [of a]
    by (auto simp: abr_update_bad [OF assms(2)] u abr_wait_def abr_inv_def abr_same_tuning_def)
qed

lemma abr_bad_steps:
  assumes "abr_inv a" and "isBad a s" and "abr_wait a = 1"
  shows "currentKbps (fst (abr_update a s)) \<le> max (minKbps a) (currentKbps a - 250)"
proof -
  let ?c = "abr_cool a"
  have "downStreakNeeded ?c \<le> downStreak ?c + 1" "cooldown ?c = 0"
    using assms(1,3) abr_cool_frame [of a] by (auto simp: abr_wait_def abr_inv_def abr_same_tuning_def)
  then show ?thesis
    using abr_cool_frame [of a] unfolding abr_update_bad [OF assms(2)]
    by (cases ?c rule: update_bad_cases) (auto simp: abr_same_tuning_def)
qed

lemma abr_bad_reaches_lower:
  assumes "abr_inv a" and "isBad a s"
  shows "\<exists>n. currentKbps (fst (abr_run a (replicate n s))) \<le> max (minKbps a) (currentKbps a - 250) \<and>
             abr_inv (fst (abr_run a (replicate n s))) \<and> isBad (fst (abr_run a (replicate n s))) s \<and>
             minKbps (fst (abr_run a (replicate n s))) = minKbps a"
  using assms
proof (induction "abr_wait a" arbitrary: a rule: less_induct)
  case less
  let ?a1 = "fst (abr_update a s)"
  have frame: "minKbps ?a1 = minKbps a" "isBad ?a1 = isBad a"
    using abr_update_frame [of a s] by (simp_all add: abr_same_tuning_def)
  have inv1: "abr_inv ?a1" by (rule abr_inv_update [OF less.prems(1)])
  have bad1: "isBad ?a1 s" using less.prems(2) frame(2) by simp
  show ?case
  proof (cases "abr_wait a = 1")
    case True
    then show ?thesis
      using abr_bad_steps [OF less.prems True] inv1 bad1 frame(1)
      by (intro exI [of _ 1]) (simp add: Let_def case_prod_beta)
  next
    case False
    then have "1 < abr_wait a" by (simp add: abr_wait_def)
    note d = abr_bad_counts_down [OF less.prems this]
    from less.hyps [OF d(2) inv1 bad1] d(1) frame(1) obtain n where
      "currentKbps (fst (abr_run ?a1 (replicate n s))) \<le> max (minKbps a) (currentKbps a - 250) \<and>
       abr_inv (fst (abr_run ?a1 (replicate n s))) \<and> isBad (fst (abr_run ?a1 (replicate n s))) s \<and>
       minKbps (fst (abr_run ?a1 (replicate n s))) = minKbps a"
      by auto
    then show ?thesis
      by (intro exI [of _ "Suc n"]) (simp add: Let_def case_prod_beta)
  qed
qed

lemma abr_run_append:
  "fst (abr_run a (xs @ ys)) = fst (abr_run (fst (abr_run a xs)) ys)"
  by (induction xs arbitrary: a) (auto simp: Let_def case_prod_beta)

section \<open>Properties\<close>

text \<open>Whatever sequence of link samples and manual slider moves the host sees, the bitrate target of
  a controller built the way the host builds it stays between 2000 and 30000 kbit/s.
\<close>

theorem abr_target_in_bounds:
  "2000 \<le> currentKbps (fold abr_handle es (mkAdaptiveBitrate k 2000 30000)) \<and>
   currentKbps (fold abr_handle es (mkAdaptiveBitrate k 2000 30000)) \<le> 30000"
  using abr.inv_run [of es k] by (simp add: abr_inv_def)

text \<open>The function \<open>update\<close> returns a new target exactly when the target changes; a degraded sample never raises
  the target, a sample that is not degraded never lowers it, and no call moves it while the
  cooldown is still running.
\<close>

theorem abr_update_sound:
  assumes "abr_inv a" and "abr_update a s = (a', r)"
  shows "r = (if currentKbps a' = currentKbps a then None else Some (currentKbps a')) \<and>
         (isBad a s \<longrightarrow> currentKbps a' \<le> currentKbps a) \<and>
         (\<not> isBad a s \<longrightarrow> currentKbps a \<le> currentKbps a') \<and>
         (cooldown a > 1 \<longrightarrow> currentKbps a' = currentKbps a)"
proof -
  let ?c = "abr_cool a"
  have inv: "abr_inv ?c" by (rule abr_inv_cool [OF assms(1)])
  have bad: "isBad ?c = isBad a" using abr_cool_frame(1) [of a] by (simp add: abr_same_tuning_def)
  have u: "(a', r) = (if isBad a s then update_bad ?c else if isGood ?c s then update_good ?c
      else (?c\<lparr>downStreak := 0, upStreak := 0\<rparr>, None))"
    unfolding assms(2) [symmetric] by (simp add: abr_update_def bad Let_def)
  show ?thesis
  proof (cases "isBad a s")
    case True
    with u inv show ?thesis
      by (cases ?c rule: update_bad_cases) (auto simp: abr_inv_def abr_cool_frame)
  next
    case False
    with u inv show ?thesis
      by (cases ?c rule: update_good_cases; cases "isGood ?c s") (auto simp: abr_inv_def abr_cool_frame)
  qed
qed

theorem abr_update_sound_witness:
  "snd (abr_update ((mkAdaptiveBitrate 8000 2000 30000)\<lparr>downStreak := 2\<rparr>)
      \<lparr>rttMs = 20, lossPercent = 5, jitterMs = 1, decodeQueueFrames = 0, fpsRatio = 1\<rparr>) = Some 6800"
proof -
  let ?a = "(mkAdaptiveBitrate 8000 2000 30000)\<lparr>downStreak := 2\<rparr>"
  let ?s = "\<lparr>rttMs = 20, lossPercent = 5, jitterMs = 1, decodeQueueFrames = 0, fpsRatio = 1\<rparr>"
  have inv: "abr_inv ?a" by (simp add: mkAdaptiveBitrate_def abr_inv_def clamp_int_def)
  have "currentKbps (fst (abr_update ?a ?s)) = 6800"
    by (simp add: abr_update_def abr_cool_def update_bad_def mkAdaptiveBitrate_def isBad_def clamp_int_def trunc_scale_def)
  then show ?thesis
    using abr_update_sound [OF inv prod.collapse [symmetric], of ?s]
    by (simp add: mkAdaptiveBitrate_def clamp_int_def)
qed

text \<open>The controller does not oscillate: once both streaks are at zero (after every change in either
  direction from a bad sample, and after a manual move), fewer samples than the shorter of the two
  required streaks cannot change the target again, whatever they are.
\<close>

theorem abr_no_oscillation:
  assumes "abr_inv a" and "downStreak a = 0" and "upStreak a = 0"
    and "int (length ss) < downStreakNeeded a" and "int (length ss) < upStreakNeeded a"
  shows "set (snd (abr_run a ss)) \<subseteq> {None}"
  using assms by (intro abr_run_quiet) simp_all

theorem abr_no_oscillation_witness:
  "set (snd (abr_run (setManual (mkAdaptiveBitrate 8000 2000 30000) 9000)
     (replicate 2 \<lparr>rttMs = 900, lossPercent = 50, jitterMs = 1, decodeQueueFrames = 0, fpsRatio = 1\<rparr>)))
   \<subseteq> {None}"
  by (rule abr_no_oscillation)
    (simp_all add: mkAdaptiveBitrate_def abr_inv_def clamp_int_def setManual_def)

text \<open>A persistently degraded link drives the target all the way down: from any state that satisfies
  the invariant, repeating one degraded sample often enough brings the target to the configured
  minimum.
\<close>

theorem abr_reaches_minimum:
  assumes "abr_inv a" and "isBad a s"
  shows "\<exists>n. currentKbps (fst (abr_run a (replicate n s))) = minKbps a"
  using assms
proof (induction "nat (currentKbps a - minKbps a)" arbitrary: a rule: less_induct)
  case less
  show ?case
  proof (cases "currentKbps a = minKbps a")
    case True
    then show ?thesis by (intro exI [of _ 0]) simp
  next
    case False
    with less.prems(1) have above: "minKbps a < currentKbps a" by (simp add: abr_inv_def)
    obtain n where n: "currentKbps (fst (abr_run a (replicate n s))) \<le> max (minKbps a) (currentKbps a - 250)"
      "abr_inv (fst (abr_run a (replicate n s)))" "isBad (fst (abr_run a (replicate n s))) s"
      "minKbps (fst (abr_run a (replicate n s))) = minKbps a"
      using abr_bad_reaches_lower [OF less.prems] by blast
    have "nat (currentKbps (fst (abr_run a (replicate n s))) - minKbps (fst (abr_run a (replicate n s))))
        < nat (currentKbps a - minKbps a)"
      using n(1,4) above by (auto simp: max_def split: if_splits)
    from less.hyps [OF this n(2,3)] n(4) obtain m where
      "currentKbps (fst (abr_run (fst (abr_run a (replicate n s))) (replicate m s))) = minKbps a"
      by auto
    then show ?thesis
      by (intro exI [of _ "n + m"]) (simp add: replicate_add abr_run_append)
  qed
qed

theorem abr_reaches_minimum_witness:
  "\<exists>n. currentKbps (fst (abr_run (mkAdaptiveBitrate 8000 2000 30000)
     (replicate n \<lparr>rttMs = 20, lossPercent = 5, jitterMs = 1, decodeQueueFrames = 0, fpsRatio = 1\<rparr>))) = 2000"
  using abr_reaches_minimum [of "mkAdaptiveBitrate 8000 2000 30000"
      "\<lparr>rttMs = 20, lossPercent = 5, jitterMs = 1, decodeQueueFrames = 0, fpsRatio = 1\<rparr>"]
  by (simp add: mkAdaptiveBitrate_def abr_inv_def clamp_int_def isBad_def)

end
