(* ===== verification/HostCoordinator.thy ===== *)
theory HostCoordinator
  imports HostApp InputInjector SecureChannel AdaptiveBitrate
begin

text \<open>
  \<^verbatim>\<open>app/HostCoordinator.h\<close> and \<^verbatim>\<open>app/HostCoordinator.cpp\<close>: the host's orchestration on the Qt thread. It
  reacts to the events of the session (marshalled to it in order), runs the key exchange of each
  client, starts and stops its streamer, routes permissions and input to the injector, and drives the
  bitrate controller. A streamer is a handle; the calls on it, the tasks posted to the session and
  the signals emitted are the output. A call through the null \<^verbatim>\<open>host_\<close> pointer sets \<open>ho_fault\<close>, after
  which nothing more is modelled.

  The theorems: a stream starts only for a client that sent its key material and confirmed, players
  get distinct slots, a client that goes leaves nothing behind, and the bitrates pushed to the
  streamers stay in the controller's range.
\<close>

section \<open>State\<close>

record ClientStream =
  st_clientId :: u32
  st_playerIndex :: u8
  st_keysReady :: bool
  st_ecdh :: "EcdhKeyPair option"
  st_ourSalt :: bytes
  st_channel :: "SecureChannel option"
  st_streamer :: "nat option"

record StreamConfig =
  sg_codec :: VideoCodec
  sg_width :: u32
  sg_height :: u32
  sg_fps :: u32
  sg_bitrateKbps :: u32
  sg_gop :: u32
  sg_audioBitrateKbps :: int
  sg_audioEnabled :: bool
  sg_captureMode :: CaptureMode
  sg_outputIndex :: int
  sg_windowHwnd :: nat
  sg_gameName :: string

record HostUiState =
  ui_sessionCode :: string
  ui_encoderName :: string
  ui_gamepadStatus :: string
  ui_tcpPort :: u16
  ui_internetMode :: bool
  ui_serverAddress :: string
  ui_fps :: rat
  ui_captureMs :: rat
  ui_encodeMs :: rat
  ui_bitrateKbps :: rat
  ui_rttMs :: rat
  ui_lossPercent :: rat
  ui_jitterMs :: rat
  ui_bitrateTarget :: int
  ui_abrActive :: bool

definition HostUiState_default :: HostUiState where
  "HostUiState_default = \<lparr>ui_sessionCode = [], ui_encoderName = [], ui_gamepadStatus = [], ui_tcpPort = 0,
     ui_internetMode = False, ui_serverAddress = [], ui_fps = 0, ui_captureMs = 0, ui_encodeMs = 0,
     ui_bitrateKbps = 0, ui_rttMs = 0, ui_lossPercent = 0, ui_jitterMs = 0, ui_bitrateTarget = 0,
     ui_abrActive = True\<rparr>"

datatype ho_output =
    StateChanged
  | ClientTableChanged
  | ApprovalRequest u32 string
  | ErrorOccurred string
  | EncoderTrouble string
  | PostHost hs_event
  | StreamerStart nat StreamConfig u32 u8 "SecureChannel option"
  | StreamerStop nat string
  | StreamerKeyframe nat
  | StreamerSetBitrate nat int
  | StreamerRestartEncoder nat
  | StreamerSoftwareEncoder nat
  | StreamerInputHandler nat u8
  | StreamerRelay nat string u16 string

record HostCoordinator =
  ho_config :: Config
  ho_host :: "HostApp option"
  ho_settings :: "HostLaunchSettings option"
  ho_signaling :: bool
  ho_serverHost :: string
  ho_serverPort :: u16
  ho_relayTcpPort :: u16
  ho_relayUdpPort :: u16
  ho_hostToken :: string
  ho_internetMode :: bool
  ho_sessionCode :: string
  ho_injector :: InputInjector
  ho_streams :: "(u32, ClientStream) omap"
  ho_initThreads :: nat
  ho_timer :: bool
  ho_abr :: AdaptiveBitrate
  ho_abrEnabled :: bool
  ho_expectedFps :: rat
  ho_ui :: HostUiState
  ho_nextStreamer :: nat
  ho_fault :: bool
  ho_out :: "ho_output list"

text \<open>What the environment of one event supplies: the cryptographic provider, \<^verbatim>\<open>MapVirtualKeyW\<close>,
  \<^verbatim>\<open>SendInput\<close> and the results of the pad library.\<close>

record ho_env =
  he_cng :: Cng
  he_mapVk :: "u16 \<Rightarrow> u16"
  he_si :: "INPUT \<Rightarrow> bool"
  he_alloc :: "nat option"
  he_rc :: int

definition HostCoordinator_new :: "Config \<Rightarrow> InputInjector \<Rightarrow> HostCoordinator" where
  "HostCoordinator_new cfg injector = \<lparr>ho_config = cfg, ho_host = None, ho_settings = None, ho_signaling = False,
     ho_serverHost = [], ho_serverPort = 0, ho_relayTcpPort = 0, ho_relayUdpPort = 0, ho_hostToken = [],
     ho_internetMode = False, ho_sessionCode = [], ho_injector = injector, ho_streams = [], ho_initThreads = 0,
     ho_timer = False, ho_abr = mkAdaptiveBitrate (vs_bitrateMbps (cfg_video cfg) * 1000) 2000 30000,
     ho_abrEnabled = True, ho_expectedFps = 60,
     ho_ui = HostUiState_default\<lparr>ui_gamepadStatus := vg_status (ij_pads injector)\<rparr>,
     ho_nextStreamer = 0, ho_fault = False, ho_out = []\<rparr>"

section \<open>Helpers\<close>

definition makeUdpSessionId :: "string \<Rightarrow> u32 \<Rightarrow> u32" where
  "makeUdpSessionId code clientId =
     (let h = foldl (\<lambda>h c. (h XOR ucast (byte_of_char c)) * 16777619) 2166136261 code;
          h = (h XOR clientId) * 16777619
      in h OR 1)"

definition ho_emit :: "ho_output list \<Rightarrow> HostCoordinator \<Rightarrow> HostCoordinator" where
  "ho_emit outs s = s\<lparr>ho_out := ho_out s @ outs\<rparr>"

text \<open>A call \<^verbatim>\<open>host_->f(...)\<close> that posts to the session.\<close>

definition via_host :: "(HostApp \<Rightarrow> hs_event list) \<Rightarrow> HostCoordinator \<Rightarrow> HostCoordinator" where
  "via_host f s =
     (case ho_host s of
        None \<Rightarrow> s\<lparr>ho_fault := True\<rparr>
      | Some a \<Rightarrow> ho_emit (map PostHost (f a)) s)"

definition on_injector :: "(InputInjector \<Rightarrow> InputInjector) \<Rightarrow> HostCoordinator \<Rightarrow> HostCoordinator" where
  "on_injector f s = s\<lparr>ho_injector := f (ho_injector s)\<rparr>"

definition findStream :: "u32 \<Rightarrow> HostCoordinator \<Rightarrow> ClientStream option" where
  "findStream cid s = map_of (ho_streams s) cid"

definition put_stream :: "u32 \<Rightarrow> ClientStream \<Rightarrow> HostCoordinator \<Rightarrow> HostCoordinator" where
  "put_stream cid cs s = s\<lparr>ho_streams := omap_upd cid cs (ho_streams s)\<rparr>"

definition stop_streamer :: "string \<Rightarrow> ClientStream \<Rightarrow> HostCoordinator \<Rightarrow> HostCoordinator" where
  "stop_streamer reason cs s =
     (case st_streamer cs of None \<Rightarrow> s | Some h \<Rightarrow> ho_emit [StreamerStop h reason] s)"

definition release_player :: "ho_env \<Rightarrow> u8 \<Rightarrow> HostCoordinator \<Rightarrow> HostCoordinator" where
  "release_player env p = on_injector (clientDisconnected (he_mapVk env) (he_si env) p)"

definition streamers :: "HostCoordinator \<Rightarrow> nat list" where
  "streamers s = List.map_filter (st_streamer \<circ> snd) (ho_streams s)"

section \<open>Starting and stopping\<close>

definition ho_stop :: "ho_env \<Rightarrow> HostCoordinator \<Rightarrow> HostCoordinator" where
  "ho_stop env s =
     (let s = s\<lparr>ho_timer := False\<rparr>;
          s = fold (\<lambda>(cid, cs) s. release_player env (st_playerIndex cs) (stop_streamer ''coordinator stop'' cs s))
                (ho_streams s) s
      in ho_emit [StateChanged]
           (s\<lparr>ho_initThreads := 0, ho_streams := [], ho_host := None, ho_signaling := False,
              ho_ui := HostUiState_default\<rparr>))"

definition with_audio :: "Config \<Rightarrow> HostLaunchSettings \<Rightarrow> HostLaunchSettings" where
  "with_audio cfg l = l\<lparr>hl_audioBitrateKbps := as_bitrateKbps (cfg_audio cfg)\<rparr>"

definition startLan ::
  "ho_env \<Rightarrow> string \<Rightarrow> (nat \<Rightarrow> u32) \<Rightarrow> (u16 \<Rightarrow> u16 option) \<Rightarrow> HostLaunchSettings \<Rightarrow> HostCoordinator \<Rightarrow>
     HostCoordinator \<times> bool" where
  "startLan env user rnd listen l s =
     (let s = (ho_stop env s)\<lparr>ho_internetMode := False, ho_settings := Some (with_audio (ho_config s) l)\<rparr>;
          (a, ok) = ha_start user rnd listen l HostApp_new
      in if \<not> ok then (s\<lparr>ho_host := None\<rparr>, False)
         else
           (ho_emit [StateChanged]
              (s\<lparr>ho_host := Some a,
                 ho_ui := (ho_ui s)\<lparr>ui_internetMode := False, ui_tcpPort := ha_port a, ui_sessionCode := ha_sessionCode a\<rparr>,
                 ho_sessionCode := ha_sessionCode a, ho_expectedFps := rat_of_nat (unat (hl_fps l)),
                 ho_abr := mkAdaptiveBitrate (int (unat (hl_bitrateKbps l))) 2000 30000, ho_abrEnabled := True,
                 ho_timer := True\<rparr>), True))"

text \<open>\<open>reg\<close>: the answer of the signaling server to the registration (code, relay ports and token), or
  \<open>None\<close>; \<open>conn\<close>: whether the connection to it succeeds.\<close>

definition startInternet ::
  "ho_env \<Rightarrow> bool \<Rightarrow> (string \<times> u16 \<times> u16 \<times> string) option \<Rightarrow> HostLaunchSettings \<Rightarrow> string \<Rightarrow> u16 \<Rightarrow> HostCoordinator \<Rightarrow>
     HostCoordinator \<times> bool" where
  "startInternet env conn reg l serverAddress serverPort s =
     (let s = (ho_stop env s)\<lparr>ho_internetMode := True, ho_serverHost := serverAddress, ho_serverPort := serverPort,
                ho_settings := Some (with_audio (ho_config s) l)\<rparr>
      in if \<not> conn then (s, False)
         else case reg of
           None \<Rightarrow> (s, False)
         | Some (code, relayTcp, relayUdp, token) \<Rightarrow>
             (ho_emit [StateChanged]
                (s\<lparr>ho_signaling := True, ho_sessionCode := code, ho_relayTcpPort := relayTcp,
                   ho_relayUdpPort := relayUdp, ho_hostToken := token, ho_host := Some HostApp_new,
                   ho_ui := (ho_ui s)\<lparr>ui_internetMode := True, ui_sessionCode := code,
                     ui_serverAddress := serverAddress, ui_tcpPort := 0\<rparr>,
                   ho_expectedFps := rat_of_nat (unat (hl_fps l)),
                   ho_abr := mkAdaptiveBitrate (int (unat (hl_bitrateKbps l))) 2000 30000,
                   ho_timer := True\<rparr>), True))"

section \<open>Key exchange and streams\<close>

definition assignPlayerIndex :: "HostCoordinator \<Rightarrow> u8" where
  "assignPlayerIndex s =
     (let used = (\<lambda>i. list_ex (\<lambda>(cid, cs). st_playerIndex cs = i) (ho_streams s))
      in case find (\<lambda>i. \<not> used i) [0, 1, 2, 3] of Some i \<Rightarrow> i | None \<Rightarrow> 3)"

definition beginKeyExchange :: "ho_env \<Rightarrow> u32 \<Rightarrow> HostCoordinator \<Rightarrow> HostCoordinator" where
  "beginKeyExchange env cid s =
     (case findStream cid s of
        Some cs \<Rightarrow> s
      | None \<Rightarrow>
          (case generateEcdhP256 (he_cng env) of
             None \<Rightarrow>
               via_host (ha_kick cid)
                 (ho_emit [ErrorOccurred ''Cryptography unavailable (CNG). Cannot secure this session.''] s)
           | Some kp \<Rightarrow>
               let ourSalt = randomBytes (he_cng env) 16;
                   cs = \<lparr>st_clientId = cid, st_playerIndex = assignPlayerIndex s, st_keysReady = False,
                         st_ecdh = Some kp, st_ourSalt = ourSalt, st_channel = None, st_streamer = None\<rparr>;
                   m = encodeMessage \<lparr>etype = KeyExchange, ebody = MKeyExchange (kp_public kp) ourSalt\<rparr>
               in put_stream cid cs (via_host (ha_sendAppMessage cid (id_code KeyExchange) m) s)))"

definition stream_config :: "HostLaunchSettings \<Rightarrow> StreamConfig" where
  "stream_config l = \<lparr>sg_codec = hl_codec l, sg_width = res_width (hl_resolution l),
     sg_height = res_height (hl_resolution l), sg_fps = hl_fps l, sg_bitrateKbps = hl_bitrateKbps l,
     sg_gop = hl_fps l * 2, sg_audioBitrateKbps = hl_audioBitrateKbps l, sg_audioEnabled = hl_audioEnabled l,
     sg_captureMode = hl_captureMode l, sg_outputIndex = hl_outputIndex l, sg_windowHwnd = hl_windowHwnd l,
     sg_gameName = hl_gameName l\<rparr>"

definition startStreamFor :: "u32 \<Rightarrow> ClientStream \<Rightarrow> HostCoordinator \<Rightarrow> HostCoordinator" where
  "startStreamFor cid cs s =
     (case ho_settings s of
        None \<Rightarrow> put_stream cid cs s
      | Some l \<Rightarrow>
          let h = ho_nextStreamer s;
              s = put_stream cid (cs\<lparr>st_streamer := Some h\<rparr>) (s\<lparr>ho_nextStreamer := h + 1\<rparr>)
          in ho_emit [StreamerStart h (stream_config l) (makeUdpSessionId (ho_sessionCode s) (st_clientId cs))
                        (st_playerIndex cs) (st_channel cs)]
               (s\<lparr>ho_initThreads := ho_initThreads s + 1,
                  ho_ui := (ho_ui s)\<lparr>ui_gamepadStatus := vg_status (ij_pads (ho_injector s))\<rparr>\<rparr>))"

text \<open>The callbacks of the streamer: it is up (on its own thread, so \<^verbatim>\<open>alive\<close> is checked), \<^verbatim>\<open>start\<close> returned,
  an error was reported. The values its lambdas captured are arguments; the server's name in \<open>relay\<close> is a numeric
  address, since \<^verbatim>\<open>make_address\<close> throws on any other and ends the program.\<close>

definition onStreamUp ::
  "nat \<Rightarrow> u32 \<Rightarrow> u8 \<Rightarrow> StreamConfig \<Rightarrow> (string \<times> u16 \<times> string) option \<Rightarrow> u16 \<Rightarrow> u32 \<Rightarrow> HostCoordinator \<Rightarrow> HostCoordinator" where
  "onStreamUp h cid player sc relay port sid s =
     (let m = encodeMessage \<lparr>etype = StreamStart, ebody = MStreamStart port sid player (sg_codec sc)
                (ucast (sg_width sc)) (ucast (sg_height sc)) (ucast (sg_fps sc)) (sg_bitrateKbps sc)\<rparr>;
          s = via_host (ha_sendAppMessage cid (id_code StreamStart) m) s
      in ho_emit ((case relay of None \<Rightarrow> [] | Some (host, udp, token) \<Rightarrow> [StreamerRelay h host udp token]) @ [StateChanged]) s)"

definition onStreamStarted :: "bool \<Rightarrow> string \<Rightarrow> u32 \<Rightarrow> u8 \<Rightarrow> HostCoordinator \<Rightarrow> HostCoordinator" where
  "onStreamStarted ok err cid player s =
     (if \<not> ok then via_host (ha_kick cid) (ho_emit [ErrorOccurred (''Stream start failed: '' @ err)] s)
      else
        let s = (case findStream cid s of
                   None \<Rightarrow> s
                 | Some cs \<Rightarrow>
                     (case st_streamer cs of None \<Rightarrow> s | Some h \<Rightarrow> ho_emit [StreamerInputHandler h player] s))
        in ho_emit [StateChanged] s)"

definition onStreamerError :: "ho_env \<Rightarrow> bool \<Rightarrow> u32 \<Rightarrow> string \<Rightarrow> HostCoordinator \<Rightarrow> HostCoordinator" where
  "onStreamerError env running cid msg s =
     (let s = ho_emit [EncoderTrouble msg] s
      in case findStream cid s of
           None \<Rightarrow> s
         | Some cs \<Rightarrow>
             if st_streamer cs \<noteq> None \<and> \<not> running
             then release_player env (st_playerIndex cs) (stop_streamer ''fatal pipeline error'' cs s)
             else s)"

definition teardownClient :: "ho_env \<Rightarrow> u32 \<Rightarrow> HostCoordinator \<Rightarrow> HostCoordinator" where
  "teardownClient env cid s =
     (case findStream cid s of
        None \<Rightarrow> s
      | Some cs \<Rightarrow>
          let s = release_player env (st_playerIndex cs) (stop_streamer ''client disconnected'' cs s)
          in ho_emit [StateChanged] (s\<lparr>ho_streams := omap_del cid (ho_streams s)\<rparr>))"

section \<open>Messages and events of the session\<close>

definition onKeyExchange :: "ho_env \<Rightarrow> u32 \<Rightarrow> bytes \<Rightarrow> bytes \<Rightarrow> HostCoordinator \<Rightarrow> HostCoordinator" where
  "onKeyExchange env cid pk sl s =
     (case findStream cid s of
        None \<Rightarrow> s
      | Some cs \<Rightarrow>
          (case st_ecdh cs of
             None \<Rightarrow> s
           | Some kp \<Rightarrow>
               if st_keysReady cs then s
               else
                 let (c, ok) = sc_finish (he_cng env) kp (st_ourSalt cs) pk sl (ho_sessionCode s) True SecureChannel_new;
                     s = put_stream cid (cs\<lparr>st_channel := Some c\<rparr>) s
                 in if \<not> ok
                    then via_host (ha_kick cid)
                           (ho_emit [ErrorOccurred ''Key exchange failed for a player; disconnecting them.''] s)
                    else via_host (ha_sendAppMessage cid (id_code SessionKeyReady)
                           (encodeMessage (Envelope_default\<lparr>etype := SessionKeyReady\<rparr>))) s))"

definition ho_handleAppMessage :: "ho_env \<Rightarrow> u32 \<Rightarrow> u16 \<Rightarrow> bytes \<Rightarrow> HostCoordinator \<Rightarrow> HostCoordinator" where
  "ho_handleAppMessage env cid ty payload s =
     (case decodeMessage ty payload of
        None \<Rightarrow> s
      | Some m \<Rightarrow>
          (case etype m of
             KeyExchange \<Rightarrow> (case ebody m of MKeyExchange pk sl \<Rightarrow> onKeyExchange env cid pk sl s | _ \<Rightarrow> s)
           | SessionKeyReady \<Rightarrow>
               (case findStream cid s of
                  None \<Rightarrow> s
                | Some cs \<Rightarrow> if st_channel cs = None then s else startStreamFor cid (cs\<lparr>st_keysReady := True\<rparr>) s)
           | StreamStop \<Rightarrow>
               (case findStream cid s of
                  None \<Rightarrow> s
                | Some cs \<Rightarrow> release_player env (st_playerIndex cs) (stop_streamer ''client requested'' cs s))
           | KeyframeRequest \<Rightarrow>
               (case findStream cid s of
                  None \<Rightarrow> s
                | Some cs \<Rightarrow> (case st_streamer cs of None \<Rightarrow> s | Some h \<Rightarrow> ho_emit [StreamerKeyframe h] s))
           | _ \<Rightarrow> s))"

definition onClientUpdated :: "ho_env \<Rightarrow> ClientRow \<Rightarrow> HostCoordinator \<Rightarrow> HostCoordinator" where
  "onClientUpdated env row s =
     ho_emit [ClientTableChanged]
       (if row_state row = Connected then beginKeyExchange env (row_id row) s
        else if row_state row = Disconnected then teardownClient env (row_id row) s
        else s)"

definition onInputPermissions :: "ho_env \<Rightarrow> u32 \<Rightarrow> InputPermissions \<Rightarrow> HostCoordinator \<Rightarrow> HostCoordinator" where
  "onInputPermissions env cid perms s =
     (case findStream cid s of
        None \<Rightarrow> s
      | Some cs \<Rightarrow>
          let s = on_injector (setPermissions (he_mapVk env) (he_si env) (he_alloc env) (he_rc env) (st_playerIndex cs) perms) s
          in if st_streamer cs \<noteq> None \<and> perm_controller perms then on_injector setRumbleSender s else s)"

definition onClientJoined :: "nat \<Rightarrow> string \<Rightarrow> HostCoordinator \<Rightarrow> HostCoordinator" where
  "onClientJoined dialer token s =
     ho_emit [ClientTableChanged]
       (via_host (ha_connectRelayClient dialer (ho_serverHost s) (ho_relayTcpPort s) token) s)"

definition onInputDatagram :: "ho_env \<Rightarrow> u8 \<Rightarrow> bytes \<Rightarrow> HostCoordinator \<Rightarrow> HostCoordinator" where
  "onInputDatagram env player data =
     on_injector (\<lambda>i. fst (applyInput (he_mapVk env) (he_si env) (he_rc env) player data i))"

section \<open>User actions and the timer\<close>

definition if_host :: "(HostApp \<Rightarrow> hs_event list) \<Rightarrow> HostCoordinator \<Rightarrow> HostCoordinator" where
  "if_host f s = (if ho_host s = None then s else via_host f s)"

definition ho_approve :: "int \<Rightarrow> u32 \<Rightarrow> bool \<Rightarrow> HostCoordinator \<Rightarrow> HostCoordinator" where
  "ho_approve now cid accept = if_host (ha_approve now cid accept)"

definition ho_kick :: "ho_env \<Rightarrow> u32 \<Rightarrow> HostCoordinator \<Rightarrow> HostCoordinator" where
  "ho_kick env cid s = (if ho_host s = None then s else via_host (ha_kick cid) (teardownClient env cid s))"

definition ho_setClientInput :: "u32 \<Rightarrow> bool \<Rightarrow> HostCoordinator \<Rightarrow> HostCoordinator" where
  "ho_setClientInput cid enabled = if_host (ha_setClientInputEnabled cid enabled)"

definition setManualBitrate :: "int \<Rightarrow> HostCoordinator \<Rightarrow> HostCoordinator" where
  "setManualBitrate kbps s =
     ho_emit (map (\<lambda>h. StreamerSetBitrate h kbps) (streamers s) @ [StateChanged])
       (s\<lparr>ho_abr := setManual (ho_abr s) kbps, ho_abrEnabled := False, ho_ui := (ho_ui s)\<lparr>ui_bitrateTarget := kbps\<rparr>\<rparr>)"

definition setAbrEnabled :: "bool \<Rightarrow> HostCoordinator \<Rightarrow> HostCoordinator" where
  "setAbrEnabled on s = s\<lparr>ho_abrEnabled := on\<rparr>"

definition restartEncoders :: "HostCoordinator \<Rightarrow> HostCoordinator" where
  "restartEncoders s = ho_emit (map StreamerRestartEncoder (streamers s) @ [StateChanged]) s"

definition switchEncodersToSoftware :: "HostCoordinator \<Rightarrow> HostCoordinator" where
  "switchEncodersToSoftware s = ho_emit (map StreamerSoftwareEncoder (streamers s) @ [StateChanged]) s"

record streamer_stats =
  ss_avgRttMs :: rat
  ss_jitterMs :: rat
  ss_lostFrames :: nat
  ss_assembledFrames :: nat
  ss_streamFps :: rat
  ss_captureMs :: rat
  ss_encodeMs :: rat
  ss_actualBitrateKbps :: rat
  ss_encoderName :: string

definition loss_percent :: "streamer_stats \<Rightarrow> rat" where
  "loss_percent st =
     (let n = ss_lostFrames st + ss_assembledFrames st
      in if n > 0 then rat_of_nat (ss_lostFrames st) / rat_of_nat n * 100 else 0)"

definition ui_sample :: "streamer_stats \<Rightarrow> HostUiState \<Rightarrow> HostUiState" where
  "ui_sample st u = u\<lparr>ui_fps := ss_streamFps st, ui_captureMs := ss_captureMs st, ui_encodeMs := ss_encodeMs st,
     ui_bitrateKbps := ss_actualBitrateKbps st,
     ui_encoderName := (if ui_encoderName u = [] then ss_encoderName st else ui_encoderName u)\<rparr>"

definition link_of :: "streamer_stats list \<Rightarrow> rat \<times> rat \<times> rat" where
  "link_of sts = (if sts = [] then (0, 0, 0) else let st = last sts in (ss_avgRttMs st, loss_percent st, ss_jitterMs st))"

definition onStatsTimer :: "(nat \<Rightarrow> streamer_stats) \<Rightarrow> HostCoordinator \<Rightarrow> HostCoordinator" where
  "onStatsTimer stats s =
     (if ho_host s = None then s
      else
        let sts = map stats (streamers s);
            (rtt, lossPct, jitter) = link_of sts;
            s = s\<lparr>ho_ui := fold ui_sample sts (ho_ui s)\<rparr>;
            s = (if sts \<noteq> [] \<and> ho_abrEnabled s
                 then
                   let sample = \<lparr>rttMs = rtt, lossPercent = lossPct, jitterMs = jitter, decodeQueueFrames = 0,
                         fpsRatio = (if ho_expectedFps s > 0 then ui_fps (ho_ui s) / ho_expectedFps s else 1)\<rparr>;
                       (a, nxt) = abr_update (ho_abr s) sample;
                       s = s\<lparr>ho_abr := a\<rparr>
                   in (case nxt of
                         None \<Rightarrow> s
                       | Some k \<Rightarrow> ho_emit (map (\<lambda>h. StreamerSetBitrate h k) (streamers s)) s)
                 else s)
        in ho_emit [StateChanged]
             (s\<lparr>ho_ui := (ho_ui s)\<lparr>ui_rttMs := rtt, ui_lossPercent := lossPct, ui_jitterMs := jitter,
                ui_bitrateTarget := currentKbps (ho_abr s), ui_abrActive := ho_abrEnabled s\<rparr>\<rparr>))"

section \<open>The machine\<close>

datatype ho_event =
    OStartLan string "nat \<Rightarrow> u32" "u16 \<Rightarrow> u16 option" HostLaunchSettings
  | OStartInternet bool "(string \<times> u16 \<times> u16 \<times> string) option" HostLaunchSettings string u16
  | OStop
  | OClientUpdated ClientRow
  | OApprovalRequest u32 string
  | OInputPermissions u32 InputPermissions
  | OAppMessage u32 u16 bytes
  | OClientJoined nat string
  | OStreamUp nat u32 u8 StreamConfig "(string \<times> u16 \<times> string) option" u16 u32
  | OStreamStarted bool string u32 u8
  | OStreamerError bool u32 string
  | OInput u8 bytes
  | OApprove int u32 bool
  | OKick u32
  | OSetInput u32 bool
  | OManualBitrate int
  | OSetAbr bool
  | ORestartEncoders
  | OSoftwareEncoders
  | OTimer "nat \<Rightarrow> streamer_stats"

fun ho_react :: "ho_env \<Rightarrow> ho_event \<Rightarrow> HostCoordinator \<Rightarrow> HostCoordinator" where
  "ho_react env (OStartLan user rnd listen l) s = fst (startLan env user rnd listen l s)"
| "ho_react env (OStartInternet conn reg l address port) s = fst (startInternet env conn reg l address port s)"
| "ho_react env OStop s = ho_stop env s"
| "ho_react env (OClientUpdated row) s = onClientUpdated env row s"
| "ho_react env (OApprovalRequest cid name) s = ho_emit [ApprovalRequest cid name] s"
| "ho_react env (OInputPermissions cid perms) s = onInputPermissions env cid perms s"
| "ho_react env (OAppMessage cid ty payload) s = ho_handleAppMessage env cid ty payload s"
| "ho_react env (OClientJoined dialer token) s = onClientJoined dialer token s"
| "ho_react env (OStreamUp h cid player sc relay port sid) s = onStreamUp h cid player sc relay port sid s"
| "ho_react env (OStreamStarted ok err cid player) s = onStreamStarted ok err cid player s"
| "ho_react env (OStreamerError running cid msg) s = onStreamerError env running cid msg s"
| "ho_react env (OInput player data) s = onInputDatagram env player data s"
| "ho_react env (OApprove now cid accept) s = ho_approve now cid accept s"
| "ho_react env (OKick cid) s = ho_kick env cid s"
| "ho_react env (OSetInput cid enabled) s = ho_setClientInput cid enabled s"
| "ho_react env (OManualBitrate kbps) s = setManualBitrate kbps s"
| "ho_react env (OSetAbr on) s = setAbrEnabled on s"
| "ho_react env ORestartEncoders s = restartEncoders s"
| "ho_react env OSoftwareEncoders s = switchEncodersToSoftware s"
| "ho_react env (OTimer stats) s = onStatsTimer stats s"

fun ho_handle :: "ho_env \<times> ho_event \<Rightarrow> HostCoordinator \<Rightarrow> HostCoordinator" where
  "ho_handle (env, e) s = (if ho_fault s then s else ho_react env e s)"

section \<open>What the helpers change\<close>

named_theorems ho_simps

lemma emit_frame [simp]:
  "ho_host (ho_emit o1 s) = ho_host s" "ho_streams (ho_emit o1 s) = ho_streams s" "ho_fault (ho_emit o1 s) = ho_fault s"
  "ho_abr (ho_emit o1 s) = ho_abr s" "ho_injector (ho_emit o1 s) = ho_injector s" "ho_settings (ho_emit o1 s) = ho_settings s"
  "ho_sessionCode (ho_emit o1 s) = ho_sessionCode s" "ho_out (ho_emit o1 s) = ho_out s @ o1"
  "ho_nextStreamer (ho_emit o1 s) = ho_nextStreamer s"
  by (simp_all add: ho_emit_def)

lemma via_host_frame [simp]:
  "ho_host (via_host f s) = ho_host s" "ho_streams (via_host f s) = ho_streams s"
  "ho_abr (via_host f s) = ho_abr s" "ho_injector (via_host f s) = ho_injector s" "ho_settings (via_host f s) = ho_settings s"
  "ho_sessionCode (via_host f s) = ho_sessionCode s" "ho_nextStreamer (via_host f s) = ho_nextStreamer s"
  "ho_fault (via_host f s) = (ho_fault s \<or> ho_host s = None)"
  by (simp_all add: via_host_def split: option.split)

lemma on_injector_frame [simp]:
  "ho_host (on_injector f s) = ho_host s" "ho_streams (on_injector f s) = ho_streams s"
  "ho_abr (on_injector f s) = ho_abr s" "ho_injector (on_injector f s) = f (ho_injector s)"
  "ho_settings (on_injector f s) = ho_settings s" "ho_sessionCode (on_injector f s) = ho_sessionCode s"
  "ho_fault (on_injector f s) = ho_fault s" "ho_out (on_injector f s) = ho_out s"
  "ho_nextStreamer (on_injector f s) = ho_nextStreamer s"
  by (simp_all add: on_injector_def)

lemma put_stream_frame [simp]:
  "ho_host (put_stream cid cs s) = ho_host s" "ho_streams (put_stream cid cs s) = omap_upd cid cs (ho_streams s)"
  "ho_abr (put_stream cid cs s) = ho_abr s" "ho_injector (put_stream cid cs s) = ho_injector s"
  "ho_settings (put_stream cid cs s) = ho_settings s" "ho_sessionCode (put_stream cid cs s) = ho_sessionCode s"
  "ho_fault (put_stream cid cs s) = ho_fault s" "ho_out (put_stream cid cs s) = ho_out s"
  "ho_nextStreamer (put_stream cid cs s) = ho_nextStreamer s"
  by (simp_all add: put_stream_def)

lemma stop_streamer_frame [simp]:
  "ho_host (stop_streamer r cs s) = ho_host s" "ho_streams (stop_streamer r cs s) = ho_streams s"
  "ho_abr (stop_streamer r cs s) = ho_abr s" "ho_injector (stop_streamer r cs s) = ho_injector s"
  "ho_settings (stop_streamer r cs s) = ho_settings s" "ho_sessionCode (stop_streamer r cs s) = ho_sessionCode s"
  "ho_fault (stop_streamer r cs s) = ho_fault s" "ho_nextStreamer (stop_streamer r cs s) = ho_nextStreamer s"
  by (simp_all add: stop_streamer_def split: option.split)

lemma release_player_frame [simp]:
  "ho_host (release_player env p s) = ho_host s" "ho_streams (release_player env p s) = ho_streams s"
  "ho_abr (release_player env p s) = ho_abr s" "ho_settings (release_player env p s) = ho_settings s"
  "ho_sessionCode (release_player env p s) = ho_sessionCode s" "ho_out (release_player env p s) = ho_out s"
  "ho_fault (release_player env p s) = ho_fault s" "ho_nextStreamer (release_player env p s) = ho_nextStreamer s"
  by (simp_all add: release_player_def)

lemma startStreamFor_frame [simp]:
  "ho_host (startStreamFor cid cs s) = ho_host s" "ho_abr (startStreamFor cid cs s) = ho_abr s"
  "ho_injector (startStreamFor cid cs s) = ho_injector s" "ho_fault (startStreamFor cid cs s) = ho_fault s"
  by (simp_all add: startStreamFor_def Let_def split: option.split)

lemma ho_stop_frame [simp]:
  "ho_host (ho_stop env s) = None" "ho_streams (ho_stop env s) = []" "ho_abr (ho_stop env s) = ho_abr s"
  "ho_fault (ho_stop env s) = ho_fault s"
proof -
  let ?f = "\<lambda>(cid :: u32, cs) s. release_player env (st_playerIndex cs) (stop_streamer ''coordinator stop'' cs s)"
  have "ho_abr (fold ?f m t) = ho_abr t" "ho_fault (fold ?f m t) = ho_fault t" for m t
    by (induction m arbitrary: t) (auto split: prod.split)
  then show "ho_host (ho_stop env s) = None" "ho_streams (ho_stop env s) = []" "ho_abr (ho_stop env s) = ho_abr s"
    "ho_fault (ho_stop env s) = ho_fault s"
    by (simp_all add: ho_stop_def Let_def)
qed

section \<open>The host pointer\<close>

lemma teardown_frame [simp]:
  "ho_host (teardownClient env cid s) = ho_host s" "ho_fault (teardownClient env cid s) = ho_fault s"
  "ho_abr (teardownClient env cid s) = ho_abr s" "ho_streams (teardownClient env cid s) =
     (if findStream cid s = None then ho_streams s else omap_del cid (ho_streams s))"
  by (auto simp: teardownClient_def Let_def split: option.split)

lemma fault_react:
  assumes "\<not> ho_fault s" and "ho_host s \<noteq> None"
  shows "\<not> ho_fault (ho_react env e s)"
  using assms
  by (cases e)
    (auto simp: startLan_def startInternet_def onClientUpdated_def beginKeyExchange_def onInputPermissions_def
      ho_handleAppMessage_def onKeyExchange_def onClientJoined_def onStreamUp_def onStreamStarted_def
      onStreamerError_def onInputDatagram_def ho_approve_def ho_kick_def ho_setClientInput_def if_host_def
      setManualBitrate_def setAbrEnabled_def restartEncoders_def switchEncodersToSoftware_def onStatsTimer_def Let_def
      split: option.split prod.split Id.split Body.split)

text \<open>As long as there is a host object no event makes the coordinator call through a null pointer;
  but an update that says a client is connected, queued before \<^verbatim>\<open>stop\<close> and delivered after it, does, since
  \<^verbatim>\<open>beginKeyExchange\<close> uses \<^verbatim>\<open>host_\<close> without a check.\<close>

theorem host_pointer_after_stop:
  assumes "\<not> ho_fault s" and "row_state row = Connected"
  shows "(ho_host s \<noteq> None \<longrightarrow> \<not> ho_fault (ho_react env e s)) \<and> ho_fault (onClientUpdated env row (ho_stop env s))"
proof -
  have "ho_fault (beginKeyExchange env cid t)" if "ho_host t = None" "ho_streams t = []" for cid t
    using that by (simp add: beginKeyExchange_def findStream_def Let_def split: option.split)
  then show ?thesis using assms fault_react [OF assms(1)] by (simp add: onClientUpdated_def)
qed

definition env_example :: ho_env where
  "env_example = \<lparr>he_cng = demo_cng, he_mapVk = ucast, he_si = (\<lambda>_. True), he_alloc = Some 1, he_rc = 0\<rparr>"

definition row_example :: ClientRow where
  "row_example = ClientRow_default\<lparr>row_id := 1, row_state := Connected\<rparr>"

theorem host_pointer_after_stop_witness:
  "ho_fault (onClientUpdated env_example row_example
     (ho_stop env_example (HostCoordinator_new Config_default InputInjector_new)))"
  using host_pointer_after_stop [of "HostCoordinator_new Config_default InputInjector_new" row_example env_example OStop]
  by (simp add: HostCoordinator_new_def row_example_def)

section \<open>Internet mode\<close>

text \<open>The tasks posted to the session so far, and the states in which there is no session to post to.\<close>

fun is_post :: "ho_output \<Rightarrow> bool" where
  "is_post (PostHost e) = True"
| "is_post _ = False"

definition posts :: "HostCoordinator \<Rightarrow> ho_output list" where
  "posts s = filter is_post (ho_out s)"

definition sessionless :: "HostCoordinator \<Rightarrow> bool" where
  "sessionless s \<longleftrightarrow> (case ho_host s of None \<Rightarrow> True | Some a \<Rightarrow> ha_session a = None)"

fun starts_lan :: "ho_event \<Rightarrow> bool" where
  "starts_lan (OStartLan user rnd listen l) = True"
| "starts_lan _ = False"

lemma posts_frame [simp]:
  "posts (ho_emit o1 s) = posts s @ filter is_post o1" "posts (on_injector f s) = posts s"
  "posts (put_stream cid cs s) = posts s" "posts (release_player env p s) = posts s"
  "posts (stop_streamer r cs s) = posts s" "posts (startStreamFor cid cs s) = posts s"
  by (simp_all add: posts_def stop_streamer_def startStreamFor_def Let_def split: option.split)

lemma posts_via:
  assumes "sessionless s" and "\<And>a. ha_session a = None \<Longrightarrow> f a = []"
  shows "posts (via_host f s) = posts s"
  using assms by (auto simp: via_host_def sessionless_def posts_def split: option.splits)

lemma ha_posts_none [simp]:
  "ha_session a = None \<Longrightarrow> ha_kick cid a = []" "ha_session a = None \<Longrightarrow> ha_sendAppMessage cid ty pl a = []"
  "ha_session a = None \<Longrightarrow> ha_connectRelayClient d h p t a = []" "ha_session a = None \<Longrightarrow> ha_approve n cid b a = []"
  "ha_session a = None \<Longrightarrow> ha_setClientInputEnabled cid b a = []"
  by (simp_all add: ha_kick_def ha_sendAppMessage_def ha_connectRelayClient_def ha_approve_def
      ha_setClientInputEnabled_def ha_post_def)

lemma sessionless_frame [simp]: "sessionless (ho_emit o1 s) = sessionless s" "sessionless (put_stream cid cs s) = sessionless s"
  "sessionless (via_host f s) = sessionless s" "sessionless (teardownClient env cid s) = sessionless s"
  "sessionless (startStreamFor cid cs s) = sessionless s" "sessionless (on_injector g s) = sessionless s"
  "sessionless (release_player env p s) = sessionless s" "sessionless (stop_streamer r cs s) = sessionless s"
  "sessionless (ho_stop env s)"
  by (simp_all add: sessionless_def)

lemma posts_stop [simp]: "posts (ho_stop env s) = posts s"
proof -
  let ?f = "\<lambda>(cid :: u32, cs) s. release_player env (st_playerIndex cs) (stop_streamer ''coordinator stop'' cs s)"
  have "posts (fold ?f m t) = posts t" for m t
    by (induction m arbitrary: t) (auto split: prod.split)
  moreover have "posts (t\<lparr>ho_timer := b\<rparr>) = posts t" for t b by (simp add: posts_def)
  moreover have "posts (t\<lparr>ho_initThreads := i, ho_streams := x, ho_host := h, ho_signaling := g, ho_ui := u\<rparr>) = posts t"
    for t i x h g u by (simp add: posts_def)
  ultimately show ?thesis by (simp add: ho_stop_def Let_def)
qed

definition quiet :: "HostCoordinator \<Rightarrow> HostCoordinator \<Rightarrow> bool" where
  "quiet s t \<longleftrightarrow> sessionless t \<and> posts t = posts s"

lemma quiet_teardown: "sessionless s \<Longrightarrow> quiet s (teardownClient env cid s)"
proof -
  assume "sessionless s"
  moreover have "posts (t\<lparr>ho_streams := m\<rparr>) = posts t" "sessionless (t\<lparr>ho_streams := m\<rparr>) = sessionless t" for t m
    by (simp_all add: posts_def sessionless_def)
  ultimately show ?thesis by (simp add: quiet_def teardownClient_def Let_def split: option.split)
qed

lemma quiet_begin: "sessionless s \<Longrightarrow> quiet s (beginKeyExchange env cid s)"
  by (simp add: quiet_def beginKeyExchange_def Let_def posts_via split: option.split)

lemma quiet_message: "sessionless s \<Longrightarrow> quiet s (ho_handleAppMessage env cid ty payload s)"
proof -
  assume sl: "sessionless s"
  then have "quiet s (onKeyExchange env cid pk sl s)" for pk sl
    by (simp add: quiet_def onKeyExchange_def Let_def posts_via split: option.split prod.split)
  with sl show ?thesis
    by (simp add: ho_handleAppMessage_def quiet_def split: option.split Id.split Body.split)
qed

lemma quiet_timer: "sessionless s \<Longrightarrow> quiet s (onStatsTimer stats s)"
proof -
  have p: "posts (t\<lparr>ho_ui := u\<rparr>) = posts t" "posts (t\<lparr>ho_abr := b\<rparr>) = posts t"
    "sessionless (t\<lparr>ho_ui := u\<rparr>) = sessionless t" "sessionless (t\<lparr>ho_abr := b\<rparr>) = sessionless t" for t u b
    by (simp_all add: posts_def sessionless_def)
  have f: "filter is_post (map (\<lambda>h. StreamerSetBitrate h k) hs) = []" for hs k by (induction hs) simp_all
  assume "sessionless s"
  then show ?thesis
    by (simp add: quiet_def onStatsTimer_def Let_def p f split: prod.split option.split)
qed

lemma quiet_internet: "quiet s (fst (startInternet env conn reg l address port s))"
proof -
  have "posts (t\<lparr>ho_internetMode := a, ho_serverHost := b, ho_serverPort := c, ho_settings := d\<rparr>) = posts t"
    "posts (t\<lparr>ho_signaling := a1, ho_sessionCode := a2, ho_relayTcpPort := a3, ho_relayUdpPort := a4, ho_hostToken := a5,
      ho_host := a6, ho_ui := a7, ho_expectedFps := a8, ho_abr := a9, ho_timer := a10\<rparr>) = posts t"
    for t a b c d a1 a2 a3 a4 a5 a6 a7 a8 a9 a10 by (simp_all add: posts_def)
  then show ?thesis
    by (simp add: quiet_def startInternet_def Let_def sessionless_def HostApp_new_def split: option.split prod.split)
qed

lemma quiet_react:
  assumes "sessionless s" and "\<not> starts_lan e"
  shows "quiet s (ho_react env e s)"
proof -
  have f: "filter is_post (map (\<lambda>h. StreamerSetBitrate h k) hs) = []" "filter is_post (map StreamerRestartEncoder hs) = []"
    "filter is_post (map StreamerSoftwareEncoder hs) = []" for hs k by (induction hs) simp_all
  have post_if: "posts (if_host g s) = posts s" "sessionless (if_host g s)" if "\<And>a. ha_session a = None \<Longrightarrow> g a = []" for g
    using that assms(1) by (simp_all add: if_host_def posts_via)
  show ?thesis
  proof (cases e)
    case (OClientUpdated row)
    then show ?thesis
      using assms(1) quiet_begin [OF assms(1)] quiet_teardown [OF assms(1)] by (simp add: onClientUpdated_def quiet_def)
  next
    case (OManualBitrate k)
    then show ?thesis using assms(1) f by (simp add: quiet_def setManualBitrate_def sessionless_def posts_def)
  next
    case (OInputPermissions cid perms)
    then show ?thesis using assms(1) by (simp add: quiet_def onInputPermissions_def Let_def split: option.split)
  next
    case (OStreamUp h cid player sc relay port sid)
    then show ?thesis
      using assms(1) by (simp add: quiet_def onStreamUp_def Let_def posts_via split: option.split prod.split)
  next
    case (OKick cid)
    then show ?thesis
      using assms(1) quiet_teardown [OF assms(1), of env cid] by (simp add: quiet_def ho_kick_def posts_via)
  next
    case (OStreamStarted ok err cid player)
    then show ?thesis
      using assms(1) by (simp add: quiet_def onStreamStarted_def Let_def posts_via split: option.split)
  next
    case (OStreamerError running cid msg)
    then show ?thesis using assms(1) by (simp add: quiet_def onStreamerError_def Let_def split: option.split)
  next
    case (OSetAbr on)
    then show ?thesis using assms(1) by (simp add: quiet_def setAbrEnabled_def sessionless_def posts_def)
  qed (use assms quiet_message [OF assms(1)] quiet_timer [OF assms(1)] quiet_internet post_if f in
      \<open>simp_all add: quiet_def onClientJoined_def posts_via onInputDatagram_def ho_approve_def
        ho_setClientInput_def restartEncoders_def switchEncodersToSoftware_def\<close>)
qed

text \<open>In internet mode the host never talks to anybody: \<^verbatim>\<open>startInternet\<close> makes a host object without
  starting its session, and nothing later starts it, so whatever players join through the server and
  whatever the user does short of hosting in LAN mode, not one task reaches a session (no relay pipe
  is dialled, no message sent).\<close>

theorem internet_mode_posts_nothing:
  assumes "list_all (\<lambda>e. \<not> starts_lan (snd e)) es"
  shows "posts (fold ho_handle es (fst (startInternet env conn reg l address port s))) = posts s"
proof -
  have "quiet t (fold ho_handle es t)" if "sessionless t" for t
    using that assms
  proof (induction es arbitrary: t)
    case (Cons e es)
    then have "quiet t (ho_handle e t)" by (cases e) (simp add: quiet_react, simp add: quiet_def)
    with Cons.IH [of "ho_handle e t"] Cons.prems show ?case by (simp add: quiet_def)
  qed (simp add: quiet_def)
  with quiet_internet [of s env conn reg l address port] show ?thesis by (simp add: quiet_def)
qed

theorem internet_mode_posts_nothing_witness:
  "posts (fold ho_handle [(env_example, OClientJoined 0 ''token''), (env_example, OClientUpdated row_example)]
     (fst (startInternet env_example True (Some (''ABCD'', 4000, 4001, ''t'')) HostLaunchSettings_default ''relay'' 4002
       (HostCoordinator_new Config_default InputInjector_new)))) = []"
  using internet_mode_posts_nothing
    [of "[(env_example, OClientJoined 0 ''token''), (env_example, OClientUpdated row_example)]" env_example True
      "Some (''ABCD'', 4000, 4001, ''t'')" HostLaunchSettings_default "''relay''" 4002
      "HostCoordinator_new Config_default InputInjector_new"]
  by (simp add: posts_def HostCoordinator_new_def)

section \<open>Player slots\<close>

definition slots_ok :: "(u32, ClientStream) omap \<Rightarrow> bool" where
  "slots_ok m \<longleftrightarrow> (\<forall>c cs. map_of m c = Some cs \<longrightarrow> st_playerIndex cs < 4 \<and>
     (\<forall>d ds. map_of m d = Some ds \<longrightarrow> st_playerIndex cs = st_playerIndex ds \<longrightarrow> c = d))"

text \<open>How one event changes the table of streams.\<close>

definition stream_step :: "HostCoordinator \<Rightarrow> HostCoordinator \<Rightarrow> bool" where
  "stream_step s t \<longleftrightarrow> ho_streams t = ho_streams s \<or> ho_streams t = [] \<or>
     (\<exists>cid. ho_streams t = omap_del cid (ho_streams s)) \<or>
     (\<exists>cid cs cs'. findStream cid s = Some cs \<and> st_playerIndex cs' = st_playerIndex cs \<and>
        ho_streams t = omap_upd cid cs' (ho_streams s)) \<or>
     (\<exists>cid cs. findStream cid s = None \<and> st_playerIndex cs = assignPlayerIndex s \<and>
        ho_streams t = omap_upd cid cs (ho_streams s))"

lemma step_same: "ho_streams t = ho_streams s \<Longrightarrow> stream_step s t"
  by (simp add: stream_step_def)

lemma step_clear: "ho_streams t = [] \<Longrightarrow> stream_step s t"
  by (simp add: stream_step_def)

lemma step_update:
  "findStream cid s = Some cs \<Longrightarrow> st_playerIndex cs' = st_playerIndex cs \<Longrightarrow>
     ho_streams t = omap_upd cid cs' (ho_streams s) \<Longrightarrow> stream_step s t"
  unfolding stream_step_def by blast

lemma step_new:
  "findStream cid s = None \<Longrightarrow> st_playerIndex cs = assignPlayerIndex s \<Longrightarrow>
     ho_streams t = omap_upd cid cs (ho_streams s) \<Longrightarrow> stream_step s t"
  unfolding stream_step_def by blast

lemma step_teardown: "ho_streams t = ho_streams (teardownClient env cid s) \<Longrightarrow> stream_step s t"
  by (auto simp: stream_step_def)

lemma startStreamFor_streams:
  "ho_streams (startStreamFor cid cs s) =
     omap_upd cid (if ho_settings s = None then cs else cs\<lparr>st_streamer := Some (ho_nextStreamer s)\<rparr>) (ho_streams s)"
  by (simp add: startStreamFor_def Let_def split: option.split)

lemma step_begin: "ho_streams t = ho_streams (beginKeyExchange env cid s) \<Longrightarrow> stream_step s t"
proof (cases "findStream cid s")
  case None
  assume t: "ho_streams t = ho_streams (beginKeyExchange env cid s)"
  show ?thesis
  proof (cases "generateEcdhP256 (he_cng env)")
    case None
    with \<open>findStream cid s = None\<close> t show ?thesis by (intro step_same) (simp add: beginKeyExchange_def)
  next
    case (Some kp)
    with \<open>findStream cid s = None\<close> t show ?thesis
      by (intro step_new [of cid]) (simp_all add: beginKeyExchange_def Let_def)
  qed
qed (simp add: beginKeyExchange_def step_same)

text \<open>The channel a KEY_EXCHANGE message of a client leaves in its stream.\<close>

definition exchanged :: "ho_env \<Rightarrow> EcdhKeyPair \<Rightarrow> bytes \<Rightarrow> bytes \<Rightarrow> bytes \<Rightarrow> string \<Rightarrow> SecureChannel" where
  "exchanged env kp sl0 pk sl code = fst (sc_finish (he_cng env) kp sl0 pk sl code True SecureChannel_new)"

lemma onKeyExchange_streams:
  assumes "findStream cid s = Some cs" and "st_ecdh cs = Some kp" and "\<not> st_keysReady cs"
  shows "ho_streams (onKeyExchange env cid pk sl s) =
    omap_upd cid (cs\<lparr>st_channel := Some (exchanged env kp (st_ourSalt cs) pk sl (ho_sessionCode s))\<rparr>) (ho_streams s)"
  using assms by (simp add: onKeyExchange_def Let_def exchanged_def case_prod_beta)

lemma onKeyExchange_ignored:
  assumes "\<not> (\<exists>cs kp. findStream cid s = Some cs \<and> st_ecdh cs = Some kp \<and> \<not> st_keysReady cs)"
  shows "onKeyExchange env cid pk sl s = s"
  using assms by (auto simp: onKeyExchange_def split: option.split)

lemma step_message: "stream_step s (ho_handleAppMessage env cid ty payload s)"
proof -
  have k: "stream_step s (onKeyExchange env cid pk sl s)" for pk sl
  proof (cases "\<exists>cs kp. findStream cid s = Some cs \<and> st_ecdh cs = Some kp \<and> \<not> st_keysReady cs")
    case True
    then obtain cs kp where cs: "findStream cid s = Some cs" "st_ecdh cs = Some kp" "\<not> st_keysReady cs" by blast
    show ?thesis by (rule step_update [OF cs(1) _ onKeyExchange_streams [OF cs]]) simp
  next
    case False
    then show ?thesis by (simp add: onKeyExchange_ignored step_same)
  qed
  have r: "stream_step s (startStreamFor cid (cs\<lparr>st_keysReady := True\<rparr>) s)" if "findStream cid s = Some cs" for cs
    by (rule step_update [OF that _ startStreamFor_streams]) simp
  show ?thesis
    using k r by (simp add: ho_handleAppMessage_def step_same split: option.split Id.split Body.split)
qed

lemma step_react: "stream_step s (ho_react env e s)"
proof (cases e)
  case (OAppMessage cid ty payload)
  then show ?thesis by (simp add: step_message)
next
  case (OClientUpdated row)
  then show ?thesis
    using step_begin [of _ env "row_id row" s] step_teardown [of _ env "row_id row" s]
    by (simp add: onClientUpdated_def step_same)
next
  case (OKick cid)
  then show ?thesis using step_teardown [of _ env cid s] by (simp add: ho_kick_def step_same)
next
  case (OStartLan user rnd listen l)
  then show ?thesis by (intro step_clear) (simp add: startLan_def Let_def split: prod.split)
next
  case (OStartInternet conn reg l address port)
  then show ?thesis by (intro step_clear) (simp add: startInternet_def Let_def split: prod.split option.split)
qed (simp_all add: step_same step_clear onInputPermissions_def onClientJoined_def onStreamUp_def onStreamStarted_def
    onStreamerError_def onInputDatagram_def ho_approve_def ho_setClientInput_def if_host_def setManualBitrate_def
    setAbrEnabled_def restartEncoders_def switchEncodersToSoftware_def onStatsTimer_def Let_def
    split: option.split prod.split)

lemma assign_free:
  assumes "length (ho_streams s) < 4"
  shows "assignPlayerIndex s < 4 \<and> (\<forall>(cid, cs) \<in> set (ho_streams s). st_playerIndex cs \<noteq> assignPlayerIndex s)"
proof -
  let ?used = "(\<lambda>p. st_playerIndex (snd p)) ` set (ho_streams s)"
  have "card ?used < 4" using assms card_image_le [OF finite_set] card_length le_less_trans by metis
  moreover have "card {0, 1, 2, 3 :: u8} = 4" by simp
  ultimately have "\<not> {0, 1, 2, 3} \<subseteq> ?used" using card_mono [of ?used "{0, 1, 2, 3}"] by auto
  moreover define free where "free i \<longleftrightarrow> (\<forall>(cid, cs) \<in> set (ho_streams s). st_playerIndex cs \<noteq> i)" for i
  ultimately have ex: "free 0 \<or> free 1 \<or> free 2 \<or> free 3" by (force simp: free_def)
  have "\<not> list_ex (\<lambda>(cid, cs). st_playerIndex cs = i) (ho_streams s) \<longleftrightarrow> free i" for i
    by (auto simp: free_def list_ex_iff)
  then have chain: "assignPlayerIndex s = (if free 0 then 0 else if free 1 then 1 else if free 2 then 2 else 3)"
    by (simp add: assignPlayerIndex_def)
  have "assignPlayerIndex s < 4 \<and> free (assignPlayerIndex s)" using ex by (auto simp: chain)
  then show ?thesis by (simp add: free_def)
qed

lemma slots_step:
  assumes "slots_ok (ho_streams s)" and "stream_step s t" and "length (ho_streams s) \<le> 4" and "length (ho_streams t) \<le> 4"
  shows "slots_ok (ho_streams t)"
proof -
  have new: "slots_ok (omap_upd cid cs (ho_streams s))"
    if c: "findStream cid s = None" "st_playerIndex cs = assignPlayerIndex s" "length (omap_upd cid cs (ho_streams s)) \<le> 4" for cid cs
  proof -
    have "length (ho_streams s) < 4" using c by (simp add: findStream_def length_omap_upd_new)
    from assign_free [OF this] have lt: "st_playerIndex cs < 4"
      and ne: "\<forall>d ds. map_of (ho_streams s) d = Some ds \<longrightarrow> st_playerIndex cs \<noteq> st_playerIndex ds"
      using c(2) by (auto dest!: map_of_SomeD)
    show ?thesis
      unfolding slots_ok_def map_of_omap_upd
      using assms(1) lt ne by (simp add: slots_ok_def) metis
  qed
  from assms(2) consider "ho_streams t = ho_streams s" | "ho_streams t = []"
    | cid where "ho_streams t = omap_del cid (ho_streams s)"
    | cid cs cs' where "findStream cid s = Some cs" "st_playerIndex cs' = st_playerIndex cs"
        "ho_streams t = omap_upd cid cs' (ho_streams s)"
    | cid cs where "findStream cid s = None" "st_playerIndex cs = assignPlayerIndex s"
        "ho_streams t = omap_upd cid cs (ho_streams s)"
    unfolding stream_step_def by blast
  then show ?thesis
  proof cases
    case 4
    then show ?thesis using assms(1) by (auto simp: slots_ok_def findStream_def)
  next
    case 5
    then show ?thesis using new assms(4) by simp
  qed (use assms(1) in \<open>auto simp: slots_ok_def\<close>)
qed

text \<open>C18: In every run in which at most four clients have a stream at a time, which the capacity of the
  session grants, the players have different slots, each below four.\<close>

theorem player_slots_distinct:
  assumes "\<And>n. length (ho_streams (fold ho_handle (take n es) (HostCoordinator_new cfg injector))) \<le> 4"
  shows "slots_ok (ho_streams (fold ho_handle es (HostCoordinator_new cfg injector)))"
proof -
  have "slots_ok (ho_streams (fold ho_handle (take n es) (HostCoordinator_new cfg injector)))" for n
  proof (induction n)
    case 0
    then show ?case by (simp add: HostCoordinator_new_def slots_ok_def)
  next
    case (Suc n)
    let ?s = "fold ho_handle (take n es) (HostCoordinator_new cfg injector)"
    show ?case
    proof (cases "n < length es")
      case True
      obtain env e where e: "es ! n = (env, e)" by force
      have t: "fold ho_handle (take (Suc n) es) (HostCoordinator_new cfg injector) = ho_handle (es ! n) ?s"
        using True by (simp add: take_Suc_conv_app_nth)
      have "stream_step ?s (ho_handle (es ! n) ?s)" using step_react step_same by (simp add: e)
      from slots_step [OF Suc.IH this assms [of n]] assms [of "Suc n"] show ?thesis by (simp add: t)
    qed (use Suc in simp)
  qed
  from this [of "length es"] show ?thesis by simp
qed

text \<open>With four streams the next player is given the last slot again.\<close>

lemma assign_full:
  assumes "\<forall>i \<in> {0, 1, 2, 3}. \<exists>cid cs. (cid, cs) \<in> set (ho_streams s) \<and> st_playerIndex cs = i"
  shows "assignPlayerIndex s = 3"
proof -
  have "list_ex (\<lambda>(cid, cs). st_playerIndex cs = i) (ho_streams s)" if "i \<in> {0, 1, 2, 3}" for i
    using assms that by (fastforce simp: list_ex_iff)
  then show ?thesis by (simp add: assignPlayerIndex_def)
qed

section \<open>Keys before streams\<close>

text \<open>A message of a client among the events, and the channel made from a KEY_EXCHANGE of it.\<close>

definition sent_message :: "u32 \<Rightarrow> (Envelope \<Rightarrow> bool) \<Rightarrow> (ho_env \<times> ho_event) list \<Rightarrow> bool" where
  "sent_message cid P es \<longleftrightarrow> (\<exists>env ty payload m. (env, OAppMessage cid ty payload) \<in> set es \<and>
     decodeMessage ty payload = Some m \<and> P m)"

definition key_origin :: "(ho_env \<times> ho_event) list \<Rightarrow> u32 \<Rightarrow> SecureChannel \<Rightarrow> bool" where
  "key_origin es cid c \<longleftrightarrow> (\<exists>env kp sl0 pk sl code. c = exchanged env kp sl0 pk sl code \<and>
     sent_message cid (\<lambda>m. etype m = KeyExchange \<and> ebody m = MKeyExchange pk sl) es)"

definition key_ready :: "(ho_env \<times> ho_event) list \<Rightarrow> u32 \<Rightarrow> bool" where
  "key_ready es cid \<longleftrightarrow> sent_message cid (\<lambda>m. etype m = SessionKeyReady) es"

definition start_ok :: "(ho_env \<times> ho_event) list \<Rightarrow> ho_output \<Rightarrow> bool" where
  "start_ok es out \<longleftrightarrow> (\<forall>h sc sid p ch. out = StreamerStart h sc sid p ch \<longrightarrow>
     (\<exists>cid c code. ch = Some c \<and> sid = makeUdpSessionId code cid \<and> key_origin es cid c \<and> key_ready es cid))"

definition streams_keyed :: "(ho_env \<times> ho_event) list \<Rightarrow> (u32, ClientStream) omap \<Rightarrow> bool" where
  "streams_keyed es m \<longleftrightarrow> (\<forall>cid cs. map_of m cid = Some cs \<longrightarrow> st_clientId cs = cid \<and>
     (\<forall>c. st_channel cs = Some c \<longrightarrow> key_origin es cid c))"

definition keyed :: "(ho_env \<times> ho_event) list \<Rightarrow> HostCoordinator \<Rightarrow> bool" where
  "keyed es s \<longleftrightarrow> streams_keyed es (ho_streams s) \<and> (\<forall>out \<in> set (ho_out s). start_ok es out)"

lemma sent_message_mono: "sent_message cid P es \<Longrightarrow> sent_message cid P (es @ fs)"
  by (auto simp: sent_message_def)

lemma key_mono: "key_origin es cid c \<Longrightarrow> key_origin (es @ fs) cid c" "key_ready es cid \<Longrightarrow> key_ready (es @ fs) cid"
  unfolding key_origin_def key_ready_def by (blast intro: sent_message_mono)+

lemma start_ok_mono: "start_ok es out \<Longrightarrow> start_ok (es @ fs) out"
  by (cases out) (auto simp: start_ok_def intro: key_mono)

lemma streams_keyed_mono: "streams_keyed es m \<Longrightarrow> streams_keyed (es @ fs) m"
  by (auto simp: streams_keyed_def intro: key_mono)

lemma keyed_mono: "keyed es s \<Longrightarrow> keyed (es @ fs) s"
  by (auto simp: keyed_def intro: start_ok_mono streams_keyed_mono)

text \<open>Outputs that are no stream start.\<close>

fun plain :: "ho_output \<Rightarrow> bool" where
  "plain (StreamerStart h sc sid p ch) = False"
| "plain _ = True"

definition adds_plain :: "HostCoordinator \<Rightarrow> HostCoordinator \<Rightarrow> bool" where
  "adds_plain s t \<longleftrightarrow> (\<forall>out \<in> set (ho_out t). out \<in> set (ho_out s) \<or> plain out)"

lemma plain_ok: "plain out \<Longrightarrow> start_ok es out"
  by (auto simp: start_ok_def)

lemma keyed_plain:
  assumes "keyed es s" and "adds_plain s t" and "streams_keyed es (ho_streams t)"
  shows "keyed es t"
  using assms plain_ok by (auto simp: keyed_def adds_plain_def)

lemma adds_plain_refl [simp]: "adds_plain s s"
  by (simp add: adds_plain_def)

lemma adds_plain_frame [simp]:
  "adds_plain s (ho_emit outs t) \<longleftrightarrow> adds_plain s t \<and> (\<forall>out \<in> set outs. out \<in> set (ho_out s) \<or> plain out)"
  "adds_plain s (on_injector f t) = adds_plain s t" "adds_plain s (put_stream cid cs t) = adds_plain s t"
  "adds_plain s (release_player env p t) = adds_plain s t"
  by (auto simp: adds_plain_def)

lemma adds_plain_via [simp]: "adds_plain s t \<Longrightarrow> adds_plain s (via_host f t)"
  by (auto simp: adds_plain_def via_host_def split: option.split)

lemma adds_plain_stop_streamer [simp]: "adds_plain s t \<Longrightarrow> adds_plain s (stop_streamer r cs t)"
  by (auto simp: stop_streamer_def split: option.split)

lemma adds_plain_record [simp]:
  "adds_plain s (t\<lparr>ho_streams := m\<rparr>) = adds_plain s t" "adds_plain s (t\<lparr>ho_ui := u\<rparr>) = adds_plain s t"
  "adds_plain s (t\<lparr>ho_abr := b\<rparr>) = adds_plain s t" "adds_plain s (t\<lparr>ho_abrEnabled := on\<rparr>) = adds_plain s t"
  "adds_plain s (t\<lparr>ho_timer := on\<rparr>) = adds_plain s t" "adds_plain s (t\<lparr>ho_host := h\<rparr>) = adds_plain s t"
  by (simp_all add: adds_plain_def)

lemma adds_plain_stop [simp]: "adds_plain s (ho_stop env s)"
proof -
  let ?f = "\<lambda>(cid :: u32, cs) s. release_player env (st_playerIndex cs) (stop_streamer ''coordinator stop'' cs s)"
  have "adds_plain s (fold ?f m t)" if "adds_plain s t" for m t
    using that by (induction m arbitrary: t) (auto split: prod.split)
  from this [of "s\<lparr>ho_timer := False\<rparr>" "ho_streams s"] have "adds_plain s (fold ?f (ho_streams s) (s\<lparr>ho_timer := False\<rparr>))"
    by simp
  then show ?thesis by (simp add: ho_stop_def Let_def) (simp add: adds_plain_def)
qed

lemma streams_keyed_upd:
  assumes "streams_keyed es m" and "st_clientId cs = cid" and "\<And>c. st_channel cs = Some c \<Longrightarrow> key_origin es cid c"
  shows "streams_keyed es (omap_upd cid cs m)"
  using assms by (auto simp: streams_keyed_def)

lemma streams_keyed_del: "streams_keyed es m \<Longrightarrow> streams_keyed es (omap_del cid m)"
  by (auto simp: streams_keyed_def split: if_splits)

lemma streams_keyed_Nil [simp]: "streams_keyed es []"
  by (simp add: streams_keyed_def)

lemma streams_keyedD:
  assumes "streams_keyed es (ho_streams s)" and "findStream cid s = Some cs"
  shows "st_clientId cs = cid" and "st_channel cs = Some c \<Longrightarrow> key_origin es cid c"
  using assms by (auto simp: streams_keyed_def findStream_def)

lemma keyed_begin: "keyed es s \<Longrightarrow> keyed es (beginKeyExchange env cid s)"
proof (rule keyed_plain)
  assume k: "keyed es s"
  then show "streams_keyed es (ho_streams (beginKeyExchange env cid s))"
    by (auto simp: keyed_def beginKeyExchange_def Let_def split: option.split intro!: streams_keyed_upd)
  show "adds_plain s (beginKeyExchange env cid s)"
    by (simp add: beginKeyExchange_def Let_def split: option.split)
qed

lemma keyed_teardown: "keyed es s \<Longrightarrow> keyed es (teardownClient env cid s)"
proof (rule keyed_plain)
  assume k: "keyed es s"
  then show "streams_keyed es (ho_streams (teardownClient env cid s))"
    by (simp add: keyed_def streams_keyed_del)
  show "adds_plain s (teardownClient env cid s)"
    by (simp add: teardownClient_def Let_def split: option.split)
qed

lemma keyed_exchange:
  assumes k: "keyed es s" and d: "sent_message cid (\<lambda>m. etype m = KeyExchange \<and> ebody m = MKeyExchange pk sl) es"
  shows "keyed es (onKeyExchange env cid pk sl s)"
proof (cases "\<exists>cs kp. findStream cid s = Some cs \<and> st_ecdh cs = Some kp \<and> \<not> st_keysReady cs")
  case True
  then obtain cs kp where cs: "findStream cid s = Some cs" "st_ecdh cs = Some kp" "\<not> st_keysReady cs" by blast
  have sk: "streams_keyed es (ho_streams s)" using k by (simp add: keyed_def)
  have "key_origin es cid (exchanged env kp (st_ourSalt cs) pk sl (ho_sessionCode s))"
    using d unfolding key_origin_def by blast
  then have "streams_keyed es (ho_streams (onKeyExchange env cid pk sl s))"
    using streams_keyedD(1) [OF sk cs(1)] unfolding onKeyExchange_streams [OF cs]
    by (intro streams_keyed_upd [OF sk]) simp_all
  moreover have "adds_plain s (onKeyExchange env cid pk sl s)"
    using cs by (simp add: onKeyExchange_def Let_def split: prod.split)
  ultimately show ?thesis using keyed_plain [OF k] by blast
qed (simp add: onKeyExchange_ignored k)

lemma keyed_start:
  assumes k: "keyed es s" and cs: "findStream cid s = Some cs" "st_channel cs \<noteq> None" and r: "key_ready es cid"
  shows "keyed es (startStreamFor cid (cs\<lparr>st_keysReady := True\<rparr>) s)"
proof -
  have sk: "streams_keyed es (ho_streams s)" using k by (simp add: keyed_def)
  obtain c where c: "st_channel cs = Some c" using cs(2) by blast
  note o = streams_keyedD [OF sk cs(1)]
  have "streams_keyed es (ho_streams (startStreamFor cid (cs\<lparr>st_keysReady := True\<rparr>) s))"
    unfolding startStreamFor_streams by (rule streams_keyed_upd [OF sk]) (use o in \<open>auto split: if_splits\<close>)
  moreover have "start_ok es (StreamerStart h sc (makeUdpSessionId code (st_clientId cs)) p (Some c))" for h sc code p
    using o(1) o(2) [OF c] r by (auto simp: start_ok_def)
  ultimately show ?thesis
    using k c by (auto simp: keyed_def startStreamFor_def Let_def split: option.split)
qed

lemma keyed_message:
  assumes "keyed es s"
  shows "keyed (es @ [(env, OAppMessage cid ty payload)]) (ho_handleAppMessage env cid ty payload s)"
proof (cases "decodeMessage ty payload")
  case None
  then show ?thesis using keyed_mono [OF assms] by (simp add: ho_handleAppMessage_def)
next
  case (Some m)
  let ?es = "es @ [(env, OAppMessage cid ty payload)]"
  have k: "keyed ?es s" by (rule keyed_mono [OF assms])
  have msg: "sent_message cid P ?es" if "P m" for P
    unfolding sent_message_def using Some that by (intro exI [of _ env] exI [of _ ty] exI [of _ payload] exI [of _ m]) simp
  have pl: "keyed ?es t" if "adds_plain s t" "ho_streams t = ho_streams s" for t
    using keyed_plain [OF k that(1)] k that(2) by (simp add: keyed_def)
  show ?thesis
  proof (cases "etype m = KeyExchange \<or> etype m = SessionKeyReady")
    case True
    have "keyed ?es (onKeyExchange env cid pk sl s)" if "etype m = KeyExchange" "ebody m = MKeyExchange pk sl" for pk sl
      using that by (intro keyed_exchange [OF k] msg) simp
    moreover have "keyed ?es (startStreamFor cid (cs\<lparr>st_keysReady := True\<rparr>) s)"
      if "etype m = SessionKeyReady" "findStream cid s = Some cs" "st_channel cs \<noteq> None" for cs
      using that msg by (intro keyed_start [OF k]) (simp_all add: key_ready_def)
    ultimately show ?thesis
      using True Some k by (auto simp: ho_handleAppMessage_def split: option.split Body.split)
  next
    case False
    have "adds_plain s (ho_handleAppMessage env cid ty payload s) \<and> ho_streams (ho_handleAppMessage env cid ty payload s) = ho_streams s"
      using Some False by (simp add: ho_handleAppMessage_def split: option.split Id.split)
    then show ?thesis using pl by blast
  qed
qed

lemma keyed_react: "keyed es s \<Longrightarrow> keyed (es @ [(env, e)]) (ho_react env e s)"
proof -
  assume k0: "keyed es s"
  let ?es = "es @ [(env, e)]"
  have k: "keyed ?es s" by (rule keyed_mono [OF k0])
  have pl: "keyed ?es t" if "adds_plain s t" "ho_streams t = ho_streams s \<or> ho_streams t = []" for t
    using keyed_plain [OF k that(1)] k that(2) by (auto simp: keyed_def)
  show ?thesis
  proof (cases e)
    case (OAppMessage cid ty payload)
    then show ?thesis using keyed_message [OF k0] by simp
  next
    case (OClientUpdated row)
    have "keyed ?es (ho_emit [ClientTableChanged] t)" if "keyed ?es t" for t
      using keyed_plain [OF that, of "ho_emit [ClientTableChanged] t"] that by (simp add: keyed_def)
    then show ?thesis using OClientUpdated k keyed_begin keyed_teardown by (simp add: onClientUpdated_def)
  next
    case (OKick cid)
    have "keyed ?es (via_host f t)" if "keyed ?es t" for f t
      using keyed_plain [OF that, of "via_host f t"] that by (simp add: keyed_def)
    then show ?thesis using OKick k keyed_teardown by (simp add: ho_kick_def)
  next
    case (OStartLan user rnd listen l)
    then show ?thesis
      by (intro pl) (simp_all add: startLan_def Let_def adds_plain_def [of s] split: prod.split,
        use adds_plain_stop [of s env] in \<open>auto simp: adds_plain_def\<close>)
  next
    case (OStartInternet conn reg l address port)
    then show ?thesis
      by (intro pl) (simp_all add: startInternet_def Let_def adds_plain_def [of s] split: prod.split option.split,
        use adds_plain_stop [of s env] in \<open>auto simp: adds_plain_def\<close>)
  next
    case (OManualBitrate k)
    then show ?thesis by (intro pl) (auto simp: setManualBitrate_def adds_plain_def)
  next
    case (OTimer stats)
    then show ?thesis
      by (intro pl) (auto simp: onStatsTimer_def Let_def split: prod.split option.split)
  qed (rule pl; auto simp: onInputPermissions_def onClientJoined_def onStreamUp_def onStreamStarted_def
      onStreamerError_def onInputDatagram_def ho_approve_def ho_setClientInput_def if_host_def
      setAbrEnabled_def restartEncoders_def switchEncodersToSoftware_def Let_def
      split: option.split prod.split)+
qed

lemma keyed_run: "keyed es (fold ho_handle es (HostCoordinator_new cfg injector))"
proof (induction es rule: rev_induct)
  case Nil
  then show ?case by (simp add: HostCoordinator_new_def keyed_def)
next
  case (snoc e es)
  then show ?case using keyed_mono keyed_react by (cases e) simp
qed

lemma started_keyed:
  assumes "StreamerStart h sc sid p ch \<in> set (ho_out (fold ho_handle es (HostCoordinator_new cfg injector)))"
  shows "start_ok es (StreamerStart h sc sid p ch)"
  using assms keyed_run [of es cfg injector] by (auto simp: keyed_def)

text \<open>C7: On every run a streamer is started only for a client that sent a KEY_EXCHANGE, with the channel
  the coordinator derived from that very message, after the client confirmed with SESSION_KEY_READY;
  its UDP session id is computed from that client's id.\<close>

theorem stream_needs_key_exchange:
  assumes "StreamerStart h sc sid p ch \<in> set (ho_out (fold ho_handle es (HostCoordinator_new cfg injector)))"
  shows "\<exists>cid c code. ch = Some c \<and> sid = makeUdpSessionId code cid \<and> key_origin es cid c \<and> key_ready es cid"
  using started_keyed [OF assms] by (simp add: start_ok_def)

lemma exchanged_active: "sc_active (exchanged env kp sl0 pk sl code) \<longleftrightarrow> snd (sc_finish (he_cng env) kp sl0 pk sl code True SecureChannel_new)"
  by (auto simp: exchanged_def sc_finish_def Let_def split: option.split)

lemma key_begin_effect:
  assumes "findStream cid s = None" and "generateEcdhP256 (he_cng env) = Some kp" and "ho_host s \<noteq> None" and "\<not> ho_fault s"
  defines "t \<equiv> beginKeyExchange env cid s"
  shows "\<exists>cs. findStream cid t = Some cs \<and> st_clientId cs = cid \<and> st_ecdh cs = Some kp \<and> \<not> st_keysReady cs \<and>
      st_ourSalt cs = randomBytes (he_cng env) 16 \<and> st_playerIndex cs = assignPlayerIndex s"
    and "ho_host t = ho_host s" "ho_settings t = ho_settings s" "ho_sessionCode t = ho_sessionCode s" "\<not> ho_fault t"
      "ho_injector t = ho_injector s"
  using assms by (simp_all add: beginKeyExchange_def Let_def findStream_def)

lemma exchange_effect:
  assumes "findStream cid s = Some cs" and "st_ecdh cs = Some kp" and "\<not> st_keysReady cs" and "ho_host s \<noteq> None" and "\<not> ho_fault s"
    and t: "t = onKeyExchange env cid pk sl s"
  shows "findStream cid t = Some (cs\<lparr>st_channel := Some (exchanged env kp (st_ourSalt cs) pk sl (ho_sessionCode s))\<rparr>)"
    and "ho_settings t = ho_settings s" "ho_sessionCode t = ho_sessionCode s" "\<not> ho_fault t" "ho_injector t = ho_injector s"
proof -
  show "findStream cid t = Some (cs\<lparr>st_channel := Some (exchanged env kp (st_ourSalt cs) pk sl (ho_sessionCode s))\<rparr>)"
    using onKeyExchange_streams [OF assms(1-3)] by (simp add: t findStream_def)
qed (use assms in \<open>simp_all add: onKeyExchange_def Let_def split: prod.split\<close>)

lemma exchange_final:
  assumes s: "\<not> ho_fault s" "ho_host s \<noteq> None" "ho_settings s = Some l" "findStream (row_id row) s = None"
    and kp: "generateEcdhP256 (he_cng env) = Some kp" and row: "row_state row = Connected"
    and m: "decodeMessage ty payload = Some m" "etype m = KeyExchange" "ebody m = MKeyExchange pk sl"
    and r: "decodeMessage ty' payload' = Some m'" "etype m' = SessionKeyReady"
    and c: "c = exchanged env kp (randomBytes (he_cng env) 16) pk sl (ho_sessionCode s)"
  shows "\<exists>cs s2. fold ho_handle [(env, OClientUpdated row), (env, OAppMessage (row_id row) ty payload),
        (env, OAppMessage (row_id row) ty' payload')] s = startStreamFor (row_id row) cs s2 \<and>
    st_clientId cs = row_id row \<and> st_channel cs = Some c \<and> st_playerIndex cs = assignPlayerIndex s \<and>
    ho_settings s2 = Some l \<and> ho_sessionCode s2 = ho_sessionCode s \<and> ho_injector s2 = ho_injector s \<and> \<not> ho_fault s2"
proof -
  let ?cid = "row_id row"
  define s1 where "s1 = onClientUpdated env row s"
  have s1: "s1 = ho_emit [ClientTableChanged] (beginKeyExchange env ?cid s)" using row by (simp add: s1_def onClientUpdated_def)
  note b = key_begin_effect [OF s(4) kp s(2,1)]
  obtain cs where cs: "findStream ?cid s1 = Some cs" "st_clientId cs = ?cid" "st_ecdh cs = Some kp" "\<not> st_keysReady cs"
    "st_ourSalt cs = randomBytes (he_cng env) 16" "st_playerIndex cs = assignPlayerIndex s"
    using b(1) by (auto simp: s1 findStream_def)
  have f1: "ho_host s1 \<noteq> None" "\<not> ho_fault s1" "ho_settings s1 = Some l" "ho_sessionCode s1 = ho_sessionCode s"
    "ho_injector s1 = ho_injector s"
    using b(2-6) s by (simp_all add: s1)
  define s2 where "s2 = ho_handleAppMessage env ?cid ty payload s1"
  have s2: "s2 = onKeyExchange env ?cid pk sl s1" using m by (simp add: s2_def ho_handleAppMessage_def)
  note e = exchange_effect [OF cs(1,3,4) f1(1,2) s2]
  let ?cs = "cs\<lparr>st_channel := Some c, st_keysReady := True\<rparr>"
  have "ho_handleAppMessage env ?cid ty' payload' s2 = startStreamFor ?cid ?cs s2"
    using r e(1) cs(5) f1(4) by (simp add: ho_handleAppMessage_def c)
  then have "fold ho_handle [(env, OClientUpdated row), (env, OAppMessage ?cid ty payload), (env, OAppMessage ?cid ty' payload')] s
      = startStreamFor ?cid ?cs s2"
    using s(1) f1(2) e(4) by (simp add: s1_def [symmetric] s2_def [symmetric])
  then show ?thesis using e(2-5) f1(3-5) cs(2,6) by (intro exI [of _ ?cs] exI [of _ s2]) simp
qed

lemma exchange_run:
  assumes s: "\<not> ho_fault s" "ho_host s \<noteq> None" "ho_settings s = Some l" "findStream (row_id row) s = None"
    and kp: "generateEcdhP256 (he_cng env) = Some kp" and row: "row_state row = Connected"
    and m: "decodeMessage ty payload = Some m" "etype m = KeyExchange" "ebody m = MKeyExchange pk sl"
    and r: "decodeMessage ty' payload' = Some m'" "etype m' = SessionKeyReady"
    and c: "c = exchanged env kp (randomBytes (he_cng env) 16) pk sl (ho_sessionCode s)"
  shows "\<exists>h p. StreamerStart h (stream_config l) (makeUdpSessionId (ho_sessionCode s) (row_id row)) p (Some c) \<in>
      set (ho_out (fold ho_handle [(env, OClientUpdated row), (env, OAppMessage (row_id row) ty payload),
        (env, OAppMessage (row_id row) ty' payload')] s))"
  using exchange_final [OF assms] by (elim exE conjE) (auto simp: startStreamFor_def Let_def simp del: fold_simps)

text \<open>A client that connects to a hosting coordinator, sends a KEY_EXCHANGE and then SESSION_KEY_READY
  gets a stream, with the session's settings and the channel derived from its message. That happens
  even when the key agreement failed: the channel is active exactly when it succeeded.\<close>

theorem exchange_starts_stream:
  assumes s: "\<not> ho_fault s" "ho_host s \<noteq> None" "ho_settings s = Some l" "findStream (row_id row) s = None"
    and kp: "generateEcdhP256 (he_cng env) = Some kp" and row: "row_state row = Connected"
    and m: "decodeMessage ty payload = Some m" "etype m = KeyExchange" "ebody m = MKeyExchange pk sl"
    and r: "decodeMessage ty' payload' = Some m'" "etype m' = SessionKeyReady"
    and c: "c = exchanged env kp (randomBytes (he_cng env) 16) pk sl (ho_sessionCode s)"
  shows "(\<exists>h p. StreamerStart h (stream_config l) (makeUdpSessionId (ho_sessionCode s) (row_id row)) p (Some c) \<in>
      set (ho_out (fold ho_handle [(env, OClientUpdated row), (env, OAppMessage (row_id row) ty payload),
        (env, OAppMessage (row_id row) ty' payload')] s))) \<and>
    (sc_active c \<longleftrightarrow> snd (sc_finish (he_cng env) kp (randomBytes (he_cng env) 16) pk sl (ho_sessionCode s) True SecureChannel_new))"
  using exchange_run [OF assms] exchanged_active c by simp

text \<open>A hosting coordinator, and a client whose public key the provider refuses (a point off the curve).\<close>

lemma lan_example:
  assumes s: "s = fst (startLan env_example ''ann'' (\<lambda>_. 0) Some l (HostCoordinator_new cfg injector))"
  shows "\<not> ho_fault s" "ho_host s \<noteq> None" "ho_settings s = Some (with_audio cfg l)" "findStream cid s = None"
proof -
  have ok: "snd (ha_start ''ann'' (\<lambda>_. 0) Some l HostApp_new)"
    by (simp add: ha_start_def hs_start_def HostSession_new_def Let_def)
  have z: "\<not> ho_fault (HostCoordinator_new cfg injector)" "ho_config (HostCoordinator_new cfg injector) = cfg"
    by (simp_all add: HostCoordinator_new_def)
  have cfg: "ho_config (HostCoordinator_new cfg injector) = cfg" by (simp add: HostCoordinator_new_def)
  show "\<not> ho_fault s" "ho_host s \<noteq> None" "ho_settings s = Some (with_audio cfg l)" "findStream cid s = None"
    using ok z by (simp_all add: s startLan_def Let_def case_prod_beta findStream_def)
qed

definition key_envelope :: "bytes \<Rightarrow> Envelope" where
  "key_envelope pk = \<lparr>etype = KeyExchange, ebody = MKeyExchange pk (replicate 16 2)\<rparr>"

definition env_refusing :: ho_env where
  "env_refusing = env_example\<lparr>he_cng := demo_cng\<lparr>cng_agree := (\<lambda>_ _. None)\<rparr>\<rparr>"

definition client_messages :: "ho_env \<Rightarrow> bytes \<Rightarrow> (ho_env \<times> ho_event) list" where
  "client_messages env pk = [(env, OClientUpdated row_example),
     (env, OAppMessage (row_id row_example) (id_code KeyExchange) (encodeMessage (key_envelope pk))),
     (env, OAppMessage (row_id row_example) (id_code SessionKeyReady) [])]"

definition lan_host :: HostCoordinator where
  "lan_host = fst (startLan env_example ''ann'' (\<lambda>_. 0) Some HostLaunchSettings_default
     (HostCoordinator_new Config_default InputInjector_new))"

definition client_run :: "bytes \<Rightarrow> (ho_env \<times> ho_event) list" where
  "client_run pk = (env_example, OStartLan ''ann'' (\<lambda>_. 0) Some HostLaunchSettings_default) # client_messages env_example pk"

lemma key_envelope_fields: "etype (key_envelope pk) = KeyExchange" "ebody (key_envelope pk) = MKeyExchange pk (replicate 16 2)"
  by (simp_all add: key_envelope_def)

lemma client_messages_decode:
  "decodeMessage (id_code KeyExchange) (encodeMessage (key_envelope (replicate 64 0))) = Some (key_envelope (replicate 64 0))"
  "decodeMessage (id_code KeyExchange) (encodeMessage (key_envelope (kp_public demo_key))) = Some (key_envelope (kp_public demo_key))"
  "decodeMessage (id_code SessionKeyReady) [] = Some \<lparr>etype = SessionKeyReady, ebody = MSessionKeyReady\<rparr>"
  by code_simp+

theorem exchange_starts_stream_witness:
  "\<exists>h sc sid p c. StreamerStart h sc sid p (Some c) \<in>
     set (ho_out (fold ho_handle (client_messages env_refusing (replicate 64 0)) lan_host)) \<and> \<not> sc_active c"
proof -
  note host = lan_example [OF lan_host_def]
  have kp: "generateEcdhP256 (he_cng env_refusing) = Some demo_key" by code_simp
  have row: "row_state row_example = Connected" by (simp add: row_example_def)
  have "\<not> snd (sc_finish (he_cng env_refusing) demo_key (randomBytes (he_cng env_refusing) 16) (replicate 64 0) (replicate 16 2)
      (ho_sessionCode lan_host) True SecureChannel_new)"
    by (simp add: sc_finish_def ecdhP256_def env_refusing_def Let_def)
  with exchange_starts_stream [OF host(1-3) host(4) kp row client_messages_decode(1) key_envelope_fields
      client_messages_decode(3) Envelope.select_convs(1) refl]
  show ?thesis unfolding client_messages_def by blast
qed

theorem stream_needs_key_exchange_witness:
  "\<exists>cid c. key_origin (client_run (kp_public demo_key)) cid c \<and> key_ready (client_run (kp_public demo_key)) cid"
proof -
  note host = lan_example [OF lan_host_def]
  have kp: "generateEcdhP256 (he_cng env_example) = Some demo_key" by code_simp
  have row: "row_state row_example = Connected" by (simp add: row_example_def)
  have "fold ho_handle (client_run (kp_public demo_key)) (HostCoordinator_new Config_default InputInjector_new) =
      fold ho_handle (client_messages env_example (kp_public demo_key)) lan_host"
    by (simp add: client_run_def lan_host_def HostCoordinator_new_def)
  moreover have "\<exists>h sc sid p c. StreamerStart h sc sid p (Some c) \<in> set (ho_out (fold ho_handle (client_messages env_example (kp_public demo_key)) lan_host))"
    using exchange_run [OF host(1-3) host(4) kp row client_messages_decode(2) key_envelope_fields
      client_messages_decode(3) Envelope.select_convs(1) refl]
    unfolding client_messages_def by blast
  ultimately show ?thesis
    using stream_needs_key_exchange [of _ _ _ _ _ "client_run (kp_public demo_key)" Config_default InputInjector_new] by fastforce
qed

section \<open>Bitrate\<close>

definition abr_range :: "AdaptiveBitrate \<Rightarrow> bool" where
  "abr_range a \<longleftrightarrow> abr_inv a \<and> minKbps a = 2000 \<and> maxKbps a = 30000"

lemma abr_range_mk: "abr_range (mkAdaptiveBitrate k 2000 30000)"
  using abr.inv_init [of k] by (simp add: abr_range_def)

lemma abr_range_handle: "abr_range a \<Longrightarrow> abr_range (abr_handle e a)"
  using abr.inv_handle by (simp add: abr_range_def)

lemma abr_range_update: "abr_range a \<Longrightarrow> abr_range (fst (abr_update a x))"
  using abr_range_handle [of a "Sample x"] by simp

lemma abr_range_timer: "abr_range (ho_abr s) \<Longrightarrow> abr_range (ho_abr (onStatsTimer stats s))"
  using abr_range_update by (auto simp: onStatsTimer_def Let_def case_prod_beta split: option.split)

lemma abr_range_react: "abr_range (ho_abr s) \<Longrightarrow> abr_range (ho_abr (ho_react env e s))"
proof (cases e)
  case (OManualBitrate k)
  assume "abr_range (ho_abr s)"
  then show ?thesis using OManualBitrate abr_range_handle [of _ "Manual k"] by (simp add: setManualBitrate_def)
next
  case (OStartLan user rnd listen l)
  assume "abr_range (ho_abr s)"
  then show ?thesis using OStartLan abr_range_mk by (simp add: startLan_def Let_def split: prod.split)
next
  case (OStartInternet conn reg l address port)
  assume "abr_range (ho_abr s)"
  then show ?thesis using OStartInternet abr_range_mk by (simp add: startInternet_def Let_def split: prod.split option.split)
next
  case (OAppMessage cid ty payload)
  assume "abr_range (ho_abr s)"
  moreover have "ho_abr (ho_handleAppMessage env cid ty payload s) = ho_abr s"
    by (simp add: ho_handleAppMessage_def onKeyExchange_def Let_def split: option.split prod.split Id.split Body.split)
  ultimately show ?thesis using OAppMessage by simp
qed (simp_all add: abr_range_timer onClientUpdated_def beginKeyExchange_def onInputPermissions_def onClientJoined_def
    onStreamUp_def onStreamStarted_def onStreamerError_def onInputDatagram_def ho_approve_def ho_kick_def
    ho_setClientInput_def if_host_def setAbrEnabled_def restartEncoders_def switchEncodersToSoftware_def Let_def
    split: option.split prod.split)

interpretation ho_rate: event_machine "HostCoordinator_new cfg injector" ho_handle "\<lambda>s. abr_range (ho_abr s)"
proof unfold_locales
  show "abr_range (ho_abr (HostCoordinator_new cfg injector))" by (simp add: HostCoordinator_new_def abr_range_mk)
next
  fix s :: HostCoordinator and e
  assume "abr_range (ho_abr s)"
  then show "abr_range (ho_abr (ho_handle e s))" using abr_range_react by (cases e) simp
qed

text \<open>In every run the statistics timer sets the bitrate of streamers of the table only, and only to
  values between 2000 and 30000 kbit/s.\<close>

theorem timer_bitrates_in_range:
  "\<exists>outs. ho_out (onStatsTimer stats (fold ho_handle es (HostCoordinator_new cfg injector))) =
      ho_out (fold ho_handle es (HostCoordinator_new cfg injector)) @ outs \<and>
     list_all (\<lambda>out. case out of
       StreamerSetBitrate h k \<Rightarrow> h \<in> set (streamers (fold ho_handle es (HostCoordinator_new cfg injector))) \<and> k \<in> {2000..30000}
     | _ \<Rightarrow> out = StateChanged) outs"
proof -
  define s where "s = fold ho_handle es (HostCoordinator_new cfg injector)"
  have r: "abr_range (ho_abr s)" unfolding s_def by (rule ho_rate.inv_run)
  have up: "k \<in> {2000..30000}" if "snd (abr_update (ho_abr s) x) = Some k" for x k
  proof -
    have "abr_range (fst (abr_update (ho_abr s) x))" by (rule abr_range_update [OF r])
    moreover have "k = currentKbps (fst (abr_update (ho_abr s) x))"
      using abr_update_sound [of "ho_abr s", OF _ prod.collapse [symmetric], of x] that r
      by (simp add: abr_range_def split: if_splits)
    ultimately show ?thesis by (simp add: abr_range_def abr_inv_def)
  qed
  have st: "streamers (t\<lparr>ho_ui := u\<rparr>) = streamers t" "streamers (t\<lparr>ho_abr := b\<rparr>) = streamers t" for t u b
    by (simp_all add: streamers_def)
  show ?thesis
    unfolding s_def [symmetric] using up
    by (auto simp: onStatsTimer_def Let_def case_prod_beta list_all_iff st split: option.split)
qed

text \<open>The session id of a stream is never the wildcard 0.\<close>

lemma makeUdpSessionId_nonzero: "makeUdpSessionId code cid \<noteq> 0"
proof -
  have "bit (makeUdpSessionId code cid) 0" by (simp add: makeUdpSessionId_def Let_def bit_or_iff)
  then show ?thesis by (metis bit_0_eq bot_apply bot_bool_def)
qed

section \<open>A client that goes\<close>

lemma ij_inv_react:
  assumes inv: "ij_inv (ho_injector s)"
  shows "ij_inv (ho_injector (ho_react env e s))"
proof -
  have rel: "ij_inv (ho_injector (release_player env p t))" if "ij_inv (ho_injector t)" for p t
    using ij_inv_clientDisconnected [OF that] by (simp add: release_player_def)
  have stop: "ij_inv (ho_injector (ho_stop env s))"
  proof -
    let ?f = "\<lambda>(cid :: u32, cs) s. release_player env (st_playerIndex cs) (stop_streamer ''coordinator stop'' cs s)"
    have "ij_inv (ho_injector (fold ?f m t))" if "ij_inv (ho_injector t)" for m t
      using that rel by (induction m arbitrary: t) (auto split: prod.split)
    from this [of "s\<lparr>ho_timer := False\<rparr>" "ho_streams s"] inv show ?thesis by (simp add: ho_stop_def Let_def)
  qed
  have tear: "ij_inv (ho_injector (teardownClient env cid s))" for cid
    using inv rel by (simp add: teardownClient_def Let_def split: option.split)
  have msg: "ij_inv (ho_injector (ho_handleAppMessage env cid ty payload s))" for cid ty payload
    using inv rel
    by (simp add: ho_handleAppMessage_def onKeyExchange_def Let_def split: option.split prod.split Id.split Body.split)
  have bke: "ho_injector (beginKeyExchange env cid s) = ho_injector s" for cid
    by (simp add: beginKeyExchange_def Let_def split: option.split)
  show ?thesis
  proof (cases e)
    case (OStartLan user rnd listen l)
    then show ?thesis using stop by (simp add: startLan_def Let_def split: prod.split)
  next
    case (OStartInternet conn reg l address port)
    then show ?thesis using stop by (simp add: startInternet_def Let_def split: prod.split option.split)
  next
    case (OInputPermissions cid perms)
    have "ij_inv (setRumbleSender i) = ij_inv i" for i by (simp add: setRumbleSender_def ij_inv_def)
    then show ?thesis
      using OInputPermissions inv ij_inv_setPermissions [OF inv]
      by (simp add: onInputPermissions_def Let_def split: option.split)
  next
    case (OInput player data)
    then show ?thesis using ij_inv_applyInput [OF inv] by (simp add: onInputDatagram_def)
  next
    case (OStreamerError running cid msg)
    then show ?thesis using inv rel by (simp add: onStreamerError_def Let_def split: option.split)
  next
    case (OTimer stats)
    then show ?thesis using inv by (simp add: onStatsTimer_def Let_def case_prod_beta split: option.split)
  qed (use inv stop tear msg bke in \<open>simp_all add: onClientUpdated_def onClientJoined_def onStreamUp_def onStreamStarted_def
      ho_approve_def ho_kick_def ho_setClientInput_def if_host_def setManualBitrate_def setAbrEnabled_def
      restartEncoders_def switchEncodersToSoftware_def Let_def split: option.split prod.split\<close>)
qed

interpretation ho_input: event_machine "HostCoordinator_new cfg InputInjector_new" ho_handle
  "\<lambda>s. ij_inv (ho_injector s)"
proof unfold_locales
  show "ij_inv (ho_injector (HostCoordinator_new cfg InputInjector_new))"
    by (simp add: HostCoordinator_new_def ij_inv_new)
next
  fix s :: HostCoordinator and e :: "ho_env \<times> ho_event"
  assume "ij_inv (ho_injector s)"
  then show "ij_inv (ho_injector (ho_handle e s))" using ij_inv_react by (cases e) simp
qed

lemma disconnected_player_gone:
  assumes inv: "ij_inv i"
  shows "find_player p (ij_clients (clientDisconnected mapVk si p i)) = None"
proof -
  let ?t = "releaseAllKeys mapVk si p i"
  have "distinct (map pc_playerIndex (ij_clients ?t))"
    using releaseAllKeys_effect [OF inv, of mapVk si p] unfolding ij_inv_def table_ok_def by blast
  then show ?thesis using find_player_erase by (simp add: clientDisconnected_def Let_def with_pads_def)
qed

text \<open>C17: When the session reports a client as disconnected, in any run and whatever \<^verbatim>\<open>SendInput\<close> answers:
  its stream is gone and the others stay, its streamer was told to stop, the injector has no record of
  its player, and each key or button still held down is recorded for a player the injector knows or is
  one whose release the system refused.\<close>

theorem client_gone_leaves_nothing:
  assumes "s = fold ho_handle es (HostCoordinator_new cfg InputInjector_new)"
    and "findStream (row_id row) s = Some cs" and "row_state row = Disconnected"
    and "t = onClientUpdated env row s"
  shows "findStream (row_id row) t = None \<and> (\<forall>d. d \<noteq> row_id row \<longrightarrow> findStream d t = findStream d s) \<and>
    (\<forall>h. st_streamer cs = Some h \<longrightarrow> StreamerStop h ''client disconnected'' \<in> set (ho_out t)) \<and>
    find_player (st_playerIndex cs) (ij_clients (ho_injector t)) = None \<and>
    held (ij_out (ho_injector t)) \<subseteq> tracked (ij_clients (ho_injector t)) \<union> refused (ij_out (ho_injector t))"
proof -
  let ?p = "st_playerIndex cs"
  have inv: "ij_inv (ho_injector s)" unfolding assms(1) by (rule ho_input.inv_run)
  have t: "t = ho_emit [ClientTableChanged] (teardownClient env (row_id row) s)"
    using assms(3,4) by (simp add: onClientUpdated_def)
  have i: "ho_injector t = clientDisconnected (he_mapVk env) (he_si env) ?p (ho_injector s)"
    using assms(2) by (simp add: t teardownClient_def Let_def release_player_def)
  have "find_player ?p (ij_clients (ho_injector t)) = None" "ij_inv (ho_injector t)"
    unfolding i by (rule disconnected_player_gone [OF inv], rule ij_inv_clientDisconnected [OF inv])
  moreover have "ho_streams t = omap_del (row_id row) (ho_streams s)" using assms(2) by (simp add: t)
  moreover have "StreamerStop h ''client disconnected'' \<in> set (ho_out t)" if "st_streamer cs = Some h" for h
    using assms(2) that by (simp add: t teardownClient_def Let_def stop_streamer_def)
  ultimately show ?thesis by (simp add: findStream_def ij_inv_def)
qed

definition joined_run :: "(ho_env \<times> ho_event) list" where
  "joined_run = [(env_example, OStartLan ''ann'' (\<lambda>_. 0) Some HostLaunchSettings_default), (env_example, OClientUpdated row_example)]"

text \<open>A player with a running stream who holds the key A down when the connection ends.\<close>

definition playing_run :: "(ho_env \<times> ho_event) list" where
  "playing_run = client_run (kp_public demo_key) @
     [(env_example, OInputPermissions (row_id row_example) perms_example), (env_example, OInput 0 key_down_example)]"

lemma started_stream:
  assumes "ho_settings s = Some l"
  shows "findStream cid (startStreamFor cid cs s) = Some (cs\<lparr>st_streamer := Some (ho_nextStreamer s)\<rparr>)"
    and "ho_injector (startStreamFor cid cs s) = ho_injector s" and "ho_fault (startStreamFor cid cs s) = ho_fault s"
  using assms by (simp_all add: startStreamFor_def findStream_def Let_def)

lemma playing_state:
  "\<exists>cs h. findStream (row_id row_example) (fold ho_handle playing_run (HostCoordinator_new Config_default InputInjector_new)) = Some cs \<and>
     st_playerIndex cs = 0 \<and> st_streamer cs = Some h"
  "ij_out (ho_injector (fold ho_handle playing_run (HostCoordinator_new Config_default InputInjector_new))) =
     [SendInput (makeKeyInput ucast 65 True False) True]"
proof -
  note host = lan_example [OF lan_host_def]
  have kp: "generateEcdhP256 (he_cng env_example) = Some demo_key" by code_simp
  have row: "row_state row_example = Connected" by (simp add: row_example_def)
  have lan: "assignPlayerIndex lan_host = 0" "ho_injector lan_host = InputInjector_new"
    by (simp_all add: lan_host_def startLan_def assignPlayerIndex_def ho_stop_def HostCoordinator_new_def Let_def case_prod_beta)
  let ?cid = "row_id row_example" and ?i = "setPermissions ucast (\<lambda>_. True) (Some 1) 0 0 perms_example InputInjector_new"
  obtain cs s2 l where x: "fold ho_handle (client_messages env_example (kp_public demo_key)) lan_host = startStreamFor ?cid cs s2"
    "st_playerIndex cs = 0" "ho_settings s2 = Some l" "ho_injector s2 = InputInjector_new" "\<not> ho_fault s2"
    using exchange_final [OF host(1-3) host(4) kp row client_messages_decode(2) key_envelope_fields
      client_messages_decode(3) Envelope.select_convs(1) refl] lan
    unfolding client_messages_def by metis
  note st = started_stream [OF x(3), of ?cid cs]
  have "fold ho_handle (client_run (kp_public demo_key)) (HostCoordinator_new Config_default InputInjector_new) =
      startStreamFor ?cid cs s2"
    unfolding x(1) [symmetric] by (simp add: client_run_def lan_host_def HostCoordinator_new_def)
  then have run: "fold ho_handle playing_run (HostCoordinator_new Config_default InputInjector_new) =
      onInputDatagram env_example 0 key_down_example (onInputPermissions env_example ?cid perms_example (startStreamFor ?cid cs s2))"
    using st(3) x(5) by (simp add: playing_run_def onInputPermissions_def st(1) Let_def)
  show "\<exists>cs h. findStream ?cid (fold ho_handle playing_run (HostCoordinator_new Config_default InputInjector_new)) = Some cs \<and>
      st_playerIndex cs = 0 \<and> st_streamer cs = Some h"
    unfolding run using st(1) x(2) by (simp add: onInputDatagram_def onInputPermissions_def Let_def findStream_def)
  have "ho_injector (fold ho_handle playing_run (HostCoordinator_new Config_default InputInjector_new)) =
      fst (applyInput ucast (\<lambda>_. True) 0 0 key_down_example ?i)"
    unfolding run using st(1,2) x(2,4)
    by (simp add: onInputDatagram_def onInputPermissions_def Let_def env_example_def perms_example_def)
  moreover have "ij_out (fst (applyInput ucast (\<lambda>_. True) 0 0 key_down_example ?i)) =
      [SendInput (makeKeyInput ucast 65 True False) True]" by code_simp
  ultimately show "ij_out (ho_injector (fold ho_handle playing_run (HostCoordinator_new Config_default InputInjector_new))) =
      [SendInput (makeKeyInput ucast 65 True False) True]" by simp
qed

theorem client_gone_leaves_nothing_witness:
  "let s = fold ho_handle playing_run (HostCoordinator_new Config_default InputInjector_new);
       t = onClientUpdated env_example (row_example\<lparr>row_state := Disconnected\<rparr>) s
   in Key 65 \<in> held (ij_out (ho_injector s)) \<and> findStream (row_id row_example) s \<noteq> None \<and>
     findStream (row_id row_example) t = None \<and> (\<exists>h. StreamerStop h ''client disconnected'' \<in> set (ho_out t)) \<and>
     find_player 0 (ij_clients (ho_injector t)) = None"
proof -
  let ?row = "row_example\<lparr>row_state := Disconnected\<rparr>"
  let ?s = "fold ho_handle playing_run (HostCoordinator_new Config_default InputInjector_new)"
  obtain cs h where cs: "findStream (row_id ?row) ?s = Some cs" "st_playerIndex cs = 0" "st_streamer cs = Some h"
    using playing_state(1) by auto
  have "row_state ?row = Disconnected" by simp
  note gone = client_gone_leaves_nothing [OF refl cs(1) this refl, of env_example]
  have "Key 65 \<in> held (ij_out (ho_injector ?s))" unfolding playing_state(2) by (simp add: held_def effect_key)
  with gone cs show ?thesis unfolding Let_def by auto
qed

lemma stream_step_length: "stream_step s t \<Longrightarrow> length (ho_streams t) \<le> Suc (length (ho_streams s))"
  using length_omap_upd le_SucI [OF length_filter_le] unfolding stream_step_def omap_del_def by (elim disjE exE conjE) simp_all

lemma streams_length: "length (ho_streams (fold ho_handle es (HostCoordinator_new cfg injector))) \<le> length es"
proof (induction es rule: rev_induct)
  case Nil
  then show ?case by (simp add: HostCoordinator_new_def)
next
  case (snoc e es)
  obtain env ev where e: "e = (env, ev)" by force
  have "stream_step t (ho_handle e t)" for t using step_react step_same by (simp add: e)
  from stream_step_length [OF this] snoc show ?case by (fastforce intro: le_trans)
qed

theorem player_slots_distinct_witness:
  "slots_ok (ho_streams (fold ho_handle joined_run (HostCoordinator_new Config_default InputInjector_new)))"
proof (rule player_slots_distinct)
  fix n
  show "length (ho_streams (fold ho_handle (take n joined_run) (HostCoordinator_new Config_default InputInjector_new))) \<le> 4"
    using streams_length [of "take n joined_run" Config_default InputInjector_new] by (simp add: joined_run_def)
qed

end
