(* ===== verification/VideoEncoder.thy ===== *)
theory VideoEncoder
  imports RP_Types Config Complex_Main
begin

text \<open>
  \<^verbatim>\<open>encoding/VideoEncoder.cpp\<close>: the choice of an FFmpeg encoder, the letterboxing of a captured frame
  into the encoder's picture, and the bookkeeping of keyframes, bitrate and packets. FFmpeg itself is a
  parameter: what its functions answer during a call are the fields of \<open>FfOpen\<close> and \<open>FfEncode\<close>. The
  picture planes are byte buffers and a \<^verbatim>\<open>memcpy\<close> or \<^verbatim>\<open>memset\<close> past the end of one is the outcome
  \<open>None\<close>.

  The theorems: the letterboxed picture lies inside the target and keeps the aspect ratio; the blit
  never leaves a plane and paints exactly the fitted rectangle; the first usable candidate is opened;
  a requested keyframe is the next frame; the scaler can be stale.
\<close>

section \<open>Buffers\<close>

definition mem_set :: "nat \<Rightarrow> nat \<Rightarrow> u8 \<Rightarrow> bytes \<Rightarrow> bytes option" where
  "mem_set off n v buf =
     (if off + n \<le> length buf then Some (take off buf @ replicate n v @ drop (off + n) buf) else None)"

definition mem_copy :: "nat \<Rightarrow> nat \<Rightarrow> nat \<Rightarrow> bytes \<Rightarrow> bytes \<Rightarrow> bytes option" where
  "mem_copy off soff n src buf =
     (if off + n \<le> length buf \<and> soff + n \<le> length src
      then Some (take off buf @ take n (drop soff src) @ drop (off + n) buf) else None)"

fun each_row :: "(nat \<Rightarrow> bytes \<Rightarrow> bytes option) \<Rightarrow> nat list \<Rightarrow> bytes \<Rightarrow> bytes option" where
  "each_row f [] buf = Some buf"
| "each_row f (y # ys) buf = (case f y buf of None \<Rightarrow> None | Some b \<Rightarrow> each_row f ys b)"

text \<open>The loop that copies a plane of width \<open>w\<close> and height \<open>h\<close> to column \<open>x0\<close>, row \<open>y0\<close>.\<close>

definition blit :: "nat \<Rightarrow> nat \<Rightarrow> nat \<Rightarrow> nat \<Rightarrow> nat \<Rightarrow> bytes \<Rightarrow> bytes \<Rightarrow> bytes option" where
  "blit ls x0 y0 w h src = each_row (\<lambda>y. mem_copy ((y0 + y) * ls + x0) (y * w) w src) [0..<h]"

section \<open>Parameters and state\<close>

record VideoEncoderParams =
  vp_codec :: VideoCodec
  vp_width :: int
  vp_height :: int
  vp_fps :: int
  vp_bitrateKbps :: int
  vp_gop :: int
  vp_preferredEncoder :: string

record EncodedPacket =
  ep_data :: bytes
  ep_ptsUs :: u64
  ep_keyframe :: bool

record AvPacket =
  av_data :: bytes
  av_dts :: int
  av_key :: bool

record AvFrame =
  fr_y :: bytes
  fr_u :: bytes
  fr_v :: bytes
  fr_lsY :: nat
  fr_lsU :: nat
  fr_lsV :: nat
  fr_pts :: int
  fr_intra :: bool

text \<open>The settings a codec context is opened with.\<close>

record AvSettings =
  as_name :: string
  as_width :: int
  as_height :: int
  as_fps :: int
  as_bitRate :: int
  as_rcBuffer :: int
  as_gop :: int
  as_threads :: int
  as_options :: "(string \<times> string) list"

text \<open>What FFmpeg answers while an encoder is opened: whether it knows the name and allocates a context,
  the error of \<^verbatim>\<open>avcodec_open2\<close>, the frame with its buffers, the packet.\<close>

record FfOpen =
  fo_find :: "string \<Rightarrow> bool"
  fo_context :: bool
  fo_open :: "AvSettings \<Rightarrow> string option"
  fo_frame :: "AvFrame option"
  fo_packet :: bool

record VideoEncoder =
  ve_p :: VideoEncoderParams
  ve_ctx :: "AvSettings option"
  ve_frame :: "AvFrame option"
  ve_packet :: bool
  ve_sws :: "(int \<times> int \<times> int \<times> int) option"
  ve_scaleBuffer :: bool
  ve_scaleBufSize :: int
  ve_lastFitW :: int
  ve_lastFitH :: int
  ve_bitrateDirty :: bool
  ve_encoderName :: string
  ve_frameCounter :: int
  ve_keyframeRequested :: bool
  ve_framesEncoded :: u32
  ve_bytesEncoded :: u64
  ve_lastEncodeMs :: rat
  ve_avgEncodeMs :: rat

definition VideoEncoder_new :: VideoEncoder where
  "VideoEncoder_new = \<lparr>ve_p = \<lparr>vp_codec = H264, vp_width = 1920, vp_height = 1080, vp_fps = 60, vp_bitrateKbps = 8000,
     vp_gop = 120, vp_preferredEncoder = []\<rparr>, ve_ctx = None, ve_frame = None, ve_packet = False, ve_sws = None,
     ve_scaleBuffer = False, ve_scaleBufSize = 0, ve_lastFitW = 0, ve_lastFitH = 0, ve_bitrateDirty = False,
     ve_encoderName = [], ve_frameCounter = 0, ve_keyframeRequested = True, ve_framesEncoded = 0, ve_bytesEncoded = 0,
     ve_lastEncodeMs = 0, ve_avgEncodeMs = 0\<rparr>"

section \<open>Opening an encoder\<close>

definition encoderCandidates :: "VideoCodec \<Rightarrow> string list" where
  "encoderCandidates codec =
     (if codec = Hevc then [''hevc_nvenc'', ''hevc_amf'', ''hevc_qsv'', ''libx265'']
      else if codec = Av1 then [''av1_nvenc'', ''av1_amf'', ''av1_qsv'', ''libsvtav1'']
      else [''h264_nvenc'', ''h264_amf'', ''h264_qsv'', ''libx264''])"

definition availableEncoders :: "(string \<Rightarrow> bool) \<Rightarrow> VideoCodec \<Rightarrow> string list" where
  "availableEncoders known codec = filter known (encoderCandidates codec)"

definition ve_close :: "VideoEncoder \<Rightarrow> VideoEncoder" where
  "ve_close s = s\<lparr>ve_sws := None, ve_scaleBuffer := False,
     ve_scaleBufSize := (if ve_scaleBuffer s then 0 else ve_scaleBufSize s), ve_packet := False, ve_frame := None, ve_ctx := None\<rparr>"

fun has_infix :: "string \<Rightarrow> string \<Rightarrow> bool" where
  "has_infix pat [] \<longleftrightarrow> pat = []"
| "has_infix pat (c # cs) \<longleftrightarrow> take (length pat) (c # cs) = pat \<or> has_infix pat cs"

definition encoder_options :: "string \<Rightarrow> (string \<times> string) list" where
  "encoder_options name =
     (if has_infix ''nvenc'' name
      then [(''preset'', ''p1''), (''tune'', ''ull''), (''rc'', ''cbr''), (''delay'', ''0''), (''zerolatency'', ''1'')]
      else if has_infix ''amf'' name then [(''usage'', ''ultralowlatency''), (''rc'', ''cbr'')]
      else if has_infix ''qsv'' name then [(''preset'', ''veryfast''), (''low_power'', ''1'')]
      else if name = ''libx264'' then [(''preset'', ''ultrafast''), (''tune'', ''zerolatency'')]
      else if name = ''libx265''
      then [(''preset'', ''ultrafast''), (''tune'', ''zerolatency''), (''x265-params'', ''bframes=0:repeat-headers=1'')]
      else [])"

definition encoder_settings :: "string \<Rightarrow> VideoEncoderParams \<Rightarrow> AvSettings" where
  "encoder_settings name p =
     (let rate = vp_bitrateKbps p * 1000
      in \<lparr>as_name = name, as_width = vp_width p, as_height = vp_height p, as_fps = vp_fps p, as_bitRate = rate,
          as_rcBuffer = rate div vp_fps p * 3 div 2, as_gop = vp_gop p,
          as_threads = (if take 5 name = ''libx2'' then 0 else 1), as_options = encoder_options name\<rparr>)"

definition openEncoder :: "FfOpen \<Rightarrow> string \<Rightarrow> VideoEncoder \<Rightarrow> VideoEncoder \<times> string option" where
  "openEncoder ff name s =
     (if \<not> fo_find ff name then (s, Some ''encoder not found in this FFmpeg build'')
      else if \<not> fo_context ff then (s\<lparr>ve_ctx := None\<rparr>, Some ''avcodec_alloc_context3 failed'')
      else
        let cfg = encoder_settings name (ve_p s)
        in case fo_open ff cfg of
             Some why \<Rightarrow> (s\<lparr>ve_ctx := None\<rparr>, Some (''avcodec_open2('' @ name @ '') failed: '' @ why))
           | None \<Rightarrow>
               (case fo_frame ff of
                  None \<Rightarrow> (ve_close s, Some ''frame alloc failed'')
                | Some fr \<Rightarrow>
                    if \<not> fo_packet ff then (ve_close s, Some ''packet alloc failed'')
                    else (s\<lparr>ve_ctx := Some cfg, ve_frame := Some fr, ve_packet := True, ve_sws := None\<rparr>, None)))"

definition candidates :: "VideoEncoderParams \<Rightarrow> string list" where
  "candidates p =
     (if vp_preferredEncoder p \<noteq> [] then [vp_preferredEncoder p] else []) @
     filter (\<lambda>c. c \<noteq> vp_preferredEncoder p) (encoderCandidates (vp_codec p))"

fun try_candidates :: "FfOpen \<Rightarrow> string list \<Rightarrow> string \<Rightarrow> VideoEncoder \<Rightarrow> VideoEncoder \<times> string option" where
  "try_candidates ff [] lastErr s = (s, Some (''no usable encoder ('' @ lastErr @ '')''))"
| "try_candidates ff (name # names) lastErr s =
     (case openEncoder ff name s of
        (s, None) \<Rightarrow> (s\<lparr>ve_encoderName := name\<rparr>, None)
      | (s, Some openErr) \<Rightarrow> try_candidates ff names openErr s)"

definition ve_init :: "FfOpen \<Rightarrow> VideoEncoderParams \<Rightarrow> VideoEncoder \<Rightarrow> VideoEncoder \<times> string option" where
  "ve_init ff p s =
     try_candidates ff (candidates p) []
       ((ve_close s)\<lparr>ve_p := p, ve_frameCounter := 0, ve_keyframeRequested := True, ve_framesEncoded := 0,
          ve_bytesEncoded := 0, ve_avgEncodeMs := 0, ve_lastEncodeMs := 0\<rparr>)"

section \<open>Letterboxing\<close>

definition even_down :: "int \<Rightarrow> int" where "even_down x = x - x mod 2"

definition fit_size :: "int \<Rightarrow> int \<Rightarrow> int \<Rightarrow> int \<Rightarrow> int \<times> int" where
  "fit_size tw th srcW srcH =
     (if srcW * th \<ge> srcH * tw
      then (let fitH = (tw * srcH + srcW - 1) div srcW;
                fitH = (if fitH > th then th else fitH);
                fitH = (if fitH < 1 then 1 else fitH)
            in (even_down tw, even_down fitH))
      else (let fitW = (th * srcW + srcH - 1) div srcH;
                fitW = (if fitW > tw then tw else fitW);
                fitW = (if fitW < 1 then 1 else fitW)
            in (even_down fitW, even_down th)))"

definition fit_offset :: "int \<Rightarrow> int \<Rightarrow> int" where
  "fit_offset t fit = even_down ((t - fit) div 2)"

section \<open>Encoding a frame\<close>

text \<open>What FFmpeg answers during one \<^verbatim>\<open>encode\<close>: the clock before and after, the allocation of the scale
  buffer and of the scaler, the planes \<^verbatim>\<open>sws_scale\<close> fills, and the codec's results; the receive loop
  yields packets until it needs more input or fails.\<close>

record FfEncode =
  fe_t0 :: rat
  fe_t1 :: rat
  fe_malloc :: bool
  fe_scaler :: bool
  fe_scaled :: "bytes \<times> bytes \<times> bytes"
  fe_writable :: bool
  fe_send :: bool
  fe_packets :: "AvPacket list"
  fe_receiveOk :: bool

definition yuv420_size :: "int \<Rightarrow> int \<Rightarrow> int" where
  "yuv420_size w h = w * h + 2 * ((w + 1) div 2 * ((h + 1) div 2))"

definition prepare_scaler ::
  "FfEncode \<Rightarrow> int \<Rightarrow> int \<Rightarrow> int \<Rightarrow> int \<Rightarrow> VideoEncoder \<Rightarrow> VideoEncoder \<times> string option" where
  "prepare_scaler ff srcW srcH fitW fitH s =
     (if ve_sws s = None \<or> ve_lastFitW s \<noteq> fitW \<or> ve_lastFitH s \<noteq> fitH
      then
        let need = yuv420_size fitW fitH;
            s = (if ve_scaleBufSize s < need then s\<lparr>ve_scaleBuffer := fe_malloc ff, ve_scaleBufSize := need\<rparr> else s)
        in if \<not> fe_scaler ff then (s\<lparr>ve_sws := None\<rparr>, Some ''sws_getContext failed'')
           else (s\<lparr>ve_sws := Some (srcW, srcH, fitW, fitH), ve_lastFitW := fitW, ve_lastFitH := fitH\<rparr>, None)
      else (s, None))"

definition paint_plane :: "nat \<Rightarrow> nat \<Rightarrow> nat \<Rightarrow> nat \<Rightarrow> nat \<Rightarrow> bytes \<Rightarrow> bytes option \<Rightarrow> bytes option" where
  "paint_plane ls x0 y0 w h src background = Option.bind background (blit ls x0 y0 w h src)"

definition paint_frame :: "int \<Rightarrow> int \<Rightarrow> int \<Rightarrow> int \<Rightarrow> bytes \<times> bytes \<times> bytes \<Rightarrow> AvFrame \<Rightarrow> AvFrame option" where
  "paint_frame tw th fitW fitH planes fr =
     (let (y, u, v) = planes; w = nat fitW; h = nat fitH; x0 = nat (fit_offset tw fitW); y0 = nat (fit_offset th fitH);
          half = (\<lambda>ls. each_row (\<lambda>r. mem_set (r * ls) (nat tw div 2) 128) [0..<nat th div 2])
      in case (paint_plane (fr_lsY fr) x0 y0 w h y (mem_set 0 (fr_lsY fr * nat th) 16 (fr_y fr)),
               paint_plane (fr_lsU fr) (x0 div 2) (y0 div 2) (w div 2) (h div 2) u (half (fr_lsU fr) (fr_u fr)),
               paint_plane (fr_lsV fr) (x0 div 2) (y0 div 2) (w div 2) (h div 2) v (half (fr_lsV fr) (fr_v fr))) of
           (Some y', Some u', Some v') \<Rightarrow> Some (fr\<lparr>fr_y := y', fr_u := u', fr_v := v'\<rparr>)
         | _ \<Rightarrow> None)"

definition packet_of :: "int \<Rightarrow> int \<Rightarrow> AvPacket \<Rightarrow> EncodedPacket" where
  "packet_of fps counter pk = \<lparr>ep_data = av_data pk,
     ep_ptsUs = (if av_dts pk \<ge> 0 then word_of_int (av_dts pk) * 1000000 div word_of_int fps
                 else word_of_int counter * 1000000 div word_of_int fps),
     ep_keyframe = av_key pk\<rparr>"

definition moving_average :: "rat \<Rightarrow> rat \<Rightarrow> rat" where
  "moving_average avg dt = (if avg = 0 then dt else avg * 9 / 10 + dt / 10)"

datatype encode_result = Encoded "EncodedPacket list" bool | EncodeError string | OutOfBounds

definition finish_encode :: "FfEncode \<Rightarrow> VideoEncoder \<Rightarrow> VideoEncoder \<times> encode_result" where
  "finish_encode ff s =
     (if \<not> fe_send ff then (s, EncodeError ''avcodec_send_frame failed'')
      else
        let dt = fe_t1 ff - fe_t0 ff
        in (s\<lparr>ve_bytesEncoded := ve_bytesEncoded s + of_nat (sum_list (map (length \<circ> av_data) (fe_packets ff))),
              ve_framesEncoded := ve_framesEncoded s + of_nat (length (fe_packets ff)),
              ve_lastEncodeMs := dt, ve_avgEncodeMs := moving_average (ve_avgEncodeMs s) dt\<rparr>,
            Encoded (map (packet_of (vp_fps (ve_p s)) (ve_frameCounter s)) (fe_packets ff)) (fe_receiveOk ff)))"

definition ve_encode :: "FfEncode \<Rightarrow> int \<Rightarrow> int \<Rightarrow> VideoEncoder \<Rightarrow> VideoEncoder \<times> encode_result" where
  "ve_encode ff srcW srcH s =
     (case (ve_ctx s, ve_frame s) of
        (Some c, Some fr0) \<Rightarrow>
          (let tw = vp_width (ve_p s); th = vp_height (ve_p s); (fitW, fitH) = fit_size tw th srcW srcH
           in case prepare_scaler ff srcW srcH fitW fitH s of
                (s, Some why) \<Rightarrow> (s, EncodeError why)
              | (s, None) \<Rightarrow>
                  if \<not> ve_scaleBuffer s then (s, EncodeError ''letterbox buffer missing'')
                  else if \<not> fe_writable ff then (s, EncodeError ''frame not writable'')
                  else (case paint_frame tw th fitW fitH (fe_scaled ff) fr0 of
                          None \<Rightarrow> (s, OutOfBounds)
                        | Some fr \<Rightarrow>
                            finish_encode ff
                              (s\<lparr>ve_frame := Some (fr\<lparr>fr_pts := ve_frameCounter s, fr_intra := ve_keyframeRequested s\<rparr>),
                                 ve_frameCounter := ve_frameCounter s + 1, ve_keyframeRequested := False\<rparr>)))
      | _ \<Rightarrow> (s, EncodeError ''encoder not initialized''))"

definition ve_flush :: "AvPacket list \<Rightarrow> VideoEncoder \<Rightarrow> EncodedPacket list option" where
  "ve_flush rest s =
     (case ve_ctx s of None \<Rightarrow> None
      | Some c \<Rightarrow> Some (map (\<lambda>pk. \<lparr>ep_data = av_data pk,
          ep_ptsUs = word_of_int (av_dts pk) * 1000000 div word_of_int (vp_fps (ve_p s)), ep_keyframe = av_key pk\<rparr>) rest))"

definition ve_requestKeyframe :: "VideoEncoder \<Rightarrow> VideoEncoder" where
  "ve_requestKeyframe s = s\<lparr>ve_keyframeRequested := True\<rparr>"

definition ve_setBitrate :: "int \<Rightarrow> VideoEncoder \<Rightarrow> VideoEncoder" where
  "ve_setBitrate kbps s =
     (let kbps = std_clamp kbps 2000 50000
      in if kbps = vp_bitrateKbps (ve_p s) then s
         else s\<lparr>ve_p := (ve_p s)\<lparr>vp_bitrateKbps := kbps\<rparr>, ve_bitrateDirty := True\<rparr>)"

definition applyBitrateIfDirty :: "FfOpen \<Rightarrow> VideoEncoder \<Rightarrow> VideoEncoder \<times> bool" where
  "applyBitrateIfDirty ff s =
     (if \<not> ve_bitrateDirty s \<or> ve_ctx s = None then (s, False)
      else case ve_init ff (ve_p s) s of
        (s, None) \<Rightarrow> (s\<lparr>ve_bitrateDirty := False\<rparr>, True)
      | (s, Some why) \<Rightarrow> (s, False))"

section \<open>Blitting\<close>

lemma mem_copy_ok:
  assumes "off + n \<le> length buf" and "soff + n \<le> length src"
  obtains b where "mem_copy off soff n src buf = Some b" "length b = length buf"
    "\<And>i. i < length buf \<Longrightarrow> b ! i = (if off \<le> i \<and> i < off + n then src ! (soff + (i - off)) else buf ! i)"
proof (rule that)
  let ?b = "take off buf @ take n (drop soff src) @ drop (off + n) buf"
  show "mem_copy off soff n src buf = Some ?b" using assms by (simp add: mem_copy_def)
  show "length ?b = length buf" using assms by simp
  show "?b ! i = (if off \<le> i \<and> i < off + n then src ! (soff + (i - off)) else buf ! i)" if "i < length buf" for i
    using assms that by (auto simp: nth_append)
qed

lemma each_row_snoc: "each_row f (ys @ [y]) buf = Option.bind (each_row f ys buf) (f y)"
  by (induction ys arbitrary: buf) (auto split: option.split)

lemma row_of_index:
  assumes "R * ls \<le> r * ls + c" and "r * ls + c < R * ls + ls" and "c < (ls :: nat)"
  shows "r = R"
proof -
  have "(r * ls + c) div ls = r" using assms(3) by simp
  moreover have "(r * ls + c) div ls = R"
    using assms by (intro div_nat_eqI) (auto simp: mult.commute)
  ultimately show ?thesis by simp
qed

definition painted :: "nat \<Rightarrow> nat \<Rightarrow> nat \<Rightarrow> nat \<Rightarrow> nat \<Rightarrow> bytes \<Rightarrow> bytes \<Rightarrow> bytes \<Rightarrow> bool" where
  "painted ls x0 y0 w h src buf b \<longleftrightarrow> length b = length buf \<and>
     (\<forall>r c. c < ls \<and> r * ls + c < length buf \<longrightarrow> b ! (r * ls + c) =
        (if y0 \<le> r \<and> r < y0 + h \<and> x0 \<le> c \<and> c < x0 + w then src ! ((r - y0) * w + (c - x0)) else buf ! (r * ls + c)))"

lemma blit_paints:
  assumes "x0 + w \<le> ls" and "(y0 + h) * ls \<le> length buf" and "h * w \<le> length src"
  shows "\<exists>b. blit ls x0 y0 w h src buf = Some b \<and> painted ls x0 y0 w h src buf b"
  using assms(2,3)
proof (induction h)
  case 0
  then show ?case by (auto simp: blit_def painted_def)
next
  case (Suc h)
  then obtain b where b: "blit ls x0 y0 w h src buf = Some b" "painted ls x0 y0 w h src buf b" by fastforce
  let ?off = "(y0 + h) * ls + x0"
  have "?off + w \<le> length b" using Suc.prems(1) assms(1) b(2) by (simp add: painted_def)
  moreover have "h * w + w \<le> length src" using Suc.prems(2) by simp
  ultimately obtain d where d: "mem_copy ?off (h * w) w src b = Some d" "length d = length b"
    "\<And>i. i < length b \<Longrightarrow> d ! i = (if ?off \<le> i \<and> i < ?off + w then src ! (h * w + (i - ?off)) else b ! i)"
    by (rule mem_copy_ok) blast
  have "blit ls x0 y0 w (Suc h) src buf = Some d"
    using b(1) d(1) by (simp add: blit_def each_row_snoc)
  moreover have "painted ls x0 y0 w (Suc h) src buf d"
    unfolding painted_def
  proof (intro conjI allI impI)
    show "length d = length buf" using d(2) b(2) by (simp add: painted_def)
    fix r c assume rc: "c < ls \<and> r * ls + c < length buf"
    have inrow: "?off \<le> r * ls + c \<and> r * ls + c < ?off + w \<longleftrightarrow> r = y0 + h \<and> x0 \<le> c \<and> c < x0 + w"
      using row_of_index [of "y0 + h" ls r c] rc assms(1) by auto
    have "d ! (r * ls + c) = (if r = y0 + h \<and> x0 \<le> c \<and> c < x0 + w then src ! (h * w + (c - x0)) else b ! (r * ls + c))"
      using d(3) [of "r * ls + c"] rc b(2) inrow by (auto simp: painted_def)
    then show "d ! (r * ls + c) = (if y0 \<le> r \<and> r < y0 + Suc h \<and> x0 \<le> c \<and> c < x0 + w
        then src ! ((r - y0) * w + (c - x0)) else buf ! (r * ls + c))"
      using b(2) rc by (auto simp: painted_def)
  qed
  ultimately show ?case by blast
qed

section \<open>The fitted rectangle\<close>

lemma even_down_bounds: "even_down x \<le> x" "x - 1 \<le> even_down x" "even (even_down x)" "0 \<le> x \<Longrightarrow> 0 \<le> even_down x"
proof -
  have "x mod 2 \<le> x" if "0 \<le> x" using that zmod_le_nonneg_dividend by blast
  then show "even_down x \<le> x" "x - 1 \<le> even_down x" "even (even_down x)" "0 \<le> x \<Longrightarrow> 0 \<le> even_down x"
    by (simp_all add: even_down_def)
qed

lemma fit_size_bounds:
  assumes "0 < srcW" "0 < srcH" "0 < tw" "0 < th" and fit: "fit_size tw th srcW srcH = (fitW, fitH)"
  shows "0 \<le> fitW" "fitW \<le> tw" "even fitW" "0 \<le> fitH" "fitH \<le> th" "even fitH"
  using assms by (auto simp: fit_size_def Let_def split: if_splits
      intro: even_down_bounds order_trans [OF even_down_bounds(1)])

lemma fit_offset_bounds:
  assumes "0 \<le> fit" "fit \<le> t"
  shows "0 \<le> fit_offset t fit" "fit_offset t fit + fit \<le> t" "even (fit_offset t fit)"
  using assms by (simp_all add: fit_offset_def even_down_def) presburger+

lemma fit_ceil_bounds:
  assumes "0 < (d::int)"
  shows "n \<le> (n + d - 1) div d * d" "(n + d - 1) div d * d < n + d"
proof -
  have "(n + d - 1) div d * d = n + d - 1 - (n + d - 1) mod d" by (simp add: minus_mod_eq_div_mult)
  moreover have "0 \<le> (n + d - 1) mod d" "(n + d - 1) mod d < d" using assms by simp_all
  ultimately show "n \<le> (n + d - 1) div d * d" "(n + d - 1) div d * d < n + d" by linarith+
qed

lemma ceil_div_between:
  assumes "0 < (d::int)" and "0 < n" and "n \<le> t * d"
  shows "1 \<le> (n + d - 1) div d" "(n + d - 1) div d \<le> t"
proof -
  show "1 \<le> (n + d - 1) div d" using assms by (simp add: pos_imp_zdiv_pos_iff int_one_le_iff_zero_less)
  have "(n + d - 1) div d * d < (t + 1) * d" using fit_ceil_bounds(2) [OF assms(1), of n] assms(3) by (simp add: distrib_right)
  then have "(n + d - 1) div d < t + 1" using assms(1) mult_less_cancel_right_pos by blast
  then show "(n + d - 1) div d \<le> t" by simp
qed

lemma fitted_side:
  assumes "0 < (a::int)" "0 < b" "0 < t" "b * t \<le> u * a" and f: "f = even_down ((t * b + a - 1) div a)"
  shows "t * b \<le> (f + 1) * a" "f * a < t * b + a"
proof -
  let ?q = "(t * b + a - 1) div a"
  have q: "t * b \<le> ?q * a" "?q * a < t * b + a" using fit_ceil_bounds [OF assms(1)] by blast+
  have e: "f \<le> ?q" "?q \<le> f + 1" using even_down_bounds(1,2) [of ?q] f by simp_all
  have "?q * a \<le> (f + 1) * a" "f * a \<le> ?q * a" using e assms(1) by (simp_all add: mult_right_mono)
  then show "t * b \<le> (f + 1) * a" "f * a < t * b + a" using q by linarith+
qed

section \<open>Painting the frame\<close>

text \<open>What \<^verbatim>\<open>av_frame_get_buffer\<close> and \<^verbatim>\<open>av_image_fill_arrays\<close> promise of their buffers.\<close>

definition frame_fits :: "int \<Rightarrow> int \<Rightarrow> AvFrame \<Rightarrow> bool" where
  "frame_fits tw th fr \<longleftrightarrow> nat tw \<le> fr_lsY fr \<and> fr_lsY fr * nat th \<le> length (fr_y fr) \<and>
     nat tw div 2 \<le> fr_lsU fr \<and> fr_lsU fr * (nat th div 2) \<le> length (fr_u fr) \<and>
     nat tw div 2 \<le> fr_lsV fr \<and> fr_lsV fr * (nat th div 2) \<le> length (fr_v fr)"

definition planes_fit :: "int \<Rightarrow> int \<Rightarrow> bytes \<times> bytes \<times> bytes \<Rightarrow> bool" where
  "planes_fit w h pl \<longleftrightarrow> (case pl of (y, u, v) \<Rightarrow> nat h * nat w \<le> length y \<and>
     (nat h div 2) * (nat w div 2) \<le> length u \<and> (nat h div 2) * (nat w div 2) \<le> length v)"

lemma row_below: "r < h \<Longrightarrow> c < ls \<Longrightarrow> r * ls + c < h * (ls :: nat)"
proof -
  assume "r < h" "c < ls"
  then have "r * ls + c < Suc r * ls" by simp
  also have "\<dots> \<le> h * ls" using \<open>r < h\<close> by (intro mult_right_mono) simp_all
  finally show ?thesis .
qed

lemma background_rows:
  assumes "w \<le> ls" and "ls * h \<le> length buf"
  shows "\<exists>b. each_row (\<lambda>r. mem_set (r * ls) w v) [0..<h] buf = Some b \<and> length b = length buf \<and>
    (\<forall>r c. r < h \<and> c < w \<longrightarrow> b ! (r * ls + c) = v)"
  using assms(2)
proof (induction h)
  case 0
  then show ?case by simp
next
  case (Suc h)
  then obtain b where b: "each_row (\<lambda>r. mem_set (r * ls) w v) [0..<h] buf = Some b" "length b = length buf"
    "\<forall>r c. r < h \<and> c < w \<longrightarrow> b ! (r * ls + c) = v" by fastforce
  have len: "h * ls + w \<le> length b" using Suc.prems assms(1) b(2) by (simp add: mult.commute)
  let ?d = "take (h * ls) b @ replicate w v @ drop (h * ls + w) b"
  have d: "mem_set (h * ls) w v b = Some ?d" using len by (simp add: mem_set_def)
  have "?d ! (r * ls + c) = v" if rc: "r < Suc h" "c < w" for r c
  proof (cases "r = h")
    case True
    then show ?thesis using rc len by (simp add: nth_append)
  next
    case False
    then have "r < h" "r * ls + c < h * ls" using rc assms(1) row_below [of r h c ls] by simp_all
    then show ?thesis using b(3) rc(2) len by (simp add: nth_append)
  qed
  then show ?case using b(1,2) d len by (auto simp: each_row_snoc)
qed

lemma fit_halves:
  assumes "0 \<le> fit" "fit \<le> t" "x0 = nat (fit_offset t fit)"
  shows "x0 + nat fit \<le> nat t" "x0 div 2 + nat fit div 2 \<le> nat t div 2"
proof -
  have "x0 + nat fit \<le> nat t" using fit_offset_bounds [OF assms(1,2)] assms by (simp flip: nat_add_distrib add: nat_mono)
  then show "x0 + nat fit \<le> nat t" "x0 div 2 + nat fit div 2 \<le> nat t div 2" by linarith+
qed

lemma paint_plane_ok:
  assumes "x0 + w \<le> tw" "tw \<le> ls" "y0 + h \<le> th" "ls * th \<le> length b" "h * w \<le> length src"
  shows "\<exists>b'. paint_plane ls x0 y0 w h src (Some b) = Some b' \<and> painted ls x0 y0 w h src b b'"
proof -
  have "(y0 + h) * ls \<le> ls * th" using assms(3) by (simp add: mult.commute)
  then have "(y0 + h) * ls \<le> length b" using assms(4) by (rule order_trans)
  then show ?thesis using assms blit_paints [of x0 w ls y0 h b src] by (simp add: paint_plane_def)
qed

text \<open>A plane of \<open>tw\<close> by \<open>th\<close> samples, in rows of \<open>ls\<close> bytes, that shows \<open>src\<close> in the rectangle of size \<open>w\<close> by \<open>h\<close> at \<open>(x0, y0)\<close>
  and \<open>bg\<close> everywhere else.\<close>

definition plane_shows :: "nat \<Rightarrow> nat \<Rightarrow> nat \<Rightarrow> nat \<times> nat \<Rightarrow> nat \<times> nat \<Rightarrow> bytes \<Rightarrow> u8 \<Rightarrow> bytes \<Rightarrow> bool" where
  "plane_shows ls tw th pos sz src bg buf \<longleftrightarrow> (case (pos, sz) of ((x0, y0), (w, h)) \<Rightarrow>
     \<forall>r < th. \<forall>c < tw. buf ! (r * ls + c) =
       (if y0 \<le> r \<and> r < y0 + h \<and> x0 \<le> c \<and> c < x0 + w then src ! ((r - y0) * w + (c - x0)) else bg))"

lemma painted_shows:
  assumes fit: "x0 + w \<le> tw" "tw \<le> ls" "y0 + h \<le> th" "ls * th \<le> length b" "h * w \<le> length src"
    and bg: "\<And>r c. r < th \<Longrightarrow> c < tw \<Longrightarrow> b ! (r * ls + c) = v"
  shows "\<exists>b'. paint_plane ls x0 y0 w h src (Some b) = Some b' \<and> length b' = length b \<and>
    plane_shows ls tw th (x0, y0) (w, h) src v b'"
proof -
  obtain b' where b': "paint_plane ls x0 y0 w h src (Some b) = Some b'" "painted ls x0 y0 w h src b b'"
    using paint_plane_ok [OF fit] by blast
  have "c < ls \<and> r * ls + c < length b" if "r < th" "c < tw" for r c
    using row_below [of r th c ls] that fit(2,4) by (simp add: mult.commute)
  then show ?thesis using b' bg by (intro exI [of _ b']) (simp add: painted_def plane_shows_def)
qed

lemma paint_frame_ok:
  assumes size: "0 \<le> fitW" "fitW \<le> tw" "0 \<le> fitH" "fitH \<le> th"
    and fr: "frame_fits tw th fr" and pl: "planes_fit fitW fitH (y, u, v)"
  defines "x0 \<equiv> nat (fit_offset tw fitW)" and "y0 \<equiv> nat (fit_offset th fitH)"
  shows "\<exists>fr'. paint_frame tw th fitW fitH (y, u, v) fr = Some fr' \<and>
    plane_shows (fr_lsY fr) (nat tw) (nat th) (x0, y0) (nat fitW, nat fitH) y 16 (fr_y fr') \<and>
    plane_shows (fr_lsU fr) (nat tw div 2) (nat th div 2) (x0 div 2, y0 div 2) (nat fitW div 2, nat fitH div 2) u 128 (fr_u fr') \<and>
    plane_shows (fr_lsV fr) (nat tw div 2) (nat th div 2) (x0 div 2, y0 div 2) (nat fitW div 2, nat fitH div 2) v 128 (fr_v fr') \<and>
    length (fr_y fr') = length (fr_y fr) \<and> length (fr_u fr') = length (fr_u fr) \<and> length (fr_v fr') = length (fr_v fr)"
proof -
  note x = fit_halves [OF size(1,2) x0_def [THEN meta_eq_to_obj_eq]] and yy = fit_halves [OF size(3,4) y0_def [THEN meta_eq_to_obj_eq]]
  note f = fr [unfolded frame_fits_def] and p = pl [unfolded planes_fit_def prod.case]
  let ?by = "replicate (fr_lsY fr * nat th) 16 @ drop (fr_lsY fr * nat th) (fr_y fr)"
  have bg: "mem_set 0 (fr_lsY fr * nat th) 16 (fr_y fr) = Some ?by" "length ?by = length (fr_y fr)"
    using f by (simp_all add: mem_set_def)
  have lum: "?by ! (r * fr_lsY fr + c) = 16" if "r < nat th" "c < nat tw" for r c
    using row_below [of r "nat th" c "fr_lsY fr"] that f by (simp add: nth_append mult.commute)
  obtain y' where y': "paint_plane (fr_lsY fr) x0 y0 (nat fitW) (nat fitH) y (Some ?by) = Some y'" "length y' = length (fr_y fr)"
    "plane_shows (fr_lsY fr) (nat tw) (nat th) (x0, y0) (nat fitW, nat fitH) y 16 y'"
    using painted_shows [OF x(1) _ yy(1) _ _ lum, of y] f p bg(2) by auto
  obtain bu where bu: "each_row (\<lambda>r. mem_set (r * fr_lsU fr) (nat tw div 2) 128) [0..<nat th div 2] (fr_u fr) = Some bu"
    "length bu = length (fr_u fr)" "\<And>r c. r < nat th div 2 \<Longrightarrow> c < nat tw div 2 \<Longrightarrow> bu ! (r * fr_lsU fr + c) = 128"
    using background_rows [of "nat tw div 2" "fr_lsU fr" "nat th div 2" "fr_u fr" 128] f by auto
  obtain bv where bv: "each_row (\<lambda>r. mem_set (r * fr_lsV fr) (nat tw div 2) 128) [0..<nat th div 2] (fr_v fr) = Some bv"
    "length bv = length (fr_v fr)" "\<And>r c. r < nat th div 2 \<Longrightarrow> c < nat tw div 2 \<Longrightarrow> bv ! (r * fr_lsV fr + c) = 128"
    using background_rows [of "nat tw div 2" "fr_lsV fr" "nat th div 2" "fr_v fr" 128] f by auto
  obtain u' where u': "paint_plane (fr_lsU fr) (x0 div 2) (y0 div 2) (nat fitW div 2) (nat fitH div 2) u (Some bu) = Some u'"
    "length u' = length (fr_u fr)"
    "plane_shows (fr_lsU fr) (nat tw div 2) (nat th div 2) (x0 div 2, y0 div 2) (nat fitW div 2, nat fitH div 2) u 128 u'"
    using painted_shows [OF x(2) _ yy(2) _ _ bu(3), of u] f p bu(2) by auto
  obtain v' where v': "paint_plane (fr_lsV fr) (x0 div 2) (y0 div 2) (nat fitW div 2) (nat fitH div 2) v (Some bv) = Some v'"
    "length v' = length (fr_v fr)"
    "plane_shows (fr_lsV fr) (nat tw div 2) (nat th div 2) (x0 div 2, y0 div 2) (nat fitW div 2, nat fitH div 2) v 128 v'"
    using painted_shows [OF x(2) _ yy(2) _ _ bv(3), of v] f p bv(2) by auto
  have "paint_frame tw th fitW fitH (y, u, v) fr = Some (fr\<lparr>fr_y := y', fr_u := u', fr_v := v'\<rparr>)"
    using y'(1) u'(1) v'(1) bu(1) bv(1) bg(1) by (simp add: paint_frame_def x0_def y0_def)
  then show ?thesis using y'(2,3) u'(2,3) v'(2,3) by simp
qed

section \<open>Properties\<close>

text \<open>The letterboxed picture lies inside the encoder's frame and keeps the aspect ratio: the fitted
  size and its offsets are even, the rectangle fits in the target in both directions, one side is the
  target's (rounded down to even), and the other is the exact scaled side up to one pixel below and
  less than one pixel above.\<close>

theorem letterbox_inside:
  assumes "0 < srcW" "0 < srcH" "0 < tw" "0 < th" and fit: "fit_size tw th srcW srcH = (fitW, fitH)"
  shows "even fitW \<and> even fitH \<and> even (fit_offset tw fitW) \<and> even (fit_offset th fitH) \<and>
    0 \<le> fit_offset tw fitW \<and> fit_offset tw fitW + fitW \<le> tw \<and> 0 \<le> fit_offset th fitH \<and> fit_offset th fitH + fitH \<le> th \<and>
    (if srcW * th \<ge> srcH * tw
     then fitW = even_down tw \<and> tw * srcH \<le> (fitH + 1) * srcW \<and> fitH * srcW < tw * srcH + srcW
     else fitH = even_down th \<and> th * srcW \<le> (fitW + 1) * srcH \<and> fitW * srcH < th * srcW + srcH)"
proof -
  note b = fit_size_bounds [OF assms]
  have "fitW = even_down tw \<and> tw * srcH \<le> (fitH + 1) * srcW \<and> fitH * srcW < tw * srcH + srcW" if wide: "srcW * th \<ge> srcH * tw"
  proof -
    have "tw * srcH \<le> th * srcW" using wide by (simp add: mult.commute)
    then have "1 \<le> (tw * srcH + srcW - 1) div srcW" "(tw * srcH + srcW - 1) div srcW \<le> th"
      using ceil_div_between [of srcW "tw * srcH" th] assms by simp_all
    then have f: "fitH = even_down ((tw * srcH + srcW - 1) div srcW)" "fitW = even_down tw"
      using fit wide by (auto simp: fit_size_def Let_def)
    show ?thesis using fitted_side [OF assms(1,2,3) _ f(1), of th] f(2) wide by (simp add: mult.commute)
  qed
  moreover have "fitH = even_down th \<and> th * srcW \<le> (fitW + 1) * srcH \<and> fitW * srcH < th * srcW + srcH" if tall: "\<not> srcW * th \<ge> srcH * tw"
  proof -
    have "th * srcW \<le> tw * srcH" using tall by (simp add: mult.commute)
    then have "1 \<le> (th * srcW + srcH - 1) div srcH" "(th * srcW + srcH - 1) div srcH \<le> tw"
      using ceil_div_between [of srcH "th * srcW" tw] assms by simp_all
    then have f: "fitW = even_down ((th * srcW + srcH - 1) div srcH)" "fitH = even_down th"
      using fit tall by (auto simp: fit_size_def Let_def)
    show ?thesis using fitted_side [OF assms(2,1,4) _ f(1), of tw] f(2) tall by (simp add: mult.commute)
  qed
  ultimately show ?thesis
    using b fit_offset_bounds [OF b(1,2)] fit_offset_bounds [OF b(4,5)] by simp
qed

theorem letterbox_inside_witness:
  "fit_size 1920 1080 1024 768 = (1440, 1080) \<and> fit_offset 1920 1440 + 1440 \<le> 1920 \<and> 1080 * 1024 \<le> (1440 + 1) * (768::int)"
proof -
  have f: "fit_size 1920 1080 1024 768 = (1440, 1080)" by code_simp
  show ?thesis using letterbox_inside [OF _ _ _ _ f] f by simp
qed

text \<open>C29: Encoding a frame never writes outside the picture's planes, and each plane shows the scaled picture in
  its rectangle and black elsewhere. With buffers as FFmpeg documents them painting succeeds; the luma plane
  holds the scaled luma in the fitted rectangle and 16 around it, and each chroma plane holds its own scaled
  chroma in the rectangle of half the size at half the offset and 128 around it; no plane changes its size.\<close>

theorem letterbox_paints:
  assumes "0 < srcW" "0 < srcH" "0 < tw" "0 < th" and "fit_size tw th srcW srcH = (fitW, fitH)"
    and "frame_fits tw th fr" and "planes_fit fitW fitH (y, u, v)"
    and "x0 = nat (fit_offset tw fitW)" "y0 = nat (fit_offset th fitH)"
  shows "\<exists>fr'. paint_frame tw th fitW fitH (y, u, v) fr = Some fr' \<and>
    plane_shows (fr_lsY fr) (nat tw) (nat th) (x0, y0) (nat fitW, nat fitH) y 16 (fr_y fr') \<and>
    plane_shows (fr_lsU fr) (nat tw div 2) (nat th div 2) (x0 div 2, y0 div 2) (nat fitW div 2, nat fitH div 2) u 128 (fr_u fr') \<and>
    plane_shows (fr_lsV fr) (nat tw div 2) (nat th div 2) (x0 div 2, y0 div 2) (nat fitW div 2, nat fitH div 2) v 128 (fr_v fr') \<and>
    length (fr_y fr') = length (fr_y fr) \<and> length (fr_u fr') = length (fr_u fr) \<and> length (fr_v fr') = length (fr_v fr)"
  using paint_frame_ok [OF fit_size_bounds(1,2,4,5) [OF assms(1-5)] assms(6,7)] unfolding assms(8,9) .

text \<open>A square picture in a frame twice as wide.\<close>

definition small_frame :: AvFrame where
  "small_frame = \<lparr>fr_y = replicate 24 0, fr_u = replicate 6 0, fr_v = replicate 6 0, fr_lsY = 12, fr_lsU = 6, fr_lsV = 6,
     fr_pts = 0, fr_intra = False\<rparr>"

theorem letterbox_paints_witness:
  "\<exists>fr. paint_frame 10 2 2 2 ([1, 2, 3, 4], [5], [6]) small_frame = Some fr \<and>
     fr_y fr ! 0 = 16 \<and> fr_y fr ! 4 = 1 \<and> fr_y fr ! 16 = 3 \<and> fr_u fr ! 1 = 128 \<and> fr_u fr ! 2 = 5 \<and> fr_v fr ! 2 = 6"
proof -
  have f: "fit_size 10 2 100 100 = (2, 2)" by code_simp
  have ok: "frame_fits 10 2 small_frame" "planes_fit 2 2 ([1, 2, 3, 4], [5], [6])" by (simp_all add: frame_fits_def small_frame_def planes_fit_def)
  have off: "4 = nat (fit_offset 10 2)" "0 = nat (fit_offset 2 2)" by code_simp+
  obtain fr where fr: "paint_frame 10 2 2 2 ([1, 2, 3, 4], [5], [6]) small_frame = Some fr"
    "plane_shows 12 10 2 (4, 0) (2, 2) [1, 2, 3, 4] 16 (fr_y fr)" "plane_shows 6 5 1 (2, 0) (1, 1) [5] 128 (fr_u fr)"
    "plane_shows 6 5 1 (2, 0) (1, 1) [6] 128 (fr_v fr)"
    using letterbox_paints [OF _ _ _ _ f ok off] by (auto simp: small_frame_def)
  note at = fr(2) [unfolded plane_shows_def prod.case, rule_format] fr(3) [unfolded plane_shows_def prod.case, rule_format]
    fr(4) [unfolded plane_shows_def prod.case, rule_format]
  show ?thesis using fr(1) at(1) [of 0 0] at(1) [of 0 4] at(1) [of 1 4] at(2) [of 0 1] at(2) [of 0 2] at(3) [of 0 2] by (auto simp: numeral_2_eq_2)
qed

text \<open>Which candidates FFmpeg can open, and that the first of them is taken.\<close>

definition usable :: "FfOpen \<Rightarrow> VideoEncoderParams \<Rightarrow> string \<Rightarrow> bool" where
  "usable ff p name \<longleftrightarrow> fo_find ff name \<and> fo_context ff \<and> fo_open ff (encoder_settings name p) = None \<and>
     fo_frame ff \<noteq> None \<and> fo_packet ff"

lemma openEncoder_ok:
  "openEncoder ff name s = (t, r) \<Longrightarrow> ve_p t = ve_p s \<and> ve_keyframeRequested t = ve_keyframeRequested s \<and>
     (r = None \<longleftrightarrow> usable ff (ve_p s) name) \<and> (r = None \<longrightarrow> ve_ctx t = Some (encoder_settings name (ve_p s)))"
  by (auto simp: openEncoder_def usable_def Let_def ve_close_def split: if_splits option.splits)

lemma try_candidates_ok:
  "try_candidates ff names e s = (t, r) \<Longrightarrow> ve_p t = ve_p s \<and> ve_keyframeRequested t = ve_keyframeRequested s \<and>
     (case find (usable ff (ve_p s)) names of
        None \<Rightarrow> r \<noteq> None
      | Some n \<Rightarrow> r = None \<and> ve_encoderName t = n \<and> ve_ctx t = Some (encoder_settings n (ve_p s)))"
proof (induction names arbitrary: e s)
  case Nil
  then show ?case by auto
next
  case (Cons n ns)
  obtain s1 r1 where o: "openEncoder ff n s = (s1, r1)" by force
  note k = openEncoder_ok [OF o]
  show ?case
  proof (cases r1)
    case None
    then show ?thesis using Cons.prems o k by auto
  next
    case (Some why)
    then have "try_candidates ff ns why s1 = (t, r)" using Cons.prems o by simp
    then show ?thesis using Cons.IH [of why s1] k Some by (simp cong: option.case_cong)
  qed
qed

lemma init_first_usable:
  assumes "ve_init ff p s = (t, r)"
  shows "(r = None \<longleftrightarrow> (\<exists>n \<in> set (candidates p). usable ff p n)) \<and>
    (r = None \<longrightarrow> find (usable ff p) (candidates p) = Some (ve_encoderName t) \<and>
       ve_ctx t = Some (encoder_settings (ve_encoderName t) p)) \<and> ve_keyframeRequested t"
proof -
  let ?s = "(ve_close s)\<lparr>ve_p := p, ve_frameCounter := 0, ve_keyframeRequested := True, ve_framesEncoded := 0,
          ve_bytesEncoded := 0, ve_avgEncodeMs := 0, ve_lastEncodeMs := 0\<rparr>"
  have "try_candidates ff (candidates p) [] ?s = (t, r)" using assms by (simp add: ve_init_def)
  from try_candidates_ok [OF this] show ?thesis
    by (cases "find (usable ff p) (candidates p)") (auto simp: find_None_iff find_Some_iff)
qed

text \<open>Opening the encoder takes the first usable candidate: the preferred encoder when there is one,
  then the hardware encoders of the codec, then the software one; it fails exactly when none can be
  opened, and the first frame after opening is a keyframe.\<close>

theorem encoder_first_usable:
  assumes "ve_init ff p s = (t, r)"
  shows "(r = None \<longleftrightarrow> (\<exists>n \<in> set (candidates p). usable ff p n)) \<and>
    (r = None \<longrightarrow> find (usable ff p) (candidates p) = Some (ve_encoderName t) \<and>
       ve_ctx t = Some (encoder_settings (ve_encoderName t) p)) \<and> ve_keyframeRequested t"
  by (rule init_first_usable [OF assms])

definition ff_software :: FfOpen where
  "ff_software = \<lparr>fo_find = (\<lambda>n. take 3 n = ''lib''), fo_context = True, fo_open = (\<lambda>_. None), fo_frame = Some small_frame, fo_packet = True\<rparr>"

definition small_params :: VideoEncoderParams where
  "small_params = \<lparr>vp_codec = Hevc, vp_width = 4, vp_height = 2, vp_fps = 60, vp_bitrateKbps = 8000, vp_gop = 120, vp_preferredEncoder = []\<rparr>"

definition small_encoder :: VideoEncoder where
  "small_encoder = fst (ve_init ff_software small_params VideoEncoder_new)"

theorem encoder_first_usable_witness: "ve_encoderName small_encoder = ''libx265''"
proof -
  have i: "ve_init ff_software small_params VideoEncoder_new = (small_encoder, snd (ve_init ff_software small_params VideoEncoder_new))"
    by (simp add: small_encoder_def)
  have "find (usable ff_software small_params) (candidates small_params) = Some ''libx265''" by code_simp
  moreover have "usable ff_software small_params ''libx265''" "''libx265'' \<in> set (candidates small_params)" by code_simp+
  ultimately show ?thesis using encoder_first_usable [OF i] by fastforce
qed

section \<open>The scaler\<close>

lemma finish_encode_scaler [simp]:
  "ve_sws (fst (finish_encode ff s)) = ve_sws s" "ve_lastFitW (fst (finish_encode ff s)) = ve_lastFitW s"
  "ve_lastFitH (fst (finish_encode ff s)) = ve_lastFitH s" "ve_p (fst (finish_encode ff s)) = ve_p s"
  by (simp_all add: finish_encode_def Let_def)

lemma encode_scaler:
  assumes "fit_size (vp_width (ve_p s)) (vp_height (ve_p s)) srcW srcH = (fitW, fitH)" and "ve_encode ff srcW srcH s = (t, Encoded ps ok)"
  shows "ve_lastFitW t = fitW \<and> ve_lastFitH t = fitH \<and> ve_p t = ve_p s \<and>
    ve_sws t = (if ve_sws s = None \<or> ve_lastFitW s \<noteq> fitW \<or> ve_lastFitH s \<noteq> fitH then Some (srcW, srcH, fitW, fitH) else ve_sws s)"
proof -
  obtain c fr0 where c: "ve_ctx s = Some c" "ve_frame s = Some fr0"
    using assms(2) by (auto simp: ve_encode_def split: option.splits)
  obtain s1 r where p: "prepare_scaler ff srcW srcH fitW fitH s = (s1, r)" by force
  from assms(2) c p assms(1) obtain fr where r: "r = None" and
    e: "finish_encode ff (s1\<lparr>ve_frame := Some (fr\<lparr>fr_pts := ve_frameCounter s1, fr_intra := ve_keyframeRequested s1\<rparr>),
         ve_frameCounter := ve_frameCounter s1 + 1, ve_keyframeRequested := False\<rparr>) = (t, Encoded ps ok)"
    by (auto simp: ve_encode_def Let_def split: option.splits if_splits)
  have t: "ve_sws t = ve_sws s1" "ve_lastFitW t = ve_lastFitW s1" "ve_lastFitH t = ve_lastFitH s1" "ve_p t = ve_p s1"
    using finish_encode_scaler [of ff "s1\<lparr>ve_frame := Some (fr\<lparr>fr_pts := ve_frameCounter s1, fr_intra := ve_keyframeRequested s1\<rparr>),
         ve_frameCounter := ve_frameCounter s1 + 1, ve_keyframeRequested := False\<rparr>"] unfolding e by simp_all
  show ?thesis using p r t by (auto simp: prepare_scaler_def Let_def split: if_splits)
qed

text \<open>The scaler is not renewed when the captured size changes but the fitted size does not: after a
  frame of one size, a frame of another size with the same aspect ratio is scaled with the context made
  for the first one, which then reads the second as if it had the first one's size.\<close>

theorem scaler_ignores_source_size:
  assumes "ve_sws s = None" and "ve_encode ff w h s = (s1, Encoded ps ok)" and "ve_encode ff' w' h' s1 = (s2, Encoded ps' ok')"
    and "fit_size (vp_width (ve_p s)) (vp_height (ve_p s)) w h = (fitW, fitH)"
    and "fit_size (vp_width (ve_p s)) (vp_height (ve_p s)) w' h' = (fitW, fitH)"
  shows "ve_sws s2 = Some (w, h, fitW, fitH)"
  using encode_scaler [OF assms(4,2)] encode_scaler [of s1 w' h' fitW fitH ff' s2 ps' ok'] assms by simp

definition small_answers :: FfEncode where
  "small_answers = \<lparr>fe_t0 = 0, fe_t1 = 5, fe_malloc = True, fe_scaler = True, fe_scaled = (replicate 8 1, replicate 2 5, replicate 2 6),
     fe_writable = True, fe_send = True, fe_packets = [], fe_receiveOk = True\<rparr>"

theorem scaler_ignores_source_size_witness:
  "ve_sws (fst (ve_encode small_answers 2 1 (fst (ve_encode small_answers 8 4 small_encoder)))) = Some (8, 4, 4, 2)"
proof -
  let ?s1 = "fst (ve_encode small_answers 8 4 small_encoder)"
  have r: "snd (ve_encode small_answers 8 4 small_encoder) = Encoded [] True" "snd (ve_encode small_answers 2 1 ?s1) = Encoded [] True"
    by code_simp+
  have e: "ve_encode small_answers 8 4 small_encoder = (?s1, Encoded [] True)"
    "ve_encode small_answers 2 1 ?s1 = (fst (ve_encode small_answers 2 1 ?s1), Encoded [] True)"
    using r by (simp_all add: prod_eq_iff)
  have "ve_sws small_encoder = None" "fit_size (vp_width (ve_p small_encoder)) (vp_height (ve_p small_encoder)) 8 4 = (4, 2)"
    "fit_size (vp_width (ve_p small_encoder)) (vp_height (ve_p small_encoder)) 2 1 = (4, 2)" by code_simp+
  then show ?thesis using scaler_ignores_source_size [OF _ e] by simp
qed

section \<open>Keyframes and bitrate\<close>

text \<open>A requested keyframe is the next frame handed to the codec, and only that one.\<close>

lemma keyframe_next:
  assumes "ve_encode ff srcW srcH s = (t, Encoded ps ok)"
  shows "\<exists>fr. ve_frame t = Some fr \<and> fr_intra fr = ve_keyframeRequested s \<and> fr_pts fr = ve_frameCounter s" and "\<not> ve_keyframeRequested t"
  using assms by (auto simp: ve_encode_def prepare_scaler_def finish_encode_def Let_def split: option.splits if_splits prod.splits)

text \<open>Bitrate targets stay between 2 and 50 Mbit/s, and a changed target reopens the encoder with it.\<close>

lemma setBitrate_range: "vp_bitrateKbps (ve_p (ve_setBitrate k s)) = std_clamp k 2000 50000"
  by (auto simp: ve_setBitrate_def Let_def)

lemma apply_bitrate:
  assumes "ve_ctx s \<noteq> None" and "applyBitrateIfDirty ff (ve_setBitrate k s) = (t, True)"
  shows "\<exists>c. ve_ctx t = Some c \<and> as_bitRate c = std_clamp k 2000 50000 * 1000" and "\<not> ve_bitrateDirty t" and "ve_keyframeRequested t"
proof -
  let ?s = "ve_setBitrate k s"
  obtain u where i: "ve_init ff (ve_p ?s) ?s = (u, None)" and t: "t = u\<lparr>ve_bitrateDirty := False\<rparr>"
    using assms(2) by (auto simp: applyBitrateIfDirty_def split: if_splits option.splits prod.splits)
  let ?z = "(ve_close ?s)\<lparr>ve_p := ve_p ?s, ve_frameCounter := 0, ve_keyframeRequested := True, ve_framesEncoded := 0,
          ve_bytesEncoded := 0, ve_avgEncodeMs := 0, ve_lastEncodeMs := 0\<rparr>"
  have "try_candidates ff (candidates (ve_p ?s)) [] ?z = (u, None)" using i by (simp add: ve_init_def)
  from try_candidates_ok [OF this] show "\<exists>c. ve_ctx t = Some c \<and> as_bitRate c = std_clamp k 2000 50000 * 1000" "\<not> ve_bitrateDirty t" "ve_keyframeRequested t"
    by (auto simp: t setBitrate_range encoder_settings_def Let_def split: option.splits)
qed

end
