(* ===== verification/ScreenCapture.thy ===== *)
theory ScreenCapture
  imports RP_Types Complex_Main
begin

text \<open>
  \<^verbatim>\<open>capture/ScreenCapture.cpp\<close>: the enumeration of outputs and windows, the duplication of a monitor and the
  crop to a window. The Windows interfaces are arguments: what DXGI enumerates (adapters with their
  outputs), whether a call fails, and what the window manager says of a window. A captured frame is its
  offset into the mapped texture, its size and its row pitch.

  A caller that captures passes a place for the error message (\<^verbatim>\<open>HostStreamer\<close> does).

  The theorems: a captured frame lies inside the mapped texture on every run; an output index selects
  the same output that the list shown to the user has at that position.
\<close>

section \<open>Outputs and windows\<close>

record rect =
  rc_left :: int
  rc_top :: int
  rc_right :: int
  rc_bottom :: int

record dxgi_output =
  do_name :: string
  do_rect :: rect
  do_attached :: bool

record OutputInfo =
  oi_index :: int
  oi_name :: string
  oi_width :: int
  oi_height :: int

text \<open>An adapter is the list of its outputs; \<open>None\<close> is an output whose description cannot be read.\<close>

type_synonym adapters = "dxgi_output option list list"

fun usable_output :: "dxgi_output option \<Rightarrow> bool" where
  "usable_output None \<longleftrightarrow> False"
| "usable_output (Some d) \<longleftrightarrow> do_attached d"

fun list_outputs :: "dxgi_output option list \<Rightarrow> OutputInfo list \<Rightarrow> OutputInfo list" where
  "list_outputs [] outs = outs"
| "list_outputs (x # xs) outs =
     (case x of
        None \<Rightarrow> list_outputs xs outs
      | Some d \<Rightarrow>
          if \<not> do_attached d then list_outputs xs outs
          else list_outputs xs (outs @ [\<lparr>oi_index = int (length outs), oi_name = do_name d,
                 oi_width = rc_right (do_rect d) - rc_left (do_rect d), oi_height = rc_bottom (do_rect d) - rc_top (do_rect d)\<rparr>]))"

definition enumerateOutputs :: "adapters option \<Rightarrow> OutputInfo list" where
  "enumerateOutputs factory =
     (case factory of None \<Rightarrow> [] | Some ads \<Rightarrow> fold list_outputs ads [])"

record window =
  wn_hwnd :: nat
  wn_visible :: bool
  wn_iconic :: bool
  wn_toolwindow :: bool
  wn_cloaked :: bool
  wn_title :: string
  wn_client :: "rect option"
  wn_origin :: "int \<times> int"
  wn_exe :: string

record WindowInfo =
  wi_hwnd :: nat
  wi_title :: string
  wi_processExe :: string
  wi_x :: int
  wi_y :: int
  wi_w :: int
  wi_h :: int

definition enumProc :: "window \<Rightarrow> WindowInfo list \<Rightarrow> WindowInfo list" where
  "enumProc w outs =
     (if \<not> wn_visible w \<or> wn_iconic w then outs
      else if wn_toolwindow w then outs
      else if wn_cloaked w then outs
      else if wn_title w = [] then outs
      else case wn_client w of
        None \<Rightarrow> outs
      | Some rc \<Rightarrow>
          if rc_right rc - rc_left rc < 32 \<or> rc_bottom rc - rc_top rc < 32 then outs
          else outs @ [\<lparr>wi_hwnd = wn_hwnd w, wi_title = wn_title w, wi_processExe = wn_exe w, wi_x = fst (wn_origin w),
                 wi_y = snd (wn_origin w), wi_w = rc_right rc - rc_left rc, wi_h = rc_bottom rc - rc_top rc\<rparr>])"

definition listCaptureWindows :: "window list \<Rightarrow> WindowInfo list" where
  "listCaptureWindows ws = fold enumProc ws []"

section \<open>Capture state\<close>

record DisplayCapture =
  dc_output :: "dxgi_output option"
  dc_device :: bool
  dc_duplication :: bool
  dc_staging :: "(int \<times> int) option"
  dc_outputIndex :: int
  dc_adapterIndex :: int
  dc_monWidth :: int
  dc_monHeight :: int
  dc_monLeft :: int
  dc_monTop :: int
  dc_outWidth :: int
  dc_outHeight :: int
  dc_cropX :: int
  dc_cropY :: int
  dc_hasCrop :: bool
  dc_frameCounter :: u32
  dc_accessLost :: u32
  dc_avgCaptureMs :: rat

definition DisplayCapture_new :: DisplayCapture where
  "DisplayCapture_new = \<lparr>dc_output = None, dc_device = False, dc_duplication = False, dc_staging = None, dc_outputIndex = 0,
     dc_adapterIndex = 0, dc_monWidth = 0, dc_monHeight = 0, dc_monLeft = 0, dc_monTop = 0, dc_outWidth = 0, dc_outHeight = 0,
     dc_cropX = 0, dc_cropY = 0, dc_hasCrop = False, dc_frameCounter = 0, dc_accessLost = 0, dc_avgCaptureMs = 0\<rparr>"

definition releaseAll :: "DisplayCapture \<Rightarrow> DisplayCapture" where
  "releaseAll s = s\<lparr>dc_duplication := False, dc_staging := None, dc_output := None, dc_device := False\<rparr>"

text \<open>The search: outputs are counted across the adapters, skipping those that are not attached.\<close>

fun find_in_adapter :: "dxgi_output option list \<Rightarrow> int \<Rightarrow> int \<Rightarrow> dxgi_output + int" where
  "find_in_adapter [] idx glob = Inr glob"
| "find_in_adapter (x # xs) idx glob =
     (case x of
        None \<Rightarrow> find_in_adapter xs idx glob
      | Some d \<Rightarrow>
          if do_attached d then (if glob = idx then Inl d else find_in_adapter xs idx (glob + 1))
          else find_in_adapter xs idx glob)"

fun find_output :: "adapters \<Rightarrow> int \<Rightarrow> int \<Rightarrow> int \<Rightarrow> (int \<times> dxgi_output) option" where
  "find_output [] a idx glob = None"
| "find_output (ad # ads) a idx glob =
     (case find_in_adapter ad idx glob of
        Inl d \<Rightarrow> Some (a, d)
      | Inr g \<Rightarrow> find_output ads (a + 1) idx g)"

text \<open>The graphics stack during one initialisation.\<close>

record dxgi_env =
  dx_factory :: "adapters option"
  dx_adapter :: bool
  dx_device :: bool
  dx_desc :: bool
  dx_output1 :: bool
  dx_duplicate :: "string option"
  dx_staging :: bool

text \<open>\<open>errp\<close>: whether the caller passes a place for the message. The failure of \<^verbatim>\<open>DuplicateOutput\<close> is written there
  without a check, so without one it is the outcome \<open>InitCrash\<close>.\<close>

datatype init_result = InitOk | InitError string | InitCrash

definition dc_init :: "dxgi_env \<Rightarrow> bool \<Rightarrow> int \<Rightarrow> DisplayCapture \<Rightarrow> DisplayCapture \<times> init_result" where
  "dc_init env errp idx s =
     (let s = (releaseAll s)\<lparr>dc_outputIndex := idx\<rparr>
      in case dx_factory env of
           None \<Rightarrow> (s, InitError ''CreateDXGIFactory1 failed'')
         | Some ads \<Rightarrow>
             (case find_output ads 0 idx 0 of
                None \<Rightarrow> (s, InitError ''output index out of range'')
              | Some (a, d) \<Rightarrow>
                  let s = s\<lparr>dc_adapterIndex := a, dc_output := Some d\<rparr>
                  in if \<not> dx_adapter env then (s, InitError ''EnumAdapters1 failed'')
                     else if \<not> dx_device env then (s, InitError ''D3D11CreateDevice failed'')
                     else
                       let s = s\<lparr>dc_device := True\<rparr>
                       in if \<not> dx_desc env then (s, InitError ''GetDesc(output) failed'')
                          else
                            let w = rc_right (do_rect d) - rc_left (do_rect d); h = rc_bottom (do_rect d) - rc_top (do_rect d);
                                s = s\<lparr>dc_monWidth := w, dc_monHeight := h, dc_monLeft := rc_left (do_rect d), dc_monTop := rc_top (do_rect d)\<rparr>
                            in if \<not> dx_output1 env then (s, InitError ''IDXGIOutput1 unavailable (pre-Win8.1?)'')
                               else case dx_duplicate env of
                                 Some why \<Rightarrow> (s, if errp then InitError why else InitCrash)
                               | None \<Rightarrow>
                                   let s = s\<lparr>dc_duplication := True\<rparr>
                                   in if \<not> dx_staging env then (s, InitError ''CreateTexture2D(staging) failed'')
                                      else (s\<lparr>dc_staging := Some (w, h), dc_hasCrop := False, dc_cropX := 0, dc_cropY := 0,
                                              dc_outWidth := w, dc_outHeight := h, dc_frameCounter := 0\<rparr>, InitOk)))"

section \<open>Capturing\<close>

record CaptureFrame =
  cf_offset :: int
  cf_width :: int
  cf_height :: int
  cf_stride :: int
  cf_timestampUs :: u64
  cf_frameId :: u32

datatype acquire = Acquired | WaitTimeout | AccessLost | AcquireFailed

text \<open>The answers during one call of \<^verbatim>\<open>capture\<close>: the first \<^verbatim>\<open>AcquireNextFrame\<close>, the graphics stack and the answer
  for each of the three attempts to recover, whether the resource is a texture and can be mapped, the row
  pitch of the mapping, and the clock.\<close>

record capture_env =
  ce_acquire :: acquire
  ce_retry :: "nat \<Rightarrow> dxgi_env \<times> acquire"
  ce_texture :: bool
  ce_map :: bool
  ce_pitch :: int
  ce_nowUs :: u64
  ce_dt :: rat

fun recover :: "(dxgi_env \<times> acquire) list \<Rightarrow> DisplayCapture \<Rightarrow> DisplayCapture \<times> acquire" where
  "recover [] s = (s, AccessLost)"
| "recover ((env, acq) # tries) s =
     (case dc_init env True (dc_outputIndex s) s of
        (s, InitError why) \<Rightarrow> recover tries s
      | (s, InitCrash) \<Rightarrow> (s, AcquireFailed)
      | (s, InitOk) \<Rightarrow>
          (case acq of
             Acquired \<Rightarrow> (s, Acquired)
           | AccessLost \<Rightarrow> recover tries (s\<lparr>dc_accessLost := dc_accessLost s + 1\<rparr>)
           | _ \<Rightarrow> (s, AcquireFailed)))"

datatype capture_result = Captured CaptureFrame | TimedOut | CaptureFailed | NullTexture

definition take_frame :: "capture_env \<Rightarrow> DisplayCapture \<Rightarrow> DisplayCapture \<times> capture_result" where
  "take_frame env s =
     (let avg = (if dc_avgCaptureMs s = 0 then ce_dt env else dc_avgCaptureMs s * 9 / 10 + ce_dt env / 10)
      in if \<not> ce_texture env then (s\<lparr>dc_avgCaptureMs := avg\<rparr>, CaptureFailed)
         else if dc_staging s = None then (s, NullTexture)
         else if \<not> ce_map env then (s\<lparr>dc_avgCaptureMs := avg\<rparr>, CaptureFailed)
         else (s\<lparr>dc_frameCounter := dc_frameCounter s + 1, dc_avgCaptureMs := avg\<rparr>,
               Captured \<lparr>cf_offset = dc_cropY s * ce_pitch env + dc_cropX s * 4, cf_width = dc_outWidth s, cf_height = dc_outHeight s,
                 cf_stride = ce_pitch env, cf_timestampUs = ce_nowUs env, cf_frameId = dc_frameCounter s + 1\<rparr>))"

definition dc_capture :: "capture_env \<Rightarrow> DisplayCapture \<Rightarrow> DisplayCapture \<times> capture_result" where
  "dc_capture env s =
     (if \<not> dc_duplication s then (s, CaptureFailed)
      else case ce_acquire env of
        WaitTimeout \<Rightarrow> (s, TimedOut)
      | AcquireFailed \<Rightarrow> (s, CaptureFailed)
      | Acquired \<Rightarrow> take_frame env s
      | AccessLost \<Rightarrow>
          (case recover (map (ce_retry env) [0, 1, 2]) (s\<lparr>dc_accessLost := dc_accessLost s + 1\<rparr>) of
             (s, Acquired) \<Rightarrow> take_frame env s
           | (s, _) \<Rightarrow> (s, CaptureFailed)))"

section \<open>Cropping\<close>

definition setCropRect :: "int \<Rightarrow> int \<Rightarrow> int \<Rightarrow> int \<Rightarrow> DisplayCapture \<Rightarrow> DisplayCapture" where
  "setCropRect x y w h s = s\<lparr>dc_cropX := x, dc_cropY := y, dc_outWidth := w, dc_outHeight := h, dc_hasCrop := True\<rparr>"

definition clearCrop :: "DisplayCapture \<Rightarrow> DisplayCapture" where
  "clearCrop s = s\<lparr>dc_hasCrop := False, dc_cropX := 0, dc_cropY := 0, dc_outWidth := dc_monWidth s, dc_outHeight := dc_monHeight s\<rparr>"

text \<open>\<open>w\<close>: the window, or \<open>None\<close> when the handle is not a window any more.\<close>

definition updateWindowCrop :: "window option \<Rightarrow> DisplayCapture \<Rightarrow> DisplayCapture \<times> bool" where
  "updateWindowCrop win s =
     (case win of
        None \<Rightarrow> (s, False)
      | Some v \<Rightarrow>
          if wn_iconic v then (s, False)
          else case wn_client v of
            None \<Rightarrow> (s, False)
          | Some rc \<Rightarrow>
              let x = fst (wn_origin v) - dc_monLeft s; y = snd (wn_origin v) - dc_monTop s;
                  w = rc_right rc - rc_left rc; h = rc_bottom rc - rc_top rc;
                  (x, w) = (if x < 0 then (0, w + x) else (x, w));
                  (y, h) = (if y < 0 then (0, h + y) else (y, h));
                  w = (if x + w > dc_monWidth s then dc_monWidth s - x else w);
                  h = (if y + h > dc_monHeight s then dc_monHeight s - y else h)
              in if w < 16 \<or> h < 16 then (s, False) else (setCropRect x y w h s, True))"

section \<open>The crop stays inside the texture\<close>

datatype dc_event = DcInit dxgi_env bool int | DcCapture capture_env | DcWindow "window option" | DcClear

fun dc_handle :: "dc_event \<Rightarrow> DisplayCapture \<Rightarrow> DisplayCapture" where
  "dc_handle (DcInit env errp idx) s = fst (dc_init env errp idx s)"
| "dc_handle (DcCapture env) s = fst (dc_capture env s)"
| "dc_handle (DcWindow w) s = fst (updateWindowCrop w s)"
| "dc_handle DcClear s = clearCrop s"

definition dc_inv :: "DisplayCapture \<Rightarrow> bool" where
  "dc_inv s \<longleftrightarrow> (\<forall>w h. dc_staging s = Some (w, h) \<longrightarrow> dc_monWidth s = w \<and> dc_monHeight s = h \<and>
     0 \<le> dc_cropX s \<and> dc_cropX s + dc_outWidth s \<le> w \<and> 0 \<le> dc_cropY s \<and> dc_cropY s + dc_outHeight s \<le> h)"

lemma dc_inv_init: "dc_inv (fst (dc_init env errp idx s))"
  by (auto simp: dc_init_def releaseAll_def dc_inv_def Let_def split: option.split prod.split)

lemma dc_inv_lost: "dc_inv (s\<lparr>dc_accessLost := n\<rparr>) = dc_inv s"
  by (simp add: dc_inv_def)

lemma dc_inv_recover: "dc_inv s \<Longrightarrow> dc_inv (fst (recover tries s))"
proof (induction tries arbitrary: s)
  case Nil
  then show ?case by simp
next
  case (Cons e tries)
  obtain env acq where e: "e = (env, acq)" by force
  obtain t r where t: "dc_init env True (dc_outputIndex s) s = (t, r)" by force
  then have "dc_inv t" using dc_inv_init [of env True "dc_outputIndex s" s] by simp
  then show ?case using Cons.IH t by (auto simp: e dc_inv_lost split: init_result.split acquire.split)
qed

lemma take_frame_keeps:
  "dc_inv (fst (take_frame env s)) = dc_inv s" "dc_staging (fst (take_frame env s)) = dc_staging s"
  by (auto simp: take_frame_def dc_inv_def Let_def)

lemma dc_inv_capture: "dc_inv s \<Longrightarrow> dc_inv (fst (dc_capture env s))"
  using dc_inv_recover [of "s\<lparr>dc_accessLost := dc_accessLost s + 1\<rparr>" "map (ce_retry env) [0, 1, 2]"]
  by (auto simp: dc_capture_def take_frame_keeps dc_inv_lost simp del: recover.simps split: acquire.split prod.split)

lemma window_crop_inside:
  assumes "updateWindowCrop v s = (t, True)"
  shows "0 \<le> dc_cropX t" "0 \<le> dc_cropY t" "dc_cropX t + dc_outWidth t \<le> dc_monWidth t" "dc_cropY t + dc_outHeight t \<le> dc_monHeight t"
    "16 \<le> dc_outWidth t" "16 \<le> dc_outHeight t" "dc_monWidth t = dc_monWidth s" "dc_monHeight t = dc_monHeight s" "dc_staging t = dc_staging s"
  using assms by (auto simp: updateWindowCrop_def setCropRect_def Let_def split: option.splits if_splits)

lemma dc_inv_window: "dc_inv s \<Longrightarrow> dc_inv (fst (updateWindowCrop v s))"
proof (cases "snd (updateWindowCrop v s)")
  case True
  assume "dc_inv s"
  then show ?thesis using window_crop_inside [of v s "fst (updateWindowCrop v s)"] True by (auto simp: dc_inv_def prod_eq_iff)
next
  case False
  assume "dc_inv s"
  moreover have "fst (updateWindowCrop v s) = s" using False
    by (auto simp: updateWindowCrop_def Let_def split: option.splits if_splits)
  ultimately show ?thesis by simp
qed

lemma dc_inv_handle: "dc_inv s \<Longrightarrow> dc_inv (dc_handle e s)"
proof (cases e)
  case DcClear
  assume "dc_inv s"
  then show ?thesis by (simp add: DcClear clearCrop_def dc_inv_def)
qed (simp_all add: dc_inv_init dc_inv_capture dc_inv_window)

interpretation dcm: event_machine DisplayCapture_new dc_handle dc_inv
  by unfold_locales (simp_all add: dc_inv_handle, simp add: dc_inv_def DisplayCapture_new_def)

text \<open>C27: A captured frame lies inside the mapped texture: on every run of initialisations, captures with
  their recoveries, and window crops, the frame handed out starts at a non-negative offset and its last
  row ends before the end of the mapping, whose row pitch covers the texture's width.\<close>

theorem captured_frame_inside:
  assumes s: "s = fold dc_handle es DisplayCapture_new" and c: "dc_capture env s = (t, Captured f)"
    and st: "dc_staging t = Some (w, h)" and pitch: "4 * w \<le> ce_pitch env" "0 \<le> ce_pitch env" and size: "1 \<le> cf_height f"
  shows "0 \<le> cf_offset f \<and> cf_offset f + (cf_height f - 1) * cf_stride f + 4 * cf_width f \<le> h * ce_pitch env"
proof -
  have "dc_inv t" using dc_inv_capture [OF dcm.inv_run [of es], of env] s c by simp
  then have b: "0 \<le> dc_cropX t" "dc_cropX t + dc_outWidth t \<le> w" "0 \<le> dc_cropY t" "dc_cropY t + dc_outHeight t \<le> h"
    using st by (simp_all add: dc_inv_def)
  have f: "cf_offset f = dc_cropY t * ce_pitch env + dc_cropX t * 4" "cf_width f = dc_outWidth t" "cf_height f = dc_outHeight t"
    "cf_stride f = ce_pitch env"
    using c by (auto simp: dc_capture_def take_frame_def Let_def simp del: recover.simps split: if_splits acquire.splits prod.splits)
  have "(dc_cropY t + dc_outHeight t) * ce_pitch env \<le> h * ce_pitch env" using b(4) pitch(2) by (rule mult_right_mono)
  moreover have "dc_cropX t * 4 + 4 * dc_outWidth t \<le> ce_pitch env" using b(2) pitch(1) by linarith
  moreover have "0 \<le> dc_cropY t * ce_pitch env" using b(3) pitch(2) by simp
  ultimately show ?thesis using b(1) f by (simp add: algebra_simps)
qed

text \<open>A monitor, a window that sticks out of it on the left, and a graphics stack that works.\<close>

definition one_monitor :: dxgi_env where
  "one_monitor = \<lparr>dx_factory = Some [[Some \<lparr>do_name = ''D1'', do_rect = \<lparr>rc_left = 0, rc_top = 0, rc_right = 1920, rc_bottom = 1080\<rparr>,
     do_attached = True\<rparr>]], dx_adapter = True, dx_device = True, dx_desc = True, dx_output1 = True, dx_duplicate = None, dx_staging = True\<rparr>"

definition game_window :: window where
  "game_window = \<lparr>wn_hwnd = 7, wn_visible = True, wn_iconic = False, wn_toolwindow = False, wn_cloaked = False, wn_title = ''Game'',
     wn_client = Some \<lparr>rc_left = 0, rc_top = 0, rc_right = 800, rc_bottom = 600\<rparr>, wn_origin = (- 100, 50), wn_exe = ''game.exe''\<rparr>"

definition good_capture :: capture_env where
  "good_capture = \<lparr>ce_acquire = Acquired, ce_retry = (\<lambda>_. (one_monitor, Acquired)), ce_texture = True, ce_map = True,
     ce_pitch = 7680, ce_nowUs = 5, ce_dt = 1\<rparr>"

theorem captured_frame_inside_witness:
  "\<exists>f. snd (dc_capture good_capture (fold dc_handle [DcInit one_monitor True 0, DcWindow (Some game_window)] DisplayCapture_new)) = Captured f \<and>
     cf_width f = 700 \<and> cf_offset f + (cf_height f - 1) * cf_stride f + 4 * cf_width f \<le> 1080 * 7680"
proof -
  let ?s = "fold dc_handle [DcInit one_monitor True 0, DcWindow (Some game_window)] DisplayCapture_new"
  let ?f = "\<lparr>cf_offset = 384000, cf_width = 700, cf_height = 600, cf_stride = 7680, cf_timestampUs = 5, cf_frameId = 1\<rparr>"
  have c: "snd (dc_capture good_capture ?s) = Captured ?f" and st: "dc_staging (fst (dc_capture good_capture ?s)) = Some (1920, 1080)"
    by code_simp+
  have p: "4 * 1920 \<le> ce_pitch good_capture" "0 \<le> ce_pitch good_capture" "1 \<le> cf_height ?f" by (simp_all add: good_capture_def)
  have cap: "dc_capture good_capture ?s = (fst (dc_capture good_capture ?s), Captured ?f)" using c by (simp add: prod_eq_iff)
  have "ce_pitch good_capture = 7680" by (simp add: good_capture_def)
  then show ?thesis using captured_frame_inside [OF refl cap st p] c by (intro exI [of _ ?f]) simp
qed

section \<open>Output indices\<close>

definition attached_outputs :: "adapters \<Rightarrow> dxgi_output list" where
  "attached_outputs ads = map the (filter usable_output (concat ads))"

definition output_info :: "int \<Rightarrow> dxgi_output \<Rightarrow> OutputInfo" where
  "output_info i d = \<lparr>oi_index = i, oi_name = do_name d, oi_width = rc_right (do_rect d) - rc_left (do_rect d),
     oi_height = rc_bottom (do_rect d) - rc_top (do_rect d)\<rparr>"

definition infos :: "dxgi_output list \<Rightarrow> OutputInfo list" where
  "infos ds = map (\<lambda>i. output_info (int i) (ds ! i)) [0..<length ds]"

lemma infos_snoc: "infos (ds @ [d]) = infos ds @ [output_info (int (length ds)) d]"
  by (auto simp: infos_def nth_append)

lemma list_outputs_infos:
  "list_outputs xs (infos ds) = infos (ds @ map the (filter usable_output xs))"
proof (induction xs arbitrary: ds)
  case (Cons x xs)
  show ?case
  proof (cases "usable_output x")
    case True
    then obtain d where d: "x = Some d" "do_attached d" by (cases x) auto
    have "list_outputs (x # xs) (infos ds) = list_outputs xs (infos (ds @ [d]))"
      using d by (simp add: infos_snoc output_info_def) (simp add: infos_def)
    then show ?thesis using Cons.IH [of "ds @ [d]"] d by simp
  next
    case False
    then show ?thesis using Cons.IH [of ds] by (cases x) auto
  qed
qed simp

lemma enumerate_infos: "fold list_outputs ads (infos ds) = infos (ds @ attached_outputs ads)"
proof (induction ads arbitrary: ds)
  case (Cons ad ads)
  then show ?case by (simp add: list_outputs_infos attached_outputs_def)
qed (simp add: attached_outputs_def)

lemma find_in_adapter_index:
  assumes "glob \<le> idx"
  shows "find_in_adapter xs idx glob =
    (let ds = map the (filter usable_output xs)
     in if nat (idx - glob) < length ds then Inl (ds ! nat (idx - glob)) else Inr (glob + int (length ds)))"
  using assms
proof (induction xs arbitrary: glob)
  case (Cons x xs)
  show ?case
  proof (cases "usable_output x")
    case True
    then obtain d where d: "x = Some d" "do_attached d" by (cases x) auto
    show ?thesis
    proof (cases "glob = idx")
      case False
      then have "nat (idx - glob) = Suc (nat (idx - (glob + 1)))" "glob + 1 \<le> idx" using Cons.prems by auto
      then show ?thesis using Cons.IH [of "glob + 1"] d False by (simp add: Let_def)
    qed (simp add: d)
  next
    case False
    then show ?thesis using Cons.IH [of glob] Cons.prems by (cases x) auto
  qed
qed simp

lemma find_output_index:
  assumes "glob \<le> idx"
  shows "map_option snd (find_output ads a idx glob) =
    (if nat (idx - glob) < length (attached_outputs ads) then Some (attached_outputs ads ! nat (idx - glob)) else None)"
  using assms
proof (induction ads arbitrary: a glob)
  case (Cons ad ads)
  let ?ds = "map the (filter usable_output ad)"
  have at: "attached_outputs (ad # ads) = ?ds @ attached_outputs ads" by (simp add: attached_outputs_def)
  show ?case
  proof (cases "nat (idx - glob) < length ?ds")
    case True
    then show ?thesis using find_in_adapter_index [OF Cons.prems, of ad] at by (simp add: Let_def nth_append)
  next
    case False
    then have "glob + int (length ?ds) \<le> idx" "nat (idx - glob) = length ?ds + nat (idx - (glob + int (length ?ds)))"
      using Cons.prems by linarith+
    then show ?thesis using False Cons.IH [of "glob + int (length ?ds)" "a + 1"] find_in_adapter_index [OF Cons.prems, of ad] at
      by (simp add: Let_def nth_append)
  qed
qed (simp add: attached_outputs_def)

text \<open>An output index means the same everywhere: initialising the capture with the index at which the
  list of outputs shows a monitor selects that monitor, and an index outside the list is refused.\<close>

theorem output_index_agrees:
  "map_option (\<lambda>(a, d). output_info (int i) d) (find_output ads 0 (int i) 0) =
   (if i < length (enumerateOutputs (Some ads)) then Some (enumerateOutputs (Some ads) ! i) else None)"
proof -
  have e: "enumerateOutputs (Some ads) = infos (attached_outputs ads)"
    using enumerate_infos [of ads "[]"] by (simp add: enumerateOutputs_def infos_def)
  have "map_option (\<lambda>(a, d). output_info (int i) d) (find_output ads 0 (int i) 0) =
      map_option (output_info (int i)) (map_option snd (find_output ads 0 (int i) 0))"
    by (cases "find_output ads 0 (int i) 0") auto
  then show ?thesis unfolding find_output_index [of 0 "int i", simplified] e by (auto simp: infos_def)
qed

text \<open>Without a place for the message, a monitor that cannot be duplicated crashes the initialisation; a
  minimised window is reported like one that is gone.\<close>

lemma duplicate_failure_crashes:
  assumes "dx_factory env = Some ads" and "find_output ads 0 idx 0 = Some (a, d)" and "dx_adapter env" "dx_device env" "dx_desc env" "dx_output1 env"
    and "dx_duplicate env = Some why"
  shows "snd (dc_init env False idx s) = InitCrash" and "snd (dc_init env True idx s) = InitError why"
  using assms by (simp_all add: dc_init_def Let_def)

lemma minimised_window_refused: "wn_iconic v \<Longrightarrow> updateWindowCrop (Some v) s = (s, False)"
  by (simp add: updateWindowCrop_def)

lemma init_uncropped:
  "dc_init env errp idx s = (t, InitOk) \<Longrightarrow> dc_cropX t = 0 \<and> dc_cropY t = 0 \<and> dc_outWidth t = dc_monWidth t \<and> dc_outHeight t = dc_monHeight t"
  by (auto simp: dc_init_def Let_def split: option.splits prod.splits if_splits)

lemma recover_uncropped:
  "recover tries s = (t, Acquired) \<Longrightarrow> dc_cropX t = 0 \<and> dc_cropY t = 0 \<and> dc_outWidth t = dc_monWidth t \<and> dc_outHeight t = dc_monHeight t"
  by (induction tries s rule: recover.induct) (auto split: prod.splits init_result.splits acquire.splits dest!: init_uncropped)

text \<open>The frame captured after the duplication was lost and recovered shows the whole monitor, whatever
  window the stream is cropped to.\<close>

theorem recovered_frame_is_whole_monitor:
  assumes "ce_acquire env = AccessLost" and "dc_capture env s = (t, Captured f)"
  shows "cf_offset f = 0 \<and> cf_width f = dc_monWidth t \<and> cf_height f = dc_monHeight t"
proof -
  obtain r where r: "recover (map (ce_retry env) [0, 1, 2]) (s\<lparr>dc_accessLost := dc_accessLost s + 1\<rparr>) = (r, Acquired)"
    and "take_frame env r = (t, Captured f)"
    using assms by (auto simp: dc_capture_def split: if_splits prod.splits acquire.splits)
  then show ?thesis using recover_uncropped [OF r] by (auto simp: take_frame_def Let_def split: if_splits)
qed

end
