(* ===== verification/UdpProtocol.thy ===== *)
theory UdpProtocol
  imports RP_Prelude
begin

text \<open>
  The first half of \<^verbatim>\<open>networking/UdpProtocol.h\<close> and \<^verbatim>\<open>.cpp\<close>: the 31-byte datagram header, the number
  of fragments of a frame, and the loss accounting of \<^verbatim>\<open>SequenceTracker\<close>. Sequence numbers,
  counters and the fragment count keep their C++ width, so every wrap-around of the code is one of
  the model. The \<^verbatim>\<open>memcpy\<close> of an integer on the little-endian targets is \<open>le_put\<close>/\<open>le_get\<close>.
\<close>

section \<open>Datagram header\<close>

type_synonym UdpType = u8

definition UdpType_Video :: UdpType where "UdpType_Video = 0"
definition UdpType_Audio :: UdpType where "UdpType_Audio = 1"
definition UdpType_Input :: UdpType where "UdpType_Input = 2"
definition UdpType_Control :: UdpType where "UdpType_Control = 3"
definition UdpType_Ping :: UdpType where "UdpType_Ping = 4"
definition UdpType_Pong :: UdpType where "UdpType_Pong = 5"
definition UdpType_KeyframeRequest :: UdpType where "UdpType_KeyframeRequest = 6"
definition UdpType_StreamStart :: UdpType where "UdpType_StreamStart = 7"
definition UdpType_StreamStop :: UdpType where "UdpType_StreamStop = 8"

definition UdpFlag_Fragment :: u8 where "UdpFlag_Fragment = 0x01"
definition UdpFlag_Keyframe :: u8 where "UdpFlag_Keyframe = 0x02"
definition UdpFlag_Encrypted :: u8 where "UdpFlag_Encrypted = 0x04"

lemmas UdpType_defs = UdpType_Video_def UdpType_Audio_def UdpType_Input_def UdpType_Control_def
  UdpType_Ping_def UdpType_Pong_def UdpType_KeyframeRequest_def UdpType_StreamStart_def
  UdpType_StreamStop_def

lemmas UdpFlag_defs = UdpFlag_Fragment_def UdpFlag_Keyframe_def UdpFlag_Encrypted_def

definition kUdpMagic :: u16 where "kUdpMagic = 0x5252"
definition kUdpVersion :: u8 where "kUdpVersion = 0x01"
definition kUdpHeaderSize :: nat where "kUdpHeaderSize = 2 + 1 + 1 + 1 + 4 + 8 + 2 + 2 + 8 + 2"
definition kMaxUdpPayload :: nat where "kMaxUdpPayload = 1100"
definition kMaxFragments :: u16 where "kMaxFragments = 1024"

record UdpHeader =
  uh_magic :: u16
  uh_version :: u8
  uh_type :: u8
  uh_flags :: u8
  uh_sessionId :: u32
  uh_sequence :: u64
  uh_fragmentIndex :: u16
  uh_fragmentCount :: u16
  uh_timestampNs :: u64
  uh_payloadSize :: u16

definition UdpHeader_default :: UdpHeader where
  "UdpHeader_default = \<lparr>uh_magic = kUdpMagic, uh_version = kUdpVersion, uh_type = 0, uh_flags = 0,
     uh_sessionId = 0, uh_sequence = 0, uh_fragmentIndex = 0, uh_fragmentCount = 1,
     uh_timestampNs = 0, uh_payloadSize = 0\<rparr>"

definition encodeUdpHeader :: "UdpHeader \<Rightarrow> bytes" where
  "encodeUdpHeader h =
     le_put 2 (uh_magic h) @ [uh_version h] @ [uh_type h] @ [uh_flags h] @
     le_put 4 (uh_sessionId h) @ le_put 8 (uh_sequence h) @ le_put 2 (uh_fragmentIndex h) @
     le_put 2 (uh_fragmentCount h) @ le_put 8 (uh_timestampNs h) @ le_put 2 (uh_payloadSize h)"

text \<open>\<open>parse_fields\<close> reads the fields at their offsets; \<open>decodeUdpHeader\<close> has the checks of the code in
  their order, \<^verbatim>\<open>false\<close> being \<open>None\<close> (the caller discards \<^verbatim>\<open>out\<close> then).\<close>

definition parse_fields :: "bytes \<Rightarrow> UdpHeader" where
  "parse_fields buf =
     \<lparr>uh_magic = le_get 2 buf, uh_version = buf ! 2, uh_type = buf ! 3, uh_flags = buf ! 4,
      uh_sessionId = le_get 4 (drop 5 buf), uh_sequence = le_get 8 (drop 9 buf),
      uh_fragmentIndex = le_get 2 (drop 17 buf), uh_fragmentCount = le_get 2 (drop 19 buf),
      uh_timestampNs = le_get 8 (drop 21 buf), uh_payloadSize = le_get 2 (drop 29 buf)\<rparr>"

definition decodeUdpHeader :: "bytes \<Rightarrow> UdpHeader option" where
  "decodeUdpHeader buf =
     (if length buf < kUdpHeaderSize then None
      else let out = parse_fields buf in
      if uh_magic out \<noteq> kUdpMagic then None
      else if uh_version out \<noteq> kUdpVersion then None
      else if uh_type out > 8 then None
      else if length buf < kUdpHeaderSize + unat (uh_payloadSize out) then None
      else if uh_fragmentCount out = 0 \<or> uh_fragmentCount out > kMaxFragments then None
      else if uh_fragmentIndex out \<ge> uh_fragmentCount out then None
      else Some out)"

definition fragmentCountFor :: "nat \<Rightarrow> u16" where
  "fragmentCountFor sz =
     (if sz = 0 then 1
      else let n = of_nat ((sz + kMaxUdpPayload - 1) div kMaxUdpPayload) :: u16
           in if n < 1 then 1 else n)"

record AssembledFrame =
  af_type :: UdpType
  af_sessionId :: u32
  af_sequence :: u64
  af_timestampNs :: u64
  af_keyframe :: bool
  af_data :: bytes

definition hasFlag :: "u8 \<Rightarrow> u8 \<Rightarrow> bool" where
  "hasFlag flags f \<longleftrightarrow> flags AND f \<noteq> 0"

section \<open>Loss accounting\<close>

record SequenceTracker =
  st_highest :: u64
  st_initialized :: bool
  st_duplicates :: u64
  st_lost :: u64
  st_late :: u64
  st_received :: u64
  st_seenWindow :: "u64 list"
  st_seenMask :: u64

definition SequenceTracker_new :: SequenceTracker where
  "SequenceTracker_new =
     \<lparr>st_highest = 0, st_initialized = False, st_duplicates = 0, st_lost = 0, st_late = 0,
      st_received = 0, st_seenWindow = replicate 64 0, st_seenMask = 0\<rparr>"

definition kLateWindow :: u64 where "kLateWindow = 64"

definition st_mark :: "u64 \<Rightarrow> SequenceTracker \<Rightarrow> SequenceTracker" where
  "st_mark seq t =
     (let slot = unat (seq mod 64) in
      t\<lparr>st_seenWindow := (st_seenWindow t)[slot := seq],
        st_seenMask := st_seenMask t OR push_bit slot 1\<rparr>)"

definition track :: "u64 \<Rightarrow> SequenceTracker \<Rightarrow> SequenceTracker \<times> int" where
  "track seq t =
     (let t = t\<lparr>st_received := st_received t + 1\<rparr>; slot = unat (seq mod 64) in
      if \<not> st_initialized t then
        (st_mark seq (t\<lparr>st_initialized := True, st_highest := seq\<rparr>), 0)
      else if seq > st_highest t then
        let gap = seq - st_highest t;
            t = (if gap > 1 then t\<lparr>st_lost := st_lost t + (gap - 1)\<rparr> else t)
        in (st_mark seq (t\<lparr>st_highest := seq\<rparr>), sint gap)
      else if seq + kLateWindow < st_highest t then
        (t\<lparr>st_late := st_late t + 1\<rparr>, -1)
      else if drop_bit slot (st_seenMask t) AND 1 \<noteq> 0 \<and> st_seenWindow t ! slot = seq then
        (t\<lparr>st_duplicates := st_duplicates t + 1\<rparr>, 1)
      else
        ((st_mark seq t)\<lparr>st_late := st_late t + 1\<rparr>, 0))"

definition track_reset :: "SequenceTracker \<Rightarrow> SequenceTracker" where
  "track_reset t = SequenceTracker_new"

definition track_all :: "u64 list \<Rightarrow> SequenceTracker" where
  "track_all ss = fold (\<lambda>s t. fst (track s t)) ss SequenceTracker_new"

section \<open>Header lemmas\<close>

lemma length_encodeUdpHeader [simp]: "length (encodeUdpHeader h) = kUdpHeaderSize"
  by (simp add: encodeUdpHeader_def kUdpHeaderSize_def)

lemma parse_fields_encode: "parse_fields (encodeUdpHeader h @ rest) = h"
  by (simp add: parse_fields_def encodeUdpHeader_def nth_append)

lemma le_put_get_drop:
  assumes "k + n \<le> length buf" and "8 * n \<le> LENGTH('a)"
  shows "le_put n (le_get n (drop k buf) :: 'a::len word) = take n (drop k buf)"
  using le_put_get [of "take n (drop k buf)" n, where 'a = 'a] assms by (simp add: le_get_take)

lemma encode_parse_fields:
  assumes "kUdpHeaderSize \<le> length buf"
  shows "encodeUdpHeader (parse_fields buf) = take kUdpHeaderSize buf"
proof -
  have one: "[buf ! k] = take 1 (drop k buf)" if "k < kUdpHeaderSize" for k
    using that assms by (simp add: take_Suc_conv_app_nth)
  have "take kUdpHeaderSize buf =
      take 2 (drop 0 buf) @ take 1 (drop 2 buf) @ take 1 (drop 3 buf) @ take 1 (drop 4 buf) @
      take 4 (drop 5 buf) @ take 8 (drop 9 buf) @ take 2 (drop 17 buf) @ take 2 (drop 19 buf) @
      take 8 (drop 21 buf) @ take 2 (drop 29 buf)"
    by (simp add: kUdpHeaderSize_def take_add [symmetric] flip: append_assoc)
  then show ?thesis
    using assms one [of 2] one [of 3] one [of 4] le_put_get_drop [of 0 2 buf, where 'a = 16]
    by (simp add: encodeUdpHeader_def parse_fields_def le_put_get_drop kUdpHeaderSize_def)
qed

definition udp_header_ok :: "UdpHeader \<Rightarrow> bool" where
  "udp_header_ok h \<longleftrightarrow> uh_magic h = kUdpMagic \<and> uh_version h = kUdpVersion \<and> uh_type h \<le> 8 \<and>
     0 < uh_fragmentCount h \<and> uh_fragmentCount h \<le> kMaxFragments \<and>
     uh_fragmentIndex h < uh_fragmentCount h"

lemma decodeUdpHeader_iff:
  "decodeUdpHeader d = Some h \<longleftrightarrow>
     udp_header_ok h \<and>
     (\<exists>rest. d = encodeUdpHeader h @ rest \<and> unat (uh_payloadSize h) \<le> length rest)"
proof
  assume dec: "decodeUdpHeader d = Some h"
  then have h: "h = parse_fields d" and len: "kUdpHeaderSize + unat (uh_payloadSize h) \<le> length d"
    and ok: "udp_header_ok h"
    by (auto simp: decodeUdpHeader_def Let_def udp_header_ok_def word_neq_0_conv not_le not_less
        split: if_splits)
  have "d = encodeUdpHeader h @ drop kUdpHeaderSize d"
    using encode_parse_fields [of d] len h by simp
  with ok len show "udp_header_ok h \<and>
      (\<exists>rest. d = encodeUdpHeader h @ rest \<and> unat (uh_payloadSize h) \<le> length rest)"
    by (intro conjI exI [of _ "drop kUdpHeaderSize d"]) auto
next
  assume "udp_header_ok h \<and>
      (\<exists>rest. d = encodeUdpHeader h @ rest \<and> unat (uh_payloadSize h) \<le> length rest)"
  then show "decodeUdpHeader d = Some h"
    by (auto simp: decodeUdpHeader_def parse_fields_encode udp_header_ok_def)
qed

section \<open>Fragment counts\<close>

text \<open>Below the 16-bit limit the count is the exact quotient, rounded up.\<close>

lemma fragmentCountFor_exact:
  assumes "0 < sz" and "sz \<le> 65535 * kMaxUdpPayload"
  shows "unat (fragmentCountFor sz) = (sz + kMaxUdpPayload - 1) div kMaxUdpPayload"
proof -
  let ?n = "(sz + kMaxUdpPayload - 1) div kMaxUdpPayload"
  have pos: "0 < ?n" using assms by (simp add: kMaxUdpPayload_def div_greater_zero_iff)
  have "?n \<le> 65535" using assms by (simp add: kMaxUdpPayload_def)
  then have n: "unat (of_nat ?n :: u16) = ?n" by (simp add: unat_of_nat)
  then have "\<not> (of_nat ?n :: u16) < 1" using pos by (simp add: word_less_nat_alt)
  then show ?thesis using assms(1) n by (simp add: fragmentCountFor_def Let_def)
qed

section \<open>Tracker lemmas\<close>

lemma word_le_1_cases: "\<not> (1 < (x :: 'a::len word)) \<Longrightarrow> x = 0 \<or> x = 1"
  by (metis le_less not_less word_le_less_eq word_less_1 word_neq_0_conv)

lemma st_mark_simps [simp]:
  "st_highest (st_mark s t) = st_highest t" "st_initialized (st_mark s t) = st_initialized t"
  "st_duplicates (st_mark s t) = st_duplicates t" "st_lost (st_mark s t) = st_lost t"
  "st_late (st_mark s t) = st_late t" "st_received (st_mark s t) = st_received t"
  by (simp_all add: st_mark_def Let_def)

lemma track_counts:
  assumes "st_initialized t"
  shows "st_initialized (fst (track s t)) \<and>
    st_highest (fst (track s t)) = max (st_highest t) s \<and>
    st_highest (fst (track s t)) - st_lost (fst (track s t)) + st_duplicates (fst (track s t))
      + st_late (fst (track s t)) - st_received (fst (track s t))
    = st_highest t - st_lost t + st_duplicates t + st_late t - st_received t"
proof (cases "s > st_highest t")
  case True
  then have "s - st_highest t \<noteq> 0" by auto
  with word_le_1_cases [of "s - st_highest t"] True assms show ?thesis
    by (auto simp: track_def Let_def max_def algebra_simps)
next
  case False
  with assms show ?thesis by (auto simp: track_def Let_def max_def algebra_simps)
qed

lemma track_all_snoc: "track_all (ss @ [s]) = fst (track s (track_all ss))"
  by (simp add: track_all_def)

lemma track_first:
  "st_initialized (fst (track s SequenceTracker_new))" "st_highest (fst (track s SequenceTracker_new)) = s"
  "st_lost (fst (track s SequenceTracker_new)) = 0" "st_received (fst (track s SequenceTracker_new)) = 1"
  "st_duplicates (fst (track s SequenceTracker_new)) = 0" "st_late (fst (track s SequenceTracker_new)) = 0"
  by (simp_all add: track_def SequenceTracker_new_def)

lemma track_all_highest:
  "st_initialized (track_all (s0 # ss)) \<and> st_highest (track_all (s0 # ss)) = fold max ss s0"
proof (induction ss rule: rev_induct)
  case Nil
  then show ?case by (simp add: track_all_def track_first)
next
  case (snoc s ss)
  then show ?case
    using track_counts [of "track_all (s0 # ss)" s] track_all_snoc [of "s0 # ss" s]
    by (simp add: max.commute)
qed

lemma track_all_balance:
  "st_highest (track_all (s0 # ss)) - st_lost (track_all (s0 # ss))
     + st_duplicates (track_all (s0 # ss)) + st_late (track_all (s0 # ss))
     - st_received (track_all (s0 # ss)) = s0 - 1"
proof (induction ss rule: rev_induct)
  case Nil
  then show ?case by (simp add: track_all_def track_first)
next
  case (snoc s ss)
  have "track_all (s0 # ss @ [s]) = fst (track s (track_all (s0 # ss)))"
    using track_all_snoc [of "s0 # ss" s] by simp
  with snoc track_counts [OF conjunct1 [OF track_all_highest], THEN conjunct2, THEN conjunct2, of s s0 ss]
  show ?case by (simp only:)
qed

text \<open>The window only ever holds sequence numbers that were tracked.\<close>

definition window_sound :: "u64 set \<Rightarrow> SequenceTracker \<Rightarrow> bool" where
  "window_sound S t \<longleftrightarrow> length (st_seenWindow t) = 64 \<and>
     (\<forall>i < 64. bit (st_seenMask t) i \<longrightarrow> st_seenWindow t ! i \<in> S)"

lemma slot_less: "unat (seq mod 64 :: u64) < 64"
  by (simp add: unat_mod)

lemma drop_and_1: "(drop_bit i w AND 1 \<noteq> 0) \<longleftrightarrow> bit (w :: u64) i"
  by (simp add: and_one_eq bit_iff_odd_drop_bit mod_2_eq_odd)

lemma window_sound_mark:
  assumes "window_sound S t"
  shows "window_sound (insert seq S) (st_mark seq t)"
  using assms slot_less [of seq]
  by (auto simp: window_sound_def st_mark_def Let_def nth_list_update bit_or_iff bit_exp_iff)

lemma window_sound_mono: "window_sound S t \<Longrightarrow> window_sound (insert s S) t"
  by (auto simp: window_sound_def)

lemma track_cases:
  obtains (mark) t' where "fst (track s t) = st_mark s t' \<or> fst (track s t) = (st_mark s t')\<lparr>st_late := st_late t + 1\<rparr>"
      "st_seenWindow t' = st_seenWindow t" "st_seenMask t' = st_seenMask t"
      "st_duplicates t' = st_duplicates t"
  | (late) "fst (track s t) = t\<lparr>st_received := st_received t + 1, st_late := st_late t + 1\<rparr>"
  | (dup) "fst (track s t) = t\<lparr>st_received := st_received t + 1, st_duplicates := st_duplicates t + 1\<rparr>"
      "bit (st_seenMask t) (unat (s mod 64))" "st_seenWindow t ! unat (s mod 64) = s"
proof -
  let ?r = "t\<lparr>st_received := st_received t + 1\<rparr>"
  consider "\<not> st_initialized t" | "st_initialized t" "s > st_highest t"
    | "st_initialized t" "\<not> s > st_highest t" "s + kLateWindow < st_highest t"
    | "st_initialized t" "\<not> s > st_highest t" "\<not> s + kLateWindow < st_highest t"
        "bit (st_seenMask t) (unat (s mod 64)) \<and> st_seenWindow t ! unat (s mod 64) = s"
    | "st_initialized t" "\<not> s > st_highest t" "\<not> s + kLateWindow < st_highest t"
        "\<not> (bit (st_seenMask t) (unat (s mod 64)) \<and> st_seenWindow t ! unat (s mod 64) = s)"
    by blast
  then show ?thesis
  proof cases
    case 1
    then show ?thesis
      by (intro mark [of "?r\<lparr>st_initialized := True, st_highest := s\<rparr>"]) (simp_all add: track_def)
  next
    case 2
    then show ?thesis
      by (intro mark [of "(if s - st_highest t > 1
            then ?r\<lparr>st_lost := st_lost t + (s - st_highest t - 1)\<rparr> else ?r)\<lparr>st_highest := s\<rparr>"])
        (simp_all add: track_def Let_def)
  next
    case 3
    then show ?thesis by (intro late) (simp add: track_def)
  next
    case 4
    then show ?thesis by (intro dup) (simp_all add: track_def Let_def drop_and_1)
  next
    case 5
    then show ?thesis by (intro mark [of ?r]) (auto simp: track_def Let_def drop_and_1)
  qed
qed

lemma window_sound_track:
  assumes "window_sound S t"
  shows "window_sound (insert s S) (fst (track s t))"
proof (cases s t rule: track_cases)
  case (mark t')
  then have "window_sound (insert s S) (st_mark s t')"
    using assms by (intro window_sound_mark) (simp add: window_sound_def)
  with mark(1) show ?thesis by (auto simp: window_sound_def)
next
  case late
  with assms show ?thesis by (auto simp: window_sound_def)
next
  case dup
  with assms show ?thesis by (auto simp: window_sound_def)
qed

lemma window_sound_all: "window_sound (set ss) (track_all ss)"
proof (induction ss rule: rev_induct)
  case Nil
  then show ?case by (simp add: track_all_def SequenceTracker_new_def window_sound_def)
next
  case (snoc s ss)
  then show ?case using window_sound_track [of "set ss" "track_all ss" s] by (simp add: track_all_snoc)
qed

text \<open>A number the window holds is recognised when it comes again.\<close>

definition st_seen :: "u64 \<Rightarrow> SequenceTracker \<Rightarrow> bool" where
  "st_seen s t \<longleftrightarrow> bit (st_seenMask t) (unat (s mod 64)) \<and> st_seenWindow t ! unat (s mod 64) = s"

lemma st_seen_mark: "length (st_seenWindow t) = 64 \<Longrightarrow> st_seen s (st_mark s t)"
  using slot_less [of s] by (simp add: st_seen_def st_mark_def Let_def bit_or_iff bit_exp_iff)

lemma st_seen_late [simp]: "st_seen s (t\<lparr>st_late := n\<rparr>) = st_seen s t"
  "st_seen s (t\<lparr>st_received := n\<rparr>) = st_seen s t" "st_seen s (t\<lparr>st_duplicates := n\<rparr>) = st_seen s t"
  by (simp_all add: st_seen_def)

lemma track_again:
  "st_initialized t \<Longrightarrow> \<not> st_highest t < s \<Longrightarrow> st_seen s t \<or> s + kLateWindow < st_highest t \<Longrightarrow>
   snd (track s t) \<in> {1, -1}"
  by (simp add: track_def Let_def drop_and_1 st_seen_def [symmetric]) blast

lemma track_settles:
  assumes "length (st_seenWindow t) = 64"
  shows "st_initialized (fst (track s t)) \<and> \<not> st_highest (fst (track s t)) < s \<and>
    (st_seen s (fst (track s t)) \<or> s + kLateWindow < st_highest (fst (track s t)))"
  using assms by (simp add: track_def Let_def drop_and_1 st_seen_mark st_seen_def [symmetric])

section \<open>Properties\<close>

text \<open>C25: \<open>decodeUdpHeader\<close> accepts a datagram exactly when it is the encoding of a header with the right
  magic, version and type, a consistent fragment index and a count of at most 1024, followed by
  at least \<open>payloadSize\<close> bytes; it then returns that header. So encoding and decoding are inverse
  and every malformed datagram is rejected.
\<close>

theorem decodeUdpHeader_characterisation:
  "decodeUdpHeader d = Some h \<longleftrightarrow>
     (uh_magic h = kUdpMagic \<and> uh_version h = kUdpVersion \<and> uh_type h \<le> 8 \<and>
      0 < uh_fragmentCount h \<and> uh_fragmentCount h \<le> 1024 \<and> uh_fragmentIndex h < uh_fragmentCount h \<and>
      (\<exists>rest. d = encodeUdpHeader h @ rest \<and> unat (uh_payloadSize h) \<le> length rest))"
  unfolding decodeUdpHeader_iff by (simp add: udp_header_ok_def kMaxFragments_def)

text \<open>The fragment count of every frame of at most 1024 fragments is exact (the payloads of that many
  fragments hold the frame and one fragment less does not), while a frame of \<open>65536 * 1100\<close> bytes
  wraps to a single fragment: the 16-bit count is only right below the limit the sender must keep.
\<close>

theorem fragmentCountFor_bounds:
  "(\<forall>sz. 0 < sz \<longrightarrow> sz \<le> 1024 * kMaxUdpPayload \<longrightarrow>
      sz \<le> unat (fragmentCountFor sz) * kMaxUdpPayload \<and>
      (unat (fragmentCountFor sz) - 1) * kMaxUdpPayload < sz \<and>
      fragmentCountFor sz \<le> kMaxFragments) \<and>
   fragmentCountFor (65536 * kMaxUdpPayload) = 1"
proof (intro conjI allI impI)
  fix sz :: nat
  assume sz: "0 < sz" "sz \<le> 1024 * kMaxUdpPayload"
  then have n: "unat (fragmentCountFor sz) = (sz + 1099) div 1100"
    using fragmentCountFor_exact [of sz] by (simp add: kMaxUdpPayload_def)
  show "sz \<le> unat (fragmentCountFor sz) * kMaxUdpPayload"
    unfolding n by (simp add: kMaxUdpPayload_def)
  show "(unat (fragmentCountFor sz) - 1) * kMaxUdpPayload < sz"
    unfolding n using sz by (simp add: kMaxUdpPayload_def)
  show "fragmentCountFor sz \<le> kMaxFragments"
    unfolding word_le_nat_alt n using sz by (simp add: kMaxUdpPayload_def kMaxFragments_def)
next
  show "fragmentCountFor (65536 * kMaxUdpPayload) = 1"
    by (simp add: fragmentCountFor_def kMaxUdpPayload_def)
qed

theorem fragmentCountFor_bounds_witness:
  "fragmentCountFor 2500 = 3 \<and> 2500 \<le> unat (fragmentCountFor 2500) * kMaxUdpPayload"
  using fragmentCountFor_bounds by (simp add: kMaxUdpPayload_def fragmentCountFor_def)

text \<open>The loss statistics are consistent after every history of received sequence numbers: the
  highest number is the maximum seen, and the distance from the first number to it is the number
  of losses reported plus the number of packets that advanced it (all arithmetic modulo \<open>2 ^ 64\<close>,
  as in the code).
\<close>

theorem track_accounting:
  "st_highest (track_all (s0 # ss)) = fold max ss s0 \<and>
   st_highest (track_all (s0 # ss)) - s0 =
     st_lost (track_all (s0 # ss)) +
     (st_received (track_all (s0 # ss)) - 1 - st_duplicates (track_all (s0 # ss))
       - st_late (track_all (s0 # ss)))"
  using track_all_balance [of s0 ss] conjunct2 [OF track_all_highest, of s0 ss]
  by (intro conjI) (simp_all add: algebra_simps)

text \<open>Duplicates are never invented: the duplicate counter only moves for a number that was tracked
  before; and a number repeated at once is always recognised as a repetition or as late.
\<close>

theorem track_duplicates_sound:
  "(st_duplicates (fst (track s (track_all ss))) \<noteq> st_duplicates (track_all ss) \<longrightarrow> s \<in> set ss) \<and>
   snd (track s (track_all (ss @ [s]))) \<in> {1, -1}"
proof
  show "st_duplicates (fst (track s (track_all ss))) \<noteq> st_duplicates (track_all ss) \<longrightarrow> s \<in> set ss"
    using window_sound_all [of ss] slot_less [of s]
    by (cases s "track_all ss" rule: track_cases) (auto simp: window_sound_def)
next
  let ?t = "track_all ss"
  have "length (st_seenWindow ?t) = 64" using window_sound_all [of ss] by (simp add: window_sound_def)
  then show "snd (track s (track_all (ss @ [s]))) \<in> {1, -1}"
    unfolding track_all_snoc using track_settles [of ?t s] by (intro track_again) simp_all
qed

theorem track_duplicates_sound_witness:
  "st_duplicates (fst (track 5 (track_all [5]))) \<noteq> st_duplicates (track_all [5]) \<and>
   (5 :: u64) \<in> set [5] \<and> snd (track 5 (track_all ([5] @ [5]))) \<in> {1, -1}"
proof -
  have "st_duplicates (fst (track 5 (track_all [5]))) \<noteq> st_duplicates (track_all [5])"
    by (simp add: track_all_def track_def SequenceTracker_new_def st_mark_def kLateWindow_def drop_and_1
        bit_or_iff bit_exp_iff Let_def)
  then show ?thesis using track_duplicates_sound [of 5 "[5]"] by blast
qed

end
