(* ===== verification/HostStreamer.thy ===== *)
theory HostStreamer
  imports HostCoordinator VideoEncoder ScreenCapture UdpProtocol
begin

text \<open>
  \<^verbatim>\<open>host/HostStreamer.h\<close> and \<^verbatim>\<open>host/HostStreamer.cpp\<close>: the media pipeline of one client: the UDP transport, the
  capture, the encoder and the audio path, started and stopped together, and the capture thread's loop.
  The capture and the encoder are the models of their theories; the transport is its outputs. One pass
  of the loop is one function, whose arguments are the answers of the platform during the pass; a call
  that would follow a null error pointer sets \<open>sr_crashed\<close>.

  The theorems: a stop leaves nothing behind and a failed start of a fresh streamer neither; a capture
  that keeps failing ends the loop after at most ten passes; a minimised game window makes the stream
  show the whole monitor; the recovery of a failed AV1 encoder streams H.264; a monitor that cannot be
  duplicated during recovery crashes the loop.
\<close>

section \<open>State\<close>

datatype sr_output =
    SrSendFrame UdpType bool bytes u64
  | SrSendStreamStart
  | SrSendStreamStop
  | SrTransportStop
  | SrOnStreamStart u16 u32
  | SrError string
  | SrSetPeer string u16
  | SrSetInput
  | SrRumble u8 u8 u8

record HostStreamer =
  sr_cfg :: StreamConfig
  sr_sessionId :: u32
  sr_playerIndex :: u8
  sr_capture :: "DisplayCapture option"
  sr_encoder :: "VideoEncoder option"
  sr_transport :: "u16 option"
  sr_audioCapture :: bool
  sr_audioEncoder :: bool
  sr_thread :: bool
  sr_running :: bool
  sr_restartRequested :: bool
  sr_forcedEncoder :: string
  sr_failures :: nat
  sr_loop :: bool
  sr_framesWindow :: nat
  sr_bytesWindow :: nat
  sr_windowStart :: rat
  sr_fps :: rat
  sr_kbps :: rat
  sr_crashed :: bool
  sr_out :: "sr_output list"

text \<open>\<open>sr_thread\<close>: the capture thread is joinable; \<open>sr_loop\<close>: its loop has not ended; \<open>sr_failures\<close>: the loop's
  counter of consecutive capture failures.\<close>

definition HostStreamer_new :: "StreamConfig \<Rightarrow> HostStreamer" where
  "HostStreamer_new cfg = \<lparr>sr_cfg = cfg, sr_sessionId = 0, sr_playerIndex = 0, sr_capture = None, sr_encoder = None, sr_transport = None,
     sr_audioCapture = False, sr_audioEncoder = False, sr_thread = False, sr_running = False, sr_restartRequested = False,
     sr_forcedEncoder = [], sr_failures = 0, sr_loop = False, sr_framesWindow = 0, sr_bytesWindow = 0, sr_windowStart = 0,
     sr_fps = 0, sr_kbps = 0, sr_crashed = False, sr_out = []\<rparr>"

definition sr_emit :: "sr_output list \<Rightarrow> HostStreamer \<Rightarrow> HostStreamer" where
  "sr_emit outs s = s\<lparr>sr_out := sr_out s @ outs\<rparr>"

definition kMaxConsecutiveCaptureFailures :: nat where "kMaxConsecutiveCaptureFailures = 10"

section \<open>Starting and stopping\<close>

definition encoder_params :: "StreamConfig \<Rightarrow> int \<Rightarrow> string \<Rightarrow> VideoEncoderParams" where
  "encoder_params cfg kbps forced = \<lparr>vp_codec = sg_codec cfg, vp_width = sint (sg_width cfg), vp_height = sint (sg_height cfg),
     vp_fps = sint (sg_fps cfg), vp_bitrateKbps = kbps,
     vp_gop = (if sint (sg_gop cfg) > 0 then sint (sg_gop cfg) else sint (sg_fps cfg) * 2), vp_preferredEncoder = forced\<rparr>"

record start_env =
  se_bind :: "u16 option"
  se_dxgi :: dxgi_env
  se_open :: FfOpen
  se_opus :: bool
  se_loopback :: bool
  se_now :: rat

definition start_audio :: "start_env \<Rightarrow> HostStreamer \<Rightarrow> HostStreamer" where
  "start_audio env s =
     (if \<not> sg_audioEnabled (sr_cfg s) then s
      else if \<not> se_opus env then s\<lparr>sr_audioCapture := True, sr_audioEncoder := False\<rparr>
      else s\<lparr>sr_audioCapture := se_loopback env, sr_audioEncoder := se_loopback env\<rparr>)"

definition sr_start :: "start_env \<Rightarrow> StreamConfig \<Rightarrow> u32 \<Rightarrow> u8 \<Rightarrow> HostStreamer \<Rightarrow> HostStreamer \<times> bool" where
  "sr_start env cfg sid player s =
     (if sr_running s then (s\<lparr>sr_running := False\<rparr>, False)
      else
        let s = s\<lparr>sr_running := True, sr_cfg := cfg, sr_sessionId := sid, sr_playerIndex := player\<rparr>
        in case se_bind env of
             None \<Rightarrow> (s\<lparr>sr_running := False\<rparr>, False)
           | Some port \<Rightarrow>
               let s = s\<lparr>sr_transport := Some port\<rparr>
               in case dc_init (se_dxgi env) True (sg_outputIndex cfg) DisplayCapture_new of
                    (d, InitOk) \<Rightarrow>
                      (case ve_init (se_open env) (encoder_params cfg (sint (sg_bitrateKbps cfg)) (sr_forcedEncoder s)) VideoEncoder_new of
                         (e, Some why) \<Rightarrow>
                           ((sr_emit [SrTransportStop] s)\<lparr>sr_transport := None, sr_capture := None, sr_running := False\<rparr>, False)
                       | (e, None) \<Rightarrow>
                           let s = s\<lparr>sr_capture := Some d, sr_encoder := Some e, sr_framesWindow := 0, sr_bytesWindow := 0,
                                     sr_windowStart := se_now env, sr_fps := 0, sr_kbps := 0\<rparr>;
                               s = start_audio env (sr_emit [SrOnStreamStart port sid, SrSendStreamStart] s)
                           in (s\<lparr>sr_restartRequested := False, sr_thread := True, sr_loop := True, sr_failures := 0\<rparr>, True))
                  | (d, _) \<Rightarrow>
                      ((sr_emit [SrTransportStop] s)\<lparr>sr_transport := None, sr_capture := None, sr_running := False\<rparr>, False))"

text \<open>The join waits for the loop, which sees the cleared flag.\<close>

definition sr_stop :: "HostStreamer \<Rightarrow> HostStreamer" where
  "sr_stop s =
     (let wasRunning = sr_running s;
          s = s\<lparr>sr_running := False\<rparr>;
          s = (if wasRunning \<and> sr_transport s \<noteq> None then sr_emit [SrSendStreamStop] s else s);
          s = s\<lparr>sr_thread := False, sr_loop := False\<rparr>
      in if \<not> wasRunning \<and> \<not> sr_audioCapture s \<and> \<not> sr_audioEncoder s \<and> sr_capture s = None \<and> sr_encoder s = None \<and> sr_transport s = None
         then s
         else
           let s = s\<lparr>sr_audioEncoder := False, sr_audioCapture := False, sr_encoder := None\<rparr>;
               s = (if sr_transport s \<noteq> None then sr_emit [SrTransportStop] s else s)
           in s\<lparr>sr_transport := None, sr_capture := None\<rparr>)"

section \<open>The capture loop\<close>

definition performEncoderRestart :: "FfOpen \<Rightarrow> HostStreamer \<Rightarrow> HostStreamer \<times> string option" where
  "performEncoderRestart ff s =
     (if \<not> sr_running s \<or> sr_capture s = None then (s, Some ''not running'')
      else
        let kbps = (case sr_encoder s of Some e \<Rightarrow> vp_bitrateKbps (ve_p e) | None \<Rightarrow> sint (sg_bitrateKbps (sr_cfg s)))
        in case ve_init ff (encoder_params (sr_cfg s) kbps (sr_forcedEncoder s)) VideoEncoder_new of
             (e, Some why) \<Rightarrow> (s, Some why)
           | (e, None) \<Rightarrow> (s\<lparr>sr_encoder := Some e\<rparr>, None))"

text \<open>The platform's answers during one pass: FFmpeg for the restart and for the fallback, the window, the
  capture, the encoding, the re-initialisation after a failure, the reopening for a new bitrate, the
  clock, and the message of a failed capture.\<close>

record pass_env =
  pe_open :: FfOpen
  pe_fallback :: FfOpen
  pe_window :: "window option"
  pe_capture :: capture_env
  pe_encode :: FfEncode
  pe_reinit :: dxgi_env
  pe_reopen :: FfOpen
  pe_now :: rat
  pe_err :: string

definition restart_if_requested :: "pass_env \<Rightarrow> HostStreamer \<Rightarrow> HostStreamer" where
  "restart_if_requested env s =
     (if \<not> sr_restartRequested s then s
      else
        let s = s\<lparr>sr_restartRequested := False\<rparr>
        in case performEncoderRestart (pe_open env) s of
             (s, None) \<Rightarrow> s
           | (s, Some rerr) \<Rightarrow>
               let s = (sr_emit [SrError (''Encoder restart failed: '' @ rerr)] s)\<lparr>sr_forcedEncoder :=
                          (if sg_codec (sr_cfg s) = Hevc then ''libx265'' else ''libx264'')\<rparr>
               in case performEncoderRestart (pe_fallback env) s of
                    (s, None) \<Rightarrow> s
                  | (s, Some rerr) \<Rightarrow> sr_emit [SrError (''Encoder recovery failed: '' @ rerr)] (s\<lparr>sr_running := False, sr_loop := False\<rparr>))"

definition refresh_crop :: "pass_env \<Rightarrow> HostStreamer \<Rightarrow> DisplayCapture \<Rightarrow> HostStreamer \<times> DisplayCapture" where
  "refresh_crop env s d =
     (if sg_captureMode (sr_cfg s) = CaptureMode_Window \<and> sg_windowHwnd (sr_cfg s) \<noteq> 0
      then case updateWindowCrop (pe_window env) d of
             (d, True) \<Rightarrow> (s, d)
           | (d, False) \<Rightarrow> (s\<lparr>sr_cfg := (sr_cfg s)\<lparr>sg_captureMode := CaptureMode_Monitor\<rparr>\<rparr>, clearCrop d)
      else (s, d))"

definition capture_failed :: "pass_env \<Rightarrow> DisplayCapture \<Rightarrow> HostStreamer \<Rightarrow> HostStreamer" where
  "capture_failed env d s =
     (let n = sr_failures s + 1; s = s\<lparr>sr_failures := n, sr_capture := Some d\<rparr>
      in if n \<ge> kMaxConsecutiveCaptureFailures
         then sr_emit [SrError (''Screen capture failed repeatedly: '' @ pe_err env @
                ''. The stream has been stopped (another capture app or a secure desktop may be blocking it).'')]
                (s\<lparr>sr_running := False, sr_loop := False\<rparr>)
         else case dc_init (pe_reinit env) False (sg_outputIndex (sr_cfg s)) d of
                (d, InitCrash) \<Rightarrow> s\<lparr>sr_crashed := True, sr_loop := False\<rparr>
              | (d, _) \<Rightarrow> s\<lparr>sr_capture := Some d\<rparr>)"

definition measure_window :: "rat \<Rightarrow> EncodedPacket list \<Rightarrow> HostStreamer \<Rightarrow> HostStreamer" where
  "measure_window now pks s =
     (let frames = sr_framesWindow s + length pks; nbytes = sr_bytesWindow s + sum_list (map (length \<circ> ep_data) pks);
          ms = now - sr_windowStart s
      in if ms \<ge> 1000
         then s\<lparr>sr_fps := rat_of_nat frames * 1000 / ms, sr_kbps := rat_of_nat nbytes * 8 / 1000 / (ms / 1000),
                sr_framesWindow := 0, sr_bytesWindow := 0, sr_windowStart := now\<rparr>
         else s\<lparr>sr_framesWindow := frames, sr_bytesWindow := nbytes\<rparr>)"

definition encode_and_send :: "pass_env \<Rightarrow> CaptureFrame \<Rightarrow> VideoEncoder \<Rightarrow> HostStreamer \<Rightarrow> HostStreamer" where
  "encode_and_send env f e s =
     (case ve_encode (pe_encode env) (cf_width f) (cf_height f) e of
        (e, Encoded pks True) \<Rightarrow>
          let s = sr_emit (map (\<lambda>p. SrSendFrame UdpType_Video (ep_keyframe p) (ep_data p) (cf_timestampUs f * 1000)) pks) s;
              s = measure_window (pe_now env) pks s
          in s\<lparr>sr_encoder := Some (if ve_bitrateDirty e then fst (applyBitrateIfDirty (pe_reopen env) e) else e)\<rparr>
      | (e, OutOfBounds) \<Rightarrow> s\<lparr>sr_crashed := True, sr_loop := False\<rparr>
      | (e, _) \<Rightarrow> s\<lparr>sr_encoder := Some e, sr_restartRequested := True\<rparr>)"

definition sr_pass :: "pass_env \<Rightarrow> HostStreamer \<Rightarrow> HostStreamer" where
  "sr_pass env s =
     (if \<not> sr_loop s then s
      else if \<not> sr_running s then s\<lparr>sr_loop := False\<rparr>
      else
        let s = restart_if_requested env s
        in if \<not> sr_loop s then s
           else case (sr_encoder s, sr_transport s, sr_capture s) of
             (Some e, Some port, Some d) \<Rightarrow>
               (case refresh_crop env s d of
                  (s, d) \<Rightarrow>
                    (case dc_capture (pe_capture env) d of
                       (d, TimedOut) \<Rightarrow> s\<lparr>sr_capture := Some d\<rparr>
                     | (d, CaptureFailed) \<Rightarrow> capture_failed env d s
                     | (d, NullTexture) \<Rightarrow> s\<lparr>sr_crashed := True, sr_loop := False\<rparr>
                     | (d, Captured f) \<Rightarrow> encode_and_send env f e (s\<lparr>sr_capture := Some d, sr_failures := 0\<rparr>)))
           | (Some e, Some port, None) \<Rightarrow> s\<lparr>sr_crashed := True, sr_loop := False\<rparr>
           | _ \<Rightarrow> s\<lparr>sr_loop := False\<rparr>)"

section \<open>Other entry points\<close>

definition sr_requestKeyframe :: "HostStreamer \<Rightarrow> HostStreamer" where
  "sr_requestKeyframe s = s\<lparr>sr_encoder := map_option ve_requestKeyframe (sr_encoder s)\<rparr>"

definition sr_setBitrate :: "int \<Rightarrow> HostStreamer \<Rightarrow> HostStreamer" where
  "sr_setBitrate kbps s = s\<lparr>sr_encoder := map_option (ve_setBitrate kbps) (sr_encoder s),
     sr_cfg := (sr_cfg s)\<lparr>sg_bitrateKbps := word_of_int kbps\<rparr>\<rparr>"

definition requestEncoderRestart :: "HostStreamer \<Rightarrow> HostStreamer" where
  "requestEncoderRestart s = (if sr_running s then s\<lparr>sr_restartRequested := True\<rparr> else s)"

definition requestSoftwareEncoder :: "HostStreamer \<Rightarrow> HostStreamer" where
  "requestSoftwareEncoder s =
     (let s = s\<lparr>sr_forcedEncoder := (if sg_codec (sr_cfg s) = Hevc then ''libx265''
                else if sg_codec (sr_cfg s) = Av1 then ''libsvtav1'' else ''libx264'')\<rparr>
      in if sr_running s then s\<lparr>sr_restartRequested := True\<rparr> else s)"

definition sr_handleUdpControl :: "UdpType \<Rightarrow> HostStreamer \<Rightarrow> HostStreamer" where
  "sr_handleUdpControl ty s =
     (if ty = UdpType_KeyframeRequest then sr_requestKeyframe s
      else if ty = UdpType_StreamStop then sr_stop s
      else s)"

definition sr_setClientEndpoint :: "string \<Rightarrow> u16 \<Rightarrow> HostStreamer \<Rightarrow> HostStreamer" where
  "sr_setClientEndpoint address port s = (if sr_transport s = None then s else sr_emit [SrSetPeer address port] s)"

definition sr_setInputHandler :: "HostStreamer \<Rightarrow> HostStreamer" where
  "sr_setInputHandler s = (if sr_transport s = None then s else sr_emit [SrSetInput] s)"

definition sr_sendRumble :: "u8 \<Rightarrow> u8 \<Rightarrow> u8 \<Rightarrow> HostStreamer \<Rightarrow> HostStreamer" where
  "sr_sendRumble player left right s = (if sr_transport s = None then s else sr_emit [SrRumble player left right] s)"

text \<open>The packets the Opus encoder made of a captured block.\<close>

definition sr_audio :: "(bytes \<times> u64) list \<Rightarrow> HostStreamer \<Rightarrow> HostStreamer" where
  "sr_audio pkts s = sr_emit (map (\<lambda>(d, ptsUs). SrSendFrame UdpType_Audio False d (ptsUs * 1000)) pkts) s"

record HostStreamStats =
  ss_encodeMs :: rat
  ss_encoderName :: string
  ss_framesEncoded :: u32
  ss_captureMs :: rat
  ss_fps :: rat
  ss_kbps :: rat

definition sr_stats :: "HostStreamer \<Rightarrow> HostStreamStats" where
  "sr_stats s = \<lparr>ss_encodeMs = (case sr_encoder s of None \<Rightarrow> 0 | Some e \<Rightarrow> ve_avgEncodeMs e),
     ss_encoderName = (case sr_encoder s of None \<Rightarrow> [] | Some e \<Rightarrow> ve_encoderName e),
     ss_framesEncoded = (case sr_encoder s of None \<Rightarrow> 0 | Some e \<Rightarrow> ve_framesEncoded e),
     ss_captureMs = (case sr_capture s of None \<Rightarrow> 0 | Some d \<Rightarrow> dc_avgCaptureMs d), ss_fps = sr_fps s, ss_kbps = sr_kbps s\<rparr>"

section \<open>Starting and stopping as a whole\<close>

definition idle :: "HostStreamer \<Rightarrow> bool" where
  "idle s \<longleftrightarrow> \<not> sr_running s \<and> \<not> sr_thread s \<and> \<not> sr_loop s \<and> sr_capture s = None \<and> sr_encoder s = None \<and> sr_transport s = None \<and>
     \<not> sr_audioCapture s \<and> \<not> sr_audioEncoder s"

definition up :: "HostStreamer \<Rightarrow> bool" where
  "up s \<longleftrightarrow> sr_running s \<and> sr_thread s \<and> sr_loop s \<and> sr_capture s \<noteq> None \<and> sr_encoder s \<noteq> None \<and> sr_transport s \<noteq> None"

lemma sr_emit_simps [simp]:
  "sr_running (sr_emit o1 s) = sr_running s" "sr_thread (sr_emit o1 s) = sr_thread s" "sr_loop (sr_emit o1 s) = sr_loop s"
  "sr_capture (sr_emit o1 s) = sr_capture s" "sr_encoder (sr_emit o1 s) = sr_encoder s" "sr_transport (sr_emit o1 s) = sr_transport s"
  "sr_audioCapture (sr_emit o1 s) = sr_audioCapture s" "sr_audioEncoder (sr_emit o1 s) = sr_audioEncoder s"
  "sr_cfg (sr_emit o1 s) = sr_cfg s" "sr_failures (sr_emit o1 s) = sr_failures s" "sr_crashed (sr_emit o1 s) = sr_crashed s"
  "sr_forcedEncoder (sr_emit o1 s) = sr_forcedEncoder s"
  by (simp_all add: sr_emit_def)

lemma stop_idle: "idle (sr_stop s)"
  by (simp add: idle_def sr_stop_def Let_def)

lemma start_audio_simps [simp]:
  "sr_running (start_audio env s) = sr_running s" "sr_capture (start_audio env s) = sr_capture s"
  "sr_encoder (start_audio env s) = sr_encoder s" "sr_transport (start_audio env s) = sr_transport s"
  by (simp_all add: start_audio_def)

text \<open>C31: A streamer is up as a whole or not at all: starting an idle one either brings up the transport,
  the capture, the encoder and the capture thread together or leaves it idle again, and a stop leaves
  nothing behind in any state.\<close>

theorem streamer_whole_or_nothing:
  assumes "idle s" and "sr_start env cfg sid player s = (t, ok)"
  shows "(ok \<longrightarrow> up t) \<and> (\<not> ok \<longrightarrow> idle t) \<and> idle (sr_stop t) \<and> idle (sr_stop (sr_pass penv t))"
proof -
  have "(ok \<longrightarrow> up t) \<and> (\<not> ok \<longrightarrow> idle t)"
    using assms by (auto simp: sr_start_def idle_def up_def Let_def split: option.splits prod.splits init_result.splits)
  then show ?thesis using stop_idle by blast
qed

section \<open>Repeated failures\<close>

lemma restart_keeps [simp]:
  "sr_failures (fst (performEncoderRestart ff s)) = sr_failures s" "sr_transport (fst (performEncoderRestart ff s)) = sr_transport s"
  "sr_cfg (fst (performEncoderRestart ff s)) = sr_cfg s" "sr_capture (fst (performEncoderRestart ff s)) = sr_capture s"
  "sr_running (fst (performEncoderRestart ff s)) = sr_running s"
  by (simp_all add: performEncoderRestart_def Let_def case_prod_beta split: option.split)

lemma restart_simps [simp]:
  "sr_failures (restart_if_requested env s) = sr_failures s" "sr_transport (restart_if_requested env s) = sr_transport s"
  "sr_cfg (restart_if_requested env s) = sr_cfg s"
  by (simp_all add: restart_if_requested_def Let_def case_prod_beta split: option.split)

lemma refresh_simps:
  assumes "refresh_crop env s d = (s', d')"
  shows "sr_failures s' = sr_failures s" and "sg_captureMode (sr_cfg s) = CaptureMode_Monitor \<Longrightarrow> s' = s"
  using assms by (auto simp: refresh_crop_def CaptureMode_Window_def CaptureMode_Monitor_def split: if_splits prod.splits bool.splits)

definition capture_fails :: "pass_env \<Rightarrow> bool" where
  "capture_fails env \<longleftrightarrow> (\<forall>d. snd (dc_capture (pe_capture env) d) = CaptureFailed)"

lemma capture_failed_counts:
  "\<not> sr_loop (capture_failed env d s) \<or> sr_failures (capture_failed env d s) = sr_failures s + 1 \<and> sr_failures s + 1 < 10"
  by (simp add: capture_failed_def kMaxConsecutiveCaptureFailures_def Let_def split: prod.split init_result.split)

lemma failing_pass:
  assumes "capture_fails env"
  shows "\<not> sr_loop (sr_pass env s) \<or> sr_failures (sr_pass env s) = sr_failures s + 1 \<and> sr_failures s + 1 < 10"
proof (cases "\<not> sr_loop s \<or> \<not> sr_running s \<or> \<not> sr_loop (restart_if_requested env s)")
  case True
  then show ?thesis by (auto simp: sr_pass_def Let_def)
next
  case False
  let ?s = "restart_if_requested env s"
  show ?thesis
  proof (cases "sr_encoder ?s = None \<or> sr_transport ?s = None \<or> sr_capture ?s = None")
    case True
    then show ?thesis using False by (auto simp: sr_pass_def Let_def split: option.split)
  next
    case some: False
    then obtain e port d where c: "sr_encoder ?s = Some e" "sr_transport ?s = Some port" "sr_capture ?s = Some d" by auto
    obtain s1 d1 where r: "refresh_crop env ?s d = (s1, d1)" by force
    obtain d2 where "dc_capture (pe_capture env) d1 = (d2, CaptureFailed)"
      using assms unfolding capture_fails_def by (metis prod.collapse)
    then have "sr_pass env s = capture_failed env d2 s1" using False c r by (simp add: sr_pass_def Let_def)
    then show ?thesis using capture_failed_counts [of env d2 s1] refresh_simps(1) [OF r] by simp
  qed
qed

lemma ended_loop: "\<not> sr_loop s \<Longrightarrow> fold sr_pass envs s = s"
  by (induction envs) (simp_all add: sr_pass_def)

text \<open>C26: A capture that keeps failing ends the stream: with no successful capture in between, at most ten
  passes are made before the loop has ended.\<close>

theorem repeated_failures_end_loop:
  assumes "list_all capture_fails envs" and "envs \<noteq> []" and "10 \<le> sr_failures s + length envs"
  shows "\<not> sr_loop (fold sr_pass envs s)"
  using assms
proof (induction envs arbitrary: s)
  case (Cons env envs)
  then consider "\<not> sr_loop (sr_pass env s)" | "sr_failures (sr_pass env s) = sr_failures s + 1" "sr_failures s + 1 < 10"
    using failing_pass [of env s] by auto
  then show ?case
  proof cases
    case 1
    then show ?thesis by (simp add: ended_loop)
  next
    case 2
    then have "envs \<noteq> []" using Cons.prems(3) by (cases envs) auto
    then show ?thesis using Cons.IH [of "sr_pass env s"] Cons.prems 2 by simp
  qed
qed simp

definition blocked_capture :: capture_env where
  "blocked_capture = good_capture\<lparr>ce_acquire := AcquireFailed\<rparr>"

definition small_pass :: pass_env where
  "small_pass = \<lparr>pe_open = ff_software, pe_fallback = ff_software, pe_window = None, pe_capture = good_capture, pe_encode = small_answers,
     pe_reinit = one_monitor, pe_reopen = ff_software, pe_now = 0, pe_err = []\<rparr>"

definition small_config :: StreamConfig where
  "small_config = \<lparr>sg_codec = H264, sg_width = 4, sg_height = 2, sg_fps = 60, sg_bitrateKbps = 8000, sg_gop = 120,
     sg_audioBitrateKbps = 128, sg_audioEnabled = False, sg_captureMode = CaptureMode_Window, sg_outputIndex = 0, sg_windowHwnd = 7,
     sg_gameName = ''Game''\<rparr>"

definition small_start :: start_env where
  "small_start = \<lparr>se_bind = Some 50000, se_dxgi = one_monitor, se_open = ff_software, se_opus = False, se_loopback = False, se_now = 0\<rparr>"

definition started_streamer :: HostStreamer where
  "started_streamer = fst (sr_start small_start small_config 9 0 (HostStreamer_new small_config))"

lemma started: "sr_start small_start small_config 9 0 (HostStreamer_new small_config) = (started_streamer, True)"
proof -
  have "snd (sr_start small_start small_config 9 0 (HostStreamer_new small_config)) = True" by code_simp
  then show ?thesis by (simp add: started_streamer_def prod_eq_iff)
qed

theorem streamer_whole_or_nothing_witness: "up started_streamer"
proof -
  have "idle (HostStreamer_new small_config)" by (simp add: idle_def HostStreamer_new_def)
  from streamer_whole_or_nothing [OF this started] show ?thesis by simp
qed

theorem repeated_failures_end_loop_witness:
  "\<not> sr_loop (fold sr_pass (replicate 10 (small_pass\<lparr>pe_capture := blocked_capture\<rparr>)) started_streamer)"
proof (rule repeated_failures_end_loop)
  have "capture_fails (small_pass\<lparr>pe_capture := blocked_capture\<rparr>)"
    by (simp add: capture_fails_def dc_capture_def blocked_capture_def)
  then show "list_all capture_fails (replicate 10 (small_pass\<lparr>pe_capture := blocked_capture\<rparr>))" by (simp add: list_all_iff)
qed simp_all

section \<open>A minimised window\<close>

lemma encode_keeps_cfg: "sr_cfg (encode_and_send env f e s) = sr_cfg s"
  by (simp add: encode_and_send_def measure_window_def Let_def case_prod_beta split: prod.split encode_result.split bool.split)

lemma failed_keeps_cfg: "sr_cfg (capture_failed env d s) = sr_cfg s"
  by (simp add: capture_failed_def Let_def split: prod.split init_result.split)

lemma pass_keeps_monitor:
  assumes "sg_captureMode (sr_cfg s) = CaptureMode_Monitor"
  shows "sg_captureMode (sr_cfg (sr_pass env s)) = CaptureMode_Monitor"
proof -
  have "refresh_crop env (restart_if_requested env s) d = (restart_if_requested env s, d)" for d
    using assms by (simp add: refresh_crop_def CaptureMode_Window_def CaptureMode_Monitor_def)
  then show ?thesis
    using assms by (simp add: sr_pass_def Let_def encode_keeps_cfg failed_keeps_cfg split: option.split prod.split capture_result.split)
qed

lemma monitor_stays:
  "sg_captureMode (sr_cfg s) = CaptureMode_Monitor \<Longrightarrow> sg_captureMode (sr_cfg (fold sr_pass envs s)) = CaptureMode_Monitor"
  by (induction envs arbitrary: s) (simp_all add: pass_keeps_monitor)

text \<open>Minimising the game's window shows the players the whole desktop: a pass that finds the captured
  window minimised captures the full monitor from then on, and no later pass returns to the window.\<close>

theorem minimised_window_shows_desktop:
  assumes s: "sr_loop s" "sr_running s" "\<not> sr_restartRequested s" "sr_encoder s = Some e" "sr_transport s = Some port" "sr_capture s = Some d"
    and w: "sg_captureMode (sr_cfg s) = CaptureMode_Window" "sg_windowHwnd (sr_cfg s) \<noteq> 0" "pe_window env = Some v" "wn_iconic v"
    and c: "dc_capture (pe_capture env) (clearCrop d) = (d', Captured f)" "ce_acquire (pe_capture env) = Acquired"
  shows "cf_width f = dc_monWidth d \<and> cf_height f = dc_monHeight d \<and> cf_offset f = 0 \<and>
    sr_pass env s = encode_and_send env f e (s\<lparr>sr_cfg := (sr_cfg s)\<lparr>sg_captureMode := CaptureMode_Monitor\<rparr>, sr_capture := Some d', sr_failures := 0\<rparr>) \<and>
    sg_captureMode (sr_cfg (fold sr_pass envs (sr_pass env s))) = CaptureMode_Monitor"
proof -
  have r: "refresh_crop env s d = (s\<lparr>sr_cfg := (sr_cfg s)\<lparr>sg_captureMode := CaptureMode_Monitor\<rparr>\<rparr>, clearCrop d)"
    using w by (simp add: refresh_crop_def minimised_window_refused)
  have "restart_if_requested env s = s" using s(3) by (simp add: restart_if_requested_def)
  then have p: "sr_pass env s = encode_and_send env f e (s\<lparr>sr_cfg := (sr_cfg s)\<lparr>sg_captureMode := CaptureMode_Monitor\<rparr>, sr_capture := Some d', sr_failures := 0\<rparr>)"
    using s r c(1) by (simp add: sr_pass_def Let_def)
  have "cf_width f = dc_monWidth d \<and> cf_height f = dc_monHeight d \<and> cf_offset f = 0"
    using c by (auto simp: dc_capture_def take_frame_def clearCrop_def Let_def split: if_splits)
  moreover have "sg_captureMode (sr_cfg (sr_pass env s)) = CaptureMode_Monitor" unfolding p by (simp add: encode_keeps_cfg)
  ultimately show ?thesis using p monitor_stays by blast
qed

theorem minimised_window_shows_desktop_witness:
  "sg_captureMode (sr_cfg (sr_pass (small_pass\<lparr>pe_window := Some (game_window\<lparr>wn_iconic := True\<rparr>)\<rparr>) started_streamer)) = CaptureMode_Monitor"
proof -
  have "up started_streamer" by code_simp
  then obtain e port d where u: "sr_loop started_streamer" "sr_running started_streamer" "sr_encoder started_streamer = Some e"
    "sr_transport started_streamer = Some port" "sr_capture started_streamer = Some d" by (auto simp: up_def)
  have r: "\<not> sr_restartRequested started_streamer" "sg_captureMode (sr_cfg started_streamer) = CaptureMode_Window" "sg_windowHwnd (sr_cfg started_streamer) \<noteq> 0"
    by code_simp+
  have "sr_capture started_streamer = Some (fst (dc_init one_monitor True 0 DisplayCapture_new))" by code_simp
  then have "d = fst (dc_init one_monitor True 0 DisplayCapture_new)" using u(5) by simp
  then have "case snd (dc_capture good_capture (clearCrop d)) of Captured f \<Rightarrow> True | _ \<Rightarrow> False" by simp code_simp
  then obtain d' f where c: "dc_capture good_capture (clearCrop d) = (d', Captured f)"
    by (cases "dc_capture good_capture (clearCrop d)") (auto split: capture_result.splits)
  have a: "ce_acquire good_capture = Acquired" by (simp add: good_capture_def)
  show ?thesis
    using minimised_window_shows_desktop [OF u(1,2) r(1) u(3,4,5) r(2,3), of "small_pass\<lparr>pe_window := Some (game_window\<lparr>wn_iconic := True\<rparr>)\<rparr>" _ d' f "[]"]
      c a by (simp add: small_pass_def encode_keeps_cfg)
qed

section \<open>Recovery\<close>

lemma restart_succeeds:
  assumes "sr_running s" "sr_capture s \<noteq> None"
    and "\<exists>n \<in> set (candidates p). usable ff p n"
    and "p = encoder_params (sr_cfg s) (case sr_encoder s of Some e \<Rightarrow> vp_bitrateKbps (ve_p e) | None \<Rightarrow> sint (sg_bitrateKbps (sr_cfg s))) (sr_forcedEncoder s)"
  shows "\<exists>e. performEncoderRestart ff s = (s\<lparr>sr_encoder := Some e\<rparr>, None) \<and> find (usable ff p) (candidates p) = Some (ve_encoderName e)"
proof -
  obtain e r where i: "ve_init ff p VideoEncoder_new = (e, r)" by force
  have "r = None" "find (usable ff p) (candidates p) = Some (ve_encoderName e)"
    using init_first_usable [OF i] assms(3) by auto
  then show ?thesis using assms i by (auto simp: performEncoderRestart_def Let_def)
qed

text \<open>The recovery of a failed AV1 encoder streams H.264: when the restart fails and the second attempt
  can open libx264, the streamer goes on with that encoder while its configuration, which the client
  was told and decodes by, still says AV1.\<close>

theorem av1_recovery_streams_h264:
  assumes s: "sr_running s" "sr_restartRequested s" "sr_capture s \<noteq> None" "sg_codec (sr_cfg s) = Av1"
    and f: "snd (performEncoderRestart (pe_open env) (s\<lparr>sr_restartRequested := False\<rparr>)) \<noteq> None"
    and u: "\<forall>p. vp_codec p = Av1 \<longrightarrow> usable (pe_fallback env) p ''libx264''"
  shows "(\<exists>e. sr_encoder (restart_if_requested env s) = Some e \<and> ve_encoderName e = ''libx264'') \<and>
    sg_codec (sr_cfg (restart_if_requested env s)) = Av1 \<and> ''libx264'' \<notin> set (encoderCandidates Av1)"
proof -
  let ?s0 = "s\<lparr>sr_restartRequested := False\<rparr>"
  have av1: "Av1 \<noteq> Hevc" by (simp add: Av1_def Hevc_def)
  obtain rerr where "performEncoderRestart (pe_open env) ?s0 = (?s0, Some rerr)"
    using f by (auto simp: performEncoderRestart_def Let_def split: prod.splits option.splits if_splits)
  moreover define s1 where "s1 = (sr_emit [SrError (''Encoder restart failed: '' @ rerr)] ?s0)\<lparr>sr_forcedEncoder := ''libx264''\<rparr>"
  define p where "p = encoder_params (sr_cfg s1) (case sr_encoder s1 of Some e \<Rightarrow> vp_bitrateKbps (ve_p e) | None \<Rightarrow> sint (sg_bitrateKbps (sr_cfg s1))) (sr_forcedEncoder s1)"
  have p: "vp_codec p = Av1" "vp_preferredEncoder p = ''libx264''" using s by (simp_all add: p_def s1_def encoder_params_def)
  then have first: "candidates p = ''libx264'' # tl (candidates p)" by (simp add: candidates_def)
  have usable: "usable (pe_fallback env) p ''libx264''" using u p by blast
  then have "\<exists>n \<in> set (candidates p). usable (pe_fallback env) p n" by (subst first) simp
  from restart_succeeds [OF _ _ this p_def] s obtain e where
    "performEncoderRestart (pe_fallback env) s1 = (s1\<lparr>sr_encoder := Some e\<rparr>, None)"
    and e: "find (usable (pe_fallback env) p) (candidates p) = Some (ve_encoderName e)" by (auto simp: s1_def)
  ultimately have "restart_if_requested env s = s1\<lparr>sr_encoder := Some e\<rparr>"
    using s av1 unfolding restart_if_requested_def s1_def by (simp add: Let_def)
  moreover have "ve_encoderName e = ''libx264''" using e usable by (subst (asm) first) simp
  moreover have "''libx264'' \<notin> set (encoderCandidates Av1)" by (simp add: encoderCandidates_def)
  ultimately show ?thesis using s(4) by (simp add: s1_def)
qed

text \<open>A monitor that cannot be duplicated when the capture is set up again crashes the host: the call
  has no place for its message, and the failure writes one.\<close>

theorem failed_reinit_crashes:
  assumes "sr_failures s + 1 < 10"
    and "dx_factory (pe_reinit env) = Some ads" "find_output ads 0 (sg_outputIndex (sr_cfg s)) 0 = Some (a, out)"
    and "dx_adapter (pe_reinit env)" "dx_device (pe_reinit env)" "dx_desc (pe_reinit env)" "dx_output1 (pe_reinit env)" "dx_duplicate (pe_reinit env) = Some why"
  shows "sr_crashed (capture_failed env d s)"
proof -
  have "snd (dc_init (pe_reinit env) False (sg_outputIndex (sr_cfg s)) d) = InitCrash"
    by (rule duplicate_failure_crashes(1)) (use assms in simp_all)
  then show ?thesis
    using assms(1) by (simp add: capture_failed_def kMaxConsecutiveCaptureFailures_def Let_def case_prod_beta)
qed

end
