(* ===== verification/Reassembly.thy ===== *)
theory Reassembly
  imports UdpProtocol
begin

text \<open>
  \<^verbatim>\<open>FragmentReassembler\<close> of \<^verbatim>\<open>networking/UdpProtocol.cpp\<close>. The \<^verbatim>\<open>std::map\<close> of frame buffers is an
  ordered association list; the reference \<^verbatim>\<open>fb\<close> into it is the buffer that is written back.
  Undefined behaviour is a value: \<open>HeapOverflow\<close> is a \<^verbatim>\<open>memcpy\<close> past the end of the frame buffer,
  \<open>PayloadOverread\<close> one that reads past the received datagram, and \<open>DanglingBuffer\<close> the use of
  \<^verbatim>\<open>fb\<close> after the eviction of the oldest buffer erased that very buffer.
\<close>

record FrameBuf =
  fb_data :: bytes
  fb_have :: "bool list"
  fb_received :: u16
  fb_fragmentCount :: u16
  fb_totalSize :: nat
  fb_timestampNs :: u64
  fb_keyframe :: bool

definition FrameBuf_new :: FrameBuf where
  "FrameBuf_new = \<lparr>fb_data = [], fb_have = [], fb_received = 0, fb_fragmentCount = 0,
     fb_totalSize = 0, fb_timestampNs = 0, fb_keyframe = False\<rparr>"

record FragmentReassembler =
  ra_type :: UdpType
  ra_frames :: "(u64, FrameBuf) omap"
  ra_highestStarted :: u64
  ra_initialized :: bool
  ra_droppedIncomplete :: u64
  ra_completed :: u64

definition FragmentReassembler_new :: "UdpType \<Rightarrow> FragmentReassembler" where
  "FragmentReassembler_new ty = \<lparr>ra_type = ty, ra_frames = [], ra_highestStarted = 0,
     ra_initialized = False, ra_droppedIncomplete = 0, ra_completed = 0\<rparr>"

definition kMaxInFlight :: nat where "kMaxInFlight = 96"

datatype feed_fault = HeapOverflow | PayloadOverread | DanglingBuffer

definition mk_frame :: "UdpHeader \<Rightarrow> u64 \<Rightarrow> bool \<Rightarrow> bytes \<Rightarrow> AssembledFrame" where
  "mk_frame h ts key d =
     \<lparr>af_type = uh_type h, af_sessionId = uh_sessionId h, af_sequence = uh_sequence h,
      af_timestampNs = ts, af_keyframe = key, af_data = d\<rparr>"

text \<open>A buffer seen for the first time is sized for all fragments.\<close>

definition start_buf :: "UdpHeader \<Rightarrow> FrameBuf \<Rightarrow> FrameBuf" where
  "start_buf h fb =
     fb\<lparr>fb_fragmentCount := uh_fragmentCount h,
        fb_have := replicate (unat (uh_fragmentCount h)) False,
        fb_data := replicate (unat (uh_fragmentCount h) * kMaxUdpPayload) 0,
        fb_timestampNs := uh_timestampNs h,
        fb_keyframe := hasFlag (uh_flags h) UdpFlag_Keyframe\<rparr>"

text \<open>The copy of one fragment into its buffer and the bookkeeping after it.\<close>

definition copy_fragment :: "UdpHeader \<Rightarrow> bytes \<Rightarrow> FrameBuf \<Rightarrow> FrameBuf" where
  "copy_fragment h payload fb =
     (let i = unat (uh_fragmentIndex h); off = i * kMaxUdpPayload; n = unat (uh_payloadSize h);
          fb = fb\<lparr>fb_data := take off (fb_data fb) @ take n payload @ drop (off + n) (fb_data fb),
                  fb_have := (fb_have fb)[i := True],
                  fb_received := fb_received fb + 1\<rparr>
      in if i + 1 = unat (uh_fragmentCount h)
         then fb\<lparr>fb_totalSize := (unat (uh_fragmentCount h) - 1) * kMaxUdpPayload + n\<rparr>
         else fb)"

definition feed_fragment ::
  "UdpHeader \<Rightarrow> bytes \<Rightarrow> FrameBuf \<Rightarrow> FragmentReassembler \<Rightarrow>
   feed_fault + FragmentReassembler \<times> AssembledFrame option" where
  "feed_fragment h payload fb r =
     (let sq = uh_sequence h; i = unat (uh_fragmentIndex h) in
      if uh_fragmentIndex h \<ge> fb_fragmentCount fb \<or> fb_have fb ! i
      then Inr (r\<lparr>ra_frames := omap_upd sq fb (ra_frames r)\<rparr>, None)
      else if length payload < unat (uh_payloadSize h) then Inl PayloadOverread
      else if i * kMaxUdpPayload + unat (uh_payloadSize h) > length (fb_data fb) then Inl HeapOverflow
      else let fb = copy_fragment h payload fb in
      if fb_received fb = fb_fragmentCount fb then
        if fb_totalSize fb = 0 \<or> fb_totalSize fb > length (fb_data fb)
        then Inr (r\<lparr>ra_frames := omap_del sq (ra_frames r),
                    ra_droppedIncomplete := ra_droppedIncomplete r + 1\<rparr>, None)
        else Inr (r\<lparr>ra_frames := omap_del sq (ra_frames r), ra_completed := ra_completed r + 1\<rparr>,
                  Some (mk_frame h (fb_timestampNs fb) (fb_keyframe fb)
                         (take (fb_totalSize fb) (fb_data fb))))
      else Inr (r\<lparr>ra_frames := omap_upd sq fb (ra_frames r)\<rparr>, None))"

text \<open>The newest sequence number a fragment was seen of, for the collection of stale buffers.\<close>

definition ra_touch :: "u64 \<Rightarrow> FragmentReassembler \<Rightarrow> FragmentReassembler" where
  "ra_touch sq r =
     (if \<not> ra_initialized r \<or> sq > ra_highestStarted r
      then r\<lparr>ra_highestStarted := sq\<rparr> else r)\<lparr>ra_initialized := True\<rparr>"

definition feed ::
  "UdpHeader \<Rightarrow> bytes \<Rightarrow> FragmentReassembler \<Rightarrow>
   feed_fault + FragmentReassembler \<times> AssembledFrame option" where
  "feed h payload r =
     (if uh_fragmentCount h = 1 then
        if length payload < unat (uh_payloadSize h) then Inl PayloadOverread
        else Inr (r\<lparr>ra_completed := ra_completed r + 1\<rparr>,
                  Some (mk_frame h (uh_timestampNs h) (hasFlag (uh_flags h) UdpFlag_Keyframe)
                         (take (unat (uh_payloadSize h)) payload)))
      else
        let sq = uh_sequence h;
            r = ra_touch sq r;
            fb = (case map_of (ra_frames r) sq of Some b \<Rightarrow> b | None \<Rightarrow> FrameBuf_new);
            r = r\<lparr>ra_frames := omap_upd sq fb (ra_frames r)\<rparr>
        in if fb_fragmentCount fb = 0 then
             if length (ra_frames r) > kMaxInFlight then
               if fst (hd (ra_frames r)) = sq then Inl DanglingBuffer
               else feed_fragment h payload (start_buf h fb)
                      (r\<lparr>ra_frames := tl (ra_frames r),
                         ra_droppedIncomplete := ra_droppedIncomplete r + 1\<rparr>)
             else feed_fragment h payload (start_buf h fb) r
           else if fb_fragmentCount fb \<noteq> uh_fragmentCount h then Inr (r, None)
           else feed_fragment h payload fb r)"

fun gc_frames :: "u64 \<Rightarrow> (u64, FrameBuf) omap \<Rightarrow> u64 \<Rightarrow> (u64, FrameBuf) omap \<times> u64" where
  "gc_frames hs [] dropped = ([], dropped)"
| "gc_frames hs ((lowest, b) # m) dropped =
     (if hs > lowest + 64 then gc_frames hs m (dropped + 1) else ((lowest, b) # m, dropped))"

definition ra_gc :: "FragmentReassembler \<Rightarrow> FragmentReassembler" where
  "ra_gc r =
     (let (m, d) = gc_frames (ra_highestStarted r) (ra_frames r) (ra_droppedIncomplete r)
      in r\<lparr>ra_frames := m, ra_droppedIncomplete := d\<rparr>)"

definition ra_reset :: "FragmentReassembler \<Rightarrow> FragmentReassembler" where
  "ra_reset r = r\<lparr>ra_frames := [], ra_highestStarted := 0, ra_initialized := False\<rparr>"

text \<open>Feeding a list of fragments; the completed frames in the order they complete.\<close>

fun feed_all ::
  "(UdpHeader \<times> bytes) list \<Rightarrow> FragmentReassembler \<Rightarrow>
   feed_fault + FragmentReassembler \<times> AssembledFrame list" where
  "feed_all [] r = Inr (r, [])"
| "feed_all ((h, p) # xs) r =
     (case feed h p r of
        Inl e \<Rightarrow> Inl e
      | Inr (r1, f) \<Rightarrow>
          (case feed_all xs r1 of
             Inl e \<Rightarrow> Inl e
           | Inr (r2, fs) \<Rightarrow> Inr (r2, (case f of None \<Rightarrow> fs | Some g \<Rightarrow> g # fs))))"

section \<open>Well-formed reassemblers\<close>

definition buf_wf :: "FrameBuf \<Rightarrow> bool" where
  "buf_wf fb \<longleftrightarrow> fb_fragmentCount fb \<noteq> 0 \<and> length (fb_have fb) = unat (fb_fragmentCount fb) \<and>
     length (fb_data fb) = unat (fb_fragmentCount fb) * kMaxUdpPayload"

definition frames_wf :: "(u64, FrameBuf) omap \<Rightarrow> bool" where
  "frames_wf m \<longleftrightarrow> omap_wf m \<and> length m \<le> kMaxInFlight \<and> (\<forall>(k, b) \<in> set m. buf_wf b)"

definition ra_wf :: "FragmentReassembler \<Rightarrow> bool" where
  "ra_wf r \<longleftrightarrow> frames_wf (ra_frames r)"

lemma ra_wf_new [simp]: "ra_wf (FragmentReassembler_new ty)"
  by (simp add: ra_wf_def frames_wf_def FragmentReassembler_new_def)

lemma buf_wf_start: "uh_fragmentCount h \<noteq> 0 \<Longrightarrow> buf_wf (start_buf h fb)"
  by (simp add: buf_wf_def start_buf_def)

lemma copy_fragment_wf:
  assumes "buf_wf fb"
    and "unat (uh_fragmentIndex h) * kMaxUdpPayload + unat (uh_payloadSize h) \<le> length (fb_data fb)"
    and "unat (uh_payloadSize h) \<le> length payload"
  shows "buf_wf (copy_fragment h payload fb)"
  using assms by (auto simp: buf_wf_def copy_fragment_def Let_def)

text \<open>All that \<open>feed_fragment\<close> needs of the map: it is ordered, its other buffers are well-formed, and
  there is room for the buffer written back.\<close>

lemma feed_fragment_wf:
  assumes "omap_wf (ra_frames r)" and "length (omap_upd (uh_sequence h) fb (ra_frames r)) \<le> kMaxInFlight"
    and "\<forall>(k, b) \<in> set (ra_frames r). k \<noteq> uh_sequence h \<longrightarrow> buf_wf b" and "buf_wf fb"
    and "feed_fragment h payload fb r = Inr (r', f)"
  shows "ra_wf r'"
proof -
  have len: "length (omap_upd (uh_sequence h) b (ra_frames r)) \<le> kMaxInFlight" for b
    using assms(2) by (simp add: length_omap_upd_any [of _ b _ fb])
  have del: "frames_wf (omap_del (uh_sequence h) (ra_frames r))"
    using assms(1-3) le_trans [OF length_omap_del_upd]
    by (auto simp: frames_wf_def set_omap_del)
  have upd: "frames_wf (omap_upd (uh_sequence h) b (ra_frames r))" if "buf_wf b" for b
    using assms(1,3) len that by (auto simp: frames_wf_def set_omap_upd)
  show ?thesis
    using assms(5) del upd [OF assms(4)] upd [OF copy_fragment_wf [OF assms(4)]]
    by (auto simp: feed_fragment_def ra_wf_def Let_def not_less split: if_splits)
qed

text \<open>The map a fragment finds after \<^verbatim>\<open>frames_[h.sequence]\<close> and the eviction.\<close>

lemma frames_wf_evicted:
  assumes "frames_wf m" and "omap_upd k b m = p # m'"
  shows "omap_wf m'" and "\<forall>(a, c) \<in> set m'. a \<noteq> k \<longrightarrow> buf_wf c"
    and "fst p \<noteq> k \<Longrightarrow> length (omap_upd k c m') \<le> kMaxInFlight"
proof -
  have wf: "omap_wf m" using assms(1) by (simp add: frames_wf_def)
  have wfu: "omap_wf (p # m')" using omap_wf_upd [OF wf, of k b] assms(2) by simp
  then show "omap_wf m'" by (simp add: omap_wf_def)
  have sub: "set m' \<subseteq> insert (k, b) (set m)"
    using set_omap_upd [OF wf, of k b] assms(2) by auto
  then show "\<forall>(a, c) \<in> set m'. a \<noteq> k \<longrightarrow> buf_wf c"
    using assms(1) by (fastforce simp: frames_wf_def)
  assume "fst p \<noteq> k"
  moreover have "k \<in> fst ` set (p # m')" using fst_omap_upd [of k b m] assms(2) by simp
  ultimately have "k \<in> fst ` set m'" by auto
  then have "length (omap_upd k c m') = length m'"
    using \<open>omap_wf m'\<close> by (rule length_omap_upd_present)
  also have "\<dots> \<le> length m" using length_omap_upd [of k b m] assms(2) by simp
  finally show "length (omap_upd k c m') \<le> kMaxInFlight"
    using assms(1) by (simp add: frames_wf_def)
qed

lemma ra_touch_simps [simp]:
  "ra_frames (ra_touch sq r) = ra_frames r" "ra_completed (ra_touch sq r) = ra_completed r"
  "ra_droppedIncomplete (ra_touch sq r) = ra_droppedIncomplete r" "ra_type (ra_touch sq r) = ra_type r"
  "(ra_touch sq r)\<lparr>ra_frames := ra_frames r\<rparr> = ra_touch sq r"
  by (simp_all add: ra_touch_def)

lemma feed_known:
  assumes "ra_wf r" and "map_of (ra_frames r) (uh_sequence h) = Some fb" and "uh_fragmentCount h \<noteq> 1"
  shows "feed h payload r =
    (if fb_fragmentCount fb \<noteq> uh_fragmentCount h then Inr (ra_touch (uh_sequence h) r, None)
     else feed_fragment h payload fb (ra_touch (uh_sequence h) r))"
proof -
  have "fb_fragmentCount fb \<noteq> 0"
    using assms(1) map_of_SomeD [OF assms(2)] by (auto simp: ra_wf_def frames_wf_def buf_wf_def)
  moreover have "omap_upd (uh_sequence h) fb (ra_frames r) = ra_frames r"
    using assms(1,2) by (intro omap_upd_same) (simp_all add: ra_wf_def frames_wf_def)
  ultimately show ?thesis using assms(2,3) by (simp add: feed_def Let_def)
qed

lemma feed_fresh:
  assumes "map_of (ra_frames r) (uh_sequence h) = None" and "uh_fragmentCount h \<noteq> 1"
  defines "m \<equiv> omap_upd (uh_sequence h) FrameBuf_new (ra_frames r)"
  shows "feed h payload r =
    (if length m > kMaxInFlight then
       if fst (hd m) = uh_sequence h then Inl DanglingBuffer
       else feed_fragment h payload (start_buf h FrameBuf_new)
              ((ra_touch (uh_sequence h) r)\<lparr>ra_frames := tl m,
                 ra_droppedIncomplete := ra_droppedIncomplete r + 1\<rparr>)
     else feed_fragment h payload (start_buf h FrameBuf_new) ((ra_touch (uh_sequence h) r)\<lparr>ra_frames := m\<rparr>))"
  using assms(1,2) by (simp add: feed_def Let_def FrameBuf_new_def m_def)

lemma feed_wf:
  assumes "ra_wf r" and "uh_fragmentCount h \<noteq> 0" and "feed h payload r = Inr (r', f)"
  shows "ra_wf r'"
proof -
  let ?sq = "uh_sequence h"
  consider (single) "uh_fragmentCount h = 1"
    | (known) fb where "uh_fragmentCount h \<noteq> 1" "map_of (ra_frames r) ?sq = Some fb"
    | (fresh) "uh_fragmentCount h \<noteq> 1" "map_of (ra_frames r) ?sq = None" by blast
  then show ?thesis
  proof cases
    case single
    with assms(1,3) show ?thesis by (auto simp: feed_def ra_wf_def split: if_splits)
  next
    case known
    have "buf_wf fb" and "?sq \<in> fst ` set (ra_frames r)"
      using assms(1) map_of_SomeD [OF known(2)] by (force simp: ra_wf_def frames_wf_def)+
    moreover have "ra_wf (ra_touch ?sq r)" using assms(1) by (simp add: ra_wf_def)
    ultimately show ?thesis
      using assms feed_fragment_wf [of "ra_touch ?sq r" h fb payload r' f]
      by (auto simp: feed_known [OF assms(1) known(2,1)] ra_wf_def frames_wf_def length_omap_upd_present
          split: if_splits)
  next
    case fresh
    let ?m = "omap_upd ?sq FrameBuf_new (ra_frames r)"
    have wf: "frames_wf (ra_frames r)" using assms(1) by (simp add: ra_wf_def)
    obtain p m' where m: "?m = p # m'" by (cases ?m) (use fst_omap_upd [of ?sq FrameBuf_new "ra_frames r"] in auto)
    note ev = frames_wf_evicted [OF wf m]
    show ?thesis
    proof (cases "length ?m > kMaxInFlight")
      case True
      with assms(3) m have f: "fst p \<noteq> ?sq" "feed_fragment h payload (start_buf h FrameBuf_new)
          ((ra_touch ?sq r)\<lparr>ra_frames := m', ra_droppedIncomplete := ra_droppedIncomplete r + 1\<rparr>) = Inr (r', f)"
        by (auto simp: feed_fresh [OF fresh(2,1)] split: if_splits)
      show ?thesis
        by (rule feed_fragment_wf [OF _ _ _ buf_wf_start [OF assms(2)] f(2)])
          (use ev f(1) in simp_all)
    next
      case False
      with assms(3) have f: "feed_fragment h payload (start_buf h FrameBuf_new)
          ((ra_touch ?sq r)\<lparr>ra_frames := ?m\<rparr>) = Inr (r', f)"
        by (auto simp: feed_fresh [OF fresh(2,1)] split: if_splits)
      show ?thesis
        by (rule feed_fragment_wf [OF _ _ _ buf_wf_start [OF assms(2)] f])
          (use wf False length_omap_upd_any [of ?sq "start_buf h FrameBuf_new" "ra_frames r" FrameBuf_new]
            in \<open>auto simp: frames_wf_def set_omap_upd\<close>)
    qed
  qed
qed

lemma gc_frames_suffix: "\<exists>n. fst (gc_frames hs m d) = drop n m"
proof (induction hs m d rule: gc_frames.induct)
  case (1 hs dropped)
  then show ?case by simp
next
  case (2 hs lowest b m dropped)
  show ?case
  proof (cases "hs > lowest + 64")
    case True
    with 2 obtain n where "fst (gc_frames hs m (dropped + 1)) = drop n m" by blast
    with True show ?thesis by (intro exI [of _ "Suc n"]) simp
  next
    case False
    then show ?thesis by (intro exI [of _ 0]) simp
  qed
qed

lemma frames_wf_drop: "frames_wf m \<Longrightarrow> frames_wf (drop n m)"
  by (auto simp: frames_wf_def omap_wf_def sorted_wrt_drop simp flip: drop_map dest: in_set_dropD)

lemma gc_wf: "ra_wf r \<Longrightarrow> ra_wf (ra_gc r)"
  using gc_frames_suffix [of "ra_highestStarted r" "ra_frames r" "ra_droppedIncomplete r"]
  by (auto simp: ra_gc_def ra_wf_def Let_def case_prod_beta frames_wf_drop)

lemma reset_wf: "ra_wf (ra_reset r)"
  by (simp add: ra_reset_def ra_wf_def frames_wf_def)

section \<open>Fragments of one frame\<close>

text \<open>The datagrams a frame is cut into: \<open>base\<close> is the header they share.\<close>

definition frag_slice :: "bytes \<Rightarrow> nat \<Rightarrow> bytes" where
  "frag_slice d i = take kMaxUdpPayload (drop (i * kMaxUdpPayload) d)"

definition frag_header :: "UdpHeader \<Rightarrow> bytes \<Rightarrow> nat \<Rightarrow> UdpHeader" where
  "frag_header base d i =
     base\<lparr>uh_fragmentIndex := of_nat i, uh_fragmentCount := fragmentCountFor (length d),
          uh_payloadSize := of_nat (length (frag_slice d i))\<rparr>"

definition frame_of :: "UdpHeader \<Rightarrow> bytes \<Rightarrow> AssembledFrame" where
  "frame_of base d = mk_frame base (uh_timestampNs base) (hasFlag (uh_flags base) UdpFlag_Keyframe) d"

definition frag_count :: "bytes \<Rightarrow> nat" where
  "frag_count d = unat (fragmentCountFor (length d))"

text \<open>A frame of at most 1024 fragments.\<close>

definition frame_fits :: "bytes \<Rightarrow> bool" where
  "frame_fits d \<longleftrightarrow> length d \<le> unat kMaxFragments * kMaxUdpPayload"

lemma ceil_div_bounds:
  assumes "0 < (l :: nat)"
  shows "l \<le> (l + 1099) div 1100 * 1100" "((l + 1099) div 1100 - 1) * 1100 < l"
    "0 < (l + 1099) div 1100" "l \<le> 1126400 \<Longrightarrow> (l + 1099) div 1100 \<le> 1024"
  using assms by (simp_all add: div_greater_zero_iff)

lemma frag_count_bounds:
  assumes "frame_fits d" and "d \<noteq> []"
  shows "length d \<le> frag_count d * kMaxUdpPayload" "(frag_count d - 1) * kMaxUdpPayload < length d"
    "0 < frag_count d" "frag_count d \<le> 1024"
proof -
  have n: "frag_count d = (length d + 1099) div 1100"
    using assms fragmentCountFor_exact [of "length d"]
    by (simp add: frag_count_def frame_fits_def kMaxUdpPayload_def kMaxFragments_def)
  have "0 < length d" "length d \<le> 1126400"
    using assms by (simp_all add: frame_fits_def kMaxUdpPayload_def kMaxFragments_def)
  then show "length d \<le> frag_count d * kMaxUdpPayload" "(frag_count d - 1) * kMaxUdpPayload < length d"
    "0 < frag_count d" "frag_count d \<le> 1024"
    unfolding n kMaxUdpPayload_def by (simp_all only: ceil_div_bounds)
qed

lemma length_frag_slice:
  assumes "frame_fits d" and "d \<noteq> []" and "i < frag_count d"
  shows "i * kMaxUdpPayload + length (frag_slice d i) \<le> length d"
    and "length (frag_slice d i) \<le> kMaxUdpPayload" and "0 < length (frag_slice d i)"
    and "j < length d \<Longrightarrow> j div kMaxUdpPayload = i \<longleftrightarrow>
           i * kMaxUdpPayload \<le> j \<and> j < i * kMaxUdpPayload + length (frag_slice d i)"
    and "i + 1 = frag_count d \<Longrightarrow> i * kMaxUdpPayload + length (frag_slice d i) = length d"
proof -
  have lt: "i * kMaxUdpPayload < length d"
    using frag_count_bounds(2) [OF assms(1,2)] assms(3)
      mult_le_mono1 [of i "frag_count d - 1" kMaxUdpPayload] by linarith
  then show "i * kMaxUdpPayload + length (frag_slice d i) \<le> length d"
    and "length (frag_slice d i) \<le> kMaxUdpPayload" and "0 < length (frag_slice d i)"
    by (auto simp: frag_slice_def kMaxUdpPayload_def)
  show "j div kMaxUdpPayload = i \<longleftrightarrow>
      i * kMaxUdpPayload \<le> j \<and> j < i * kMaxUdpPayload + length (frag_slice d i)" if "j < length d"
    using that lt by (auto simp: frag_slice_def kMaxUdpPayload_def div_nat_eqI min_def)
  show "i * kMaxUdpPayload + length (frag_slice d i) = length d" if "i + 1 = frag_count d"
    using frag_count_bounds(1) [OF assms(1,2)] lt that [symmetric]
    by (auto simp: frag_slice_def kMaxUdpPayload_def)
qed

lemma nth_frag_slice:
  "i * kMaxUdpPayload \<le> j \<Longrightarrow> j < i * kMaxUdpPayload + length (frag_slice d i) \<Longrightarrow>
   frag_slice d i ! (j - i * kMaxUdpPayload) = d ! j"
  by (simp add: frag_slice_def)

lemma frag_header_base [simp]:
  "uh_sequence (frag_header base d i) = uh_sequence base" "uh_type (frag_header base d i) = uh_type base"
  "uh_sessionId (frag_header base d i) = uh_sessionId base" "uh_flags (frag_header base d i) = uh_flags base"
  "uh_timestampNs (frag_header base d i) = uh_timestampNs base"
  "uh_magic (frag_header base d i) = uh_magic base" "uh_version (frag_header base d i) = uh_version base"
  by (simp_all add: frag_header_def)

lemma unat_of_nat_u16: "n < 65536 \<Longrightarrow> unat (of_nat n :: u16) = n"
  by (simp add: unat_of_nat)

lemma unat_plus_one_u16: "unat x \<le> 1024 \<Longrightarrow> unat (x + 1 :: u16) = unat x + 1"
  by (simp add: unat_word_ariths)

lemma frag_header_simps:
  assumes "frame_fits d" and "d \<noteq> []" and "i < frag_count d"
  shows "unat (uh_fragmentIndex (frag_header base d i)) = i"
    and "uh_fragmentCount (frag_header base d i) = fragmentCountFor (length d)"
    and "unat (uh_payloadSize (frag_header base d i)) = length (frag_slice d i)"
    and "uh_fragmentIndex (frag_header base d i) < fragmentCountFor (length d)"
proof -
  show i: "unat (uh_fragmentIndex (frag_header base d i)) = i"
    using frag_count_bounds(4) [OF assms(1,2)] assms(3) by (simp add: frag_header_def unat_of_nat_u16)
  show "uh_fragmentCount (frag_header base d i) = fragmentCountFor (length d)"
    by (simp add: frag_header_def)
  show "unat (uh_payloadSize (frag_header base d i)) = length (frag_slice d i)"
    using length_frag_slice(2) [OF assms] by (simp add: frag_header_def unat_of_nat_u16 kMaxUdpPayload_def)
  show "uh_fragmentIndex (frag_header base d i) < fragmentCountFor (length d)"
    using i assms(3) by (simp add: word_less_nat_alt frag_count_def)
qed

text \<open>What a buffer holds after the fragments \<open>S\<close> of the frame arrived.\<close>

definition buf_holds :: "UdpHeader \<Rightarrow> bytes \<Rightarrow> nat set \<Rightarrow> FrameBuf \<Rightarrow> bool" where
  "buf_holds base d S fb \<longleftrightarrow> S \<subseteq> {..<frag_count d} \<and> buf_wf fb \<and>
     fb_fragmentCount fb = fragmentCountFor (length d) \<and>
     (\<forall>i < frag_count d. fb_have fb ! i = (i \<in> S)) \<and> unat (fb_received fb) = card S \<and>
     (frag_count d - 1 \<in> S \<longrightarrow> fb_totalSize fb = length d) \<and>
     fb_timestampNs fb = uh_timestampNs base \<and>
     fb_keyframe fb = hasFlag (uh_flags base) UdpFlag_Keyframe \<and>
     (\<forall>j < length d. j div kMaxUdpPayload \<in> S \<longrightarrow> fb_data fb ! j = d ! j)"

lemma nth_splice:
  "off + length p \<le> length xs \<Longrightarrow> j < length xs \<Longrightarrow>
   (take off xs @ p @ drop (off + length p) xs) ! j =
     (if off \<le> j \<and> j < off + length p then p ! (j - off) else xs ! j)"
  by (auto simp: nth_append min_def)

lemma buf_holds_start:
  assumes "frame_fits d" and "d \<noteq> []"
  shows "buf_holds base d {} (start_buf (frag_header base d i) FrameBuf_new)"
proof -
  have "fragmentCountFor (length d) \<noteq> 0"
    using frag_count_bounds(3) [OF assms] by (auto simp: frag_count_def)
  then show ?thesis
    by (simp add: buf_holds_def start_buf_def FrameBuf_new_def buf_wf_def frag_header_def frag_count_def)
qed

lemma buf_holds_copy:
  assumes fits: "frame_fits d" "d \<noteq> []" and i: "i < frag_count d" "i \<notin> S" and fb: "buf_holds base d S fb"
  shows "buf_holds base d (insert i S) (copy_fragment (frag_header base d i) (frag_slice d i) fb)"
    (is "buf_holds base d _ ?fb")
proof -
  note hdr = frag_header_simps [OF fits i(1), of base] and len = length_frag_slice [OF fits i(1)]
  have S: "S \<subseteq> {..<frag_count d}" and wf: "buf_wf fb" using fb by (simp_all add: buf_holds_def)
  have ld: "length d \<le> length (fb_data fb)"
    using fb frag_count_bounds(1) [OF fits] by (simp add: buf_holds_def buf_wf_def frag_count_def)
  have off: "i * kMaxUdpPayload + length (frag_slice d i) \<le> length (fb_data fb)" using len(1) ld by simp
  have "buf_wf ?fb" by (rule copy_fragment_wf [OF wf]) (use hdr off in simp_all)
  moreover have "unat (fb_received ?fb) = card (insert i S)"
  proof -
    have fin: "finite S" by (rule finite_subset [OF S]) simp
    have "card S \<le> 1024" using card_mono [OF finite_lessThan S] frag_count_bounds(4) [OF fits] by simp
    then have "unat (fb_received fb + 1) = unat (fb_received fb) + 1"
      using fb by (intro unat_plus_one_u16) (simp add: buf_holds_def)
    then show ?thesis
      using fb i(2) fin by (simp add: copy_fragment_def Let_def buf_holds_def)
  qed
  moreover have "fb_data ?fb ! j = d ! j"
    if j: "j < length d" "j div kMaxUdpPayload \<in> insert i S" for j
  proof -
    have "fb_data ?fb ! j = (if j div kMaxUdpPayload = i then frag_slice d i ! (j - i * kMaxUdpPayload)
        else fb_data fb ! j)"
      using nth_splice [OF off, of j] j(1) ld len(4) [OF j(1)] hdr
      by (simp add: copy_fragment_def Let_def)
    moreover have "frag_slice d i ! (j - i * kMaxUdpPayload) = d ! j" if "j div kMaxUdpPayload = i"
      using len(4) [OF j(1)] that by (intro nth_frag_slice) simp_all
    ultimately show ?thesis using j fb by (auto simp: buf_holds_def)
  qed
  moreover have "fb_totalSize ?fb = length d" if "frag_count d - 1 \<in> insert i S"
  proof (cases "i + 1 = frag_count d")
    case True
    then have "(frag_count d - 1) * kMaxUdpPayload + length (frag_slice d i) = length d"
      using len(5) by (metis add_diff_cancel_right')
    with True show ?thesis using hdr by (simp add: copy_fragment_def Let_def frag_count_def)
  next
    case False
    then show ?thesis
      using that fb i hdr by (auto simp: copy_fragment_def Let_def buf_holds_def frag_count_def)
  qed
  moreover have "fb_have ?fb ! k = (k \<in> insert i S)" if "k < frag_count d" for k
    using fb i(1) that hdr
    by (auto simp: copy_fragment_def Let_def buf_holds_def buf_wf_def frag_count_def nth_list_update)
  ultimately show ?thesis
    using fb i(1) by (auto simp: buf_holds_def copy_fragment_def Let_def)
qed

text \<open>One fragment, fed to the buffer that holds \<open>S\<close>.\<close>

lemma fragment_repeated:
  assumes "frame_fits d" "d \<noteq> []" "i \<in> S" and fb: "buf_holds base d S fb"
  shows "feed_fragment (frag_header base d i) (frag_slice d i) fb r =
    Inr (r\<lparr>ra_frames := omap_upd (uh_sequence base) fb (ra_frames r)\<rparr>, None)"
proof -
  have "i < frag_count d" using assms(3) fb by (auto simp: buf_holds_def)
  then show ?thesis
    using frag_header_simps [OF assms(1,2), of i base] assms(3) fb
    by (simp add: feed_fragment_def Let_def buf_holds_def)
qed

lemma fragment_new:
  assumes fits: "frame_fits d" "d \<noteq> []" and i: "i < frag_count d" "i \<notin> S" and fb: "buf_holds base d S fb"
  defines "fb' \<equiv> copy_fragment (frag_header base d i) (frag_slice d i) fb"
  shows "feed_fragment (frag_header base d i) (frag_slice d i) fb r =
    (if insert i S = {..<frag_count d}
     then Inr (r\<lparr>ra_frames := omap_del (uh_sequence base) (ra_frames r), ra_completed := ra_completed r + 1\<rparr>,
               Some (frame_of base d))
     else Inr (r\<lparr>ra_frames := omap_upd (uh_sequence base) fb' (ra_frames r)\<rparr>, None))"
proof -
  note hdr = frag_header_simps [OF fits i(1), of base] and len = length_frag_slice [OF fits i(1)]
  have fb': "buf_holds base d (insert i S) fb'"
    unfolding fb'_def by (rule buf_holds_copy [OF fits i fb])
  then have sub: "insert i S \<subseteq> {..<frag_count d}" by (simp add: buf_holds_def)
  have ld: "length d \<le> length (fb_data b)" if "buf_holds base d T b" for T b
    using that frag_count_bounds(1) [OF fits] by (simp add: buf_holds_def buf_wf_def frag_count_def)
  have all: "fb_received fb' = fb_fragmentCount fb' \<longleftrightarrow> insert i S = {..<frag_count d}"
  proof -
    have "fb_received fb' = fb_fragmentCount fb' \<longleftrightarrow> card (insert i S) = card {..<frag_count d}"
      using fb' by (simp add: buf_holds_def word_unat_eq_iff frag_count_def)
    then show ?thesis using sub card_subset_eq [OF finite_lessThan sub] by auto
  qed
  have full: "fb_totalSize fb' = length d \<and> take (length d) (fb_data fb') = d" if "insert i S = {..<frag_count d}"
  proof -
    have "j div kMaxUdpPayload < frag_count d" if "j < length d" for j
      using frag_count_bounds(1) [OF fits] that by (simp add: less_mult_imp_div_less)
    with that fb' frag_count_bounds(3) [OF fits] ld [OF fb'] show ?thesis
      by (auto simp: buf_holds_def intro!: nth_equalityI)
  qed
  have skip: "\<not> (uh_fragmentIndex (frag_header base d i) \<ge> fb_fragmentCount fb \<or> fb_have fb ! i)"
    using fb hdr(4) i by (auto simp: buf_holds_def)
  have room: "\<not> i * kMaxUdpPayload + length (frag_slice d i) > length (fb_data fb)"
    using len(1) ld [OF fb] by simp
  have meta: "fb_timestampNs fb' = uh_timestampNs base" "fb_keyframe fb' = hasFlag (uh_flags base) UdpFlag_Keyframe"
    using fb' by (simp_all add: buf_holds_def)
  have "\<not> length d > length (fb_data fb')" using ld [OF fb'] by simp
  with skip room all full fits(2) meta show ?thesis
    by (simp add: feed_fragment_def Let_def fb'_def [symmetric] hdr frame_of_def mk_frame_def)
qed

section \<open>A frame in progress\<close>

text \<open>A reassembler that can take one more frame, and its states while the fragments of the frame
  with the header \<open>base\<close> arrive.\<close>

definition has_room :: "u64 \<Rightarrow> FragmentReassembler \<Rightarrow> bool" where
  "has_room sq r \<longleftrightarrow> ra_wf r \<and> map_of (ra_frames r) sq = None \<and> length (ra_frames r) < kMaxInFlight"

definition in_progress ::
  "UdpHeader \<Rightarrow> bytes \<Rightarrow> FragmentReassembler \<Rightarrow> nat set \<Rightarrow> FragmentReassembler \<Rightarrow> bool" where
  "in_progress base d r0 S r \<longleftrightarrow> ra_completed r = ra_completed r0 \<and>
     (if S = {} then ra_frames r = ra_frames r0
      else \<exists>fb. ra_frames r = omap_upd (uh_sequence base) fb (ra_frames r0) \<and> buf_holds base d S fb)"

definition frag :: "UdpHeader \<Rightarrow> bytes \<Rightarrow> nat \<Rightarrow> UdpHeader \<times> bytes" where
  "frag base d i = (frag_header base d i, frag_slice d i)"

lemma feed_in_progress:
  assumes fits: "frame_fits d" "1 < frag_count d" and room: "has_room (uh_sequence base) r0"
    and r: "in_progress base d r0 S r" and i: "i < frag_count d"
  shows "\<exists>r'. feed (frag_header base d i) (frag_slice d i) r =
      Inr (r', if i \<notin> S \<and> insert i S = {..<frag_count d} then Some (frame_of base d) else None) \<and>
    (if i \<notin> S \<and> insert i S = {..<frag_count d}
     then ra_frames r' = ra_frames r0 \<and> ra_completed r' = ra_completed r0 + 1
     else in_progress base d r0 (insert i S) r')"
proof -
  let ?sq = "uh_sequence base" and ?h = "frag_header base d i"
  have d: "d \<noteq> []" using fits(2) by (auto simp: frag_count_def fragmentCountFor_def)
  have absent: "map_of (ra_frames r0) ?sq = None" and wf0: "frames_wf (ra_frames r0)"
    and len: "length (ra_frames r0) < kMaxInFlight"
    using room by (auto simp: has_room_def ra_wf_def)
  have cnt: "uh_fragmentCount ?h = fragmentCountFor (length d)" "fragmentCountFor (length d) \<noteq> 1"
    using fits(2) by (auto simp: frag_header_def frag_count_def)
  have short: "length (omap_upd ?sq b (ra_frames r0)) \<le> kMaxInFlight" for b
    using length_omap_upd [of ?sq b "ra_frames r0"] len by simp
  show ?thesis
  proof (cases "S = {}")
    case True
    then have fr: "ra_frames r = ra_frames r0" using r by (simp add: in_progress_def)
    have "feed ?h (frag_slice d i) r = feed_fragment ?h (frag_slice d i) (start_buf ?h FrameBuf_new)
        ((ra_touch ?sq r)\<lparr>ra_frames := omap_upd ?sq FrameBuf_new (ra_frames r0)\<rparr>)"
      using feed_fresh [of r ?h "frag_slice d i"] fr absent cnt short [of FrameBuf_new] by simp
    with fragment_new [OF fits(1) d i _ buf_holds_start [OF fits(1) d], of base i] True r fr
      buf_holds_copy [OF fits(1) d i _ buf_holds_start [OF fits(1) d], of base i]
    show ?thesis by (auto simp: in_progress_def omap_del_upd [OF absent])
  next
    case False
    then obtain fb where fb: "ra_frames r = omap_upd ?sq fb (ra_frames r0)" "buf_holds base d S fb"
      using r by (auto simp: in_progress_def)
    have "ra_wf r"
      using wf0 fb short [of fb] by (auto simp: ra_wf_def frames_wf_def set_omap_upd buf_holds_def)
    then have "feed ?h (frag_slice d i) r = feed_fragment ?h (frag_slice d i) fb (ra_touch ?sq r)"
      using feed_known [of r ?h fb "frag_slice d i"] fb cnt by (simp add: buf_holds_def)
    with fragment_new [OF fits(1) d i _ fb(2)] fragment_repeated [OF fits(1) d _ fb(2), of i]
      buf_holds_copy [OF fits(1) d i _ fb(2)] False r fb
    show ?thesis by (cases "i \<in> S") (auto simp: in_progress_def omap_del_upd [OF absent] insert_absorb)
  qed
qed

lemma feed_all_snoc:
  "feed_all (xs @ [(h, p)]) r =
     (case feed_all xs r of
        Inl e \<Rightarrow> Inl e
      | Inr (r1, fs) \<Rightarrow>
          (case feed h p r1 of
             Inl e \<Rightarrow> Inl e
           | Inr (r2, f) \<Rightarrow> Inr (r2, fs @ (case f of None \<Rightarrow> [] | Some g \<Rightarrow> [g]))))"
  by (induction xs arbitrary: r) (auto split: sum.splits option.splits)

lemma feed_all_in_progress:
  assumes "frame_fits d" "1 < frag_count d" "has_room (uh_sequence base) r0" "set is \<subset> {..<frag_count d}"
  shows "\<exists>r. feed_all (map (frag base d) is) r0 = Inr (r, []) \<and> in_progress base d r0 (set is) r"
  using assms(4)
proof (induction "is" rule: rev_induct)
  case Nil
  then show ?case by (simp add: in_progress_def)
next
  case (snoc i js)
  then obtain r where r: "feed_all (map (frag base d) js) r0 = Inr (r, [])" "in_progress base d r0 (set js) r"
    by auto
  from snoc.prems have "i < frag_count d" "\<not> (i \<notin> set js \<and> insert i (set js) = {..<frag_count d})" by auto
  with feed_in_progress [OF assms(1-3) r(2), of i] obtain r' where
    "feed (frag_header base d i) (frag_slice d i) r = Inr (r', None)"
    "in_progress base d r0 (insert i (set js)) r'" by auto
  with r(1) show ?case by (simp add: feed_all_snoc frag_def [of base d i])
qed

lemma reassemble:
  assumes "frame_fits d" and "1 < frag_count d" and "has_room (uh_sequence base) r"
    and "i \<notin> set js" and "insert i (set js) = {..<frag_count d}"
  shows "\<exists>r'. feed_all (map (frag base d) (js @ [i])) r = Inr (r', [frame_of base d]) \<and>
              ra_frames r' = ra_frames r \<and> ra_completed r' = ra_completed r + 1"
proof -
  have i: "i < frag_count d" using assms(5) by auto
  have "set js \<subset> {..<frag_count d}" using assms(4,5) by auto
  from feed_all_in_progress [OF assms(1-3) this] obtain r1 where
    r1: "feed_all (map (frag base d) js) r = Inr (r1, [])" "in_progress base d r (set js) r1" by blast
  from feed_in_progress [OF assms(1-3) r1(2) i] assms(4,5) obtain r' where
    "feed (frag_header base d i) (frag_slice d i) r1 = Inr (r', Some (frame_of base d))"
    "ra_frames r' = ra_frames r" "ra_completed r' = ra_completed r + 1" by auto
  with r1(1) show ?thesis by (simp add: feed_all_snoc frag_def [of base d i])
qed

section \<open>Properties\<close>

lemma feed_fragment_no_fault:
  assumes "buf_wf fb" and "unat (uh_payloadSize h) \<le> length payload" and "unat (uh_payloadSize h) \<le> kMaxUdpPayload"
  shows "\<exists>r' f. feed_fragment h payload fb r = Inr (r', f)"
proof -
  have "i * kMaxUdpPayload + unat (uh_payloadSize h) \<le> length (fb_data fb)" if "i < unat (fb_fragmentCount fb)" for i
    using mult_le_mono1 [of "Suc i" "unat (fb_fragmentCount fb)" kMaxUdpPayload] that assms(1,3)
    by (simp add: buf_wf_def)
  from this [of "unat (uh_fragmentIndex h)"] assms(2) show ?thesis
    by (simp add: feed_fragment_def Let_def word_le_nat_alt) linarith
qed

text \<open>C3: Reassembly is correct for every arrival order, with duplicates: when the fragments of a frame
  reach a well-formed reassembler that has room for it in the order \<open>js @ [i]\<close>, where \<open>i\<close> is the
  last missing fragment and \<open>js\<close> holds the others in any order and any number of times, no
  fragment before the last completes anything, the last one delivers exactly the frame that was
  cut up, and the buffers of all other frames are untouched.
\<close>

theorem reassembly_any_order:
  assumes "frame_fits d" and "1 < frag_count d" and "has_room (uh_sequence base) r"
    and "i \<notin> set js" and "insert i (set js) = {..<frag_count d}"
  shows "\<exists>r'. feed_all (map (frag base d) (js @ [i])) r = Inr (r', [frame_of base d]) \<and>
              ra_frames r' = ra_frames r \<and> ra_completed r' = ra_completed r + 1"
  by (rule reassemble [OF assms])

theorem reassembly_any_order_witness:
  "\<exists>r'. feed_all (map (frag UdpHeader_default (replicate 2500 7)) ([2, 0, 2] @ [1])) (FragmentReassembler_new 0)
       = Inr (r', [frame_of UdpHeader_default (replicate 2500 7)])"
proof -
  have n: "frag_count (replicate 2500 7) = 3"
    by (simp add: frag_count_def fragmentCountFor_def kMaxUdpPayload_def)
  have "{..<3 :: nat} = {0, 1, 2}" by auto
  then have "\<exists>r'. feed_all (map (frag UdpHeader_default (replicate 2500 7)) ([2, 0, 2] @ [1])) (FragmentReassembler_new 0)
        = Inr (r', [frame_of UdpHeader_default (replicate 2500 7)]) \<and>
      ra_frames r' = ra_frames (FragmentReassembler_new 0) \<and>
      ra_completed r' = ra_completed (FragmentReassembler_new 0) + 1"
    by (intro reassembly_any_order)
      (auto simp: n frame_fits_def kMaxFragments_def kMaxUdpPayload_def has_room_def kMaxInFlight_def
        FragmentReassembler_new_def ra_wf_def frames_wf_def)
  then show ?thesis by blast
qed

text \<open>A new frame that a full reassembler would evict at once.\<close>

definition stale_when_full :: "UdpHeader \<Rightarrow> FragmentReassembler \<Rightarrow> bool" where
  "stale_when_full h r \<longleftrightarrow> uh_fragmentCount h \<noteq> 1 \<and> uh_sequence h \<notin> fst ` set (ra_frames r) \<and>
     kMaxInFlight \<le> length (ra_frames r) \<and> uh_sequence h < fst (hd (ra_frames r))"

lemma fresh_evicts:
  assumes "uh_sequence h \<notin> fst ` set (ra_frames r)" and "ra_wf r"
  shows "kMaxInFlight < length (omap_upd (uh_sequence h) FrameBuf_new (ra_frames r)) \<and>
      fst (hd (omap_upd (uh_sequence h) FrameBuf_new (ra_frames r))) = uh_sequence h \<longleftrightarrow>
    kMaxInFlight \<le> length (ra_frames r) \<and> uh_sequence h < fst (hd (ra_frames r))"
  using assms length_omap_upd [of "uh_sequence h" FrameBuf_new "ra_frames r"]
  by (cases "ra_frames r") (auto simp: kMaxInFlight_def map_of_eq_None_iff split: if_splits)

lemma feed_result:
  assumes wf: "ra_wf r" and dec: "decodeUdpHeader dg = Some h" and small: "unat (uh_payloadSize h) \<le> kMaxUdpPayload"
  shows "if stale_when_full h r then feed h (drop kUdpHeaderSize dg) r = Inl DanglingBuffer
    else \<exists>r' f. feed h (drop kUdpHeaderSize dg) r = Inr (r', f)"
proof -
  let ?p = "drop kUdpHeaderSize dg" and ?sq = "uh_sequence h"
  have p: "unat (uh_payloadSize h) \<le> length ?p" and cnt: "uh_fragmentCount h \<noteq> 0"
    using dec by (auto simp: decodeUdpHeader_iff udp_header_ok_def)
  consider (one) "uh_fragmentCount h = 1"
    | (fresh) "uh_fragmentCount h \<noteq> 1" "map_of (ra_frames r) ?sq = None"
    | (known) fb where "uh_fragmentCount h \<noteq> 1" "map_of (ra_frames r) ?sq = Some fb" by fastforce
  then show ?thesis
  proof cases
    case one
    with p show ?thesis by (simp add: feed_def stale_when_full_def)
  next
    case fresh
    then have absent: "?sq \<notin> fst ` set (ra_frames r)" by (simp add: map_of_eq_None_iff)
    have "stale_when_full h r \<longleftrightarrow> kMaxInFlight < length (omap_upd ?sq FrameBuf_new (ra_frames r)) \<and>
        fst (hd (omap_upd ?sq FrameBuf_new (ra_frames r))) = ?sq"
      using fresh_evicts [OF absent wf] fresh(1) absent by (simp add: stale_when_full_def)
    with feed_fragment_no_fault [OF buf_wf_start [OF cnt] p small] show ?thesis
      by (auto simp: feed_fresh [OF fresh(2,1)])
  next
    case known
    then have "buf_wf fb" using wf map_of_SomeD [OF known(2)] by (auto simp: ra_wf_def frames_wf_def)
    moreover have "\<not> stale_when_full h r"
      using map_of_SomeD [OF known(2)] by (force simp: stale_when_full_def)
    ultimately show ?thesis
      using feed_fragment_no_fault [OF _ p small] by (auto simp: feed_known [OF wf known(2,1)])
  qed
qed

text \<open>C25: What feeding the payload of a datagram that \<open>decodeUdpHeader\<close> accepted does to memory, when the
  payload is not larger than the 1100 bytes a sender ever puts into a fragment. It uses a buffer it has
  just freed exactly when the datagram begins a frame of several fragments that is older than every one
  of the 96 buffered frames of a full reassembler; in every other case it is memory-safe and keeps the
  reassembler well-formed (at most 96 ordered buffers, each with the size its fragment count demands).
\<close>

theorem feed_memory_safe:
  assumes "ra_wf r" and "decodeUdpHeader dg = Some h" and "unat (uh_payloadSize h) \<le> kMaxUdpPayload"
  shows "if stale_when_full h r then feed h (drop kUdpHeaderSize dg) r = Inl DanglingBuffer
    else \<exists>r' f. feed h (drop kUdpHeaderSize dg) r = Inr (r', f) \<and> ra_wf r'"
proof -
  have "uh_fragmentCount h \<noteq> 0" using assms(2) by (auto simp: decodeUdpHeader_iff udp_header_ok_def)
  with feed_result [OF assms] feed_wf [OF assms(1)] show ?thesis by metis
qed

text \<open>Both cases occur: an empty reassembler takes the fragment, and one that holds the frames 1 to 96 and is
  given a fragment of frame 0 uses the freed buffer.\<close>

definition two_part :: UdpHeader where
  "two_part = UdpHeader_default\<lparr>uh_fragmentCount := 2, uh_payloadSize := 3\<rparr>"

definition full_reassembler :: FragmentReassembler where
  "full_reassembler = (FragmentReassembler_new 0)\<lparr>ra_frames :=
     map (\<lambda>k. (of_nat k, start_buf two_part FrameBuf_new)) [1..<97]\<rparr>"

lemma full_reassembler_wf: "ra_wf full_reassembler"
proof -
  have "(of_nat i :: u64) < of_nat j" if "i < j" "j < 97" for i j
    using that by (simp add: word_less_nat_alt unat_of_nat)
  then have "sorted_wrt (<) (map (of_nat :: nat \<Rightarrow> u64) [1..<97])"
    by (simp add: sorted_wrt_map sorted_wrt_iff_nth_less del: of_nat_add of_nat_Suc)
  moreover have "buf_wf (start_buf two_part FrameBuf_new)" by (rule buf_wf_start) (simp add: two_part_def)
  ultimately show ?thesis
    by (auto simp: full_reassembler_def ra_wf_def frames_wf_def omap_wf_def kMaxInFlight_def comp_def simp del: upt_rec_numeral)
qed

theorem feed_memory_safe_witness:
  "(\<exists>r' f. feed two_part (drop kUdpHeaderSize (encodeUdpHeader two_part @ [1, 2, 3])) (FragmentReassembler_new 0) = Inr (r', f) \<and> ra_wf r') \<and>
   feed two_part (drop kUdpHeaderSize (encodeUdpHeader two_part @ [1, 2, 3])) full_reassembler = Inl DanglingBuffer"
proof
  have d: "decodeUdpHeader (encodeUdpHeader two_part @ [1, 2, 3]) = Some two_part" "unat (uh_payloadSize two_part) \<le> kMaxUdpPayload"
    by (simp_all add: two_part_def decodeUdpHeader_iff udp_header_ok_def UdpHeader_default_def kMaxFragments_def kMaxUdpPayload_def)
  have e: "ra_wf (FragmentReassembler_new 0)" "\<not> stale_when_full two_part (FragmentReassembler_new 0)"
    by (simp_all add: FragmentReassembler_new_def ra_wf_def frames_wf_def stale_when_full_def kMaxInFlight_def)
  show "\<exists>r' f. feed two_part (drop kUdpHeaderSize (encodeUdpHeader two_part @ [1, 2, 3])) (FragmentReassembler_new 0) = Inr (r', f) \<and> ra_wf r'"
    using feed_memory_safe [OF e(1) d] e(2) by simp
  have "uh_sequence two_part \<notin> fst ` set (ra_frames full_reassembler)"
    by (auto simp: two_part_def UdpHeader_default_def full_reassembler_def word_unat_eq_iff unat_of_nat simp del: upt_rec_numeral)
  then have "stale_when_full two_part full_reassembler"
    by (simp add: stale_when_full_def two_part_def UdpHeader_default_def kMaxInFlight_def full_reassembler_def upt_conv_Cons del: upt_rec_numeral)
  then show "feed two_part (drop kUdpHeaderSize (encodeUdpHeader two_part @ [1, 2, 3])) full_reassembler = Inl DanglingBuffer"
    using feed_memory_safe [OF full_reassembler_wf d] by simp
qed

text \<open>The size of a fragment is not checked: a datagram that \<open>decodeUdpHeader\<close> accepts, carrying the
  last fragment of a frame the reassembler does not know with more than 1100 payload bytes, makes
  \<open>feed\<close> write past the end of the buffer it just allocated.
\<close>

theorem feed_oversized_overflows:
  assumes "decodeUdpHeader dg = Some h" and "uh_fragmentIndex h + 1 = uh_fragmentCount h"
    and "uh_fragmentCount h \<noteq> 1" and "kMaxUdpPayload < unat (uh_payloadSize h)"
    and "map_of (ra_frames r) (uh_sequence h) = None" and "length (ra_frames r) < kMaxInFlight"
  shows "feed h (drop kUdpHeaderSize dg) r = Inl HeapOverflow"
proof -
  let ?fb = "start_buf h FrameBuf_new" and ?i = "unat (uh_fragmentIndex h)"
  have h: "unat (uh_payloadSize h) \<le> length (drop kUdpHeaderSize dg)"
    "uh_fragmentIndex h < uh_fragmentCount h" "unat (uh_fragmentCount h) \<le> 1024"
    using assms(1) by (auto simp: decodeUdpHeader_iff udp_header_ok_def kMaxFragments_def word_le_nat_alt)
  then have i: "unat (uh_fragmentCount h) = ?i + 1"
    using unat_plus_one_u16 [of "uh_fragmentIndex h"] assms(2) by (simp add: word_less_nat_alt)
  have "length (omap_upd (uh_sequence h) FrameBuf_new (ra_frames r)) \<le> kMaxInFlight"
    using length_omap_upd [of "uh_sequence h" FrameBuf_new "ra_frames r"] assms(6) by simp
  then have "feed h (drop kUdpHeaderSize dg) r = feed_fragment h (drop kUdpHeaderSize dg) ?fb
      ((ra_touch (uh_sequence h) r)\<lparr>ra_frames := omap_upd (uh_sequence h) FrameBuf_new (ra_frames r)\<rparr>)"
    using feed_fresh [OF assms(5,3)] by simp
  moreover have "fb_fragmentCount ?fb = uh_fragmentCount h" "\<not> fb_have ?fb ! ?i"
    "length (fb_data ?fb) = (?i + 1) * kMaxUdpPayload"
    by (simp_all add: start_buf_def i del: replicate_Suc)
  ultimately show ?thesis using h assms(4) by (simp add: feed_fragment_def Let_def)
qed

theorem feed_oversized_overflows_witness:
  "feed (UdpHeader_default\<lparr>uh_fragmentIndex := 1, uh_fragmentCount := 2, uh_payloadSize := 1101\<rparr>)
     (drop kUdpHeaderSize (encodeUdpHeader (UdpHeader_default\<lparr>uh_fragmentIndex := 1, uh_fragmentCount := 2,
        uh_payloadSize := 1101\<rparr>) @ replicate 1101 0)) (FragmentReassembler_new 0) = Inl HeapOverflow"
  by (rule feed_oversized_overflows)
    (simp_all add: decodeUdpHeader_iff udp_header_ok_def UdpHeader_default_def kMaxFragments_def
      kMaxUdpPayload_def FragmentReassembler_new_def kMaxInFlight_def)

end
