(* ===== verification/JitterBuffer.thy ===== *)
theory JitterBuffer
  imports UdpProtocol "HOL-Library.Multiset"
begin

text \<open>
  \<^verbatim>\<open>JitterBuffer\<close> of \<^verbatim>\<open>networking/UdpProtocol.cpp\<close>: completed frames wait in sequence order until the
  target delay has passed. The bubble step of \<^verbatim>\<open>push\<close> is the index loop of the code; \<^verbatim>\<open>pop\<close> is
  recursion on the queue it consumes. Times and sequence numbers are \<open>u64\<close>, the target delay is the
  32-bit \<^verbatim>\<open>unsigned\<close>.
\<close>

record Entry =
  en_frame :: AssembledFrame
  en_arriveNs :: u64

abbreviation en_seq :: "Entry \<Rightarrow> u64" where
  "en_seq e \<equiv> af_sequence (en_frame e)"

record JitterBuffer =
  jb_queue :: "Entry list"
  jb_targetMs :: u32
  jb_reordered :: u64
  jb_overflowDropped :: u64
  jb_lastPoppedSequence :: u64
  jb_initialized :: bool

definition kHighWatermark :: nat where "kHighWatermark = 8"

definition JitterBuffer_new :: "u32 \<Rightarrow> JitterBuffer" where
  "JitterBuffer_new ms = \<lparr>jb_queue = [], jb_targetMs = ms, jb_reordered = 0, jb_overflowDropped = 0,
     jb_lastPoppedSequence = 0, jb_initialized = False\<rparr>"

text \<open>\<^verbatim>\<open>while (queue_.size() >= kHighWatermark * 2) { ++overflowDropped_; queue_.pop_front(); }\<close>\<close>

fun drop_backlog :: "Entry list \<Rightarrow> u64 \<Rightarrow> Entry list \<times> u64" where
  "drop_backlog [] n = ([], n)"
| "drop_backlog (e # q) n =
     (if length (e # q) \<ge> kHighWatermark * 2 then drop_backlog q (n + 1) else (e # q, n))"

text \<open>\<^verbatim>\<open>for (size_t i = queue_.size() - 1; i > 0; --i)\<close>: swap with the left neighbour or stop.\<close>

fun bubble :: "Entry list \<Rightarrow> nat \<Rightarrow> Entry list" where
  "bubble q 0 = q"
| "bubble q (Suc i) =
     (if en_seq (q ! Suc i) < en_seq (q ! i)
      then bubble (q[Suc i := q ! i, i := q ! Suc i]) i
      else q)"

definition jb_push :: "AssembledFrame \<Rightarrow> u64 \<Rightarrow> JitterBuffer \<Rightarrow> JitterBuffer" where
  "jb_push frame nowNs j =
     (if jb_initialized j \<and> af_sequence frame \<le> jb_lastPoppedSequence j \<and> jb_lastPoppedSequence j > 0
      then j\<lparr>jb_reordered := jb_reordered j + 1\<rparr>
      else let (q, n) = drop_backlog (jb_queue j) (jb_overflowDropped j);
               q = q @ [\<lparr>en_frame = frame, en_arriveNs = nowNs\<rparr>]
           in j\<lparr>jb_queue := bubble q (length q - 1), jb_overflowDropped := n\<rparr>)"

text \<open>Whether the head of the queue (of length \<open>len\<close>) is due.\<close>

definition jb_waited :: "u64 \<Rightarrow> Entry \<Rightarrow> u64" where
  "jb_waited nowNs e = (if nowNs > en_arriveNs e then nowNs - en_arriveNs e else 0)"

definition jb_ready :: "u64 \<Rightarrow> nat \<Rightarrow> Entry \<Rightarrow> JitterBuffer \<Rightarrow> bool" where
  "jb_ready nowNs len front j =
     (let waited = jb_waited nowNs front;
          waitedEnough = waited \<ge> ucast (jb_targetMs j) * 1000000;
          overflow = len > kHighWatermark;
          gapAhead = jb_initialized j \<and> en_seq front > jb_lastPoppedSequence j + 1
      in waitedEnough \<or> overflow \<or> (gapAhead \<and> waited \<ge> ucast (jb_targetMs j) div 2))"

fun pop_loop :: "u64 \<Rightarrow> Entry list \<Rightarrow> JitterBuffer \<Rightarrow> JitterBuffer \<times> AssembledFrame list" where
  "pop_loop nowNs [] j = (j\<lparr>jb_queue := []\<rparr>, [])"
| "pop_loop nowNs (e # q) j =
     (if jb_ready nowNs (length (e # q)) e j
      then let (j', out) = pop_loop nowNs q (j\<lparr>jb_lastPoppedSequence := en_seq e, jb_initialized := True\<rparr>)
           in (j', en_frame e # out)
      else (j\<lparr>jb_queue := e # q\<rparr>, []))"

definition jb_pop :: "u64 \<Rightarrow> JitterBuffer \<Rightarrow> JitterBuffer \<times> AssembledFrame list" where
  "jb_pop nowNs j = pop_loop nowNs (jb_queue j) j"

definition jb_setTargetMs :: "u32 \<Rightarrow> JitterBuffer \<Rightarrow> JitterBuffer" where
  "jb_setTargetMs ms j = j\<lparr>jb_targetMs := ms\<rparr>"

definition jb_reset :: "JitterBuffer \<Rightarrow> JitterBuffer" where
  "jb_reset j = j\<lparr>jb_queue := [], jb_reordered := 0, jb_overflowDropped := 0,
     jb_lastPoppedSequence := 0, jb_initialized := False\<rparr>"

section \<open>The bubble step is ordered insertion\<close>

abbreviation seq_sorted :: "Entry list \<Rightarrow> bool" where
  "seq_sorted q \<equiv> sorted (map en_seq q)"

lemma bubble_insert:
  "seq_sorted p \<Longrightarrow>
   bubble (p @ e # r) (length p) =
     takeWhile (\<lambda>x. en_seq x \<le> en_seq e) p @ e # dropWhile (\<lambda>x. en_seq x \<le> en_seq e) p @ r"
proof (induction p arbitrary: r rule: rev_induct)
  case Nil
  then show ?case by simp
next
  case (snoc x p)
  have at: "(p @ x # e # r) ! length p = x" "(p @ x # e # r) ! Suc (length p) = e"
    by (simp_all add: nth_append)
  show ?case
  proof (cases "en_seq e < en_seq x")
    case True
    then have "bubble ((p @ [x]) @ e # r) (length (p @ [x])) = bubble (p @ e # x # r) (length p)"
      using at by (simp add: list_update_append)
    with snoc True show ?thesis
      by (auto simp: sorted_append takeWhile_append dropWhile_append)
  next
    case False
    then have "\<forall>y \<in> set (p @ [x]). en_seq y \<le> en_seq e"
      using snoc.prems by (fastforce simp: sorted_append)
    with at False show ?thesis by (simp add: takeWhile_append2 dropWhile_append2)
  qed
qed

lemma seq_sorted_insert:
  "seq_sorted p \<Longrightarrow>
   seq_sorted (takeWhile (\<lambda>x. en_seq x \<le> en_seq e) p @ e # dropWhile (\<lambda>x. en_seq x \<le> en_seq e) p)"
proof (induction p)
  case Nil
  then show ?case by simp
next
  case (Cons a p)
  have "set (takeWhile P p) \<union> set (dropWhile P p) = set p" for P
    by (metis set_append takeWhile_dropWhile_id)
  with Cons show ?case by fastforce
qed

lemma push_queue:
  fixes e :: Entry
  assumes "seq_sorted q"
  shows "seq_sorted (bubble (q @ [e]) (length q))" "mset (bubble (q @ [e]) (length q)) = add_mset e (mset q)"
    "set (bubble (q @ [e]) (length q)) = insert e (set q)" "length (bubble (q @ [e]) (length q)) = Suc (length q)"
proof -
  have "mset (takeWhile P q) + mset (dropWhile P q) = mset q" for P
    by (metis mset_append takeWhile_dropWhile_id)
  then show m: "mset (bubble (q @ [e]) (length q)) = add_mset e (mset q)"
    by (simp add: bubble_insert [OF assms, of e "[]"])
  show "seq_sorted (bubble (q @ [e]) (length q))"
    using seq_sorted_insert [OF assms, of e] by (simp add: bubble_insert [OF assms, of e "[]"])
  show "set (bubble (q @ [e]) (length q)) = insert e (set q)"
    by (metis m set_mset_add_mset_insert set_mset_mset)
  show "length (bubble (q @ [e]) (length q)) = Suc (length q)"
    by (metis m size_add_mset size_mset)
qed

section \<open>Invariant\<close>

definition jb_floor :: "JitterBuffer \<Rightarrow> u64 \<Rightarrow> bool" where
  "jb_floor j s \<longleftrightarrow> (jb_initialized j \<longrightarrow> jb_lastPoppedSequence j \<le> s)"

definition jb_inv :: "JitterBuffer \<Rightarrow> bool" where
  "jb_inv j \<longleftrightarrow> seq_sorted (jb_queue j) \<and> length (jb_queue j) \<le> 2 * kHighWatermark \<and>
     (\<forall>e \<in> set (jb_queue j). jb_floor j (en_seq e))"

lemma drop_backlog_spec:
  "length (fst (drop_backlog q n)) < 2 * kHighWatermark \<and> (\<exists>k. fst (drop_backlog q n) = drop k q)"
proof (induction q n rule: drop_backlog.induct)
  case (1 n)
  then show ?case by (simp add: kHighWatermark_def)
next
  case (2 e q n)
  show ?case
  proof (cases "length (e # q) \<ge> kHighWatermark * 2")
    case True
    with 2 obtain k where "fst (drop_backlog q (n + 1)) = drop k q" by blast
    with 2 True show ?thesis by (auto intro: exI [of _ "Suc k"])
  next
    case False
    then show ?thesis by (auto intro: exI [of _ 0])
  qed
qed

lemma jb_inv_new: "jb_inv (JitterBuffer_new ms)"
  by (simp add: jb_inv_def JitterBuffer_new_def)

lemma jb_inv_push: "jb_inv j \<Longrightarrow> jb_inv (jb_push f now j)"
proof -
  assume inv: "jb_inv j"
  let ?late = "jb_initialized j \<and> af_sequence f \<le> jb_lastPoppedSequence j \<and> jb_lastPoppedSequence j > 0"
  let ?e = "\<lparr>en_frame = f, en_arriveNs = now\<rparr>"
  show ?thesis
  proof (cases ?late)
    case True
    with inv show ?thesis by (simp add: jb_push_def jb_inv_def jb_floor_def)
  next
    case False
    obtain k where k: "fst (drop_backlog (jb_queue j) (jb_overflowDropped j)) = drop k (jb_queue j)"
      "length (drop k (jb_queue j)) < 2 * kHighWatermark"
      using drop_backlog_spec [of "jb_queue j" "jb_overflowDropped j"] by auto
    have sorted: "seq_sorted (drop k (jb_queue j))"
      using inv by (simp add: jb_inv_def sorted_wrt_drop flip: drop_map)
    have "jb_floor j (en_seq ?e)"
      using False by (cases "jb_lastPoppedSequence j = 0") (auto simp: jb_floor_def word_neq_0_conv)
    with False inv k push_queue [OF sorted, of ?e] show ?thesis
      by (auto simp: jb_push_def jb_inv_def jb_floor_def Let_def case_prod_beta dest: in_set_dropD)
  qed
qed

text \<open>What one \<open>pop\<close> takes out is a prefix of the queue, in order, and moves the floor to its end.\<close>

lemma pop_loop_spec:
  assumes "pop_loop now q j = (j', out)"
  shows "map en_frame q = out @ map en_frame (jb_queue j') \<and> (\<exists>k. jb_queue j' = drop k q) \<and>
    (if out = [] then jb_initialized j' = jb_initialized j \<and> jb_lastPoppedSequence j' = jb_lastPoppedSequence j
     else jb_initialized j' \<and> jb_lastPoppedSequence j' = af_sequence (last out)) \<and>
    (jb_queue j' = [] \<or> \<not> jb_ready now (length (jb_queue j')) (hd (jb_queue j')) j')"
  using assms
proof (induction now q j arbitrary: j' out rule: pop_loop.induct)
  case (1 nowNs j)
  then show ?case by auto
next
  case (2 nowNs e q j)
  show ?case
  proof (cases "jb_ready nowNs (length (e # q)) e j")
    case True
    let ?j1 = "j\<lparr>jb_lastPoppedSequence := en_seq e, jb_initialized := True\<rparr>"
    from True "2.prems" obtain o1 where o1: "pop_loop nowNs q ?j1 = (j', o1)" "out = en_frame e # o1"
      by (auto split: prod.splits)
    note ih = "2.IH" [OF True o1(1)]
    then obtain k where "jb_queue j' = drop k q" by blast
    then have "\<exists>k. jb_queue j' = drop k (e # q)" by (intro exI [of _ "Suc k"]) simp
    with ih o1(2) show ?thesis by (cases "o1 = []") auto
  next
    case False
    with "2.prems" have "j' = j\<lparr>jb_queue := e # q\<rparr>" "out = []" by auto
    moreover have "jb_ready nowNs n e (j\<lparr>jb_queue := x\<rparr>) = jb_ready nowNs n e j" for n x
      by (simp add: jb_ready_def)
    ultimately show ?thesis using False by (auto intro: exI [of _ 0])
  qed
qed

lemma pop_out:
  assumes inv: "jb_inv j" and pop: "jb_pop now j = (j', out)"
  shows "jb_inv j'" and "sorted (map af_sequence out)" and "\<forall>f \<in> set out. jb_floor j (af_sequence f)"
    and "\<forall>f \<in> set out. jb_initialized j' \<and> af_sequence f \<le> jb_lastPoppedSequence j'"
    and "\<forall>s. jb_floor j' s \<longrightarrow> jb_floor j s"
proof -
  note spec = pop_loop_spec [OF pop [unfolded jb_pop_def]]
  then obtain k where k: "jb_queue j' = drop k (jb_queue j)" by blast
  have q: "map af_sequence out @ map en_seq (jb_queue j') = map en_seq (jb_queue j)"
    using arg_cong [where f = "map af_sequence", OF spec [THEN conjunct1]] by (simp add: comp_def)
  then have sorted: "sorted (map af_sequence out @ map en_seq (jb_queue j'))"
    using inv by (simp add: jb_inv_def)
  then show so: "sorted (map af_sequence out)" by (simp add: sorted_append)
  show fl: "\<forall>f \<in> set out. jb_floor j (af_sequence f)"
  proof
    fix f assume "f \<in> set out"
    then have "af_sequence f \<in> set (map en_seq (jb_queue j))" unfolding q [symmetric] by simp
    with inv show "jb_floor j (af_sequence f)" by (auto simp: jb_inv_def)
  qed
  have last: "af_sequence f \<le> af_sequence (last out)" if "f \<in> set out" for f
    using so that by (cases out rule: rev_cases) (auto simp: sorted_append)
  then show top: "\<forall>f \<in> set out. jb_initialized j' \<and> af_sequence f \<le> jb_lastPoppedSequence j'"
    using spec by (auto split: if_splits)
  show "\<forall>s. jb_floor j' s \<longrightarrow> jb_floor j s"
  proof (cases "out = []")
    case True
    with spec show ?thesis by (simp add: jb_floor_def)
  next
    case False
    with fl have "jb_floor j (af_sequence (last out))" by simp
    with False spec show ?thesis by (auto simp: jb_floor_def)
  qed
  have "jb_floor j' (en_seq e)" if "e \<in> set (jb_queue j')" for e
  proof (cases "out = []")
    case True
    with spec inv that k show ?thesis by (auto simp: jb_inv_def jb_floor_def dest: in_set_dropD)
  next
    case False
    with spec sorted that show ?thesis by (auto simp: jb_floor_def sorted_append)
  qed
  with sorted inv k show "jb_inv j'" by (auto simp: jb_inv_def sorted_append)
qed

lemma jb_inv_set: "jb_inv j \<Longrightarrow> jb_inv (jb_setTargetMs ms j)"
  by (simp add: jb_inv_def jb_setTargetMs_def jb_floor_def)

lemma jb_inv_reset: "jb_inv (jb_reset j)"
  by (simp add: jb_inv_def jb_reset_def)

datatype jb_event = JPush AssembledFrame u64 | JPop u64 | JSetTarget u32

fun jb_handle :: "jb_event \<Rightarrow> JitterBuffer \<Rightarrow> JitterBuffer \<times> AssembledFrame list" where
  "jb_handle (JPush f now) j = (jb_push f now j, [])"
| "jb_handle (JPop now) j = jb_pop now j"
| "jb_handle (JSetTarget ms) j = (jb_setTargetMs ms j, [])"

lemma jb_handle_inv: "jb_inv j \<Longrightarrow> jb_inv (fst (jb_handle e j))"
  using pop_out(1) [of j _ "fst (jb_handle e j)" "snd (jb_handle e j)"]
  by (cases e) (auto simp: jb_inv_push jb_inv_set)

interpretation jb: output_machine "JitterBuffer_new ms" jb_handle jb_inv "\<lambda>_. True"
  by unfold_locales (simp_all add: jb_inv_new jb_handle_inv)

lemma jb_handle_out:
  assumes "jb_inv j" and "jb_handle e j = (j', out)"
  shows "sorted (map af_sequence out)" and "\<forall>f \<in> set out. jb_floor j (af_sequence f)"
    and "\<forall>f \<in> set out. jb_initialized j' \<and> af_sequence f \<le> jb_lastPoppedSequence j'"
    and "\<forall>s. jb_floor j' s \<longrightarrow> jb_floor j s"
proof -
  have "jb_floor (jb_push f now j) = jb_floor j" "jb_floor (jb_setTargetMs ms j) = jb_floor j" for f now ms
    by (simp_all add: jb_push_def jb_floor_def jb_setTargetMs_def fun_eq_iff Let_def case_prod_beta)
  with assms pop_out [OF assms(1)]
  show "sorted (map af_sequence out)" and "\<forall>f \<in> set out. jb_floor j (af_sequence f)"
    and "\<forall>f \<in> set out. jb_initialized j' \<and> af_sequence f \<le> jb_lastPoppedSequence j'"
    and "\<forall>s. jb_floor j' s \<longrightarrow> jb_floor j s"
    by (cases e; fastforce)+
qed

lemma jb_run_sorted:
  assumes "jb_inv j"
  shows "sorted (map af_sequence (snd (run_out jb_handle es j))) \<and>
    (\<forall>f \<in> set (snd (run_out jb_handle es j)). jb_floor j (af_sequence f))"
  using assms
proof (induction es arbitrary: j)
  case Nil
  then show ?case by simp
next
  case (Cons e es)
  obtain j1 o1 where h: "jb_handle e j = (j1, o1)" by (cases "jb_handle e j")
  obtain j2 o2 where r: "run_out jb_handle es j1 = (j2, o2)" by (cases "run_out jb_handle es j1")
  have "jb_inv j1" using jb_handle_inv [OF Cons.prems, of e] h by simp
  with Cons.IH [of j1] r have o2: "sorted (map af_sequence o2)" "\<forall>f \<in> set o2. jb_floor j1 (af_sequence f)"
    by simp_all
  note o1 = jb_handle_out [OF Cons.prems h]
  have "\<forall>f \<in> set o1. \<forall>g \<in> set o2. af_sequence f \<le> af_sequence g"
    using o1(3) o2(2) by (meson jb_floor_def order_trans)
  with o1 o2 h r show ?case by (auto simp: sorted_append)
qed

section \<open>Properties\<close>

text \<open>In every run of pushes, pops and target changes the frames leave the jitter buffer in
  nondecreasing sequence order, whatever the order they arrive in, and the queue stays in order and
  never holds more than 16 frames.
\<close>

theorem jitter_pops_in_order:
  "sorted (map af_sequence (snd (run_out jb_handle es (JitterBuffer_new ms)))) \<and>
   sorted (map en_seq (jb_queue (fst (run_out jb_handle es (JitterBuffer_new ms))))) \<and>
   length (jb_queue (fst (run_out jb_handle es (JitterBuffer_new ms)))) \<le> 16"
  using jb_run_sorted [OF jb_inv_new, of es ms] jb.run_out_inv [OF jb_inv_new, of es ms]
  by (simp add: jb_inv_def kHighWatermark_def)

text \<open>A pop neither loses nor holds back frames: what it returns followed by what it keeps is the
  queue as it was, and the first frame it keeps (if any) has waited less than the target delay in
  a queue of at most eight frames.
\<close>

theorem jitter_pop_complete:
  "(case jb_pop nowNs j of (j', out) \<Rightarrow>
      map en_frame (jb_queue j) = out @ map en_frame (jb_queue j') \<and>
      (jb_queue j' = [] \<or>
       jb_waited nowNs (hd (jb_queue j')) < ucast (jb_targetMs j') * 1000000 \<and> length (jb_queue j') \<le> 8))"
  using pop_loop_spec [of nowNs "jb_queue j" j]
  by (auto simp: jb_pop_def jb_ready_def Let_def kHighWatermark_def not_le not_less split: prod.splits)

text \<open>When fewer than sixteen frames wait, a frame that is not behind the last popped one enters the
  buffer: the queue after the push is the queue before it plus the new frame at its place in the
  order; a frame behind the last popped one only counts as reordered.
\<close>

theorem jitter_push_inserts:
  assumes "jb_inv j" and "length (jb_queue j) < 16"
  shows "if jb_initialized j \<and> af_sequence f \<le> jb_lastPoppedSequence j \<and> jb_lastPoppedSequence j > 0
    then jb_push f now j = j\<lparr>jb_reordered := jb_reordered j + 1\<rparr>
    else seq_sorted (jb_queue (jb_push f now j)) \<and>
         mset (jb_queue (jb_push f now j)) =
           add_mset \<lparr>en_frame = f, en_arriveNs = now\<rparr> (mset (jb_queue j))"
proof -
  have "drop_backlog (jb_queue j) n = (jb_queue j, n)" for n
    using assms(2) by (cases "jb_queue j") (auto simp: kHighWatermark_def)
  with push_queue [of "jb_queue j"] assms(1) show ?thesis
    by (simp add: jb_push_def jb_inv_def)
qed

theorem jitter_push_inserts_witness:
  "let f = \<lparr>af_type = 0, af_sessionId = 1, af_sequence = 5, af_timestampNs = 0, af_keyframe = True, af_data = []\<rparr>
   in mset (jb_queue (jb_push f 7 (JitterBuffer_new 30))) = {#\<lparr>en_frame = f, en_arriveNs = 7\<rparr>#}"
  using jitter_push_inserts [OF jb_inv_new, of 30]
  by (simp add: JitterBuffer_new_def)

end
