(* ===== verification/UdpTransport.thy ===== *)
theory UdpTransport
  imports Complex_Main Reassembly JitterBuffer SecureChannel
begin

text \<open>
  \<^verbatim>\<open>networking/UdpTransport.cpp\<close>: the datagram path of one session. The state has every member that a
  handler reads or writes; the crypto sink is the state \<open>'c\<close> of an implementation of
  \<open>UdpCryptoSink\<close>, whose operations \<open>ops\<close> are passed along. \<^verbatim>\<open>steadyNowNs()\<close> is an argument \<open>now\<close> of
  a handler (one value per handler). Lambdas posted to the io thread are outputs (\<open>PostDatagram\<close>,
  \<open>PostKeyframeRequest\<close>), and the body of the lambda that sends is \<open>sendPosted\<close>; an asio
  send either succeeds or fails, which is its argument. A fault of the reassembler is a fault of
  the handler. The statistics in milliseconds are rationals.
\<close>

type_synonym endpoint = "string \<times> u16"

record 'c UdpTransport =
  ut_running :: bool
  ut_hasSocket :: bool
  ut_peer :: endpoint
  ut_havePeer :: bool
  ut_sessionId :: u32
  ut_locked :: "endpoint option"
  ut_relay :: "endpoint option"
  ut_dropUnknownRemote :: bool
  ut_secure :: "'c option"
  ut_video :: FragmentReassembler
  ut_audio :: FragmentReassembler
  ut_input :: FragmentReassembler
  ut_videoSeq :: SequenceTracker
  ut_audioSeq :: SequenceTracker
  ut_videoJitter :: JitterBuffer
  ut_audioJitter :: JitterBuffer
  ut_videoTargetMs :: u32
  ut_audioTargetMs :: u32
  ut_seqCounter :: "u64 list"
  ut_autoKeyframe :: bool
  ut_lastKeyframeReqNs :: u64
  ut_lastRxAbsNs :: u64
  ut_lastArrivalNs :: u64
  ut_jitterEWMA :: rat
  ut_lastRttMs :: rat
  ut_avgRttMs :: rat
  ut_pingSeq :: u32
  ut_pingIntervalMs :: u32
  ut_sentDatagrams :: u64
  ut_sentBytes :: u64
  ut_sendErrors :: u64
  ut_sentFrames :: u64
  ut_recvDatagrams :: u64
  ut_recvBytes :: u64
  ut_malformed :: u64
  ut_wrongSession :: u64
  ut_authDrops :: u64

datatype ut_output =
    PostDatagram bytes
  | PostKeyframeRequest
  | SendTo endpoint bytes
  | InputCb AssembledFrame
  | ControlCb UdpType bytes

type_synonym 'c ut_result = "feed_fault + 'c UdpTransport \<times> ut_output list"

definition UdpTransport_new :: "'c UdpTransport" where
  "UdpTransport_new = \<lparr>ut_running = False, ut_hasSocket = False, ut_peer = ('''', 0), ut_havePeer = False,
     ut_sessionId = 0, ut_locked = None, ut_relay = None, ut_dropUnknownRemote = True, ut_secure = None,
     ut_video = FragmentReassembler_new UdpType_Video, ut_audio = FragmentReassembler_new UdpType_Audio,
     ut_input = FragmentReassembler_new UdpType_Input, ut_videoSeq = SequenceTracker_new,
     ut_audioSeq = SequenceTracker_new, ut_videoJitter = JitterBuffer_new 30, ut_audioJitter = JitterBuffer_new 30,
     ut_videoTargetMs = 30, ut_audioTargetMs = 30, ut_seqCounter = replicate 9 0, ut_autoKeyframe = True,
     ut_lastKeyframeReqNs = 0, ut_lastRxAbsNs = 0, ut_lastArrivalNs = 0, ut_jitterEWMA = 0, ut_lastRttMs = 0,
     ut_avgRttMs = 0, ut_pingSeq = 0, ut_pingIntervalMs = 0, ut_sentDatagrams = 0, ut_sentBytes = 0,
     ut_sendErrors = 0, ut_sentFrames = 0, ut_recvDatagrams = 0, ut_recvBytes = 0, ut_malformed = 0,
     ut_wrongSession = 0, ut_authDrops = 0\<rparr>"

text \<open>\<open>bound\<close> is whether opening and binding the socket succeeded. \<open>stop\<close> joins the io thread, so the
  posted close has run when it returns; on the io thread itself it only closes the socket, which
  is then still there but refuses to send.\<close>

definition ut_stop :: "'c UdpTransport \<Rightarrow> 'c UdpTransport" where
  "ut_stop t = t\<lparr>ut_running := False, ut_hasSocket := False\<rparr>"

definition ut_stop_on_io :: "'c UdpTransport \<Rightarrow> 'c UdpTransport" where
  "ut_stop_on_io t = t\<lparr>ut_running := False\<rparr>"

definition ut_bind :: "bool \<Rightarrow> 'c UdpTransport \<Rightarrow> 'c UdpTransport \<times> bool" where
  "ut_bind bound t =
     (let t = ut_stop t in
      if bound then (t\<lparr>ut_hasSocket := True, ut_running := True\<rparr>, True) else (t, False))"

definition setPeer :: "endpoint \<Rightarrow> 'c UdpTransport \<Rightarrow> 'c UdpTransport" where
  "setPeer ep t = t\<lparr>ut_peer := ep, ut_havePeer := True\<rparr>"

definition lockToRemote :: "endpoint \<Rightarrow> 'c UdpTransport \<Rightarrow> 'c UdpTransport" where
  "lockToRemote ep t = t\<lparr>ut_locked := Some ep\<rparr>"

definition setRelayFallback :: "endpoint \<Rightarrow> 'c UdpTransport \<Rightarrow> 'c UdpTransport" where
  "setRelayFallback ep t = t\<lparr>ut_relay := Some ep\<rparr>"

definition next_seq :: "UdpType \<Rightarrow> 'c UdpTransport \<Rightarrow> u64 \<times> 'c UdpTransport" where
  "next_seq ty t =
     (let n = ut_seqCounter t ! unat ty in (n, t\<lparr>ut_seqCounter := (ut_seqCounter t)[unat ty := n + 1]\<rparr>))"

section \<open>Sending\<close>

definition frame_datagram ::
  "UdpType \<Rightarrow> bool \<Rightarrow> bytes \<Rightarrow> u64 \<Rightarrow> u32 \<Rightarrow> u64 \<Rightarrow> u16 \<Rightarrow> nat \<Rightarrow> bytes" where
  "frame_datagram ty keyframe dat ts sid frameSeq frags fi =
     (let off = fi * kMaxUdpPayload;
          payloadSize = (if fi + 1 = unat frags then of_nat (length dat - off) else of_nat kMaxUdpPayload) :: u16;
          h = UdpHeader_default\<lparr>uh_type := ty,
                uh_flags := (if keyframe then UdpFlag_Keyframe else 0) OR (if frags > 1 then UdpFlag_Fragment else 0),
                uh_sessionId := sid, uh_sequence := frameSeq, uh_fragmentIndex := of_nat fi,
                uh_fragmentCount := frags, uh_timestampNs := ts, uh_payloadSize := payloadSize\<rparr>
      in encodeUdpHeader h @ take (unat payloadSize) (drop off dat))"

definition sendFrame ::
  "UdpType \<Rightarrow> bool \<Rightarrow> bytes \<Rightarrow> u64 \<Rightarrow> 'c UdpTransport \<Rightarrow> 'c UdpTransport \<times> ut_output list" where
  "sendFrame ty keyframe dat ts t =
     (if \<not> ut_running t \<or> \<not> ut_hasSocket t \<or> \<not> ut_havePeer t then (t, [])
      else let frags = fragmentCountFor (length dat) in
      if frags < 1 then (t, [])
      else let t = t\<lparr>ut_sentFrames := ut_sentFrames t + 1\<rparr>;
               (frameSeq, t) = next_seq ty t
           in (t, map (\<lambda>fi. PostDatagram (frame_datagram ty keyframe dat ts (ut_sessionId t) frameSeq frags fi))
                    [0..<unat frags]))"

definition sendSmall :: "u64 \<Rightarrow> UdpType \<Rightarrow> bytes \<Rightarrow> 'c UdpTransport \<Rightarrow> 'c UdpTransport \<times> ut_output list" where
  "sendSmall now ty dat t =
     (if \<not> ut_running t \<or> \<not> ut_hasSocket t \<or> \<not> ut_havePeer t then (t, [])
      else let dat = take kMaxUdpPayload dat;
               (sq, t) = next_seq ty t;
               h = UdpHeader_default\<lparr>uh_type := ty, uh_sessionId := ut_sessionId t, uh_sequence := sq,
                     uh_fragmentCount := 1, uh_fragmentIndex := 0, uh_timestampNs := now,
                     uh_payloadSize := of_nat (length dat)\<rparr>
           in (t, [PostDatagram (encodeUdpHeader h @ dat)]))"

definition requestKeyframe :: "u64 \<Rightarrow> 'c UdpTransport \<Rightarrow> 'c UdpTransport \<times> ut_output list" where
  "requestKeyframe now t = sendSmall now UdpType_KeyframeRequest [0] t"

text \<open>The body of the lambda of \<^verbatim>\<open>postDatagram\<close>; \<open>sent\<close> is whether \<^verbatim>\<open>send_to\<close> succeeds. The header it
  decodes is that of the datagram before sealing; the result of the decoder is ignored, so after a
  failure the header holds the fields read until then.\<close>

definition decoded_into :: "bytes \<Rightarrow> UdpHeader \<Rightarrow> UdpHeader" where
  "decoded_into buf h =
     (let out = parse_fields buf; m = h\<lparr>uh_magic := uh_magic out\<rparr>; v = m\<lparr>uh_version := uh_version out\<rparr>
      in if length buf < kUdpHeaderSize then h
         else if uh_magic out \<noteq> kUdpMagic then m
         else if uh_version out \<noteq> kUdpVersion then v
         else if uh_type out > 8 then v\<lparr>uh_type := uh_type out\<rparr>
         else out)"

definition sealed_datagram :: "bytes \<Rightarrow> bytes \<Rightarrow> bytes" where
  "sealed_datagram dg out =
     (let h = decoded_into dg UdpHeader_default;
          h = h\<lparr>uh_flags := uh_flags h OR UdpFlag_Encrypted, uh_payloadSize := of_nat (length out)\<rparr>
      in encodeUdpHeader h @ out)"

definition count_sent :: "bool \<Rightarrow> bytes \<Rightarrow> 'c UdpTransport \<Rightarrow> 'c UdpTransport \<times> ut_output list" where
  "count_sent sent dg t =
     (if sent then (t\<lparr>ut_sentDatagrams := ut_sentDatagrams t + 1,
                      ut_sentBytes := ut_sentBytes t + of_nat (length dg)\<rparr>, [SendTo (ut_peer t) dg])
      else (t\<lparr>ut_sendErrors := ut_sendErrors t + 1\<rparr>, []))"

definition sendPosted ::
  "'c UdpCryptoSink \<Rightarrow> bool \<Rightarrow> bytes \<Rightarrow> 'c UdpTransport \<Rightarrow> 'c UdpTransport \<times> ut_output list" where
  "sendPosted ops sent dg t =
     (if \<not> ut_hasSocket t \<or> \<not> ut_havePeer t then (t, [])
      else case ut_secure t of
        None \<Rightarrow> count_sent sent dg t
      | Some c \<Rightarrow>
          (case cs_seal ops dg (drop kUdpHeaderSize dg) c of
             (c', None) \<Rightarrow> (t\<lparr>ut_secure := Some c'\<rparr>, [])
           | (c', Some out) \<Rightarrow> count_sent sent (sealed_datagram dg out) (t\<lparr>ut_secure := Some c'\<rparr>)))"

text \<open>Raw packets to the relay and to a hole-punch target; they bypass the crypto sink.\<close>

definition relay_bind_packet :: "string \<Rightarrow> bytes" where
  "relay_bind_packet token =
     str_bytes ''RPBIND'' @ take 32 (str_bytes token) @ replicate (32 - min 32 (length token)) 0"

definition sendRelayBind :: "bool \<Rightarrow> string \<Rightarrow> 'c UdpTransport \<Rightarrow> 'c UdpTransport \<times> ut_output list" where
  "sendRelayBind sent token t =
     (if \<not> ut_running t \<or> \<not> ut_hasSocket t \<or> \<not> ut_havePeer t then (t, [])
      else if sent then (t, [SendTo (ut_peer t) (relay_bind_packet token)])
      else (t\<lparr>ut_sendErrors := ut_sendErrors t + 1\<rparr>, []))"

definition punch_datagram :: "u32 \<Rightarrow> bytes" where
  "punch_datagram sid =
     encodeUdpHeader (UdpHeader_default\<lparr>uh_type := UdpType_Control, uh_flags := UdpFlag_Fragment,
       uh_sessionId := sid, uh_sequence := 0, uh_payloadSize := 4\<rparr>) @ le_put 4 (0x50494d50 :: u32)"

definition sendPunch :: "bool \<Rightarrow> endpoint \<Rightarrow> 'c UdpTransport \<Rightarrow> 'c UdpTransport \<times> ut_output list" where
  "sendPunch sent ep t =
     (if \<not> ut_running t \<or> \<not> ut_hasSocket t then (t, [])
      else let dg = punch_datagram (ut_sessionId t) in
      if sent then (t\<lparr>ut_sentDatagrams := ut_sentDatagrams t + 1,
                      ut_sentBytes := ut_sentBytes t + of_nat (length dg)\<rparr>, [SendTo ep dg])
      else (t\<lparr>ut_sendErrors := ut_sendErrors t + 1\<rparr>, []))"

definition relay_fallback :: "u64 \<Rightarrow> 'c UdpTransport \<Rightarrow> 'c UdpTransport" where
  "relay_fallback now t =
     (case ut_relay t of
        None \<Rightarrow> t
      | Some relay \<Rightarrow>
          if ut_havePeer t \<and> ut_peer t \<noteq> relay \<and> ut_lastRxAbsNs t \<noteq> 0 \<and>
             now - ut_lastRxAbsNs t > 5000000000
          then t\<lparr>ut_peer := relay\<rparr> else t)"

definition sendPingOnce :: "u64 \<Rightarrow> 'c UdpTransport \<Rightarrow> 'c UdpTransport \<times> ut_output list" where
  "sendPingOnce now t =
     (if \<not> ut_running t then (t, [])
      else let t = relay_fallback now t; sq = ut_pingSeq t
           in sendSmall now UdpType_Ping (le_put 8 now @ le_put 4 sq) (t\<lparr>ut_pingSeq := sq + 1\<rparr>))"

definition startPings :: "u64 \<Rightarrow> u32 \<Rightarrow> 'c UdpTransport \<Rightarrow> 'c UdpTransport \<times> ut_output list" where
  "startPings now ms t =
     (if \<not> ut_running t then (t, []) else sendPingOnce now (t\<lparr>ut_pingIntervalMs := ms\<rparr>))"

definition onPingTimer :: "bool \<Rightarrow> u64 \<Rightarrow> 'c UdpTransport \<Rightarrow> 'c UdpTransport \<times> ut_output list" where
  "onPingTimer failed now t =
     (if failed \<or> \<not> ut_running t \<or> ut_pingIntervalMs t = 0 then (t, []) else sendPingOnce now t)"

definition stopPings :: "'c UdpTransport \<Rightarrow> 'c UdpTransport" where
  "stopPings t = t\<lparr>ut_pingIntervalMs := 0\<rparr>"

section \<open>Receiving\<close>

definition authDrop :: "'c UdpTransport \<Rightarrow> 'c UdpTransport" where
  "authDrop t = t\<lparr>ut_authDrops := ut_authDrops t + 1\<rparr>"

text \<open>Decryption before anything else looks at the payload: the header with the plaintext size and
  the clear payload, or nothing when the datagram is dropped.\<close>

definition clear_payload ::
  "'c UdpCryptoSink \<Rightarrow> bytes \<Rightarrow> UdpHeader \<Rightarrow> 'c UdpTransport \<Rightarrow> 'c UdpTransport \<times> (UdpHeader \<times> bytes) option" where
  "clear_payload ops buf h t =
     (let payload = drop kUdpHeaderSize buf in
      if hasFlag (uh_flags h) UdpFlag_Encrypted then
        (case ut_secure t of
           None \<Rightarrow> (authDrop t, None)
         | Some c \<Rightarrow>
             (case cs_open ops buf (take (unat (uh_payloadSize h)) payload) c of
                (c', None) \<Rightarrow> (authDrop (t\<lparr>ut_secure := Some c'\<rparr>), None)
              | (c', Some clear) \<Rightarrow>
                  (t\<lparr>ut_secure := Some c'\<rparr>, Some (h\<lparr>uh_payloadSize := of_nat (length clear)\<rparr>, clear))))
      else case ut_secure t of
        Some c \<Rightarrow> if cs_active ops c then (authDrop t, None) else (t, Some (h, payload))
      | None \<Rightarrow> (t, Some (h, payload)))"

definition sink_active :: "'c UdpCryptoSink \<Rightarrow> 'c UdpTransport \<Rightarrow> bool" where
  "sink_active ops t = (case ut_secure t of None \<Rightarrow> False | Some c \<Rightarrow> cs_active ops c)"

definition learn_peer :: "'c UdpCryptoSink \<Rightarrow> UdpHeader \<Rightarrow> endpoint \<Rightarrow> 'c UdpTransport \<Rightarrow> 'c UdpTransport" where
  "learn_peer ops h src t =
     (if \<not> ut_havePeer t then setPeer src t
      else if sink_active ops t \<and> hasFlag (uh_flags h) UdpFlag_Encrypted \<and> ut_peer t \<noteq> src \<and>
              (ut_locked t = None \<or> ut_locked t = Some (ut_peer t))
      then t\<lparr>ut_peer := src\<rparr> else t)"

definition unknown_remote :: "endpoint \<Rightarrow> 'c UdpTransport \<Rightarrow> bool" where
  "unknown_remote src t \<longleftrightarrow> ut_dropUnknownRemote t \<and> ut_locked t \<noteq> None \<and> ut_locked t \<noteq> Some src"

definition note_arrival :: "u64 \<Rightarrow> 'c UdpTransport \<Rightarrow> 'c UdpTransport" where
  "note_arrival now t =
     (let t = (if ut_lastArrivalNs t \<noteq> 0 \<and> now > ut_lastArrivalNs t
               then let dev = of_nat (unat (now - ut_lastArrivalNs t)) :: rat
                    in t\<lparr>ut_jitterEWMA := (if ut_jitterEWMA t = 0 then dev
                                             else ut_jitterEWMA t * (9/10) + dev * (1/10))\<rparr>
               else t)
      in t\<lparr>ut_lastArrivalNs := now\<rparr>)"

definition on_pong :: "u64 \<Rightarrow> UdpHeader \<Rightarrow> bytes \<Rightarrow> 'c UdpTransport \<Rightarrow> 'c UdpTransport" where
  "on_pong now h payload t =
     (if uh_payloadSize h \<ge> 12 then
        let sentNs = le_get 8 payload :: u64; rttMs = of_nat (unat (now - sentNs)) / 1000000 :: rat
        in if sentNs \<le> now
           then t\<lparr>ut_lastRttMs := rttMs,
                  ut_avgRttMs := (if ut_avgRttMs t = 0 then rttMs else ut_avgRttMs t * (8/10) + rttMs * (2/10))\<rparr>
           else t
      else t)"

definition handleMediaComplete :: "u64 \<Rightarrow> AssembledFrame \<Rightarrow> 'c UdpTransport \<Rightarrow> 'c UdpTransport \<times> ut_output list" where
  "handleMediaComplete now frame t =
     (if af_type frame = UdpType_Input then (t, [InputCb frame])
      else if af_type frame = UdpType_Video
      then (t\<lparr>ut_videoJitter := jb_push frame now (jb_setTargetMs (ut_videoTargetMs t) (ut_videoJitter t))\<rparr>, [])
      else if af_type frame = UdpType_Audio
      then (t\<lparr>ut_audioJitter := jb_push frame now (jb_setTargetMs (ut_audioTargetMs t) (ut_audioJitter t))\<rparr>, [])
      else (t, []))"

definition video_input :: "u64 \<Rightarrow> UdpHeader \<Rightarrow> bytes \<Rightarrow> 'c UdpTransport \<Rightarrow>
    feed_fault + 'c UdpTransport \<times> ut_output list \<times> AssembledFrame option" where
  "video_input now h payload t =
     (let (sq, gap) = track (uh_sequence h) (ut_videoSeq t) in
      case feed h payload (ut_video t) of
        Inl e \<Rightarrow> Inl e
      | Inr (r, f) \<Rightarrow>
          let t = t\<lparr>ut_videoSeq := sq, ut_video := ra_gc r\<rparr>
          in if gap > 1 \<and> ut_autoKeyframe t \<and> now - ut_lastKeyframeReqNs t > 500000000
             then Inr (t\<lparr>ut_lastKeyframeReqNs := now\<rparr>, [PostKeyframeRequest], f)
             else Inr (t, [], f))"

definition audio_input :: "UdpHeader \<Rightarrow> bytes \<Rightarrow> 'c UdpTransport \<Rightarrow>
    feed_fault + 'c UdpTransport \<times> ut_output list \<times> AssembledFrame option" where
  "audio_input h payload t =
     (let (sq, gap) = track (uh_sequence h) (ut_audioSeq t) in
      case feed h payload (ut_audio t) of
        Inl e \<Rightarrow> Inl e
      | Inr (r, f) \<Rightarrow> Inr (t\<lparr>ut_audioSeq := sq, ut_audio := ra_gc r\<rparr>, [], f))"

definition input_input :: "UdpHeader \<Rightarrow> bytes \<Rightarrow> 'c UdpTransport \<Rightarrow>
    feed_fault + 'c UdpTransport \<times> ut_output list \<times> AssembledFrame option" where
  "input_input h payload t =
     (case feed h payload (ut_input t) of
        Inl e \<Rightarrow> Inl e
      | Inr (r, f) \<Rightarrow> Inr (t\<lparr>ut_input := r\<rparr>, [], f))"

definition media_input :: "u64 \<Rightarrow> UdpHeader \<Rightarrow> bytes \<Rightarrow> 'c UdpTransport \<Rightarrow> 'c ut_result" where
  "media_input now h payload t =
     (case (if uh_type h = UdpType_Video then video_input now h payload t
            else if uh_type h = UdpType_Audio then audio_input h payload t
            else if uh_type h = UdpType_Input then input_input h payload t
            else Inr (t, [], None)) of
        Inl e \<Rightarrow> Inl e
      | Inr (t, os, None) \<Rightarrow> Inr (t, os)
      | Inr (t, os, Some f) \<Rightarrow> (case handleMediaComplete now f t of (t, os') \<Rightarrow> Inr (t, os @ os')))"

definition is_control :: "UdpType \<Rightarrow> bool" where
  "is_control ty \<longleftrightarrow> ty = UdpType_Control \<or> ty = UdpType_KeyframeRequest \<or> ty = UdpType_StreamStart \<or>
     ty = UdpType_StreamStop"

text \<open>The switch over the type, on an accepted datagram with its clear payload.\<close>

definition dispatch :: "u64 \<Rightarrow> UdpHeader \<Rightarrow> bytes \<Rightarrow> 'c UdpTransport \<Rightarrow> 'c ut_result" where
  "dispatch now h payload t =
     (let dat = take (unat (uh_payloadSize h)) payload in
      if uh_type h = UdpType_Ping then Inr (sendSmall now UdpType_Pong dat t)
      else if uh_type h = UdpType_Pong then Inr (on_pong now h payload t, [])
      else if is_control (uh_type h) then Inr (t, [ControlCb (uh_type h) dat])
      else media_input now h payload t)"

definition handleDatagram ::
  "'c UdpCryptoSink \<Rightarrow> u64 \<Rightarrow> bytes \<Rightarrow> endpoint \<Rightarrow> 'c UdpTransport \<Rightarrow> 'c ut_result" where
  "handleDatagram ops now buf src t =
     (let t = t\<lparr>ut_recvDatagrams := ut_recvDatagrams t + 1,
                 ut_recvBytes := ut_recvBytes t + of_nat (length buf)\<rparr> in
      case decodeUdpHeader buf of
        None \<Rightarrow> Inr (t\<lparr>ut_malformed := ut_malformed t + 1\<rparr>, [])
      | Some h \<Rightarrow>
          if ut_sessionId t \<noteq> 0 \<and> uh_sessionId h \<noteq> ut_sessionId t
          then Inr (t\<lparr>ut_wrongSession := ut_wrongSession t + 1\<rparr>, [])
          else case clear_payload ops buf h (t\<lparr>ut_lastRxAbsNs := now\<rparr>) of
            (t, None) \<Rightarrow> Inr (t, [])
          | (t, Some (h, payload)) \<Rightarrow>
              let t = learn_peer ops h src t in
              if unknown_remote src t then Inr (t, [])
              else dispatch now h payload (note_arrival now t))"

definition pollVideo :: "u64 \<Rightarrow> 'c UdpTransport \<Rightarrow> 'c UdpTransport \<times> AssembledFrame list" where
  "pollVideo now t = (case jb_pop now (ut_videoJitter t) of (j, out) \<Rightarrow> (t\<lparr>ut_videoJitter := j\<rparr>, out))"

definition pollAudio :: "u64 \<Rightarrow> 'c UdpTransport \<Rightarrow> 'c UdpTransport \<times> AssembledFrame list" where
  "pollAudio now t = (case jb_pop now (ut_audioJitter t) of (j, out) \<Rightarrow> (t\<lparr>ut_audioJitter := j\<rparr>, out))"

definition resetStats :: "'c UdpTransport \<Rightarrow> 'c UdpTransport" where
  "resetStats t = t\<lparr>ut_sentDatagrams := 0, ut_sentBytes := 0, ut_sendErrors := 0, ut_sentFrames := 0,
     ut_recvDatagrams := 0, ut_recvBytes := 0, ut_malformed := 0, ut_wrongSession := 0,
     ut_videoSeq := track_reset (ut_videoSeq t), ut_audioSeq := track_reset (ut_audioSeq t),
     ut_videoJitter := jb_reset (ut_videoJitter t), ut_audioJitter := jb_reset (ut_audioJitter t),
     ut_jitterEWMA := 0\<rparr>"

text \<open>The snapshot adds up the two streams; the jitter target and the queue are those of the video stream.\<close>

record UdpStatsSnapshot =
  us_sentDatagrams :: u64
  us_sentBytes :: u64
  us_sendErrors :: u64
  us_sentFrames :: u64
  us_recvDatagrams :: u64
  us_recvBytes :: u64
  us_malformed :: u64
  us_wrongSession :: u64
  us_assembledFrames :: u64
  us_droppedIncomplete :: u64
  us_lostFrames :: u64
  us_duplicates :: u64
  us_lateFrames :: u64
  us_reorderedFrames :: u64
  us_lastRttMs :: rat
  us_avgRttMs :: rat
  us_jitterMs :: rat
  us_jitterTargetMs :: u32
  us_jitterQueue :: nat

definition UdpStats_default :: UdpStatsSnapshot where
  "UdpStats_default = \<lparr>us_sentDatagrams = 0, us_sentBytes = 0, us_sendErrors = 0, us_sentFrames = 0, us_recvDatagrams = 0,
     us_recvBytes = 0, us_malformed = 0, us_wrongSession = 0, us_assembledFrames = 0, us_droppedIncomplete = 0,
     us_lostFrames = 0, us_duplicates = 0, us_lateFrames = 0, us_reorderedFrames = 0, us_lastRttMs = 0, us_avgRttMs = 0,
     us_jitterMs = 0, us_jitterTargetMs = 0, us_jitterQueue = 0\<rparr>"

definition ut_stats :: "'c UdpTransport \<Rightarrow> UdpStatsSnapshot" where
  "ut_stats t = \<lparr>us_sentDatagrams = ut_sentDatagrams t, us_sentBytes = ut_sentBytes t, us_sendErrors = ut_sendErrors t,
     us_sentFrames = ut_sentFrames t, us_recvDatagrams = ut_recvDatagrams t, us_recvBytes = ut_recvBytes t,
     us_malformed = ut_malformed t, us_wrongSession = ut_wrongSession t,
     us_assembledFrames = ra_completed (ut_video t) + ra_completed (ut_audio t),
     us_droppedIncomplete = ra_droppedIncomplete (ut_video t) + ra_droppedIncomplete (ut_audio t),
     us_lostFrames = st_lost (ut_videoSeq t) + st_lost (ut_audioSeq t),
     us_duplicates = st_duplicates (ut_videoSeq t) + st_duplicates (ut_audioSeq t),
     us_lateFrames = st_late (ut_videoSeq t) + st_late (ut_audioSeq t),
     us_reorderedFrames = jb_reordered (ut_videoJitter t) + jb_reordered (ut_audioJitter t),
     us_lastRttMs = ut_lastRttMs t, us_avgRttMs = ut_avgRttMs t, us_jitterMs = ut_jitterEWMA t / 1000000,
     us_jitterTargetMs = ut_videoTargetMs t, us_jitterQueue = length (jb_queue (ut_videoJitter t))\<rparr>"

section \<open>Clients of the crypto sink\<close>

text \<open>What the transport may conclude about any lawful sink.\<close>

context crypto_sink
begin

lemma sendPosted_cases:
  assumes "ut_secure t = Some c" and "sendPosted ops sent dg t = (t', os)"
  shows "(\<exists>c'. t' = t\<lparr>ut_secure := Some c'\<rparr> \<and> os = []) \<or> t' = t \<and> os = [] \<or>
    (\<exists>c' out. cs_active ops c \<and> cs_seal ops dg (drop kUdpHeaderSize dg) c = (c', Some out) \<and>
       (t', os) = count_sent sent (sealed_datagram dg out) (t\<lparr>ut_secure := Some c'\<rparr>))"
proof (cases "ut_hasSocket t \<and> ut_havePeer t")
  case False
  with assms show ?thesis by (auto simp: sendPosted_def)
next
  case True
  obtain c' r where s: "cs_seal ops dg (drop kUdpHeaderSize dg) c = (c', r)" by fastforce
  with True assms sealed_active [of dg "drop kUdpHeaderSize dg" c c'] show ?thesis
    by (cases r) (auto simp: sendPosted_def)
qed

lemma plaintext_dropped:
  assumes "sink_active ops t" and "\<not> hasFlag (uh_flags h) UdpFlag_Encrypted"
  shows "clear_payload ops buf h t = (authDrop t, None)"
  using assms by (auto simp: clear_payload_def sink_active_def split: option.splits)

lemma clear_only_if_opened:
  assumes "clear_payload ops buf h t = (t', Some (h', p))" and "ut_secure t = Some c" and "cs_active ops c"
  shows "\<exists>c'. cs_open ops buf (take (unat (uh_payloadSize h)) (drop kUdpHeaderSize buf)) c = (c', Some p) \<and>
    hasFlag (uh_flags h) UdpFlag_Encrypted \<and> t' = t\<lparr>ut_secure := Some c'\<rparr> \<and> cs_active ops c'"
  using assms opened_active
  by (auto simp: clear_payload_def Let_def split: if_splits option.splits prod.splits)

end

section \<open>The datagrams of a frame\<close>

definition frame_base :: "UdpType \<Rightarrow> bool \<Rightarrow> bytes \<Rightarrow> u64 \<Rightarrow> u32 \<Rightarrow> u64 \<Rightarrow> UdpHeader" where
  "frame_base ty keyframe dat ts sid sq =
     UdpHeader_default\<lparr>uh_type := ty,
       uh_flags := (if keyframe then UdpFlag_Keyframe else 0) OR
                   (if fragmentCountFor (length dat) > 1 then UdpFlag_Fragment else 0),
       uh_sessionId := sid, uh_sequence := sq, uh_timestampNs := ts\<rparr>"

lemma frame_datagram_eq:
  assumes "frame_fits dat" and "dat \<noteq> []" and "i < frag_count dat"
  shows "frame_datagram ty keyframe dat ts sid sq (fragmentCountFor (length dat)) i =
    encodeUdpHeader (frag_header (frame_base ty keyframe dat ts sid sq) dat i) @ frag_slice dat i"
proof -
  note len = length_frag_slice [OF assms]
  have n: "(if i + 1 = frag_count dat then length dat - i * kMaxUdpPayload else kMaxUdpPayload) = length (frag_slice dat i)"
  proof (cases "i + 1 = frag_count dat")
    case True
    with len(5) show ?thesis by simp
  next
    case False
    then have "(i + 1) * kMaxUdpPayload \<le> (frag_count dat - 1) * kMaxUdpPayload"
      using assms(3) by (intro mult_le_mono1) simp
    with frag_count_bounds(2) [OF assms(1,2)] False show ?thesis by (simp add: frag_slice_def)
  qed
  have "unat (of_nat (length (frag_slice dat i)) :: u16) = length (frag_slice dat i)"
    using len(2) by (intro unat_of_nat_u16) (simp add: kMaxUdpPayload_def)
  moreover have "take (length (frag_slice dat i)) (drop (i * kMaxUdpPayload) dat) = frag_slice dat i"
    by (auto simp: frag_slice_def min_def)
  ultimately show ?thesis
    using n unfolding frame_datagram_def Let_def frag_count_def [symmetric] frame_base_def frag_header_def
    by (auto simp: if_distrib [of of_nat, symmetric] UdpHeader_default_def)
qed

lemma decode_frag:
  assumes "frame_fits dat" and "dat \<noteq> []" and "i < frag_count dat" and "ty \<le> 8"
  shows "decodeUdpHeader (encodeUdpHeader (frag_header (frame_base ty keyframe dat ts sid sq) dat i) @ frag_slice dat i) =
    Some (frag_header (frame_base ty keyframe dat ts sid sq) dat i)"
proof -
  define h where "h = frag_header (frame_base ty keyframe dat ts sid sq) dat i"
  note hdr = frag_header_simps [OF assms(1-3), of "frame_base ty keyframe dat ts sid sq"]
  have "udp_header_ok h"
    using hdr frag_count_bounds(3,4) [OF assms(1,2)] assms(4)
    by (simp add: h_def udp_header_ok_def frame_base_def UdpHeader_default_def kMaxFragments_def
        word_le_nat_alt word_less_nat_alt frag_count_def)
  then show ?thesis using hdr(3) by (auto simp: decodeUdpHeader_iff h_def)
qed

text \<open>No datagram can be opened by a channel that refuses it: everything behind the decryption is
  untouched.\<close>

definition untouched :: "'c UdpTransport \<Rightarrow> 'c UdpTransport \<Rightarrow> bool" where
  "untouched t t' \<longleftrightarrow> ut_peer t' = ut_peer t \<and> ut_havePeer t' = ut_havePeer t \<and> ut_video t' = ut_video t \<and>
     ut_audio t' = ut_audio t \<and> ut_input t' = ut_input t \<and> ut_videoSeq t' = ut_videoSeq t \<and>
     ut_audioSeq t' = ut_audioSeq t \<and> ut_videoJitter t' = ut_videoJitter t \<and>
     ut_audioJitter t' = ut_audioJitter t \<and> ut_seqCounter t' = ut_seqCounter t \<and>
     ut_lastRttMs t' = ut_lastRttMs t \<and> ut_avgRttMs t' = ut_avgRttMs t \<and> ut_jitterEWMA t' = ut_jitterEWMA t"

lemma clear_payload_refused:
  assumes "sink_active ops t" and "ut_secure t = Some c"
    and "hasFlag (uh_flags h) UdpFlag_Encrypted \<Longrightarrow>
      snd (cs_open ops buf (take (unat (uh_payloadSize h)) (drop kUdpHeaderSize buf)) c) = None"
  shows "\<exists>t'. clear_payload ops buf h t = (t', None) \<and> untouched t t' \<and> ut_authDrops t' = ut_authDrops t + 1"
  using assms by (auto simp: clear_payload_def sink_active_def authDrop_def untouched_def Let_def split: prod.splits option.splits)


fun as_fragment :: "ut_output \<Rightarrow> UdpHeader \<times> bytes" where
  "as_fragment (PostDatagram dg) = (the (decodeUdpHeader dg), drop kUdpHeaderSize dg)"
| "as_fragment _ = (UdpHeader_default, [])"

lemma as_fragment_frame:
  assumes "frame_fits dat" and "dat \<noteq> []" and "i < frag_count dat" and "ty \<le> 8"
  shows "as_fragment (PostDatagram (frame_datagram ty keyframe dat ts sid sq (fragmentCountFor (length dat)) i)) =
    frag (frame_base ty keyframe dat ts sid sq) dat i"
  using decode_frag [OF assms] by (simp add: frame_datagram_eq [OF assms(1-3)] frag_def)

lemma keyframe_flag: "hasFlag (uh_flags (frame_base ty keyframe dat ts sid sq)) UdpFlag_Keyframe = keyframe"
  by (simp add: frame_base_def hasFlag_def UdpFlag_defs)

lemma single_fragment:
  assumes "frame_fits dat" and "dat \<noteq> []" and "frag_count dat = 1"
  shows "feed_all [frag base dat 0] r = Inr (r\<lparr>ra_completed := ra_completed r + 1\<rparr>, [frame_of base dat])"
proof -
  have one: "fragmentCountFor (length dat) = 1" using assms(3) by (simp add: frag_count_def word_unat_eq_iff)
  have slice: "frag_slice dat 0 = dat"
    using frag_count_bounds(1) [OF assms(1,2)] assms(3) by (simp add: frag_slice_def)
  note hdr = frag_header_simps [OF assms(1,2), of 0 base]
  show ?thesis
    using hdr assms(3) slice one by (simp add: frag_def feed_def frame_of_def mk_frame_def)
qed

section \<open>Properties\<close>

text \<open>C10: A media frame survives the datagram layer: the datagrams \<open>sendFrame\<close> posts for a frame of at most
  1024 fragments, decoded and fed to a reassembler with room in any order and with duplicates,
  yield exactly one frame, with the type, session, sequence number, timestamp, keyframe mark
  and bytes that were sent.
\<close>

theorem udp_frame_roundtrip:
  assumes "ut_running t" "ut_hasSocket t" "ut_havePeer t" and "ty \<le> 8" and "frame_fits dat" and "dat \<noteq> []"
    and "sendFrame ty keyframe dat ts t = (t', outs)" and "has_room (ut_seqCounter t ! unat ty) r"
    and "i \<notin> set js" and "insert i (set js) = {..<length outs}"
  shows "\<exists>r'. feed_all (map (\<lambda>k. as_fragment (outs ! k)) (js @ [i])) r =
    Inr (r', [\<lparr>af_type = ty, af_sessionId = ut_sessionId t, af_sequence = ut_seqCounter t ! unat ty,
               af_timestampNs = ts, af_keyframe = keyframe, af_data = dat\<rparr>])"
proof -
  let ?sq = "ut_seqCounter t ! unat ty" and ?n = "fragmentCountFor (length dat)"
  let ?base = "frame_base ty keyframe dat ts (ut_sessionId t) ?sq"
  have pos: "\<not> ?n < 1" using frag_count_bounds(3) [OF assms(5,6)] by (auto simp: frag_count_def word_less_nat_alt)
  have outs: "outs = map (\<lambda>k. PostDatagram (frame_datagram ty keyframe dat ts (ut_sessionId t) ?sq ?n k)) [0..<frag_count dat]"
    using assms(1-3,7) pos by (auto simp: sendFrame_def next_seq_def Let_def frag_count_def)
  have set: "insert i (set js) = {..<frag_count dat}" using assms(10) by (simp add: outs)
  have "map (\<lambda>k. as_fragment (outs ! k)) (js @ [i]) = map (frag ?base dat) (js @ [i])"
  proof (rule map_cong [OF refl])
    fix k assume "k \<in> set (js @ [i])"
    then have "k < frag_count dat" using set by auto
    then show "as_fragment (outs ! k) = frag ?base dat k"
      using as_fragment_frame [OF assms(5,6) _ assms(4)] by (simp add: outs)
  qed
  moreover have "\<exists>r'. feed_all (map (frag ?base dat) (js @ [i])) r = Inr (r', [frame_of ?base dat])"
  proof (cases "frag_count dat = 1")
    case True
    then have "{..<frag_count dat} = {0}" by auto
    with set have "i \<in> {0}" "set js \<subseteq> {0}" by (metis insertI1, metis subset_insertI)
    with assms(9) have "js = []" "i = 0" by (cases js; simp)+
    with single_fragment [OF assms(5,6) True] show ?thesis by simp
  next
    case False
    then have "1 < frag_count dat" using frag_count_bounds(3) [OF assms(5,6)] by simp
    moreover have "has_room (uh_sequence ?base) r" using assms(8) by (simp add: frame_base_def)
    ultimately show ?thesis using reassemble [OF assms(5) _ _ assms(9) set] by blast
  qed
  moreover have "frame_of ?base dat = \<lparr>af_type = ty, af_sessionId = ut_sessionId t, af_sequence = ?sq,
      af_timestampNs = ts, af_keyframe = keyframe, af_data = dat\<rparr>"
    unfolding frame_of_def mk_frame_def keyframe_flag by (simp add: frame_base_def)
  ultimately show ?thesis by (simp only:)
qed

theorem udp_frame_roundtrip_witness:
  "\<exists>r'. feed_all (map (\<lambda>k. as_fragment (snd (sendFrame 0 True (replicate 1500 7) 9
       ((UdpTransport_new :: SecureChannel UdpTransport)\<lparr>ut_running := True, ut_hasSocket := True, ut_havePeer := True, ut_sessionId := 5\<rparr>)) ! k))
     ([1, 1] @ [0])) (FragmentReassembler_new 0) =
   Inr (r', [\<lparr>af_type = 0, af_sessionId = 5, af_sequence = 0, af_timestampNs = 9, af_keyframe = True, af_data = replicate 1500 7\<rparr>])"
proof -
  let ?t = "(UdpTransport_new :: SecureChannel UdpTransport)\<lparr>ut_running := True, ut_hasSocket := True, ut_havePeer := True, ut_sessionId := 5\<rparr>"
  have n: "length (snd (sendFrame 0 True (replicate 1500 7) 9 ?t)) = 2"
    by (simp add: sendFrame_def fragmentCountFor_def kMaxUdpPayload_def next_seq_def Let_def)
  have "{..<2 :: nat} = {0, 1}" by auto
  with n have ins: "insert 0 (set [1, 1]) = {..<length (snd (sendFrame 0 True (replicate 1500 7) 9 ?t))}" by auto
  have sq: "ut_seqCounter ?t ! unat (0 :: u8) = 0" "ut_sessionId ?t = 5" by (simp_all add: UdpTransport_new_def)
  have room: "has_room (ut_seqCounter ?t ! unat (0 :: u8)) (FragmentReassembler_new 0)"
    by (simp add: has_room_def FragmentReassembler_new_def kMaxInFlight_def ra_wf_def frames_wf_def)
  have fits: "frame_fits (replicate 1500 7)" by (simp add: frame_fits_def kMaxFragments_def kMaxUdpPayload_def)
  have run: "ut_running ?t" "ut_hasSocket ?t" "ut_havePeer ?t" "(0 :: u8) \<le> 8" by simp_all
  show ?thesis
    using udp_frame_roundtrip [OF run fits _ prod.collapse [symmetric] room _ ins] unfolding sq by simp
qed

text \<open>C12: The receive path fails closed: while the secure channel is active, a datagram that is not marked
  encrypted, or that the channel refuses to open, is inert. No callback runs, nothing is
  sent, and the peer address, the reassemblers, the jitter buffers and the statistics behind the
  decryption stay as they were.
\<close>

theorem unauthenticated_datagram_inert:
  assumes "ut_secure t = Some c" and "sc_active c"
    and "\<forall>h. decodeUdpHeader buf = Some h \<longrightarrow> hasFlag (uh_flags h) UdpFlag_Encrypted \<longrightarrow>
      snd (sc_open cng buf (take (unat (uh_payloadSize h)) (drop kUdpHeaderSize buf)) c) = None"
  shows "\<exists>t'. handleDatagram (sc_ops cng) now buf src t = Inr (t', []) \<and> untouched t t'"
proof (cases "decodeUdpHeader buf")
  case None
  then show ?thesis by (simp add: handleDatagram_def untouched_def)
next
  case (Some h)
  let ?t = "t\<lparr>ut_recvDatagrams := ut_recvDatagrams t + 1, ut_recvBytes := ut_recvBytes t + of_nat (length buf),
    ut_lastRxAbsNs := now\<rparr>"
  have act: "sink_active (sc_ops cng) ?t" "ut_secure ?t = Some c"
    using assms(1,2) by (simp_all add: sink_active_def sc_ops_def)
  have refused: "hasFlag (uh_flags h) UdpFlag_Encrypted \<Longrightarrow>
      snd (cs_open (sc_ops cng) buf (take (unat (uh_payloadSize h)) (drop kUdpHeaderSize buf)) c) = None"
    using assms(3) Some by (simp add: sc_ops_def)
  obtain t' where t': "clear_payload (sc_ops cng) buf h ?t = (t', None)" "untouched ?t t'"
    using clear_payload_refused [OF act refused] by auto
  let ?w = "t\<lparr>ut_recvDatagrams := ut_recvDatagrams t + 1, ut_recvBytes := ut_recvBytes t + of_nat (length buf),
    ut_wrongSession := ut_wrongSession t + 1\<rparr>"
  have "untouched t t'" using t'(2) unfolding untouched_def by simp
  moreover have "untouched t ?w" unfolding untouched_def by simp
  moreover have "handleDatagram (sc_ops cng) now buf src t =
      (if ut_sessionId t \<noteq> 0 \<and> uh_sessionId h \<noteq> ut_sessionId t then Inr (?w, []) else Inr (t', []))"
    using t'(1) by (simp add: handleDatagram_def Some Let_def)
  ultimately show ?thesis by (cases "ut_sessionId t \<noteq> 0 \<and> uh_sessionId h \<noteq> ut_sessionId t") auto
qed

lemma demo_plain_decode: "decodeUdpHeader (encodeUdpHeader UdpHeader_default) = Some UdpHeader_default"
  by (simp add: decodeUdpHeader_iff udp_header_ok_def UdpHeader_default_def kMaxFragments_def)

theorem unauthenticated_datagram_inert_witness:
  "\<exists>t'. handleDatagram (sc_ops demo_cng) 1 (encodeUdpHeader UdpHeader_default) (''10.0.0.1'', 5)
       (UdpTransport_new\<lparr>ut_secure := Some (demo_channel True)\<rparr>) = Inr (t', []) \<and>
     untouched (UdpTransport_new\<lparr>ut_secure := Some (demo_channel True)\<rparr>) t'"
  by (rule unauthenticated_datagram_inert [where c = "demo_channel True"])
    (simp_all add: demo_channel_state demo_plain_decode, simp add: UdpHeader_default_def hasFlag_def)

lemma or_and_absorb: "(x OR y) AND y = (y :: 'a::len word)"
  by (auto simp: bit_eq_iff bit_simps)

lemma decoded_into_ok: "decodeUdpHeader buf = Some out \<Longrightarrow> decoded_into buf h = out"
  by (auto simp: decodeUdpHeader_def decoded_into_def Let_def split: if_splits)

lemma sealed_flag: "decodeUdpHeader (sealed_datagram dg out) = Some h \<Longrightarrow> hasFlag (uh_flags h) UdpFlag_Encrypted"
proof -
  assume dec: "decodeUdpHeader (sealed_datagram dg out) = Some h"
  define h0 where "h0 = decoded_into dg UdpHeader_default"
  define h1 where "h1 = h0\<lparr>uh_flags := uh_flags h0 OR UdpFlag_Encrypted, uh_payloadSize := of_nat (length out)\<rparr>"
  have "sealed_datagram dg out = encodeUdpHeader h1 @ out"
    by (simp add: sealed_datagram_def Let_def h0_def h1_def)
  then have "h = h1"
    using dec parse_fields_encode [of h1 out] by (auto simp: decodeUdpHeader_def Let_def split: if_splits)
  then show ?thesis by (simp add: h1_def hasFlag_def or_and_absorb) (simp add: UdpFlag_Encrypted_def)
qed

text \<open>The send path fails closed: once a secure channel is attached, a posted datagram only ever leaves
  to the current peer, with a payload the active channel sealed and with the encrypted mark
  set; with an inactive channel nothing is sent at all.
\<close>

theorem sends_only_sealed:
  assumes "ut_secure t = Some c" and "sendPosted (sc_ops cng) sent dg t = (t', os)" and "SendTo ep d \<in> set os"
  shows "ep = ut_peer t \<and> sc_active c \<and>
    (\<exists>out. snd (sc_seal cng dg (drop kUdpHeaderSize dg) c) = Some out \<and> d = sealed_datagram dg out) \<and>
    (\<forall>h. decodeUdpHeader d = Some h \<longrightarrow> hasFlag (uh_flags h) UdpFlag_Encrypted)"
proof -
  from sc.sendPosted_cases [OF assms(1,2)] assms(3) obtain c' out where
    s: "sc_active c" "sc_seal cng dg (drop kUdpHeaderSize dg) c = (c', Some out)"
      "(t', os) = count_sent sent (sealed_datagram dg out) (t\<lparr>ut_secure := Some c'\<rparr>)"
    by (auto simp: sc_ops_def)
  then have "ep = ut_peer t" "d = sealed_datagram dg out"
    using assms(3) by (auto simp: count_sent_def split: if_splits)
  with s sealed_flag show ?thesis by auto
qed

theorem sends_only_sealed_witness:
  "\<exists>out. snd (sc_seal demo_cng (encodeUdpHeader UdpHeader_default) [] (demo_channel True)) = Some out \<and>
    (\<exists>t'. sendPosted (sc_ops demo_cng) True (encodeUdpHeader UdpHeader_default)
      (UdpTransport_new\<lparr>ut_secure := Some (demo_channel True), ut_hasSocket := True, ut_havePeer := True\<rparr>) =
      (t', [SendTo (ut_peer (UdpTransport_new :: SecureChannel UdpTransport)) (sealed_datagram (encodeUdpHeader UdpHeader_default) out)]))"
proof -
  let ?t = "UdpTransport_new\<lparr>ut_secure := Some (demo_channel True), ut_hasSocket := True, ut_havePeer := True\<rparr>"
  let ?dg = "encodeUdpHeader UdpHeader_default"
  obtain out c' where out: "sc_seal demo_cng ?dg [] (demo_channel True) = (c', Some out)"
    using demo_seal [of "[]" ?dg True] by (cases "sc_seal demo_cng ?dg [] (demo_channel True)") auto
  then have "sendPosted (sc_ops demo_cng) True ?dg ?t =
      count_sent True (sealed_datagram ?dg out) (?t\<lparr>ut_secure := Some c'\<rparr>)"
    by (simp add: sendPosted_def sc_ops_def)
  then obtain t' where t': "sendPosted (sc_ops demo_cng) True ?dg ?t = (t', [SendTo (ut_peer ?t) (sealed_datagram ?dg out)])"
    by (simp add: count_sent_def)
  have "\<exists>out'. snd (sc_seal demo_cng ?dg (drop kUdpHeaderSize ?dg) (demo_channel True)) = Some out' \<and>
      sealed_datagram ?dg out = sealed_datagram ?dg out'"
    using sends_only_sealed [OF _ t', of "demo_channel True" "ut_peer ?t" "sealed_datagram ?dg out"] by simp
  with out t' show ?thesis by (auto simp: UdpTransport_new_def)
qed

text \<open>The header that is authenticated when a datagram is sealed is not the header it is sent with:
  the encrypted mark is set after sealing, inside the 30 bytes that serve as additional data, so
  sender and receiver never use the same additional data.
\<close>

theorem sealed_aad_differs:
  assumes "decodeUdpHeader dg = Some h" and "\<not> hasFlag (uh_flags h) UdpFlag_Encrypted"
  shows "sc_aad (sealed_datagram dg out) \<noteq> sc_aad dg"
proof
  assume eq: "sc_aad (sealed_datagram dg out) = sc_aad dg"
  let ?h = "h\<lparr>uh_flags := uh_flags h OR UdpFlag_Encrypted, uh_payloadSize := of_nat (length out)\<rparr>"
  obtain rest where dg: "dg = encodeUdpHeader h @ rest" using assms(1) by (auto simp: decodeUdpHeader_iff)
  have fl: "(encodeUdpHeader x @ r) ! 4 = uh_flags x" for x r
    using arg_cong [where f = uh_flags, OF parse_fields_encode [of x r]] by (simp add: parse_fields_def)
  have "sealed_datagram dg out = encodeUdpHeader ?h @ out"
    by (simp add: sealed_datagram_def Let_def decoded_into_ok [OF assms(1)])
  then have "uh_flags h OR UdpFlag_Encrypted = sealed_datagram dg out ! 4" using fl [of ?h out] by simp
  also have "\<dots> = dg ! 4" using arg_cong [where f = "\<lambda>l. l ! 4", OF eq] by (simp add: sc_aad_def)
  also have "\<dots> = uh_flags h" using dg fl by simp
  finally have "uh_flags h AND UdpFlag_Encrypted = (uh_flags h OR UdpFlag_Encrypted) AND UdpFlag_Encrypted" by simp
  also have "\<dots> = UdpFlag_Encrypted" by (rule or_and_absorb)
  finally show False using assms(2) by (simp add: hasFlag_def UdpFlag_Encrypted_def)
qed

theorem sealed_aad_differs_witness:
  "sc_aad (sealed_datagram (encodeUdpHeader UdpHeader_default) [1]) \<noteq> sc_aad (encodeUdpHeader UdpHeader_default)"
  by (rule sealed_aad_differs [OF demo_plain_decode]) (simp add: UdpHeader_default_def hasFlag_def)

end
