(* ===== verification/VideoDecoder.thy ===== *)
theory VideoDecoder
  imports VideoEncoder
begin

text \<open>
  \<^verbatim>\<open>decoding/VideoDecoder.cpp\<close>: the client's FFmpeg decoder. The codec is a parameter: \<open>AvDecoder\<close> holds what
  \<^verbatim>\<open>avcodec_send_packet\<close> does with a packet (the empty one is the flush packet) and what the receive loop
  yields until it needs more input, over an arbitrary codec state; \<open>codec_drains\<close> is the documented law
  that a flushed codec accepts no further packet.

  The theorems: every picture is converted with a scaler made for its own size and format and fills its
  buffer; after one rejected packet no packet is decoded any more.
\<close>

record DecodedFrame =
  df_bgra :: bytes
  df_width :: int
  df_height :: int
  df_ptsUs :: u64
  df_keyframe :: bool

record AvPicture =
  pic_width :: int
  pic_height :: int
  pic_format :: int
  pic_pts :: int
  pic_key :: bool

text \<open>The packet handed to FFmpeg; without data it is the flush packet.\<close>

record AvPacket =
  pk_data :: bytes
  pk_pts :: int
  pk_key :: bool

record 'd AvDecoder =
  ad_known :: "VideoCodec \<Rightarrow> bool"
  ad_open :: "VideoCodec \<Rightarrow> 'd option"
  ad_send :: "'d \<Rightarrow> AvPacket \<Rightarrow> 'd \<times> bool"
  ad_receive :: "'d \<Rightarrow> 'd \<times> AvPicture list \<times> bool"
  ad_scaler :: "int \<times> int \<times> int \<Rightarrow> bool"
  ad_convert :: "int \<times> int \<times> int \<Rightarrow> AvPicture \<Rightarrow> bytes"

record 'd VideoDecoder =
  vd_ctx :: "'d option"
  vd_sws :: "(int \<times> int \<times> int) option"
  vd_codec :: VideoCodec
  vd_width :: int
  vd_height :: int
  vd_lastW :: int
  vd_lastH :: int
  vd_lastFmt :: int
  vd_framesDecoded :: u64
  vd_bytesDecoded :: u64
  vd_lastDecodeMs :: rat
  vd_avgDecodeMs :: rat

definition VideoDecoder_new :: "'d VideoDecoder" where
  "VideoDecoder_new = \<lparr>vd_ctx = None, vd_sws = None, vd_codec = H264, vd_width = 0, vd_height = 0, vd_lastW = 0, vd_lastH = 0,
     vd_lastFmt = -1, vd_framesDecoded = 0, vd_bytesDecoded = 0, vd_lastDecodeMs = 0, vd_avgDecodeMs = 0\<rparr>"

definition codecId :: "VideoCodec \<Rightarrow> VideoCodec" where
  "codecId c = (if c = Hevc then Hevc else if c = Av1 then Av1 else H264)"

definition supportedCodecs :: "'d AvDecoder \<Rightarrow> VideoCodec list" where
  "supportedCodecs av = filter (\<lambda>c. ad_known av (codecId c)) [H264, Hevc, Av1]"

definition vd_close :: "'d VideoDecoder \<Rightarrow> 'd VideoDecoder" where
  "vd_close s = s\<lparr>vd_sws := None, vd_ctx := None, vd_width := 0, vd_height := 0\<rparr>"

definition vd_init :: "'d AvDecoder \<Rightarrow> VideoCodec \<Rightarrow> 'd VideoDecoder \<Rightarrow> 'd VideoDecoder \<times> string option" where
  "vd_init av codec s =
     (let s = (vd_close s)\<lparr>vd_codec := codec\<rparr>
      in if \<not> ad_known av (codecId codec) then (s, Some ''decoder not found in this FFmpeg build'')
         else case ad_open av (codecId codec) of
           None \<Rightarrow> (vd_close s, Some ''avcodec_open2(decoder) failed'')
         | Some d \<Rightarrow> (s\<lparr>vd_ctx := Some d\<rparr>, None))"

text \<open>The scaler fills a zeroed buffer of four bytes per pixel.\<close>

definition filled :: "nat \<Rightarrow> bytes \<Rightarrow> bytes" where
  "filled n bs = take n (bs @ replicate n 0)"

definition emitFrame :: "'d AvDecoder \<Rightarrow> AvPicture \<Rightarrow> 'd VideoDecoder \<Rightarrow> 'd VideoDecoder \<times> DecodedFrame option" where
  "emitFrame av pic s =
     (let s = s\<lparr>vd_width := pic_width pic, vd_height := pic_height pic\<rparr>
      in if pic_width pic \<le> 0 \<or> pic_height pic \<le> 0 then (s, None)
         else
           let key = (pic_width pic, pic_height pic, pic_format pic);
               stale = (vd_sws s = None \<or> vd_lastW s \<noteq> pic_width pic \<or> vd_lastH s \<noteq> pic_height pic \<or> vd_lastFmt s \<noteq> pic_format pic);
               s = (if stale
                    then s\<lparr>vd_sws := (if ad_scaler av key then Some key else None), vd_lastW := pic_width pic,
                           vd_lastH := pic_height pic, vd_lastFmt := pic_format pic\<rparr>
                    else s)
           in case vd_sws s of
                None \<Rightarrow> (s, None)
              | Some ctx \<Rightarrow>
                  (s\<lparr>vd_framesDecoded := vd_framesDecoded s + 1\<rparr>,
                   Some \<lparr>df_bgra = filled (nat (pic_width pic) * nat (pic_height pic) * 4) (ad_convert av ctx pic),
                         df_width = pic_width pic, df_height = pic_height pic,
                         df_ptsUs = (if pic_pts pic \<ge> 0 then word_of_int (pic_pts pic) else 0), df_keyframe = pic_key pic\<rparr>))"

fun emit_all :: "'d AvDecoder \<Rightarrow> AvPicture list \<Rightarrow> 'd VideoDecoder \<Rightarrow> 'd VideoDecoder \<times> DecodedFrame list \<times> bool" where
  "emit_all av [] s = (s, [], True)"
| "emit_all av (pic # pics) s =
     (let (s, f) = emitFrame av pic s; (s, fs, ok) = emit_all av pics s
      in case f of None \<Rightarrow> (s, fs, False) | Some df \<Rightarrow> (s, df # fs, ok))"

definition packet_for :: "bytes \<Rightarrow> u64 \<Rightarrow> bool \<Rightarrow> AvPacket" where
  "packet_for dat ptsUs keyframe = \<lparr>pk_data = dat, pk_pts = sint ptsUs, pk_key = keyframe\<rparr>"

definition flush_packet :: AvPacket where
  "flush_packet = \<lparr>pk_data = [], pk_pts = 0, pk_key = False\<rparr>"

definition vd_decode ::
  "'d AvDecoder \<Rightarrow> rat \<Rightarrow> AvPacket \<Rightarrow> 'd VideoDecoder \<Rightarrow> 'd VideoDecoder \<times> DecodedFrame list \<times> bool" where
  "vd_decode av dt packet s =
     (case vd_ctx s of
        None \<Rightarrow> (s, [], False)
      | Some d \<Rightarrow>
          (case ad_send av d packet of
             (d, False) \<Rightarrow> (s\<lparr>vd_ctx := Some (fst (ad_send av d (packet\<lparr>pk_data := []\<rparr>)))\<rparr>, [], False)
           | (d, True) \<Rightarrow>
               (let (d, pics, received) = ad_receive av d;
                    (s, fs, ok) = emit_all av pics (s\<lparr>vd_ctx := Some d, vd_bytesDecoded := vd_bytesDecoded s + of_nat (length (pk_data packet))\<rparr>)
                in (s\<lparr>vd_lastDecodeMs := dt, vd_avgDecodeMs := moving_average (vd_avgDecodeMs s) dt\<rparr>, fs, received \<and> ok))))"

definition vd_flush :: "'d AvDecoder \<Rightarrow> 'd VideoDecoder \<Rightarrow> 'd VideoDecoder \<times> DecodedFrame list \<times> bool" where
  "vd_flush av s =
     (case vd_ctx s of
        None \<Rightarrow> (s, [], False)
      | Some d \<Rightarrow>
          (let (d, pics, received) = ad_receive av (fst (ad_send av d flush_packet)); (s, fs, ok) = emit_all av pics (s\<lparr>vd_ctx := Some d\<rparr>)
           in (s, fs, True)))"

definition vd_reset :: "'d AvDecoder \<Rightarrow> 'd VideoDecoder \<Rightarrow> 'd VideoDecoder" where
  "vd_reset av s = fst (vd_init av (vd_codec s) s)"

section \<open>The scaler\<close>

text \<open>The scaler, when there is one, was made for the geometry of the last picture.\<close>

definition scaler_inv :: "'d VideoDecoder \<Rightarrow> bool" where
  "scaler_inv s \<longleftrightarrow> (\<forall>ctx. vd_sws s = Some ctx \<longrightarrow> ctx = (vd_lastW s, vd_lastH s, vd_lastFmt s))"

lemma scaler_inv_frame [simp]:
  "scaler_inv (s\<lparr>vd_ctx := d\<rparr>) = scaler_inv s" "scaler_inv (s\<lparr>vd_ctx := d, vd_bytesDecoded := n\<rparr>) = scaler_inv s"
  "scaler_inv (s\<lparr>vd_lastDecodeMs := a, vd_avgDecodeMs := b\<rparr>) = scaler_inv s"
  by (simp_all add: scaler_inv_def)

definition shows_picture :: "'d AvDecoder \<Rightarrow> AvPicture \<Rightarrow> DecodedFrame \<Rightarrow> bool" where
  "shows_picture av pic df \<longleftrightarrow> 0 < pic_width pic \<and> 0 < pic_height pic \<and> df_width df = pic_width pic \<and>
     df_height df = pic_height pic \<and> df_keyframe df = pic_key pic \<and>
     df_bgra df = filled (nat (pic_width pic) * nat (pic_height pic) * 4)
       (ad_convert av (pic_width pic, pic_height pic, pic_format pic) pic)"

lemma filled_length [simp]: "length (filled n bs) = n"
  by (simp add: filled_def)

lemma emitFrame_ok:
  assumes "scaler_inv s" and "emitFrame av pic s = (t, r)"
  shows "scaler_inv t" and "vd_ctx t = vd_ctx s" and "r = Some df \<Longrightarrow> shows_picture av pic df"
  using assms by (auto simp: emitFrame_def scaler_inv_def shows_picture_def Let_def split: if_splits option.splits)

fun pictures_of :: "'d AvDecoder \<Rightarrow> AvPicture list \<Rightarrow> DecodedFrame list \<Rightarrow> bool" where
  "pictures_of av pics [] \<longleftrightarrow> True"
| "pictures_of av [] (df # dfs) \<longleftrightarrow> False"
| "pictures_of av (pic # pics) (df # dfs) \<longleftrightarrow> shows_picture av pic df \<and> pictures_of av pics dfs \<or> pictures_of av pics (df # dfs)"

lemma emit_all_ok:
  assumes "scaler_inv s" and "emit_all av pics s = (t, fs, ok)"
  shows "scaler_inv t \<and> vd_ctx t = vd_ctx s \<and> pictures_of av pics fs \<and> (ok \<longrightarrow> list_all2 (shows_picture av) pics fs)"
  using assms
proof (induction pics arbitrary: s fs ok)
  case Nil
  then show ?case by auto
next
  case (Cons pic pics)
  obtain s1 r where e: "emitFrame av pic s = (s1, r)" by force
  obtain fs1 ok1 where a: "emit_all av pics s1 = (t, fs1, ok1)" using Cons.prems e by (auto split: prod.splits option.splits)
  note i = emitFrame_ok [OF Cons.prems(1) e] and IH = Cons.IH [OF i(1) a]
  show ?case
  proof (cases r)
    case None
    then have "fs = fs1" "\<not> ok" using Cons.prems e a by auto
    then show ?thesis using IH i by (cases fs1) auto
  next
    case (Some df)
    then have "fs = df # fs1" "ok = ok1" using Cons.prems e a by auto
    then show ?thesis using IH i Some by auto
  qed
qed

section \<open>Runs\<close>

datatype vd_event = VdInit VideoCodec | VdDecode rat AvPacket | VdFlush | VdReset

fun vd_handle :: "'d AvDecoder \<Rightarrow> vd_event \<Rightarrow> 'd VideoDecoder \<Rightarrow> 'd VideoDecoder" where
  "vd_handle av (VdInit codec) s = fst (vd_init av codec s)"
| "vd_handle av (VdDecode dt packet) s = fst (vd_decode av dt packet s)"
| "vd_handle av VdFlush s = fst (vd_flush av s)"
| "vd_handle av VdReset s = vd_reset av s"

lemma emit_all_inv: "scaler_inv s \<Longrightarrow> scaler_inv (fst (emit_all av pics s))"
  using emit_all_ok [of s av pics] by (metis prod.collapse)

lemma scaler_inv_init: "scaler_inv (fst (vd_init av codec s))"
  by (auto simp: vd_init_def vd_close_def scaler_inv_def Let_def split: option.split)

lemma scaler_inv_decode: "scaler_inv s \<Longrightarrow> scaler_inv (fst (vd_decode av dt packet s))"
  by (simp add: vd_decode_def Let_def case_prod_beta emit_all_inv split: option.split bool.split)

lemma scaler_inv_flush: "scaler_inv s \<Longrightarrow> scaler_inv (fst (vd_flush av s))"
  by (simp add: vd_flush_def Let_def case_prod_beta emit_all_inv split: option.split)

lemma scaler_inv_handle: "scaler_inv s \<Longrightarrow> scaler_inv (vd_handle av e s)"
  by (cases e) (simp_all add: scaler_inv_init scaler_inv_decode scaler_inv_flush vd_reset_def)

interpretation vdm: event_machine VideoDecoder_new "vd_handle av" scaler_inv
  by unfold_locales (simp_all add: scaler_inv_handle, simp add: scaler_inv_def VideoDecoder_new_def)

section \<open>Properties\<close>

text \<open>On every run of the decoder each frame it hands out shows one of the pictures the codec
  returned, in their order, converted by a scaler made for that picture's own size and format into a
  buffer of exactly four bytes per pixel; when decoding succeeds there is one frame per picture.\<close>

theorem decoded_pictures_match:
  assumes "s = fold (vd_handle av) es VideoDecoder_new" and "vd_ctx s = Some d" and "ad_send av d packet = (d', True)"
    and "ad_receive av d' = (d'', pics, received)" and "vd_decode av dt packet s = (t, fs, ok)"
  shows "pictures_of av pics fs \<and> (ok \<longrightarrow> list_all2 (shows_picture av) pics fs)"
proof -
  let ?s = "s\<lparr>vd_ctx := Some d'', vd_bytesDecoded := vd_bytesDecoded s + of_nat (length (pk_data packet))\<rparr>"
  have inv: "scaler_inv ?s" using vdm.inv_run [of av es] assms(1) by simp
  obtain t' ok' where e: "emit_all av pics ?s = (t', fs, ok')" "ok = (received \<and> ok')"
    using assms(2-5) by (auto simp: vd_decode_def Let_def split: prod.splits)
  show ?thesis using emit_all_ok [OF inv e(1)] e(2) by blast
qed

text \<open>A codec with one byte per picture: zero is corrupt, a flushed codec refuses everything.\<close>

definition demo_codec :: "(bool \<times> AvPicture list) AvDecoder" where
  "demo_codec = \<lparr>ad_known = (\<lambda>_. True), ad_open = (\<lambda>_. Some (False, [])),
     ad_send = (\<lambda>(flushed, q) p. if flushed then ((True, q), False) else if pk_data p = [] then ((True, q), True)
       else if hd (pk_data p) = 0 then ((False, q), False)
       else ((False, q @ [\<lparr>pic_width = uint (hd (pk_data p)), pic_height = 1, pic_format = 0, pic_pts = pk_pts p, pic_key = pk_key p\<rparr>]), True)),
     ad_receive = (\<lambda>(flushed, q). ((flushed, []), q, True)), ad_scaler = (\<lambda>_. True), ad_convert = (\<lambda>_ _. [])\<rparr>"

theorem decoded_pictures_match_witness:
  "\<exists>df. fst (snd (vd_decode demo_codec 1 (packet_for [3] 0 True) (fold (vd_handle demo_codec) [VdInit H264, VdDecode 1 (packet_for [7] 0 True)] VideoDecoder_new))) = [df] \<and>
     df_width df = 3 \<and> length (df_bgra df) = 12"
proof -
  let ?s = "fold (vd_handle demo_codec) [VdInit H264, VdDecode 1 (packet_for [7] 0 True)] VideoDecoder_new"
  let ?pic = "\<lparr>pic_width = 3, pic_height = 1, pic_format = 0, pic_pts = 0, pic_key = True\<rparr>"
  have ctx: "vd_ctx ?s = Some (False, [])" by code_simp
  have send: "ad_send demo_codec (False, []) (packet_for [3] 0 True) = ((False, [?pic]), True)" by code_simp
  have recv: "ad_receive demo_codec (False, [?pic]) = ((False, []), [?pic], True)" by code_simp
  obtain t fs where d: "vd_decode demo_codec 1 (packet_for [3] 0 True) ?s = (t, fs, True)"
  proof -
    have "snd (snd (vd_decode demo_codec 1 (packet_for [3] 0 True) ?s)) = True" by code_simp
    then show ?thesis using that by (metis prod.collapse)
  qed
  have "list_all2 (shows_picture demo_codec) [?pic] fs"
    using decoded_pictures_match [OF refl ctx send recv d] by blast
  then obtain df where fs: "fs = [df]" and shown: "shows_picture demo_codec ?pic df" by (auto simp: list_all2_Cons1)
  have "df_bgra df = filled 12 (ad_convert demo_codec (3, 1, 0) ?pic)" "df_width df = 3"
    using shown by (simp_all add: shows_picture_def)
  then have "length (df_bgra df) = 12" by simp
  then show ?thesis using d fs \<open>df_width df = 3\<close> by simp
qed

text \<open>Any codec can be watched: the packets it is sent are recorded beside its state, and nothing else
  changes. \<open>codec_saw\<close> are the packets with data, in the order the decoder sent them; the packet without
  data that follows a rejected one is left out.\<close>

definition recorded :: "'d AvDecoder \<Rightarrow> ('d \<times> AvPacket list) AvDecoder" where
  "recorded av = \<lparr>ad_known = ad_known av, ad_open = (\<lambda>c. map_option (\<lambda>d. (d, [])) (ad_open av c)),
     ad_send = (\<lambda>(d, seen) p. case ad_send av d p of (d, ok) \<Rightarrow> ((d, seen @ [p]), ok)),
     ad_receive = (\<lambda>(d, seen). case ad_receive av d of (d, pics, ok) \<Rightarrow> ((d, seen), pics, ok)),
     ad_scaler = ad_scaler av, ad_convert = ad_convert av\<rparr>"

definition codec_saw :: "('d \<times> AvPacket list) VideoDecoder \<Rightarrow> AvPacket list" where
  "codec_saw s = (case vd_ctx s of None \<Rightarrow> [] | Some (d, seen) \<Rightarrow> filter (\<lambda>p. pk_data p \<noteq> []) seen)"

lemma emitFrame_ctx [simp]: "vd_ctx (fst (emitFrame av pic s)) = vd_ctx s"
  by (simp add: emitFrame_def Let_def split: option.split)

lemma emit_all_ctx [simp]: "vd_ctx (fst (emit_all av pics s)) = vd_ctx s"
  by (induction pics arbitrary: s) (simp_all add: Let_def case_prod_beta split: option.split)

lemma recorded_decode:
  assumes "vd_ctx s \<noteq> None"
  shows "vd_ctx (fst (vd_decode (recorded av) dt packet s)) \<noteq> None"
    and "codec_saw (fst (vd_decode (recorded av) dt packet s)) =
      codec_saw s @ (if pk_data packet = [] then [] else [packet])"
proof -
  obtain d seen where d: "vd_ctx s = Some (d, seen)" using assms by auto
  obtain d1 ok where sd: "ad_send av d packet = (d1, ok)" by force
  have "vd_ctx (fst (vd_decode (recorded av) dt packet s)) \<noteq> None \<and>
    codec_saw (fst (vd_decode (recorded av) dt packet s)) = codec_saw s @ (if pk_data packet = [] then [] else [packet])"
    using d sd by (cases ok) (simp_all add: vd_decode_def recorded_def codec_saw_def Let_def case_prod_beta)
  then show "vd_ctx (fst (vd_decode (recorded av) dt packet s)) \<noteq> None"
    "codec_saw (fst (vd_decode (recorded av) dt packet s)) = codec_saw s @ (if pk_data packet = [] then [] else [packet])"
    by blast+
qed

lemma recorded_init: "vd_init (recorded av) codec s = (s', None) \<Longrightarrow> vd_ctx s' \<noteq> None \<and> codec_saw s' = []"
  by (auto simp: vd_init_def recorded_def codec_saw_def Let_def split: if_splits option.splits)

text \<open>The documented behaviour of a flushed codec: \<open>flushed\<close> holds of every state a flush packet leads to,
  and such a codec refuses every packet and stays flushed.\<close>

definition codec_drains :: "'d AvDecoder \<Rightarrow> ('d \<Rightarrow> bool) \<Rightarrow> bool" where
  "codec_drains av flushed \<longleftrightarrow> (\<forall>d p. pk_data p = [] \<longrightarrow> flushed (fst (ad_send av d p))) \<and>
     (\<forall>d p. flushed d \<longrightarrow> flushed (fst (ad_send av d p)) \<and> \<not> snd (ad_send av d p))"

lemma flushed_decode:
  assumes "codec_drains av flushed" and "vd_ctx s = Some d" and "flushed d"
  shows "\<exists>t d'. vd_decode av dt packet s = (t, [], False) \<and> vd_ctx t = Some d' \<and> flushed d'"
proof -
  obtain d1 where "ad_send av d packet = (d1, False)" using assms unfolding codec_drains_def by (metis prod.collapse)
  moreover have "flushed (fst (ad_send av d1 (packet\<lparr>pk_data := []\<rparr>)))" using assms(1) by (simp add: codec_drains_def)
  ultimately show ?thesis using assms(2) by (simp add: vd_decode_def)
qed

lemma flushed_run:
  assumes "codec_drains av flushed" and "vd_ctx s = Some d" and "flushed d"
  shows "\<exists>d'. vd_ctx (fold (\<lambda>p s. fst (vd_decode av dt p s)) ps s) = Some d' \<and> flushed d'"
  using assms(2,3)
proof (induction ps arbitrary: s d)
  case (Cons p ps)
  from flushed_decode [OF assms(1) Cons.prems, of dt p] show ?case using Cons.IH by fastforce
qed auto

text \<open>One packet the codec rejects ends the video: the decoder answers the rejection with a flush
  packet, after which the codec accepts nothing, so every later packet fails to decode and yields no
  frame, whatever it contains.\<close>

theorem rejected_packet_ends_video:
  assumes law: "codec_drains av flushed" and "vd_ctx s = Some d" and "ad_send av d packet = (d', False)"
  shows "\<exists>t. vd_decode av dt' next
      (fold (\<lambda>p s. fst (vd_decode av dt p s)) ps (fst (vd_decode av dt packet s))) = (t, [], False)"
proof -
  have "vd_ctx (fst (vd_decode av dt packet s)) = Some (fst (ad_send av d' (packet\<lparr>pk_data := []\<rparr>)))" using assms(2,3) by (simp add: vd_decode_def)
  moreover have "flushed (fst (ad_send av d' (packet\<lparr>pk_data := []\<rparr>)))" using law by (simp add: codec_drains_def)
  ultimately obtain d2 where "vd_ctx (fold (\<lambda>p s. fst (vd_decode av dt p s)) ps (fst (vd_decode av dt packet s))) = Some d2" "flushed d2"
    using flushed_run [OF law] by blast
  from flushed_decode [OF law this] show ?thesis by blast
qed

theorem rejected_packet_ends_video_witness:
  "snd (snd (vd_decode demo_codec 1 (packet_for [9] 0 True) (fst (vd_decode demo_codec 1 (packet_for [0] 0 False) (fst (vd_init demo_codec H264 VideoDecoder_new)))))) = False"
proof -
  have law: "codec_drains demo_codec fst" by (auto simp: codec_drains_def demo_codec_def split: prod.splits)
  have s: "vd_ctx (fst (vd_init demo_codec H264 VideoDecoder_new)) = Some (False, [])" by code_simp
  have r: "ad_send demo_codec (False, []) (packet_for [0] 0 False) = ((False, []), False)" by code_simp
  show ?thesis using rejected_packet_ends_video [OF law s r, of 1 "packet_for [9] 0 True" 1 "[]"] by auto
qed

end
