(* ===== verification/AudioCodec.thy ===== *)
theory AudioCodec
  imports RP_Prelude Complex_Main
begin

text \<open>
  \<^verbatim>\<open>encoding/AudioCodec.cpp\<close>: the Opus encoder with its sample FIFO, and the Opus decoder. FFmpeg's FIFO and
  codecs are parameters: \<open>AvFifo\<close> holds the operations of \<^verbatim>\<open>AVFifo\<close> over an arbitrary state, \<open>fifo_laws\<close> what
  its documentation promises (counts are in elements of the size it was allocated with), and
  \<open>AvAudioCodec\<close> what the codec does with a frame. Samples are the bytes the pointers refer to: two per
  sample, four per stereo frame.

  The theorems: every call returns and cuts all complete frames; the timestamps of the frames are
  consecutive; and, since the FIFO is allocated for elements of one byte while the code counts samples,
  exactly half of every block reaches the codec.
\<close>

section \<open>Encoder\<close>

definition kOpusFrameSize :: nat where "kOpusFrameSize = 960"

record AudioPacket =
  ap_data :: bytes
  ap_ptsUs :: u64

record 'f AvFifo =
  af_alloc :: "nat \<Rightarrow> nat \<Rightarrow> 'f"
  af_write :: "'f \<Rightarrow> bytes \<Rightarrow> nat \<Rightarrow> 'f option"
  af_can_read :: "'f \<Rightarrow> nat"
  af_read :: "'f \<Rightarrow> nat \<Rightarrow> 'f \<times> bytes"

text \<open>The codec: opening it, its frame size, the buffer of a frame of so many samples, sending a frame and one
  call of \<^verbatim>\<open>avcodec_receive_packet\<close>.\<close>

datatype receive_answer = TryAgain | EndOfStream | ReceiveFailed | Received "bytes \<times> int"

record 'c AvAudioCodec =
  aa_open :: "int \<Rightarrow> 'c option"
  aa_frame_size :: "'c \<Rightarrow> int"
  aa_frame :: "nat \<Rightarrow> bytes option"
  aa_writable :: bool
  aa_send :: "'c \<Rightarrow> bytes \<Rightarrow> int \<Rightarrow> 'c option"
  aa_receive :: "'c \<Rightarrow> 'c \<times> receive_answer"

record ('f, 'c) AudioEncoderOpus =
  ae_ctx :: "'c option"
  ae_frame :: bytes
  ae_nbSamples :: nat
  ae_fifo :: 'f
  ae_nextPts :: int
  ae_packets :: u64
  ae_avgEncodeMs :: rat

text \<open>\<open>ae_frame\<close> and \<open>ae_nbSamples\<close> are the data and the size of \<^verbatim>\<open>frame_\<close>. A fresh object has no context.\<close>

definition ae_init ::
  "'f AvFifo \<Rightarrow> 'c AvAudioCodec \<Rightarrow> int \<Rightarrow> ('f, 'c) AudioEncoderOpus \<Rightarrow> ('f, 'c) AudioEncoderOpus \<times> string option" where
  "ae_init ff av bitrateKbps s =
     (let s = s\<lparr>ae_ctx := None\<rparr>
      in case aa_open av (bitrateKbps * 1000) of
           None \<Rightarrow> (s, Some ''avcodec_open2(opus) failed'')
         | Some c \<Rightarrow>
             (let nb = (if aa_frame_size av c > 0 then nat (aa_frame_size av c) else kOpusFrameSize)
              in case aa_frame av nb of
                   None \<Rightarrow> (s, Some ''frame alloc failed'')
                 | Some fr \<Rightarrow>
                     (s\<lparr>ae_ctx := Some c, ae_frame := fr, ae_nbSamples := nb, ae_fifo := af_alloc ff (kOpusFrameSize * 2 * 2 * 4) 1,
                        ae_nextPts := 0, ae_packets := 0, ae_avgEncodeMs := 0\<rparr>, None)))"

definition bufferedFrames :: "'f AvFifo \<Rightarrow> ('f, 'c) AudioEncoderOpus \<Rightarrow> nat" where
  "bufferedFrames ff s = (case ae_ctx s of None \<Rightarrow> 0 | Some c \<Rightarrow> af_can_read ff (ae_fifo s) div (2 * 2))"

definition audio_packet :: "bytes \<times> int \<Rightarrow> AudioPacket" where
  "audio_packet p = \<lparr>ap_data = fst p, ap_ptsUs = word_of_int (snd p) * 1000000 div 48000\<rparr>"

definition need :: "('f, 'c) AudioEncoderOpus \<Rightarrow> nat" where
  "need s = ae_nbSamples s * 2"

text \<open>The inner loop: packets until the codec wants more input; the flag is false when receiving failed.
  Not returning is the value \<open>None\<close>.\<close>

partial_function (option) receive_packets ::
  "'c AvAudioCodec \<Rightarrow> 'c \<Rightarrow> ('c \<times> AudioPacket list \<times> bool) option" where
  "receive_packets av c =
     (case snd (aa_receive av c) of
        TryAgain \<Rightarrow> Some (fst (aa_receive av c), [], True)
      | EndOfStream \<Rightarrow> Some (fst (aa_receive av c), [], True)
      | ReceiveFailed \<Rightarrow> Some (fst (aa_receive av c), [], False)
      | Received p \<Rightarrow>
          Option.bind (receive_packets av (fst (aa_receive av c))) (\<lambda>(c, ps, ok). Some (c, audio_packet p # ps, ok)))"

text \<open>One pass of the outer loop: read into the start of the frame's buffer, send it, collect the packets.\<close>

definition cut_frame ::
  "'f AvFifo \<Rightarrow> 'c AvAudioCodec \<Rightarrow> 'c \<Rightarrow> ('f, 'c) AudioEncoderOpus \<Rightarrow>
     (('f, 'c) AudioEncoderOpus \<times> AudioPacket list \<times> string option) option" where
  "cut_frame ff av c s =
     (if \<not> aa_writable av then Some (s, [], Some ''frame not writable'')
      else
        let (f, bs) = af_read ff (ae_fifo s) (need s); fr = bs @ drop (length bs) (ae_frame s); pts = ae_nextPts s;
            s = s\<lparr>ae_fifo := f, ae_frame := fr, ae_nextPts := pts + int (ae_nbSamples s)\<rparr>
        in case aa_send av c fr pts of
             None \<Rightarrow> Some (s, [], Some ''send_frame failed'')
           | Some c' \<Rightarrow>
               Option.bind (receive_packets av c') (\<lambda>(c2, pks, ok).
                 Some (s\<lparr>ae_ctx := Some c2, ae_packets := ae_packets s + of_nat (length pks)\<rparr>, pks,
                   if ok then None else Some ''receive_packet failed'')))"

partial_function (option) cut_frames ::
  "'f AvFifo \<Rightarrow> 'c AvAudioCodec \<Rightarrow> ('f, 'c) AudioEncoderOpus \<Rightarrow>
     (('f, 'c) AudioEncoderOpus \<times> AudioPacket list \<times> string option) option" where
  "cut_frames ff av s =
     (if af_can_read ff (ae_fifo s) < need s then Some (s, [], None)
      else case ae_ctx s of
        None \<Rightarrow> Some (s, [], Some ''not initialized'')
      | Some c \<Rightarrow>
          Option.bind (cut_frame ff av c s) (\<lambda>(s, out, r).
            case r of
              Some why \<Rightarrow> Some (s, out, Some why)
            | None \<Rightarrow> Option.bind (cut_frames ff av s) (\<lambda>(s, rest, r). Some (s, out @ rest, r))))"

definition ae_encode ::
  "'f AvFifo \<Rightarrow> 'c AvAudioCodec \<Rightarrow> rat \<Rightarrow> bytes \<Rightarrow> nat \<Rightarrow> ('f, 'c) AudioEncoderOpus \<Rightarrow>
     (('f, 'c) AudioEncoderOpus \<times> AudioPacket list \<times> string option) option" where
  "ae_encode ff av dt samples frameCount s =
     (case ae_ctx s of
        None \<Rightarrow> Some (s, [], Some ''not initialized'')
      | Some c \<Rightarrow>
          (case (if frameCount > 0 then af_write ff (ae_fifo s) samples (frameCount * 2) else Some (ae_fifo s)) of
             None \<Rightarrow> Some (s, [], Some ''fifo write failed'')
           | Some f \<Rightarrow>
               (case cut_frames ff av (s\<lparr>ae_fifo := f\<rparr>) of
                  None \<Rightarrow> None
                | Some (s, out, Some why) \<Rightarrow> Some (s, out, Some why)
                | Some (s, out, None) \<Rightarrow>
                    Some (s\<lparr>ae_avgEncodeMs := (if ae_avgEncodeMs s = 0 then dt else ae_avgEncodeMs s * 95 / 100 + dt * 5 / 100)\<rparr>,
                          out, None))))"

section \<open>Decoder\<close>

record 'd AvAudioDecoder =
  ao_open :: "'d option"
  ao_send :: "'d \<Rightarrow> bytes \<Rightarrow> 'd option"
  ao_receive :: "'d \<Rightarrow> 'd \<times> u16 list list"

record 'd AudioDecoderOpus =
  ad_ctx :: "'d option"
  ad_packets :: u64
  ad_avgDecodeMs :: rat

definition AudioDecoderOpus_new :: "'d AudioDecoderOpus" where
  "AudioDecoderOpus_new = \<lparr>ad_ctx = None, ad_packets = 0, ad_avgDecodeMs = 0\<rparr>"

definition ad_init :: "'d AvAudioDecoder \<Rightarrow> 'd AudioDecoderOpus \<Rightarrow> 'd AudioDecoderOpus \<times> bool" where
  "ad_init av s = (case ao_open av of None \<Rightarrow> (s\<lparr>ad_ctx := None\<rparr>, False) | Some d \<Rightarrow> (s\<lparr>ad_ctx := Some d\<rparr>, True))"

definition ad_decode ::
  "'d AvAudioDecoder \<Rightarrow> rat \<Rightarrow> bytes \<Rightarrow> u16 list \<Rightarrow> 'd AudioDecoderOpus \<Rightarrow> 'd AudioDecoderOpus \<times> u16 list \<times> bool" where
  "ad_decode av dt packet outSamples s =
     (case ad_ctx s of
        None \<Rightarrow> (s, outSamples, False)
      | Some d \<Rightarrow>
          (case ao_send av d packet of
             None \<Rightarrow> (s, outSamples, False)
           | Some d' \<Rightarrow>
               (let (d2, frames) = ao_receive av d'
                in (s\<lparr>ad_ctx := Some d2, ad_packets := ad_packets s + 1,
                      ad_avgDecodeMs := (if ad_avgDecodeMs s = 0 then dt else ad_avgDecodeMs s * 95 / 100 + dt * 5 / 100)\<rparr>,
                    outSamples @ concat frames, True))))"

definition ad_reset :: "'d AvAudioDecoder \<Rightarrow> 'd AudioDecoderOpus \<Rightarrow> 'd AudioDecoderOpus" where
  "ad_reset av s = fst (ad_init av s)"

section \<open>What the FIFO promises\<close>

text \<open>\<open>content f\<close>: the bytes in the FIFO; a FIFO of \<open>n\<close> elements of size \<open>e\<close> holds at most \<open>n * e\<close> bytes and,
  without the grow flag, refuses a write that does not fit.\<close>

definition fifo_laws :: "'f AvFifo \<Rightarrow> ('f \<Rightarrow> bytes) \<Rightarrow> ('f \<Rightarrow> nat) \<Rightarrow> ('f \<Rightarrow> nat) \<Rightarrow> bool" where
  "fifo_laws ff content esize cap \<longleftrightarrow>
     (\<forall>n e. content (af_alloc ff n e) = [] \<and> esize (af_alloc ff n e) = e \<and> cap (af_alloc ff n e) = n * e) \<and>
     (\<forall>f src n f'. af_write ff f src n = Some f' \<longrightarrow>
        content f' = content f @ take (n * esize f) src \<and> esize f' = esize f \<and> cap f' = cap f) \<and>
     (\<forall>f src n. af_write ff f src n = None \<longleftrightarrow> length (content f) + n * esize f > cap f) \<and>
     (\<forall>f. af_can_read ff f = length (content f) div esize f) \<and>
     (\<forall>f n. n \<le> af_can_read ff f \<longrightarrow> snd (af_read ff f n) = take (n * esize f) (content f) \<and>
        content (fst (af_read ff f n)) = drop (n * esize f) (content f) \<and>
        esize (fst (af_read ff f n)) = esize f \<and> cap (fst (af_read ff f n)) = cap f)"

lemma fifo_law_facts:
  assumes "fifo_laws ff content esize cap"
  shows "content (af_alloc ff n e) = []" "esize (af_alloc ff n e) = e"
    "af_write ff f src n = Some f' \<Longrightarrow> content f' = content f @ take (n * esize f) src"
    "af_write ff f src n = Some f' \<Longrightarrow> esize f' = esize f"
    "af_can_read ff f = length (content f) div esize f"
    "n \<le> af_can_read ff f \<Longrightarrow> snd (af_read ff f n) = take (n * esize f) (content f)"
    "n \<le> af_can_read ff f \<Longrightarrow> content (fst (af_read ff f n)) = drop (n * esize f) (content f)"
    "n \<le> af_can_read ff f \<Longrightarrow> esize (fst (af_read ff f n)) = esize f"
  using assms unfolding fifo_laws_def by blast+

section \<open>The loops\<close>

text \<open>What the codec's documentation promises: each packet it hands out leaves fewer waiting (\<open>waiting\<close>), until it
  asks for input again.\<close>

definition hands_out :: "'c AvAudioCodec \<Rightarrow> ('c \<Rightarrow> nat) \<Rightarrow> bool" where
  "hands_out av waiting \<longleftrightarrow> (\<forall>c c' p. aa_receive av c = (c', Received p) \<longrightarrow> waiting c' < waiting c)"

text \<open>Any codec can be watched: the frames it accepts are recorded beside its state.\<close>

definition listening :: "'c AvAudioCodec \<Rightarrow> ('c \<times> (bytes \<times> int) list) AvAudioCodec" where
  "listening av = \<lparr>aa_open = (\<lambda>rate. map_option (\<lambda>c. (c, [])) (aa_open av rate)), aa_frame_size = aa_frame_size av \<circ> fst,
     aa_frame = aa_frame av, aa_writable = aa_writable av,
     aa_send = (\<lambda>(c, heard) fr pts. map_option (\<lambda>c. (c, heard @ [(fr, pts)])) (aa_send av c fr pts)),
     aa_receive = (\<lambda>(c, heard). case aa_receive av c of (c, a) \<Rightarrow> ((c, heard), a))\<rparr>"

definition heard :: "('f, 'c \<times> (bytes \<times> int) list) AudioEncoderOpus \<Rightarrow> (bytes \<times> int) list" where
  "heard s = (case ae_ctx s of None \<Rightarrow> [] | Some (c, h) \<Rightarrow> h)"

lemma receive_listening:
  "aa_receive av c = (c', a) \<Longrightarrow> aa_receive (listening av) (c, h) = ((c', h), a)"
  by (simp add: listening_def)

lemma receive_returns:
  assumes "hands_out av waiting"
  shows "\<exists>c' ps ok. receive_packets (listening av) (c, h) = Some ((c', h), ps, ok)"
proof (induction "waiting c" arbitrary: c rule: less_induct)
  case less
  obtain c1 a where r: "aa_receive av c = (c1, a)" by force
  show ?case
  proof (cases a)
    case (Received p)
    then have "waiting c1 < waiting c" using assms r by (simp add: hands_out_def)
    from less [OF this] obtain c' ps ok where "receive_packets (listening av) (c1, h) = Some ((c', h), ps, ok)" by blast
    then show ?thesis by (simp add: receive_packets.simps [of "listening av" "(c, h)"] receive_listening [OF r] Received)
  qed (auto simp: receive_packets.simps [of "listening av" "(c, h)"] receive_listening [OF r])
qed

text \<open>Accounting: of the bytes \<open>fed\<close> to the FIFO so far, those not in it any more are the first halves of
  the frames the codec heard; the second halves are those of the frame that was allocated; timestamps are
  consecutive.\<close>

definition accounts :: "('f \<Rightarrow> bytes) \<Rightarrow> nat \<Rightarrow> bytes \<Rightarrow> bytes \<Rightarrow> ('f, 'c \<times> (bytes \<times> int) list) AudioEncoderOpus \<Rightarrow> bool" where
  "accounts content nb frame0 fed s \<longleftrightarrow>
     concat (map (\<lambda>x. take (2 * nb) (fst x)) (heard s)) @ content (ae_fifo s) = fed \<and>
     (\<forall>x \<in> set (heard s). 2 * nb \<le> length (fst x) \<and> drop (2 * nb) (fst x) = drop (2 * nb) frame0) \<and>
     drop (2 * nb) (ae_frame s) = drop (2 * nb) frame0 \<and>
     map snd (heard s) = map (\<lambda>i. int (nb * i)) [0..<length (heard s)] \<and>
     ae_nextPts s = int (nb * length (heard s))"

definition ready :: "('f \<Rightarrow> nat) \<Rightarrow> nat \<Rightarrow> ('f, 'c) AudioEncoderOpus \<Rightarrow> bool" where
  "ready esize nb s \<longleftrightarrow> ae_ctx s \<noteq> None \<and> esize (ae_fifo s) = 1 \<and> ae_nbSamples s = nb \<and> 0 < nb"

lemma cut_frame_returns:
  assumes "hands_out av waiting"
  shows "\<exists>t out r. cut_frame ff (listening av) c s = Some (t, out, r)"
proof -
  obtain c0 h where c: "c = (c0, h)" by force
  obtain f bs where rd: "af_read ff (ae_fifo s) (need s) = (f, bs)" by force
  show ?thesis
  proof (cases "aa_send av c0 (bs @ drop (length bs) (ae_frame s)) (ae_nextPts s)")
    case None
    then show ?thesis using rd c by (simp add: cut_frame_def Let_def listening_def)
  next
    case (Some c1)
    let ?h = "h @ [(bs @ drop (length bs) (ae_frame s), ae_nextPts s)]"
    obtain c' ps ok where "receive_packets (listening av) (c1, ?h) = Some ((c', ?h), ps, ok)"
      using receive_returns [OF assms] by blast
    moreover have "aa_send (listening av) c (bs @ drop (length bs) (ae_frame s)) (ae_nextPts s) = Some (c1, ?h)"
      using Some c by (simp add: listening_def)
    ultimately show ?thesis using rd by (cases "aa_writable (listening av)") (simp_all add: cut_frame_def Let_def)
  qed
qed

lemma cut_frame_ok:
  assumes laws: "fifo_laws ff content esize cap" "hands_out av waiting" and "ready esize nb s" "ae_ctx s = Some c"
    and enough: "need s \<le> af_can_read ff (ae_fifo s)" and r: "cut_frame ff (listening av) c s = Some (t, out, None)"
  shows "ready esize nb t" "length (content (ae_fifo t)) + 2 * nb = length (content (ae_fifo s))"
    and "accounts content nb frame0 fed s \<Longrightarrow> accounts content nb frame0 fed t"
proof -
  note law = fifo_law_facts [OF laws(1)]
  have e: "esize (ae_fifo s) = 1" "need s = 2 * nb" "ae_nbSamples s = nb" "0 < nb" using assms(3) by (simp_all add: ready_def need_def)
  obtain f bs where rd: "af_read ff (ae_fifo s) (2 * nb) = (f, bs)" by force
  have len: "2 * nb \<le> length (content (ae_fifo s))" using enough law(5) e by simp
  have bs: "bs = take (2 * nb) (content (ae_fifo s))" and f: "content f = drop (2 * nb) (content (ae_fifo s))" "esize f = 1"
    using law(6-8) [OF enough] rd e by simp_all
  let ?fr = "bs @ drop (length bs) (ae_frame s)"
  obtain c0 h where c: "c = (c0, h)" by force
  obtain c1 where snd: "aa_send av c0 ?fr (ae_nextPts s) = Some c1"
    using r rd e(2) c by (auto simp: cut_frame_def Let_def listening_def split: if_splits option.splits)
  obtain c' ps ok where "receive_packets (listening av) (c1, h @ [(?fr, ae_nextPts s)]) = Some ((c', h @ [(?fr, ae_nextPts s)]), ps, ok)"
    using receive_returns [OF laws(2)] by blast
  moreover have "aa_send (listening av) c ?fr (ae_nextPts s) = Some (c1, h @ [(?fr, ae_nextPts s)])"
    using snd c by (simp add: listening_def)
  ultimately have t: "ae_ctx t = Some (c', h @ [(?fr, ae_nextPts s)])" "ae_fifo t = f" "ae_frame t = ?fr"
    "ae_nextPts t = ae_nextPts s + int nb" "ae_nbSamples t = nb"
    using r rd e(2,3) by (auto simp: cut_frame_def Let_def split: if_splits)
  have h: "heard s = h" "heard t = h @ [(?fr, ae_nextPts s)]" using assms(4) c t(1) by (simp_all add: heard_def)
  have lb: "length bs = 2 * nb" using bs len by simp
  show "ready esize nb t" "length (content (ae_fifo t)) + 2 * nb = length (content (ae_fifo s))"
    using f len t e(4) by (simp_all add: ready_def)
  assume acc: "accounts content nb frame0 fed s"
  have "bs @ content f = content (ae_fifo s)" using bs f(1) by simp
  then have "concat (map (\<lambda>x. take (2 * nb) (fst x)) (heard t)) @ content (ae_fifo t) = fed"
    using acc lb by (simp add: accounts_def t(2) h)
  moreover have "map snd (heard t) = map (\<lambda>i. int (nb * i)) [0..<length (heard t)]"
    using acc by (simp add: accounts_def h)
  ultimately show "accounts content nb frame0 fed t"
    using acc lb by (simp add: accounts_def t(3,4) h distrib_left)
qed

lemma cut_frames_ok:
  assumes laws: "fifo_laws ff content esize cap" "hands_out av waiting" and "ready esize nb s"
  shows "\<exists>t out r. cut_frames ff (listening av) s = Some (t, out, r) \<and>
    (r = None \<longrightarrow> ready esize nb t \<and> length (content (ae_fifo t)) < 2 * nb \<and>
       (\<forall>frame0 fed. accounts content nb frame0 fed s \<longrightarrow> accounts content nb frame0 fed t))"
  using assms(3)
proof (induction "length (content (ae_fifo s))" arbitrary: s rule: less_induct)
  case less
  have e: "esize (ae_fifo s) = 1" "need s = 2 * nb" using less.prems by (simp_all add: ready_def need_def)
  show ?case
  proof (cases "af_can_read ff (ae_fifo s) < need s")
    case True
    then have "length (content (ae_fifo s)) < 2 * nb" using e fifo_law_facts(5) [OF laws(1)] by simp
    then show ?thesis using True less.prems by (subst cut_frames.simps) simp
  next
    case False
    then have enough: "need s \<le> af_can_read ff (ae_fifo s)" by simp
    obtain c where c: "ae_ctx s = Some c" using less.prems by (auto simp: ready_def)
    obtain s1 out1 r1 where f: "cut_frame ff (listening av) c s = Some (s1, out1, r1)" using cut_frame_returns [OF laws(2)] by blast
    show ?thesis
    proof (cases r1)
      case (Some why)
      then show ?thesis using False c f by (subst cut_frames.simps) simp
    next
      case None
      note k = cut_frame_ok [OF laws less.prems c enough f [unfolded None]]
      have "length (content (ae_fifo s1)) < length (content (ae_fifo s))" using k(2) less.prems by (simp add: ready_def)
      from less.hyps [OF this k(1)] obtain t out r where t: "cut_frames ff (listening av) s1 = Some (t, out, r)"
        "r = None \<longrightarrow> ready esize nb t \<and> length (content (ae_fifo t)) < 2 * nb \<and>
           (\<forall>frame0 fed. accounts content nb frame0 fed s1 \<longrightarrow> accounts content nb frame0 fed t)" by blast
      have "cut_frames ff (listening av) s = Some (t, out1 @ out, r)" using False c f None t(1) by (subst cut_frames.simps) simp
      then show ?thesis using t(2) k(3) by blast
    qed
  qed
qed

section \<open>Runs of the encoder\<close>

text \<open>Blocks encoded one after the other while no call reports an error; the flag says whether all did.\<close>

fun encode_blocks ::
  "'f AvFifo \<Rightarrow> 'c AvAudioCodec \<Rightarrow> (rat \<times> bytes \<times> nat) list \<Rightarrow> ('f, 'c) AudioEncoderOpus \<Rightarrow> (('f, 'c) AudioEncoderOpus \<times> bool) option" where
  "encode_blocks ff av [] s = Some (s, True)"
| "encode_blocks ff av ((dt, samples, n) # bs) s =
     (case ae_encode ff av dt samples n s of
        None \<Rightarrow> None
      | Some (s, out, Some why) \<Rightarrow> Some (s, False)
      | Some (s, out, None) \<Rightarrow> encode_blocks ff av bs s)"

text \<open>The bytes of the blocks that are written to the FIFO.\<close>

definition queued_bytes :: "(rat \<times> bytes \<times> nat) list \<Rightarrow> bytes" where
  "queued_bytes blocks = concat (map (\<lambda>(dt, samples, n). take (2 * n) samples) blocks)"

lemma accounts_avg: "accounts content nb frame0 fed (t\<lparr>ae_avgEncodeMs := a\<rparr>) = accounts content nb frame0 fed t"
  by (simp add: accounts_def heard_def)

lemma encode_ok:
  assumes laws: "fifo_laws ff content esize cap" "hands_out av waiting" and "ready esize nb s"
  shows "\<exists>t out r. ae_encode ff (listening av) dt samples n s = Some (t, out, r) \<and>
    (r = None \<longrightarrow> ready esize nb t \<and> length (content (ae_fifo t)) < 2 * nb \<and>
       (\<forall>frame0 fed. accounts content nb frame0 fed s \<longrightarrow> accounts content nb frame0 (fed @ take (2 * n) samples) t))"
proof -
  obtain c where c: "ae_ctx s = Some c" and e: "esize (ae_fifo s) = 1" using assms(3) by (auto simp: ready_def)
  let ?w = "if n > 0 then af_write ff (ae_fifo s) samples (n * 2) else Some (ae_fifo s)"
  show ?thesis
  proof (cases ?w)
    case None
    then have "ae_encode ff (listening av) dt samples n s = Some (s, [], Some ''fifo write failed'')" by (simp add: ae_encode_def c)
    then show ?thesis by simp
  next
    case (Some f)
    let ?s = "s\<lparr>ae_fifo := f\<rparr>"
    from Some have f: "content f = content (ae_fifo s) @ take (2 * n) samples" "esize f = 1"
      using fifo_law_facts(3,4) [OF laws(1)] e by (auto simp: mult.commute split: if_splits)
    have rdy: "ready esize nb ?s" using f(2) assms(3) by (simp add: ready_def)
    obtain t out r where t: "cut_frames ff (listening av) ?s = Some (t, out, r)"
      "r = None \<longrightarrow> ready esize nb t \<and> length (content (ae_fifo t)) < 2 * nb \<and>
         (\<forall>frame0 fed. accounts content nb frame0 fed ?s \<longrightarrow> accounts content nb frame0 fed t)"
      using cut_frames_ok [OF laws rdy] by blast
    have acc: "accounts content nb frame0 (fed @ take (2 * n) samples) ?s" if "accounts content nb frame0 fed s" for frame0 fed
      using that f(1) by (auto simp: accounts_def heard_def)
    show ?thesis
    proof (cases r)
      case None
      then show ?thesis using t acc Some c by (simp add: ae_encode_def ready_def accounts_avg)
    next
      case why: (Some why)
      then show ?thesis using t Some c by (simp add: ae_encode_def)
    qed
  qed
qed

lemma init_ready:
  assumes "fifo_laws ff content esize cap" and "ae_init ff (listening av) k s = (t, None)"
  shows "ready esize (ae_nbSamples t) t" "accounts content (ae_nbSamples t) (ae_frame t) [] t" "content (ae_fifo t) = []"
  using assms(2) fifo_law_facts(1,2) [OF assms(1)]
  by (auto simp: ae_init_def ready_def accounts_def heard_def listening_def kOpusFrameSize_def Let_def split: option.splits)

lemma encode_blocks_ok:
  assumes laws: "fifo_laws ff content esize cap" "hands_out av waiting" and "ready esize nb s" "length (content (ae_fifo s)) < 2 * nb"
  shows "\<exists>t ok. encode_blocks ff (listening av) blocks s = Some (t, ok) \<and>
    (ok \<longrightarrow> length (content (ae_fifo t)) < 2 * nb \<and>
       (\<forall>frame0 fed. accounts content nb frame0 fed s \<longrightarrow> accounts content nb frame0 (fed @ queued_bytes blocks) t))"
  using assms(3,4)
proof (induction blocks arbitrary: s)
  case Nil
  then show ?case by (auto simp: queued_bytes_def intro: exI [of _ True])
next
  case (Cons b bs)
  obtain dt samples n where b: "b = (dt, samples, n)" using prod_cases3 by blast
  obtain t out r where t: "ae_encode ff (listening av) dt samples n s = Some (t, out, r)"
    "r = None \<longrightarrow> ready esize nb t \<and> length (content (ae_fifo t)) < 2 * nb \<and>
      (\<forall>frame0 fed. accounts content nb frame0 fed s \<longrightarrow> accounts content nb frame0 (fed @ take (2 * n) samples) t)"
    using encode_ok [OF laws Cons.prems(1)] by blast
  show ?case
  proof (cases r)
    case None
    then obtain u ok where u: "encode_blocks ff (listening av) bs t = Some (u, ok)" "ok \<longrightarrow> length (content (ae_fifo u)) < 2 * nb \<and>
       (\<forall>frame0 fed. accounts content nb frame0 fed t \<longrightarrow> accounts content nb frame0 (fed @ queued_bytes bs) u)"
      using Cons.IH t(2) by blast
    then show ?thesis using t None by (fastforce simp: b queued_bytes_def)
  next
    case (Some why)
    then show ?thesis using t by (auto simp: b intro: exI [of _ False])
  qed
qed

section \<open>Properties\<close>



text \<open>Only half of the audio reaches the codec. After any blocks of stereo samples encoded without an
  error, the first halves of the frames sent and the bytes still buffered are together the first half of
  each block, the second half of every frame is what the allocated frame contained, and the frames'
  timestamps advance by the frame size as if they were complete.\<close>

theorem audio_half_lost:
  assumes "fifo_laws ff content esize cap" and "hands_out av waiting" and "ae_init ff (listening av) k s = (s0, None)"
    and "encode_blocks ff (listening av) blocks s0 = Some (t, True)" and "\<forall>(dt, samples, n) \<in> set blocks. length samples = 4 * n"
    and "nb = ae_nbSamples s0"
  shows "concat (map (\<lambda>x. take (2 * nb) (fst x)) (heard t)) @ content (ae_fifo t) =
      concat (map (\<lambda>(dt, samples, n). take (length samples div 2) samples) blocks) \<and>
    (\<forall>x \<in> set (heard t). drop (2 * nb) (fst x) = drop (2 * nb) (ae_frame s0)) \<and>
    map snd (heard t) = map (\<lambda>i. int (nb * i)) [0..<length (heard t)]"
proof -
  note r = init_ready [OF assms(1,3)]
  have "length (content (ae_fifo s0)) < 2 * nb" using r(1,3) assms(6) by (simp add: ready_def)
  then have "accounts content nb (ae_frame s0) ([] @ queued_bytes blocks) t"
    using encode_blocks_ok [OF assms(1,2) r(1), of blocks] assms(4,6) r(2) by fastforce
  moreover have "map (\<lambda>(dt, samples, n). take (2 * n) samples) blocks = map (\<lambda>(dt, samples, n). take (length samples div 2) samples) blocks"
    using assms(5) by auto
  ultimately show ?thesis by (simp add: accounts_def queued_bytes_def)
qed

text \<open>A FIFO that keeps the documented laws, and a codec with frames of two samples that returns each frame.\<close>

definition list_fifo :: "(nat \<times> nat \<times> bytes) AvFifo" where
  "list_fifo = \<lparr>af_alloc = (\<lambda>n e. (e, n * e, [])),
     af_write = (\<lambda>(e, cap, bs) src n. if length bs + n * e > cap then None else Some (e, cap, bs @ take (n * e) src)),
     af_can_read = (\<lambda>(e, cap, bs). length bs div e),
     af_read = (\<lambda>(e, cap, bs) n. ((e, cap, drop (n * e) bs), take (n * e) bs))\<rparr>"

definition echo_codec :: "(bytes \<times> int) list AvAudioCodec" where
  "echo_codec = \<lparr>aa_open = (\<lambda>_. Some []), aa_frame_size = (\<lambda>_. 2), aa_frame = (\<lambda>nb. Some (replicate (4 * nb) 0)), aa_writable = True,
     aa_send = (\<lambda>q fr pts. Some (q @ [(fr, pts)])),
     aa_receive = (\<lambda>q. case q of [] \<Rightarrow> ([], TryAgain) | p # q \<Rightarrow> (q, Received p))\<rparr>"

definition fresh_audio :: "(nat \<times> nat \<times> bytes, (bytes \<times> int) list \<times> (bytes \<times> int) list) AudioEncoderOpus" where
  "fresh_audio = \<lparr>ae_ctx = None, ae_frame = [], ae_nbSamples = 0, ae_fifo = (1, 0, []), ae_nextPts = 0, ae_packets = 0, ae_avgEncodeMs = 0\<rparr>"

definition audio_ready :: "(nat \<times> nat \<times> bytes, (bytes \<times> int) list \<times> (bytes \<times> int) list) AudioEncoderOpus" where
  "audio_ready = fst (ae_init list_fifo (listening echo_codec) 128 fresh_audio)"

definition six_samples :: "(rat \<times> bytes \<times> nat) list" where
  "six_samples = [(1, [1, 2, 3, 4, 5, 6, 7, 8, 9, 10, 11, 12], 3), (1, [13, 14, 15, 16, 17, 18, 19, 20, 21, 22, 23, 24], 3)]"

lemma list_fifo_laws: "fifo_laws list_fifo (snd \<circ> snd) fst (fst \<circ> snd)"
  by (auto simp: fifo_laws_def list_fifo_def split: if_splits)

lemma echo_codec_law: "hands_out echo_codec length"
  by (auto simp: hands_out_def echo_codec_def split: list.splits)

lemma audio_started: "ae_init list_fifo (listening echo_codec) 128 fresh_audio = (audio_ready, None)"
  by (simp add: audio_ready_def ae_init_def listening_def echo_codec_def)

lemma echo_receives: "receive_packets (listening echo_codec) (q, h) = Some (([], h), map audio_packet q, True)"
  by (induction q) (simp_all add: receive_packets.simps listening_def echo_codec_def)

lemma echo_sends:
  "aa_send (listening echo_codec) (q, h) fr pts = Some (q @ [(fr, pts)], h @ [(fr, pts)])" "aa_writable (listening echo_codec)"
  by (simp_all add: listening_def echo_codec_def)

lemma list_fifo_ops:
  "af_write list_fifo (e, n, bs) src k = (if length bs + k * e > n then None else Some (e, n, bs @ take (k * e) src))"
  "af_can_read list_fifo (e, n, bs) = length bs div e"
  "af_read list_fifo (e, n, bs) k = ((e, n, drop (k * e) bs), take (k * e) bs)"
  by (simp_all add: list_fifo_def)

lemma audio_ready_fields:
  "ae_ctx audio_ready = Some ([], [])" "ae_fifo audio_ready = (1, 15360, [])" "ae_nbSamples audio_ready = 2"
  by (simp_all add: audio_ready_def ae_init_def list_fifo_def listening_def echo_codec_def kOpusFrameSize_def)

lemma six_samples_encoded:
  "map_option snd (encode_blocks list_fifo (listening echo_codec) six_samples audio_ready) = Some True"
  by (simp add: six_samples_def audio_ready_fields ae_encode_def cut_frames.simps cut_frame_def need_def list_fifo_ops
      echo_sends echo_receives Let_def)


theorem audio_half_lost_witness:
  "\<exists>t. encode_blocks list_fifo (listening echo_codec) six_samples audio_ready = Some (t, True) \<and>
     concat (map (\<lambda>x. take 4 (fst x)) (heard t)) @ snd (snd (ae_fifo t)) = [1, 2, 3, 4, 5, 6, 13, 14, 15, 16, 17, 18]"
proof -
  obtain t where t: "encode_blocks list_fifo (listening echo_codec) six_samples audio_ready = Some (t, True)"
    using six_samples_encoded by auto
  have "\<forall>(dt, samples, n) \<in> set six_samples. length samples = 4 * n" by (simp add: six_samples_def)
  from audio_half_lost [OF list_fifo_laws echo_codec_law audio_started t this, of 2] audio_ready_fields(3) t show ?thesis
    by (simp add: six_samples_def)
qed

end
