(* ===== verification/AudioDevices.thy ===== *)
theory AudioDevices
  imports RP_Prelude Complex_Main "HOL-Library.Sublist"
begin

text \<open>
  \<^verbatim>\<open>audio/WasapiPlayer.cpp\<close> and \<^verbatim>\<open>audio/WasapiCapture.cpp\<close>: playback and loopback capture on their own threads.
  The answers of the Windows audio interfaces are arguments. A pass of a thread's loop that would call
  through a null interface pointer is the outcome \<open>Crashed\<close>; \<open>start\<close> waits for its thread when the devices
  cannot be initialised, so its model runs the thread's loop, with a bound on the passes.

  The theorems: at most 400 ms are queued for playback and what is played is a subsequence of what was
  pushed, in order; a player whose devices cannot be initialised never returns from \<open>start\<close>, while the
  capture does.
\<close>

section \<open>Player\<close>

type_synonym i16 = "16 word"

record WaveFormat =
  wf_channels :: nat
  wf_bits :: nat
  wf_pcm :: bool

datatype format_support = FormatOk | FormatClosest WaveFormat | FormatRefused

record player_answers =
  pn_enumerator :: bool
  pn_endpoint :: bool
  pn_activate :: bool
  pn_support :: format_support
  pn_mix :: "WaveFormat option"
  pn_initialize :: bool
  pn_bufferSize :: u32
  pn_service :: bool
  pn_start :: bool

record WasapiPlayer =
  wp_running :: bool
  wp_client :: bool
  wp_format :: "WaveFormat option"
  wp_bufferFrames :: u32
  wp_render :: bool
  wp_isS16 :: bool
  wp_queue :: "i16 list"
  wp_underruns :: u64

definition WasapiPlayer_new :: WasapiPlayer where
  "WasapiPlayer_new = \<lparr>wp_running = False, wp_client = False, wp_format = None, wp_bufferFrames = 0, wp_render = False,
     wp_isS16 = False, wp_queue = [], wp_underruns = 0\<rparr>"

definition desired_format :: WaveFormat where
  "desired_format = \<lparr>wf_channels = 2, wf_bits = 16, wf_pcm = True\<rparr>"

definition choose_format :: "player_answers \<Rightarrow> WasapiPlayer \<Rightarrow> WasapiPlayer" where
  "choose_format a s =
     (case pn_support a of
        FormatOk \<Rightarrow> s\<lparr>wp_format := Some desired_format, wp_isS16 := True\<rparr>
      | FormatClosest f \<Rightarrow> s\<lparr>wp_format := Some f, wp_isS16 := (wf_pcm f \<and> wf_bits f = 16)\<rparr>
      | FormatRefused \<Rightarrow> s\<lparr>wp_format := pn_mix a, wp_isS16 := False\<rparr>)"

definition player_initDevices :: "player_answers \<Rightarrow> WasapiPlayer \<Rightarrow> WasapiPlayer \<times> string option" where
  "player_initDevices a s =
     (if \<not> pn_enumerator a then (s, Some ''CoCreateInstance(MMDeviceEnumerator) failed'')
      else if \<not> pn_endpoint a then (s, Some ''no default render device'')
      else if \<not> pn_activate a then (s, Some ''device Activate(IAudioClient) failed'')
      else
        let s = choose_format a (s\<lparr>wp_client := True\<rparr>)
        in if wp_format s = None then (s, Some ''no usable render format'')
           else if \<not> pn_initialize a then (s, Some ''IAudioClient::Initialize(render) failed'')
           else
             let s = s\<lparr>wp_bufferFrames := pn_bufferSize a\<rparr>
             in if \<not> pn_service a then (s, Some ''GetService(IAudioRenderClient) failed'')
                else if \<not> pn_start a then (s\<lparr>wp_render := True\<rparr>, Some ''IAudioClient::Start failed'')
                else (s\<lparr>wp_render := True\<rparr>, None))"

text \<open>One pass of the render loop: the padding the device reports (\<open>None\<close>: the call fails), and whether it
  hands out a buffer. The samples written are those of the queue, then silence.\<close>

datatype pass_result = Crashed | Idle | Wrote "i16 list"

definition render_pass :: "u32 option \<Rightarrow> bool \<Rightarrow> WasapiPlayer \<Rightarrow> WasapiPlayer \<times> pass_result" where
  "render_pass padding buffer s =
     (if \<not> wp_client s then (s, Crashed)
      else case padding of
        None \<Rightarrow> (s, Idle)
      | Some pad \<Rightarrow>
          let framesToWrite = wp_bufferFrames s - pad
          in if framesToWrite = 0 then (s, Idle)
             else if \<not> wp_render s then (s, Crashed)
             else if \<not> buffer then (s, Idle)
             else (case wp_format s of
                     None \<Rightarrow> (s, Crashed)
                   | Some f \<Rightarrow>
                       let need = unat framesToWrite * wf_channels f; n = min need (length (wp_queue s));
                           s' = (if n < need then s\<lparr>wp_underruns := wp_underruns s + 1\<rparr> else s)
                       in (s'\<lparr>wp_queue := drop n (wp_queue s)\<rparr>, Wrote (take n (wp_queue s) @ replicate (need - n) 0))))"

definition kMaxQueueFrames :: nat where "kMaxQueueFrames = 48000 div 1000 * 400"

definition wp_push :: "i16 list \<Rightarrow> WasapiPlayer \<Rightarrow> WasapiPlayer" where
  "wp_push samples s =
     (let q = wp_queue s @ samples
      in s\<lparr>wp_queue := (if length q > kMaxQueueFrames * 2 then drop (length q - kMaxQueueFrames * 2) q else q)\<rparr>)"

definition bufferedMs :: "WasapiPlayer \<Rightarrow> rat" where
  "bufferedMs s = rat_of_nat (length (wp_queue s) div 2) / 48"

definition wp_stop :: "WasapiPlayer \<Rightarrow> WasapiPlayer" where
  "wp_stop s = (if \<not> wp_running s then s
     else s\<lparr>wp_running := False, wp_client := False, wp_render := False, wp_format := None, wp_queue := []\<rparr>)"

text \<open>The loop runs while the flag is set; only the thread that waits for it, or \<^verbatim>\<open>stop\<close>, clears the flag.\<close>

datatype loop_end = LoopEnded | LoopCrashed | LoopRunning

fun render_loop :: "nat \<Rightarrow> (nat \<Rightarrow> u32 option \<times> bool) \<Rightarrow> WasapiPlayer \<Rightarrow> WasapiPlayer \<times> loop_end" where
  "render_loop 0 env s = (s, if wp_running s then LoopRunning else LoopEnded)"
| "render_loop (Suc n) env s =
     (if \<not> wp_running s then (s, LoopEnded)
      else case render_pass (fst (env n)) (snd (env n)) s of
        (s, Crashed) \<Rightarrow> (s, LoopCrashed)
      | (s, _) \<Rightarrow> render_loop n env s)"

datatype start_outcome = Returned WasapiPlayer bool | StartCrashed | StartBlocked

definition wp_start :: "nat \<Rightarrow> player_answers \<Rightarrow> (nat \<Rightarrow> u32 option \<times> bool) \<Rightarrow> WasapiPlayer \<Rightarrow> start_outcome" where
  "wp_start fuel a env s =
     (if wp_running s then Returned (s\<lparr>wp_running := False\<rparr>) False
      else case player_initDevices a (s\<lparr>wp_running := True\<rparr>) of
        (s, None) \<Rightarrow> Returned s True
      | (s, Some why) \<Rightarrow>
          (case render_loop fuel env s of
             (s, LoopEnded) \<Rightarrow> Returned (s\<lparr>wp_running := False\<rparr>) False
           | (s, LoopCrashed) \<Rightarrow> StartCrashed
           | (s, LoopRunning) \<Rightarrow> StartBlocked))"

section \<open>Loopback capture\<close>

record capture_answers =
  cn_enumerator :: bool
  cn_endpoint :: bool
  cn_activate :: bool
  cn_mix :: "(nat \<times> nat \<times> bool) option"
  cn_initialize :: bool
  cn_service :: bool
  cn_start :: bool

record WasapiCapture =
  wc_running :: bool
  wc_client :: bool
  wc_srcRate :: nat
  wc_srcChannels :: nat
  wc_srcIsFloat :: bool
  wc_swr :: bool
  wc_blocks :: u64

definition capture_initDevices :: "capture_answers \<Rightarrow> WasapiCapture \<Rightarrow> WasapiCapture \<times> string option" where
  "capture_initDevices a s =
     (if \<not> cn_enumerator a then (s, Some ''CoCreateInstance(MMDeviceEnumerator) failed'')
      else if \<not> cn_endpoint a then (s, Some ''no default render device'')
      else if \<not> cn_activate a then (s, Some ''device Activate(IAudioClient) failed'')
      else case cn_mix a of
        None \<Rightarrow> (s, Some ''GetMixFormat failed'')
      | Some (rate, channels, isFloat) \<Rightarrow>
          let s = s\<lparr>wc_srcRate := rate, wc_srcChannels := channels, wc_srcIsFloat := isFloat\<rparr>
          in if \<not> cn_initialize a then (s, Some ''IAudioClient::Initialize(loopback) failed'')
             else if \<not> cn_service a then (s, Some ''GetService(IAudioCaptureClient) failed'')
             else if \<not> cn_start a then (s\<lparr>wc_client := True\<rparr>, Some ''IAudioClient::Start failed'')
             else (s\<lparr>wc_client := True\<rparr>, None))"

text \<open>One pass of the capture loop: the packet the device hands out (\<open>None\<close>: empty or failed), whether it
  is silent, whether the resampler can be made, and the frames \<^verbatim>\<open>swr_convert\<close> wrote into the buffer.\<close>

definition max_out :: "nat \<Rightarrow> nat \<Rightarrow> nat" where
  "max_out frames rate = frames * 48000 div rate + 16"

definition capture_pass ::
  "(nat \<times> bool) option \<Rightarrow> bool \<Rightarrow> (nat \<Rightarrow> int \<times> i16 list) \<Rightarrow> WasapiCapture \<Rightarrow> WasapiCapture \<times> (i16 list \<times> nat) option" where
  "capture_pass packet alloc convert s =
     (case packet of
        None \<Rightarrow> (s, None)
      | Some (frames, silent) \<Rightarrow>
          if frames > 0 \<and> \<not> silent
          then
            let s = (if wc_swr s then s else s\<lparr>wc_swr := alloc\<rparr>)
            in if \<not> wc_swr s then (s, None)
               else
                 let maxOut = max_out frames (wc_srcRate s); (outFrames, samples) = convert maxOut;
                     buf = take (maxOut * 2) (samples @ replicate (maxOut * 2) 0)
                 in if outFrames > 0 then (s\<lparr>wc_blocks := wc_blocks s + 1\<rparr>, Some (buf, nat outFrames)) else (s, None)
          else (s, None))"

text \<open>The thread clears the flag itself when its devices cannot be initialised, so its loop does not run.\<close>

definition wc_start :: "capture_answers \<Rightarrow> WasapiCapture \<Rightarrow> WasapiCapture \<times> bool" where
  "wc_start a s =
     (if wc_running s then (s\<lparr>wc_running := False\<rparr>, False)
      else case capture_initDevices a (s\<lparr>wc_running := True\<rparr>) of
        (s, None) \<Rightarrow> (s, True)
      | (s, Some why) \<Rightarrow> (s\<lparr>wc_running := False, wc_client := False, wc_swr := False\<rparr>, False))"

definition wc_stop :: "WasapiCapture \<Rightarrow> WasapiCapture" where
  "wc_stop s = (if \<not> wc_running s then s else s\<lparr>wc_running := False, wc_client := False, wc_swr := False\<rparr>)"

section \<open>The playback queue\<close>

text \<open>The player's queue under pushes and render passes, with what was pushed and what was played.\<close>

datatype wp_event = WpPush "i16 list" | WpRender "u32 option" bool

record wp_history =
  wh_player :: WasapiPlayer
  wh_pushed :: "i16 list"
  wh_played :: "i16 list"

definition played_now :: "WasapiPlayer \<Rightarrow> WasapiPlayer \<Rightarrow> i16 list" where
  "played_now s t = take (length (wp_queue s) - length (wp_queue t)) (wp_queue s)"

fun wp_handle :: "wp_event \<Rightarrow> wp_history \<Rightarrow> wp_history" where
  "wp_handle (WpPush samples) h =
     h\<lparr>wh_player := wp_push samples (wh_player h), wh_pushed := wh_pushed h @ samples\<rparr>"
| "wp_handle (WpRender padding buffer) h =
     (let t = fst (render_pass padding buffer (wh_player h))
      in h\<lparr>wh_player := t, wh_played := wh_played h @ played_now (wh_player h) t\<rparr>)"

definition wp_inv :: "wp_history \<Rightarrow> bool" where
  "wp_inv h \<longleftrightarrow> length (wp_queue (wh_player h)) \<le> 38400 \<and> subseq (wh_played h @ wp_queue (wh_player h)) (wh_pushed h)"

lemma render_queue: "\<exists>n. wp_queue (fst (render_pass padding buffer s)) = drop n (wp_queue s)"
  by (auto simp: render_pass_def Let_def split: option.split intro: exI [of _ 0])

lemma render_played:
  "played_now s (fst (render_pass padding buffer s)) @ wp_queue (fst (render_pass padding buffer s)) = wp_queue s"
proof -
  obtain n where n: "wp_queue (fst (render_pass padding buffer s)) = drop n (wp_queue s)" using render_queue by blast
  have "take (length (wp_queue s) - length (drop n (wp_queue s))) (wp_queue s) @ drop n (wp_queue s) = wp_queue s"
    by (cases "n \<le> length (wp_queue s)") simp_all
  then show ?thesis by (simp add: played_now_def n)
qed

lemma wp_push_queue: "\<exists>n. wp_queue (wp_push samples s) = drop n (wp_queue s @ samples)" "length (wp_queue (wp_push samples s)) \<le> 38400"
proof -
  show "\<exists>n. wp_queue (wp_push samples s) = drop n (wp_queue s @ samples)"
  proof (cases "length (wp_queue s @ samples) > kMaxQueueFrames * 2")
    case True
    then show ?thesis by (intro exI [of _ "length (wp_queue s @ samples) - kMaxQueueFrames * 2"]) (simp add: wp_push_def Let_def)
  next
    case False
    then show ?thesis by (intro exI [of _ 0]) (simp add: wp_push_def Let_def)
  qed
  show "length (wp_queue (wp_push samples s)) \<le> 38400"
    by (simp add: wp_push_def kMaxQueueFrames_def Let_def) linarith
qed

lemma wp_inv_handle: "wp_inv h \<Longrightarrow> wp_inv (wp_handle e h)"
proof (cases e)
  case (WpPush samples)
  assume inv: "wp_inv h"
  obtain n where n: "wp_queue (wp_push samples (wh_player h)) = drop n (wp_queue (wh_player h) @ samples)" using wp_push_queue by blast
  have "subseq (drop n (wp_queue (wh_player h) @ samples)) (wp_queue (wh_player h) @ samples)"
    by (intro suffix_imp_subseq suffix_drop)
  then have "subseq (wh_played h @ drop n (wp_queue (wh_player h) @ samples)) (wh_played h @ wp_queue (wh_player h) @ samples)"
    using list_emb_append_mono [of "(=)" "wh_played h" "wh_played h"] by blast
  moreover have "subseq (wh_played h @ wp_queue (wh_player h) @ samples) (wh_pushed h @ samples)"
    using inv list_emb_append_mono [of "(=)" "wh_played h @ wp_queue (wh_player h)" "wh_pushed h" samples samples]
    by (simp add: wp_inv_def)
  ultimately have "subseq (wh_played h @ wp_queue (wp_push samples (wh_player h))) (wh_pushed h @ samples)"
    unfolding n by (rule subseq_order.trans)
  then show ?thesis using wp_push_queue(2) by (simp add: wp_inv_def WpPush)
next
  case (WpRender padding buffer)
  assume inv: "wp_inv h"
  obtain n where n: "wp_queue (fst (render_pass padding buffer (wh_player h))) = drop n (wp_queue (wh_player h))" using render_queue by blast
  moreover have "length (wp_queue (wh_player h)) \<le> 38400" using inv by (simp add: wp_inv_def)
  ultimately have "length (wp_queue (fst (render_pass padding buffer (wh_player h)))) \<le> 38400" by simp
  then show ?thesis using inv render_played [of "wh_player h" padding buffer] by (simp add: wp_inv_def WpRender Let_def)
qed

interpretation wpq: event_machine "\<lparr>wh_player = WasapiPlayer_new, wh_pushed = [], wh_played = []\<rparr>" wp_handle wp_inv
  by unfold_locales (simp_all add: wp_inv_handle, simp add: wp_inv_def WasapiPlayer_new_def)

section \<open>Properties\<close>

text \<open>Playback keeps latency bounded and order: however samples are pushed and the device asks for
  them, at most 400 ms are queued, and what was played followed by what is queued is a subsequence of
  what was pushed.\<close>

theorem playback_bounded_in_order:
  "let h = fold wp_handle es \<lparr>wh_player = WasapiPlayer_new, wh_pushed = [], wh_played = []\<rparr>
   in bufferedMs (wh_player h) \<le> 400 \<and> subseq (wh_played h @ wp_queue (wh_player h)) (wh_pushed h)"
proof -
  let ?h = "fold wp_handle es \<lparr>wh_player = WasapiPlayer_new, wh_pushed = [], wh_played = []\<rparr>"
  have inv: "wp_inv ?h" by (rule wpq.inv_run)
  then have "length (wp_queue (wh_player ?h)) \<le> 38400" unfolding wp_inv_def by blast
  then have "length (wp_queue (wh_player ?h)) div 2 \<le> 19200" by linarith
  then have "rat_of_nat (length (wp_queue (wh_player ?h)) div 2) \<le> 19200" by (metis of_nat_le_iff of_nat_numeral)
  then show ?thesis using inv by (simp add: wp_inv_def bufferedMs_def)
qed

text \<open>What a pass writes: as many samples as the device asked for, the queue's first, then silence.\<close>

lemma render_writes:
  assumes "render_pass padding buffer s = (t, Wrote out)"
  shows "\<exists>pad f. padding = Some pad \<and> wp_format s = Some f \<and> length out = unat (wp_bufferFrames s - pad) * wf_channels f \<and>
    out = take (length out) (wp_queue s @ replicate (length out) 0)"
  using assms by (auto simp: render_pass_def Let_def min_def split: option.splits if_splits)

text \<open>A player whose devices cannot be initialised never returns from \<^verbatim>\<open>start\<close>: its thread goes on into
  the render loop, which crashes on the missing audio client or runs for as long as the flag is set, and
  \<^verbatim>\<open>start\<close> clears the flag only after it has joined the thread.\<close>

theorem failed_player_start_never_returns:
  assumes "\<not> wp_running s" and "player_initDevices a (s\<lparr>wp_running := True\<rparr>) = (t, Some why)"
  shows "wp_start fuel a env s \<in> {StartCrashed, StartBlocked}"
proof -
  have run: "snd (render_loop n env u) \<in> {LoopCrashed, LoopRunning}" if "wp_running u" for n u
    using that
  proof (induction n arbitrary: u)
    case (Suc n)
    obtain v r where p: "render_pass (fst (env n)) (snd (env n)) u = (v, r)" by force
    then have "wp_running v" using Suc.prems by (auto simp: render_pass_def Let_def split: option.splits if_splits)
    then show ?case using Suc.IH Suc.prems p by (cases r) auto
  qed simp
  have "wp_running t"
    using assms(2) by (auto simp: player_initDevices_def choose_format_def Let_def split: if_splits format_support.splits)
  then show ?thesis using run [of t fuel] assms by (auto simp: wp_start_def split: loop_end.splits prod.splits)
qed

definition no_device :: player_answers where
  "no_device = \<lparr>pn_enumerator = True, pn_endpoint = False, pn_activate = False, pn_support = FormatOk, pn_mix = None,
     pn_initialize = False, pn_bufferSize = 0, pn_service = False, pn_start = False\<rparr>"

theorem failed_player_start_never_returns_witness:
  "wp_start 5 no_device (\<lambda>_. (None, False)) WasapiPlayer_new \<in> {StartCrashed, StartBlocked}"
proof (rule failed_player_start_never_returns)
  show "\<not> wp_running WasapiPlayer_new" by (simp add: WasapiPlayer_new_def)
  show "player_initDevices no_device (WasapiPlayer_new\<lparr>wp_running := True\<rparr>) =
      (WasapiPlayer_new\<lparr>wp_running := True\<rparr>, Some ''no default render device'')" by (simp add: player_initDevices_def no_device_def)
qed

text \<open>The capture returns in every case, and hands out blocks that lie inside its buffer when the
  resampler keeps to the size it was given.\<close>

lemma capture_start_returns: "snd (wc_start a s) \<Longrightarrow> wc_running (fst (wc_start a s))"
  by (auto simp: wc_start_def capture_initDevices_def Let_def split: if_splits option.splits prod.splits)

lemma capture_block_inside:
  assumes "capture_pass packet alloc convert s = (t, Some (buf, n))" and "\<And>m. fst (convert m) \<le> int m"
  shows "2 * n \<le> length buf"
proof -
  obtain frames silent where p: "packet = Some (frames, silent)" using assms(1) by (auto simp: capture_pass_def split: option.splits)
  obtain m k samples where "convert m = (k, samples)" "n = nat k" "buf = take (m * 2) (samples @ replicate (m * 2) 0)"
    using assms(1) by (simp add: capture_pass_def p Let_def case_prod_beta split: if_splits) (metis prod.collapse)+
  moreover have "nat k \<le> m" using assms(2) [of m] calculation(1) by simp
  ultimately show ?thesis by simp
qed

end
