(* ===== verification/ClientStreamer.thy ===== *)
theory ClientStreamer
  imports UdpTransport VideoDecoder AudioCodec AudioDevices
begin

text \<open>
  \<^verbatim>\<open>client/ClientStreamer.h\<close> and \<^verbatim>\<open>client/ClientStreamer.cpp\<close>: the client's media pipeline, over the models
  of the transport, the decoders and the audio player. One pass of the decode thread's loop is one
  function; its argument holds the readings of the clocks and the answers of the audio device during the
  pass. A pass that cannot go on leaves a fault: the player's start crashed or never returned, or a null
  pointer was used. The present callback is always set, as the coordinator sets it.

  The theorems: no run uses a null pointer; a rejected packet freezes the picture for good; a client
  without an audio device freezes at the first sound; two audio frames polled together play the first one
  twice; the packets the codec receives are those of the frames the jitter buffer releases, in the order of
  their numbers.
\<close>

section \<open>State\<close>

datatype ct_output = CtPresent DecodedFrame | CtUdp ut_output

datatype ct_fault = NullPointer | DatagramFault feed_fault | PlayerCrash | PlayerBlock | ThreadOverwritten

record ('c, 'd, 'a) ClientStreamer =
  ct_hostAddress :: string
  ct_udpPort :: u16
  ct_sessionId :: u32
  ct_codec :: VideoCodec
  ct_decoder :: "'d VideoDecoder option"
  ct_audioDecoder :: "'a AudioDecoderOpus option"
  ct_audioPlayer :: "WasapiPlayer option"
  ct_transport :: "'c UdpTransport option"
  ct_audioActive :: bool
  ct_thread :: bool
  ct_loop :: bool
  ct_running :: bool
  ct_framesWindow :: u64
  ct_windowStart :: u64
  ct_fps :: rat
  ct_lastFrameNs :: u64
  ct_fault :: "ct_fault option"
  ct_out :: "ct_output list"

text \<open>\<open>ct_thread\<close>: the decode thread is joinable; \<open>ct_loop\<close>: its loop has not ended; \<open>ct_lastFrameNs\<close>: the
  loop's local variable.\<close>

definition ClientStreamer_new :: "('c, 'd, 'a) ClientStreamer" where
  "ClientStreamer_new = \<lparr>ct_hostAddress = [], ct_udpPort = 0, ct_sessionId = 0, ct_codec = H264, ct_decoder = None, ct_audioDecoder = None,
     ct_audioPlayer = None, ct_transport = None, ct_audioActive = False, ct_thread = False, ct_loop = False, ct_running = False,
     ct_framesWindow = 0, ct_windowStart = 0, ct_fps = 0, ct_lastFrameNs = 0, ct_fault = None, ct_out = []\<rparr>"

definition ct_send ::
  "('c UdpTransport \<Rightarrow> 'c UdpTransport \<times> ut_output list) \<Rightarrow> ('c, 'd, 'a) ClientStreamer \<Rightarrow> ('c, 'd, 'a) ClientStreamer" where
  "ct_send f s =
     (case ct_transport s of
        None \<Rightarrow> s
      | Some t \<Rightarrow> (case f t of (t, os) \<Rightarrow> s\<lparr>ct_transport := Some t, ct_out := ct_out s @ map CtUdp os\<rparr>))"

section \<open>Starting and stopping\<close>

text \<open>\<open>bound\<close>: whether the socket could be bound; \<open>peer\<close>: what the host's address resolves to.\<close>

record ct_start_env =
  cb_bound :: bool
  cb_peer :: "endpoint option"
  cb_nowMs :: rat
  cb_nowNs :: u64

definition ct_start ::
  "'d AvDecoder \<Rightarrow> 'a AvAudioDecoder \<Rightarrow> ct_start_env \<Rightarrow> string \<Rightarrow> u16 \<Rightarrow> u32 \<Rightarrow> VideoCodec \<Rightarrow> 'c option \<Rightarrow>
     ('c, 'd, 'a) ClientStreamer \<Rightarrow> ('c, 'd, 'a) ClientStreamer \<times> bool" where
  "ct_start av ao env host port sid codec crypto s =
     (if ct_running s then (s\<lparr>ct_running := False\<rparr>, False)
      else
        let s = s\<lparr>ct_running := True, ct_hostAddress := host, ct_udpPort := port, ct_sessionId := sid, ct_codec := codec\<rparr>;
            t = UdpTransport_new\<lparr>ut_sessionId := sid, ut_secure := crypto\<rparr>
        in case ut_bind (cb_bound env) t of
             (t, False) \<Rightarrow> (s\<lparr>ct_transport := None, ct_running := False\<rparr>, False)
           | (t, True) \<Rightarrow>
               (case cb_peer env of
                  None \<Rightarrow> (s\<lparr>ct_transport := None, ct_running := False\<rparr>, False)
                | Some ep \<Rightarrow>
                    let s = s\<lparr>ct_transport := Some (setPeer ep t)\<rparr>
                    in case vd_init av codec VideoDecoder_new of
                         (d, Some why) \<Rightarrow> (s\<lparr>ct_transport := None, ct_decoder := None, ct_running := False\<rparr>, False)
                       | (d, None) \<Rightarrow>
                           let s = s\<lparr>ct_decoder := Some d, ct_framesWindow := 0, ct_windowStart := word_of_int \<lfloor>cb_nowMs env\<rfloor>, ct_fps := 0\<rparr>;
                               s = ct_send (sendSmall (cb_nowNs env) UdpType_StreamStart [0]) s;
                               s = ct_send (requestKeyframe (cb_nowNs env)) s;
                               s = ct_send (startPings (cb_nowNs env) 1000) s;
                               s = (case ad_init ao AudioDecoderOpus_new of
                                      (ad, True) \<Rightarrow> s\<lparr>ct_audioDecoder := Some ad\<rparr>
                                    | (ad, False) \<Rightarrow> s\<lparr>ct_audioDecoder := None\<rparr>)
                           in if ct_thread s then (s\<lparr>ct_fault := Some ThreadOverwritten\<rparr>, False)
                              else (s\<lparr>ct_thread := True, ct_loop := True, ct_lastFrameNs := 0\<rparr>, True)))"

text \<open>The join waits for the loop, which sees the cleared flag.\<close>

definition ct_stop :: "u64 \<Rightarrow> ('c, 'd, 'a) ClientStreamer \<Rightarrow> ('c, 'd, 'a) ClientStreamer" where
  "ct_stop now s =
     (if \<not> ct_running s then s
      else
        let s = ct_send (sendSmall now UdpType_StreamStop [0]) (s\<lparr>ct_running := False\<rparr>)
        in s\<lparr>ct_thread := False, ct_loop := False, ct_transport := None, ct_audioPlayer := None, ct_audioDecoder := None,
             ct_decoder := None\<rparr>)"

definition setHostEndpoint :: "endpoint option \<Rightarrow> ('c, 'd, 'a) ClientStreamer \<Rightarrow> ('c, 'd, 'a) ClientStreamer" where
  "setHostEndpoint peer s =
     (case (ct_transport s, peer) of
        (Some t, Some ep) \<Rightarrow> s\<lparr>ct_transport := Some (setPeer ep t)\<rparr>
      | _ \<Rightarrow> s)"

definition setVideoJitterTargetMs :: "u32 \<Rightarrow> ('c, 'd, 'a) ClientStreamer \<Rightarrow> ('c, 'd, 'a) ClientStreamer" where
  "setVideoJitterTargetMs ms s = s\<lparr>ct_transport := map_option (\<lambda>t. t\<lparr>ut_videoTargetMs := ms\<rparr>) (ct_transport s)\<rparr>"

section \<open>The decode loop\<close>

record ct_pass_env =
  cp_pollNs :: u64
  cp_decodeMs :: "nat \<Rightarrow> rat"
  cp_decodeNs :: "nat \<Rightarrow> u64"
  cp_presentMs :: "nat \<Rightarrow> rat"
  cp_audioNs :: u64
  cp_audioMs :: rat
  cp_player :: player_answers
  cp_render :: "nat \<Rightarrow> u32 option \<times> bool"
  cp_fuel :: nat
  cp_watchNs :: u64
  cp_afterNs :: u64

text \<open>\<open>i\<close> numbers the frames of a poll, for the clock; the time of the last frame is kept when a packet is
  rejected.\<close>

fun decode_frames ::
  "'d AvDecoder \<Rightarrow> ct_pass_env \<Rightarrow> nat \<Rightarrow> AssembledFrame list \<Rightarrow> 'd VideoDecoder \<Rightarrow> u64 \<Rightarrow> 'd VideoDecoder \<times> u64 \<times> DecodedFrame list" where
  "decode_frames av env i [] d lastNs = (d, lastNs, [])"
| "decode_frames av env i (f # fs) d lastNs =
     (case vd_decode av (cp_decodeMs env i) (packet_for (af_data f) (af_timestampNs f div 1000) (af_keyframe f)) d of
        (d, out, ok) \<Rightarrow>
          (case decode_frames av env (i + 1) fs d (if ok then cp_decodeNs env i else lastNs) of
             (d, lastNs, rest) \<Rightarrow> (d, lastNs, out @ rest)))"

definition present_one :: "rat \<Rightarrow> DecodedFrame \<Rightarrow> ('c, 'd, 'a) ClientStreamer \<Rightarrow> ('c, 'd, 'a) ClientStreamer" where
  "present_one now df s =
     (let s = s\<lparr>ct_out := ct_out s @ [CtPresent df], ct_framesWindow := ct_framesWindow s + 1\<rparr>;
          windowMs = now - rat_of_nat (unat (ct_windowStart s))
      in if windowMs \<ge> 1000
         then s\<lparr>ct_fps := rat_of_nat (unat (ct_framesWindow s)) * 1000 / windowMs, ct_framesWindow := 0,
                ct_windowStart := word_of_int \<lfloor>now\<rfloor>\<rparr>
         else s)"

fun present_frames :: "(nat \<Rightarrow> rat) \<Rightarrow> nat \<Rightarrow> DecodedFrame list \<Rightarrow> ('c, 'd, 'a) ClientStreamer \<Rightarrow> ('c, 'd, 'a) ClientStreamer" where
  "present_frames clock i [] s = s"
| "present_frames clock i (df # dfs) s = present_frames clock (i + 1) dfs (present_one (clock i) df s)"

text \<open>Whole frames of the samples are pushed; the first sound starts the player.\<close>

definition play :: "ct_pass_env \<Rightarrow> u16 list \<Rightarrow> ('c, 'd, 'a) ClientStreamer \<Rightarrow> ('c, 'd, 'a) ClientStreamer" where
  "play env samples s =
     (let pushed = take (length samples div 2 * 2) samples
      in case ct_audioPlayer s of
           Some p \<Rightarrow> s\<lparr>ct_audioPlayer := Some (wp_push pushed p)\<rparr>
         | None \<Rightarrow>
             (case wp_start (cp_fuel env) (cp_player env) (cp_render env) WasapiPlayer_new of
                Returned p True \<Rightarrow> s\<lparr>ct_audioPlayer := Some (wp_push pushed p), ct_audioActive := True\<rparr>
              | Returned p False \<Rightarrow> s
              | StartCrashed \<Rightarrow> s\<lparr>ct_fault := Some PlayerCrash\<rparr>
              | StartBlocked \<Rightarrow> s\<lparr>ct_fault := Some PlayerBlock\<rparr>))"

text \<open>The sample buffer is an accumulator of the loop over the frames, as in the code.\<close>

fun audio_frames ::
  "'a AvAudioDecoder \<Rightarrow> ct_pass_env \<Rightarrow> AssembledFrame list \<Rightarrow> u16 list \<Rightarrow> 'a AudioDecoderOpus \<Rightarrow>
     ('c, 'd, 'a) ClientStreamer \<Rightarrow> ('c, 'd, 'a) ClientStreamer" where
  "audio_frames ao env [] samples ad s = s\<lparr>ct_audioDecoder := Some ad\<rparr>"
| "audio_frames ao env (f # fs) samples ad s =
     (if ct_fault s \<noteq> None then s
      else case ad_decode ao (cp_audioMs env) (af_data f) samples ad of
        (ad, samples, ok) \<Rightarrow> audio_frames ao env fs samples ad (if ok \<and> samples \<noteq> [] then play env samples s else s))"

definition ct_watchdog :: "ct_pass_env \<Rightarrow> ('c, 'd, 'a) ClientStreamer \<Rightarrow> ('c, 'd, 'a) ClientStreamer" where
  "ct_watchdog env s =
     (if ct_lastFrameNs s \<noteq> 0 \<and> cp_watchNs env - ct_lastFrameNs s > 2000000000
      then (ct_send (requestKeyframe (cp_watchNs env)) s)\<lparr>ct_lastFrameNs := cp_afterNs env\<rparr>
      else s)"

definition ct_video :: "'d AvDecoder \<Rightarrow> ct_pass_env \<Rightarrow> 'c UdpTransport \<Rightarrow> 'd VideoDecoder \<Rightarrow>
    ('c, 'd, 'a) ClientStreamer \<Rightarrow> ('c, 'd, 'a) ClientStreamer" where
  "ct_video av env t d s =
     (case pollVideo (cp_pollNs env) t of
        (t, frames) \<Rightarrow>
          (case decode_frames av env 0 frames d (ct_lastFrameNs s) of
             (d, lastNs, decoded) \<Rightarrow>
               present_frames (cp_presentMs env) 0 decoded
                 (s\<lparr>ct_transport := Some t, ct_decoder := Some d, ct_lastFrameNs := lastNs\<rparr>)))"

definition ct_audio :: "'a AvAudioDecoder \<Rightarrow> ct_pass_env \<Rightarrow> ('c, 'd, 'a) ClientStreamer \<Rightarrow> ('c, 'd, 'a) ClientStreamer" where
  "ct_audio ao env s =
     (case (ct_audioDecoder s, ct_transport s) of
        (Some ad, Some t) \<Rightarrow>
          (case pollAudio (cp_audioNs env) t of
             (t, frames) \<Rightarrow> audio_frames ao env frames [] ad (s\<lparr>ct_transport := Some t\<rparr>))
      | _ \<Rightarrow> s)"

definition ct_pass :: "'d AvDecoder \<Rightarrow> 'a AvAudioDecoder \<Rightarrow> ct_pass_env \<Rightarrow> ('c, 'd, 'a) ClientStreamer \<Rightarrow> ('c, 'd, 'a) ClientStreamer" where
  "ct_pass av ao env s =
     (if ct_fault s \<noteq> None \<or> \<not> ct_loop s then s
      else if \<not> ct_running s then s\<lparr>ct_loop := False\<rparr>
      else case (ct_transport s, ct_decoder s) of
        (Some t, Some d) \<Rightarrow>
          let s = ct_audio ao env (ct_video av env t d s)
          in if ct_fault s \<noteq> None then s else ct_watchdog env s
      | _ \<Rightarrow> s\<lparr>ct_fault := Some NullPointer\<rparr>)"

section \<open>Statistics\<close>

record ClientStreamStats =
  ck_udp :: UdpStatsSnapshot
  ck_decodeMs :: rat
  ck_audioDecodeMs :: rat
  ck_audioBufferedMs :: rat
  ck_audioUnderruns :: u64
  ck_fps :: rat
  ck_framesDecoded :: u64
  ck_width :: int
  ck_height :: int
  ck_audioActive :: bool

definition ct_stats :: "('c, 'd, 'a) ClientStreamer \<Rightarrow> ClientStreamStats" where
  "ct_stats s = \<lparr>ck_udp = (case ct_transport s of None \<Rightarrow> UdpStats_default | Some t \<Rightarrow> ut_stats t),
     ck_decodeMs = (case ct_decoder s of None \<Rightarrow> 0 | Some d \<Rightarrow> vd_avgDecodeMs d),
     ck_audioDecodeMs = (case ct_audioDecoder s of None \<Rightarrow> 0 | Some d \<Rightarrow> ad_avgDecodeMs d),
     ck_audioBufferedMs = (case ct_audioPlayer s of None \<Rightarrow> 0 | Some p \<Rightarrow> bufferedMs p),
     ck_audioUnderruns = (case ct_audioPlayer s of None \<Rightarrow> 0 | Some p \<Rightarrow> wp_underruns p), ck_fps = ct_fps s,
     ck_framesDecoded = (case ct_decoder s of None \<Rightarrow> 0 | Some d \<Rightarrow> vd_framesDecoded d),
     ck_width = (case ct_decoder s of None \<Rightarrow> 0 | Some d \<Rightarrow> vd_width d),
     ck_height = (case ct_decoder s of None \<Rightarrow> 0 | Some d \<Rightarrow> vd_height d), ck_audioActive = ct_audioActive s\<rparr>"

section \<open>Runs\<close>

text \<open>What happens between a start and a stop: passes of the decode loop, datagrams on the io thread, passes
  of the player's render loop, changes of the peer and of the jitter target. A step also returns the
  frames the jitter buffer releases to it; what the codec then receives is related to them below.\<close>

datatype ct_event =
    CtPass ct_pass_env
  | CtDatagram u64 bytes endpoint
  | CtRender "u32 option" bool
  | CtPeer "endpoint option"
  | CtTarget u32

definition ct_datagram :: "'c UdpCryptoSink \<Rightarrow> u64 \<Rightarrow> bytes \<Rightarrow> endpoint \<Rightarrow> ('c, 'd, 'a) ClientStreamer \<Rightarrow> ('c, 'd, 'a) ClientStreamer" where
  "ct_datagram ops now buf src s =
     (case ct_transport s of
        None \<Rightarrow> s
      | Some t \<Rightarrow>
          (case handleDatagram ops now buf src t of
             Inl e \<Rightarrow> s\<lparr>ct_fault := Some (DatagramFault e)\<rparr>
           | Inr (t, os) \<Rightarrow> s\<lparr>ct_transport := Some t, ct_out := ct_out s @ map CtUdp os\<rparr>))"

definition ct_polled :: "ct_pass_env \<Rightarrow> ('c, 'd, 'a) ClientStreamer \<Rightarrow> AssembledFrame list" where
  "ct_polled env s =
     (case (ct_transport s, ct_decoder s) of
        (Some t, Some d) \<Rightarrow> if ct_fault s = None \<and> ct_loop s \<and> ct_running s then snd (pollVideo (cp_pollNs env) t) else []
      | _ \<Rightarrow> [])"

fun ct_step :: "'d AvDecoder \<Rightarrow> 'a AvAudioDecoder \<Rightarrow> 'c UdpCryptoSink \<Rightarrow> ct_event \<Rightarrow>
    ('c, 'd, 'a) ClientStreamer \<Rightarrow> ('c, 'd, 'a) ClientStreamer \<times> AssembledFrame list" where
  "ct_step av ao ops (CtPass env) s = (ct_pass av ao env s, ct_polled env s)"
| "ct_step av ao ops (CtDatagram now buf src) s = (ct_datagram ops now buf src s, [])"
| "ct_step av ao ops (CtRender padding buffer) s =
     (s\<lparr>ct_audioPlayer := map_option (\<lambda>p. fst (render_pass padding buffer p)) (ct_audioPlayer s)\<rparr>, [])"
| "ct_step av ao ops (CtPeer peer) s = (setHostEndpoint peer s, [])"
| "ct_step av ao ops (CtTarget ms) s = (setVideoJitterTargetMs ms s, [])"

subsection \<open>What each part of a pass leaves alone\<close>

lemma ct_send_simps [simp]:
  "ct_decoder (ct_send f s) = ct_decoder s" "ct_fault (ct_send f s) = ct_fault s" "ct_running (ct_send f s) = ct_running s"
  "ct_loop (ct_send f s) = ct_loop s" "ct_lastFrameNs (ct_send f s) = ct_lastFrameNs s" "ct_thread (ct_send f s) = ct_thread s"
  "ct_transport (ct_send f s) = map_option (\<lambda>t. fst (f t)) (ct_transport s)" "ct_audioPlayer (ct_send f s) = ct_audioPlayer s"
  by (simp_all add: ct_send_def case_prod_beta split: option.split)

lemma present_one_simps [simp]:
  "ct_decoder (present_one now df s) = ct_decoder s" "ct_fault (present_one now df s) = ct_fault s"
  "ct_running (present_one now df s) = ct_running s" "ct_loop (present_one now df s) = ct_loop s"
  "ct_lastFrameNs (present_one now df s) = ct_lastFrameNs s" "ct_transport (present_one now df s) = ct_transport s"
  "ct_audioDecoder (present_one now df s) = ct_audioDecoder s" "ct_audioPlayer (present_one now df s) = ct_audioPlayer s"
  "ct_out (present_one now df s) = ct_out s @ [CtPresent df]"
  by (simp_all add: present_one_def Let_def)

lemma present_frames_simps [simp]:
  "ct_decoder (present_frames clock i dfs s) = ct_decoder s" "ct_fault (present_frames clock i dfs s) = ct_fault s"
  "ct_running (present_frames clock i dfs s) = ct_running s" "ct_loop (present_frames clock i dfs s) = ct_loop s"
  "ct_lastFrameNs (present_frames clock i dfs s) = ct_lastFrameNs s" "ct_transport (present_frames clock i dfs s) = ct_transport s"
  "ct_audioDecoder (present_frames clock i dfs s) = ct_audioDecoder s" "ct_audioPlayer (present_frames clock i dfs s) = ct_audioPlayer s"
  "ct_out (present_frames clock i dfs s) = ct_out s @ map CtPresent dfs"
  by (induction dfs arbitrary: i s) simp_all

lemma play_simps [simp]:
  "ct_decoder (play env xs s) = ct_decoder s" "ct_running (play env xs s) = ct_running s" "ct_loop (play env xs s) = ct_loop s"
  "ct_lastFrameNs (play env xs s) = ct_lastFrameNs s" "ct_transport (play env xs s) = ct_transport s" "ct_out (play env xs s) = ct_out s"
  by (simp_all add: play_def Let_def split: option.split start_outcome.split bool.split)

lemma play_fault: "ct_fault s = None \<Longrightarrow> ct_fault (play env xs s) \<noteq> Some NullPointer"
  by (simp add: play_def Let_def split: option.split start_outcome.split bool.split)

lemma audio_frames_simps [simp]:
  "ct_decoder (audio_frames ao env fs xs ad s) = ct_decoder s" "ct_running (audio_frames ao env fs xs ad s) = ct_running s"
  "ct_loop (audio_frames ao env fs xs ad s) = ct_loop s" "ct_lastFrameNs (audio_frames ao env fs xs ad s) = ct_lastFrameNs s"
  "ct_transport (audio_frames ao env fs xs ad s) = ct_transport s" "ct_out (audio_frames ao env fs xs ad s) = ct_out s"
  by (induction fs arbitrary: xs ad s) (simp_all add: case_prod_beta)

lemma audio_frames_fault: "ct_fault s \<noteq> Some NullPointer \<Longrightarrow> ct_fault (audio_frames ao env fs xs ad s) \<noteq> Some NullPointer"
  by (induction fs arbitrary: xs ad s) (simp_all add: case_prod_beta play_fault)

lemma audio_frames_stuck: "ct_fault s \<noteq> None \<Longrightarrow> ct_fault (audio_frames ao env fs xs ad s) = ct_fault s"
  by (cases fs) simp_all

lemma ct_audio_simps [simp]:
  "ct_decoder (ct_audio ao env s) = ct_decoder s" "ct_running (ct_audio ao env s) = ct_running s"
  "ct_loop (ct_audio ao env s) = ct_loop s" "ct_lastFrameNs (ct_audio ao env s) = ct_lastFrameNs s" "ct_out (ct_audio ao env s) = ct_out s"
  by (simp_all add: ct_audio_def case_prod_beta split: option.split)

lemma pollAudio_video [simp]: "ut_videoJitter (fst (pollAudio now t)) = ut_videoJitter t"
  by (simp add: pollAudio_def case_prod_beta)

lemma ct_audio_transport:
  "ct_transport (ct_audio ao env s) = (case (ct_audioDecoder s, ct_transport s) of
     (Some ad, Some t) \<Rightarrow> Some (fst (pollAudio (cp_audioNs env) t)) | _ \<Rightarrow> ct_transport s)"
  by (simp add: ct_audio_def case_prod_beta split: option.split)

lemma ct_audio_fault: "ct_fault s \<noteq> Some NullPointer \<Longrightarrow> ct_fault (ct_audio ao env s) \<noteq> Some NullPointer"
  by (simp add: ct_audio_def case_prod_beta audio_frames_fault split: option.split)

lemma ct_watchdog_simps [simp]:
  "ct_decoder (ct_watchdog env s) = ct_decoder s" "ct_fault (ct_watchdog env s) = ct_fault s"
  "ct_running (ct_watchdog env s) = ct_running s" "ct_loop (ct_watchdog env s) = ct_loop s"
  by (simp_all add: ct_watchdog_def)

section \<open>The streamer refines the jitter buffer\<close>

definition video_jitter :: "('c, 'd, 'a) ClientStreamer \<Rightarrow> JitterBuffer" where
  "video_jitter s = (case ct_transport s of Some t \<Rightarrow> ut_videoJitter t | None \<Rightarrow> JitterBuffer_new 30)"

lemma sendSmall_jitter [simp]: "ut_videoJitter (fst (sendSmall now ty dat t)) = ut_videoJitter t"
  by (simp add: sendSmall_def next_seq_def Let_def)

lemma requestKeyframe_jitter [simp]: "ut_videoJitter (fst (requestKeyframe now t)) = ut_videoJitter t"
  by (simp add: requestKeyframe_def)

lemma clear_payload_jitter: "ut_videoJitter (fst (clear_payload ops buf h t)) = ut_videoJitter t"
  by (simp add: clear_payload_def authDrop_def Let_def split: option.split prod.split)

lemma receive_jitter [simp]:
  "ut_videoJitter (learn_peer ops h src t) = ut_videoJitter t" "ut_videoJitter (note_arrival now t) = ut_videoJitter t"
  "ut_videoJitter (on_pong now h payload t) = ut_videoJitter t"
  by (simp_all add: learn_peer_def setPeer_def note_arrival_def on_pong_def Let_def)

lemma media_jitter:
  assumes "media_input now h payload t = Inr (t', os)"
  shows "\<exists>jes. run_out jb_handle jes (ut_videoJitter t) = (ut_videoJitter t', [])"
proof -
  let ?in = "if uh_type h = UdpType_Video then video_input now h payload t
    else if uh_type h = UdpType_Audio then audio_input h payload t
    else if uh_type h = UdpType_Input then input_input h payload t else Inr (t, [], None)"
  obtain t1 o1 r where i: "?in = Inr (t1, o1, r)" using assms by (auto simp: media_input_def split: sum.splits)
  then have same: "ut_videoJitter t1 = ut_videoJitter t"
    by (auto simp: video_input_def audio_input_def input_input_def Let_def split: if_splits sum.splits prod.splits)
  consider "t' = t1" | f o2 where "handleMediaComplete now f t1 = (t', o2)"
    using assms i by (cases r) (auto simp: media_input_def split: prod.splits)
  then show ?thesis
  proof cases
    case 1
    then show ?thesis using same by (intro exI [of _ "[]"]) simp
  next
    case 2
    then have "ut_videoJitter t' = ut_videoJitter t \<or>
        ut_videoJitter t' = jb_push f now (jb_setTargetMs (ut_videoTargetMs t1) (ut_videoJitter t))"
      using same by (auto simp: handleMediaComplete_def split: if_splits)
    then show ?thesis
    proof
      assume "ut_videoJitter t' = ut_videoJitter t"
      then show ?thesis by (intro exI [of _ "[]"]) simp
    next
      assume "ut_videoJitter t' = jb_push f now (jb_setTargetMs (ut_videoTargetMs t1) (ut_videoJitter t))"
      then show ?thesis by (intro exI [of _ "[JSetTarget (ut_videoTargetMs t1), JPush f now]"]) simp
    qed
  qed
qed

lemma dispatch_jitter:
  assumes "dispatch now h payload t = Inr (t', os)"
  shows "\<exists>jes. run_out jb_handle jes (ut_videoJitter t) = (ut_videoJitter t', [])"
proof (cases "media_input now h payload t = Inr (t', os)")
  case True
  then show ?thesis by (rule media_jitter)
next
  case False
  then have "ut_videoJitter t' = ut_videoJitter t"
    using assms sendSmall_jitter [of now UdpType_Pong "take (unat (uh_payloadSize h)) payload" t]
    by (auto simp: dispatch_def Let_def simp del: sendSmall_jitter split: if_splits)
  then show ?thesis by (intro exI [of _ "[]"]) simp
qed

lemma datagram_jitter:
  assumes "handleDatagram ops now buf src t = Inr (t', os)"
  shows "\<exists>jes. run_out jb_handle jes (ut_videoJitter t) = (ut_videoJitter t', [])"
proof (cases "ut_videoJitter t' = ut_videoJitter t")
  case True
  then show ?thesis by (intro exI [of _ "[]"]) simp
next
  case False
  let ?t = "t\<lparr>ut_recvDatagrams := ut_recvDatagrams t + 1, ut_recvBytes := ut_recvBytes t + of_nat (length buf), ut_lastRxAbsNs := now\<rparr>"
  have c: "ut_videoJitter (fst (clear_payload ops buf h ?t)) = ut_videoJitter t" for h by (simp add: clear_payload_jitter)
  from assms False obtain h t1 h' p where d: "clear_payload ops buf h ?t = (t1, Some (h', p))"
    "dispatch now h' p (note_arrival now (learn_peer ops h' src t1)) = Inr (t', os)"
    using c by (auto simp: handleDatagram_def Let_def split: option.splits if_splits prod.splits) (metis fst_conv)+
  have "ut_videoJitter t1 = ut_videoJitter t" using c [of h] d(1) by simp
  with dispatch_jitter [OF d(2)] show ?thesis by simp
qed

lemma pass_jitter:
  "video_jitter (ct_pass av ao env s) =
     (case (ct_transport s, ct_decoder s) of
        (Some t, Some d) \<Rightarrow> if ct_fault s = None \<and> ct_loop s \<and> ct_running s then fst (jb_pop (cp_pollNs env) (ut_videoJitter t)) else video_jitter s
      | _ \<Rightarrow> video_jitter s)"
  by (simp add: ct_pass_def ct_video_def ct_watchdog_def video_jitter_def ct_audio_transport pollVideo_def Let_def case_prod_beta
      split: option.split)

lemma ct_step_sim:
  "\<exists>jes. run_out jb_handle jes (video_jitter s) = (video_jitter (fst (ct_step av ao ops e s)), snd (ct_step av ao ops e s))"
proof (cases e)
  case (CtPass env)
  show ?thesis
  proof (cases "ct_fault s = None \<and> ct_loop s \<and> ct_running s \<and> ct_transport s \<noteq> None \<and> ct_decoder s \<noteq> None")
    case True
    then obtain t d where td: "ct_transport s = Some t" "ct_decoder s = Some d" by auto
    then have "video_jitter s = ut_videoJitter t" by (simp add: video_jitter_def)
    then show ?thesis using CtPass True td
      by (intro exI [of _ "[JPop (cp_pollNs env)]"])
        (simp add: pass_jitter ct_polled_def pollVideo_def case_prod_beta Let_def)
  next
    case False
    then show ?thesis using CtPass by (intro exI [of _ "[]"]) (auto simp: pass_jitter ct_polled_def split: option.splits)
  qed
next
  case (CtDatagram now buf src)
  show ?thesis
  proof (cases "\<exists>t t' os. ct_transport s = Some t \<and> handleDatagram ops now buf src t = Inr (t', os)")
    case True
    then show ?thesis using datagram_jitter CtDatagram by (fastforce simp: video_jitter_def ct_datagram_def)
  next
    case False
    then have "video_jitter (ct_datagram ops now buf src s) = video_jitter s"
      by (auto simp: video_jitter_def ct_datagram_def split: option.splits sum.splits)
    then show ?thesis using CtDatagram by (intro exI [of _ "[]"]) simp
  qed
qed (intro exI [of _ "[]"], simp add: video_jitter_def setHostEndpoint_def setVideoJitterTargetMs_def setPeer_def split: option.split)+

interpretation ctj: machine_refinement "ct_step av ao ops" jb_handle video_jitter
  by unfold_locales (rule ct_step_sim)

lemma startPings_jitter [simp]: "ut_videoJitter (fst (startPings now ms t)) = ut_videoJitter t"
  by (simp add: startPings_def sendPingOnce_def relay_fallback_def Let_def split: option.split)

lemma started_jitter:
  assumes "ct_start av ao env host port sid codec crypto s0 = (s, True)"
  shows "video_jitter s = JitterBuffer_new 30"
  using assms
  by (auto simp: ct_start_def video_jitter_def ut_bind_def ut_stop_def setPeer_def UdpTransport_new_def Let_def
      split: if_splits option.splits prod.splits bool.splits)

subsection \<open>What the codec receives\<close>

abbreviation frame_packet :: "AssembledFrame \<Rightarrow> AvPacket" where
  "frame_packet f \<equiv> packet_for (af_data f) (af_timestampNs f div 1000) (af_keyframe f)"

abbreviation frame_packets :: "AssembledFrame list \<Rightarrow> AvPacket list" where
  "frame_packets fs \<equiv> map frame_packet (filter (\<lambda>f. af_data f \<noteq> []) fs)"

definition streamer_saw :: "('c, 'd \<times> AvPacket list, 'a) ClientStreamer \<Rightarrow> AvPacket list" where
  "streamer_saw s = (case ct_decoder s of None \<Rightarrow> [] | Some d \<Rightarrow> codec_saw d)"

definition codec_open :: "('c, 'd, 'a) ClientStreamer \<Rightarrow> bool" where
  "codec_open s \<longleftrightarrow> (\<exists>d. ct_decoder s = Some d \<and> vd_ctx d \<noteq> None)"

lemma recorded_frames:
  assumes "vd_ctx d \<noteq> None"
  shows "vd_ctx (fst (decode_frames (recorded av) env i fs d lastNs)) \<noteq> None \<and>
    codec_saw (fst (decode_frames (recorded av) env i fs d lastNs)) = codec_saw d @ frame_packets fs"
  using assms
proof (induction fs arbitrary: i d lastNs)
  case (Cons f fs)
  have data: "pk_data (frame_packet f) = af_data f" by (simp add: packet_for_def)
  note r = recorded_decode [OF Cons.prems, of av "cp_decodeMs env i" "frame_packet f"]
  show ?case using Cons.IH [OF r(1)] r(2) data by (simp add: case_prod_beta)
qed simp

lemma pass_decoder:
  "ct_decoder (ct_pass av ao env s) =
     (case (ct_transport s, ct_decoder s) of
        (Some t, Some d) \<Rightarrow>
          if ct_fault s = None \<and> ct_loop s \<and> ct_running s
          then Some (fst (decode_frames av env 0 (snd (pollVideo (cp_pollNs env) t)) d (ct_lastFrameNs s))) else Some d
      | _ \<Rightarrow> ct_decoder s)"
  by (simp add: ct_pass_def ct_video_def Let_def case_prod_beta split: option.split)

lemma step_saw:
  assumes "codec_open s"
  shows "codec_open (fst (ct_step (recorded av) ao ops e s)) \<and>
    streamer_saw (fst (ct_step (recorded av) ao ops e s)) = streamer_saw s @ frame_packets (snd (ct_step (recorded av) ao ops e s))"
proof -
  obtain d where d: "ct_decoder s = Some d" "vd_ctx d \<noteq> None" using assms by (auto simp: codec_open_def)
  show ?thesis
  proof (cases "\<exists>env. e = CtPass env")
    case True
    then obtain env where e: "e = CtPass env" by blast
    show ?thesis unfolding e using d recorded_frames [OF d(2), of av env 0]
      by (auto simp: codec_open_def streamer_saw_def pass_decoder ct_polled_def split: option.splits)
  next
    case False
    then have "ct_decoder (fst (ct_step (recorded av) ao ops e s)) = ct_decoder s" "snd (ct_step (recorded av) ao ops e s) = []"
      by (cases e; auto simp: ct_datagram_def setHostEndpoint_def setVideoJitterTargetMs_def split: option.split sum.split)+
    then show ?thesis using d by (simp add: codec_open_def streamer_saw_def)
  qed
qed

lemma run_saw:
  assumes "codec_open s"
  shows "streamer_saw (fst (run_out (ct_step (recorded av) ao ops) es s)) =
    streamer_saw s @ frame_packets (snd (run_out (ct_step (recorded av) ao ops) es s))"
  using assms
proof (induction es arbitrary: s)
  case (Cons e es)
  from step_saw [OF Cons.prems, of av ao ops e] Cons.IH show ?case by (simp add: Let_def case_prod_beta)
qed simp

lemma started_saw:
  assumes "ct_start (recorded av) ao env host port sid codec crypto s0 = (s, True)"
  shows "codec_open s" and "streamer_saw s = []"
proof -
  obtain d where d: "vd_init (recorded av) codec VideoDecoder_new = (d, None)" "ct_decoder s = Some d"
    using assms by (auto simp: ct_start_def Let_def split: if_splits option.splits prod.splits bool.splits)
  from recorded_init [OF d(1)] d(2) show "codec_open s" "streamer_saw s = []"
    by (simp_all add: codec_open_def streamer_saw_def)
qed

lemma released_in_order:
  assumes "ct_start av ao env host port sid codec crypto s0 = (s, True)"
  shows "sorted (map af_sequence (snd (run_out (ct_step av ao ops) es s)))"
proof -
  obtain jes where "run_out jb_handle jes (JitterBuffer_new 30) =
      (video_jitter (fst (run_out (ct_step av ao ops) es s)), snd (run_out (ct_step av ao ops) es s))"
    using ctj.run_sim [of s av ao ops es] started_jitter [OF assms] by auto
  with jb_run_sorted [OF jb_inv_new, of jes 30] show ?thesis by simp
qed

text \<open>C22: The client decodes the video in order. In every run after a start, however datagrams arrive and
  passes interleave, and whatever the codec answers, the packets with data that the codec was sent are
  exactly those of the nonempty frames that the jitter buffer released during the run, one packet per
  frame with its data, time stamp and keyframe mark, in the order of release; and the sequence numbers of
  the released frames never decrease.\<close>

theorem decoded_in_order:
  assumes "ct_start (recorded av) ao env host port sid codec crypto s0 = (s, True)"
    and "run_out (ct_step (recorded av) ao ops) es s = (s', released)"
  shows "streamer_saw s' = frame_packets released \<and> sorted (map af_sequence released)"
  using run_saw [OF started_saw(1) [OF assms(1)], of av ao ops es] started_saw(2) [OF assms(1)]
    released_in_order [OF assms(1), of ops es] assms(2) by simp

section \<open>Null pointers\<close>

definition ct_inv :: "('c, 'd, 'a) ClientStreamer \<Rightarrow> bool" where
  "ct_inv s \<longleftrightarrow> ct_fault s \<noteq> Some NullPointer \<and> (ct_running s \<longrightarrow> ct_transport s \<noteq> None \<and> ct_decoder s \<noteq> None)"

datatype 'c ct_call =
    CtStart ct_start_env string u16 u32 VideoCodec "'c option"
  | CtStop u64
  | CtStep ct_event

fun ct_handle :: "'d AvDecoder \<Rightarrow> 'a AvAudioDecoder \<Rightarrow> 'c UdpCryptoSink \<Rightarrow> 'c ct_call \<Rightarrow>
    ('c, 'd, 'a) ClientStreamer \<Rightarrow> ('c, 'd, 'a) ClientStreamer" where
  "ct_handle av ao ops (CtStart env host port sid codec crypto) s = fst (ct_start av ao env host port sid codec crypto s)"
| "ct_handle av ao ops (CtStop now) s = ct_stop now s"
| "ct_handle av ao ops (CtStep e) s = fst (ct_step av ao ops e s)"

lemma ct_inv_start: "ct_inv s \<Longrightarrow> ct_inv (fst (ct_start av ao env host port sid codec crypto s))"
  by (simp add: ct_start_def ct_inv_def Let_def split: option.split prod.split bool.split)

lemma ct_inv_pass: "ct_inv s \<Longrightarrow> ct_inv (ct_pass av ao env s)"
proof (cases "ct_fault s \<noteq> None \<or> \<not> ct_loop s \<or> \<not> ct_running s")
  case True
  assume "ct_inv s"
  then show ?thesis using True by (auto simp: ct_pass_def ct_inv_def)
next
  case False
  assume "ct_inv s"
  with False obtain t d where td: "ct_transport s = Some t" "ct_decoder s = Some d" by (auto simp: ct_inv_def)
  define s1 where "s1 = ct_video av env t d s"
  have s1: "ct_fault s1 = None" "ct_transport s1 \<noteq> None" "ct_decoder s1 \<noteq> None"
    using False by (simp_all add: s1_def ct_video_def case_prod_beta)
  define s2 where "s2 = ct_audio ao env s1"
  have s2: "ct_fault s2 \<noteq> Some NullPointer" "ct_transport s2 \<noteq> None" "ct_decoder s2 \<noteq> None"
    using s1 ct_audio_fault [of s1 ao env] by (auto simp: s2_def ct_audio_transport split: option.splits)
  have "ct_pass av ao env s = (if ct_fault s2 \<noteq> None then s2 else ct_watchdog env s2)"
    using False td by (simp add: ct_pass_def s1_def s2_def Let_def)
  then show ?thesis using s2 by (simp add: ct_inv_def ct_watchdog_def)
qed

lemma ct_inv_step:
  assumes "ct_inv s"
  shows "ct_inv (fst (ct_step av ao ops e s))"
proof (cases "\<exists>env. e = CtPass env")
  case True
  then show ?thesis using assms ct_inv_pass by auto
next
  case False
  then show ?thesis using assms
    by (cases e) (auto simp: ct_inv_def ct_datagram_def setHostEndpoint_def setVideoJitterTargetMs_def split: option.splits sum.splits)
qed

lemma ct_inv_handle: "ct_inv s \<Longrightarrow> ct_inv (ct_handle av ao ops c s)"
  by (cases c) (simp_all add: ct_inv_start ct_inv_step, simp add: ct_inv_def ct_stop_def Let_def)

interpretation ctm: event_machine ClientStreamer_new "ct_handle av ao ops" ct_inv
  by unfold_locales (simp add: ct_inv_def ClientStreamer_new_def, rule ct_inv_handle)

text \<open>C33: No run of starts, stops, passes, datagrams and other calls makes the decode loop use a missing
  transport or decoder.\<close>

theorem client_streamer_null_safe:
  "ct_fault (fold (ct_handle av ao ops) cs ClientStreamer_new) \<noteq> Some NullPointer"
  using ctm.inv_run [of av ao ops cs] by (simp add: ct_inv_def)

section \<open>A frozen picture\<close>

definition presented :: "('c, 'd, 'a) ClientStreamer \<Rightarrow> DecodedFrame list" where
  "presented s = List.map_filter (\<lambda>x. case x of CtPresent df \<Rightarrow> Some df | _ \<Rightarrow> None) (ct_out s)"

definition frozen :: "('d \<Rightarrow> bool) \<Rightarrow> ('c, 'd, 'a) ClientStreamer \<Rightarrow> bool" where
  "frozen flushed s \<longleftrightarrow> (\<exists>d c. ct_decoder s = Some d \<and> vd_ctx d = Some c \<and> flushed c)"

lemma presented_udp: "presented (s\<lparr>ct_out := ct_out s @ map CtUdp os\<rparr>) = presented s"
  by (simp add: presented_def map_filter_def filter_empty_conv)

lemma watchdog_presented: "presented (ct_watchdog env s) = presented s"
  by (simp add: ct_watchdog_def ct_send_def presented_def map_filter_def filter_empty_conv case_prod_beta split: option.split)

lemma flushed_frames:
  assumes "codec_drains av flushed"
  shows "vd_ctx d = Some c \<Longrightarrow> flushed c \<Longrightarrow>
    \<exists>d' c'. decode_frames av env i fs d lastNs = (d', lastNs, []) \<and> vd_ctx d' = Some c' \<and> flushed c'"
proof (induction fs arbitrary: i d c)
  case (Cons f fs)
  obtain d1 c1 where "vd_decode av (cp_decodeMs env i) (packet_for (af_data f) (af_timestampNs f div 1000) (af_keyframe f)) d = (d1, [], False)"
    and c1: "vd_ctx d1 = Some c1" "flushed c1" using flushed_decode [OF assms Cons.prems] by blast
  then show ?case using Cons.IH [OF c1, of "i + 1"] by fastforce
qed simp

lemma pass_presents:
  assumes "ct_fault s = None" "ct_loop s" "ct_running s" "ct_transport s = Some t" "ct_decoder s = Some d"
    and dec: "decode_frames av env 0 (snd (pollVideo (cp_pollNs env) t)) d (ct_lastFrameNs s) = (d', lastNs, dfs)"
  shows "presented (ct_pass av ao env s) = presented s @ dfs" and "ct_decoder (ct_pass av ao env s) = Some d'"
proof -
  define s1 where "s1 = ct_audio ao env (ct_video av env t d s)"
  have p: "ct_pass av ao env s = (if ct_fault s1 \<noteq> None then s1 else ct_watchdog env s1)"
    using assms by (simp add: ct_pass_def s1_def Let_def)
  have "ct_out s1 = ct_out s @ map CtPresent dfs" "ct_decoder s1 = Some d'"
    using dec by (simp_all add: s1_def ct_video_def case_prod_beta)
  then have "presented s1 = presented s @ dfs" "ct_decoder s1 = Some d'"
    by (simp_all add: presented_def map_filter_def comp_def)
  then show "presented (ct_pass av ao env s) = presented s @ dfs" "ct_decoder (ct_pass av ao env s) = Some d'"
    unfolding p by (simp_all add: watchdog_presented)
qed

lemma frozen_pass:
  assumes law: "codec_drains av flushed" and "frozen flushed s"
  shows "frozen flushed (ct_pass av ao env s) \<and> presented (ct_pass av ao env s) = presented s"
proof (cases "ct_fault s = None \<and> ct_loop s \<and> ct_running s \<and> ct_transport s \<noteq> None")
  case True
  then obtain t where t: "ct_transport s = Some t" by auto
  obtain d c where d: "ct_decoder s = Some d" "vd_ctx d = Some c" "flushed c" using assms(2) by (auto simp: frozen_def)
  obtain d' c' where f: "decode_frames av env 0 (snd (pollVideo (cp_pollNs env) t)) d (ct_lastFrameNs s) = (d', ct_lastFrameNs s, [])"
    "vd_ctx d' = Some c'" "flushed c'" using flushed_frames [OF law d(2,3)] by blast
  show ?thesis using pass_presents [OF _ _ _ t d(1) f(1)] True f(2,3) by (simp add: frozen_def)
next
  case False
  then have "ct_pass av ao env s = s \<or> ct_pass av ao env s = s\<lparr>ct_loop := False\<rparr> \<or> ct_pass av ao env s = s\<lparr>ct_fault := Some NullPointer\<rparr>"
    by (auto simp: ct_pass_def split: option.split)
  then show ?thesis using assms(2) by (auto simp: frozen_def presented_def)
qed

lemma frozen_step:
  assumes law: "codec_drains av flushed" and f: "frozen flushed s"
  shows "frozen flushed (fst (ct_step av ao ops e s)) \<and> presented (fst (ct_step av ao ops e s)) = presented s"
proof (cases e)
  case (CtPass env)
  then show ?thesis using frozen_pass [OF assms] by simp
next
  case (CtDatagram now buf src)
  have "presented (s\<lparr>ct_transport := t, ct_out := ct_out s @ map CtUdp os\<rparr>) = presented s" for t os
    using presented_udp [of s os] by (simp add: presented_def)
  then show ?thesis using f CtDatagram
    by (auto simp: ct_datagram_def frozen_def presented_def split: option.splits sum.splits)
qed (use f in \<open>auto simp: frozen_def presented_def setHostEndpoint_def setVideoJitterTargetMs_def split: option.splits\<close>)

lemma frozen_run:
  assumes "codec_drains av flushed"
  shows "frozen flushed s \<Longrightarrow> presented (fst (run_out (ct_step av ao ops) es s)) = presented s"
proof (induction es arbitrary: s)
  case (Cons e es)
  have "frozen flushed (fst (ct_step av ao ops e s))" "presented (fst (ct_step av ao ops e s)) = presented s"
    using frozen_step [OF assms Cons.prems] by auto
  then show ?case using Cons.IH by (simp add: Let_def case_prod_beta)
qed simp

text \<open>C32: One packet that the codec rejects freezes the client's picture: whatever arrives afterwards,
  keyframes included, and however often the watchdog asks for one, nothing is presented any more until
  the stream is started anew.\<close>

theorem rejected_packet_freezes_picture:
  assumes law: "codec_drains av flushed"
    and s: "ct_fault s = None" "ct_loop s" "ct_running s" "ct_transport s = Some t" "ct_decoder s = Some d" "vd_ctx d = Some c"
    and f: "snd (pollVideo (cp_pollNs env) t) = f # fs"
    and bad: "ad_send av c (packet_for (af_data f) (af_timestampNs f div 1000) (af_keyframe f)) = (c', False)"
  shows "presented (fst (run_out (ct_step av ao ops) es (ct_pass av ao env s))) = presented s"
proof -
  let ?p = "packet_for (af_data f) (af_timestampNs f div 1000) (af_keyframe f)"
  let ?d = "d\<lparr>vd_ctx := Some (fst (ad_send av c' (?p\<lparr>pk_data := []\<rparr>)))\<rparr>"
  have dec: "vd_decode av (cp_decodeMs env 0) ?p d = (?d, [], False)" using s(6) bad by (simp add: vd_decode_def)
  have "flushed (fst (ad_send av c' (?p\<lparr>pk_data := []\<rparr>)))" using law by (simp add: codec_drains_def)
  then obtain d2 c2 where r: "decode_frames av env (0 + 1) fs ?d (ct_lastFrameNs s) = (d2, ct_lastFrameNs s, [])"
    "vd_ctx d2 = Some c2" "flushed c2" using flushed_frames [OF law, of ?d] by fastforce
  have "decode_frames av env 0 (snd (pollVideo (cp_pollNs env) t)) d (ct_lastFrameNs s) = (d2, ct_lastFrameNs s, [])"
    using dec r(1) unfolding f by simp
  note p = pass_presents [OF s(1-5) this]
  have "frozen flushed (ct_pass av ao env s)" using p(2) r(2,3) by (auto simp: frozen_def)
  from frozen_run [OF law this] show ?thesis using p(1) by simp
qed

section \<open>Audio\<close>

lemma stuck_passes: "ct_fault s \<noteq> None \<Longrightarrow> fold (ct_pass av ao) envs s = s"
  by (induction envs) (simp_all add: ct_pass_def)

lemma failed_play:
  assumes "player_initDevices (cp_player env) (WasapiPlayer_new\<lparr>wp_running := True\<rparr>) = (p, Some why)" and "ct_audioPlayer s = None"
  shows "ct_fault (play env xs s) \<in> {Some PlayerCrash, Some PlayerBlock}"
proof -
  have "wp_start (cp_fuel env) (cp_player env) (cp_render env) WasapiPlayer_new \<in> {StartCrashed, StartBlocked}"
    by (rule failed_player_start_never_returns [OF _ assms(1)]) (simp add: WasapiPlayer_new_def)
  then show ?thesis using assms(2) by (auto simp: play_def Let_def)
qed

text \<open>A client whose audio device cannot be opened stops at the first sound: the pass that decodes it
  never returns from starting the player (or crashes there), so no later pass, video included, is made.\<close>

theorem no_audio_device_stops_stream:
  assumes s: "ct_fault s = None" "ct_loop s" "ct_running s" "ct_transport s = Some t" "ct_decoder s = Some d"
    and a: "ct_audioDecoder s = Some ad" "ct_audioPlayer s = None" "snd (jb_pop (cp_audioNs env) (ut_audioJitter t)) = f # fs"
      "ad_decode ao (cp_audioMs env) (af_data f) [] ad = (ad', x # xs, True)"
    and p: "player_initDevices (cp_player env) (WasapiPlayer_new\<lparr>wp_running := True\<rparr>) = (p, Some why)"
  shows "ct_fault (ct_pass av ao env s) \<in> {Some PlayerCrash, Some PlayerBlock} \<and>
    fold (ct_pass av ao) envs (ct_pass av ao env s) = ct_pass av ao env s"
proof -
  define s1 where "s1 = ct_video av env t d s"
  have s1: "ct_fault s1 = None" "ct_audioDecoder s1 = Some ad" "ct_audioPlayer s1 = None"
      "ct_transport s1 = Some (fst (pollVideo (cp_pollNs env) t))"
    using s a by (simp_all add: s1_def ct_video_def case_prod_beta)
  have poll: "snd (pollAudio (cp_audioNs env) (fst (pollVideo (cp_pollNs env) t))) = f # fs"
    using a(3) by (simp add: pollAudio_def pollVideo_def case_prod_beta)
  define s2 where "s2 = play env (x # xs) (s1\<lparr>ct_transport := Some (fst (pollAudio (cp_audioNs env) (fst (pollVideo (cp_pollNs env) t))))\<rparr>)"
  have f2: "ct_fault s2 \<in> {Some PlayerCrash, Some PlayerBlock}" unfolding s2_def using s1 by (intro failed_play [OF p]) simp
  have "ct_audio ao env s1 = audio_frames ao env fs (x # xs) ad' s2"
    using s1 poll a(4) by (simp add: ct_audio_def case_prod_beta s2_def)
  then have "ct_fault (ct_audio ao env s1) \<in> {Some PlayerCrash, Some PlayerBlock}"
    using f2 audio_frames_stuck [of s2 ao env fs "x # xs" ad'] by auto
  then have "ct_pass av ao env s = ct_audio ao env s1" "ct_fault (ct_audio ao env s1) \<in> {Some PlayerCrash, Some PlayerBlock}"
    using s by (auto simp: ct_pass_def s1_def Let_def)
  then show ?thesis using stuck_passes [of "ct_audio ao env s1" av ao envs] by auto
qed

text \<open>Two audio frames polled together are heard as three: the buffer is not cleared between them, so
  the first frame's sound is queued again before the second's.\<close>

theorem audio_polled_together_repeats:
  assumes "ct_fault s = None" "ct_audioPlayer s = Some p"
    and "ad_decode ao (cp_audioMs env) (af_data f) [] ad = (ad1, a, True)" "a \<noteq> []" "even (length a)"
    and "ad_decode ao (cp_audioMs env) (af_data g) a ad1 = (ad2, a @ b, True)" "even (length b)"
    and "length (wp_queue p) + 2 * length a + length b \<le> kMaxQueueFrames * 2"
  shows "\<exists>q. ct_audioPlayer (audio_frames ao env [f, g] [] ad s) = Some q \<and> wp_queue q = wp_queue p @ a @ a @ b"
  using assms by (auto simp: play_def wp_push_def Let_def elim!: evenE)

section \<open>A small client\<close>

definition demo_opus :: "unit AvAudioDecoder" where
  "demo_opus = \<lparr>ao_open = Some (), ao_send = (\<lambda>_ _. Some ()), ao_receive = (\<lambda>_. ((), [[1, 2]]))\<rparr>"

definition plain_sink :: "unit UdpCryptoSink" where
  "plain_sink = \<lparr>cs_active = (\<lambda>_. False), cs_seal = (\<lambda>_ p c. (c, Some p)), cs_open = (\<lambda>_ p c. (c, Some p))\<rparr>"

definition demo_start :: ct_start_env where
  "demo_start = \<lparr>cb_bound = True, cb_peer = Some (''10.0.0.2'', 40000), cb_nowMs = 0, cb_nowNs = 5\<rparr>"

definition demo_pass :: ct_pass_env where
  "demo_pass = \<lparr>cp_pollNs = 900000000, cp_decodeMs = (\<lambda>_. 1), cp_decodeNs = (\<lambda>_. 7), cp_presentMs = (\<lambda>_. 0), cp_audioNs = 900000000,
     cp_audioMs = 1, cp_player = no_device, cp_render = (\<lambda>_. (None, False)), cp_fuel = 3, cp_watchNs = 8, cp_afterNs = 9\<rparr>"

definition watching :: "(unit, bool \<times> AvPicture list, unit) ClientStreamer" where
  "watching = fst (ct_start demo_codec demo_opus demo_start ''10.0.0.2'' 40000 7 H264 None ClientStreamer_new)"

definition queued :: "UdpType \<Rightarrow> bytes \<Rightarrow> JitterBuffer" where
  "queued ty dat = (JitterBuffer_new 30)\<lparr>jb_queue := [\<lparr>en_frame = \<lparr>af_type = ty, af_sessionId = 7, af_sequence = 1, af_timestampNs = 0,
     af_keyframe = True, af_data = dat\<rparr>, en_arriveNs = 0\<rparr>]\<rparr>"

lemma watching_start: "ct_start demo_codec demo_opus demo_start ''10.0.0.2'' 40000 7 H264 None ClientStreamer_new = (watching, True)"
proof -
  have "snd (ct_start demo_codec demo_opus demo_start ''10.0.0.2'' 40000 7 H264 (None :: unit option) ClientStreamer_new) = True" by code_simp
  then show ?thesis by (simp add: watching_def prod_eq_iff)
qed

lemma watching_up:
  "ct_fault watching = None" "ct_loop watching" "ct_running watching" "ct_transport watching \<noteq> None" "presented watching = []"
  "ct_decoder watching = Some (VideoDecoder_new\<lparr>vd_ctx := Some (False, [])\<rparr>)"
  "ct_audioDecoder watching = Some (AudioDecoderOpus_new\<lparr>ad_ctx := Some ()\<rparr>)" "ct_audioPlayer watching = None"
  by code_simp+

definition watched :: "(unit, (bool \<times> AvPicture list) \<times> AvPacket list, unit) ClientStreamer" where
  "watched = fst (ct_start (recorded demo_codec) demo_opus demo_start ''10.0.0.2'' 40000 7 H264 None ClientStreamer_new)"

lemma watched_start:
  "ct_start (recorded demo_codec) demo_opus demo_start ''10.0.0.2'' 40000 7 H264 None ClientStreamer_new = (watched, True)"
proof -
  have "snd (ct_start (recorded demo_codec) demo_opus demo_start ''10.0.0.2'' 40000 7 H264 (None :: unit option) ClientStreamer_new) = True"
    by code_simp
  then show ?thesis by (simp add: watched_def prod_eq_iff)
qed

text \<open>Frame 2 arrives before frame 1; the codec receives 1 and then 2.\<close>

definition swapped :: "ct_event list" where
  "swapped = [CtDatagram 100 (frame_datagram UdpType_Video False [6] 4000 7 2 1 0) (''10.0.0.2'', 40000),
     CtDatagram 200 (frame_datagram UdpType_Video True [5] 3000 7 1 1 0) (''10.0.0.2'', 40000), CtPass demo_pass]"

lemma swapped_released:
  "snd (run_out (ct_step (recorded demo_codec) demo_opus plain_sink) swapped watched) =
     [\<lparr>af_type = 0, af_sessionId = 7, af_sequence = 1, af_timestampNs = 3000, af_keyframe = True, af_data = [5]\<rparr>,
      \<lparr>af_type = 0, af_sessionId = 7, af_sequence = 2, af_timestampNs = 4000, af_keyframe = False, af_data = [6]\<rparr>]"
  by code_simp

theorem decoded_in_order_witness:
  "streamer_saw (fst (run_out (ct_step (recorded demo_codec) demo_opus plain_sink) swapped watched)) =
     [packet_for [5] 3 True, packet_for [6] 4 False]"
  using decoded_in_order [OF watched_start prod.collapse [symmetric], of plain_sink swapped] by (simp add: swapped_released)

theorem rejected_packet_freezes_picture_witness:
  "\<exists>t. presented (fst (run_out (ct_step demo_codec demo_opus plain_sink) [CtPass demo_pass]
     (ct_pass demo_codec demo_opus demo_pass (watching\<lparr>ct_transport := Some (t\<lparr>ut_videoJitter := queued 0 [0]\<rparr>)\<rparr>)))) = []"
proof
  let ?t = "UdpTransport_new\<lparr>ut_videoJitter := queued 0 [0]\<rparr>" and ?f = "en_frame (hd (jb_queue (queued 0 [0])))"
  have law: "codec_drains demo_codec fst" by (auto simp: codec_drains_def demo_codec_def split: prod.splits)
  have poll: "snd (pollVideo (cp_pollNs demo_pass) ?t) = [?f]" by code_simp
  have bad: "ad_send demo_codec (False, []) (packet_for (af_data ?f) (af_timestampNs ?f div 1000) (af_keyframe ?f)) = ((False, []), False)"
    by code_simp
  have none: "presented (watching\<lparr>ct_transport := Some ?t\<rparr>) = []" using watching_up(5) by (simp add: presented_def)
  show "presented (fst (run_out (ct_step demo_codec demo_opus plain_sink) [CtPass demo_pass]
     (ct_pass demo_codec demo_opus demo_pass (watching\<lparr>ct_transport := Some ?t\<rparr>)))) = []"
    by (rule trans [OF rejected_packet_freezes_picture [where d = "VideoDecoder_new\<lparr>vd_ctx := Some (False, [])\<rparr>", OF law _ _ _ _ _ _ poll bad] none]) (simp_all add: watching_up)
qed

theorem no_audio_device_stops_stream_witness:
  "\<exists>t. ct_fault (ct_pass demo_codec demo_opus demo_pass (watching\<lparr>ct_transport := Some (t\<lparr>ut_audioJitter := queued 1 [4]\<rparr>)\<rparr>)) \<noteq> None"
proof
  let ?t = "UdpTransport_new\<lparr>ut_audioJitter := queued 1 [4]\<rparr>" and ?f = "en_frame (hd (jb_queue (queued 1 [4])))"
  have poll: "snd (jb_pop (cp_audioNs demo_pass) (ut_audioJitter ?t)) = [?f]" by code_simp
  have dec: "\<exists>ad'. ad_decode demo_opus (cp_audioMs demo_pass) (af_data ?f) [] (AudioDecoderOpus_new\<lparr>ad_ctx := Some ()\<rparr>) = (ad', 1 # [2], True)"
    by (simp add: ad_decode_def demo_opus_def)
  have dev: "player_initDevices (cp_player demo_pass) (WasapiPlayer_new\<lparr>wp_running := True\<rparr>) =
      (WasapiPlayer_new\<lparr>wp_running := True\<rparr>, Some ''no default render device'')"
    by (simp add: player_initDevices_def no_device_def demo_pass_def)
  show "ct_fault (ct_pass demo_codec demo_opus demo_pass (watching\<lparr>ct_transport := Some ?t\<rparr>)) \<noteq> None"
    using dec no_audio_device_stops_stream [OF _ _ _ _ _ _ _ poll _ dev, of "watching\<lparr>ct_transport := Some ?t\<rparr>" _ _ demo_opus]
      watching_up by fastforce
qed

end
