(* ===== verification/MediaPath.thy ===== *)
theory MediaPath
  imports ClientStreamer
begin

text \<open>
  The path of the video from the host's transport to the client's decoder, over the models of both ends: \<open>sendFrame\<close>
  and the posted sends on the host, the network as the order in which datagrams arrive, and the
  client's receive handler, reassembler, jitter buffer and decode loop.

  The theorems: without encryption, on a network that loses nothing and delivers each frame before the
  next, the codec receives every frame that is sent, once, in order and unchanged; with encryption no
  frame ever arrives.
\<close>

section \<open>A datagram of a frame at the receiver\<close>

definition accepts :: "u32 \<Rightarrow> endpoint \<Rightarrow> 'c UdpTransport \<Rightarrow> bool" where
  "accepts sid src t \<longleftrightarrow> ut_secure t = None \<and> (ut_sessionId t = 0 \<or> ut_sessionId t = sid) \<and> \<not> unknown_remote src t"

definition same_setup :: "'c UdpTransport \<Rightarrow> 'c UdpTransport \<Rightarrow> bool" where
  "same_setup t t' \<longleftrightarrow> ut_secure t' = ut_secure t \<and> ut_sessionId t' = ut_sessionId t \<and> ut_locked t' = ut_locked t \<and>
     ut_dropUnknownRemote t' = ut_dropUnknownRemote t \<and> ut_videoTargetMs t' = ut_videoTargetMs t \<and>
     jb_queue (ut_audioJitter t') = jb_queue (ut_audioJitter t)"

lemma same_setup_refl [simp, intro]: "same_setup t t"
  by (simp add: same_setup_def)

lemma same_setup_trans: "same_setup a b \<Longrightarrow> same_setup b c \<Longrightarrow> same_setup a c"
  by (simp add: same_setup_def)

lemma same_setup_accepts: "same_setup t t' \<Longrightarrow> accepts sid src t \<Longrightarrow> accepts sid src t'"
  by (simp add: same_setup_def accepts_def unknown_remote_def)

abbreviation video_base :: "bool \<Rightarrow> bytes \<Rightarrow> u64 \<Rightarrow> u32 \<Rightarrow> u64 \<Rightarrow> UdpHeader" where
  "video_base \<equiv> frame_base UdpType_Video"

abbreviation video_datagram :: "bool \<Rightarrow> bytes \<Rightarrow> u64 \<Rightarrow> u32 \<Rightarrow> u64 \<Rightarrow> nat \<Rightarrow> bytes" where
  "video_datagram key dat ts sid sq k \<equiv> frame_datagram UdpType_Video key dat ts sid sq (fragmentCountFor (length dat)) k"

lemma frame_base_simps [simp]:
  "uh_type (frame_base ty key dat ts sid sq) = ty" "uh_sessionId (frame_base ty key dat ts sid sq) = sid"
  "uh_sequence (frame_base ty key dat ts sid sq) = sq" "uh_timestampNs (frame_base ty key dat ts sid sq) = ts"
  by (simp_all add: frame_base_def)

lemma frame_base_plain: "\<not> hasFlag (uh_flags (frame_base ty key dat ts sid sq)) UdpFlag_Encrypted"
  by (simp add: frame_base_def hasFlag_def UdpFlag_defs)

lemma frame_of_base: "frame_of (frame_base ty key dat ts sid sq) dat =
    \<lparr>af_type = ty, af_sessionId = sid, af_sequence = sq, af_timestampNs = ts, af_keyframe = key, af_data = dat\<rparr>"
  unfolding frame_of_def mk_frame_def keyframe_flag by simp

lemma setup_frames [simp]:
  "ut_secure (learn_peer ops h src t) = ut_secure t" "ut_sessionId (learn_peer ops h src t) = ut_sessionId t"
  "ut_locked (learn_peer ops h src t) = ut_locked t" "ut_dropUnknownRemote (learn_peer ops h src t) = ut_dropUnknownRemote t"
  "ut_videoTargetMs (learn_peer ops h src t) = ut_videoTargetMs t" "ut_audioJitter (learn_peer ops h src t) = ut_audioJitter t"
  "ut_video (learn_peer ops h src t) = ut_video t"
  "ut_secure (note_arrival now t) = ut_secure t" "ut_sessionId (note_arrival now t) = ut_sessionId t"
  "ut_locked (note_arrival now t) = ut_locked t" "ut_dropUnknownRemote (note_arrival now t) = ut_dropUnknownRemote t"
  "ut_videoTargetMs (note_arrival now t) = ut_videoTargetMs t" "ut_audioJitter (note_arrival now t) = ut_audioJitter t"
  "ut_video (note_arrival now t) = ut_video t"
  by (simp_all add: learn_peer_def setPeer_def note_arrival_def Let_def)

lemma video_media:
  assumes "uh_type h = UdpType_Video" and "feed h p (ut_video t) = Inr (r, f)" and "\<forall>g. f = Some g \<longrightarrow> af_type g = UdpType_Video"
  shows "\<exists>t' os. media_input now h p t = Inr (t', os) \<and> same_setup t t' \<and> ut_video t' = ra_gc r \<and>
    ut_videoJitter t' = (case f of None \<Rightarrow> ut_videoJitter t
      | Some g \<Rightarrow> jb_push g now (jb_setTargetMs (ut_videoTargetMs t) (ut_videoJitter t)))"
proof -
  have ne: "UdpType_Video \<noteq> UdpType_Input" by (simp add: UdpType_Video_def UdpType_Input_def)
  show ?thesis
    using assms ne
    by (cases f) (auto simp: media_input_def video_input_def handleMediaComplete_def same_setup_def Let_def case_prod_beta)
qed

lemma video_not_control: "\<not> is_control UdpType_Video" "UdpType_Video \<noteq> UdpType_Ping" "UdpType_Video \<noteq> UdpType_Pong" "UdpType_Video \<le> 8"
  by code_simp+

lemma receive_video:
  assumes "Reassembly.frame_fits dat" "dat \<noteq> []" "k < frag_count dat" and acc: "accepts sid src t"
    and f: "feed (frag_header (video_base key dat ts sid sq) dat k) (frag_slice dat k) (ut_video t) = Inr (r, f)"
      "\<forall>g. f = Some g \<longrightarrow> af_type g = UdpType_Video"
  shows "\<exists>t' os. handleDatagram ops now (video_datagram key dat ts sid sq k) src t = Inr (t', os) \<and> same_setup t t' \<and>
    ut_video t' = ra_gc r \<and>
    ut_videoJitter t' = (case f of None \<Rightarrow> ut_videoJitter t
      | Some g \<Rightarrow> jb_push g now (jb_setTargetMs (ut_videoTargetMs t) (ut_videoJitter t)))"
proof -
  let ?h = "frag_header (video_base key dat ts sid sq) dat k" and ?b = "video_datagram key dat ts sid sq k"
  let ?t1 = "t\<lparr>ut_recvDatagrams := ut_recvDatagrams t + 1, ut_recvBytes := ut_recvBytes t + of_nat (length ?b), ut_lastRxAbsNs := now\<rparr>"
  let ?t2 = "note_arrival now (learn_peer ops ?h src ?t1)"
  have d: "decodeUdpHeader ?b = Some ?h" "drop kUdpHeaderSize ?b = frag_slice dat k"
    using as_fragment_frame [OF assms(1-3) video_not_control(4), of key ts sid sq] decode_frag [OF assms(1-3) video_not_control(4), of key ts sid sq]
    by (simp_all add: frag_def frame_datagram_eq [OF assms(1-3)])
  have pl: "\<not> hasFlag (uh_flags ?h) UdpFlag_Encrypted" using frame_base_plain by simp
  have c: "clear_payload ops ?b ?h ?t1 = (?t1, Some (?h, frag_slice dat k))"
    using acc d(2) pl by (simp add: clear_payload_def accepts_def Let_def)
  have u: "\<not> unknown_remote src (learn_peer ops ?h src ?t1)" using acc by (simp add: accepts_def unknown_remote_def)
  have "handleDatagram ops now ?b src t = dispatch now ?h (frag_slice dat k) ?t2"
    using acc c u d(1) by (auto simp: handleDatagram_def accepts_def Let_def)
  also have "\<dots> = media_input now ?h (frag_slice dat k) ?t2" using video_not_control by (simp add: dispatch_def Let_def)
  finally have e: "handleDatagram ops now ?b src t = media_input now ?h (frag_slice dat k) ?t2" .
  have ty: "uh_type ?h = UdpType_Video" by simp
  have fd: "feed ?h (frag_slice dat k) (ut_video ?t2) = Inr (r, f)" using f(1) by simp
  obtain t' os where m: "media_input now ?h (frag_slice dat k) ?t2 = Inr (t', os)" "same_setup ?t2 t'" "ut_video t' = ra_gc r"
    "ut_videoJitter t' = (case f of None \<Rightarrow> ut_videoJitter ?t2
      | Some g \<Rightarrow> jb_push g now (jb_setTargetMs (ut_videoTargetMs ?t2) (ut_videoJitter ?t2)))"
    using video_media [OF ty fd f(2), of now] by blast
  have "same_setup t ?t2" by (simp add: same_setup_def)
  from same_setup_trans [OF this m(2)] show ?thesis using e m by (cases f) simp_all
qed

section \<open>A frame at the client's streamer\<close>

definition alive :: "('c, 'd, 'a) ClientStreamer \<Rightarrow> 'c UdpTransport \<Rightarrow> bool" where
  "alive s t \<longleftrightarrow> ct_fault s = None \<and> ct_loop s \<and> ct_running s \<and> ct_transport s = Some t \<and> ct_decoder s \<noteq> None"

lemma alive_datagram: "alive s t \<Longrightarrow> handleDatagram ops now buf src t = Inr (t', os) \<Longrightarrow> alive (ct_datagram ops now buf src s) t'"
  by (simp add: alive_def ct_datagram_def)

text \<open>A frame being received on an otherwise empty reassembler is never collected, since nothing newer was seen.\<close>

definition receiving :: "bool \<Rightarrow> bytes \<Rightarrow> u64 \<Rightarrow> u32 \<Rightarrow> u64 \<Rightarrow> nat set \<Rightarrow> FragmentReassembler \<Rightarrow> FragmentReassembler \<Rightarrow> bool" where
  "receiving key dat ts sid sq S r0 r \<longleftrightarrow> in_progress (video_base key dat ts sid sq) dat r0 S r \<and> ra_highestStarted r \<le> sq"

lemma fragment_highest: "feed_fragment h p fb r = Inr (r', f) \<Longrightarrow> ra_highestStarted r' = ra_highestStarted r"
  unfolding feed_fragment_def Let_def by (auto split: if_split_asm)

lemma feed_highest:
  assumes "feed h p r = Inr (r', f)" "ra_highestStarted r \<le> uh_sequence h"
  shows "ra_highestStarted r' \<le> uh_sequence h"
proof (cases "uh_fragmentCount h = 1")
  case True
  then show ?thesis using assms by (auto simp: feed_def split: if_split_asm)
next
  case False
  have t: "ra_highestStarted (ra_touch (uh_sequence h) r) \<le> uh_sequence h" using assms(2) by (simp add: ra_touch_def)
  have "ra_highestStarted r' = ra_highestStarted (ra_touch (uh_sequence h) r)"
    using assms(1) False fragment_highest unfolding feed_def Let_def by (fastforce simp del: ra_touch_simps split: if_split_asm)
  then show ?thesis using t by simp
qed

lemma gc_idle: "ra_frames r = [] \<Longrightarrow> ra_gc r = r"
  by (simp add: ra_gc_def)

lemma gc_single: "ra_frames r = [(sq, fb)] \<Longrightarrow> ra_highestStarted r \<le> sq \<Longrightarrow> sq \<le> sq + 64 \<Longrightarrow> ra_gc r = r"
  by (simp add: ra_gc_def)

lemma gc_receiving:
  assumes "receiving key dat ts sid sq S r0 r" "ra_frames r0 = []" "sq \<le> sq + 64"
  shows "ra_gc r = r"
proof (cases "S = {}")
  case True
  then show ?thesis using assms by (intro gc_idle) (simp add: receiving_def in_progress_def)
next
  case False
  then obtain fb where "ra_frames r = [(sq, fb)]" using assms(1,2) by (auto simp: receiving_def in_progress_def omap_upd.simps)
  then show ?thesis using assms by (intro gc_single) (simp_all add: receiving_def)
qed

lemma receive_fragments:
  assumes "Reassembly.frame_fits dat" "1 < frag_count dat" and acc: "accepts sid src t" and al: "alive s t"
    and idle: "ra_frames (ut_video t) = []" "ra_highestStarted (ut_video t) \<le> sq" "sq \<le> sq + 64"
    and sub: "set ks \<subset> {..<frag_count dat}"
  shows "\<exists>t'. alive (fold (\<lambda>k. ct_datagram ops now (video_datagram key dat ts sid sq k) src) ks s) t' \<and> same_setup t t' \<and>
    receiving key dat ts sid sq (set ks) (ut_video t) (ut_video t') \<and> ut_videoJitter t' = ut_videoJitter t"
  using sub
proof (induction ks rule: rev_induct)
  case Nil
  then show ?case using al idle by (intro exI [of _ t]) (simp add: receiving_def in_progress_def)
next
  case (snoc k ks)
  let ?b = "video_base key dat ts sid sq"
  have ne: "dat \<noteq> []" using assms(2) by (auto simp: frag_count_def fragmentCountFor_def)
  from snoc obtain t1 where t1: "alive (fold (\<lambda>k. ct_datagram ops now (video_datagram key dat ts sid sq k) src) ks s) t1" "same_setup t t1"
    "receiving key dat ts sid sq (set ks) (ut_video t) (ut_video t1)" "ut_videoJitter t1 = ut_videoJitter t" by auto
  from snoc.prems have k: "k < frag_count dat" "\<not> (k \<notin> set ks \<and> insert k (set ks) = {..<frag_count dat})" by auto
  have room: "has_room (uh_sequence ?b) (ut_video t)" using idle(1) by (simp add: has_room_def ra_wf_def frames_wf_def kMaxInFlight_def)
  obtain r where r: "feed (frag_header ?b dat k) (frag_slice dat k) (ut_video t1) = Inr (r, None)" "in_progress ?b dat (ut_video t) (insert k (set ks)) r"
    using feed_in_progress [OF assms(1,2) room _ k(1), of "set ks" "ut_video t1"] t1(3) k(2) by (auto simp: receiving_def)
  have rec: "receiving key dat ts sid sq (set (ks @ [k])) (ut_video t) r"
    using r feed_highest [OF r(1)] t1(3) by (simp add: receiving_def)
  obtain t' os where t': "handleDatagram ops now (video_datagram key dat ts sid sq k) src t1 = Inr (t', os)" "same_setup t1 t'" "ut_video t' = ra_gc r"
    "ut_videoJitter t' = ut_videoJitter t1"
    using receive_video [OF assms(1) ne k(1) same_setup_accepts [OF t1(2) acc] r(1), of ops now] by auto
  show ?case
    using alive_datagram [OF t1(1) t'(1)] same_setup_trans [OF t1(2) t'(2)] rec gc_receiving [OF rec idle(1,3)] t1(4) t'(3,4)
    by (intro exI [of _ t']) simp
qed

text \<open>All datagrams of a frame, in any order and with repetitions before the last new one.\<close>

definition complete_order :: "bytes \<Rightarrow> nat list \<Rightarrow> nat \<Rightarrow> bool" where
  "complete_order dat js i \<longleftrightarrow> i \<notin> set js \<and> insert i (set js) = {..<frag_count dat}"

lemma receive_frame:
  assumes "Reassembly.frame_fits dat" "dat \<noteq> []" and acc: "accepts sid src t" and al: "alive s t"
    and idle: "ra_frames (ut_video t) = []" "ra_highestStarted (ut_video t) \<le> sq" "sq \<le> sq + 64" and ord: "complete_order dat js i"
  shows "\<exists>t'. alive (fold (\<lambda>k. ct_datagram ops now (video_datagram key dat ts sid sq k) src) (js @ [i]) s) t' \<and> same_setup t t' \<and>
    ra_frames (ut_video t') = [] \<and> ra_highestStarted (ut_video t') \<le> sq \<and>
    ut_videoJitter t' = jb_push (frame_of (video_base key dat ts sid sq) dat) now (jb_setTargetMs (ut_videoTargetMs t) (ut_videoJitter t))"
proof -
  let ?b = "video_base key dat ts sid sq" and ?f = "\<lambda>k. ct_datagram ops now (video_datagram key dat ts sid sq k) src"
  have i: "i < frag_count dat" "set js \<subset> {..<frag_count dat}" using ord by (auto simp: complete_order_def)
  have room: "has_room (uh_sequence ?b) (ut_video t)" using idle(1) by (simp add: has_room_def ra_wf_def frames_wf_def kMaxInFlight_def)
  have vid: "af_type (frame_of ?b dat) = UdpType_Video" by (simp add: frame_of_base)
  obtain t1 r where t1: "alive (fold ?f js s) t1" "same_setup t t1" "ut_videoJitter t1 = ut_videoJitter t"
    and r: "feed (frag_header ?b dat i) (frag_slice dat i) (ut_video t1) = Inr (r, Some (frame_of ?b dat))" "ra_frames r = []" "ra_highestStarted r \<le> sq"
  proof (cases "1 < frag_count dat")
    case True
    obtain t1 where t1: "alive (fold ?f js s) t1" "same_setup t t1" "receiving key dat ts sid sq (set js) (ut_video t) (ut_video t1)"
      "ut_videoJitter t1 = ut_videoJitter t"
      using receive_fragments [OF assms(1) True acc al idle i(2)] by blast
    obtain r where r: "feed (frag_header ?b dat i) (frag_slice dat i) (ut_video t1) = Inr (r, Some (frame_of ?b dat))" "ra_frames r = ra_frames (ut_video t)"
      using feed_in_progress [OF assms(1) True room _ i(1), of "set js" "ut_video t1"] t1(3) ord by (auto simp: receiving_def complete_order_def)
    show ?thesis using that [OF t1(1,2,4) r(1)] r(2) idle(1) feed_highest [OF r(1)] t1(3) by (simp add: receiving_def)
  next
    case False
    then have one: "frag_count dat = 1" using i(1) by simp
    then have "i = 0" using i(1) by simp
    moreover have "js = []" using one ord by (cases js) (auto simp: complete_order_def lessThan_Suc)
    moreover have "feed (frag_header ?b dat 0) (frag_slice dat 0) (ut_video t) = Inr ((ut_video t)\<lparr>ra_completed := ra_completed (ut_video t) + 1\<rparr>, Some (frame_of ?b dat))"
      using single_fragment [OF assms(1,2) one, of ?b "ut_video t"] by (auto simp: frag_def split: sum.splits option.splits prod.splits)
    ultimately show ?thesis using that [of t] al idle by simp
  qed
  obtain t' os where t': "handleDatagram ops now (video_datagram key dat ts sid sq i) src t1 = Inr (t', os)" "same_setup t1 t'" "ut_video t' = ra_gc r"
    "ut_videoJitter t' = jb_push (frame_of ?b dat) now (jb_setTargetMs (ut_videoTargetMs t1) (ut_videoJitter t1))"
    using receive_video [OF assms(1,2) i(1) same_setup_accepts [OF t1(2) acc] r(1), of ops now] vid by auto
  show ?thesis
    using alive_datagram [OF t1(1) t'(1)] same_setup_trans [OF t1(2) t'(2)] t'(3,4) r gc_idle [OF r(2)] t1(2,3)
    by (intro exI [of _ t']) (simp add: same_setup_def)
qed

section \<open>A pass that finds one frame\<close>

lemma pop_empty: "jb_queue j = [] \<Longrightarrow> jb_pop now j = (j, [])"
  by (simp add: jb_pop_def)

definition fresh :: "u64 \<Rightarrow> JitterBuffer \<Rightarrow> bool" where
  "fresh sq j \<longleftrightarrow> jb_queue j = [] \<and> (jb_initialized j \<longrightarrow> jb_lastPoppedSequence j < sq)"

text \<open>A frame that is newer than all before it waits for the target and is then released.\<close>

lemma push_pop:
  assumes "fresh (af_sequence f) j" and "a < now" and "ucast ms * 1000000 \<le> now - a"
  shows "\<exists>j'. jb_pop now (jb_push f a (jb_setTargetMs ms j)) = (j', [f]) \<and> jb_queue j' = [] \<and> jb_initialized j' \<and>
    jb_lastPoppedSequence j' = af_sequence f"
proof -
  have "\<not> (jb_initialized j \<and> af_sequence f \<le> jb_lastPoppedSequence j \<and> jb_lastPoppedSequence j > 0)"
    using assms(1) by (auto simp: fresh_def)
  then have q: "jb_queue (jb_push f a (jb_setTargetMs ms j)) = [\<lparr>en_frame = f, en_arriveNs = a\<rparr>]"
    "jb_targetMs (jb_push f a (jb_setTargetMs ms j)) = ms"
    using assms(1) by (auto simp: jb_push_def jb_setTargetMs_def fresh_def Let_def)
  have r: "jb_ready now n \<lparr>en_frame = f, en_arriveNs = a\<rparr> k" if "jb_targetMs k = ms" for k n
    using assms(2,3) that by (simp add: jb_ready_def jb_waited_def Let_def)
  show ?thesis unfolding jb_pop_def q(1) using r [OF q(2)] by simp
qed

lemma pass_alive:
  assumes "alive s t" and "jb_queue (ut_audioJitter t) = []"
  shows "\<exists>t'. alive (ct_pass av ao env s) t' \<and> same_setup t t' \<and> ut_video t' = ut_video t \<and>
    ut_videoJitter t' = fst (jb_pop (cp_pollNs env) (ut_videoJitter t)) \<and> ct_polled env s = snd (jb_pop (cp_pollNs env) (ut_videoJitter t))"
proof -
  obtain d where d: "ct_decoder s = Some d" using assms(1) by (auto simp: alive_def)
  let ?t1 = "t\<lparr>ut_videoJitter := fst (jb_pop (cp_pollNs env) (ut_videoJitter t))\<rparr>"
  let ?s1 = "ct_video av env t d s" and ?s2 = "ct_audio ao env (ct_video av env t d s)"
  have v: "ct_transport ?s1 = Some ?t1" "ct_fault ?s1 = None" "ct_loop ?s1" "ct_running ?s1" "ct_decoder ?s1 \<noteq> None"
    using assms(1) by (auto simp: alive_def ct_video_def pollVideo_def case_prod_beta)
  have p: "pollAudio now ?t1 = (?t1, [])" for now using assms(2) by (simp add: pollAudio_def pop_empty)
  have a: "ct_transport ?s2 = Some ?t1" "ct_fault ?s2 = None" "ct_loop ?s2" "ct_running ?s2" "ct_decoder ?s2 \<noteq> None"
    using v p by (simp_all add: ct_audio_transport, simp_all add: ct_audio_def split: option.split)
  have pass: "ct_pass av ao env s = ct_watchdog env ?s2" using assms(1) d a(2) by (simp add: alive_def ct_pass_def Let_def)
  let ?t2 = "if ct_lastFrameNs ?s2 \<noteq> 0 \<and> cp_watchNs env - ct_lastFrameNs ?s2 > 2000000000 then fst (requestKeyframe (cp_watchNs env) ?t1) else ?t1"
  have "alive (ct_watchdog env ?s2) ?t2" using a by (simp add: alive_def ct_watchdog_def)
  moreover have "same_setup t ?t2" "ut_video ?t2 = ut_video t" "ut_videoJitter ?t2 = fst (jb_pop (cp_pollNs env) (ut_videoJitter t))"
    by (simp_all add: same_setup_def requestKeyframe_def sendSmall_def next_seq_def Let_def)
  moreover have "ct_polled env s = snd (jb_pop (cp_pollNs env) (ut_videoJitter t))"
    using assms(1) d by (simp add: ct_polled_def alive_def pollVideo_def case_prod_beta)
  ultimately show ?thesis unfolding pass by blast
qed

section \<open>The host's side of the wire\<close>

fun sent_bytes :: "ut_output \<Rightarrow> bytes" where
  "sent_bytes (SendTo ep d) = d"
| "sent_bytes _ = []"

text \<open>The io thread runs the posted sends in order; every send succeeds.\<close>

fun wire :: "'c UdpCryptoSink \<Rightarrow> ut_output list \<Rightarrow> 'c UdpTransport \<Rightarrow> 'c UdpTransport \<times> bytes list" where
  "wire ops [] t = (t, [])"
| "wire ops (PostDatagram dg # os) t =
     (case sendPosted ops True dg t of
        (t, sent) \<Rightarrow> (case wire ops os t of (t, rest) \<Rightarrow> (t, map sent_bytes sent @ rest)))"
| "wire ops (_ # os) t = wire ops os t"

record video_round =
  vr_key :: bool
  vr_data :: bytes
  vr_ts :: u64
  vr_order :: "nat list"
  vr_last :: nat
  vr_arrive :: u64
  vr_env :: ct_pass_env

definition host_frame :: "'c UdpCryptoSink \<Rightarrow> video_round \<Rightarrow> 'c UdpTransport \<Rightarrow> 'c UdpTransport \<times> bytes list" where
  "host_frame ops rd th =
     (case sendFrame UdpType_Video (vr_key rd) (vr_data rd) (vr_ts rd) th of (th, posts) \<Rightarrow> wire ops posts th)"

fun video_events :: "'h UdpCryptoSink \<Rightarrow> endpoint \<Rightarrow> video_round list \<Rightarrow> 'h UdpTransport \<Rightarrow> ct_event list" where
  "video_events ops src [] th = []"
| "video_events ops src (rd # rds) th =
     (case host_frame ops rd th of
        (th, dgs) \<Rightarrow>
          map (\<lambda>k. CtDatagram (vr_arrive rd) (dgs ! k) src) (vr_order rd @ [vr_last rd]) @ CtPass (vr_env rd) # video_events ops src rds th)"

definition round_ok :: "u32 \<Rightarrow> video_round \<Rightarrow> bool" where
  "round_ok ms rd \<longleftrightarrow> Reassembly.frame_fits (vr_data rd) \<and> vr_data rd \<noteq> [] \<and> complete_order (vr_data rd) (vr_order rd) (vr_last rd) \<and>
     vr_arrive rd < cp_pollNs (vr_env rd) \<and> ucast ms * 1000000 \<le> cp_pollNs (vr_env rd) - vr_arrive rd"

definition sending :: "u32 \<Rightarrow> u64 \<Rightarrow> 'c UdpTransport \<Rightarrow> bool" where
  "sending sid n th \<longleftrightarrow> ut_running th \<and> ut_hasSocket th \<and> ut_havePeer th \<and> ut_sessionId th = sid \<and> ut_secure th = None \<and>
     0 < length (ut_seqCounter th) \<and> ut_seqCounter th ! 0 = n"

lemma wire_plain:
  assumes "ut_secure th = None" "ut_hasSocket th" "ut_havePeer th"
  shows "snd (wire ops (map PostDatagram dgs) th) = dgs \<and>
    (\<exists>a b. fst (wire ops (map PostDatagram dgs) th) = th\<lparr>ut_sentDatagrams := a, ut_sentBytes := b\<rparr>)"
  using assms
proof (induction dgs arbitrary: th)
  case Nil
  show ?case by (intro conjI exI [where x = "ut_sentDatagrams th"] exI [where x = "ut_sentBytes th"]) simp_all
next
  case (Cons dg dgs)
  let ?t = "th\<lparr>ut_sentDatagrams := ut_sentDatagrams th + 1, ut_sentBytes := ut_sentBytes th + of_nat (length dg)\<rparr>"
  have "sendPosted ops True dg th = (?t, [SendTo (ut_peer th) dg])" using Cons.prems by (simp add: sendPosted_def count_sent_def)
  then show ?case using Cons.IH [of ?t] Cons.prems by (auto simp: case_prod_beta)
qed

lemma host_frame_plain:
  assumes "sending sid n th" "Reassembly.frame_fits (vr_data rd)" "vr_data rd \<noteq> []"
  shows "snd (host_frame ops rd th) = map (video_datagram (vr_key rd) (vr_data rd) (vr_ts rd) sid n) [0..<frag_count (vr_data rd)]"
    and "sending sid (n + 1) (fst (host_frame ops rd th))"
proof -
  let ?n = "fragmentCountFor (length (vr_data rd))"
  let ?th = "th\<lparr>ut_sentFrames := ut_sentFrames th + 1, ut_seqCounter := (ut_seqCounter th)[0 := n + 1]\<rparr>"
  let ?dgs = "map (video_datagram (vr_key rd) (vr_data rd) (vr_ts rd) sid n) [0..<frag_count (vr_data rd)]"
  have pos: "\<not> ?n < 1" using frag_count_bounds(3) [OF assms(2,3)] by (auto simp: frag_count_def word_less_nat_alt)
  have v: "unat UdpType_Video = 0" by (simp add: UdpType_Video_def)
  have e: "sendFrame UdpType_Video (vr_key rd) (vr_data rd) (vr_ts rd) th = (?th, map PostDatagram ?dgs)"
    using assms(1) pos v by (simp add: sending_def sendFrame_def next_seq_def Let_def frag_count_def)
  have s: "ut_secure ?th = None" "ut_hasSocket ?th" "ut_havePeer ?th" using assms(1) by (simp_all add: sending_def)
  obtain a b where w: "wire ops (map PostDatagram ?dgs) ?th = (?th\<lparr>ut_sentDatagrams := a, ut_sentBytes := b\<rparr>, ?dgs)"
    using wire_plain [OF s, of ops ?dgs] by (metis prod.collapse)
  have h: "host_frame ops rd th = (?th\<lparr>ut_sentDatagrams := a, ut_sentBytes := b\<rparr>, ?dgs)" unfolding host_frame_def e prod.case by (rule w)
  show "snd (host_frame ops rd th) = ?dgs" unfolding h by simp
  show "sending sid (n + 1) (fst (host_frame ops rd th))" unfolding h using assms(1) by (simp add: sending_def)
qed

section \<open>Whole runs\<close>

text \<open>The client between two frames, waiting for number \<open>n\<close>.\<close>

definition waiting :: "u32 \<Rightarrow> endpoint \<Rightarrow> u32 \<Rightarrow> u64 \<Rightarrow> ('c, 'd, 'a) ClientStreamer \<Rightarrow> bool" where
  "waiting sid src ms n s \<longleftrightarrow> (\<exists>t. alive s t \<and> accepts sid src t \<and> ut_videoTargetMs t = ms \<and> ra_frames (ut_video t) = [] \<and>
     ra_highestStarted (ut_video t) \<le> n \<and> fresh n (ut_videoJitter t) \<and> jb_queue (ut_audioJitter t) = [])"

lemma run_datagrams:
  "run_out (ct_step av ao ops) (map (\<lambda>k. CtDatagram now (dg k) src) ks) s = (fold (\<lambda>k. ct_datagram ops now (dg k) src) ks s, [])"
  by (induction ks arbitrary: s) simp_all

lemma one_round:
  assumes w: "waiting sid src ms n s" and rd: "round_ok ms rd" and n: "n < 2 ^ 63"
    and dg: "\<And>k. k < frag_count (vr_data rd) \<Longrightarrow> dgs ! k = video_datagram (vr_key rd) (vr_data rd) (vr_ts rd) sid n k"
  shows "\<exists>s'. run_out (ct_step av ao ops) (map (\<lambda>k. CtDatagram (vr_arrive rd) (dgs ! k) src) (vr_order rd @ [vr_last rd]) @ [CtPass (vr_env rd)]) s =
      (s', [frame_of (video_base (vr_key rd) (vr_data rd) (vr_ts rd) sid n) (vr_data rd)]) \<and> waiting sid src ms (n + 1) s'"
proof -
  let ?f = "frame_of (video_base (vr_key rd) (vr_data rd) (vr_ts rd) sid n) (vr_data rd)"
  let ?ks = "vr_order rd @ [vr_last rd]"
  obtain t where t: "alive s t" "accepts sid src t" "ut_videoTargetMs t = ms" "ra_frames (ut_video t) = []" "ra_highestStarted (ut_video t) \<le> n"
    "fresh n (ut_videoJitter t)" "jb_queue (ut_audioJitter t) = []" using w by (auto simp: waiting_def)
  have up: "n \<le> n + 64" "n \<le> n + 1" "n < n + 1" using n by (simp_all add: word_le_nat_alt word_less_nat_alt unat_word_ariths)
  have ok: "Reassembly.frame_fits (vr_data rd)" "vr_data rd \<noteq> []" "complete_order (vr_data rd) (vr_order rd) (vr_last rd)"
    "vr_arrive rd < cp_pollNs (vr_env rd)" "ucast ms * 1000000 \<le> cp_pollNs (vr_env rd) - vr_arrive rd"
    using rd by (simp_all add: round_ok_def)
  have "set ?ks = {..<frag_count (vr_data rd)}" using ok(3) by (auto simp: complete_order_def)
  then have "map (\<lambda>k. CtDatagram (vr_arrive rd) (dgs ! k) src) ?ks =
      map (\<lambda>k. CtDatagram (vr_arrive rd) (video_datagram (vr_key rd) (vr_data rd) (vr_ts rd) sid n k) src) ?ks"
    using dg by (intro map_cong) auto
  then have r: "run_out (ct_step av ao ops) (map (\<lambda>k. CtDatagram (vr_arrive rd) (dgs ! k) src) ?ks) s =
      (fold (\<lambda>k. ct_datagram ops (vr_arrive rd) (video_datagram (vr_key rd) (vr_data rd) (vr_ts rd) sid n k) src) ?ks s, [])" (is "_ = (?s1, [])")
    by (simp only: run_datagrams)
  obtain t1 where t1: "alive ?s1 t1" "same_setup t t1" "ra_frames (ut_video t1) = []" "ra_highestStarted (ut_video t1) \<le> n"
    "ut_videoJitter t1 = jb_push ?f (vr_arrive rd) (jb_setTargetMs ms (ut_videoJitter t))"
    using receive_frame [OF ok(1,2) t(2,1,4,5) up(1) ok(3), of ops "vr_arrive rd" "vr_key rd" "vr_ts rd"] unfolding t(3) by blast
  have "fresh (af_sequence ?f) (ut_videoJitter t)" using t(6) by (simp add: frame_of_base)
  then obtain j where j: "jb_pop (cp_pollNs (vr_env rd)) (ut_videoJitter t1) = (j, [?f])" "jb_queue j = []" "jb_initialized j" "jb_lastPoppedSequence j = n"
    using push_pop [of ?f "ut_videoJitter t", OF _ ok(4,5)] unfolding t1(5) by (auto simp: frame_of_base)
  have "jb_queue (ut_audioJitter t1) = []" using t1(2) t(7) by (simp add: same_setup_def)
  from pass_alive [OF t1(1) this, of av ao "vr_env rd"] j(1) obtain t2 where t2: "alive (ct_pass av ao (vr_env rd) ?s1) t2" "same_setup t1 t2"
    "ut_video t2 = ut_video t1" "ut_videoJitter t2 = j" "ct_polled (vr_env rd) ?s1 = [?f]" by auto
  have "same_setup t t2" using same_setup_trans [OF t1(2) t2(2)] .
  moreover from this have "ut_videoTargetMs t2 = ms" "jb_queue (ut_audioJitter t2) = []" using t(3,7) by (simp_all add: same_setup_def)
  moreover have "ra_highestStarted (ut_video t2) \<le> n + 1" using t1(4) t2(3) up(2) by simp
  ultimately have "waiting sid src ms (n + 1) (ct_pass av ao (vr_env rd) ?s1)"
    unfolding waiting_def using t2 t1(3) j same_setup_accepts [OF _ t(2)] up(3) by (intro exI [of _ t2]) (simp add: fresh_def)
  moreover have "run_out (ct_step av ao ops) (map (\<lambda>k. CtDatagram (vr_arrive rd) (dgs ! k) src) ?ks @ [CtPass (vr_env rd)]) s =
      (ct_pass av ao (vr_env rd) ?s1, [?f])"
    unfolding run_out_append r Let_def using t2(5) by (simp del: fold.simps fold_append add: fold_append [symmetric])
  ultimately show ?thesis by blast
qed

lemma many_rounds:
  assumes "waiting sid src ms n s" and "sending sid n th" and "list_all (round_ok ms) rds" and "unat n + length rds < 2 ^ 63"
  shows "map (\<lambda>f. (af_keyframe f, af_data f, af_timestampNs f)) (snd (run_out (ct_step av ao ops) (video_events hops src rds th) s)) =
    map (\<lambda>rd. (vr_key rd, vr_data rd, vr_ts rd)) rds"
  using assms
proof (induction rds arbitrary: n s th)
  case (Cons rd rds)
  have rd: "round_ok ms rd" "list_all (round_ok ms) rds" using Cons.prems(3) by simp_all
  then have ok: "Reassembly.frame_fits (vr_data rd)" "vr_data rd \<noteq> []" by (simp_all add: round_ok_def)
  obtain th' dgs where h: "host_frame hops rd th = (th', dgs)" by force
  have dgs: "dgs = map (video_datagram (vr_key rd) (vr_data rd) (vr_ts rd) sid n) [0..<frag_count (vr_data rd)]" and th': "sending sid (n + 1) th'"
    using host_frame_plain [OF Cons.prems(2) ok, of hops] h by simp_all
  have n: "n < 2 ^ 63" "unat (n + 1) = unat n + 1" using Cons.prems(4) by (simp_all add: word_less_nat_alt unat_word_ariths)
  obtain s' where s': "run_out (ct_step av ao ops) (map (\<lambda>k. CtDatagram (vr_arrive rd) (dgs ! k) src) (vr_order rd @ [vr_last rd]) @ [CtPass (vr_env rd)]) s =
      (s', [frame_of (video_base (vr_key rd) (vr_data rd) (vr_ts rd) sid n) (vr_data rd)])" "waiting sid src ms (n + 1) s'"
    using one_round [OF Cons.prems(1) rd(1) n(1), of dgs av ao ops] by (auto simp: dgs)
  have "snd (run_out (ct_step av ao ops) (es @ fs) s) = f # snd (run_out (ct_step av ao ops) fs s')"
    if "run_out (ct_step av ao ops) es s = (s', [f])" for es fs f
    using that by (simp add: run_out_append Let_def case_prod_beta)
  note step = this [OF s'(1)]
  have "video_events hops src (rd # rds) th =
      (map (\<lambda>k. CtDatagram (vr_arrive rd) (dgs ! k) src) (vr_order rd @ [vr_last rd]) @ [CtPass (vr_env rd)]) @ video_events hops src rds th'"
    by (simp add: h)
  then have "snd (run_out (ct_step av ao ops) (video_events hops src (rd # rds) th) s) =
      frame_of (video_base (vr_key rd) (vr_data rd) (vr_ts rd) sid n) (vr_data rd) # snd (run_out (ct_step av ao ops) (video_events hops src rds th') s')"
    by (simp only: step)
  then show ?case using Cons.IH [OF s'(2) th' rd(2)] Cons.prems(4) n(2) by (simp add: frame_of_base)
qed simp

lemma pings_setup: "same_setup t (fst (startPings now ms t)) \<and> ut_video (fst (startPings now ms t)) = ut_video t"
  by (simp add: same_setup_def startPings_def sendPingOnce_def relay_fallback_def sendSmall_def next_seq_def Let_def split: option.split)

lemma small_setup: "same_setup t (fst (sendSmall now ty dat t)) \<and> ut_video (fst (sendSmall now ty dat t)) = ut_video t"
  by (simp add: same_setup_def sendSmall_def next_seq_def Let_def)

lemma started_transport:
  assumes "ct_start av ao env host port sid codec crypto ClientStreamer_new = (s, True)"
  obtains t ep where "alive s t" "same_setup (setPeer ep (UdpTransport_new\<lparr>ut_sessionId := sid, ut_secure := crypto, ut_hasSocket := True, ut_running := True\<rparr>)) t"
    "ut_video t = FragmentReassembler_new UdpType_Video" "ut_videoJitter t = JitterBuffer_new 30"
proof -
  from assms obtain ep where ep: "cb_peer env = Some ep" "cb_bound env"
    by (auto simp: ct_start_def ClientStreamer_new_def Let_def ut_bind_def split: if_splits option.splits prod.splits bool.splits)
  let ?t0 = "setPeer ep (UdpTransport_new\<lparr>ut_sessionId := sid, ut_secure := crypto, ut_hasSocket := True, ut_running := True\<rparr>)"
  let ?t1 = "fst (sendSmall (cb_nowNs env) UdpType_StreamStart [0] ?t0)"
  let ?t2 = "fst (requestKeyframe (cb_nowNs env) ?t1)"
  let ?t3 = "fst (startPings (cb_nowNs env) 1000 ?t2)"
  have b: "ut_bind True (UdpTransport_new\<lparr>ut_sessionId := sid, ut_secure := crypto\<rparr>) =
      (UdpTransport_new\<lparr>ut_sessionId := sid, ut_secure := crypto, ut_hasSocket := True, ut_running := True\<rparr>, True)"
    by (simp add: ut_bind_def ut_stop_def Let_def)
  have "alive s ?t3"
    using assms ep
    by (auto simp: ct_start_def ClientStreamer_new_def b Let_def alive_def split: if_splits option.splits prod.splits bool.splits)
  moreover have "same_setup ?t0 ?t1" "same_setup ?t1 ?t2" "same_setup ?t2 ?t3" "ut_video ?t3 = ut_video ?t0"
    by (simp_all only: small_setup pings_setup requestKeyframe_def)
  moreover have "ut_videoJitter ?t3 = ut_videoJitter ?t0" by simp
  ultimately show ?thesis using that [of ?t3 ep, OF _ same_setup_trans [OF same_setup_trans]] by (simp add: UdpTransport_new_def setPeer_def)
qed

lemma started_waiting:
  assumes "ct_start av ao env host port sid codec None ClientStreamer_new = (s, True)"
  shows "waiting sid src 30 n s"
proof -
  obtain t ep where t: "alive s t" "same_setup (setPeer ep (UdpTransport_new\<lparr>ut_sessionId := sid, ut_secure := None, ut_hasSocket := True, ut_running := True\<rparr>)) t"
    "ut_video t = FragmentReassembler_new UdpType_Video" "ut_videoJitter t = JitterBuffer_new 30" by (rule started_transport [OF assms])
  then show ?thesis unfolding waiting_def
    by (intro exI [of _ t])
      (simp add: accepts_def same_setup_def unknown_remote_def fresh_def JitterBuffer_new_def FragmentReassembler_new_def, simp add: setPeer_def UdpTransport_new_def JitterBuffer_new_def)
qed

section \<open>Properties\<close>

text \<open>C11: The unencrypted video path, end to end, on a network that loses nothing and keeps frames apart.
  The host's transport sends any number of nonempty frames of at most 1024 fragments each; the datagrams
  of a frame arrive before those of the next, all of them, in any order and with repetitions before the
  last new one; and a pass of the decode loop follows at least the buffer's 30 ms after each frame. Then,
  whatever the codec answers, the packets it receives are exactly those of the frames sent: each once, in
  order, with the frame's data, its time stamp in microseconds and its keyframe mark.\<close>

theorem video_reaches_decoder:
  assumes "ct_start (recorded av) ao env host port sid codec None ClientStreamer_new = (s, True)" and "sending sid n th"
    and "list_all (round_ok 30) rds" and "unat n + length rds < 2 ^ 63"
  shows "streamer_saw (fst (run_out (ct_step (recorded av) ao ops) (video_events hops src rds th) s)) =
    map (\<lambda>rd. packet_for (vr_data rd) (vr_ts rd div 1000) (vr_key rd)) rds"
proof -
  let ?fs = "snd (run_out (ct_step (recorded av) ao ops) (video_events hops src rds th) s)"
  note m = many_rounds [OF started_waiting [OF assms(1)] assms(2-4), of "recorded av" ao ops hops src]
  have "(\<lambda>(k, d, ts). d) ` set (map (\<lambda>f. (af_keyframe f, af_data f, af_timestampNs f)) ?fs) = vr_data ` set rds"
    unfolding m by (simp add: image_image)
  then have "af_data ` set ?fs = vr_data ` set rds" by (simp add: image_image)
  moreover have "[] \<notin> vr_data ` set rds" using assms(3) by (auto simp: list_all_iff round_ok_def)
  ultimately have ne: "filter (\<lambda>f. af_data f \<noteq> []) ?fs = ?fs" by (metis (mono_tags, lifting) filter_True image_eqI)
  have "map frame_packet ?fs = map (\<lambda>(k, d, ts). packet_for d (ts div 1000) k) (map (\<lambda>f. (af_keyframe f, af_data f, af_timestampNs f)) ?fs)"
    by simp
  also have "\<dots> = map (\<lambda>rd. packet_for (vr_data rd) (vr_ts rd div 1000) (vr_key rd)) rds" unfolding m by simp
  finally show ?thesis using run_saw [OF started_saw(1) [OF assms(1)], of av ao ops] started_saw(2) [OF assms(1)] ne by simp
qed

definition demo_round :: video_round where
  "demo_round = \<lparr>vr_key = True, vr_data = replicate 1500 7, vr_ts = 9, vr_order = [1, 1], vr_last = 0, vr_arrive = 100,
     vr_env = demo_pass\<rparr>"

definition demo_host :: "unit UdpTransport" where
  "demo_host = UdpTransport_new\<lparr>ut_running := True, ut_hasSocket := True, ut_havePeer := True, ut_sessionId := 7\<rparr>"

lemma demo_round_ok: "round_ok 30 demo_round"
proof -
  have n: "frag_count (replicate 1500 (7 :: u8)) = 2" by (simp add: frag_count_def fragmentCountFor_def kMaxUdpPayload_def)
  have "insert 0 (set [1, 1]) = {..<2 :: nat}" by auto
  then show ?thesis
    by (simp add: round_ok_def demo_round_def complete_order_def n Reassembly.frame_fits_def kMaxFragments_def kMaxUdpPayload_def demo_pass_def)
qed

theorem video_reaches_decoder_witness:
  "streamer_saw (fst (run_out (ct_step (recorded demo_codec) demo_opus plain_sink)
       (video_events plain_sink (''10.0.0.2'', 40000) [demo_round, demo_round\<lparr>vr_key := False, vr_ts := 40000\<rparr>] demo_host) watched)) =
     [packet_for (replicate 1500 7) 0 True, packet_for (replicate 1500 7) 40 False]"
proof -
  have h: "sending 7 0 demo_host" by (simp add: sending_def demo_host_def UdpTransport_new_def)
  have "round_ok 30 (demo_round\<lparr>vr_key := False, vr_ts := 40000\<rparr>)" using demo_round_ok by (simp add: round_ok_def)
  then show ?thesis
    by (subst video_reaches_decoder [OF watched_start h]) (simp_all add: demo_round_ok, simp_all add: demo_round_def)
qed

section \<open>With encryption\<close>

text \<open>What an authenticated cipher documents of its associated data: nothing opens under data that differ from those it was
  sealed with. The channel passes the first 30 bytes of the header, whose flags are at position 4.\<close>

definition binds_flags :: "Cng \<Rightarrow> bool" where
  "binds_flags cng \<longleftrightarrow> (\<forall>k n a p ct tag k' n' a'. aesGcmEncrypt cng k n p a = Some (ct, tag) \<and> a ! 4 \<noteq> a' ! 4 \<longrightarrow>
     aesGcmDecrypt cng k' n' ct a' tag = None)"

definition host_sent :: "Cng \<Rightarrow> bytes \<Rightarrow> bool" where
  "host_sent cng buf \<longleftrightarrow> (\<exists>th c rd. ut_secure th = Some c \<and> Reassembly.frame_fits (vr_data rd) \<and> vr_data rd \<noteq> [] \<and>
     buf \<in> set (snd (host_frame (sc_ops cng) rd th)))"

lemma wire_sealed:
  assumes "ut_secure th = Some c" and "buf \<in> set (snd (wire (sc_ops cng) posts th))"
  shows "\<exists>dg c1 out. PostDatagram dg \<in> set posts \<and> snd (sc_seal cng dg (drop kUdpHeaderSize dg) c1) = Some out \<and> buf = sealed_datagram dg out"
  using assms
proof (induction "sc_ops cng" posts th arbitrary: c rule: wire.induct)
  case (2 dg os t)
  obtain t1 sent where s: "sendPosted (sc_ops cng) True dg t = (t1, sent)" by force
  from sc.sendPosted_cases [OF 2(2) s]
  have t1: "\<exists>c'. ut_secure t1 = Some c'" and sent: "\<And>x. x \<in> set sent \<Longrightarrow>
      \<exists>out. snd (sc_seal cng dg (drop kUdpHeaderSize dg) c) = Some out \<and> sent_bytes x = sealed_datagram dg out"
    using 2(2) by (auto simp: count_sent_def sc_ops_def)
  obtain c' where c': "ut_secure t1 = Some c'" using t1 by blast
  show ?case
  proof (cases "buf \<in> sent_bytes ` set sent")
    case True
    then show ?thesis using sent by fastforce
  next
    case False
    then have "buf \<in> set (snd (wire (sc_ops cng) os t1))" using 2(3) s by (auto simp: case_prod_beta)
    with 2(1) [OF s [symmetric] c'] show ?thesis by auto
  qed
qed auto

lemma host_sent_sealed:
  assumes "host_sent cng buf"
  obtains dg c out h where "decodeUdpHeader dg = Some h" "\<not> hasFlag (uh_flags h) UdpFlag_Encrypted"
    "snd (sc_seal cng dg (drop kUdpHeaderSize dg) c) = Some out" "buf = sealed_datagram dg out" "length dg \<le> 64 * 1024"
proof -
  obtain th c rd where th: "ut_secure th = Some c" "Reassembly.frame_fits (vr_data rd)" "vr_data rd \<noteq> []"
    "buf \<in> set (snd (host_frame (sc_ops cng) rd th))" using assms by (auto simp: host_sent_def)
  obtain th1 posts where p: "sendFrame UdpType_Video (vr_key rd) (vr_data rd) (vr_ts rd) th = (th1, posts)" by force
  then have th1: "ut_secure th1 = Some c" using th(1) by (auto simp: sendFrame_def next_seq_def Let_def split: if_splits)
  have "buf \<in> set (snd (wire (sc_ops cng) posts th1))" using th(4) p by (simp add: host_frame_def)
  from wire_sealed [OF th1 this] obtain dg c1 out where dg: "PostDatagram dg \<in> set posts"
    "snd (sc_seal cng dg (drop kUdpHeaderSize dg) c1) = Some out" "buf = sealed_datagram dg out" by blast
  then obtain k sq where k: "k < frag_count (vr_data rd)" "dg = video_datagram (vr_key rd) (vr_data rd) (vr_ts rd) (ut_sessionId th) sq k"
    using p by (auto simp: sendFrame_def next_seq_def Let_def frag_count_def split: if_splits)
  have e: "dg = encodeUdpHeader (frag_header (video_base (vr_key rd) (vr_data rd) (vr_ts rd) (ut_sessionId th) sq) (vr_data rd) k) @ frag_slice (vr_data rd) k"
    unfolding k(2) by (rule frame_datagram_eq [OF th(2,3) k(1)])
  have "decodeUdpHeader dg = Some (frag_header (video_base (vr_key rd) (vr_data rd) (vr_ts rd) (ut_sessionId th) sq) (vr_data rd) k)"
    unfolding e by (rule decode_frag [OF th(2,3) k(1) video_not_control(4)])
  moreover have "length dg \<le> 64 * 1024"
    unfolding e using length_frag_slice(2) [OF th(2,3) k(1)] by (simp add: kMaxUdpPayload_def kUdpHeaderSize_def)
  ultimately show ?thesis using that dg(2,3) frame_base_plain by simp
qed

lemma header_flags: "(encodeUdpHeader h @ r) ! 4 = uh_flags h"
  using arg_cong [where f = uh_flags, OF parse_fields_encode [of h r]] by (simp add: parse_fields_def)

lemma sealed_refused:
  assumes law: "binds_flags cng" "cng_gcm_correct cng" and sent: "host_sent cng buf" and dec: "decodeUdpHeader buf = Some h"
  shows "snd (sc_open cng buf (take (unat (uh_payloadSize h)) (drop kUdpHeaderSize buf)) c) = None"
proof -
  obtain dg c1 out h0 where dg: "decodeUdpHeader dg = Some h0" "\<not> hasFlag (uh_flags h0) UdpFlag_Encrypted"
    "snd (sc_seal cng dg (drop kUdpHeaderSize dg) c1) = Some out" "buf = sealed_datagram dg out" "length dg \<le> 64 * 1024"
    by (rule host_sent_sealed [OF sent])
  let ?h = "h0\<lparr>uh_flags := uh_flags h0 OR UdpFlag_Encrypted, uh_payloadSize := of_nat (length out)\<rparr>"
  have b: "buf = encodeUdpHeader ?h @ out" using dg(4) by (simp add: sealed_datagram_def Let_def decoded_into_ok [OF dg(1)])
  obtain ct tag n where e: "aesGcmEncrypt cng (sc_sendKey c1) n (le_put 8 (sc_sendCounter c1) @ drop kUdpHeaderSize dg) (sc_aad dg) = Some (ct, tag)"
    "out = ct @ tag"
    using dg(3) by (auto simp: sc_seal_def Let_def split: if_splits option.splits)
  then have len: "length ct = 8 + (length dg - kUdpHeaderSize)" "length tag = kGcmTagBytes"
    using law(2) by (auto simp: cng_gcm_correct_def aesGcmEncrypt_def)
  obtain rest where "dg = encodeUdpHeader h0 @ rest" using dg(1) by (auto simp: decodeUdpHeader_iff)
  moreover have aad: "sc_aad x ! 4 = x ! 4" for x by (simp add: sc_aad_def)
  ultimately have f0: "sc_aad dg ! 4 = uh_flags h0" using header_flags by simp
  have f1: "sc_aad buf ! 4 = uh_flags h0 OR UdpFlag_Encrypted" using header_flags [of ?h out] b aad by simp
  have ne: "uh_flags h0 OR UdpFlag_Encrypted \<noteq> uh_flags h0"
  proof
    assume "uh_flags h0 OR UdpFlag_Encrypted = uh_flags h0"
    then have "uh_flags h0 AND UdpFlag_Encrypted = (uh_flags h0 OR UdpFlag_Encrypted) AND UdpFlag_Encrypted" by simp
    also have "\<dots> = UdpFlag_Encrypted" by (rule or_and_absorb)
    finally show False using dg(2) by (simp add: hasFlag_def UdpFlag_Encrypted_def)
  qed
  have no: "aesGcmDecrypt cng k n' ct (sc_aad buf) tag = None" for k n'
    using law(1) e(1) f0 f1 ne unfolding binds_flags_def by metis
  have "h = ?h" using dec parse_fields_encode [of ?h out] b by (auto simp: decodeUdpHeader_def Let_def split: if_splits)
  moreover have "length out < 65536" using len e(2) dg(5) by (simp add: kGcmTagBytes_def kUdpHeaderSize_def)
  ultimately have "take (unat (uh_payloadSize h)) (drop kUdpHeaderSize buf) = out"
    using b by (simp add: unat_of_nat_u16)
  then have p: "take (unat (uh_payloadSize h)) (drop kUdpHeaderSize buf) = ct @ tag" using e(2) by simp
  show ?thesis unfolding p using len(2) no by (simp add: sc_open_def Let_def)
qed

text \<open>While the channel refuses everything the host sends, nothing reaches the jitter buffer.\<close>

definition starved :: "(SecureChannel, 'd, 'a) ClientStreamer \<Rightarrow> bool" where
  "starved s \<longleftrightarrow> (\<forall>t. ct_transport s = Some t \<longrightarrow> jb_queue (ut_videoJitter t) = [] \<and> (\<exists>c. ut_secure t = Some c \<and> sc_active c))"

lemma refused_datagram:
  assumes "ut_secure t = Some c" "sc_active c" and r: "\<And>h. decodeUdpHeader buf = Some h \<Longrightarrow>
      snd (sc_open cng buf (take (unat (uh_payloadSize h)) (drop kUdpHeaderSize buf)) c) = None"
  shows "\<exists>t' os c'. handleDatagram (sc_ops cng) now buf src t = Inr (t', os) \<and> ut_videoJitter t' = ut_videoJitter t \<and> ut_secure t' = Some c' \<and> sc_active c'"
proof (cases "decodeUdpHeader buf")
  case None
  then show ?thesis using assms(1,2) by (simp add: handleDatagram_def Let_def)
next
  case (Some h)
  let ?t = "t\<lparr>ut_recvDatagrams := ut_recvDatagrams t + 1, ut_recvBytes := ut_recvBytes t + of_nat (length buf), ut_lastRxAbsNs := now\<rparr>"
  obtain c' where o: "sc_open cng buf (take (unat (uh_payloadSize h)) (drop kUdpHeaderSize buf)) c = (c', None)"
    using r [OF Some] by (metis prod.collapse)
  then have "sc_active c'" using sc.open_active [of cng buf _ c] assms(2) by (metis sc_ops_def UdpCryptoSink.select_convs(1,3) fst_conv)
  then have "\<exists>t' c'. clear_payload (sc_ops cng) buf h ?t = (t', None) \<and> ut_videoJitter t' = ut_videoJitter t \<and> ut_secure t' = Some c' \<and> sc_active c'"
    using assms(1,2) o by (auto simp: clear_payload_def authDrop_def sc_ops_def Let_def)
  then show ?thesis using Some assms(1,2) by (auto simp: handleDatagram_def Let_def)
qed

lemma starved_step:
  assumes law: "binds_flags cng" "cng_gcm_correct cng" and st: "starved s"
    and e: "\<And>now buf src. e = CtDatagram now buf src \<Longrightarrow> host_sent cng buf"
  shows "starved (fst (ct_step av ao (sc_ops cng) e s)) \<and> snd (ct_step av ao (sc_ops cng) e s) = []"
proof (cases "ct_transport s")
  case None
  then show ?thesis using st
    by (cases e) (auto simp: starved_def ct_pass_def ct_polled_def ct_datagram_def setHostEndpoint_def setVideoJitterTargetMs_def split: option.split)
next
  case (Some t)
  then obtain c where c: "jb_queue (ut_videoJitter t) = []" "ut_secure t = Some c" "sc_active c" using st by (auto simp: starved_def)
  show ?thesis
  proof (cases e)
    case (CtPass env)
    have p: "pollVideo now t = (t, [])" for now using c(1) by (simp add: pollVideo_def pop_empty)
    have sec: "ut_secure (fst (requestKeyframe now x)) = ut_secure x" "ut_secure (fst (pollAudio now x)) = ut_secure x" for now and x :: "SecureChannel UdpTransport"
      by (simp_all add: requestKeyframe_def sendSmall_def next_seq_def pollAudio_def Let_def case_prod_beta)
    show ?thesis using CtPass Some c p
      by (auto simp: starved_def ct_pass_def ct_polled_def ct_video_def ct_watchdog_def ct_audio_transport sec Let_def case_prod_beta split: option.splits if_splits)
  next
    case (CtDatagram now buf src)
    have "snd (sc_open cng buf (take (unat (uh_payloadSize h)) (drop kUdpHeaderSize buf)) c) = None" if "decodeUdpHeader buf = Some h" for h
      by (rule sealed_refused [OF law e [OF CtDatagram] that])
    from refused_datagram [OF c(2,3) this, of now src] show ?thesis
      using CtDatagram Some c(1) by (auto simp: starved_def ct_datagram_def)
  qed (use Some c in \<open>auto simp: starved_def setHostEndpoint_def setVideoJitterTargetMs_def setPeer_def split: option.split\<close>)
qed

text \<open>C13: With encryption no video ever arrives. Once both sides have an active channel, and although they hold the same
  keys, no datagram the host sends is accepted by the client: the encrypted mark is set in the header after
  the header was authenticated. Whatever the host sends, in whatever order it arrives, no frame is ever handed to the
  client's decoder.\<close>

theorem encrypted_video_never_arrives:
  assumes "binds_flags cng" "cng_gcm_correct cng" and "ct_start av ao env host port sid codec (Some c) ClientStreamer_new = (s, True)" "sc_active c"
    and "\<forall>now buf src. CtDatagram now buf src \<in> set es \<longrightarrow> host_sent cng buf"
  shows "snd (run_out (ct_step av ao (sc_ops cng)) es s) = []"
proof -
  obtain t ep where "alive s t" "same_setup (setPeer ep (UdpTransport_new\<lparr>ut_sessionId := sid, ut_secure := Some c, ut_hasSocket := True, ut_running := True\<rparr>)) t"
    "ut_videoJitter t = JitterBuffer_new 30" by (rule started_transport [OF assms(3)])
  then have "starved s" using assms(4) by (simp add: starved_def alive_def same_setup_def setPeer_def JitterBuffer_new_def)
  then show ?thesis using assms(5)
  proof (induction es arbitrary: s)
    case (Cons e es)
    have "host_sent cng buf" if "e = CtDatagram now buf src" for now buf src using Cons.prems(2) that by (metis list.set_intros(1))
    then have "starved (fst (ct_step av ao (sc_ops cng) e s)) \<and> snd (ct_step av ao (sc_ops cng) e s) = []"
      using starved_step [OF assms(1,2) Cons.prems(1)] by blast
    moreover have "\<forall>now buf src. CtDatagram now buf src \<in> set es \<longrightarrow> host_sent cng buf" using Cons.prems(2) by (metis list.set_intros(2))
    ultimately show ?case using Cons.IH by (simp add: case_prod_beta Let_def)
  qed simp
qed

text \<open>A cipher whose tag is the authenticated flags binds them.\<close>

definition binding_cng :: Cng where
  "binding_cng = demo_cng\<lparr>cng_encrypt := (\<lambda>k n a p. Some (map (\<lambda>b. b + 1) p, replicate 16 (a ! 4))),
     cng_decrypt := (\<lambda>k n a c t. if t = replicate 16 (a ! 4) then Some (map (\<lambda>b. b - 1) c) else None)\<rparr>"

definition keyed :: SecureChannel where
  "keyed = SecureChannel_new\<lparr>sc_active := True, sc_sendKey := replicate 32 1, sc_recvKey := replicate 32 1\<rparr>"

definition small_round :: video_round where
  "small_round = demo_round\<lparr>vr_data := [1, 2, 3], vr_order := []\<rparr>"

definition sealing_host :: "SecureChannel UdpTransport" where
  "sealing_host = UdpTransport_new\<lparr>ut_running := True, ut_hasSocket := True, ut_havePeer := True, ut_sessionId := 7, ut_secure := Some keyed\<rparr>"

definition sealed_frame :: "bytes list" where
  "sealed_frame = snd (host_frame (sc_ops binding_cng) small_round sealing_host)"

definition keyed_client :: "(SecureChannel, bool \<times> AvPicture list, unit) ClientStreamer" where
  "keyed_client = fst (ct_start demo_codec demo_opus demo_start ''10.0.0.2'' 40000 7 H264 (Some keyed) ClientStreamer_new)"

lemma binding_cng_ok: "binds_flags binding_cng" "cng_gcm_correct binding_cng"
proof -
  have "replicate 16 x \<noteq> replicate 16 y" if "x \<noteq> y" for x y :: u8 using that by (simp add: replicate_eq_replicate)
  then show "binds_flags binding_cng" unfolding binds_flags_def aesGcmEncrypt_def aesGcmDecrypt_def binding_cng_def by simp
  show "cng_gcm_correct binding_cng" by (simp add: cng_gcm_correct_def binding_cng_def kGcmTagBytes_def comp_def)
qed

lemma keyed_client_start:
  "ct_start demo_codec demo_opus demo_start ''10.0.0.2'' 40000 7 H264 (Some keyed) ClientStreamer_new = (keyed_client, True)"
proof -
  have "snd (ct_start demo_codec demo_opus demo_start ''10.0.0.2'' 40000 7 H264 (Some keyed) ClientStreamer_new) = True" by code_simp
  then show ?thesis by (simp add: keyed_client_def prod_eq_iff)
qed

theorem encrypted_video_never_arrives_witness:
  "length sealed_frame = 1 \<and> snd (run_out (ct_step demo_codec demo_opus (sc_ops binding_cng))
     (map (\<lambda>b. CtDatagram 100 b (''10.0.0.2'', 40000)) sealed_frame @ [CtPass demo_pass]) keyed_client) = []"
proof
  have "Reassembly.frame_fits (vr_data small_round)" "vr_data small_round \<noteq> []"
    by (simp_all add: small_round_def Reassembly.frame_fits_def kMaxFragments_def kMaxUdpPayload_def)
  moreover have "ut_secure sealing_host = Some keyed" by (simp add: sealing_host_def)
  ultimately have "host_sent binding_cng b" if "b \<in> set sealed_frame" for b
    using that unfolding host_sent_def sealed_frame_def by blast
  then show "snd (run_out (ct_step demo_codec demo_opus (sc_ops binding_cng))
      (map (\<lambda>b. CtDatagram 100 b (''10.0.0.2'', 40000)) sealed_frame @ [CtPass demo_pass]) keyed_client) = []"
    by (intro encrypted_video_never_arrives [OF binding_cng_ok keyed_client_start]) (auto simp: keyed_def)
  show "length sealed_frame = 1"
    by (simp add: sealed_frame_def host_frame_def sendFrame_def small_round_def demo_round_def sealing_host_def UdpTransport_new_def
        fragmentCountFor_def kMaxUdpPayload_def next_seq_def sendPosted_def count_sent_def sc_ops_def sc_seal_def keyed_def
        SecureChannel_new_def aesGcmEncrypt_def binding_cng_def frame_datagram_def Let_def)
qed

end
