(* ===== verification/UdpSocket.thy ===== *)
theory UdpSocket
  imports UdpTransport
begin

text \<open>
  The io thread of \<^verbatim>\<open>networking/UdpTransport.cpp\<close>: resolving the peer's name, the receive loop and its end, and the setters of
  the header. A receive in flight is \<open>uk_receiving\<close>; its completion is an event with what asio reports. A callback may stop
  the transport while a datagram is handled. Once the reassembler has faulted the process is gone.

  The theorem: whatever arrives and whatever fails, a receive is in flight exactly while the transport runs, and the
  datagram counter counts what was received.
\<close>

section \<open>Setters and the peer's name\<close>

definition setSessionId :: "u32 \<Rightarrow> 'c UdpTransport \<Rightarrow> 'c UdpTransport" where
  "setSessionId sid t = t\<lparr>ut_sessionId := sid\<rparr>"

definition setAudioJitterTargetMs :: "u32 \<Rightarrow> 'c UdpTransport \<Rightarrow> 'c UdpTransport" where
  "setAudioJitterTargetMs ms t = t\<lparr>ut_audioTargetMs := ms\<rparr>"

definition setAutoKeyframeRequest :: "bool \<Rightarrow> 'c UdpTransport \<Rightarrow> 'c UdpTransport" where
  "setAutoKeyframeRequest enabled t = t\<lparr>ut_autoKeyframe := enabled\<rparr>"

definition setDropUnknownRemote :: "bool \<Rightarrow> 'c UdpTransport \<Rightarrow> 'c UdpTransport" where
  "setDropUnknownRemote drp t = t\<lparr>ut_dropUnknownRemote := drp\<rparr>"

definition setCryptoSink :: "'c option \<Rightarrow> 'c UdpTransport \<Rightarrow> 'c UdpTransport" where
  "setCryptoSink sink t = t\<lparr>ut_secure := sink\<rparr>"

text \<open>The resolver lives in the \<^verbatim>\<open>io_context\<close>, which is there together with the socket: without it the null pointer is
  dereferenced (\<open>None\<close>). The resolver throws, finds nothing, or finds endpoints of which the first is taken.\<close>

definition setPeer_host :: "endpoint list option \<Rightarrow> 'c UdpTransport \<Rightarrow> ('c UdpTransport \<times> bool) option" where
  "setPeer_host resolved t =
     (if \<not> ut_hasSocket t then None
      else case resolved of
        None \<Rightarrow> Some (t, False)
      | Some [] \<Rightarrow> Some (t, False)
      | Some (ep # _) \<Rightarrow> Some (setPeer ep t, True))"

section \<open>The receive loop\<close>

record 'c UdpSocket =
  uk_transport :: "'c UdpTransport"
  uk_receiving :: bool
  uk_fault :: "feed_fault option"

datatype recv_result = RecvAborted | RecvError | Received bytes endpoint

definition UdpSocket_new :: "'c UdpSocket" where
  "UdpSocket_new = \<lparr>uk_transport = UdpTransport_new, uk_receiving = False, uk_fault = None\<rparr>"

definition doReceive :: "'c UdpSocket \<Rightarrow> 'c UdpSocket" where
  "doReceive u = (if \<not> ut_hasSocket (uk_transport u) \<or> \<not> ut_running (uk_transport u) then u else u\<lparr>uk_receiving := True\<rparr>)"

definition runIo :: "'c UdpSocket \<Rightarrow> 'c UdpSocket" where
  "runIo u = doReceive u"

fun is_callback :: "ut_output \<Rightarrow> bool" where
  "is_callback (InputCb f) = True"
| "is_callback (ControlCb ty p) = True"
| "is_callback _ = False"

text \<open>\<open>stops\<close>: whether the callback, when one is called, stops the transport.\<close>

definition onReceive ::
  "'c UdpCryptoSink \<Rightarrow> u64 \<Rightarrow> bool \<Rightarrow> recv_result \<Rightarrow> 'c UdpSocket \<Rightarrow> 'c UdpSocket \<times> ut_output list" where
  "onReceive ops now stops res u =
     (let u = u\<lparr>uk_receiving := False\<rparr>; t = uk_transport u in
      if res = RecvAborted \<or> \<not> ut_running t then (u, [])
      else case res of
        Received buf src \<Rightarrow>
          (case handleDatagram ops now buf src t of
             Inl e \<Rightarrow> (u\<lparr>uk_fault := Some e\<rparr>, [])
           | Inr (t', os) \<Rightarrow>
               (doReceive (u\<lparr>uk_transport := (if stops \<and> (\<exists>x \<in> set os. is_callback x) then ut_stop_on_io t' else t')\<rparr>), os))
      | _ \<Rightarrow> (doReceive u, []))"

text \<open>Calls of the other threads that leave the loop alone: sending, polling, pings and the setters.\<close>

datatype uk_call =
    KSendFrame UdpType bool bytes u64
  | KSendSmall u64 UdpType bytes
  | KPollVideo u64
  | KPollAudio u64
  | KStartPings u64 u32
  | KPingTimer bool u64
  | KStopPings
  | KPunch bool endpoint
  | KRelayBind bool string
  | KSetPeer endpoint
  | KLock endpoint
  | KSessionId u32
  | KAudioTarget u32
  | KAutoKeyframe bool
  | KDropUnknown bool

fun do_call :: "uk_call \<Rightarrow> 'c UdpTransport \<Rightarrow> 'c UdpTransport \<times> ut_output list" where
  "do_call (KSendFrame ty key dat ts) t = sendFrame ty key dat ts t"
| "do_call (KSendSmall now ty dat) t = sendSmall now ty dat t"
| "do_call (KPollVideo now) t = (fst (pollVideo now t), [])"
| "do_call (KPollAudio now) t = (fst (pollAudio now t), [])"
| "do_call (KStartPings now ms) t = startPings now ms t"
| "do_call (KPingTimer failed now) t = onPingTimer failed now t"
| "do_call KStopPings t = (stopPings t, [])"
| "do_call (KPunch sent ep) t = sendPunch sent ep t"
| "do_call (KRelayBind sent token) t = sendRelayBind sent token t"
| "do_call (KSetPeer ep) t = (setPeer ep t, [])"
| "do_call (KLock ep) t = (lockToRemote ep t, [])"
| "do_call (KSessionId sid) t = (setSessionId sid t, [])"
| "do_call (KAudioTarget ms) t = (setAudioJitterTargetMs ms t, [])"
| "do_call (KAutoKeyframe b) t = (setAutoKeyframeRequest b t, [])"
| "do_call (KDropUnknown b) t = (setDropUnknownRemote b t, [])"

datatype uk_event =
    UkBind bool
  | UkStop
  | UkReceive u64 bool recv_result
  | UkSendDone bool bytes
  | UkCall uk_call

text \<open>A completion only arrives for a receive in flight, and asio reports an aborted one only after the socket was closed.
  \<open>stop\<close> closes the socket and joins the io thread.\<close>

fun uk_step :: "'c UdpCryptoSink \<Rightarrow> uk_event \<Rightarrow> 'c UdpSocket \<Rightarrow> 'c UdpSocket \<times> ut_output list" where
  "uk_step ops (UkBind ok) u =
     (if uk_fault u \<noteq> None then (u, [])
      else case ut_bind ok (uk_transport u) of
        (t, True) \<Rightarrow> (runIo (u\<lparr>uk_transport := t, uk_receiving := False\<rparr>), [])
      | (t, False) \<Rightarrow> (u\<lparr>uk_transport := t, uk_receiving := False\<rparr>, []))"
| "uk_step ops UkStop u =
     (if uk_fault u \<noteq> None then (u, []) else (u\<lparr>uk_transport := ut_stop (uk_transport u), uk_receiving := False\<rparr>, []))"
| "uk_step ops (UkReceive now stops res) u =
     (if uk_fault u \<noteq> None \<or> \<not> uk_receiving u \<or> (res = RecvAborted \<and> ut_running (uk_transport u)) then (u, [])
      else onReceive ops now stops res u)"
| "uk_step ops (UkSendDone sent dg) u =
     (if uk_fault u \<noteq> None then (u, [])
      else case sendPosted ops sent dg (uk_transport u) of (t, os) \<Rightarrow> (u\<lparr>uk_transport := t\<rparr>, os))"
| "uk_step ops (UkCall c) u =
     (if uk_fault u \<noteq> None then (u, [])
      else case do_call c (uk_transport u) of (t, os) \<Rightarrow> (u\<lparr>uk_transport := t\<rparr>, os))"

section \<open>The loop runs exactly while the transport does\<close>

definition loop_state :: "'c UdpTransport \<Rightarrow> bool \<times> bool \<times> u64" where
  "loop_state t = (ut_running t, ut_hasSocket t, ut_recvDatagrams t)"

lemma loop_upd [simp]:
  "loop_state (t\<lparr>ut_peer := x1\<rparr>) = loop_state t" "loop_state (t\<lparr>ut_havePeer := x2\<rparr>) = loop_state t"
  "loop_state (t\<lparr>ut_locked := x3\<rparr>) = loop_state t" "loop_state (t\<lparr>ut_secure := x4\<rparr>) = loop_state t"
  "loop_state (t\<lparr>ut_video := x5\<rparr>) = loop_state t" "loop_state (t\<lparr>ut_audio := x6\<rparr>) = loop_state t"
  "loop_state (t\<lparr>ut_input := x7\<rparr>) = loop_state t" "loop_state (t\<lparr>ut_videoSeq := x8\<rparr>) = loop_state t"
  "loop_state (t\<lparr>ut_audioSeq := x9\<rparr>) = loop_state t" "loop_state (t\<lparr>ut_videoJitter := y1\<rparr>) = loop_state t"
  "loop_state (t\<lparr>ut_audioJitter := y2\<rparr>) = loop_state t" "loop_state (t\<lparr>ut_seqCounter := y3\<rparr>) = loop_state t"
  "loop_state (t\<lparr>ut_lastKeyframeReqNs := y4\<rparr>) = loop_state t" "loop_state (t\<lparr>ut_lastRxAbsNs := y5\<rparr>) = loop_state t"
  "loop_state (t\<lparr>ut_lastArrivalNs := y6\<rparr>) = loop_state t" "loop_state (t\<lparr>ut_jitterEWMA := y7\<rparr>) = loop_state t"
  "loop_state (t\<lparr>ut_lastRttMs := y8\<rparr>) = loop_state t" "loop_state (t\<lparr>ut_avgRttMs := y9\<rparr>) = loop_state t"
  "loop_state (t\<lparr>ut_pingSeq := z1\<rparr>) = loop_state t" "loop_state (t\<lparr>ut_pingIntervalMs := z2\<rparr>) = loop_state t"
  "loop_state (t\<lparr>ut_sentDatagrams := z3\<rparr>) = loop_state t" "loop_state (t\<lparr>ut_sentBytes := z4\<rparr>) = loop_state t"
  "loop_state (t\<lparr>ut_sendErrors := z5\<rparr>) = loop_state t" "loop_state (t\<lparr>ut_sentFrames := z6\<rparr>) = loop_state t"
  "loop_state (t\<lparr>ut_malformed := z7\<rparr>) = loop_state t" "loop_state (t\<lparr>ut_wrongSession := z8\<rparr>) = loop_state t"
  "loop_state (t\<lparr>ut_authDrops := z9\<rparr>) = loop_state t" "loop_state (t\<lparr>ut_recvBytes := w1\<rparr>) = loop_state t"
  "loop_state (t\<lparr>ut_sessionId := w2\<rparr>) = loop_state t" "loop_state (t\<lparr>ut_autoKeyframe := w3\<rparr>) = loop_state t"
  "loop_state (t\<lparr>ut_dropUnknownRemote := w4\<rparr>) = loop_state t" "loop_state (t\<lparr>ut_audioTargetMs := w5\<rparr>) = loop_state t"
  by (simp_all add: loop_state_def)

lemma loop_sends [simp]:
  "loop_state (fst (sendFrame ty key dat ts t)) = loop_state t" "loop_state (fst (sendSmall now ty dat t)) = loop_state t"
  "loop_state (fst (sendPosted ops sent dg t)) = loop_state t"
  by (simp_all add: sendFrame_def sendSmall_def sendPosted_def count_sent_def next_seq_def Let_def split: option.split prod.split)

lemma loop_ping [simp]: "loop_state (fst (sendPingOnce now t)) = loop_state t"
proof -
  have "loop_state (relay_fallback now t) = loop_state t" by (simp add: relay_fallback_def split: option.split)
  then show ?thesis by (simp add: sendPingOnce_def Let_def)
qed

lemma loop_call [simp]: "loop_state (fst (do_call c t)) = loop_state t"
  by (cases c) (simp_all add: startPings_def onPingTimer_def pollVideo_def pollAudio_def stopPings_def sendPunch_def sendRelayBind_def setPeer_def
      lockToRemote_def setSessionId_def setAudioJitterTargetMs_def setAutoKeyframeRequest_def setDropUnknownRemote_def Let_def case_prod_beta)

lemma loop_media:
  assumes "media_input now h payload t = Inr (t', os)"
  shows "loop_state t' = loop_state t"
proof -
  let ?in = "if uh_type h = UdpType_Video then video_input now h payload t
    else if uh_type h = UdpType_Audio then audio_input h payload t
    else if uh_type h = UdpType_Input then input_input h payload t else Inr (t, [], None)"
  obtain t1 o1 r where i: "?in = Inr (t1, o1, r)" using assms by (auto simp: media_input_def split: sum.splits)
  then have same: "loop_state t1 = loop_state t"
    by (auto simp: video_input_def audio_input_def input_input_def Let_def split: if_splits sum.splits prod.splits)
  consider "t' = t1" | f o2 where "handleMediaComplete now f t1 = (t', o2)"
    using assms i by (cases r) (auto simp: media_input_def split: prod.splits)
  then show ?thesis using same by cases (auto simp: handleMediaComplete_def split: if_splits)
qed

lemma loop_dispatch:
  assumes "dispatch now h payload t = Inr (t', os)"
  shows "loop_state t' = loop_state t"
proof (cases "media_input now h payload t = Inr (t', os)")
  case False
  have "loop_state (on_pong now h payload t) = loop_state t" by (simp add: on_pong_def Let_def)
  then show ?thesis
    using False assms loop_sends(2) [of now UdpType_Pong "take (unat (uh_payloadSize h)) payload" t]
    by (auto simp: dispatch_def Let_def simp del: loop_sends split: if_splits)
qed (rule loop_media)

lemma loop_datagram:
  assumes "handleDatagram ops now buf src t = Inr (t', os)"
  shows "loop_state t' = loop_state (t\<lparr>ut_recvDatagrams := ut_recvDatagrams t + 1\<rparr>)"
proof -
  let ?t = "t\<lparr>ut_recvDatagrams := ut_recvDatagrams t + 1\<rparr>"
  have c: "loop_state (fst (clear_payload ops buf h t1)) = loop_state t1" for h and t1 :: "'a UdpTransport"
    by (simp add: clear_payload_def authDrop_def Let_def split: option.split prod.split)
  have l: "loop_state (note_arrival now t1) = loop_state t1" "loop_state (learn_peer ops h src t1) = loop_state t1" for h and t1 :: "'a UdpTransport"
    by (simp_all add: note_arrival_def learn_peer_def setPeer_def Let_def)
  show ?thesis
  proof (cases "decodeUdpHeader buf")
    case None
    then show ?thesis using assms by (auto simp: handleDatagram_def Let_def)
  next
    case (Some h)
    obtain t1 r where p: "clear_payload ops buf h (t\<lparr>ut_recvDatagrams := ut_recvDatagrams t + 1,
        ut_recvBytes := ut_recvBytes t + of_nat (length buf), ut_lastRxAbsNs := now\<rparr>) = (t1, r)" by force
    then have t1: "loop_state t1 = loop_state ?t" using c [of h] by (metis fst_conv loop_upd(14,28))
    show ?thesis
    proof (cases r)
      case None
      then show ?thesis using assms Some p t1 by (auto simp: handleDatagram_def Let_def split: if_splits)
    next
      case r: (Some x)
      obtain h' payload where x: "x = (h', payload)" by force
      let ?l = "learn_peer ops h' src t1"
      consider "loop_state t' = loop_state ?t" | "t' = ?l" | "dispatch now h' payload (note_arrival now ?l) = Inr (t', os)"
        using assms Some p r x by (cases "unknown_remote src ?l") (auto simp: handleDatagram_def Let_def split: if_splits)
      then show ?thesis
      proof cases
        case 3
        then show ?thesis using loop_dispatch [OF 3] l t1 by simp
      qed (use l t1 in simp_all)
    qed
  qed
qed

text \<open>The datagrams a run receives.\<close>

fun handles :: "uk_event \<Rightarrow> 'c UdpSocket \<Rightarrow> bool" where
  "handles (UkReceive now stops (Received buf src)) u = (uk_receiving u \<and> ut_running (uk_transport u))"
| "handles _ u = False"

fun received_in :: "'c UdpCryptoSink \<Rightarrow> uk_event list \<Rightarrow> 'c UdpSocket \<Rightarrow> nat" where
  "received_in ops [] u = 0"
| "received_in ops (e # es) u = (if handles e u then 1 else 0) + received_in ops es (fst (uk_step ops e u))"

definition armed :: "'c UdpSocket \<Rightarrow> bool" where
  "armed u \<longleftrightarrow> uk_receiving u = (ut_running (uk_transport u) \<and> ut_hasSocket (uk_transport u))"

lemma armed_doReceive: "\<not> uk_receiving u \<Longrightarrow> armed (doReceive u)" "uk_transport (doReceive u) = uk_transport u" "uk_fault (doReceive u) = uk_fault u"
  by (auto simp: armed_def doReceive_def)

lemma loop_parts:
  assumes "loop_state t' = loop_state t"
  shows "ut_running t' = ut_running t" "ut_hasSocket t' = ut_hasSocket t" "ut_recvDatagrams t' = ut_recvDatagrams t"
  using assms by (simp_all add: loop_state_def)

lemma armed_same:
  assumes "armed u" "uk_fault u = None" "\<not> handles e u" "uk_receiving u' = uk_receiving u" "loop_state (uk_transport u') = loop_state (uk_transport u)"
  shows "uk_fault u = None \<and> armed u' \<and>
    ut_recvDatagrams (uk_transport u') = ut_recvDatagrams (uk_transport u) + (if handles e u then 1 else 0)"
  using assms(1-4) loop_parts [OF assms(5)] by (simp add: armed_def)

lemma onReceive_armed:
  assumes "armed u" "uk_receiving u" "\<not> (res = RecvAborted \<and> ut_running (uk_transport u))" "onReceive ops now stops res u = (u', os)" "uk_fault u' = None"
  shows "armed u' \<and> ut_recvDatagrams (uk_transport u') = ut_recvDatagrams (uk_transport u) + (if handles (UkReceive now stops res) u then 1 else 0)"
proof (cases res)
  case (Received buf src)
  have run: "ut_running (uk_transport u)" using assms(1,2) by (simp add: armed_def)
  obtain t' os' where h: "handleDatagram ops now buf src (uk_transport u) = Inr (t', os')"
    "u' = doReceive (u\<lparr>uk_receiving := False, uk_transport := (if stops \<and> (\<exists>x \<in> set os'. is_callback x) then ut_stop_on_io t' else t')\<rparr>)"
    using assms(4,5) run Received by (auto simp: onReceive_def Let_def split: sum.splits)
  have "ut_recvDatagrams t' = ut_recvDatagrams (uk_transport u) + 1" using loop_parts(3) [OF loop_datagram [OF h(1)]] by simp
  then show ?thesis unfolding h(2) using Received run assms(2) by (simp add: armed_doReceive ut_stop_on_io_def)
qed (use assms in \<open>auto simp: onReceive_def armed_doReceive Let_def armed_def [of u] armed_def [of "u\<lparr>uk_receiving := False\<rparr>"]\<close>)

lemma step_armed:
  assumes "armed u" "uk_fault (fst (uk_step ops e u)) = None"
  shows "uk_fault u = None \<and> armed (fst (uk_step ops e u)) \<and>
    ut_recvDatagrams (uk_transport (fst (uk_step ops e u))) = ut_recvDatagrams (uk_transport u) + (if handles e u then 1 else 0)"
proof (cases "uk_fault u")
  case None
  show ?thesis
  proof (cases e)
    case (UkBind ok)
    then show ?thesis using None
      by (cases ok) (simp_all add: ut_bind_def ut_stop_def runIo_def armed_doReceive Let_def, simp add: armed_def)
  next
    case UkStop
    then show ?thesis using None by (simp add: armed_def ut_stop_def)
  next
    case (UkReceive now stops res)
    show ?thesis
    proof (cases "\<not> uk_receiving u \<or> (res = RecvAborted \<and> ut_running (uk_transport u))")
      case True
      then show ?thesis using UkReceive None assms(1) by (cases res) (auto simp: armed_def)
    next
      case False
      then have "fst (uk_step ops e u) = fst (onReceive ops now stops res u)" using UkReceive None by auto
      then show ?thesis using onReceive_armed [OF assms(1), of res ops now stops] False None assms(2) UkReceive by (metis prod.collapse)
    qed
  next
    case (UkSendDone sent dg)
    show ?thesis
      by (rule armed_same) (use UkSendDone None assms(1) in \<open>simp_all add: case_prod_beta\<close>)
  next
    case (UkCall c)
    show ?thesis
      by (rule armed_same) (use UkCall None assms(1) in \<open>simp_all add: case_prod_beta\<close>)
  qed
next
  case (Some f)
  then show ?thesis using assms(2) by (cases e) simp_all
qed

lemma run_armed:
  assumes "armed u" "uk_fault (fst (run_out (uk_step ops) es u)) = None"
  shows "uk_fault u = None \<and> armed (fst (run_out (uk_step ops) es u)) \<and>
    ut_recvDatagrams (uk_transport (fst (run_out (uk_step ops) es u))) = ut_recvDatagrams (uk_transport u) + of_nat (received_in ops es u)"
  using assms
proof (induction es arbitrary: u)
  case (Cons e es)
  let ?u = "fst (uk_step ops e u)"
  have r: "fst (run_out (uk_step ops) (e # es) u) = fst (run_out (uk_step ops) es ?u)" by (simp add: Let_def case_prod_beta)
  have keep: "uk_fault ?u = None" if "uk_fault (fst (run_out (uk_step ops) es ?u)) = None"
  proof (rule ccontr)
    assume "uk_fault ?u \<noteq> None"
    then have "fst (run_out (uk_step ops) es ?u) = ?u"
    proof (induction es)
      case (Cons e' es')
      then have "uk_step ops e' ?u = (?u, [])" by (cases e') simp_all
      then show ?case using Cons by (simp add: Let_def case_prod_beta)
    qed simp
    then show False using that \<open>uk_fault ?u \<noteq> None\<close> by simp
  qed
  then have "uk_fault ?u = None" using Cons.prems(2) r by simp
  note st = step_armed [OF Cons.prems(1) this]
  from Cons.IH [of ?u] st Cons.prems(2) show ?case unfolding r by (simp add: add.assoc)
qed simp

text \<open>C14: The receive loop outlives every error. In every run of binds, stops, receives that succeed, fail or are aborted, sends and
  calls from other threads, callbacks that stop the transport included, and unless the reassembler ran over its buffer, a
  receive is in flight exactly while the transport is running with a socket; the number of received datagrams in
  the statistics is the number of receives that delivered one.\<close>

theorem receive_loop_alive:
  assumes "uk_fault (fst (run_out (uk_step ops) es UdpSocket_new)) = None"
  shows "let u = fst (run_out (uk_step ops) es UdpSocket_new); t = uk_transport u
    in uk_receiving u = (ut_running t \<and> ut_hasSocket t) \<and> us_recvDatagrams (ut_stats t) = of_nat (received_in ops es UdpSocket_new)"
  using run_armed [of UdpSocket_new ops es] assms
  by (simp add: armed_def UdpSocket_new_def UdpTransport_new_def ut_stats_def Let_def)

definition clear_sink :: "unit UdpCryptoSink" where
  "clear_sink = \<lparr>cs_active = (\<lambda>_. False), cs_seal = (\<lambda>_ p c. (c, Some p)), cs_open = (\<lambda>_ p c. (c, Some p))\<rparr>"

theorem receive_loop_alive_witness:
  "uk_receiving (fst (run_out (uk_step clear_sink) [UkBind True, UkReceive 5 False RecvError, UkReceive 6 False (Received [1, 2] (''10.0.0.9'', 7))] UdpSocket_new))"
proof -
  let ?es = "[UkBind True, UkReceive 5 False RecvError, UkReceive 6 False (Received [1, 2] (''10.0.0.9'', 7))]"
  have "uk_fault (fst (run_out (uk_step clear_sink) ?es UdpSocket_new)) = None" "ut_running (uk_transport (fst (run_out (uk_step clear_sink) ?es UdpSocket_new)))"
    "ut_hasSocket (uk_transport (fst (run_out (uk_step clear_sink) ?es UdpSocket_new)))" by code_simp+
  then show ?thesis using receive_loop_alive [of clear_sink ?es] by (simp only: Let_def)
qed

end
