(* ===== verification/QtText.thy ===== *)
theory QtText
  imports Complex_Main RP_Types
begin

text \<open>
  What the windows use of Qt: positions of a character in a text, and the conversions of \<^verbatim>\<open>QString\<close>, the scaling
  of \<^verbatim>\<open>QSize\<close>, trimming and the formatting of texts (numbers, numbers with a fixed count of decimals, and \<^verbatim>\<open>arg\<close>,
  which puts texts at the place markers) as the parameter \<open>Qt\<close> with what Qt documents of them.
\<close>

fun indexOf :: "char \<Rightarrow> string \<Rightarrow> nat option" where
  "indexOf c [] = None"
| "indexOf c (x # xs) = (if x = c then Some 0 else map_option Suc (indexOf c xs))"

fun lastIndexOf :: "char \<Rightarrow> string \<Rightarrow> nat option" where
  "lastIndexOf c [] = None"
| "lastIndexOf c (x # xs) = (case lastIndexOf c xs of Some i \<Rightarrow> Some (Suc i) | None \<Rightarrow> if x = c then Some 0 else None)"

lemma indexOf_absent [simp]: "c \<notin> set xs \<Longrightarrow> indexOf c xs = None" "c \<notin> set xs \<Longrightarrow> lastIndexOf c xs = None"
  by (induction xs) auto

lemma indexOf_first: "c \<notin> set xs \<Longrightarrow> indexOf c (xs @ c # ys) = Some (length xs)"
  by (induction xs) auto

lemma lastIndexOf_last: "c \<notin> set ys \<Longrightarrow> lastIndexOf c (xs @ c # ys) = Some (length xs)"
  by (induction xs) auto

lemma lastIndexOf_present: "c \<in> set xs \<Longrightarrow> \<exists>i. lastIndexOf c xs = Some i"
  by (induction xs) (auto split: option.split)

text \<open>One occurrence: the first is the last.\<close>

lemma single_index:
  assumes "c \<notin> set xs" "c \<notin> set ys"
  shows "indexOf c (xs @ c # ys) = Some (length xs)" "lastIndexOf c (xs @ c # ys) = Some (length xs)"
  using assms by (simp_all add: indexOf_first lastIndexOf_last)

text \<open>Two occurrences: they differ.\<close>

lemma two_indices:
  assumes "lastIndexOf c xs = Some i" "indexOf c xs = Some i"
  shows "count_list xs c = 1"
  using assms
proof (induction xs arbitrary: i)
  case (Cons x xs)
  show ?case
  proof (cases "c \<in> set xs")
    case True
    then obtain j where j: "lastIndexOf c xs = Some j" using lastIndexOf_present by blast
    then have "x \<noteq> c" using Cons.prems by auto
    then show ?thesis using Cons j by auto
  next
    case False
    then have "x = c" using Cons.prems by (auto split: if_splits)
    then show ?thesis using False by simp
  qed
qed simp

record Qt =
  qt_toInt :: "string \<Rightarrow> int"
  qt_toUShort :: "string \<Rightarrow> u16"
  qt_trimmed :: "string \<Rightarrow> string"
  qt_scaled :: "int \<times> int \<Rightarrow> int \<times> int \<Rightarrow> int \<times> int"
  qt_number :: "int \<Rightarrow> string"
  qt_fixed :: "nat \<Rightarrow> rat \<Rightarrow> string"
  qt_arg :: "string \<Rightarrow> string list \<Rightarrow> string"

text \<open>\<open>QSize::scaled\<close> with \<^verbatim>\<open>Qt::KeepAspectRatio\<close> gives a rectangle inside the target.\<close>

definition scaled_inside :: "Qt \<Rightarrow> bool" where
  "scaled_inside Q \<longleftrightarrow> (\<forall>w h W H. 0 < w \<and> 0 < h \<and> 0 \<le> W \<and> 0 \<le> H \<longrightarrow>
     0 \<le> fst (qt_scaled Q (w, h) (W, H)) \<and> fst (qt_scaled Q (w, h) (W, H)) \<le> W \<and>
     0 \<le> snd (qt_scaled Q (w, h) (W, H)) \<and> snd (qt_scaled Q (w, h) (W, H)) \<le> H)"

text \<open>\<^verbatim>\<open>toInt\<close> and \<^verbatim>\<open>toUShort\<close> read decimal digits; \<^verbatim>\<open>toUShort\<close> gives 0 for a value that does not fit.\<close>

definition reads_number :: "Qt \<Rightarrow> string \<Rightarrow> nat \<Rightarrow> bool" where
  "reads_number Q digits n \<longleftrightarrow> qt_toInt Q digits = int n \<and> qt_toUShort Q digits = (if n \<le> 65535 then of_nat n else 0)"

text \<open>\<^verbatim>\<open>setValue\<close> of a spin box keeps the value in its range.\<close>

definition spin :: "int \<Rightarrow> int \<Rightarrow> int \<Rightarrow> int" where
  "spin lo hi v = min hi (max lo v)"

text \<open>C++ division by two truncates toward zero.\<close>

definition half :: "int \<Rightarrow> int" where
  "half n = (if n < 0 then - ((- n) div 2) else n div 2)"

lemma half_centre:
  assumes "0 \<le> a" "a \<le> n"
  shows "0 \<le> half (n - a)" "half (n - a) + a \<le> n" "n - (half (n - a) + a) - half (n - a) \<in> {0, 1}"
  using assms by (auto simp: half_def)

end
