(* ===== verification/HostWindow.thy ===== *)
theory HostWindow
  imports HostCoordinator ScreenCapture QtText
begin

text \<open>
  \<^verbatim>\<open>ui/HostWindow.cpp\<close>: the page a session is hosted from. The form, the rows of the capture sources, the
  buttons, the labels, the table of players, the log pane and the box for errors are the state; layout, style and
  translation are left out. The coordinator is its model. The signals it emits during a call are delivered to the
  slots of the window when the call returns, in the order they were emitted.

  The theorems: the buttons follow the coordinator and a box with the same message opens at most every ten
  seconds, in every run; the row that is selected is the source that is captured; what the page hands to the
  coordinator does not depend on the settings; leaving the page does not stop a session of the internet mode.
\<close>

section \<open>State\<close>

datatype source = WindowRow nat | MonitorRow int

record HostForm =
  hf_name :: string
  hf_game :: string
  hf_mode :: nat
  hf_server :: string
  hf_source :: nat
  hf_resolution :: nat
  hf_fps :: nat
  hf_codec :: nat
  hf_bitrate :: int
  hf_audio :: bool

record HostWindow =
  hw_coordinator :: HostCoordinator
  hw_form :: HostForm
  hw_sources :: "source list"
  hw_startEnabled :: bool
  hw_stopEnabled :: bool
  hw_copyEnabled :: bool
  hw_setupEnabled :: bool
  hw_code :: string
  hw_where :: "(string + u16) option"
  hw_gamepads :: string
  hw_encoder :: string
  hw_stats :: "rat option list"
  hw_players :: "(string \<times> u32 option \<times> bool \<times> string) list"
  hw_abrChecked :: bool
  hw_slider :: int
  hw_log :: "string list"
  hw_errorBox :: bool
  hw_lastErrorText :: string
  hw_lastErrorShownAt :: int
  hw_boxes :: "(int \<times> string) list"
  hw_clipboard :: string

definition resolutionItems :: "string list" where
  "resolutionItems = [''1280x720'', ''1920x1080'', ''2560x1440'', ''3840x2160'']"

definition fpsItems :: "string list" where
  "fpsItems = [''30'', ''60'', ''120'']"

definition HostForm_new :: "Config \<Rightarrow> HostForm" where
  "HostForm_new cfg = \<lparr>hf_name = (if cfg_profile_name cfg = [] then ''Host'' else cfg_profile_name cfg), hf_game = [], hf_mode = 0,
     hf_server = [], hf_source = 0, hf_resolution = 1, hf_fps = 1, hf_codec = 0,
     hf_bitrate = spin 2 50 (vs_bitrateMbps (cfg_video cfg)), hf_audio = True\<rparr>"

definition refreshCaptureSources :: "window list \<Rightarrow> adapters option \<Rightarrow> HostWindow \<Rightarrow> HostWindow" where
  "refreshCaptureSources ws factory s =
     s\<lparr>hw_sources := map (\<lambda>w. WindowRow (wi_hwnd w)) (listCaptureWindows ws) @ map (\<lambda>m. MonitorRow (oi_index m)) (enumerateOutputs factory),
       hw_form := (hw_form s)\<lparr>hf_source := 0\<rparr>\<rparr>"

definition HostWindow_new :: "window list \<Rightarrow> adapters option \<Rightarrow> InputInjector \<Rightarrow> Config \<Rightarrow> HostWindow" where
  "HostWindow_new ws factory injector cfg =
     refreshCaptureSources ws factory
       \<lparr>hw_coordinator = HostCoordinator_new cfg injector, hw_form = HostForm_new cfg, hw_sources = [], hw_startEnabled = True,
        hw_stopEnabled = False, hw_copyEnabled = False, hw_setupEnabled = True, hw_code = ''NOT HOSTING'', hw_where = None,
        hw_gamepads = ''-'', hw_encoder = ''-'', hw_stats = replicate 7 None, hw_players = [], hw_abrChecked = True, hw_slider = spin 2 50 (vs_bitrateMbps (cfg_video cfg)), hw_log = [],
        hw_errorBox = False, hw_lastErrorText = [], hw_lastErrorShownAt = 0, hw_boxes = [], hw_clipboard = []\<rparr>"

section \<open>Log and errors\<close>

text \<open>A line break in a text starts a new block of the document. The empty document has one block, which the
  first text fills.\<close>

fun blocks :: "string \<Rightarrow> string list" where
  "blocks [] = [[]]"
| "blocks (c # cs) = (if c = CHR 10 then [] # blocks cs else (c # hd (blocks cs)) # tl (blocks cs))"

definition appendLog :: "string \<Rightarrow> HostWindow \<Rightarrow> HostWindow" where
  "appendLog line s =
     (let bs = hw_log s; bs = (if length bs > 300 then drop (length bs - 300) bs else bs)
      in s\<lparr>hw_log := bs @ blocks line\<rparr>)"

definition hw_showError :: "int \<Rightarrow> string \<Rightarrow> HostWindow \<Rightarrow> HostWindow" where
  "hw_showError now message s =
     (if message = [] then s
      else if hw_errorBox s then s
      else if message = hw_lastErrorText s \<and> now - hw_lastErrorShownAt s < 10000 then appendLog message s
      else
        let s = appendLog (''[error] '' @ message) (s\<lparr>hw_lastErrorText := message, hw_lastErrorShownAt := now\<rparr>)
        in s\<lparr>hw_errorBox := True, hw_boxes := hw_boxes s @ [(now, message)]\<rparr>)"

text \<open>The box closes by the user or by its timer and is then destroyed.\<close>

definition error_box_closed :: "HostWindow \<Rightarrow> HostWindow" where
  "error_box_closed s = s\<lparr>hw_errorBox := False\<rparr>"

definition onEncoderTrouble :: "int \<Rightarrow> string \<Rightarrow> HostWindow \<Rightarrow> HostWindow" where
  "onEncoderTrouble now message = hw_showError now message"

section \<open>Slots of the coordinator's signals\<close>

definition co_hosting :: "HostCoordinator \<Rightarrow> bool" where
  "co_hosting c = (case ho_host c of None \<Rightarrow> False | Some a \<Rightarrow> hosting a)"

definition co_clients :: "HostCoordinator \<Rightarrow> ClientRow list" where
  "co_clients c = (case ho_host c of None \<Rightarrow> [] | Some a \<Rightarrow> ha_clients a)"

definition onStateChanged :: "HostWindow \<Rightarrow> HostWindow" where
  "onStateChanged s =
     (let st = ho_ui (hw_coordinator s);
          s = (if ui_sessionCode st \<noteq> []
               then s\<lparr>hw_code := ui_sessionCode st, hw_where := Some (if ui_internetMode st then Inl (ui_serverAddress st) else Inr (ui_tcpPort st))\<rparr>
               else if \<not> co_hosting (hw_coordinator s) then s\<lparr>hw_code := ''NOT HOSTING'', hw_where := None\<rparr>
               else s)
      in s\<lparr>hw_gamepads := (if ui_gamepadStatus st = [] then ''-'' else ui_gamepadStatus st),
           hw_encoder := (if ui_encoderName st = [] then ''-'' else ui_encoderName st),
           hw_stats := map (\<lambda>x. if x > 0 then Some x else None)
             [ui_fps st, ui_captureMs st, ui_encodeMs st, ui_bitrateKbps st / 1000, ui_rttMs st, ui_lossPercent st, ui_jitterMs st]\<rparr>)"

definition player_cells :: "ClientRow \<Rightarrow> string \<times> u32 option \<times> bool \<times> string" where
  "player_cells c = (row_name c, if row_rttMs c \<noteq> 0 then Some (row_rttMs c) else None, row_inputEnabled c, ConnectionState_toString (row_state c))"

definition refreshPlayerTable :: "HostWindow \<Rightarrow> HostWindow" where
  "refreshPlayerTable s = s\<lparr>hw_players := map player_cells (co_clients (hw_coordinator s))\<rparr>"

text \<open>\<open>yes\<close>: the answer given in the box; after sixty seconds the box rejects by itself.\<close>

definition onApprovalRequest :: "int \<Rightarrow> (u32 \<Rightarrow> bool) \<Rightarrow> u32 \<Rightarrow> HostWindow \<Rightarrow> HostWindow" where
  "onApprovalRequest now yes cid s = s\<lparr>hw_coordinator := ho_approve now cid (yes cid) (hw_coordinator s)\<rparr>"

record ui_env =
  ue_now :: int
  ue_yes :: "u32 \<Rightarrow> bool"
  ue_env :: ho_env

fun hw_slot :: "ui_env \<Rightarrow> ho_output \<Rightarrow> HostWindow \<Rightarrow> HostWindow" where
  "hw_slot u StateChanged s = onStateChanged s"
| "hw_slot u ClientTableChanged s = refreshPlayerTable s"
| "hw_slot u (ApprovalRequest cid name) s = onApprovalRequest (ue_now u) (ue_yes u) cid s"
| "hw_slot u (ErrorOccurred message) s = hw_showError (ue_now u) message s"
| "hw_slot u (EncoderTrouble message) s = onEncoderTrouble (ue_now u) message s"
| "hw_slot u _ s = s"

definition on_coordinator :: "ui_env \<Rightarrow> HostCoordinator \<Rightarrow> HostWindow \<Rightarrow> HostWindow" where
  "on_coordinator u c s =
     fold (hw_slot u) (drop (length (ho_out (hw_coordinator s))) (ho_out c)) (s\<lparr>hw_coordinator := c\<rparr>)"

section \<open>Starting and stopping\<close>

definition current_source :: "HostWindow \<Rightarrow> source option" where
  "current_source s = (if hf_source (hw_form s) < length (hw_sources s) then Some (hw_sources s ! hf_source (hw_form s)) else None)"

definition chosen_resolution :: "Qt \<Rightarrow> HostForm \<Rightarrow> Resolution" where
  "chosen_resolution Q f =
     (let res = resolutionItems ! hf_resolution f
      in case indexOf CHR ''x'' res of
           Some wx \<Rightarrow> if wx > 0 then \<lparr>res_width = word_of_int (qt_toInt Q (take wx res)), res_height = word_of_int (qt_toInt Q (drop (wx + 1) res))\<rparr>
                      else \<lparr>res_width = 1920, res_height = 1080\<rparr>
         | None \<Rightarrow> \<lparr>res_width = 1920, res_height = 1080\<rparr>)"

definition launch_settings :: "Qt \<Rightarrow> HostWindow \<Rightarrow> HostLaunchSettings" where
  "launch_settings Q s =
     (let f = hw_form s; game = qt_trimmed Q (hf_game f);
          hwnd = (case current_source s of Some (WindowRow h) \<Rightarrow> h | _ \<Rightarrow> 0);
          monitorIndex = (case current_source s of Some (MonitorRow i) \<Rightarrow> i | _ \<Rightarrow> 0)
      in HostLaunchSettings_default\<lparr>hl_hostName := qt_trimmed Q (hf_name f), hl_gameName := (if game = [] then ''a game'' else game),
           hl_resolution := chosen_resolution Q f, hl_fps := word_of_int (qt_toInt Q (fpsItems ! hf_fps f)),
           hl_bitrateKbps := word_of_int (hf_bitrate f) * 1000, hl_codec := (if hf_codec f = 1 then Hevc else H264),
           hl_audioEnabled := hf_audio f, hl_windowHwnd := hwnd,
           hl_captureMode := (if hwnd \<noteq> 0 then CaptureMode_Window else CaptureMode_Monitor), hl_outputIndex := monitorIndex\<rparr>)"

definition server_address :: "Qt \<Rightarrow> string \<Rightarrow> string \<times> u16" where
  "server_address Q server =
     (case lastIndexOf CHR '':'' server of
        Some colon \<Rightarrow>
          if colon > 0 \<and> indexOf CHR '':'' server = Some colon then
            let p = qt_toInt Q (drop (colon + 1) server)
            in if p > 0 \<and> p \<le> 65535 then (take colon server, word_of_int p) else (server, 9000)
          else (server, 9000)
      | None \<Rightarrow> (server, 9000))"

definition setHostingUi :: "bool \<Rightarrow> HostWindow \<Rightarrow> HostWindow" where
  "setHostingUi on s =
     (let s = s\<lparr>hw_startEnabled := \<not> on, hw_stopEnabled := on, hw_copyEnabled := on, hw_setupEnabled := \<not> on\<rparr>
      in if \<not> on then s\<lparr>hw_code := ''NOT HOSTING'', hw_where := None\<rparr> else s)"

text \<open>\<open>user\<close>, \<open>rnd\<close>, \<open>listen\<close>, \<open>conn\<close>, \<open>reg\<close>: as for the coordinator; \<open>err\<close>: its message.\<close>

record launch_env =
  te_user :: string
  te_rnd :: "nat \<Rightarrow> u32"
  te_listen :: "u16 \<Rightarrow> u16 option"
  te_conn :: bool
  te_reg :: "(string \<times> u16 \<times> u16 \<times> string) option"
  te_err :: string

definition startHosting :: "Qt \<Rightarrow> ui_env \<Rightarrow> launch_env \<Rightarrow> HostWindow \<Rightarrow> HostWindow" where
  "startHosting Q u t s =
     (let l = launch_settings Q s;
          (c, ok) = (if hf_mode (hw_form s) = 1
                     then let (server, port) = server_address Q (qt_trimmed Q (hf_server (hw_form s)))
                          in startInternet (ue_env u) (te_conn t) (te_reg t) l server port (hw_coordinator s)
                     else startLan (ue_env u) (te_user t) (te_rnd t) (te_listen t) l (hw_coordinator s));
          s = on_coordinator u c s
      in if \<not> ok then hw_showError (ue_now u) (if te_err t = [] then ''Could not start hosting.'' else te_err t) s
         else setHostingUi True s)"

definition stop_coordinator :: "ui_env \<Rightarrow> HostWindow \<Rightarrow> HostWindow" where
  "stop_coordinator u s = setHostingUi False (on_coordinator u (ho_stop (ue_env u) (hw_coordinator s)) s)"

definition stopHosting :: "ui_env \<Rightarrow> HostWindow \<Rightarrow> HostWindow" where
  "stopHosting u s = appendLog ''Session stopped.'' (stop_coordinator u s)"

definition stopIfHosting :: "ui_env \<Rightarrow> HostWindow \<Rightarrow> HostWindow" where
  "stopIfHosting u s = (if co_hosting (hw_coordinator s) then stop_coordinator u s else s)"

section \<open>Players and controls\<close>

text \<open>\<open>row\<close>: the current row of the table, negative when there is none.\<close>

definition with_selected :: "ui_env \<Rightarrow> int \<Rightarrow> (ClientRow \<Rightarrow> HostCoordinator \<Rightarrow> HostCoordinator) \<Rightarrow> HostWindow \<Rightarrow> HostWindow" where
  "with_selected u row f s =
     (if row < 0 then hw_showError (ue_now u) ''Select a player in the table first.'' s
      else let rows = co_clients (hw_coordinator s)
           in if row < int (length rows) then on_coordinator u (f (rows ! nat row) (hw_coordinator s)) s else s)"

definition kickSelected :: "ui_env \<Rightarrow> int \<Rightarrow> HostWindow \<Rightarrow> HostWindow" where
  "kickSelected u row = with_selected u row (\<lambda>r. ho_kick (ue_env u) (row_id r))"

definition toggleInputSelected :: "ui_env \<Rightarrow> int \<Rightarrow> HostWindow \<Rightarrow> HostWindow" where
  "toggleInputSelected u row = with_selected u row (\<lambda>r. ho_setClientInput (row_id r) (\<not> row_inputEnabled r))"

definition onAbrToggled :: "ui_env \<Rightarrow> bool \<Rightarrow> HostWindow \<Rightarrow> HostWindow" where
  "onAbrToggled u on s = on_coordinator u (setAbrEnabled on (hw_coordinator s)) s"

text \<open>\<^verbatim>\<open>setChecked\<close> emits \<^verbatim>\<open>toggled\<close> when the state changes.\<close>

definition set_abr_checked :: "ui_env \<Rightarrow> bool \<Rightarrow> HostWindow \<Rightarrow> HostWindow" where
  "set_abr_checked u on s = (if hw_abrChecked s = on then s else onAbrToggled u on (s\<lparr>hw_abrChecked := on\<rparr>))"

definition onManualBitrate :: "ui_env \<Rightarrow> int \<Rightarrow> HostWindow \<Rightarrow> HostWindow" where
  "onManualBitrate u mbps s =
     (let s = set_abr_checked u False (s\<lparr>hw_slider := mbps\<rparr>)
      in on_coordinator u (setManualBitrate (mbps * 1000) (hw_coordinator s)) s)"

definition copySessionCode :: "HostWindow \<Rightarrow> HostWindow" where
  "copySessionCode s =
     (let code = ui_sessionCode (ho_ui (hw_coordinator s))
      in if code = [] then s else appendLog ''Session code copied to clipboard.'' (s\<lparr>hw_clipboard := code\<rparr>))"

text \<open>\<open>dir\<close>: the folder and whether it exists.\<close>

definition openLogsFolder :: "int \<Rightarrow> string \<times> bool \<Rightarrow> HostWindow \<Rightarrow> HostWindow" where
  "openLogsFolder now dir s = (if snd dir then s else hw_showError now (''Log folder does not exist yet: '' @ fst dir) s)"

section \<open>The machine\<close>

text \<open>A disabled button does nothing; \<open>HwBackend\<close> are the events the coordinator receives from elsewhere.\<close>

fun backend :: "ho_event \<Rightarrow> bool" where
  "backend (OStartLan user rnd listen l) \<longleftrightarrow> False"
| "backend (OStartInternet conn reg l address port) \<longleftrightarrow> False"
| "backend OStop \<longleftrightarrow> False"
| "backend _ \<longleftrightarrow> True"

datatype hw_event =
    HwStart launch_env
  | HwStop
  | HwBack
  | HwEdit HostForm
  | HwRescan "window list" "adapters option"
  | HwBackend ho_event
  | HwRefresh
  | HwKick int
  | HwToggleInput int
  | HwAbr bool
  | HwBitrate int
  | HwCopy
  | HwLogs "string \<times> bool"
  | HwLogLine string
  | HwBoxClosed

fun hw_react :: "Qt \<Rightarrow> ui_env \<Rightarrow> hw_event \<Rightarrow> HostWindow \<Rightarrow> HostWindow" where
  "hw_react Q u (HwStart t) s = (if hw_startEnabled s then startHosting Q u t s else s)"
| "hw_react Q u HwStop s = (if hw_stopEnabled s then stopHosting u s else s)"
| "hw_react Q u HwBack s = stopIfHosting u s"
| "hw_react Q u (HwEdit f) s = s\<lparr>hw_form := f\<rparr>"
| "hw_react Q u (HwRescan ws factory) s = (if hw_setupEnabled s then refreshCaptureSources ws factory s else s)"
| "hw_react Q u (HwBackend e) s = (if backend e then on_coordinator u (ho_handle (ue_env u, e) (hw_coordinator s)) s else s)"
| "hw_react Q u HwRefresh s = refreshPlayerTable s"
| "hw_react Q u (HwKick row) s = kickSelected u row s"
| "hw_react Q u (HwToggleInput row) s = toggleInputSelected u row s"
| "hw_react Q u (HwAbr on) s = set_abr_checked u on s"
| "hw_react Q u (HwBitrate mbps) s = onManualBitrate u mbps s"
| "hw_react Q u HwCopy s = (if hw_copyEnabled s then copySessionCode s else s)"
| "hw_react Q u (HwLogs dir) s = openLogsFolder (ue_now u) dir s"
| "hw_react Q u (HwLogLine line) s = appendLog line s"
| "hw_react Q u HwBoxClosed s = error_box_closed s"

fun hw_handle :: "Qt \<Rightarrow> ui_env \<times> hw_event \<Rightarrow> HostWindow \<Rightarrow> HostWindow" where
  "hw_handle Q (u, e) s = hw_react Q u e s"

section \<open>Frame lemmas\<close>

lemma approve_host [simp]: "ho_host (ho_approve now cid b c) = ho_host c"
  by (simp add: ho_approve_def if_host_def)

lemma backend_host:
  assumes "backend e"
  shows "ho_host (ho_react env e c) = ho_host c"
  using assms
  by (cases e)
    (auto simp: onClientUpdated_def beginKeyExchange_def onInputPermissions_def
      ho_handleAppMessage_def onKeyExchange_def onClientJoined_def onStreamUp_def onStreamStarted_def
      onStreamerError_def onInputDatagram_def ho_approve_def ho_kick_def ho_setClientInput_def if_host_def
      setManualBitrate_def setAbrEnabled_def restartEncoders_def switchEncodersToSoftware_def onStatsTimer_def Let_def
      split: option.split prod.split Id.split Body.split)

text \<open>What the slots leave alone: the buttons, and whether there is a host object.\<close>

definition buttons :: "HostWindow \<Rightarrow> bool \<times> bool \<times> bool \<times> bool \<times> bool" where
  "buttons s = (ho_host (hw_coordinator s) = None, hw_startEnabled s, hw_stopEnabled s, hw_copyEnabled s, hw_setupEnabled s)"

lemma log_buttons [simp]: "buttons (appendLog line s) = buttons s"
  by (simp add: buttons_def appendLog_def Let_def)

lemma error_buttons [simp]: "buttons (hw_showError now m s) = buttons s"
  by (simp add: hw_showError_def Let_def) (simp add: buttons_def appendLog_def Let_def)

lemma slot_buttons [simp]: "buttons (hw_slot u out s) = buttons s"
  by (cases out) (simp_all add: onEncoderTrouble_def, simp_all add: buttons_def onStateChanged_def refreshPlayerTable_def onApprovalRequest_def Let_def)

lemma slots_buttons [simp]: "buttons (fold (hw_slot u) outs s) = buttons s"
  by (induction outs arbitrary: s) simp_all

lemma coordinator_buttons: "ho_host c = None \<longleftrightarrow> ho_host (hw_coordinator s) = None \<Longrightarrow> buttons (on_coordinator u c s) = buttons s"
  unfolding on_coordinator_def slots_buttons by (simp add: buttons_def)

lemma on_coordinator_buttons:
  "buttons (on_coordinator u c s) = (ho_host c = None, snd (buttons s))"
  unfolding on_coordinator_def slots_buttons by (simp add: buttons_def)

text \<open>The boxes opened so far, the last of which is remembered.\<close>

definition boxes_ok :: "HostWindow \<Rightarrow> bool" where
  "boxes_ok s \<longleftrightarrow> successively (\<lambda>(t, m) (t', m'). m = m' \<longrightarrow> t + 10000 \<le> t') (hw_boxes s) \<and>
     (hw_boxes s \<noteq> [] \<longrightarrow> List.last (hw_boxes s) = (hw_lastErrorShownAt s, hw_lastErrorText s))"

lemma boxes_frame:
  assumes "hw_boxes t = hw_boxes s" "hw_lastErrorShownAt t = hw_lastErrorShownAt s" "hw_lastErrorText t = hw_lastErrorText s"
  shows "boxes_ok t = boxes_ok s"
  using assms by (simp add: boxes_ok_def)

lemma boxes_log [simp]: "boxes_ok (appendLog line s) = boxes_ok s"
  by (rule boxes_frame) (simp_all add: appendLog_def Let_def)

lemma boxes_error: "boxes_ok s \<Longrightarrow> boxes_ok (hw_showError now m s)"
  by (auto simp: hw_showError_def Let_def) (auto simp: boxes_ok_def appendLog_def Let_def successively_append_iff)

lemma boxes_slot: "boxes_ok s \<Longrightarrow> boxes_ok (hw_slot u out s)"
  by (cases out) (auto simp: onEncoderTrouble_def boxes_error, auto simp: boxes_ok_def onStateChanged_def refreshPlayerTable_def onApprovalRequest_def Let_def)

lemma boxes_slots: "boxes_ok s \<Longrightarrow> boxes_ok (fold (hw_slot u) outs s)"
  by (induction outs arbitrary: s) (simp_all add: boxes_slot)

lemma boxes_coordinator: "boxes_ok s \<Longrightarrow> boxes_ok (on_coordinator u c s)"
  unfolding on_coordinator_def by (rule boxes_slots) (simp add: boxes_ok_def)

section \<open>The window in every run\<close>

definition buttons_ok :: "HostWindow \<Rightarrow> bool" where
  "buttons_ok s \<longleftrightarrow> (let running = ho_host (hw_coordinator s) \<noteq> None in buttons s = (\<not> running, \<not> running, running, running, \<not> running))"

definition hw_inv :: "HostWindow \<Rightarrow> bool" where
  "hw_inv s \<longleftrightarrow> buttons_ok s \<and> boxes_ok s"

lemma hw_invI: "buttons t = buttons s \<Longrightarrow> boxes_ok t \<Longrightarrow> hw_inv s \<Longrightarrow> hw_inv t"
  by (auto simp: hw_inv_def buttons_ok_def buttons_def Let_def)

lemma hosting_ui_inv:
  assumes "boxes_ok s" and "on = (ho_host (hw_coordinator s) \<noteq> None)"
  shows "hw_inv (setHostingUi on s)"
  using assms by (auto simp: hw_inv_def buttons_ok_def buttons_def setHostingUi_def Let_def boxes_ok_def)

lemma on_coordinator_host: "ho_host (hw_coordinator (on_coordinator u c s)) = None \<longleftrightarrow> ho_host c = None"
  using on_coordinator_buttons [of u c s] by (simp add: buttons_def)

lemma inv_coordinator: "hw_inv s \<Longrightarrow> ho_host c = None \<longleftrightarrow> ho_host (hw_coordinator s) = None \<Longrightarrow> hw_inv (on_coordinator u c s)"
  by (rule hw_invI [where s = s]) (simp_all add: coordinator_buttons boxes_coordinator hw_inv_def)

lemma inv_error: "hw_inv s \<Longrightarrow> hw_inv (hw_showError now m s)"
  by (rule hw_invI [where s = s]) (simp_all add: boxes_error hw_inv_def)

lemma inv_log: "hw_inv s \<Longrightarrow> hw_inv (appendLog line s)"
  by (rule hw_invI [where s = s]) (simp_all add: hw_inv_def)

lemma inv_selected:
  assumes "\<And>r c. ho_host (f r c) = None \<longleftrightarrow> ho_host c = None" "hw_inv s"
  shows "hw_inv (with_selected u row f s)"
  using assms by (simp add: with_selected_def Let_def inv_error inv_coordinator)

lemma start_lan_host: "ho_host (fst (startLan env user rnd listen l c)) = None \<longleftrightarrow> \<not> snd (startLan env user rnd listen l c)"
  by (simp add: startLan_def Let_def case_prod_beta)

lemma start_internet_host: "ho_host (fst (startInternet env conn reg l a p c)) = None \<longleftrightarrow> \<not> snd (startInternet env conn reg l a p c)"
  by (simp add: startInternet_def Let_def split: option.split prod.split)

lemma inv_start:
  assumes "hw_inv s" "hw_startEnabled s"
  shows "hw_inv (startHosting Q u t s)"
proof -
  obtain c ok where c: "(if hf_mode (hw_form s) = 1
       then let (server, port) = server_address Q (qt_trimmed Q (hf_server (hw_form s)))
            in startInternet (ue_env u) (te_conn t) (te_reg t) (launch_settings Q s) server port (hw_coordinator s)
       else startLan (ue_env u) (te_user t) (te_rnd t) (te_listen t) (launch_settings Q s) (hw_coordinator s)) = (c, ok)" by force
  have h: "ho_host c = None \<longleftrightarrow> \<not> ok"
  proof (cases "hf_mode (hw_form s) = 1")
    case True
    obtain server port where "server_address Q (qt_trimmed Q (hf_server (hw_form s))) = (server, port)" by force
    then show ?thesis using start_internet_host c True by (metis (mono_tags, lifting) case_prod_conv fst_conv snd_conv)
  next
    case False
    then show ?thesis using start_lan_host c by (metis fst_conv snd_conv)
  qed
  have n: "ho_host (hw_coordinator s) = None" using assms by (simp add: hw_inv_def buttons_ok_def buttons_def Let_def)
  have e: "startHosting Q u t s = (let s = on_coordinator u c s in
      if \<not> ok then hw_showError (ue_now u) (if te_err t = [] then ''Could not start hosting.'' else te_err t) s else setHostingUi True s)"
    unfolding startHosting_def Let_def using c [unfolded Let_def] by simp
  show ?thesis
  proof (cases ok)
    case True
    then have "hw_inv (setHostingUi True (on_coordinator u c s))"
      by (intro hosting_ui_inv boxes_coordinator) (use h assms(1) on_coordinator_host [of u c s] in \<open>simp_all add: hw_inv_def\<close>)
    then show ?thesis unfolding e Let_def using True by simp
  next
    case False
    then show ?thesis unfolding e Let_def using h n assms(1) by (simp add: inv_error inv_coordinator)
  qed
qed

lemma inv_stop: "hw_inv s \<Longrightarrow> hw_inv (stop_coordinator u s)"
  unfolding stop_coordinator_def by (rule hosting_ui_inv) (simp_all add: boxes_coordinator on_coordinator_host hw_inv_def)

lemma kick_host [simp]: "ho_host (ho_kick env cid c) = ho_host c" "ho_host (ho_setClientInput cid b c) = ho_host c"
  "ho_host (setAbrEnabled b c) = ho_host c" "ho_host (setManualBitrate k c) = ho_host c"
  by (simp_all add: ho_kick_def ho_setClientInput_def if_host_def setAbrEnabled_def setManualBitrate_def)

lemma inv_frame [simp]:
  "hw_inv (s\<lparr>hw_form := f\<rparr>) = hw_inv s" "hw_inv (s\<lparr>hw_slider := n\<rparr>) = hw_inv s" "hw_inv (s\<lparr>hw_clipboard := x\<rparr>) = hw_inv s"
  "hw_inv (s\<lparr>hw_players := ps\<rparr>) = hw_inv s" "hw_inv (s\<lparr>hw_errorBox := b\<rparr>) = hw_inv s" "hw_inv (s\<lparr>hw_sources := r\<rparr>) = hw_inv s"
  "hw_inv (s\<lparr>hw_abrChecked := b\<rparr>) = hw_inv s"
  by (simp_all add: hw_inv_def buttons_ok_def buttons_def boxes_ok_def)

lemma inv_abr: "hw_inv s \<Longrightarrow> hw_inv (set_abr_checked u on s)"
  by (simp add: set_abr_checked_def onAbrToggled_def inv_coordinator)

lemma inv_handle: "hw_inv s \<Longrightarrow> hw_inv (hw_handle Q ue s)"
proof (cases ue)
  case (Pair u e)
  assume i: "hw_inv s"
  show ?thesis
    using i unfolding Pair hw_handle.simps
    by (cases e)
      (auto simp: inv_start inv_stop inv_log inv_error stopHosting_def stopIfHosting_def refreshCaptureSources_def refreshPlayerTable_def
        kickSelected_def toggleInputSelected_def inv_abr onManualBitrate_def copySessionCode_def openLogsFolder_def error_box_closed_def
        backend_host Let_def intro!: inv_coordinator inv_selected)
qed

interpretation hwm: event_machine "HostWindow_new ws factory injector cfg" "hw_handle Q" hw_inv
  by unfold_locales
    (simp add: hw_inv_def buttons_ok_def buttons_def boxes_ok_def HostWindow_new_def refreshCaptureSources_def HostCoordinator_new_def, rule inv_handle)

text \<open>In every run of the host's window the session can be stopped and its code copied exactly while the
  coordinator has a host object, and started or set up exactly while it has none; and of two boxes with the same
  message that follow each other the second opens at least ten seconds after the first, however often the error is
  reported, so that a failing pipeline cannot pile up dialogs.\<close>

theorem host_window_consistent:
  "let s = fold (hw_handle Q) es (HostWindow_new ws factory injector cfg); running = (ho_host (hw_coordinator s) \<noteq> None)
   in hw_stopEnabled s = running \<and> hw_copyEnabled s = running \<and> hw_startEnabled s = (\<not> running) \<and> hw_setupEnabled s = (\<not> running) \<and>
      successively (\<lambda>(t, m) (t', m'). m = m' \<longrightarrow> t + 10000 \<le> t') (hw_boxes s)"
proof -
  have "hw_inv (fold (hw_handle Q) es (HostWindow_new ws factory injector cfg))" by (rule hwm.inv_run)
  then show ?thesis unfolding hw_inv_def buttons_ok_def buttons_def boxes_ok_def Let_def prod.inject by blast
qed

definition qt_example :: Qt where
  "qt_example = \<lparr>qt_toInt = \<lambda>_. 0, qt_toUShort = \<lambda>_. 0, qt_trimmed = id, qt_scaled = \<lambda>_ b. b, qt_number = \<lambda>_. [], qt_fixed = \<lambda>_ _. [], qt_arg = \<lambda>f _. f\<rparr>"

definition ui_at :: "int \<Rightarrow> ui_env" where
  "ui_at t = \<lparr>ue_now = t, ue_yes = (\<lambda>_. True), ue_env = env_example\<rparr>"

definition window_example :: HostWindow where
  "window_example = HostWindow_new [] None InputInjector_new Config_default"

lemma log_errors [simp]:
  "hw_errorBox (appendLog l s) = hw_errorBox s" "hw_boxes (appendLog l s) = hw_boxes s" "hw_lastErrorText (appendLog l s) = hw_lastErrorText s"
  "hw_lastErrorShownAt (appendLog l s) = hw_lastErrorShownAt s"
  by (simp_all add: appendLog_def Let_def)

lemma repeated_error:
  assumes "m \<noteq> []" "\<not> hw_errorBox s" "hw_boxes s = []" "hw_lastErrorText s = []"
  shows "hw_boxes (hw_showError 12000 m (hw_showError 3000 m (error_box_closed (hw_showError 1000 m s)))) = [(1000, m), (12000, m)]"
  using assms by (simp add: hw_showError_def error_box_closed_def Let_def)

theorem host_window_consistent_witness:
  "let s = fold (hw_handle qt_example) [(ui_at 1000, HwKick (-1)), (ui_at 2000, HwBoxClosed), (ui_at 3000, HwKick (-1)), (ui_at 12000, HwToggleInput (-1))]
       window_example
   in map fst (hw_boxes s) = [1000, 12000] \<and> hw_startEnabled s = (ho_host (hw_coordinator s) = None)"
proof -
  let ?es = "[(ui_at 1000, HwKick (-1)), (ui_at 2000, HwBoxClosed), (ui_at 3000, HwKick (-1)), (ui_at 12000, HwToggleInput (-1))]"
  let ?s = "fold (hw_handle qt_example) ?es window_example"
  have "hw_boxes ?s = [(1000, ''Select a player in the table first.''), (12000, ''Select a player in the table first.'')]"
    using repeated_error [of "''Select a player in the table first.''" window_example]
    by (simp add: kickSelected_def toggleInputSelected_def with_selected_def ui_at_def window_example_def HostWindow_new_def refreshCaptureSources_def)
  moreover have "hw_startEnabled ?s = (ho_host (hw_coordinator ?s) = None)"
    using host_window_consistent [of qt_example ?es "[]" None InputInjector_new Config_default]
    unfolding window_example_def Let_def by blast
  ultimately show ?thesis unfolding Let_def by simp
qed

section \<open>What is handed to the coordinator\<close>

text \<open>The slots change neither the session nor the bitrate control.\<close>

definition session_of :: "HostCoordinator \<Rightarrow> HostApp option \<times> bool \<times> bool \<times> bool" where
  "session_of c = (ho_host c, ho_signaling c, ho_timer c, ho_abrEnabled c)"

lemma approve_session: "session_of (ho_approve now cid b c) = session_of c"
  by (simp add: session_of_def ho_approve_def if_host_def via_host_def ho_emit_def split: option.split)

lemma error_keeps: "hw_coordinator (hw_showError now m s) = hw_coordinator s" "hw_abrChecked (hw_showError now m s) = hw_abrChecked s"
  by (simp_all add: hw_showError_def appendLog_def Let_def)

lemma slot_keeps: "session_of (hw_coordinator (hw_slot u out s)) = session_of (hw_coordinator s)" "hw_abrChecked (hw_slot u out s) = hw_abrChecked s"
  by (cases out; simp add: error_keeps onEncoderTrouble_def onStateChanged_def refreshPlayerTable_def onApprovalRequest_def approve_session Let_def)+

lemma slots_keep: "session_of (hw_coordinator (fold (hw_slot u) outs s)) = session_of (hw_coordinator s)"
  "hw_abrChecked (fold (hw_slot u) outs s) = hw_abrChecked s"
  by (induction outs arbitrary: s) (simp_all add: slot_keeps)

lemma on_coordinator_keeps: "session_of (hw_coordinator (on_coordinator u c s)) = session_of c" "hw_abrChecked (on_coordinator u c s) = hw_abrChecked s"
  by (simp_all add: on_coordinator_def slots_keep)

lemma hosting_ui_keeps: "hw_coordinator (setHostingUi on s) = hw_coordinator s" "hw_abrChecked (setHostingUi on s) = hw_abrChecked s"
  "hw_stopEnabled (setHostingUi on s) = on"
  by (simp_all add: setHostingUi_def Let_def)

lemma started_lan:
  assumes "hf_mode (hw_form s) \<noteq> 1" and "te_listen t kDefaultListenPort = Some port"
  obtains c a ss where "startHosting Q u t s = setHostingUi True (on_coordinator u c s)" "ho_host c = Some a" "ha_session a = Some ss"
    "hs_params ss = session_params (te_user t) (launch_settings Q s)" "hs_actualPort ss = port" "hs_running ss" "ho_abrEnabled c"
proof -
  let ?l = "launch_settings Q s"
  have p: "hp_listenPort (session_params (te_user t) ?l) = kDefaultListenPort"
    by (simp add: session_params_def launch_settings_def HostLaunchSettings_default_def Let_def)
  obtain ss ok where h: "hs_start (te_rnd t) (te_listen t) (session_params (te_user t) ?l) (HostSession_new True) = (ss, ok)" by force
  then have ss: "ok" "hs_params ss = session_params (te_user t) ?l" "hs_actualPort ss = port" "hs_running ss"
    using assms(2) p by (auto simp: hs_start_def HostSession_new_def emit_def Let_def)
  obtain c ok' where c: "startLan (ue_env u) (te_user t) (te_rnd t) (te_listen t) ?l (hw_coordinator s) = (c, ok')" by force
  then have "ok'" "\<exists>a. ho_host c = Some a \<and> ha_session a = Some ss" "ho_abrEnabled c"
    using h ss(1) by (auto simp: startLan_def ha_start_def ho_emit_def Let_def)
  moreover have "startHosting Q u t s = setHostingUi True (on_coordinator u c s)"
    using c assms(1) \<open>ok'\<close> by (simp add: startHosting_def Let_def)
  ultimately show ?thesis using that ss by blast
qed

text \<open>A session hosted on the local network listens on the default port, asks for approval and gives every
  player the default input permissions, whatever the settings file says: the page fills in only what its form
  shows, and the function that reads the settings is never called.\<close>

theorem hosting_ignores_settings:
  assumes "hf_mode (hw_form s) \<noteq> 1" and "te_listen t kDefaultListenPort = Some port"
  shows "\<exists>a ss. ho_host (hw_coordinator (startHosting Q u t (s\<lparr>hw_coordinator := HostCoordinator_new cfg injector\<rparr>))) = Some a \<and> ha_session a = Some ss \<and>
    hs_actualPort ss = port \<and> hp_listenPort (hs_params ss) = kDefaultListenPort \<and> \<not> hp_autoApprove (hs_params ss) \<and>
    hp_inputDefaults (hs_params ss) = InputPermissions_default"
proof -
  let ?s = "s\<lparr>hw_coordinator := HostCoordinator_new cfg injector\<rparr>"
  have m: "hf_mode (hw_form ?s) \<noteq> 1" using assms(1) by simp
  obtain c a ss where c: "startHosting Q u t ?s = setHostingUi True (on_coordinator u c ?s)" "ho_host c = Some a" "ha_session a = Some ss"
    "hs_params ss = session_params (te_user t) (launch_settings Q ?s)" "hs_actualPort ss = port"
    by (rule started_lan [OF m assms(2)])
  have "ho_host (hw_coordinator (on_coordinator u c ?s)) = Some a" using on_coordinator_keeps(1) [of u c ?s] c(2) by (simp add: session_of_def)
  then show ?thesis
    using c by (simp add: hosting_ui_keeps session_params_def launch_settings_def HostLaunchSettings_default_def Let_def)
qed

definition start_example :: launch_env where
  "start_example = \<lparr>te_user = ''ann'', te_rnd = (\<lambda>_. 0), te_listen = Some, te_conn = True, te_reg = Some (''ABCD'', 4000, 4001, ''t''), te_err = []\<rparr>"

theorem hosting_ignores_settings_witness:
  "\<exists>a ss. ho_host (hw_coordinator (startHosting qt_example (ui_at 0) start_example (window_example\<lparr>hw_coordinator :=
      HostCoordinator_new (Config_default\<lparr>cfg_network := (cfg_network Config_default)\<lparr>nw_listenPort := 5000\<rparr>\<rparr>) InputInjector_new\<rparr>))) = Some a \<and>
     ha_session a = Some ss \<and> hp_listenPort (hs_params ss) = kDefaultListenPort"
proof -
  have m: "hf_mode (hw_form window_example) \<noteq> 1" and l: "te_listen start_example kDefaultListenPort = Some kDefaultListenPort"
    by (simp_all add: window_example_def HostWindow_new_def refreshCaptureSources_def HostForm_new_def start_example_def)
  from hosting_ignores_settings [OF m l, of qt_example "ui_at 0" "Config_default\<lparr>cfg_network := (cfg_network Config_default)\<lparr>nw_listenPort := 5000\<rparr>\<rparr>" InputInjector_new]
  show ?thesis by blast
qed

lemma started_internet:
  assumes "hf_mode (hw_form s) = 1" "te_conn t" "te_reg t = Some (code, tcp, udp, token)"
  obtains c where "startHosting Q u t s = setHostingUi True (on_coordinator u c s)" "ho_host c = Some HostApp_new" "ho_signaling c" "ho_timer c"
proof -
  obtain server port where sp: "server_address Q (qt_trimmed Q (hf_server (hw_form s))) = (server, port)" by force
  obtain c ok where c: "startInternet (ue_env u) (te_conn t) (te_reg t) (launch_settings Q s) server port (hw_coordinator s) = (c, ok)" by force
  then have "ok" "ho_host c = Some HostApp_new" "ho_signaling c" "ho_timer c"
    using assms(2,3) by (auto simp: startInternet_def ho_emit_def Let_def)
  moreover have "startHosting Q u t s = setHostingUi True (on_coordinator u c s)"
    using c sp assms(1) \<open>ok\<close> by (simp add: startHosting_def Let_def)
  ultimately show ?thesis using that by blast
qed

text \<open>Leaving the page does not end a session of the internet mode: the registration with the server and the timer
  stay, because the window asks whether a local session is running, which the internet mode never starts. A
  session on the local network is stopped.\<close>

theorem internet_session_survives_back:
  assumes "te_conn t" "te_reg t = Some (code, tcp, udp, token)" "te_listen t kDefaultListenPort = Some port"
  shows "if hf_mode (hw_form s) = 1
    then stopIfHosting u' (startHosting Q u t s) = startHosting Q u t s \<and> ho_signaling (hw_coordinator (startHosting Q u t s)) \<and>
      ho_timer (hw_coordinator (startHosting Q u t s)) \<and> hw_stopEnabled (startHosting Q u t s)
    else ho_host (hw_coordinator (stopIfHosting u' (startHosting Q u t s))) = None \<and> \<not> hw_stopEnabled (stopIfHosting u' (startHosting Q u t s))"
proof (cases "hf_mode (hw_form s) = 1")
  case True
  obtain c where c: "startHosting Q u t s = setHostingUi True (on_coordinator u c s)" "ho_host c = Some HostApp_new" "ho_signaling c" "ho_timer c"
    by (rule started_internet [OF True assms(1,2)])
  have k: "ho_host (hw_coordinator (on_coordinator u c s)) = Some HostApp_new" "ho_signaling (hw_coordinator (on_coordinator u c s))"
    "ho_timer (hw_coordinator (on_coordinator u c s))"
    using on_coordinator_keeps(1) [of u c s] c(2-4) by (simp_all add: session_of_def)
  have "\<not> co_hosting (hw_coordinator (startHosting Q u t s))"
    unfolding c(1) by (simp add: co_hosting_def hosting_def HostApp_new_def hosting_ui_keeps k)
  then have "stopIfHosting u' (startHosting Q u t s) = startHosting Q u t s" by (simp add: stopIfHosting_def)
  then show ?thesis using True k by (simp add: c(1) hosting_ui_keeps)
next
  case False
  obtain c a ss where c: "startHosting Q u t s = setHostingUi True (on_coordinator u c s)" "ho_host c = Some a" "ha_session a = Some ss" "hs_running ss"
    by (rule started_lan [OF False assms(3)])
  have "ho_host (hw_coordinator (startHosting Q u t s)) = Some a"
    using on_coordinator_keeps(1) [of u c s] c(2) by (simp add: c(1) session_of_def hosting_ui_keeps)
  then have "co_hosting (hw_coordinator (startHosting Q u t s))" using c(3,4) by (simp add: co_hosting_def hosting_def)
  then show ?thesis using False by (simp add: stopIfHosting_def stop_coordinator_def hosting_ui_keeps on_coordinator_host)
qed

theorem internet_session_survives_back_witness:
  "ho_signaling (hw_coordinator (stopIfHosting (ui_at 1) (startHosting qt_example (ui_at 0) start_example
     (window_example\<lparr>hw_form := (hw_form window_example)\<lparr>hf_mode := 1\<rparr>\<rparr>))))"
  using internet_session_survives_back [of start_example "''ABCD''" 4000 4001 "''t''" kDefaultListenPort
    "window_example\<lparr>hw_form := (hw_form window_example)\<lparr>hf_mode := 1\<rparr>\<rparr>" "ui_at 1" qt_example "ui_at 0"]
  by (simp add: start_example_def)

text \<open>After a manual bitrate the box for the adaptive bitrate is off; stopping and hosting again on the local
  network turns the adaptive bitrate on in the coordinator while the box stays off.\<close>

theorem abr_box_out_of_step:
  assumes "hf_mode (hw_form s) \<noteq> 1" and "te_listen t kDefaultListenPort = Some port" and "\<not> hw_abrChecked s"
  shows "\<not> hw_abrChecked (startHosting Q u t s) \<and> ho_abrEnabled (hw_coordinator (startHosting Q u t s)) \<and>
    \<not> hw_abrChecked (onManualBitrate u mbps r) \<and> \<not> ho_abrEnabled (hw_coordinator (onManualBitrate u mbps r))"
proof -
  obtain c where c: "startHosting Q u t s = setHostingUi True (on_coordinator u c s)" "ho_abrEnabled c" by (rule started_lan [OF assms(1,2)])
  have "\<not> hw_abrChecked (set_abr_checked u False r')" for r' by (simp add: set_abr_checked_def onAbrToggled_def on_coordinator_keeps)
  moreover have "ho_abrEnabled (hw_coordinator (on_coordinator u (setManualBitrate k d) r')) = False" for k d r'
    using on_coordinator_keeps(1) [of u "setManualBitrate k d" r'] by (simp add: session_of_def setManualBitrate_def ho_emit_def)
  ultimately show ?thesis
    using c(2) on_coordinator_keeps [of u c s] assms(3) by (simp add: c(1) hosting_ui_keeps onManualBitrate_def Let_def on_coordinator_keeps session_of_def)
qed

section \<open>Sources\<close>

text \<open>The row that is selected is what is captured. A window row gives the handle the list of windows has in that
  place, with the first monitor as the output; a monitor row gives an index at which the capture finds the very
  monitor the list of outputs has in that place.\<close>

theorem selected_source_captured:
  assumes "i < length (hw_sources (refreshCaptureSources ws (Some ads) s))" and "hf_source f = i"
  shows "let l = launch_settings Q ((refreshCaptureSources ws (Some ads) s)\<lparr>hw_form := f\<rparr>); wins = listCaptureWindows ws; n = length wins
    in if i < n then hl_windowHwnd l = wi_hwnd (wins ! i) \<and> hl_outputIndex l = 0
       else hl_windowHwnd l = 0 \<and> hl_captureMode l = CaptureMode_Monitor \<and>
         map_option (\<lambda>(a, d). output_info (int (i - n)) d) (find_output ads 0 (hl_outputIndex l) 0) = Some (enumerateOutputs (Some ads) ! (i - n))"
proof -
  let ?n = "length (listCaptureWindows ws)" and ?o = "enumerateOutputs (Some ads)"
  let ?s = "(refreshCaptureSources ws (Some ads) s)\<lparr>hw_form := f\<rparr>"
  have c: "current_source ?s = Some (if i < ?n then WindowRow (wi_hwnd (listCaptureWindows ws ! i)) else MonitorRow (oi_index (?o ! (i - ?n))))"
    using assms by (auto simp: current_source_def refreshCaptureSources_def nth_append)
  have "oi_index (?o ! j) = int j" if "j < length ?o" for j
    using that enumerate_infos [of ads "[]"] by (simp add: enumerateOutputs_def infos_def output_info_def)
  moreover define j where "j = i - ?n"
  moreover have "\<not> i < ?n \<Longrightarrow> j < length ?o" using assms unfolding j_def by (simp add: refreshCaptureSources_def)
  ultimately show ?thesis
    using c [folded j_def] output_index_agrees [of j ads] unfolding j_def [symmetric] Let_def launch_settings_def
    by (cases "i < ?n") simp_all
qed

definition two_monitors :: adapters where
  "two_monitors = [[Some \<lparr>do_name = ''D1'', do_rect = \<lparr>rc_left = 0, rc_top = 0, rc_right = 1920, rc_bottom = 1080\<rparr>, do_attached = True\<rparr>,
     Some \<lparr>do_name = ''D2'', do_rect = \<lparr>rc_left = 1920, rc_top = 0, rc_right = 3200, rc_bottom = 720\<rparr>, do_attached = True\<rparr>]]"

lemma two_monitors_sources:
  "hw_sources (refreshCaptureSources [game_window] (Some two_monitors) s) = [WindowRow 7, MonitorRow 0, MonitorRow 1]"
  "length (listCaptureWindows [game_window]) = 1"
  by (simp_all add: refreshCaptureSources_def listCaptureWindows_def enumProc_def game_window_def enumerateOutputs_def two_monitors_def)

theorem selected_source_captured_witness:
  "let l = launch_settings qt_example ((refreshCaptureSources [game_window] (Some two_monitors) window_example)\<lparr>hw_form :=
     (hw_form window_example)\<lparr>hf_source := 2\<rparr>\<rparr>)
   in hl_windowHwnd l = 0 \<and> map_option (\<lambda>(a, d). do_name d) (find_output two_monitors 0 (hl_outputIndex l) 0) = Some ''D2''"
proof -
  let ?f = "(hw_form window_example)\<lparr>hf_source := 2\<rparr>"
  let ?l = "launch_settings qt_example ((refreshCaptureSources [game_window] (Some two_monitors) window_example)\<lparr>hw_form := ?f\<rparr>)"
  have "2 < length (hw_sources (refreshCaptureSources [game_window] (Some two_monitors) window_example))" "hf_source ?f = 2"
    by (simp_all add: two_monitors_sources)
  from selected_source_captured [OF this, of qt_example]
  have l: "hl_windowHwnd ?l = 0" "map_option (\<lambda>(a, d). output_info 1 d) (find_output two_monitors 0 (hl_outputIndex ?l) 0) =
      Some (enumerateOutputs (Some two_monitors) ! 1)"
    unfolding Let_def two_monitors_sources(2) by simp_all
  have "enumerateOutputs (Some two_monitors) ! 1 = \<lparr>oi_index = 1, oi_name = ''D2'', oi_width = 1280, oi_height = 720\<rparr>" by (simp add: enumerateOutputs_def two_monitors_def)
  with l(2) have "map_option (\<lambda>(a, d). output_info 1 d) (find_output two_monitors 0 (hl_outputIndex ?l) 0) =
      Some \<lparr>oi_index = 1, oi_name = ''D2'', oi_width = 1280, oi_height = 720\<rparr>" by (simp only:)
  then show ?thesis using l(1) unfolding Let_def by (auto simp: output_info_def)
qed

text \<open>A window on another monitor than the first cannot be captured: the page always asks for the first monitor, and
  there the window's rectangle is refused.\<close>

theorem window_beside_monitor_refused:
  assumes "current_source s = Some (WindowRow h)" and "h \<noteq> 0" and "dc_monLeft d + dc_monWidth d \<le> fst (wn_origin v)" and "0 \<le> dc_monWidth d"
  shows "hl_captureMode (launch_settings Q s) = CaptureMode_Window \<and> hl_outputIndex (launch_settings Q s) = 0 \<and>
    updateWindowCrop (Some v) d = (d, False)"
proof -
  have "\<not> fst (wn_origin v) - dc_monLeft d < 0" using assms(3,4) by simp
  then have "updateWindowCrop (Some v) d = (d, False)"
    using assms(3) by (simp add: updateWindowCrop_def Let_def case_prod_beta split: option.split)
  then show ?thesis using assms(1,2) by (simp add: launch_settings_def Let_def)
qed

theorem window_beside_monitor_refused_witness:
  "hl_outputIndex (launch_settings qt_example (refreshCaptureSources [game_window] (Some two_monitors) window_example)) = 0 \<and>
   snd (updateWindowCrop (Some (game_window\<lparr>wn_origin := (2000, 50)\<rparr>)) (fst (dc_init one_monitor True 0 DisplayCapture_new))) = False"
proof -
  have c: "current_source (refreshCaptureSources [game_window] (Some two_monitors) window_example) = Some (WindowRow 7)"
    unfolding current_source_def two_monitors_sources by (simp add: refreshCaptureSources_def)
  have d: "dc_monLeft (fst (dc_init one_monitor True 0 DisplayCapture_new)) = 0" "dc_monWidth (fst (dc_init one_monitor True 0 DisplayCapture_new)) = 1920"
    by code_simp+
  show ?thesis
    using window_beside_monitor_refused [OF c, of "fst (dc_init one_monitor True 0 DisplayCapture_new)" "game_window\<lparr>wn_origin := (2000, 50)\<rparr>" qt_example] d
    by simp
qed

end
