(* ===== verification/ControllerReader.thy ===== *)
theory ControllerReader
  imports InputProtocol RP_Types "HOL-Library.Signed_Division"
begin

text \<open>
  \<^verbatim>\<open>input/ControllerReader.h\<close> and \<^verbatim>\<open>input/ControllerReader.cpp\<close>: the client reads its own pads through
  XInput and DirectInput. What the system libraries return is an argument of the operation that
  calls them: \<open>xget i\<close> is the buffer of \<^verbatim>\<open>XInputGetState\<close> on user \<open>i\<close>, or \<open>None\<close> when it fails; a
  DirectInput device is known by its position in the enumeration.

  The theorems bound the number of states a poll yields and describe the reading of each kind of pad.
\<close>

section \<open>Conversions\<close>

definition clampI16 :: "u32 \<Rightarrow> u16" where
  "clampI16 v = word_of_int (if sint v < -32768 then -32768 else if sint v > 32767 then 32767 else sint v)"

text \<open>The fields of \<^verbatim>\<open>DIJOYSTATE2\<close> the reader uses.\<close>

record DIJOYSTATE2 =
  js_lX :: u32
  js_lY :: u32
  js_lZ :: u32
  js_lRx :: u32
  js_lRz :: u32
  js_slider0 :: u32
  js_pov0 :: u32
  js_buttons :: "u8 list"

definition DIJOYSTATE2_zero :: DIJOYSTATE2 where
  "DIJOYSTATE2_zero = \<lparr>js_lX = 0, js_lY = 0, js_lZ = 0, js_lRx = 0, js_lRz = 0, js_slider0 = 0,
     js_pov0 = 0, js_buttons = replicate 128 0\<rparr>"

definition trigger_of :: "u32 \<Rightarrow> u8" where
  "trigger_of axis = word_of_int ((sint axis + 32768) div 256)"

definition pov_buttons :: "u32 \<Rightarrow> u16" where
  "pov_buttons pov =
     (if pov = - 1 then 0
      else let deg = sint pov sdiv 100 in
        (if deg \<ge> 315 \<or> deg \<le> 45 then DUp else 0) OR
        (if deg \<ge> 45 \<and> deg \<le> 135 then DRight else 0) OR
        (if deg \<ge> 135 \<and> deg \<le> 225 then DDown else 0) OR
        (if deg \<ge> 225 \<and> deg \<le> 315 then DLeft else 0))"

definition press_buttons :: "u8 list \<Rightarrow> u16 \<Rightarrow> u16" where
  "press_buttons bs start =
     fold (\<lambda>b acc. if bs ! b AND 0x80 \<noteq> 0 then acc OR push_bit b 1 else acc) [0..<16] start"

definition xinput_state :: "u64 \<Rightarrow> bytes \<Rightarrow> GameControllerState" where
  "xinput_state now raw = \<lparr>gc_version = 1, gc_connected = 1, gc_buttons = le_get 2 (drop 4 raw),
     gc_leftTrigger = raw ! 6, gc_rightTrigger = raw ! 7, gc_thumbLX = le_get 2 (drop 8 raw),
     gc_thumbLY = le_get 2 (drop 10 raw), gc_thumbRX = le_get 2 (drop 12 raw),
     gc_thumbRY = le_get 2 (drop 14 raw), gc_timestampNs = now\<rparr>"

definition dinput_state :: "u64 \<Rightarrow> DIJOYSTATE2 \<Rightarrow> GameControllerState" where
  "dinput_state now js = \<lparr>gc_version = 1, gc_connected = 1,
     gc_buttons = press_buttons (js_buttons js) (pov_buttons (js_pov0 js)),
     gc_leftTrigger = trigger_of (js_lRx js), gc_rightTrigger = trigger_of (js_slider0 js),
     gc_thumbLX = clampI16 (js_lX js), gc_thumbLY = clampI16 (js_lY js),
     gc_thumbRX = clampI16 (js_lZ js), gc_thumbRY = clampI16 (js_lRz js), gc_timestampNs = now\<rparr>"

section \<open>State\<close>

record DeviceInfo =
  dv_slot :: nat
  dv_name :: string
  dv_isXInput :: bool

text \<open>A DirectInput device: its position in the enumeration (the identity of \<^verbatim>\<open>dev\<close>), its slot and its
  wide name.\<close>

record DInputDevice =
  dd_dev :: nat
  dd_slot :: nat
  dd_name :: "u16 list"

record ControllerReader =
  cr_xinputGetState :: bool
  cr_xinputSetState :: bool
  cr_dinput :: "DInputDevice list option"
  cr_devices :: "DeviceInfo list"
  cr_lastError :: string

definition ControllerReader_new :: ControllerReader where
  "ControllerReader_new = \<lparr>cr_xinputGetState = False, cr_xinputSetState = False, cr_dinput = None,
     cr_devices = [], cr_lastError = []\<rparr>"

definition XUSER_MAX_COUNT :: nat where "XUSER_MAX_COUNT = 4"
definition kMaxDevices :: nat where "kMaxDevices = 8"

section \<open>Discovery\<close>

text \<open>An instance of the enumeration: whether it is a gamepad or a joystick, its product name, and
  whether \<^verbatim>\<open>CreateDevice\<close> succeeds on it.\<close>

record di_instance =
  in_pad :: bool
  in_name :: "u16 list"
  in_created :: bool

fun enumDevices :: "nat \<Rightarrow> nat \<Rightarrow> di_instance list \<Rightarrow> DInputDevice list" where
  "enumDevices k nextSlot [] = []"
| "enumDevices k nextSlot (i # is) =
     (if nextSlot \<ge> kMaxDevices then []
      else if \<not> in_pad i then enumDevices (Suc k) nextSlot is
      else (if in_created i then [\<lparr>dd_dev = k, dd_slot = nextSlot, dd_name = in_name i\<rparr>] else []) @
        enumDevices (Suc k) (nextSlot + 1) is)"

definition xinput_devices :: "(nat \<Rightarrow> bytes option) \<Rightarrow> DeviceInfo list" where
  "xinput_devices xget =
     map (\<lambda>i. \<lparr>dv_slot = i, dv_name = ''XInput pad '' @ dec_digits (i + 1), dv_isXInput = True\<rparr>)
       (filter (\<lambda>i. xget i \<noteq> None) [0..<XUSER_MAX_COUNT])"

definition narrow :: "u16 list \<Rightarrow> string" where
  "narrow w = map (\<lambda>c. char_of_byte (ucast c)) w"

definition dinput_info :: "DInputDevice \<Rightarrow> DeviceInfo" where
  "dinput_info d = \<lparr>dv_slot = dd_slot d,
     dv_name = (if narrow (dd_name d) = [] then ''DirectInput pad'' else narrow (dd_name d)), dv_isXInput = False\<rparr>"

text \<open>\<open>xi\<close>: the library and its two exports, if found; \<open>di\<close>: the instances when \<^verbatim>\<open>dinput8.dll\<close> loads and
  \<^verbatim>\<open>DirectInput8Create\<close> succeeds.\<close>

definition discover ::
  "(bool \<times> bool) option \<Rightarrow> (nat \<Rightarrow> bytes option) \<Rightarrow> di_instance list option \<Rightarrow> ControllerReader \<Rightarrow>
     ControllerReader \<times> bool" where
  "discover xi xget di s =
     (let s = s\<lparr>cr_devices := [], cr_lastError := []\<rparr>;
          s = (case xi of
                 None \<Rightarrow> s\<lparr>cr_lastError := ''xinput DLLs not found''\<rparr>
               | Some (getState, setState) \<Rightarrow>
                   s\<lparr>cr_xinputGetState := getState, cr_xinputSetState := setState,
                     cr_devices := (if getState then xinput_devices xget else [])\<rparr>);
          s = (case di of
                 None \<Rightarrow> s
               | Some insts \<Rightarrow>
                   let ds = enumDevices 0 0 insts
                   in s\<lparr>cr_dinput := Some ds, cr_devices := cr_devices s @ map dinput_info ds\<rparr>)
      in (s, True))"

definition closeDirectInput :: "ControllerReader \<Rightarrow> ControllerReader" where
  "closeDirectInput s = s\<lparr>cr_dinput := None\<rparr>"

section \<open>Polling\<close>

text \<open>\<open>dpoll d\<close>: whether \<^verbatim>\<open>Poll\<close> succeeds on the device; \<open>dget d\<close>: what \<^verbatim>\<open>GetDeviceState\<close> fills in, or
  \<open>None\<close> when it fails.\<close>

definition dinput_reading ::
  "(nat \<Rightarrow> bool) \<Rightarrow> (nat \<Rightarrow> DIJOYSTATE2 option) \<Rightarrow> DInputDevice \<Rightarrow> DIJOYSTATE2 option" where
  "dinput_reading dpoll dget d =
     (if dpoll (dd_dev d) then Some DIJOYSTATE2_zero else dget (dd_dev d))"

definition cr_poll ::
  "u64 \<Rightarrow> (nat \<Rightarrow> bytes option) \<Rightarrow> (nat \<Rightarrow> bool) \<Rightarrow> (nat \<Rightarrow> DIJOYSTATE2 option) \<Rightarrow> ControllerReader \<Rightarrow>
     GameControllerState list" where
  "cr_poll now xget dpoll dget s =
     (if cr_xinputGetState s then map (xinput_state now) (List.map_filter xget [0..<XUSER_MAX_COUNT]) else []) @
     (case cr_dinput s of
        None \<Rightarrow> []
      | Some ds \<Rightarrow> map (dinput_state now) (List.map_filter (dinput_reading dpoll dget) ds))"

text \<open>The call of \<^verbatim>\<open>XInputSetState\<close> a rumble command leads to: the user and the vibration buffer.\<close>

definition cr_rumble :: "u8 \<Rightarrow> u8 \<Rightarrow> u8 \<Rightarrow> ControllerReader \<Rightarrow> (nat \<times> bytes) option" where
  "cr_rumble playerIndex left right s =
     (if cr_xinputSetState s \<and> unat playerIndex < XUSER_MAX_COUNT
      then Some (unat playerIndex, le_put 2 (ucast left * 257 :: u16) @ le_put 2 (ucast right * 257 :: u16))
      else None)"

section \<open>Properties\<close>

lemma enumDevices_slots:
  "\<forall>d \<in> set (enumDevices k n is). n \<le> dd_slot d \<and> dd_slot d < kMaxDevices"
proof (induction k n "is" rule: enumDevices.induct)
  case (1 k n)
  then show ?case by simp
next
  case (2 k n i "is")
  then show ?case by (auto simp: kMaxDevices_def dest!: bspec)
qed

lemma enumDevices_distinct: "distinct (map dd_slot (enumDevices k n is))"
proof (induction k n "is" rule: enumDevices.induct)
  case (1 k n)
  then show ?case by simp
next
  case (2 k n i "is")
  have "n \<notin> dd_slot ` set (enumDevices (Suc k) (n + 1) is)"
    using enumDevices_slots [of "Suc k" "n + 1" "is"] by auto
  with 2 show ?case by auto
qed

lemma enumDevices_length: "length (enumDevices k n is) \<le> kMaxDevices - n"
proof -
  have "set (map dd_slot (enumDevices k n is)) \<subseteq> {n..<kMaxDevices}"
    using enumDevices_slots [of k n "is"] by auto
  then have "card (set (map dd_slot (enumDevices k n is))) \<le> kMaxDevices - n"
    using card_mono [OF finite_atLeastLessThan] by fastforce
  then show ?thesis using distinct_card [OF enumDevices_distinct [of k n "is"]] by simp
qed

lemma length_map_filter: "length (List.map_filter f xs) \<le> length xs"
  by (simp add: List.map_filter_def)

definition cr_inv :: "ControllerReader \<Rightarrow> bool" where
  "cr_inv s \<longleftrightarrow> (case cr_dinput s of None \<Rightarrow> True | Some ds \<Rightarrow>
     distinct (map dd_slot ds) \<and> length ds \<le> kMaxDevices \<and> list_all (\<lambda>d. dd_slot d < kMaxDevices) ds)"

lemma cr_inv_discover: "cr_inv s \<Longrightarrow> cr_inv (fst (discover xi xget di s))"
  using enumDevices_slots [of 0 0] enumDevices_length [of 0 0] enumDevices_distinct [of 0 0]
  by (auto simp: cr_inv_def discover_def Let_def list_all_iff split: option.split)

lemma poll_bound:
  assumes "cr_inv s"
  shows "length (cr_poll now xget dpoll dget s) \<le> XUSER_MAX_COUNT + kMaxDevices"
proof -
  have "length (List.map_filter xget [0..<XUSER_MAX_COUNT]) \<le> XUSER_MAX_COUNT"
    using length_map_filter [of xget "[0..<XUSER_MAX_COUNT]"] by simp
  moreover have "length (List.map_filter (dinput_reading dpoll dget) ds) \<le> kMaxDevices" if "cr_dinput s = Some ds" for ds
    using assms that by (auto simp: cr_inv_def intro: le_trans [OF length_map_filter])
  ultimately show ?thesis by (auto simp: cr_poll_def split: option.split intro: add_mono)
qed

text \<open>The conversions are exact on the range the reader asks DirectInput for, and clamp outside it.\<close>

lemma sint_clampI16: "sint (clampI16 v) = max (-32768) (min 32767 (sint v))"
proof -
  have "sint (word_of_int x :: u16) = x" if "-32768 \<le> x" "x \<le> 32767" for x :: int
    using that by (simp add: sint_sbintrunc' signed_take_bit_int_eq_self)
  then show ?thesis by (auto simp: clampI16_def max_def min_def)
qed

lemma uint_trigger_of:
  assumes "-32768 \<le> sint axis" and "sint axis \<le> 32767"
  shows "uint (trigger_of axis) = (sint axis + 32768) div 256"
  using assms by (simp add: trigger_of_def uint_word_of_int)

lemma rumble_scale: "unat (ucast m * 257 :: u16) = unat m * 257" for m :: u8
proof -
  have "unat m < 256" using unsigned_less [of m, where 'a = nat] by simp
  moreover from this have "unat (ucast m :: u16) = unat m"
    by (simp add: unsigned_ucast_eq take_bit_nat_eq_self)
  ultimately show ?thesis by (simp add: unat_word_ariths)
qed

text \<open>A DirectInput device on which \<^verbatim>\<open>Poll\<close> succeeds, as it does on every acquired device, yields the
  same reading whatever its sticks and buttons do: \<^verbatim>\<open>GetDeviceState\<close> runs only when \<^verbatim>\<open>Poll\<close> fails, so the
  zeroed buffer is converted, with the d-pad up and both triggers half pressed.\<close>

theorem polled_dinput_is_constant:
  assumes "cr_dinput s = Some ds" and "\<forall>d \<in> set ds. dpoll (dd_dev d)"
  shows "cr_poll now xget dpoll dget s =
    cr_poll now xget (\<lambda>_. False) (\<lambda>_. None) s @
    replicate (length ds) (GameControllerState_default\<lparr>gc_connected := 1, gc_buttons := DUp,
      gc_leftTrigger := 128, gc_rightTrigger := 128, gc_timestampNs := now\<rparr>)"
proof -
  have z: "dinput_state now DIJOYSTATE2_zero = GameControllerState_default\<lparr>gc_connected := 1, gc_buttons := DUp,
      gc_leftTrigger := 128, gc_rightTrigger := 128, gc_timestampNs := now\<rparr>"
  proof -
    have "press_buttons (replicate 128 0) (pov_buttons 0) = DUp" by code_simp
    moreover have "trigger_of 0 = 128" by code_simp
    moreover have "clampI16 0 = 0" by code_simp
    ultimately show ?thesis
      by (simp add: dinput_state_def DIJOYSTATE2_zero_def GameControllerState_default_def)
  qed
  have "List.map_filter (dinput_reading dpoll dget) ds = replicate (length ds) DIJOYSTATE2_zero"
    using assms(2) by (induction ds) (simp_all add: List.map_filter_simps dinput_reading_def)
  moreover have "List.map_filter (dinput_reading (\<lambda>_. False) (\<lambda>_. None)) ds = []"
    by (induction ds) (simp_all add: List.map_filter_simps dinput_reading_def)
  ultimately show ?thesis using assms(1) z by (simp add: cr_poll_def map_replicate)
qed

definition reader_example :: ControllerReader where
  "reader_example = fst (discover None (\<lambda>_. None)
     (Some [\<lparr>in_pad = True, in_name = [80, 97, 100], in_created = True\<rparr>]) ControllerReader_new)"

definition stick_example :: DIJOYSTATE2 where
  "stick_example = DIJOYSTATE2_zero\<lparr>js_lX := 20000, js_pov0 := - 1\<rparr>"

theorem polled_dinput_is_constant_witness:
  "cr_poll 5 (\<lambda>_. None) (\<lambda>_. True) (\<lambda>_. Some stick_example) reader_example =
     [GameControllerState_default\<lparr>gc_connected := 1, gc_buttons := DUp,
        gc_leftTrigger := 128, gc_rightTrigger := 128, gc_timestampNs := 5\<rparr>]"
proof -
  have ds: "cr_dinput reader_example = Some [\<lparr>dd_dev = 0, dd_slot = 0, dd_name = [80, 97, 100]\<rparr>]" by code_simp
  have "cr_poll 5 (\<lambda>_. None) (\<lambda>_. False) (\<lambda>_. None) reader_example = []" by code_simp
  then show ?thesis using polled_dinput_is_constant [OF ds, of "\<lambda>_. True" 5 "\<lambda>_. None"] by simp
qed

text \<open>The d-pad bits of the wire format are other buttons in the report of the virtual pad, which has the
  XInput layout: down arrives as A.\<close>

definition XINPUT_GAMEPAD_A :: u16 where "XINPUT_GAMEPAD_A = 0x1000"
definition XINPUT_GAMEPAD_DPAD_DOWN :: u16 where "XINPUT_GAMEPAD_DPAD_DOWN = 0x0002"

lemma pov_down_is_A:
  "gc_buttons (dinput_state now (DIJOYSTATE2_zero\<lparr>js_pov0 := 18000\<rparr>)) = XINPUT_GAMEPAD_A"
  "XINPUT_GAMEPAD_A AND XINPUT_GAMEPAD_DPAD_DOWN = 0"
proof -
  have "press_buttons (replicate 128 0) (pov_buttons 18000) = XINPUT_GAMEPAD_A" by code_simp
  then show "gc_buttons (dinput_state now (DIJOYSTATE2_zero\<lparr>js_pov0 := 18000\<rparr>)) = XINPUT_GAMEPAD_A"
    by (simp add: dinput_state_def DIJOYSTATE2_zero_def)
qed (simp add: XINPUT_GAMEPAD_A_def XINPUT_GAMEPAD_DPAD_DOWN_def)

end
