(* ===== verification/InputSender.thy ===== *)
theory InputSender
  imports ControllerReader UdpTransport "HOL-Library.Sublist"
begin

text \<open>
  \<^verbatim>\<open>input/InputSender.h\<close> and \<^verbatim>\<open>input/InputSender.cpp\<close>: the client's sender thread. One pass of the loop of
  \<^verbatim>\<open>senderThread\<close> is \<open>sender_pass\<close>: \<open>now\<close> is the clock and \<open>states\<close> what the poll yields. The payloads
  handed to \<^verbatim>\<open>sendSmall\<close> are appended to \<open>is_sent\<close>.

  The theorems: keyboard and mouse events leave in the order they were queued, the queue is bounded,
  and after every pass the pad states last sent are the current ones.
\<close>

record InputSender =
  is_transport :: bool
  is_slot :: u8
  is_thread :: bool
  is_running :: bool
  is_eventQueue :: "InputEvent list"
  is_controllerEnabled :: bool
  is_keyboardEnabled :: bool
  is_mouseEnabled :: bool
  is_packetsSent :: u64
  is_eventsQueued :: u64
  is_lastSent :: "GameControllerState list"
  is_lastKeepaliveNs :: u64
  is_sent :: "bytes list"

definition InputSender_new :: InputSender where
  "InputSender_new = \<lparr>is_transport = False, is_slot = 0, is_thread = False, is_running = False,
     is_eventQueue = [], is_controllerEnabled = True, is_keyboardEnabled = False, is_mouseEnabled = False,
     is_packetsSent = 0, is_eventsQueued = 0, is_lastSent = replicate 4 GameControllerState_default,
     is_lastKeepaliveNs = 0, is_sent = []\<rparr>"

definition stateEqual :: "GameControllerState \<Rightarrow> GameControllerState \<Rightarrow> bool" where
  "stateEqual a b \<longleftrightarrow> gc_connected a = gc_connected b \<and> gc_buttons a = gc_buttons b \<and>
     gc_leftTrigger a = gc_leftTrigger b \<and> gc_rightTrigger a = gc_rightTrigger b \<and>
     gc_thumbLX a = gc_thumbLX b \<and> gc_thumbLY a = gc_thumbLY b \<and>
     gc_thumbRX a = gc_thumbRX b \<and> gc_thumbRY a = gc_thumbRY b"

text \<open>\<open>found\<close>: the result of \<^verbatim>\<open>discover\<close>.\<close>

definition is_start :: "u64 \<Rightarrow> bool \<Rightarrow> bool \<Rightarrow> u8 \<Rightarrow> InputSender \<Rightarrow> InputSender \<times> bool" where
  "is_start now found transport controllerSlot s =
     (if is_running s then (s\<lparr>is_running := False\<rparr>, False)
      else
        let s = s\<lparr>is_running := True, is_transport := transport, is_slot := controllerSlot\<rparr> in
        if \<not> found then (s\<lparr>is_running := False\<rparr>, False)
        else (s\<lparr>is_lastKeepaliveNs := now, is_thread := True\<rparr>, True))"

definition is_stop :: "InputSender \<Rightarrow> InputSender" where
  "is_stop s =
     (if \<not> is_running s then s
      else s\<lparr>is_running := False, is_thread := False, is_transport := False\<rparr>)"

definition setEnabled :: "bool \<Rightarrow> bool \<Rightarrow> bool \<Rightarrow> InputSender \<Rightarrow> InputSender" where
  "setEnabled controller keyboard mouse s =
     s\<lparr>is_controllerEnabled := controller, is_keyboardEnabled := keyboard, is_mouseEnabled := mouse\<rparr>"

definition accepts_event :: "InputEvent \<Rightarrow> InputSender \<Rightarrow> bool" where
  "accepts_event e s \<longleftrightarrow> is_running s \<and>
     (if ie_type e = KeyDown \<or> ie_type e = KeyUp then is_keyboardEnabled s else is_mouseEnabled s)"

definition queueEvent :: "InputEvent \<Rightarrow> InputSender \<Rightarrow> InputSender" where
  "queueEvent e s =
     (if \<not> accepts_event e s then s
      else
        let q = (if length (is_eventQueue s) > 256 then [] else is_eventQueue s)
        in s\<lparr>is_eventQueue := q @ [e], is_eventsQueued := is_eventsQueued s + 1\<rparr>)"

definition onControlMessage :: "bytes \<Rightarrow> ControllerReader \<Rightarrow> (nat \<times> bytes) option" where
  "onControlMessage payload r =
     (if length payload \<ge> 4
      then let c = rumble_of_bytes payload
           in if rc_tag c = 82 then cr_rumble (rc_playerIndex c) (rc_leftMotor c) (rc_rightMotor c) r else None
      else None)"

section \<open>The sender thread\<close>

definition kKeepaliveNs :: u64 where "kKeepaliveNs = 500000000"

definition is_send :: "bytes \<Rightarrow> InputSender \<Rightarrow> InputSender" where
  "is_send pkt s = s\<lparr>is_sent := is_sent s @ [pkt], is_packetsSent := is_packetsSent s + 1\<rparr>"

definition send_state :: "u64 \<Rightarrow> GameControllerState list \<Rightarrow> nat \<Rightarrow> InputSender \<Rightarrow> InputSender" where
  "send_state now states i s =
     (let st = states ! i;
          changed = (\<not> stateEqual (is_lastSent s ! i) st);
          keepalive = (now - is_lastKeepaliveNs s > kKeepaliveNs)
      in if changed \<or> keepalive
         then (is_send (packControllerState st) s)\<lparr>is_lastSent := (is_lastSent s)[i := st]\<rparr>
         else s)"

definition send_states :: "u64 \<Rightarrow> GameControllerState list \<Rightarrow> InputSender \<Rightarrow> InputSender" where
  "send_states now states s =
     (let s = fold (send_state now states) [0..<min (length states) 4] s
      in if states \<noteq> [] \<and> now - is_lastKeepaliveNs s > kKeepaliveNs then s\<lparr>is_lastKeepaliveNs := now\<rparr> else s)"

definition send_events :: "InputSender \<Rightarrow> InputSender" where
  "send_events s =
     (let toSend = is_eventQueue s; s = s\<lparr>is_eventQueue := []\<rparr>
      in if is_transport s then fold (\<lambda>e. is_send (packInputEvent e)) toSend s else s)"

definition sender_pass :: "u64 \<Rightarrow> GameControllerState list \<Rightarrow> InputSender \<Rightarrow> InputSender" where
  "sender_pass now states s =
     (if \<not> is_running s then s
      else send_events (if is_controllerEnabled s \<and> is_transport s then send_states now states s else s))"

section \<open>Runs\<close>

datatype is_event =
    SStart u64 bool bool u8
  | SStop
  | SSetEnabled bool bool bool
  | SQueue InputEvent
  | SPass u64 "GameControllerState list"

fun is_handle :: "is_event \<Rightarrow> InputSender \<Rightarrow> InputSender" where
  "is_handle (SStart now found transport slot) s = fst (is_start now found transport slot s)"
| "is_handle SStop s = is_stop s"
| "is_handle (SSetEnabled c k m) s = setEnabled c k m s"
| "is_handle (SQueue e) s = queueEvent e s"
| "is_handle (SPass now states) s = sender_pass now states s"

text \<open>The events a run accepts, and the events and pad states the host unpacks from what was sent.\<close>

fun accepted :: "is_event list \<Rightarrow> InputSender \<Rightarrow> InputEvent list" where
  "accepted [] s = []"
| "accepted (ev # evs) s =
     (case ev of SQueue e \<Rightarrow> if accepts_event e s then [e] else [] | _ \<Rightarrow> []) @ accepted evs (is_handle ev s)"

definition event_of :: "bytes \<Rightarrow> InputEvent option" where
  "event_of pkt = (case unpackInput pkt of Some (Event e) \<Rightarrow> Some e | _ \<Rightarrow> None)"

definition pad_of :: "bytes \<Rightarrow> GameControllerState option" where
  "pad_of pkt = (case unpackInput pkt of Some (Controller st) \<Rightarrow> Some st | _ \<Rightarrow> None)"

definition sent_events :: "InputSender \<Rightarrow> InputEvent list" where
  "sent_events s = List.map_filter event_of (is_sent s)"

definition sent_pads :: "InputSender \<Rightarrow> GameControllerState list" where
  "sent_pads s = List.map_filter pad_of (is_sent s)"

lemma map_filter_append [simp]: "List.map_filter f (xs @ ys) = List.map_filter f xs @ List.map_filter f ys"
  by (simp add: List.map_filter_def)

lemma views_send [simp]:
  "sent_events (is_send (packInputEvent e) s) = sent_events s @ [e]"
  "sent_events (is_send (packControllerState st) s) = sent_events s"
  "sent_pads (is_send (packInputEvent e) s) = sent_pads s"
  "sent_pads (is_send (packControllerState st) s) = sent_pads s @ [st]"
  by (simp_all add: sent_events_def sent_pads_def is_send_def event_of_def pad_of_def List.map_filter_simps)

lemma views_frame [simp]:
  "sent_events (s\<lparr>is_lastSent := l\<rparr>) = sent_events s" "sent_events (s\<lparr>is_lastKeepaliveNs := k\<rparr>) = sent_events s"
  "sent_events (s\<lparr>is_eventQueue := q\<rparr>) = sent_events s"
  "sent_pads (s\<lparr>is_lastSent := l\<rparr>) = sent_pads s" "sent_pads (s\<lparr>is_lastKeepaliveNs := k\<rparr>) = sent_pads s"
  "sent_pads (s\<lparr>is_eventQueue := q\<rparr>) = sent_pads s"
  by (simp_all add: sent_events_def sent_pads_def)

lemma send_fold_events:
  "sent_events (fold (\<lambda>e. is_send (packInputEvent e)) es s) = sent_events s @ es"
  "sent_pads (fold (\<lambda>e. is_send (packInputEvent e)) es s) = sent_pads s"
  "is_eventQueue (fold (\<lambda>e. is_send (packInputEvent e)) es s) = is_eventQueue s"
  "is_lastSent (fold (\<lambda>e. is_send (packInputEvent e)) es s) = is_lastSent s"
proof (induction es arbitrary: s)
  case (Cons e es)
  {
    case 1
    show ?case using Cons by simp
  next
    case 2
    show ?case using Cons by simp
  next
    case 3
    show ?case using Cons by (simp add: is_send_def)
  next
    case 4
    show ?case using Cons by (simp add: is_send_def)
  }
qed simp_all

lemma send_events_effect:
  "is_eventQueue (send_events s) = []" "sent_pads (send_events s) = sent_pads s"
  "is_lastSent (send_events s) = is_lastSent s"
  "sent_events (send_events s) = sent_events s @ (if is_transport s then is_eventQueue s else [])"
  by (simp_all add: send_events_def Let_def send_fold_events)

lemma send_state_keeps:
  "sent_events (send_state now states i s) = sent_events s"
  "is_eventQueue (send_state now states i s) = is_eventQueue s"
  "is_lastKeepaliveNs (send_state now states i s) = is_lastKeepaliveNs s"
  "is_transport (send_state now states i s) = is_transport s"
  "length (is_lastSent (send_state now states i s)) = length (is_lastSent s)"
  by (simp_all add: send_state_def Let_def is_send_def) (simp_all flip: is_send_def)

lemma send_loop_keeps:
  "sent_events (fold (send_state now states) is s) = sent_events s \<and>
   is_eventQueue (fold (send_state now states) is s) = is_eventQueue s \<and>
   is_transport (fold (send_state now states) is s) = is_transport s \<and>
   is_lastKeepaliveNs (fold (send_state now states) is s) = is_lastKeepaliveNs s \<and>
   length (is_lastSent (fold (send_state now states) is s)) = length (is_lastSent s)"
  by (induction "is" arbitrary: s) (simp_all add: send_state_keeps)

lemma send_states_keeps:
  "sent_events (send_states now states s) = sent_events s"
  "is_eventQueue (send_states now states s) = is_eventQueue s"
  "is_transport (send_states now states s) = is_transport s"
  by (simp_all add: send_states_def Let_def send_loop_keeps)

lemma pass_events:
  "is_eventQueue (sender_pass now states s) = (if is_running s then [] else is_eventQueue s)"
  "sent_events (sender_pass now states s) =
     sent_events s @ (if is_running s \<and> is_transport s then is_eventQueue s else [])"
  by (simp_all add: sender_pass_def send_events_effect send_states_keeps)

definition fresh_events :: "is_event \<Rightarrow> InputSender \<Rightarrow> InputEvent list" where
  "fresh_events ev s = (case ev of SQueue e \<Rightarrow> if accepts_event e s then [e] else [] | _ \<Rightarrow> [])"

text \<open>What the sender keeps in step with the accepted events \<open>acc\<close>.\<close>

definition in_step :: "InputEvent list \<Rightarrow> InputSender \<Rightarrow> bool" where
  "in_step acc s \<longleftrightarrow> subseq (sent_events s @ is_eventQueue s) acc \<and> length (is_eventQueue s) \<le> 257"

lemma in_step_queue:
  assumes "in_step acc s" and "accepts_event e s"
  shows "in_step (acc @ [e]) (queueEvent e s)"
proof -
  let ?q = "if length (is_eventQueue s) > 256 then [] else is_eventQueue s"
  have "subseq (sent_events s) acc" "subseq (sent_events s @ is_eventQueue s) acc"
    using assms(1) by (auto simp: in_step_def elim: subseq_order.trans [rotated])
  then have "subseq (sent_events s @ ?q) acc" by simp
  then have "subseq ((sent_events s @ ?q) @ [e]) (acc @ [e])" by (simp only: subseq_append)
  moreover have "sent_events (queueEvent e s) = sent_events s" by (simp add: queueEvent_def sent_events_def Let_def)
  moreover have "is_eventQueue (queueEvent e s) = ?q @ [e]" using assms(2) by (simp add: queueEvent_def Let_def)
  ultimately show ?thesis using assms(1) by (simp add: in_step_def)
qed

lemma in_step_pass: "in_step acc s \<Longrightarrow> in_step acc (sender_pass now states s)"
  by (auto simp: in_step_def pass_events elim: subseq_order.trans [rotated])

lemma in_step_handle: "in_step acc s \<Longrightarrow> in_step (acc @ fresh_events ev s) (is_handle ev s)"
proof (cases ev)
  case (SQueue e)
  assume "in_step acc s"
  then show ?thesis
    using SQueue in_step_queue by (cases "accepts_event e s") (simp_all add: fresh_events_def queueEvent_def)
qed (simp_all add: fresh_events_def in_step_pass, simp_all add: in_step_def sent_events_def is_start_def is_stop_def
    setEnabled_def Let_def)

text \<open>On every run the keyboard and mouse events the host can unpack, followed by those still
  queued, are accepted events in the order they were queued, none twice and none invented, and at
  most 257 wait.\<close>

theorem sender_events_in_order:
  "subseq (sent_events (fold is_handle evs InputSender_new) @ is_eventQueue (fold is_handle evs InputSender_new))
     (accepted evs InputSender_new) \<and>
   length (is_eventQueue (fold is_handle evs InputSender_new)) \<le> 257"
proof -
  have "in_step (acc @ accepted evs s) (fold is_handle evs s)" if "in_step acc s" for s acc
    using that
  proof (induction evs arbitrary: s acc)
    case (Cons ev evs)
    from Cons.IH [OF in_step_handle [OF Cons.prems, of ev]] show ?case by (simp add: fresh_events_def)
  qed simp
  from this [of "[]" InputSender_new] show ?thesis
    by (simp add: in_step_def InputSender_new_def sent_events_def List.map_filter_simps)
qed

text \<open>A burst of at most 257 events between two passes of a connected sender loses nothing.\<close>

lemma queue_burst:
  assumes "list_all (\<lambda>e. accepts_event e s) es" and "length (is_eventQueue s) + length es \<le> 257"
  shows "is_eventQueue (fold queueEvent es s) = is_eventQueue s @ es \<and>
    sent_events (fold queueEvent es s) = sent_events s \<and> is_running (fold queueEvent es s) = is_running s \<and>
    is_transport (fold queueEvent es s) = is_transport s"
  using assms
proof (induction es arbitrary: s)
  case (Cons e es)
  have q: "queueEvent e s = s\<lparr>is_eventQueue := is_eventQueue s @ [e], is_eventsQueued := is_eventsQueued s + 1\<rparr>"
    using Cons.prems by (simp add: queueEvent_def)
  have "list_all (\<lambda>x. accepts_event x (queueEvent e s)) es" using Cons.prems(1) by (auto simp: list_all_iff accepts_event_def q)
  then show ?case using Cons.IH [of "queueEvent e s"] Cons.prems(2) by (simp add: q sent_events_def)
qed simp

lemma burst_delivered:
  assumes "list_all (\<lambda>e. accepts_event e s) es" and "length (is_eventQueue s) + length es \<le> 257"
    and "is_running s" and "is_transport s"
  shows "sent_events (sender_pass now states (fold queueEvent es s)) = sent_events s @ is_eventQueue s @ es"
  using queue_burst [OF assms(1,2)] assms(3,4) by (simp add: pass_events)

section \<open>Pad states\<close>

lemma stateEqual_refl [simp]: "stateEqual a a"
  by (simp add: stateEqual_def)

lemma send_state_last:
  assumes "i < length (is_lastSent s)"
  shows "stateEqual (is_lastSent (send_state now states i s) ! i) (states ! i)"
    and "j \<noteq> i \<Longrightarrow> is_lastSent (send_state now states i s) ! j = is_lastSent s ! j"
  using assms by (auto simp: send_state_def Let_def)

lemma send_loop_last:
  assumes "n \<le> length (is_lastSent s)" and "i < n"
  shows "stateEqual (is_lastSent (fold (send_state now states) [0..<n] s) ! i) (states ! i)"
  using assms
proof (induction n)
  case (Suc n)
  let ?t = "fold (send_state now states) [0..<n] s"
  have "n < length (is_lastSent ?t)" using Suc.prems send_loop_keeps [of now states "[0..<n]" s] by simp
  then show ?case
    using Suc send_state_last(1) [of n ?t now states] send_state_last(2) [of n ?t i now states] by (cases "i = n") (simp_all add: less_Suc_eq)
qed simp

lemma send_loop_pads:
  "\<exists>ps. sent_pads (fold (send_state now states) is s) = sent_pads s @ ps \<and> set ps \<subseteq> (!) states ` set is"
proof (induction "is" arbitrary: s)
  case (Cons i "is")
  have "\<exists>qs. sent_pads (send_state now states i s) = sent_pads s @ qs \<and> set qs \<subseteq> {states ! i}"
    by (cases "\<not> stateEqual (is_lastSent s ! i) (states ! i) \<or> now - is_lastKeepaliveNs s > kKeepaliveNs")
      (auto simp: send_state_def Let_def)
  then obtain qs where "sent_pads (send_state now states i s) = sent_pads s @ qs" "set qs \<subseteq> {states ! i}" by blast
  moreover obtain ps where "sent_pads (fold (send_state now states) is (send_state now states i s)) =
      sent_pads (send_state now states i s) @ ps" "set ps \<subseteq> (!) states ` set is"
    using Cons.IH by blast
  ultimately show ?case by (intro exI [of _ "qs @ ps"]) auto
qed simp

text \<open>After a pass of a running sender with the controller enabled and a transport, the state last
  sent for each of the first four local pads equals the pad's current state in every field the host
  uses, and whatever pad state the pass sent is one of the current states.\<close>

theorem pass_sends_current_pads:
  assumes "is_running s" and "is_controllerEnabled s" and "is_transport s" and "length (is_lastSent s) = 4"
    and "i < length states" and "i < 4"
  shows "stateEqual (is_lastSent (sender_pass now states s) ! i) (states ! i) \<and>
    (\<exists>ps. sent_pads (sender_pass now states s) = sent_pads s @ ps \<and> set ps \<subseteq> set states)"
proof -
  let ?t = "fold (send_state now states) [0..<min (length states) 4] s"
  have last: "is_lastSent (sender_pass now states s) = is_lastSent ?t"
    and pads: "sent_pads (sender_pass now states s) = sent_pads ?t"
    using assms(1-3) by (simp_all add: sender_pass_def send_events_effect send_states_def Let_def)
  obtain ps where ps: "sent_pads ?t = sent_pads s @ ps" "set ps \<subseteq> (!) states ` set [0..<min (length states) 4]"
    using send_loop_pads by blast
  then have "set ps \<subseteq> set states" by auto
  then show ?thesis
    using send_loop_last [of "min (length states) 4" s i now states] assms(4-6) ps(1) by (auto simp: last pads)
qed

definition sender_example :: InputSender where
  "sender_example = fst (is_start 1000 True True 0 InputSender_new)"

theorem pass_sends_current_pads_witness:
  "sent_pads sender_example = [] \<and>
   (\<exists>ps. sent_pads (sender_pass 2000 [GameControllerState_default\<lparr>gc_connected := 1\<rparr>] sender_example) = [] @ ps \<and>
      set ps \<subseteq> {GameControllerState_default\<lparr>gc_connected := 1\<rparr>})"
proof -
  have "is_running sender_example" "is_controllerEnabled sender_example" "is_transport sender_example"
    "length (is_lastSent sender_example) = 4" "sent_pads sender_example = []"
    by (simp_all add: sender_example_def is_start_def InputSender_new_def sent_pads_def List.map_filter_simps)
  with pass_sends_current_pads [of sender_example 0 "[GameControllerState_default\<lparr>gc_connected := 1\<rparr>]" 2000]
  show ?thesis by simp
qed

section \<open>Starting twice\<close>

text \<open>\<^verbatim>\<open>start\<close> on a running sender clears the running flag, so the loop ends, \<^verbatim>\<open>stop\<close> returns at once and the
  thread is never joined.\<close>

lemma start_twice_stops:
  assumes "is_running s" and "is_thread s"
  shows "is_start now found transport slot s = (s\<lparr>is_running := False\<rparr>, False) \<and>
    is_thread (is_stop (fst (is_start now found transport slot s)))"
  using assms by (simp add: is_start_def is_stop_def)

section \<open>Packets fit a datagram\<close>

lemma input_packets_fit:
  "length (packControllerState st) \<le> kMaxUdpPayload" "length (packInputEvent e) \<le> kMaxUdpPayload"
  by (simp_all add: packControllerState_def packInputEvent_def kControllerStateSize_def kInputEventSize_def
      kMaxUdpPayload_def)

end
