(* ===== verification/ClientCoordinator.thy ===== *)
theory ClientCoordinator
  imports HostApp SecureChannel InputSender "HOL-Library.Signed_Division"
begin

text \<open>
  \<^verbatim>\<open>app/ClientCoordinator.h\<close> and \<^verbatim>\<open>app/ClientCoordinator.cpp\<close>: the client's orchestration on the Qt
  thread: joining, the key exchange, the stream, and the forwarding of keyboard and mouse. As for the
  host, a streamer is a handle and what the coordinator calls and emits is its output. The session of
  the facade runs on its own thread (\<open>CIo\<close>). A call through the null \<^verbatim>\<open>client_\<close> pointer sets \<open>cc_fault\<close>.

  The theorems: no such call happens on any run; a stream is started only with the channel of a
  KEY_EXCHANGE; coordinates and key codes fit the wire.
\<close>

section \<open>Key codes and coordinates\<close>

text \<open>\<^verbatim>\<open>Qt::Key\<close> and the Windows virtual-key codes of the table.\<close>

definition key_table :: "(nat \<times> nat) list" where
  "key_table =
     [(0x20, 0x20), (0x01000004, 0x0D), (0x01000005, 0x0D), (0x01000000, 0x1B), (0x01000003, 0x08),
      (0x01000001, 0x09), (0x01000020, 0x10), (0x01000021, 0x11), (0x01000023, 0x12), (0x01000008, 0x13),
      (0x01000024, 0x14), (0x01000016, 0x21), (0x01000017, 0x22), (0x01000011, 0x23), (0x01000010, 0x24),
      (0x01000012, 0x25), (0x01000013, 0x26), (0x01000014, 0x27), (0x01000015, 0x28), (0x01000006, 0x2D),
      (0x01000007, 0x2E), (0x2D, 0xBD), (0x3D, 0xBB), (0x5B, 0xDB), (0x5D, 0xDD), (0x5C, 0xDC), (0x3B, 0xBA),
      (0x27, 0xDE), (0x2C, 0xBC), (0x2E, 0xBE), (0x2F, 0xBF), (0x60, 0xC0)]"

definition Key_F1 :: nat where "Key_F1 = 0x01000030"
definition Key_F24 :: nat where "Key_F24 = 0x01000047"

definition qtKeyToVk :: "nat \<Rightarrow> nat" where
  "qtKeyToVk key =
     (if 65 \<le> key \<and> key \<le> 90 then 65 + (key - 65)
      else if 48 \<le> key \<and> key \<le> 57 then 48 + (key - 48)
      else if Key_F1 \<le> key \<and> key \<le> Key_F24 then 0x70 + (key - Key_F1)
      else case map_of key_table key of Some vk \<Rightarrow> vk | None \<Rightarrow> 0)"

definition isExtendedKey :: "nat \<Rightarrow> bool" where
  "isExtendedKey key \<longleftrightarrow> key \<in> set [0x01000016, 0x01000017, 0x01000011, 0x01000010, 0x01000012, 0x01000013,
     0x01000014, 0x01000015, 0x01000006, 0x01000007, 0x01000023]"

text \<open>One coordinate of the pointer inside the video rectangle; \<open>inside\<close> is whether the rectangle
  contains the point.\<close>

definition normalize_coord :: "bool \<Rightarrow> int \<Rightarrow> int \<Rightarrow> int \<Rightarrow> u16" where
  "normalize_coord inside v origin extent =
     (let r = (if inside then v - origin else std_clamp (v - origin) 0 (extent - 1))
      in word_of_int (std_clamp r 0 (extent - 1) * 65535 div max 1 (extent - 1)))"

record QRect =
  qr_x :: int
  qr_y :: int
  qr_width :: int
  qr_height :: int

definition qr_contains :: "QRect \<Rightarrow> int \<Rightarrow> int \<Rightarrow> bool" where
  "qr_contains r x y \<longleftrightarrow> qr_x r \<le> x \<and> x < qr_x r + qr_width r \<and> qr_y r \<le> y \<and> y < qr_y r + qr_height r"

definition key_event :: "u64 \<Rightarrow> u8 \<Rightarrow> nat \<Rightarrow> InputEvent" where
  "key_event now ty key = InputEvent_default\<lparr>ie_type := ty, ie_code := word_of_nat (qtKeyToVk key),
     ie_flags := (if isExtendedKey key then 1 else 0), ie_timestampNs := now\<rparr>"

definition move_event :: "u64 \<Rightarrow> QRect \<Rightarrow> int \<Rightarrow> int \<Rightarrow> InputEvent" where
  "move_event now r x y = InputEvent_default\<lparr>ie_type := MouseMove,
     ie_x := normalize_coord (qr_contains r x y) x (qr_x r) (qr_width r),
     ie_y := normalize_coord (qr_contains r x y) y (qr_y r) (qr_height r), ie_timestampNs := now\<rparr>"

text \<open>\<^verbatim>\<open>Qt::MouseButton\<close>: left 1, right 2, middle 4, first extra button 8.\<close>

definition button_code :: "nat \<Rightarrow> u8" where
  "button_code b = (if b = 1 then 0 else if b = 2 then 1 else if b = 4 then 2 else if b = 8 then 3 else 4)"

definition button_event :: "u64 \<Rightarrow> bool \<Rightarrow> nat \<Rightarrow> InputEvent" where
  "button_event now down b = InputEvent_default\<lparr>ie_type := (if down then MouseButtonDown else MouseButtonUp),
     ie_code := button_code b, ie_timestampNs := now\<rparr>"

definition wheel_event :: "u64 \<Rightarrow> int \<Rightarrow> InputEvent" where
  "wheel_event now delta = InputEvent_default\<lparr>ie_type := MouseWheel,
     ie_delta := word_of_int (std_clamp (delta sdiv 120) (-100) 100), ie_timestampNs := now\<rparr>"

section \<open>State\<close>

record ClientUiState =
  cu_status :: string
  cu_hostName :: string
  cu_gameName :: string
  cu_decoderName :: string
  cu_rttMs :: rat
  cu_lossPercent :: rat
  cu_jitterMs :: rat
  cu_fps :: rat
  cu_decodeMs :: rat
  cu_audioMs :: rat
  cu_bitrateKbps :: rat
  cu_playerIndex :: int
  cu_audioActive :: bool
  cu_width :: int
  cu_height :: int

definition ClientUiState_default :: ClientUiState where
  "ClientUiState_default = \<lparr>cu_status = [], cu_hostName = [], cu_gameName = [], cu_decoderName = [], cu_rttMs = 0,
     cu_lossPercent = 0, cu_jitterMs = 0, cu_fps = 0, cu_decodeMs = 0, cu_audioMs = 0, cu_bitrateKbps = 0,
     cu_playerIndex = 0, cu_audioActive = False, cu_width = 0, cu_height = 0\<rparr>"

datatype cc_output =
    CcStateChanged
  | CcDisconnected string
  | CcErrorOccurred string
  | CcConnectedToHost string string int
  | CcPost u16 bytes
  | CcStreamerStart nat string u16 u32 VideoCodec "SecureChannel option" "string option"
  | CcStreamerStop nat

record ClientCoordinator =
  cc_config :: Config
  cc_client :: "ClientApp option"
  cc_params :: "ClientSessionParams option"
  cc_signaling :: bool
  cc_channel :: "SecureChannel option"
  cc_ecdh :: "EcdhKeyPair option"
  cc_ourSalt :: bytes
  cc_keysReady :: bool
  cc_internetMode :: bool
  cc_serverHost :: string
  cc_relayUdpPort :: u16
  cc_playerToken :: string
  cc_sessionCode :: string
  cc_hostAddress :: string
  cc_streamer :: "nat option"
  cc_inputSender :: "InputSender option"
  cc_videoWidget :: bool
  cc_inputWired :: bool
  cc_statsTimer :: bool
  cc_watchdog :: bool
  cc_ui :: ClientUiState
  cc_lastRecvBytes :: u64
  cc_negotiatedCodec :: VideoCodec
  cc_nextStreamer :: nat
  cc_fault :: bool
  cc_out :: "cc_output list"

definition ClientCoordinator_new :: "Config \<Rightarrow> ClientCoordinator" where
  "ClientCoordinator_new cfg = \<lparr>cc_config = cfg, cc_client = None, cc_params = None, cc_signaling = False,
     cc_channel = None, cc_ecdh = None, cc_ourSalt = [], cc_keysReady = False, cc_internetMode = False,
     cc_serverHost = [], cc_relayUdpPort = 0, cc_playerToken = [], cc_sessionCode = [], cc_hostAddress = [],
     cc_streamer = None, cc_inputSender = None, cc_videoWidget = False, cc_inputWired = False, cc_statsTimer = False,
     cc_watchdog = False, cc_ui = ClientUiState_default, cc_lastRecvBytes = 0, cc_negotiatedCodec = H264,
     cc_nextStreamer = 0, cc_fault = False, cc_out = []\<rparr>"

section \<open>Helpers\<close>

definition cc_emit :: "cc_output list \<Rightarrow> ClientCoordinator \<Rightarrow> ClientCoordinator" where
  "cc_emit outs s = s\<lparr>cc_out := cc_out s @ outs\<rparr>"

definition set_status :: "string \<Rightarrow> ClientCoordinator \<Rightarrow> ClientCoordinator" where
  "set_status t s = s\<lparr>cc_ui := (cc_ui s)\<lparr>cu_status := t\<rparr>\<rparr>"

definition cc_sendAppMessage :: "u16 \<Rightarrow> bytes \<Rightarrow> ClientCoordinator \<Rightarrow> ClientCoordinator" where
  "cc_sendAppMessage ty payload s =
     (case cc_client s of
        None \<Rightarrow> s\<lparr>cc_fault := True\<rparr>
      | Some a \<Rightarrow> cc_emit (map (\<lambda>(t, p). CcPost t p) (ca_sendAppMessage ty payload a)) s)"

definition client_disconnect :: "ClientCoordinator \<Rightarrow> ClientCoordinator" where
  "client_disconnect s =
     (case cc_client s of None \<Rightarrow> s\<lparr>cc_fault := True\<rparr> | Some a \<Rightarrow> s\<lparr>cc_client := Some (ca_disconnect a)\<rparr>)"

definition ca_connected :: "ClientApp \<Rightarrow> bool" where
  "ca_connected a = (case ca_session a of None \<Rightarrow> False | Some c \<Rightarrow> cs_running c)"

definition stop_client_streamer :: "ClientCoordinator \<Rightarrow> ClientCoordinator" where
  "stop_client_streamer s = (case cc_streamer s of None \<Rightarrow> s | Some h \<Rightarrow> cc_emit [CcStreamerStop h] s)"

definition on_sender :: "(InputSender \<Rightarrow> InputSender) \<Rightarrow> ClientCoordinator \<Rightarrow> ClientCoordinator" where
  "on_sender f s = s\<lparr>cc_inputSender := map_option f (cc_inputSender s)\<rparr>"

section \<open>Starting and stopping\<close>

definition cc_stop :: "ClientCoordinator \<Rightarrow> ClientCoordinator" where
  "cc_stop s =
     (let s = stop_client_streamer (s\<lparr>cc_statsTimer := False, cc_watchdog := False, cc_inputWired := False, cc_inputSender := None\<rparr>)
      in cc_emit [CcStateChanged]
           (s\<lparr>cc_streamer := None, cc_channel := None, cc_ecdh := None, cc_ourSalt := [], cc_keysReady := False,
              cc_client := None, cc_signaling := False, cc_ui := ClientUiState_default\<rparr>))"

definition codecs_or_h264 :: "VideoCodec list \<Rightarrow> VideoCodec list" where
  "codecs_or_h264 cs = (if cs = [] then [H264] else cs)"

text \<open>\<open>decodable\<close>: \<^verbatim>\<open>VideoDecoder::supportedCodecs()\<close>.\<close>

definition cc_startLan ::
  "VideoCodec list \<Rightarrow> string \<Rightarrow> u16 \<Rightarrow> string \<Rightarrow> string \<Rightarrow> ClientCoordinator \<Rightarrow> ClientCoordinator \<times> bool" where
  "cc_startLan decodable hostAddress port playerName code s =
     (let s = (cc_stop s)\<lparr>cc_internetMode := False, cc_hostAddress := hostAddress, cc_sessionCode := code\<rparr>;
          p = ClientSessionParams_default\<lparr>cp_clientName := playerName, cp_sessionCode := code,
                cp_hostAddress := hostAddress, cp_hostPort := port, cp_supportedCodecs := codecs_or_h264 decodable\<rparr>;
          j = \<lparr>jo_displayName = playerName, jo_sessionCode = code, jo_hostAddress = hostAddress, jo_hostPort = port,
               jo_connectTimeoutMs = 5000\<rparr>
      in (s\<lparr>cc_params := Some p, cc_client := Some (ca_connect j ClientApp_new), cc_statsTimer := True\<rparr>, True))"

record join_reply =
  jr_relayTcpPort :: u16
  jr_relayUdpPort :: u16
  jr_token :: string
  jr_hostPublicAddr :: string
  jr_playerIndex :: int

definition cc_startInternet ::
  "bool \<Rightarrow> join_reply option \<Rightarrow> VideoCodec list \<Rightarrow> string \<Rightarrow> string \<Rightarrow> string \<Rightarrow> ClientCoordinator \<Rightarrow>
     ClientCoordinator \<times> bool" where
  "cc_startInternet conn reply decodable serverAddress code playerName s =
     (let s = (cc_stop s)\<lparr>cc_internetMode := True, cc_serverHost := serverAddress, cc_sessionCode := code\<rparr>
      in if \<not> conn then (s, False)
         else case reply of
           None \<Rightarrow> (s, False)
         | Some r \<Rightarrow>
             let p = ClientSessionParams_default\<lparr>cp_clientName := playerName, cp_sessionCode := code,
                       cp_hostAddress := serverAddress, cp_supportedCodecs := codecs_or_h264 decodable\<rparr>
             in (s\<lparr>cc_signaling := True, cc_relayUdpPort := jr_relayUdpPort r, cc_playerToken := jr_token r,
                   cc_hostAddress := (if jr_hostPublicAddr r = [] then serverAddress else jr_hostPublicAddr r),
                   cc_params := Some p,
                   cc_client := Some (ca_startViaRelay p serverAddress (jr_relayTcpPort r) (jr_token r) ClientApp_new),
                   cc_ui := (cc_ui s)\<lparr>cu_playerIndex := jr_playerIndex r + 1\<rparr>, cc_statsTimer := True\<rparr>, True))"

definition setVideoWidget :: "bool \<Rightarrow> ClientCoordinator \<Rightarrow> ClientCoordinator" where
  "setVideoWidget w s = s\<lparr>cc_videoWidget := w\<rparr>"

definition setKeyboardMouseEnabled :: "bool \<Rightarrow> bool \<Rightarrow> ClientCoordinator \<Rightarrow> ClientCoordinator" where
  "setKeyboardMouseEnabled kb mouse = on_sender (setEnabled True kb mouse)"

section \<open>Key exchange and stream\<close>

definition cc_beginKeyExchange :: "Cng \<Rightarrow> ClientCoordinator \<Rightarrow> ClientCoordinator" where
  "cc_beginKeyExchange cng s =
     (if cc_ecdh s \<noteq> None then s
      else case cc_client s of
        None \<Rightarrow> s
      | Some a \<Rightarrow>
          if \<not> ca_connected a then s
          else case generateEcdhP256 cng of
            None \<Rightarrow> client_disconnect (cc_emit [CcErrorOccurred ''Cryptography unavailable (CNG); cannot secure this session.''] s)
          | Some kp \<Rightarrow>
              let ourSalt = randomBytes cng 16
              in cc_sendAppMessage (id_code KeyExchange)
                   (encodeMessage \<lparr>etype = KeyExchange, ebody = MKeyExchange (kp_public kp) ourSalt\<rparr>)
                   (s\<lparr>cc_ecdh := Some kp, cc_ourSalt := ourSalt\<rparr>))"

text \<open>The arguments the worker thread of a stream captures: its handle, the host and port (the server's
  relay on the internet), the UDP session, the codec, the channel, and the relay token it binds with
  once the transport is up.\<close>

definition startStream :: "u16 \<Rightarrow> u32 \<Rightarrow> ClientCoordinator \<Rightarrow> ClientCoordinator" where
  "startStream port sid s =
     (case cc_streamer s of
        Some h \<Rightarrow> s
      | None \<Rightarrow>
          let h = cc_nextStreamer s;
              host = (if cc_internetMode s then cc_serverHost s else cc_hostAddress s);
              p = (if cc_internetMode s then cc_relayUdpPort s else port)
          in cc_emit [CcStreamerStart h host p sid (cc_negotiatedCodec s) (cc_channel s)
                        (if cc_internetMode s then Some (cc_playerToken s) else None)]
               (s\<lparr>cc_streamer := Some h, cc_nextStreamer := h + 1\<rparr>))"

definition cc_onKeyExchange :: "Cng \<Rightarrow> bytes \<Rightarrow> bytes \<Rightarrow> ClientCoordinator \<Rightarrow> ClientCoordinator" where
  "cc_onKeyExchange cng pk sl s =
     (case cc_ecdh s of
        None \<Rightarrow> s
      | Some kp \<Rightarrow>
          let (c, ok) = sc_finish cng kp (cc_ourSalt s) pk sl (cc_sessionCode s) False SecureChannel_new;
              s = s\<lparr>cc_channel := Some c\<rparr>
          in if \<not> ok then client_disconnect (cc_emit [CcErrorOccurred ''Key exchange failed.''] s)
             else set_status ''Secure session established''
                    (cc_sendAppMessage (id_code SessionKeyReady)
                      (encodeMessage (Envelope_default\<lparr>etype := SessionKeyReady\<rparr>)) s))"

definition cc_handleAppMessage :: "Cng \<Rightarrow> u16 \<Rightarrow> bytes \<Rightarrow> ClientCoordinator \<Rightarrow> ClientCoordinator" where
  "cc_handleAppMessage cng ty payload s =
     (case decodeMessage ty payload of
        None \<Rightarrow> s
      | Some m \<Rightarrow>
          (case etype m of
             KeyExchange \<Rightarrow> (case ebody m of MKeyExchange pk sl \<Rightarrow> cc_onKeyExchange cng pk sl s | _ \<Rightarrow> s)
           | SessionKeyReady \<Rightarrow>
               cc_emit [CcStateChanged]
                 ((set_status ''Waiting for the host to start the stream...'' s)\<lparr>cc_keysReady := True, cc_watchdog := True\<rparr>)
           | StreamStart \<Rightarrow>
               (case ebody m of
                  MStreamStart port sid pl cd wd ht fps br \<Rightarrow>
                    startStream port sid (s\<lparr>cc_keysReady := True, cc_watchdog := False, cc_negotiatedCodec := cd\<rparr>)
                | _ \<Rightarrow> s)
           | StreamStop \<Rightarrow>
               cc_emit [CcStateChanged] (set_status ''Stream stopped'' (on_sender is_stop (stop_client_streamer s)))
           | _ \<Rightarrow> s))"

definition onState :: "Cng \<Rightarrow> ConnectionState \<Rightarrow> ClientCoordinator \<Rightarrow> ClientCoordinator" where
  "onState cng st s =
     cc_emit [CcStateChanged]
       (if st = Connected then cc_beginKeyExchange cng (set_status ''Connected - securing session...'' s)
        else if st = Disconnected then stop_client_streamer (set_status ''Disconnected'' s)
        else s)"

definition onConnected :: "ClientStatus \<Rightarrow> ClientCoordinator \<Rightarrow> ClientCoordinator" where
  "onConnected st s =
     (let s = s\<lparr>cc_ui := (cc_ui s)\<lparr>cu_hostName := cst_hostName st, cu_gameName := cst_gameName st\<rparr>,
                cc_negotiatedCodec := cst_codec st\<rparr>
      in cc_emit [CcConnectedToHost (cst_hostName st) (cst_gameName st) (cu_playerIndex (cc_ui s)), CcStateChanged] s)"

definition cc_onInputPermissions :: "InputPermissions \<Rightarrow> ClientCoordinator \<Rightarrow> ClientCoordinator" where
  "cc_onInputPermissions p = on_sender (setEnabled (perm_controller p) (perm_keyboard p) (perm_mouse p))"

definition wireInputForwarding :: "ClientCoordinator \<Rightarrow> ClientCoordinator" where
  "wireInputForwarding s =
     (if \<not> cc_videoWidget s \<or> cc_inputSender s = None \<or> cc_inputWired s then s else s\<lparr>cc_inputWired := True\<rparr>)"

text \<open>The worker that starts the streamer has finished: an error, or the queued continuation; \<open>alive\<close> is
  whether the streamer still exists, \<open>now\<close> and \<open>found\<close> are what the input sender's \<^verbatim>\<open>start\<close> sees.\<close>

definition cc_streamFailed :: "string \<Rightarrow> ClientCoordinator \<Rightarrow> ClientCoordinator" where
  "cc_streamFailed serr s = cc_emit [CcErrorOccurred (''Stream failed to start: '' @ serr)] s"

definition cc_streamStarted :: "u64 \<Rightarrow> bool \<Rightarrow> bool \<Rightarrow> u8 \<Rightarrow> bool \<Rightarrow> bool \<Rightarrow> ClientCoordinator \<Rightarrow> ClientCoordinator" where
  "cc_streamStarted now found alive slot kb mouse s =
     (let s = (set_status ''Streaming'' s)\<lparr>cc_watchdog := False\<rparr>
      in case cc_inputSender s of
           None \<Rightarrow> cc_emit [CcStateChanged] s
         | Some i \<Rightarrow>
             if \<not> alive \<or> is_running i then cc_emit [CcStateChanged] s
             else let (i, ok) = is_start now found True slot i;
                      i = (if ok then setEnabled True kb mouse i else i)
                  in cc_emit [CcStateChanged] (wireInputForwarding (s\<lparr>cc_inputSender := Some i\<rparr>)))"

section \<open>User input, watchdog and timer\<close>

datatype ui_input =
    UiKeyPressed nat bool
  | UiKeyReleased nat
  | UiMouseMoved QRect int int
  | UiButton bool nat
  | UiWheel int

fun input_event :: "u64 \<Rightarrow> ui_input \<Rightarrow> InputEvent option" where
  "input_event now (UiKeyPressed key rep) = (if rep then None else Some (key_event now KeyDown key))"
| "input_event now (UiKeyReleased key) = Some (key_event now KeyUp key)"
| "input_event now (UiMouseMoved r x y) = Some (move_event now r x y)"
| "input_event now (UiButton down b) = Some (button_event now down b)"
| "input_event now (UiWheel delta) = Some (wheel_event now delta)"

fun needs_widget :: "ui_input \<Rightarrow> bool" where
  "needs_widget (UiMouseMoved r x y) = True"
| "needs_widget _ = False"

definition onUiInput :: "u64 \<Rightarrow> ui_input \<Rightarrow> ClientCoordinator \<Rightarrow> ClientCoordinator" where
  "onUiInput now u s =
     (if \<not> cc_inputWired s \<or> (needs_widget u \<and> \<not> cc_videoWidget s) then s
      else case input_event now u of None \<Rightarrow> s | Some e \<Rightarrow> on_sender (queueEvent e) s)"

definition watchdog_message :: string where
  "watchdog_message = ''The host did not start the video stream within 15 seconds. '' @
     ''The host app may have hit an error (see its log under %LOCALAPPDATA%'' @ [CHR 0x5C] @ ''RemotePlay'' @ [CHR 0x5C] @
     ''Logs) or the connection is blocked. Disconnecting.''"

definition onStreamStartWatchdog :: "bool \<Rightarrow> ClientCoordinator \<Rightarrow> ClientCoordinator" where
  "onStreamStartWatchdog running s =
     (if cc_streamer s \<noteq> None \<and> running then s
      else cc_stop (cc_emit [CcErrorOccurred watchdog_message, CcStateChanged] (set_status ''Stream never started'' s)))"

record client_stats =
  ck_avgRttMs :: rat
  ck_jitterMs :: rat
  ck_lostFrames :: nat
  ck_assembledFrames :: nat
  ck_fps :: rat
  ck_decodeMs :: rat
  ck_audioDecodeMs :: rat
  ck_audioActive :: bool
  ck_recvBytes :: u64
  ck_width :: int
  ck_height :: int
  ck_decoderName :: string

definition cc_onStatsTimer :: "client_stats \<Rightarrow> ClientCoordinator \<Rightarrow> ClientCoordinator" where
  "cc_onStatsTimer st s =
     (if cc_streamer s = None then s
      else
        let total = ck_assembledFrames st + ck_lostFrames st;
            bps = (if ck_recvBytes st > cc_lastRecvBytes s
                   then rat_of_nat (unat (ck_recvBytes st - cc_lastRecvBytes s)) * 8 else 0)
        in cc_emit [CcStateChanged]
             (s\<lparr>cc_lastRecvBytes := ck_recvBytes st,
                cc_ui := (cc_ui s)\<lparr>cu_rttMs := ck_avgRttMs st, cu_jitterMs := ck_jitterMs st,
                  cu_lossPercent := (if total > 0 then rat_of_nat (ck_lostFrames st) / rat_of_nat total * 100 else 0),
                  cu_fps := ck_fps st, cu_decodeMs := ck_decodeMs st, cu_audioMs := ck_audioDecodeMs st,
                  cu_audioActive := ck_audioActive st, cu_bitrateKbps := bps / 1000, cu_width := ck_width st,
                  cu_height := ck_height st, cu_decoderName := ck_decoderName st\<rparr>\<rparr>))"

section \<open>The machine\<close>

datatype cc_event =
    EStartLan "VideoCodec list" string u16 string string
  | EStartInternet bool "join_reply option" "VideoCodec list" string string string
  | EStop
  | EIo cs_event
  | EState ConnectionState
  | EConnected ClientStatus
  | EDisconnected string
  | EError string
  | EPermissions InputPermissions
  | EAppMessage u16 bytes
  | EStreamFailed string
  | EStreamStarted u64 bool bool u8 bool bool
  | EUiInput u64 ui_input
  | EWatchdog bool
  | ETimer client_stats
  | EVideoWidget bool
  | EKeyboardMouse bool bool

definition session_io :: "cs_event \<Rightarrow> ClientCoordinator \<Rightarrow> ClientCoordinator" where
  "session_io e s = s\<lparr>cc_client := map_option (\<lambda>a. a\<lparr>ca_session := map_option (cs_handle e) (ca_session a)\<rparr>) (cc_client s)\<rparr>"

fun cc_handle :: "Cng \<times> cc_event \<Rightarrow> ClientCoordinator \<Rightarrow> ClientCoordinator" where
  "cc_handle (cng, EStartLan dec host port name code) s = fst (cc_startLan dec host port name code s)"
| "cc_handle (cng, EStartInternet conn reply dec server code name) s = fst (cc_startInternet conn reply dec server code name s)"
| "cc_handle (cng, EStop) s = cc_stop s"
| "cc_handle (cng, EIo e) s = session_io e s"
| "cc_handle (cng, EState st) s = onState cng st s"
| "cc_handle (cng, EConnected st) s = onConnected st s"
| "cc_handle (cng, EDisconnected reason) s = cc_emit [CcDisconnected reason] s"
| "cc_handle (cng, EError msg) s = cc_emit [CcErrorOccurred msg] s"
| "cc_handle (cng, EPermissions p) s = cc_onInputPermissions p s"
| "cc_handle (cng, EAppMessage ty payload) s = cc_handleAppMessage cng ty payload s"
| "cc_handle (cng, EStreamFailed serr) s = cc_streamFailed serr s"
| "cc_handle (cng, EStreamStarted now found alive slot kb mouse) s = cc_streamStarted now found alive slot kb mouse s"
| "cc_handle (cng, EUiInput now u) s = onUiInput now u s"
| "cc_handle (cng, EWatchdog running) s = onStreamStartWatchdog running s"
| "cc_handle (cng, ETimer st) s = cc_onStatsTimer st s"
| "cc_handle (cng, EVideoWidget w) s = setVideoWidget w s"
| "cc_handle (cng, EKeyboardMouse kb mouse) s = setKeyboardMouseEnabled kb mouse s"

lemmas cc_defs = cc_startLan_def cc_startInternet_def cc_stop_def session_io_def onState_def onConnected_def
  cc_onInputPermissions_def cc_handleAppMessage_def cc_onKeyExchange_def cc_beginKeyExchange_def startStream_def
  cc_streamFailed_def cc_streamStarted_def onUiInput_def onStreamStartWatchdog_def cc_onStatsTimer_def setVideoWidget_def
  setKeyboardMouseEnabled_def cc_emit_def set_status_def cc_sendAppMessage_def client_disconnect_def
  stop_client_streamer_def on_sender_def

section \<open>Invariant\<close>

text \<open>A key pair exists only while there is a client object, no null pointer was used, and there is no
  input sender, hence nothing is wired to it.\<close>

definition cc_inv :: "ClientCoordinator \<Rightarrow> bool" where
  "cc_inv s \<longleftrightarrow> \<not> cc_fault s \<and> (cc_ecdh s \<noteq> None \<longrightarrow> cc_client s \<noteq> None) \<and> cc_inputSender s = None \<and> \<not> cc_inputWired s"

lemma cc_inv_new: "cc_inv (ClientCoordinator_new cfg)"
  by (simp add: cc_inv_def ClientCoordinator_new_def)

lemma cc_inv_frame [simp]:
  "cc_inv (cc_emit outs s) = cc_inv s" "cc_inv (set_status t s) = cc_inv s" "cc_inv (stop_client_streamer s) = cc_inv s"
  by (simp_all add: cc_inv_def cc_emit_def set_status_def stop_client_streamer_def split: option.split)

lemma cc_inv_client:
  assumes "cc_inv s" and "cc_client s \<noteq> None"
  shows "cc_inv (cc_sendAppMessage ty payload s)" and "cc_inv (client_disconnect s)"
  using assms by (auto simp: cc_inv_def cc_sendAppMessage_def client_disconnect_def cc_emit_def)

lemma cc_inv_stop: "\<not> cc_fault s \<Longrightarrow> cc_inv (cc_stop s)"
  by (simp add: cc_inv_def cc_stop_def Let_def cc_emit_def stop_client_streamer_def split: option.split)

lemma cc_inv_begin: "cc_inv s \<Longrightarrow> cc_inv (cc_beginKeyExchange cng s)"
proof -
  assume inv: "cc_inv s"
  have c: "cc_client (cc_emit outs s) = cc_client s" for outs by (simp add: cc_emit_def)
  have "cc_inv (s\<lparr>cc_ecdh := Some kp, cc_ourSalt := sl\<rparr>)" if "cc_client s = Some a" for kp sl a
    using inv that by (simp add: cc_inv_def)
  then show ?thesis
    using inv c by (auto simp: cc_beginKeyExchange_def Let_def split: option.split intro!: cc_inv_client)
qed

lemma cc_inv_exchange: "cc_inv s \<Longrightarrow> cc_inv (cc_onKeyExchange cng pk sl s)"
proof -
  assume inv: "cc_inv s"
  have c: "cc_client (cc_emit outs t) = cc_client t" "cc_inv (s\<lparr>cc_channel := ch\<rparr>)" for outs t ch
    using inv by (simp_all add: cc_emit_def cc_inv_def)
  have "cc_client s \<noteq> None" if "cc_ecdh s = Some kp" for kp using inv that by (simp add: cc_inv_def)
  then show ?thesis
    using inv c by (auto simp: cc_onKeyExchange_def Let_def split: option.split prod.split intro!: cc_inv_client)
qed

lemma cc_inv_message: "cc_inv s \<Longrightarrow> cc_inv (cc_handleAppMessage cng ty payload s)"
proof -
  assume inv: "cc_inv s"
  have "cc_inv (startStream port sid t)" if "cc_inv t" for port sid t
    using that by (simp add: startStream_def Let_def split: option.split) (simp add: cc_inv_def)
  moreover have "cc_inv (s\<lparr>cc_keysReady := True, cc_watchdog := w, cc_negotiatedCodec := cd\<rparr>)"
    "cc_inv (s\<lparr>cc_keysReady := True, cc_watchdog := w\<rparr>)" for w cd
    using inv by (simp_all add: cc_inv_def)
  moreover have "cc_inv (on_sender g (stop_client_streamer s))" for g
    using inv by (simp add: cc_inv_def on_sender_def stop_client_streamer_def cc_emit_def split: option.split)
  moreover have "cc_inv ((set_status t s)\<lparr>cc_keysReady := True, cc_watchdog := w\<rparr>)" for t w
    using inv by (simp add: cc_inv_def set_status_def)
  ultimately show ?thesis
    using inv cc_inv_exchange by (simp add: cc_handleAppMessage_def split: option.split Id.split Body.split)
qed

lemma cc_inv_handle: "cc_inv s \<Longrightarrow> cc_inv (cc_handle e s)"
proof -
  assume inv: "cc_inv s"
  obtain cng ev where e: "e = (cng, ev)" by force
  have "\<not> cc_fault s" "cc_inputSender s = None" "\<not> cc_inputWired s" using inv by (auto simp: cc_inv_def)
  note keep = this
  show ?thesis
  proof (cases ev)
    case (EStartLan dec host port name code)
    then show ?thesis
      using cc_inv_stop [OF keep(1)] by (simp add: e cc_startLan_def Let_def) (simp add: cc_inv_def)
  next
    case (EStartInternet conn reply dec server code name)
    then show ?thesis
      using cc_inv_stop [OF keep(1)] by (simp add: e cc_startInternet_def Let_def split: option.split) (simp add: cc_inv_def)
  next
    case (EWatchdog running)
    have "\<not> cc_fault (cc_emit outs (set_status t s))" for outs t using keep(1) by (simp add: cc_emit_def set_status_def)
    then show ?thesis using EWatchdog inv cc_inv_stop by (simp add: e onStreamStartWatchdog_def)
  next
    case (EState st)
    then show ?thesis using inv cc_inv_begin by (simp add: e onState_def)
  next
    case (EAppMessage ty payload)
    then show ?thesis using inv cc_inv_message by (simp add: e)
  next
    case (EStreamStarted now found alive slot kb mouse)
    then show ?thesis using inv keep by (simp add: e cc_streamStarted_def Let_def set_status_def) (simp add: cc_inv_def)
  qed (use inv keep cc_inv_stop [OF keep(1)] in \<open>simp_all add: e session_io_def onConnected_def cc_onInputPermissions_def cc_streamFailed_def
      onUiInput_def cc_onStatsTimer_def setVideoWidget_def setKeyboardMouseEnabled_def on_sender_def Let_def\<close>,
      simp_all add: cc_inv_def)
qed

interpretation cc: event_machine "ClientCoordinator_new cfg" cc_handle cc_inv
  by unfold_locales (simp_all add: cc_inv_new cc_inv_handle)

text \<open>The only frames the client's coordinator posts: its KEY_EXCHANGE and the confirmation, whose
  envelope keeps the default body.\<close>

definition key_confirmation :: bytes where
  "key_confirmation = encodeMessage (Envelope_default\<lparr>etype := SessionKeyReady\<rparr>)"

fun post_ok :: "cc_output \<Rightarrow> bool" where
  "post_ok (CcPost ty p) \<longleftrightarrow> ty = id_code KeyExchange \<or> ty = id_code SessionKeyReady \<and> p = key_confirmation"
| "post_ok _ \<longleftrightarrow> True"

definition posts_ok :: "ClientCoordinator \<Rightarrow> bool" where
  "posts_ok s \<longleftrightarrow> list_all post_ok (cc_out s)"

lemma posts_ok_emit [simp]: "posts_ok (cc_emit outs s) \<longleftrightarrow> posts_ok s \<and> list_all post_ok outs"
  by (auto simp: posts_ok_def cc_emit_def)

lemma posts_ok_frame [simp]:
  "posts_ok (set_status t s) = posts_ok s" "posts_ok (client_disconnect s) = posts_ok s"
  "posts_ok (stop_client_streamer s) = posts_ok s" "posts_ok (on_sender f s) = posts_ok s"
  by (simp_all add: set_status_def client_disconnect_def stop_client_streamer_def on_sender_def split: option.split)
    (simp_all add: posts_ok_def)

lemma posts_ok_cong: "cc_out t = cc_out s \<Longrightarrow> posts_ok t = posts_ok s"
  by (simp add: posts_ok_def)

lemma posts_ok_send:
  assumes "posts_ok s" and "post_ok (CcPost ty p)"
  shows "posts_ok (cc_sendAppMessage ty p s)"
  using assms by (auto simp: cc_sendAppMessage_def ca_sendAppMessage_def split: option.split) (auto simp: posts_ok_def)

lemma posts_ok_exchange: "posts_ok s \<Longrightarrow> posts_ok (cc_onKeyExchange cng pk sl s)"
  by (auto simp: cc_onKeyExchange_def Let_def key_confirmation_def posts_ok_cong [of "s\<lparr>cc_channel := c\<rparr>" s for c]
      simp del: id_code.simps split: option.split prod.split intro!: posts_ok_send)

lemma posts_ok_begin: "posts_ok s \<Longrightarrow> posts_ok (cc_beginKeyExchange cng s)"
  by (auto simp: cc_beginKeyExchange_def Let_def posts_ok_cong [of "s\<lparr>cc_ecdh := k, cc_ourSalt := sl\<rparr>" s for k sl]
      simp del: id_code.simps split: option.split intro!: posts_ok_send)

lemma posts_ok_message: "posts_ok s \<Longrightarrow> posts_ok (cc_handleAppMessage cng ty payload s)"
proof -
  assume ok: "posts_ok s"
  have "posts_ok (startStream port sid t)" if "posts_ok t" for port sid t
    using that by (simp add: startStream_def Let_def split: option.split) (simp add: posts_ok_def)
  moreover have "posts_ok (s\<lparr>cc_keysReady := k, cc_watchdog := w, cc_negotiatedCodec := cd\<rparr>)"
    "posts_ok ((set_status t s)\<lparr>cc_keysReady := k, cc_watchdog := w\<rparr>)" for k w cd t
    using ok by (simp_all add: posts_ok_def set_status_def)
  ultimately show ?thesis
    using ok posts_ok_exchange by (simp add: cc_handleAppMessage_def split: option.split Id.split Body.split)
qed

lemma posts_ok_stop: "posts_ok s \<Longrightarrow> posts_ok (cc_stop s)"
  by (simp add: cc_stop_def Let_def stop_client_streamer_def split: option.split) (simp add: posts_ok_def cc_emit_def)

lemma posts_ok_handle: "posts_ok s \<Longrightarrow> posts_ok (cc_handle e s)"
proof -
  assume ok: "posts_ok s"
  obtain cng ev where e: "e = (cng, ev)" by force
  show ?thesis
  proof (cases ev)
    case (EStartLan dec host port name code)
    then show ?thesis using posts_ok_stop [OF ok] by (simp add: e cc_startLan_def Let_def) (simp add: posts_ok_def)
  next
    case (EStartInternet conn reply dec server code name)
    then show ?thesis
      using posts_ok_stop [OF ok] by (simp add: e cc_startInternet_def Let_def split: option.split) (simp add: posts_ok_def)
  next
    case (EStreamStarted now found alive slot kb mouse)
    then show ?thesis
      using ok by (simp add: e cc_streamStarted_def Let_def wireInputForwarding_def set_status_def split: option.split prod.split)
        (simp add: posts_ok_def)
  qed (use ok posts_ok_stop posts_ok_begin posts_ok_message in \<open>simp_all add: e onState_def session_io_def onConnected_def
      cc_onInputPermissions_def cc_streamFailed_def onUiInput_def onStreamStartWatchdog_def cc_onStatsTimer_def setVideoWidget_def
      setKeyboardMouseEnabled_def Let_def split: option.split\<close>, simp_all add: posts_ok_def)
qed

interpretation ccp: event_machine "ClientCoordinator_new cfg" cc_handle posts_ok
  by unfold_locales (simp_all add: posts_ok_handle, simp add: posts_ok_def ClientCoordinator_new_def)

lemma posted_frames:
  assumes "CcPost ty p \<in> set (cc_out (fold cc_handle es (ClientCoordinator_new cfg)))"
  shows "ty = id_code KeyExchange \<or> ty = id_code SessionKeyReady \<and> p = key_confirmation"
proof -
  have "post_ok (CcPost ty p)" using ccp.inv_run [of es cfg] assms unfolding posts_ok_def list_all_iff by blast
  then show ?thesis by (simp del: id_code.simps)
qed

section \<open>Properties\<close>

text \<open>The client coordinator never calls through a null \<^verbatim>\<open>client_\<close> pointer: whatever the user, the
  session, the host's messages and the timers do, in whatever order, no run reaches the fault state.\<close>

theorem client_pointer_safe: "\<not> cc_fault (fold cc_handle es (ClientCoordinator_new cfg))"
  using cc.inv_run [of es cfg] by (simp add: cc_inv_def)

text \<open>C21: The client never forwards keyboard or mouse input: no operation of the coordinator creates the
  input sender, so after any run every key press, release, pointer move, button or wheel event and
  every permission change leaves the whole state as it was.\<close>

theorem client_never_sends_input:
  "onUiInput now u (fold cc_handle es (ClientCoordinator_new cfg)) = fold cc_handle es (ClientCoordinator_new cfg) \<and>
   cc_onInputPermissions p (fold cc_handle es (ClientCoordinator_new cfg)) = fold cc_handle es (ClientCoordinator_new cfg) \<and>
   cc_inputSender (fold cc_handle es (ClientCoordinator_new cfg)) = None"
  using cc.inv_run [of es cfg] by (simp add: cc_inv_def onUiInput_def cc_onInputPermissions_def on_sender_def)

text \<open>A second STREAM_START, also one after a STREAM_STOP, starts nothing: the streamer pointer is reset
  only by a stop of the whole session.\<close>

lemma stream_stop_keeps_streamer:
  assumes "decodeMessage ty payload = Some m" and "etype m = StreamStop"
  shows "cc_streamer (cc_handleAppMessage cng ty payload s) = cc_streamer s"
  using assms by (simp add: cc_handleAppMessage_def cc_emit_def set_status_def on_sender_def stop_client_streamer_def split: option.split)

lemma startStream_again: "cc_streamer s \<noteq> None \<Longrightarrow> startStream port sid s = s"
  by (auto simp: startStream_def)

text \<open>The client's stream uses whatever channel is installed when STREAM_START arrives, and none when
  it arrives before the KEY_EXCHANGE: \<^verbatim>\<open>keysReady_\<close> is set by the message itself and never checked.\<close>

lemma stream_start_unchecked:
  assumes "decodeMessage ty payload = Some m" and "etype m = StreamStart"
    and "ebody m = MStreamStart port sid pl cd wd ht fps br"
    and "cc_streamer s = None" and "cc_channel s = None" and "\<not> cc_internetMode s"
  shows "cc_out (cc_handleAppMessage cng ty payload s) =
    cc_out s @ [CcStreamerStart (cc_nextStreamer s) (cc_hostAddress s) port sid cd None None]"
  using assms by (simp add: cc_handleAppMessage_def startStream_def Let_def cc_emit_def)

section \<open>Key codes and coordinates fit the wire\<close>

lemma key_table_range: "(k, v) \<in> set key_table \<Longrightarrow> 0 < v \<and> v < 256"
  by (auto simp: key_table_def)

lemma qtKeyToVk_bound: "qtKeyToVk key < 256"
proof -
  have "v < 256" if "map_of key_table key = Some v" for v
    using key_table_range [OF map_of_SomeD [OF that]] by simp
  then show ?thesis by (auto simp: qtKeyToVk_def Key_F1_def Key_F24_def split: option.split)
qed

lemma full_scale: "2 \<le> extent \<Longrightarrow> (extent - 1) * 65535 div (extent - 1) = (65535::int)"
  using nonzero_mult_div_cancel_left [of "extent - 1" 65535] by simp

lemma normalize_coord_range:
  assumes "2 \<le> extent"
  shows "0 \<le> std_clamp r 0 (extent - 1) * 65535 div max 1 (extent - 1)"
    and "std_clamp r 0 (extent - 1) * 65535 div max 1 (extent - 1) \<le> (65535::int)"
proof -
  have c: "0 \<le> std_clamp r 0 (extent - 1)" "std_clamp r 0 (extent - 1) \<le> extent - 1"
    using assms by (auto simp: std_clamp_def)
  show "0 \<le> std_clamp r 0 (extent - 1) * 65535 div max 1 (extent - 1)"
    using assms c(1) by (simp add: pos_imp_zdiv_nonneg_iff)
  have "std_clamp r 0 (extent - 1) * 65535 \<le> (extent - 1) * 65535" using c(2) by simp
  then have "std_clamp r 0 (extent - 1) * 65535 div (extent - 1) \<le> (extent - 1) * 65535 div (extent - 1)"
    using assms by (intro zdiv_mono1) auto
  moreover have "(extent - 1) * 65535 div (extent - 1) = 65535" by (rule full_scale [OF assms])
  ultimately show "std_clamp r 0 (extent - 1) * 65535 div max 1 (extent - 1) \<le> 65535" using assms by simp
qed

lemma normalize_coord_uint:
  assumes "2 \<le> extent"
  shows "uint (normalize_coord inside v origin extent) =
    std_clamp (if inside then v - origin else std_clamp (v - origin) 0 (extent - 1)) 0 (extent - 1) * 65535 div (extent - 1)"
proof -
  let ?r = "if inside then v - origin else std_clamp (v - origin) 0 (extent - 1)"
  have "uint (word_of_int (std_clamp ?r 0 (extent - 1) * 65535 div max 1 (extent - 1)) :: u16) =
      std_clamp ?r 0 (extent - 1) * 65535 div max 1 (extent - 1)"
    using normalize_coord_range [OF assms, of ?r] by (simp add: uint_word_of_int_eq take_bit_int_eq_self)
  then show ?thesis using assms by (simp add: normalize_coord_def Let_def)
qed

lemma std_clamp_mono: "(a::int) \<le> b \<Longrightarrow> lo \<le> hi \<Longrightarrow> std_clamp a lo hi \<le> std_clamp b lo hi"
  by (auto simp: std_clamp_def)

lemma std_clamp_idem [simp]: "(lo::int) \<le> hi \<Longrightarrow> std_clamp (std_clamp a lo hi) lo hi = std_clamp a lo hi"
  by (auto simp: std_clamp_def)

text \<open>Pointer coordinates use the whole range of the wire: for a video rectangle of at least two
  pixels the first column is 0, the last is 65535, every point outside is sent as the nearest edge, and
  the coordinate grows with the pointer's position.\<close>

theorem pointer_covers_screen:
  assumes "2 \<le> extent"
  shows "normalize_coord inside origin origin extent = 0 \<and>
    normalize_coord inside (origin + extent - 1) origin extent = 65535 \<and>
    (v \<le> origin \<longrightarrow> normalize_coord False v origin extent = 0) \<and>
    (origin + extent - 1 \<le> v \<longrightarrow> normalize_coord False v origin extent = 65535) \<and>
    (v \<le> w \<longrightarrow> normalize_coord i v origin extent \<le> normalize_coord j w origin extent)"
proof -
  have u: "uint (normalize_coord i x origin extent) = std_clamp (x - origin) 0 (extent - 1) * 65535 div (extent - 1)" for i x
    using assms normalize_coord_uint [OF assms, of i x origin] by simp
  have eqI: "a = b" if "uint a = uint b" for a b :: u16 using that by (rule word_uint_eqI)
  have lo: "normalize_coord i x origin extent = 0" if "x \<le> origin" for i x
    using that assms by (intro eqI) (simp add: u std_clamp_def)
  have hi: "normalize_coord i x origin extent = 65535" if "origin + extent - 1 \<le> x" for i x
  proof (rule eqI)
    have "std_clamp (x - origin) 0 (extent - 1) = extent - 1" using that assms by (auto simp: std_clamp_def)
    then show "uint (normalize_coord i x origin extent) = uint (65535::u16)"
      using full_scale [OF assms] by (simp only: u) simp
  qed
  have mono: "normalize_coord i v origin extent \<le> normalize_coord j w origin extent" if "v \<le> w"
  proof -
    have "std_clamp (v - origin) 0 (extent - 1) \<le> std_clamp (w - origin) 0 (extent - 1)"
      using that assms by (intro std_clamp_mono) auto
    then show ?thesis using assms by (simp add: word_le_def u zdiv_mono1)
  qed
  show ?thesis using lo hi mono by simp
qed

theorem pointer_covers_screen_witness:
  "normalize_coord True 10 10 (1920::int) = 0 \<and> normalize_coord False 5000 10 1920 = 65535 \<and>
   normalize_coord True 20 10 1920 \<le> normalize_coord True 30 10 1920"
  using pointer_covers_screen [of 1920 True 10 5000 5000 False False]
    pointer_covers_screen [of 1920 True 10 20 30 True True] by simp

end
