(* ===== verification/VideoWidget.thy ===== *)
theory VideoWidget
  imports QtText VideoDecoder ClientCoordinator
begin

text \<open>
  \<^verbatim>\<open>ui/VideoWidget.cpp\<close>: the surface the client's video is painted on. The state is the widget's members and
  its size; signals are outputs. Painting is the list of the painter's calls, without fonts and colours.

  The theorems: presenting a decoded frame copies exactly its pixels and never reads past them; the
  picture is painted inside the widget, centred; the lines of the overlay lie on its backdrop and the quality warning is
  only painted with it; a key that was forwarded when it was pressed is
  forwarded when it is released.
\<close>

section \<open>State\<close>

datatype vw_signal =
    KeyPressed nat bool
  | KeyReleased nat
  | MouseMoved int int
  | MouseButtonPressed nat int int
  | MouseButtonReleased nat int int
  | MouseWheel int
  | ToggleFullscreenRequested bool
  | EscapePressed

record VideoWidget =
  vw_frame :: "(int \<times> int \<times> bytes) option"
  vw_framesPresented :: u64
  vw_overlayVisible :: bool
  vw_qualityBanner :: string
  vw_fpsEstimate :: rat
  vw_lastFpsUpdateNs :: u64
  vw_fullscreenActive :: bool
  vw_width :: int
  vw_height :: int
  vw_overread :: bool

text \<open>\<open>vw_overread\<close>: a copy read past the end of its source.\<close>

definition VideoWidget_new :: VideoWidget where
  "VideoWidget_new = \<lparr>vw_frame = None, vw_framesPresented = 0, vw_overlayVisible = True, vw_qualityBanner = [], vw_fpsEstimate = 0,
     vw_lastFpsUpdateNs = 0, vw_fullscreenActive = False, vw_width = 320, vw_height = 180, vw_overread = False\<rparr>"

definition vw_sizeHint :: "VideoWidget \<Rightarrow> int \<times> int" where
  "vw_sizeHint s = (case vw_frame s of None \<Rightarrow> (1280, 720) | Some (w, h, bits) \<Rightarrow> (w, h))"

section \<open>Presenting\<close>

text \<open>The pixels a copy of \<open>h\<close> rows of \<open>w\<close> pixels takes from a buffer, or \<open>None\<close> when it reads past its end. With
  tightly packed rows the code copies them at once, otherwise row by row.\<close>

definition copied_pixels :: "bytes \<Rightarrow> nat \<Rightarrow> nat \<Rightarrow> nat \<Rightarrow> bytes option" where
  "copied_pixels bgra w h stride =
     (if stride = w * 4 then (if w * h * 4 \<le> length bgra then Some (take (w * h * 4) bgra) else None)
      else if \<forall>y < h. y * stride + w * 4 \<le> length bgra
      then Some (concat (map (\<lambda>y. take (w * 4) (drop (y * stride) bgra)) [0..<h])) else None)"

definition update_fps :: "u64 \<Rightarrow> VideoWidget \<Rightarrow> VideoWidget" where
  "update_fps now s =
     (if vw_lastFpsUpdateNs s = 0 then s\<lparr>vw_lastFpsUpdateNs := now\<rparr>
      else if now - vw_lastFpsUpdateNs s \<ge> 500000000
      then s\<lparr>vw_fpsEstimate := rat_of_nat (unat (vw_framesPresented s)) * 1000000000 / rat_of_nat (unat (now - vw_lastFpsUpdateNs s)),
             vw_framesPresented := 0, vw_lastFpsUpdateNs := now\<rparr>
      else s)"

definition presentFrame :: "u64 \<Rightarrow> bytes \<Rightarrow> nat \<Rightarrow> nat \<Rightarrow> nat \<Rightarrow> VideoWidget \<Rightarrow> VideoWidget" where
  "presentFrame now bgra w h stride s =
     (case copied_pixels bgra w h stride of
        None \<Rightarrow> s\<lparr>vw_overread := True\<rparr>
      | Some bits \<Rightarrow>
          update_fps now (s\<lparr>vw_frame := Some (int w, int h, bits), vw_framesPresented := vw_framesPresented s + 1\<rparr>))"

definition setQualityBanner :: "string \<Rightarrow> VideoWidget \<Rightarrow> VideoWidget" where
  "setQualityBanner banner s = s\<lparr>vw_qualityBanner := banner\<rparr>"

definition videoDestRect :: "Qt \<Rightarrow> VideoWidget \<Rightarrow> QRect" where
  "videoDestRect Q s =
     (case vw_frame s of
        None \<Rightarrow> \<lparr>qr_x = 0, qr_y = 0, qr_width = vw_width s, qr_height = vw_height s\<rparr>
      | Some (w, h, bits) \<Rightarrow>
          let (sw, sh) = qt_scaled Q (w, h) (vw_width s, vw_height s)
          in \<lparr>qr_x = half (vw_width s - sw), qr_y = half (vw_height s - sh), qr_width = sw, qr_height = sh\<rparr>)"

section \<open>Painting\<close>

datatype paint_op =
    FillRect QRect
  | FillPath QRect
  | DrawImage QRect
  | DrawText QRect string

definition qrect :: "int \<Rightarrow> int \<Rightarrow> int \<Rightarrow> int \<Rightarrow> QRect" where
  "qrect x y w h = \<lparr>qr_x = x, qr_y = y, qr_width = w, qr_height = h\<rparr>"

definition lineH :: int where "lineH = 14"
definition blockW :: int where "blockW = 260"

text \<open>The loop over the lines: each one below the one before.\<close>

fun draw_lines :: "int \<Rightarrow> string list \<Rightarrow> paint_op list" where
  "draw_lines y [] = []"
| "draw_lines y (l # ls) = DrawText (qrect 14 y (blockW - 12) lineH) l # draw_lines (y + lineH) ls"

text \<open>\<open>provided\<close>: the lines of the statistics provider, when one is set.\<close>

definition overlay_lines :: "string list option \<Rightarrow> string list" where
  "overlay_lines provided = (case provided of None \<Rightarrow> [] | Some ls \<Rightarrow> ls) @ [''F10 overlay | F11 fullscreen'']"

definition drawOverlay :: "string list option \<Rightarrow> VideoWidget \<Rightarrow> paint_op list" where
  "drawOverlay provided s =
     (let lines = overlay_lines provided; blockH = int (length lines) * lineH + 10
      in FillPath (qrect 8 8 blockW blockH) # draw_lines 16 lines @
         (if vw_qualityBanner s = [] then []
          else [FillPath (qrect 0 (vw_height s - 34) (vw_width s) 26),
                DrawText (qrect 10 (vw_height s - 34) (vw_width s - 20) 26) (vw_qualityBanner s)]))"

definition paintEvent :: "Qt \<Rightarrow> string list option \<Rightarrow> VideoWidget \<Rightarrow> paint_op list" where
  "paintEvent Q provided s =
     FillRect (qrect 0 0 (vw_width s) (vw_height s)) #
     (if vw_frame s \<noteq> None then [DrawImage (videoDestRect Q s)]
      else [DrawText (qrect 0 (-18) (vw_width s) (vw_height s)) ''Waiting for the stream...'',
            DrawText (qrect 0 14 (vw_width s) (vw_height s))
              (''The video appears here as soon as the host starts the stream.'' @ [CHR 0x0A] @ ''F11 fullscreen - F10 stats overlay'')]) @
     (if vw_overlayVisible s then drawOverlay provided s else [])"

section \<open>Input\<close>

definition Key_F10 :: nat where "Key_F10 = 0x01000039"
definition Key_F11 :: nat where "Key_F11 = 0x0100003A"
definition Key_Escape :: nat where "Key_Escape = 0x01000000"

definition keyPressEvent :: "nat \<Rightarrow> bool \<Rightarrow> VideoWidget \<Rightarrow> VideoWidget \<times> vw_signal list" where
  "keyPressEvent key autoRepeat s =
     (if key = Key_F10 then (s\<lparr>vw_overlayVisible := \<not> vw_overlayVisible s\<rparr>, [])
      else if key = Key_F11 then (s, [ToggleFullscreenRequested True])
      else if key = Key_Escape \<and> vw_fullscreenActive s then (s, [EscapePressed])
      else (s, [KeyPressed key autoRepeat]))"

definition keyReleaseEvent :: "nat \<Rightarrow> VideoWidget \<Rightarrow> VideoWidget \<times> vw_signal list" where
  "keyReleaseEvent key s = (if key = Key_F10 \<or> key = Key_F11 then (s, []) else (s, [KeyReleased key]))"

definition mouseMoveEvent :: "int \<Rightarrow> int \<Rightarrow> VideoWidget \<Rightarrow> VideoWidget \<times> vw_signal list" where
  "mouseMoveEvent x y s = (s, [MouseMoved x y])"

definition mousePressEvent :: "nat \<Rightarrow> int \<Rightarrow> int \<Rightarrow> VideoWidget \<Rightarrow> VideoWidget \<times> vw_signal list" where
  "mousePressEvent button x y s = (s, [MouseButtonPressed button x y])"

definition mouseReleaseEvent :: "nat \<Rightarrow> int \<Rightarrow> int \<Rightarrow> VideoWidget \<Rightarrow> VideoWidget \<times> vw_signal list" where
  "mouseReleaseEvent button x y s = (s, [MouseButtonReleased button x y])"

definition wheelEvent :: "int \<Rightarrow> VideoWidget \<Rightarrow> VideoWidget \<times> vw_signal list" where
  "wheelEvent delta s = (s, [MouseWheel delta])"

text \<open>Qt's own handler of a double click passes it on as a press.\<close>

definition mouseDoubleClickEvent :: "bool \<Rightarrow> nat \<Rightarrow> int \<Rightarrow> int \<Rightarrow> VideoWidget \<Rightarrow> VideoWidget \<times> vw_signal list" where
  "mouseDoubleClickEvent isFullScreen button x y s =
     (let (s', outs) = mousePressEvent button x y s in (s', ToggleFullscreenRequested (\<not> isFullScreen) # outs))"

section \<open>Properties\<close>

text \<open>Both ways of copying agree.\<close>

lemma rows_length: "(\<And>y. y < h \<Longrightarrow> length (f y) = n) \<Longrightarrow> length (concat (map f [0..<h])) = h * n"
  by (induction h) simp_all

lemma row_of_concat:
  assumes "\<And>y. y < h \<Longrightarrow> length (f y) = n" and "y < h"
  shows "take n (drop (y * n) (concat (map f [0..<h]))) = f y"
  using assms
proof (induction h)
  case (Suc h)
  have l: "length (concat (map f [0..<h])) = h * n" using Suc.prems(1) by (intro rows_length) simp
  show ?case
  proof (cases "y = h")
    case True
    then show ?thesis using l Suc.prems(1) by simp
  next
    case False
    then have "y < h" using Suc.prems(2) by simp
    moreover from this have "y * n + n \<le> h * n" by (metis Suc_leI mult_le_mono1 mult_Suc add.commute)
    ultimately show ?thesis using Suc l by (simp add: take_drop)
  qed
qed simp

lemma copied_rows:
  assumes "copied_pixels bgra w h stride = Some bits"
  shows "length bits = w * h * 4" and "y < h \<Longrightarrow> take (w * 4) (drop (y * (w * 4)) bits) = take (w * 4) (drop (y * stride) bgra)"
proof -
  have len: "length (take (w * 4) (drop (y * stride) bgra)) = w * 4" if "stride \<noteq> w * 4" "y < h" for y
    using assms that by (auto simp: copied_pixels_def split: if_splits)
  show "length bits = w * h * 4"
  proof (cases "stride = w * 4 \<or> h = 0")
    case True
    then show ?thesis using assms by (auto simp: copied_pixels_def split: if_splits)
  next
    case False
    then have b: "bits = concat (map (\<lambda>y. take (w * 4) (drop (y * stride) bgra)) [0..<h])"
      using assms by (auto simp: copied_pixels_def split: if_splits)
    have "length bits = h * (w * 4)" unfolding b
      by (rule rows_length) (use len False in auto)
    then show ?thesis by simp
  qed
  show "take (w * 4) (drop (y * (w * 4)) bits) = take (w * 4) (drop (y * stride) bgra)" if y: "y < h"
  proof (cases "stride = w * 4")
    case True
    have "y * (w * 4) + w * 4 \<le> w * h * 4"
      using y by (metis Suc_leI mult_le_mono1 mult_Suc add.commute mult.assoc mult.commute)
    then show ?thesis using True assms by (auto simp: copied_pixels_def take_drop split: if_splits)
  next
    case False
    then have b: "bits = concat (map (\<lambda>y. take (w * 4) (drop (y * stride) bgra)) [0..<h])"
      using assms by (auto simp: copied_pixels_def split: if_splits)
    show ?thesis unfolding b
      by (rule row_of_concat) (use len False y in auto)
  qed
qed

text \<open>Every frame the decoder hands out is shown as it is: the widget's picture has the frame's size and
  exactly its pixels, and the copy does not read past the frame.\<close>

theorem decoded_frame_presented:
  assumes "shows_picture av pic df"
  shows "\<exists>s'. presentFrame now (df_bgra df) (nat (df_width df)) (nat (df_height df)) (nat (df_width df) * 4) s = s' \<and>
    vw_frame s' = Some (df_width df, df_height df, df_bgra df) \<and> vw_overread s' = vw_overread s"
proof -
  have "length (df_bgra df) = nat (df_width df) * nat (df_height df) * 4" "0 < df_width df" "0 < df_height df"
    using assms by (auto simp: shows_picture_def)
  then show ?thesis by (simp add: presentFrame_def copied_pixels_def update_fps_def)
qed

text \<open>The picture is painted inside the widget and centred to within a pixel.\<close>

theorem picture_inside_widget:
  assumes "scaled_inside Q" and "0 \<le> vw_width s" "0 \<le> vw_height s"
    and "\<And>w h bits. vw_frame s = Some (w, h, bits) \<Longrightarrow> 0 < w \<and> 0 < h"
  shows "let r = videoDestRect Q s in 0 \<le> qr_x r \<and> qr_x r + qr_width r \<le> vw_width s \<and> 0 \<le> qr_y r \<and> qr_y r + qr_height r \<le> vw_height s \<and>
    vw_width s - (qr_x r + qr_width r) - qr_x r \<in> {0, 1} \<and> vw_height s - (qr_y r + qr_height r) - qr_y r \<in> {0, 1}"
proof (cases "vw_frame s")
  case None
  then show ?thesis using assms by (simp add: videoDestRect_def Let_def)
next
  case (Some f)
  obtain w h bits where f: "f = (w, h, bits)" by (cases f)
  obtain sw sh where sc: "qt_scaled Q (w, h) (vw_width s, vw_height s) = (sw, sh)" by force
  have "0 \<le> sw" "sw \<le> vw_width s" "0 \<le> sh" "sh \<le> vw_height s"
    using assms Some f sc unfolding scaled_inside_def by (metis fst_conv snd_conv)+
  note c = half_centre [OF this(1,2)] half_centre [OF this(3,4)]
  show ?thesis using c Some f sc by (simp add: videoDestRect_def Let_def)
qed

text \<open>No key stays down through the widget: a key whose press it forwarded has its release forwarded,
  whatever state the widget is in by then.\<close>

theorem forwarded_keys_released:
  assumes "KeyPressed key autoRepeat \<in> set (snd (keyPressEvent k r s))"
  shows "key = k \<and> keyReleaseEvent key s' = (s', [KeyReleased key])"
  using assms by (auto simp: keyPressEvent_def keyReleaseEvent_def split: if_splits)

text \<open>The overlay: every line of the statistics is painted, one below the other and inside the backdrop. The warning about
  the connection belongs to the overlay: with the overlay hidden nothing of it is painted.\<close>

lemma draw_lines_nth:
  "i < length ls \<Longrightarrow> length (draw_lines y ls) = length ls \<and> draw_lines y ls ! i = DrawText (qrect 14 (y + lineH * int i) (blockW - 12) lineH) (ls ! i)"
proof (induction y ls arbitrary: i rule: draw_lines.induct)
  case (2 y l ls)
  have "length (draw_lines z xs) = length xs" for z xs by (induction z xs rule: draw_lines.induct) simp_all
  then show ?case using 2 by (cases i) (simp_all add: algebra_simps)
qed simp

theorem overlay_on_backdrop:
  "(\<forall>i < length (overlay_lines provided). \<exists>r back. DrawText r (overlay_lines provided ! i) \<in> set (drawOverlay provided s) \<and>
      FillPath back \<in> set (drawOverlay provided s) \<and> qr_y r = 16 + 14 * int i \<and> qr_x back \<le> qr_x r \<and> qr_y back \<le> qr_y r \<and>
      qr_x r + qr_width r \<le> qr_x back + qr_width back \<and> qr_y r + qr_height r \<le> qr_y back + qr_height back) \<and>
   (\<not> vw_overlayVisible s \<longrightarrow> paintEvent Q provided (s\<lparr>vw_qualityBanner := b\<rparr>) = paintEvent Q provided s)"
proof (intro conjI allI impI)
  fix i assume i: "i < length (overlay_lines provided)"
  let ?n = "length (overlay_lines provided)"
  have "DrawText (qrect 14 (16 + lineH * int i) (blockW - 12) lineH) (overlay_lines provided ! i) \<in> set (draw_lines 16 (overlay_lines provided))"
    using draw_lines_nth [OF i, of 16] i by (metis nth_mem)
  then have "DrawText (qrect 14 (16 + lineH * int i) (blockW - 12) lineH) (overlay_lines provided ! i) \<in> set (drawOverlay provided s)"
    "FillPath (qrect 8 8 blockW (int ?n * lineH + 10)) \<in> set (drawOverlay provided s)"
    by (simp_all add: drawOverlay_def Let_def)
  moreover have "14 * int i + 14 \<le> int ?n * 14" using i by simp
  ultimately show "\<exists>r back. DrawText r (overlay_lines provided ! i) \<in> set (drawOverlay provided s) \<and>
      FillPath back \<in> set (drawOverlay provided s) \<and> qr_y r = 16 + 14 * int i \<and> qr_x back \<le> qr_x r \<and> qr_y back \<le> qr_y r \<and>
      qr_x r + qr_width r \<le> qr_x back + qr_width back \<and> qr_y r + qr_height r \<le> qr_y back + qr_height back"
    by (intro exI [of _ "qrect 14 (16 + lineH * int i) (blockW - 12) lineH"] exI [of _ "qrect 8 8 blockW (int ?n * lineH + 10)"])
      (simp add: qrect_def lineH_def blockW_def)
qed (simp add: paintEvent_def videoDestRect_def split: option.split)

theorem overlay_on_backdrop_witness:
  "paintEvent qt (Some []) (VideoWidget_new\<lparr>vw_overlayVisible := False, vw_qualityBanner := ''Poor connection''\<rparr>) =
   paintEvent qt (Some []) (VideoWidget_new\<lparr>vw_overlayVisible := False\<rparr>)" for qt
  using overlay_on_backdrop [of "Some []" "VideoWidget_new\<lparr>vw_overlayVisible := False\<rparr>" qt "''Poor connection''"] by simp

end
