(* ===== verification/ClientWindow.thy ===== *)
theory ClientWindow
  imports VideoWidget ClientCoordinator
begin

text \<open>
  \<^verbatim>\<open>ui/ClientWindow.cpp\<close>: the page a player joins from. Texts of the form are what \<^verbatim>\<open>trimmed\<close> returns of them;
  layout, colours and translation are left out. The coordinator is its model; what the session server
  answers and which codecs can be decoded are arguments.

  The theorems: how an address is split into host and port, including the bracketed form whose port is
  not checked; the list of recent hosts stays short and without duplicates; the window's flags agree in
  every run.
\<close>

section \<open>Addresses\<close>

definition parse_address :: "Qt \<Rightarrow> u16 \<Rightarrow> string \<Rightarrow> string \<times> u16" where
  "parse_address Q defaultPort hostRaw =
     (if take 1 hostRaw = ''['' then
        (case indexOf CHR '']'' hostRaw of
           Some close \<Rightarrow>
             if close > 0 then
               (take (close - 1) (drop 1 hostRaw),
                if length hostRaw > close + 2 \<and> hostRaw ! (close + 1) = CHR '':'' then qt_toUShort Q (drop (close + 2) hostRaw) else defaultPort)
             else (hostRaw, defaultPort)
         | None \<Rightarrow> (hostRaw, defaultPort))
      else
        (case lastIndexOf CHR '':'' hostRaw of
           Some colon \<Rightarrow>
             if colon > 0 \<and> indexOf CHR '':'' hostRaw = Some colon then
               let portPart = drop (colon + 1) hostRaw
               in if portPart \<noteq> [] \<and> qt_toInt Q portPart > 0 \<and> qt_toInt Q portPart \<le> 65535
                  then (take colon hostRaw, qt_toUShort Q portPart) else (hostRaw, defaultPort)
             else (hostRaw, defaultPort)
         | None \<Rightarrow> (hostRaw, defaultPort)))"

definition kMaxRecentHosts :: nat where "kMaxRecentHosts = 8"

definition recent_with :: "string \<Rightarrow> string list \<Rightarrow> string list" where
  "recent_with host hosts = take kMaxRecentHosts (host # filter (\<lambda>h. h \<noteq> host) hosts)"

section \<open>The window\<close>

record JoinForm =
  jf_internet :: bool
  jf_name :: string
  jf_host :: string
  jf_code :: string

record ClientWindow =
  cw_listenPort :: int
  cw_coordinator :: ClientCoordinator
  cw_video :: VideoWidget
  cw_recentHosts :: "string list"
  cw_hostItems :: "string list"
  cw_hostText :: string
  cw_joinStatus :: string
  cw_info :: string
  cw_formVisible :: bool
  cw_videoVisible :: bool
  cw_barVisible :: bool
  cw_windowFullscreen :: bool
  cw_videoFullscreen :: bool

definition ClientWindow_new :: "Config \<Rightarrow> string list \<Rightarrow> ClientWindow" where
  "ClientWindow_new cfg recent = \<lparr>cw_listenPort = nw_listenPort (cfg_network cfg), cw_coordinator = setVideoWidget True (ClientCoordinator_new cfg),
     cw_video = VideoWidget_new, cw_recentHosts = recent, cw_hostItems = recent, cw_hostText = [], cw_joinStatus = [], cw_info = [], cw_formVisible = True, cw_videoVisible = False,
     cw_barVisible = False, cw_windowFullscreen = False, cw_videoFullscreen = False\<rparr>"

definition setVideoFullscreen :: "bool \<Rightarrow> ClientWindow \<Rightarrow> ClientWindow" where
  "setVideoFullscreen fullscreen s =
     (if cw_videoFullscreen s = fullscreen then s
      else
        let s = s\<lparr>cw_videoFullscreen := fullscreen, cw_video := (cw_video s)\<lparr>vw_fullscreenActive := fullscreen\<rparr>\<rparr>
        in if fullscreen then s\<lparr>cw_windowFullscreen := True, cw_barVisible := False\<rparr>
           else s\<lparr>cw_windowFullscreen := False, cw_barVisible := (cw_videoVisible s \<or> cw_barVisible s)\<rparr>)"

definition toggleFullscreen :: "ClientWindow \<Rightarrow> ClientWindow" where
  "toggleFullscreen s = setVideoFullscreen (\<not> cw_videoFullscreen s) s"

definition setStreamingUi :: "bool \<Rightarrow> ClientWindow \<Rightarrow> ClientWindow" where
  "setStreamingUi streaming s =
     (let s = (if \<not> streaming \<and> cw_videoFullscreen s then setVideoFullscreen False s else s)
      in s\<lparr>cw_formVisible := \<not> streaming, cw_videoVisible := streaming, cw_barVisible := streaming,
           cw_video := setQualityBanner (if streaming then ''Connecting to stream...'' else []) (cw_video s)\<rparr>)"

text \<open>\<open>cw_recentHosts\<close> is the list of the application's settings, \<open>cw_hostItems\<close> the entries of the combo box and \<open>cw_hostText\<close> the
  text in it.\<close>

definition loadRecentHosts :: "ClientWindow \<Rightarrow> ClientWindow" where
  "loadRecentHosts s = s\<lparr>cw_hostItems := cw_recentHosts s\<rparr>"

definition rememberHost :: "string \<Rightarrow> ClientWindow \<Rightarrow> ClientWindow" where
  "rememberHost host s =
     (loadRecentHosts (s\<lparr>cw_recentHosts := recent_with host (cw_recentHosts s)\<rparr>))\<lparr>cw_hostText := host\<rparr>"

text \<open>\<open>conn\<close>, \<open>reply\<close>: whether the server can be reached and its answer; \<open>decodable\<close>: the codecs FFmpeg decodes; \<open>err\<close>: the
  coordinator's message.\<close>

definition cw_join :: "Qt \<Rightarrow> bool \<Rightarrow> join_reply option \<Rightarrow> VideoCodec list \<Rightarrow> string \<Rightarrow> JoinForm \<Rightarrow> ClientWindow \<Rightarrow> ClientWindow" where
  "cw_join Q conn reply decodable err f s =
     (if jf_code f = [] \<or> jf_host f = [] then s\<lparr>cw_joinStatus := ''Enter the host/server address and the session code.''\<rparr>
      else
        let (host, port) = parse_address Q (word_of_int (cw_listenPort s)) (jf_host f);
            name = (if jf_name f = [] then ''Player'' else jf_name f);
            s = (rememberHost (jf_host f) s)\<lparr>cw_joinStatus := ''Connecting...''\<rparr>;
            (c, ok) = (if jf_internet f then cc_startInternet conn reply decodable host (jf_code f) name (cw_coordinator s)
                       else cc_startLan decodable host port name (jf_code f) (cw_coordinator s));
            s = s\<lparr>cw_coordinator := c\<rparr>
        in if \<not> ok then s\<lparr>cw_joinStatus := (if err = [] then ''Could not connect.'' else err)\<rparr>
           else setStreamingUi True s)"

definition cw_leave :: "ClientWindow \<Rightarrow> ClientWindow" where
  "cw_leave s = setStreamingUi False (s\<lparr>cw_coordinator := cc_stop (cw_coordinator s)\<rparr>)"

definition disconnectIfActive :: "ClientWindow \<Rightarrow> ClientWindow" where
  "disconnectIfActive s =
     (case cc_client (cw_coordinator s) of
        None \<Rightarrow> s
      | Some c \<Rightarrow> if ca_connected c then cw_leave s else s)"

definition cw_onDisconnected :: "string \<Rightarrow> ClientWindow \<Rightarrow> ClientWindow" where
  "cw_onDisconnected reason s = (setStreamingUi False s)\<lparr>cw_joinStatus := ''Disconnected: '' @ reason\<rparr>"

definition cw_showError :: "string \<Rightarrow> ClientWindow \<Rightarrow> ClientWindow" where
  "cw_showError message s = (if message = [] then s else s\<lparr>cw_joinStatus := message\<rparr>)"

definition updateQualityBanner :: "Qt \<Rightarrow> ClientWindow \<Rightarrow> ClientWindow" where
  "updateQualityBanner Q s =
     (let u = cc_ui (cw_coordinator s);
          banner = (if cu_lossPercent u > 5 then qt_arg Q ''Poor connection - packet loss %1%'' [qt_fixed Q 1 (cu_lossPercent u)]
                    else if cu_rttMs u > 150 then qt_arg Q ''High latency - %1 ms'' [qt_fixed Q 0 (cu_rttMs u)]
                    else if cu_fps u > 0 \<and> cu_fps u < 25 then qt_arg Q ''Low framerate - %1 FPS'' [qt_fixed Q 0 (cu_fps u)]
                    else [])
      in s\<lparr>cw_video := setQualityBanner banner (cw_video s)\<rparr>)"

definition cw_onStateChanged :: "Qt \<Rightarrow> ClientWindow \<Rightarrow> ClientWindow" where
  "cw_onStateChanged Q s = updateQualityBanner Q (s\<lparr>cw_info := cu_status (cc_ui (cw_coordinator s))\<rparr>)"

text \<open>The two names are put in together, the player's number in a second call.\<close>

definition cw_onConnectedToHost :: "Qt \<Rightarrow> string \<Rightarrow> string \<Rightarrow> int \<Rightarrow> ClientWindow \<Rightarrow> ClientWindow" where
  "cw_onConnectedToHost Q host game player s =
     s\<lparr>cw_info := qt_arg Q (qt_arg Q ''Connected to %1 - %2 (you are Player %3)'' [host, if game = [] then ''?'' else game])
        [qt_number Q player]\<rparr>"

text \<open>The lines of the statistics overlay; each \<^verbatim>\<open>arg\<close> is a call of its own.\<close>

definition qt_args :: "Qt \<Rightarrow> string \<Rightarrow> string list \<Rightarrow> string" where
  "qt_args Q f xs = fold (\<lambda>x t. qt_arg Q t [x]) xs f"

definition statsLines :: "Qt \<Rightarrow> ClientWindow \<Rightarrow> string list" where
  "statsLines Q s =
     (let u = cc_ui (cw_coordinator s) in
      [qt_args Q (''Player %1 on %2'' @ [CHR 0x27] @ ''s session'') [qt_number Q (cu_playerIndex u), if cu_hostName u = [] then ''?'' else cu_hostName u],
       qt_args Q ''RTT %1 ms | loss %2% | jitter %3 ms'' [qt_fixed Q 0 (cu_rttMs u), qt_fixed Q 1 (cu_lossPercent u), qt_fixed Q 1 (cu_jitterMs u)],
       qt_args Q ''In %1 Mbps | FPS %2 | decode %3 ms'' [qt_fixed Q 1 (cu_bitrateKbps u / 1000), qt_fixed Q 0 (cu_fps u), qt_fixed Q 1 (cu_decodeMs u)],
       qt_args Q ''Video %1x%2 (%3)'' [qt_number Q (cu_width u), qt_number Q (cu_height u), if cu_decoderName u = [] then ''-'' else cu_decoderName u],
       qt_args Q ''Audio %1'' [if cu_audioActive u then qt_args Q ''on (%1 ms dec)'' [qt_fixed Q 1 (cu_audioMs u)] else ''off'']])"

definition cw_escape :: "ClientWindow \<Rightarrow> ClientWindow" where
  "cw_escape s = (if cw_videoFullscreen s then setVideoFullscreen False s else s)"

section \<open>Properties\<close>

text \<open>How a player's address is read: \<^verbatim>\<open>host\<close> alone uses the configured port, \<^verbatim>\<open>host:port\<close> is split when the port is
  between 1 and 65535 and kept whole otherwise, an address with several colons is kept whole, and in
  \<^verbatim>\<open>[host]:port\<close> the port is not checked: a number too large becomes port 0.\<close>

theorem address_split:
  assumes n: "reads_number Q digits n" and d: "digits \<noteq> []" "CHR '':'' \<notin> set digits"
    and h: "h \<noteq> []" "hd h \<noteq> CHR ''[''" "CHR '':'' \<notin> set h" and v6: "CHR '']'' \<notin> set a"
  shows "parse_address Q p h = (h, p) \<and>
    parse_address Q p (h @ '':'' @ digits) = (if 0 < n \<and> n \<le> 65535 then (h, of_nat n) else (h @ '':'' @ digits, p)) \<and>
    parse_address Q p (h @ '':'' @ digits @ '':'' @ rest) = (h @ '':'' @ digits @ '':'' @ rest, p) \<and>
    parse_address Q p (''['' @ a @ '']'') = (a, p) \<and>
    parse_address Q p (''['' @ a @ '']:'' @ digits) = (a, if n \<le> 65535 then of_nat n else 0)"
proof (intro conjI)
  have t: "take 1 (h @ x) \<noteq> ''[''" for x using h(1,2) by (cases h) auto
  show "parse_address Q p h = (h, p)" using t [of "[]"] h(3) by (simp add: parse_address_def)
  have i: "indexOf CHR '':'' (h @ CHR '':'' # digits) = Some (length h)" "lastIndexOf CHR '':'' (h @ CHR '':'' # digits) = Some (length h)"
    using single_index [OF h(3) d(2)] by auto
  show "parse_address Q p (h @ '':'' @ digits) = (if 0 < n \<and> n \<le> 65535 then (h, of_nat n) else (h @ '':'' @ digits, p))"
    using t [of "CHR '':'' # digits"] i n d(1) h(1) by (simp add: parse_address_def reads_number_def)
  let ?w = "h @ '':'' @ digits @ '':'' @ rest"
  have f: "indexOf CHR '':'' ?w = Some (length h)" using indexOf_first [OF h(3)] by simp
  have "lastIndexOf CHR '':'' ?w \<noteq> Some (length h)"
  proof
    assume "lastIndexOf CHR '':'' ?w = Some (length h)"
    from two_indices [OF this f] show False by simp
  qed
  then show "parse_address Q p ?w = (?w, p)"
    using f t [of "'':'' @ digits @ '':'' @ rest"] by (auto simp: parse_address_def split: option.split)
  have c: "indexOf CHR '']'' (a @ CHR '']'' # x) = Some (length a)" for x using indexOf_first [OF v6] by simp
  show "parse_address Q p (''['' @ a @ '']'') = (a, p)" using c [of "[]"] by (simp add: parse_address_def)
  have "(''['' @ a @ '']:'' @ digits) ! (length a + 2) = CHR '':''" by (simp add: nth_append)
  then show "parse_address Q p (''['' @ a @ '']:'' @ digits) = (a, if n \<le> 65535 then of_nat n else 0)"
    using c [of "CHR '':'' # digits"] n d(1) by (cases digits) (simp_all add: parse_address_def reads_number_def nth_append)
qed

text \<open>The recent hosts: the one just used comes first, none is listed twice, at most eight are kept, and
  the others keep their order.\<close>

theorem recent_hosts:
  "hd (recent_with host hosts) = host \<and> length (recent_with host hosts) \<le> 8 \<and>
   (distinct hosts \<longrightarrow> distinct (recent_with host hosts)) \<and>
   (\<exists>n. tl (recent_with host hosts) = take n (filter (\<lambda>h. h \<noteq> host) hosts)) \<and>
   recent_with host (recent_with host hosts) = recent_with host hosts"
proof -
  have "recent_with host hosts = host # take 7 (filter (\<lambda>h. h \<noteq> host) hosts)" by (simp add: recent_with_def kMaxRecentHosts_def)
  moreover have "filter (\<lambda>h. h \<noteq> host) (take 7 (filter (\<lambda>h. h \<noteq> host) hosts)) = take 7 (filter (\<lambda>h. h \<noteq> host) hosts)"
    by (auto simp: filter_id_conv dest: in_set_takeD)
  ultimately show ?thesis by (auto simp: recent_with_def kMaxRecentHosts_def dest: in_set_takeD)
qed

section \<open>The window's flags\<close>

datatype cw_event =
    CwJoin bool "join_reply option" "VideoCodec list" string JoinForm
  | CwLeave
  | CwDisconnectIfActive
  | CwDisconnected string
  | CwError string
  | CwToggle
  | CwEscape
  | CwStateChanged
  | CwConnectedToHost string string int

fun cw_handle :: "Qt \<Rightarrow> cw_event \<Rightarrow> ClientWindow \<Rightarrow> ClientWindow" where
  "cw_handle Q (CwJoin conn reply decodable err f) s = cw_join Q conn reply decodable err f s"
| "cw_handle Q CwLeave s = cw_leave s"
| "cw_handle Q CwDisconnectIfActive s = disconnectIfActive s"
| "cw_handle Q (CwDisconnected reason) s = cw_onDisconnected reason s"
| "cw_handle Q (CwError message) s = cw_showError message s"
| "cw_handle Q CwToggle s = toggleFullscreen s"
| "cw_handle Q CwEscape s = cw_escape s"
| "cw_handle Q CwStateChanged s = cw_onStateChanged Q s"
| "cw_handle Q (CwConnectedToHost host game player) s = cw_onConnectedToHost Q host game player s"

definition cw_inv :: "ClientWindow \<Rightarrow> bool" where
  "cw_inv s \<longleftrightarrow> cw_formVisible s = (\<not> cw_videoVisible s) \<and> vw_fullscreenActive (cw_video s) = cw_videoFullscreen s \<and>
     cw_windowFullscreen s = cw_videoFullscreen s \<and> (cw_barVisible s \<longrightarrow> cw_videoVisible s) \<and> cw_hostItems s = cw_recentHosts s"

lemma cw_inv_fullscreen: "cw_inv s \<Longrightarrow> cw_inv (setVideoFullscreen b s)"
  by (auto simp: cw_inv_def setVideoFullscreen_def Let_def)

lemma cw_inv_streaming: "cw_inv s \<Longrightarrow> cw_inv (setStreamingUi b s)"
  using cw_inv_fullscreen [of s False] by (auto simp: cw_inv_def setStreamingUi_def setQualityBanner_def Let_def)

lemma cw_inv_frame [simp]:
  "cw_inv (s\<lparr>cw_coordinator := c\<rparr>) = cw_inv s" "cw_inv (s\<lparr>cw_joinStatus := x\<rparr>) = cw_inv s"
  "cw_inv (s\<lparr>cw_info := x\<rparr>) = cw_inv s" "cw_inv (s\<lparr>cw_video := setQualityBanner b (cw_video s)\<rparr>) = cw_inv s"
  by (simp_all add: cw_inv_def setQualityBanner_def)

lemma cw_inv_banner [simp]: "cw_inv (updateQualityBanner Q s) = cw_inv s"
  unfolding updateQualityBanner_def Let_def by (rule cw_inv_frame(4))

lemma cw_inv_remember: "cw_inv s \<Longrightarrow> cw_inv (rememberHost h s)"
  by (simp add: cw_inv_def rememberHost_def loadRecentHosts_def)

lemma cw_inv_join: "cw_inv s \<Longrightarrow> cw_inv (cw_join Q conn reply decodable err f s)"
  by (simp add: cw_join_def Let_def case_prod_beta cw_inv_streaming cw_inv_remember)

lemma cw_inv_handle: "cw_inv s \<Longrightarrow> cw_inv (cw_handle Q e s)"
  by (cases e) (simp_all add: cw_inv_join cw_inv_streaming cw_inv_fullscreen cw_leave_def disconnectIfActive_def cw_onDisconnected_def
      cw_showError_def toggleFullscreen_def cw_escape_def cw_onStateChanged_def cw_onConnectedToHost_def split: option.split)

interpretation cwm: event_machine "ClientWindow_new cfg recent" "cw_handle Q" cw_inv
  by unfold_locales (simp add: cw_inv_def ClientWindow_new_def VideoWidget_new_def, rule cw_inv_handle)

text \<open>In every run of the player's window either the form or the video is shown, the video widget knows
  whether the window is in fullscreen, so that Escape is kept from the game exactly then, and once a
  session ended the window is not in fullscreen; the entries offered are the recent hosts.\<close>

theorem client_window_consistent:
  "let s = fold (cw_handle Q) es (ClientWindow_new cfg recent)
   in cw_formVisible s = (\<not> cw_videoVisible s) \<and> cw_hostItems s = cw_recentHosts s \<and> cw_windowFullscreen s = cw_videoFullscreen s \<and>
      (EscapePressed \<in> set (snd (keyPressEvent Key_Escape r (cw_video s)))) = cw_windowFullscreen s \<and>
      \<not> cw_windowFullscreen (cw_onDisconnected reason s) \<and> \<not> cw_windowFullscreen (cw_leave s)"
proof -
  define s where "s = fold (cw_handle Q) es (ClientWindow_new cfg recent)"
  have i: "cw_inv s" unfolding s_def by (rule cwm.inv_run)
  have "\<not> cw_windowFullscreen (setStreamingUi False t)" if "cw_inv t" for t
    using that by (auto simp: cw_inv_def setStreamingUi_def setVideoFullscreen_def Let_def)
  then have "\<not> cw_windowFullscreen (cw_onDisconnected reason s)" "\<not> cw_windowFullscreen (cw_leave s)"
    using i by (simp_all add: cw_onDisconnected_def cw_leave_def)
  moreover have "Key_Escape \<noteq> Key_F10" "Key_Escape \<noteq> Key_F11" by (simp_all add: Key_Escape_def Key_F10_def Key_F11_def)
  ultimately show ?thesis using i unfolding s_def [symmetric] by (auto simp: cw_inv_def keyPressEvent_def Let_def)
qed

end
