(* ===== verification/SettingsWindow.thy ===== *)
theory SettingsWindow
  imports QtText Config
begin

text \<open>
  \<^verbatim>\<open>ui/SettingsWindow.cpp\<close>: the settings page as the values of its controls: what \<^verbatim>\<open>loadFromConfig\<close> puts into them
  and what \<^verbatim>\<open>save\<close> makes of them. A combo box is its current index, a spin box a value kept in its range.
  Writing the file is \<open>config_save\<close> of \<open>Config\<close>.

  The theorems: opening and saving the page without a change keeps a configuration whose resolution is a
  preset and whose port is at least 1024, and what changes otherwise.
\<close>

record SettingsForm =
  sf_codec :: nat
  sf_resolution :: nat
  sf_fps :: nat
  sf_bitrate :: int
  sf_audioBitrate :: nat
  sf_controller :: bool
  sf_keyboard :: bool
  sf_mouse :: bool
  sf_vibration :: bool
  sf_approval :: bool
  sf_maxBitrate :: int
  sf_jitter :: int
  sf_port :: int
  sf_name :: string

text \<open>The controls as the constructor leaves them.\<close>

definition SettingsForm_new :: SettingsForm where
  "SettingsForm_new = \<lparr>sf_codec = 0, sf_resolution = 0, sf_fps = 0, sf_bitrate = 2, sf_audioBitrate = 0, sf_controller = False,
     sf_keyboard = False, sf_mouse = False, sf_vibration = False, sf_approval = False, sf_maxBitrate = 2, sf_jitter = 10, sf_port = 1024,
     sf_name = []\<rparr>"

text \<open>The first position of a value, or the index as it was.\<close>

fun position :: "'a \<Rightarrow> 'a list \<Rightarrow> nat \<Rightarrow> nat \<Rightarrow> nat" where
  "position x [] i old = old"
| "position x (y # ys) i old = (if y = x then i else position x ys (i + 1) old)"

definition loadFromConfig :: "Config \<Rightarrow> SettingsForm \<Rightarrow> SettingsForm" where
  "loadFromConfig c f =
     (let v = cfg_video c; n = cfg_network c; i = cfg_input c
      in \<lparr>sf_codec = (if vs_codec v = Hevc then 1 else if vs_codec v = Av1 then 2 else 0),
          sf_resolution = position (Resolution_toString (vs_resolution v)) (map Resolution_toString Resolution_presets) 0 (sf_resolution f),
          sf_fps = position (vs_fps v) fpsPresets 0 (sf_fps f), sf_bitrate = spin 2 50 (vs_bitrateMbps v),
          sf_audioBitrate = (if as_bitrateKbps (cfg_audio c) = 64 then 0 else if as_bitrateKbps (cfg_audio c) = 96 then 1
            else if as_bitrateKbps (cfg_audio c) = 192 then 3 else 2),
          sf_controller = in_controller i, sf_keyboard = in_keyboard i, sf_mouse = in_mouse i, sf_vibration = in_vibration i,
          sf_approval = in_requireHostApproval i, sf_maxBitrate = spin 2 50 (nw_maxBitrateMbps n), sf_jitter = spin 10 200 (nw_jitterBufferMs n),
          sf_port = spin 1024 65535 (nw_listenPort n), sf_name = cfg_profile_name c\<rparr>)"

definition sw_save :: "Qt \<Rightarrow> SettingsForm \<Rightarrow> Config \<Rightarrow> Config" where
  "sw_save Q f c =
     (let v = cfg_video c;
          v = v\<lparr>vs_codec := (if sf_codec f = 1 then Hevc else if sf_codec f = 2 then Av1 else H264),
                vs_resolution := (case Resolution_parse (map Resolution_toString Resolution_presets ! sf_resolution f) of
                  Some r \<Rightarrow> r | None \<Rightarrow> vs_resolution v),
                vs_fps := fpsPresets ! sf_fps f, vs_bitrateMbps := sf_bitrate f\<rparr>
      in sanitize (c\<lparr>cfg_video := v, cfg_audio := (cfg_audio c)\<lparr>as_bitrateKbps := audioChoices ! min (sf_audioBitrate f) 3\<rparr>,
           cfg_input := \<lparr>in_controller = sf_controller f, in_keyboard = sf_keyboard f, in_mouse = sf_mouse f, in_vibration = sf_vibration f,
             in_requireHostApproval = sf_approval f\<rparr>,
           cfg_network := (cfg_network c)\<lparr>nw_maxBitrateMbps := sf_maxBitrate f, nw_jitterBufferMs := sf_jitter f, nw_listenPort := sf_port f\<rparr>,
           cfg_profile_name := take 32 (qt_trimmed Q (sf_name f))\<rparr>))"

section \<open>Properties\<close>

lemma preset_parse: "r \<in> set Resolution_presets \<Longrightarrow> Resolution_parse (Resolution_toString r) = Some r"
  by (rule Resolution_roundtrip) (auto simp: Resolution_presets_def res_in_range_def)

lemma position_present:
  "x \<in> set ys \<Longrightarrow> i \<le> position x ys i old \<and> position x ys i old - i < length ys \<and> ys ! (position x ys i old - i) = x"
proof (induction ys arbitrary: i)
  case (Cons y ys)
  show ?case
  proof (cases "y = x")
    case False
    then have "i + 1 \<le> position x ys (i + 1) old" "position x ys (i + 1) old - (i + 1) < length ys" "ys ! (position x ys (i + 1) old - (i + 1)) = x"
      using Cons by auto
    then show ?thesis using False by (auto simp: nth_Cons' Suc_le_eq)
  qed simp
qed simp

lemma position_absent: "x \<notin> set ys \<Longrightarrow> position x ys i old = old"
  by (induction ys arbitrary: i) auto

lemma spin_id: "v \<in> {lo..hi} \<Longrightarrow> spin lo hi v = v"
  by (simp add: spin_def)

lemma saved_resolution: "res_in_range (vs_resolution v) \<Longrightarrow> vs_resolution (sanitize_video v) = vs_resolution v"
  by (simp add: sanitize_video_def Let_def res_range_words)

lemma audio_index:
  "k \<in> {64, 96, 128, 192} \<Longrightarrow> audioChoices ! min (if k = 64 then 0 else if k = 96 then 1 else if k = 192 then 3 else 2) 3 = k"
  by (auto simp: audioChoices_def)

text \<open>Opening the settings and saving them without a change keeps the configuration, when its resolution
  is one of the presets, its port is at least 1024 and the name has no blanks around it.\<close>

theorem settings_kept:
  assumes ok: "config_ok c" and r: "vs_resolution (cfg_video c) \<in> set Resolution_presets" and p: "1024 \<le> nw_listenPort (cfg_network c)"
    and n: "qt_trimmed Q (cfg_profile_name c) = cfg_profile_name c"
  shows "sw_save Q (loadFromConfig c f) c = c"
proof -
  let ?f = "loadFromConfig c f" and ?v = "cfg_video c" and ?n = "cfg_network c"
  have res: "map Resolution_toString Resolution_presets ! sf_resolution ?f = Resolution_toString (vs_resolution ?v)"
    using position_present [of "Resolution_toString (vs_resolution ?v)" "map Resolution_toString Resolution_presets" 0 "sf_resolution f"] r
    by (simp add: loadFromConfig_def Let_def)
  have fps: "fpsPresets ! sf_fps ?f = vs_fps ?v"
    using position_present [of "vs_fps ?v" fpsPresets 0 "sf_fps f"] ok by (auto simp: loadFromConfig_def Let_def config_ok_def fpsPresets_def)
  have codec: "(if sf_codec ?f = 1 then Hevc else if sf_codec ?f = 2 then Av1 else H264) = vs_codec ?v"
  proof -
    have "vs_codec ?v \<in> {H264, Hevc, Av1}" using ok by (simp add: config_ok_def)
    then show ?thesis by (auto simp: loadFromConfig_def Let_def)
  qed
  have audio: "audioChoices ! min (sf_audioBitrate ?f) 3 = as_bitrateKbps (cfg_audio c)"
    using ok audio_index [of "as_bitrateKbps (cfg_audio c)"] unfolding loadFromConfig_def Let_def config_ok_def by simp
  have spins: "sf_bitrate ?f = vs_bitrateMbps ?v" "sf_maxBitrate ?f = nw_maxBitrateMbps ?n" "sf_jitter ?f = nw_jitterBufferMs ?n"
    "sf_port ?f = nw_listenPort ?n" using ok p by (auto simp: loadFromConfig_def Let_def config_ok_def intro!: spin_id)
  have rest: "sf_controller ?f = in_controller (cfg_input c)" "sf_keyboard ?f = in_keyboard (cfg_input c)" "sf_mouse ?f = in_mouse (cfg_input c)"
    "sf_vibration ?f = in_vibration (cfg_input c)" "sf_approval ?f = in_requireHostApproval (cfg_input c)" "sf_name ?f = cfg_profile_name c"
    by (simp_all add: loadFromConfig_def Let_def)
  have "sw_save Q ?f c = sanitize c"
    using preset_parse [OF r] ok n unfolding sw_save_def Let_def res fps codec audio spins rest
    by (auto simp: config_ok_def intro!: arg_cong [where f = sanitize])
  then show ?thesis using sanitize_id [OF ok] by simp
qed

theorem settings_kept_witness: "sw_save \<lparr>qt_toInt = \<lambda>_. 0, qt_toUShort = \<lambda>_. 0, qt_trimmed = id, qt_scaled = \<lambda>_ b. b, qt_number = \<lambda>_. [], qt_fixed = \<lambda>_ _. [], qt_arg = \<lambda>f _. f\<rparr>
    (loadFromConfig Config_default SettingsForm_new) Config_default = Config_default"
  by (rule settings_kept [OF default_ok]) (simp_all add: Config_default_def Resolution_presets_def)

text \<open>Settings the page cannot show are changed by saving it: a resolution that is not a preset becomes
  1280x720 and a port below 1024 becomes 1024, although both are valid in the file.\<close>

theorem settings_replaced:
  assumes "config_ok c" and "vs_resolution (cfg_video c) \<notin> set Resolution_presets" and "nw_listenPort (cfg_network c) < 1024"
  shows "vs_resolution (cfg_video (sw_save Q (loadFromConfig c SettingsForm_new) c)) = \<lparr>res_width = 1280, res_height = 720\<rparr> \<and>
    nw_listenPort (cfg_network (sw_save Q (loadFromConfig c SettingsForm_new) c)) = 1024"
proof -
  let ?f = "loadFromConfig c SettingsForm_new" and ?r = "vs_resolution (cfg_video c)"
  have ne: "Resolution_toString ?r \<notin> set (map Resolution_toString Resolution_presets)"
  proof
    assume "Resolution_toString ?r \<in> set (map Resolution_toString Resolution_presets)"
    then obtain q where q: "q \<in> set Resolution_presets" "Resolution_toString ?r = Resolution_toString q" by auto
    have "res_in_range ?r" using assms(1) by (simp add: config_ok_def)
    then have "Some ?r = Resolution_parse (Resolution_toString ?r)" by (rule Resolution_roundtrip [symmetric])
    also have "\<dots> = Resolution_parse (Resolution_toString q)" by (rule arg_cong [OF q(2)])
    also have "\<dots> = Some q" by (rule preset_parse [OF q(1)])
    finally have "?r = q" by (rule option.inject [THEN iffD1])
    with q(1) assms(2) show False by blast
  qed
  have pos: "sf_resolution ?f = 0" using position_absent [OF ne, of 0 0] by (simp add: loadFromConfig_def Let_def SettingsForm_new_def)
  have port: "sf_port ?f = 1024" using assms(3) by (simp add: loadFromConfig_def Let_def spin_def)
  have first: "Resolution_parse (map Resolution_toString Resolution_presets ! 0) = Some \<lparr>res_width = 1280, res_height = 720\<rparr>"
  proof -
    have l: "0 < length Resolution_presets" and z: "Resolution_presets ! 0 = \<lparr>res_width = 1280, res_height = 720\<rparr>"
      by (simp_all add: Resolution_presets_def)
    show ?thesis unfolding nth_map [OF l] using preset_parse [OF nth_mem [OF l]] unfolding z .
  qed
  have "vs_resolution (cfg_video (sw_save Q ?f c)) = \<lparr>res_width = 1280, res_height = 720\<rparr>"
    unfolding sw_save_def Let_def pos first by (simp add: sanitize_def saved_resolution res_in_range_def)
  moreover have "nw_listenPort (cfg_network (sw_save Q ?f c)) = 1024"
    unfolding sw_save_def Let_def port by (simp add: sanitize_def sanitize_network_def std_clamp_def)
  ultimately show ?thesis by blast
qed

end
