(* ===== verification/MainWindow.thy ===== *)
theory MainWindow
  imports HostWindow ClientWindow SettingsWindow
begin

text \<open>
  \<^verbatim>\<open>ui/MainWindow.cpp\<close>: the four pages and the signals that switch between them, over the models of the
  pages. Layout and style are left out. The theorems: closing the window, and what leaving each page does.
\<close>

datatype page = HomePage | HostPage | ClientPage | SettingsPage

record MainWindow =
  mw_page :: page
  mw_host :: HostWindow
  mw_client :: ClientWindow
  mw_settings :: SettingsForm
  mw_config :: Config

definition MainWindow_new :: "window list \<Rightarrow> adapters option \<Rightarrow> InputInjector \<Rightarrow> string list \<Rightarrow> Config \<Rightarrow> MainWindow" where
  "MainWindow_new ws factory injector recent cfg =
     \<lparr>mw_page = HomePage, mw_host = HostWindow_new ws factory injector cfg, mw_client = ClientWindow_new cfg recent,
      mw_settings = loadFromConfig cfg SettingsForm_new, mw_config = cfg\<rparr>"

text \<open>The pages hold a reference to one configuration: what the settings page saves the other pages see.\<close>

definition share_config :: "Config \<Rightarrow> MainWindow \<Rightarrow> MainWindow" where
  "share_config cfg s =
     s\<lparr>mw_config := cfg,
       mw_host := (mw_host s)\<lparr>hw_coordinator := (hw_coordinator (mw_host s))\<lparr>ho_config := cfg\<rparr>\<rparr>,
       mw_client := (mw_client s)\<lparr>cw_listenPort := nw_listenPort (cfg_network cfg), cw_coordinator := (cw_coordinator (mw_client s))\<lparr>cc_config := cfg\<rparr>\<rparr>\<rparr>"

text \<open>The events reach the page that is shown; the coordinators' signals and the timers reach their page in any case.\<close>

datatype mw_event =
    MwHostCard
  | MwJoinCard
  | MwSettingsButton
  | MwHostBack ui_env
  | MwClientBack
  | MwSettingsBack
  | MwSettingsSave "SettingsForm"
  | MwHostClick "ui_env \<times> hw_event"
  | MwHostSignal "ui_env \<times> hw_event"
  | MwClientClick cw_event
  | MwClientSignal cw_event
  | MwClose ui_env

definition closeEvent :: "ui_env \<Rightarrow> MainWindow \<Rightarrow> MainWindow" where
  "closeEvent u s = s\<lparr>mw_host := stopIfHosting u (mw_host s), mw_client := disconnectIfActive (mw_client s)\<rparr>"

fun mw_handle :: "Qt \<Rightarrow> mw_event \<Rightarrow> MainWindow \<Rightarrow> MainWindow" where
  "mw_handle Q MwHostCard s = (if mw_page s = HomePage then s\<lparr>mw_page := HostPage\<rparr> else s)"
| "mw_handle Q MwJoinCard s = (if mw_page s = HomePage then s\<lparr>mw_page := ClientPage\<rparr> else s)"
| "mw_handle Q MwSettingsButton s = (if mw_page s = HomePage then s\<lparr>mw_page := SettingsPage\<rparr> else s)"
| "mw_handle Q (MwHostBack u) s = (if mw_page s = HostPage then s\<lparr>mw_host := stopIfHosting u (mw_host s), mw_page := HomePage\<rparr> else s)"
| "mw_handle Q MwClientBack s = (if mw_page s = ClientPage then s\<lparr>mw_client := disconnectIfActive (mw_client s), mw_page := HomePage\<rparr> else s)"
| "mw_handle Q MwSettingsBack s = s"
| "mw_handle Q (MwSettingsSave f) s = (if mw_page s = SettingsPage then share_config (sw_save Q f (mw_config s)) (s\<lparr>mw_settings := f\<rparr>) else s)"
| "mw_handle Q (MwHostClick e) s = (if mw_page s = HostPage then s\<lparr>mw_host := hw_handle Q e (mw_host s)\<rparr> else s)"
| "mw_handle Q (MwHostSignal e) s = s\<lparr>mw_host := hw_handle Q e (mw_host s)\<rparr>"
| "mw_handle Q (MwClientClick e) s = (if mw_page s = ClientPage then s\<lparr>mw_client := cw_handle Q e (mw_client s)\<rparr> else s)"
| "mw_handle Q (MwClientSignal e) s = s\<lparr>mw_client := cw_handle Q e (mw_client s)\<rparr>"
| "mw_handle Q (MwClose u) s = closeEvent u s"

section \<open>Every run\<close>

definition mw_inv :: "MainWindow \<Rightarrow> bool" where
  "mw_inv s \<longleftrightarrow> hw_inv (mw_host s) \<and> cw_inv (mw_client s)"

lemma share_inv: "mw_inv (share_config cfg s) = mw_inv s"
  by (simp add: mw_inv_def share_config_def hw_inv_def buttons_ok_def buttons_def boxes_ok_def cw_inv_def)

lemma leave_inv: "cw_inv s \<Longrightarrow> cw_inv (disconnectIfActive s)"
  using cw_inv_handle [of s undefined CwDisconnectIfActive] by simp

lemma back_inv: "hw_inv s \<Longrightarrow> hw_inv (stopIfHosting u s)"
  by (simp add: stopIfHosting_def inv_stop)

lemma inv_react: "hw_inv s \<Longrightarrow> hw_inv (hw_react Q u e s)"
  using inv_handle [of s Q "(u, e)"] by simp

lemma mw_inv_handle: "mw_inv s \<Longrightarrow> mw_inv (mw_handle Q e s)"
  by (cases e) (auto simp: share_inv closeEvent_def, auto simp: mw_inv_def leave_inv back_inv inv_react cw_inv_handle)

interpretation mwm: event_machine "MainWindow_new ws factory injector recent cfg" "mw_handle Q" mw_inv
  by unfold_locales
    (use hwm.inv_init cwm.inv_init in \<open>simp add: mw_inv_def MainWindow_new_def\<close>, rule mw_inv_handle)

text \<open>In every run of the application the host's page offers to stop exactly while there is a host object and the
  player's page shows either its form or the video, whichever pages are visited and whatever the settings become;
  closing the window stops a session on the local network and disconnects a player who is connected.\<close>

theorem application_consistent:
  "let s = fold (mw_handle Q) es (MainWindow_new ws factory injector recent cfg); h = mw_host s; p = mw_client s; t = closeEvent u s
   in hw_stopEnabled h = (ho_host (hw_coordinator h) \<noteq> None) \<and> cw_formVisible p = (\<not> cw_videoVisible p) \<and>
      \<not> co_hosting (hw_coordinator (mw_host t)) \<and>
      (case cc_client (cw_coordinator (mw_client t)) of None \<Rightarrow> True | Some c \<Rightarrow> \<not> ca_connected c)"
proof -
  define s where "s = fold (mw_handle Q) es (MainWindow_new ws factory injector recent cfg)"
  have i: "mw_inv s" unfolding s_def by (rule mwm.inv_run)
  then have "hw_stopEnabled (mw_host s) = (ho_host (hw_coordinator (mw_host s)) \<noteq> None)" "cw_formVisible (mw_client s) = (\<not> cw_videoVisible (mw_client s))"
    unfolding mw_inv_def hw_inv_def buttons_ok_def buttons_def Let_def prod.inject cw_inv_def by blast+
  moreover have "\<not> co_hosting (hw_coordinator (stopIfHosting u h))" for h
    using on_coordinator_host [of u "ho_stop (ue_env u) (hw_coordinator h)" h]
    by (simp add: stopIfHosting_def stop_coordinator_def hosting_ui_keeps co_hosting_def)
  moreover have "case cc_client (cw_coordinator (disconnectIfActive p)) of None \<Rightarrow> True | Some c \<Rightarrow> \<not> ca_connected c" for p
    by (simp add: disconnectIfActive_def cw_leave_def setStreamingUi_def setVideoFullscreen_def cc_stop_def cc_emit_def Let_def split: option.split)
  ultimately show ?thesis unfolding s_def [symmetric] Let_def closeEvent_def by simp
qed

text \<open>The settings page cannot be left: its \<^verbatim>\<open>Back\<close> button emits a signal nothing is connected to, and no other
  event changes the page from there, so that after opening the settings only closing the application remains.\<close>

theorem settings_page_has_no_exit:
  assumes "mw_page s = SettingsPage"
  shows "mw_page (fold (mw_handle Q) es s) = SettingsPage"
proof -
  have "mw_page (mw_handle Q e t) = SettingsPage" if "mw_page t = SettingsPage" for e t
    using that by (cases e) (auto simp: share_config_def closeEvent_def)
  then show ?thesis using assms by (induction es arbitrary: s) simp_all
qed

theorem settings_page_has_no_exit_witness:
  "mw_page (fold (mw_handle qt_example) [MwSettingsBack, MwHostCard, MwJoinCard]
     (mw_handle qt_example MwSettingsButton (MainWindow_new [] None InputInjector_new [] Config_default))) = SettingsPage"
  by (rule settings_page_has_no_exit) (simp add: MainWindow_new_def)

end
