(* ===== verification/Platform.thy ===== *)
theory Platform
  imports RP_Types
begin

text \<open>
  \<^verbatim>\<open>common/Log.cpp\<close> and \<^verbatim>\<open>common/Paths.cpp\<close>: the log's sinks and levels, the removal of old files, the folders of the
  application and the addresses shown to players. Time stamps, thread tags and what the operating system answers
  are arguments.

  The theorems: a streamed line writes exactly what \<^verbatim>\<open>write\<close> would; which files are removed; which addresses are
  listed.
\<close>

section \<open>Log\<close>

datatype Level = Trace | Debug | Info | Warning | Error | Critical

primrec level_rank :: "Level \<Rightarrow> nat" where
  "level_rank Trace = 0"
| "level_rank Debug = 1"
| "level_rank Info = 2"
| "level_rank Warning = 3"
| "level_rank Error = 4"
| "level_rank Critical = 5"

lemma level_rank_inject [simp]: "level_rank a = level_rank b \<longleftrightarrow> a = b"
  by (cases a; cases b) simp_all

instantiation Level :: linorder
begin

definition less_eq_Level :: "Level \<Rightarrow> Level \<Rightarrow> bool" where
  "a \<le> b \<longleftrightarrow> level_rank a \<le> level_rank b"

definition less_Level :: "Level \<Rightarrow> Level \<Rightarrow> bool" where
  "a < b \<longleftrightarrow> level_rank a < level_rank b"

instance
  by intro_classes (auto simp: less_eq_Level_def less_Level_def)

end

primrec levelName :: "Level \<Rightarrow> string" where
  "levelName Trace = ''TRACE''"
| "levelName Debug = ''DEBUG''"
| "levelName Info = ''INFO''"
| "levelName Warning = ''WARNING''"
| "levelName Error = ''ERROR''"
| "levelName Critical = ''CRITICAL''"

text \<open>The lines written so far to the console's two streams and to each file, by its path.\<close>

record Sink =
  lg_filePath :: string
  lg_consoleMin :: Level
  lg_fileMin :: Level
  lg_initialized :: bool
  lg_stdout :: "string list"
  lg_stderr :: "string list"
  lg_files :: "string \<Rightarrow> string list"

definition Sink_new :: Sink where
  "Sink_new = \<lparr>lg_filePath = [], lg_consoleMin = Info, lg_fileMin = Debug, lg_initialized = False, lg_stdout = [], lg_stderr = [],
     lg_files = (\<lambda>_. [])\<rparr>"

text \<open>\<open>stamp\<close>: \<^verbatim>\<open>timestamp()\<close> and \<^verbatim>\<open>threadTag()\<close>.\<close>

definition format_line :: "Level \<Rightarrow> string \<times> string \<Rightarrow> string \<Rightarrow> string" where
  "format_line level stamp message = ''['' @ levelName level @ ''] ['' @ fst stamp @ ''] ['' @ snd stamp @ ''] '' @ message"

definition file_append :: "string \<Rightarrow> Sink \<Rightarrow> Sink" where
  "file_append line s = s\<lparr>lg_files := (lg_files s)(lg_filePath s := lg_files s (lg_filePath s) @ [line])\<rparr>"

definition console_print :: "Level \<Rightarrow> string \<Rightarrow> Sink \<Rightarrow> Sink" where
  "console_print level line s =
     (if level \<ge> Error then s\<lparr>lg_stderr := lg_stderr s @ [line]\<rparr> else s\<lparr>lg_stdout := lg_stdout s @ [line]\<rparr>)"

definition log_write :: "string \<times> string \<Rightarrow> Level \<Rightarrow> string \<Rightarrow> Sink \<Rightarrow> Sink" where
  "log_write stamp level message s =
     (let toConsole = (level \<ge> lg_consoleMin s); toFile = (lg_initialized s \<and> level \<ge> lg_fileMin s)
      in if \<not> toConsole \<and> \<not> toFile then s
         else
           let line = format_line level stamp message;
               s = (if toConsole then console_print level line s else s)
           in if toFile then file_append line s else s)"

definition setConsoleLevel :: "Level \<Rightarrow> Sink \<Rightarrow> Sink" where
  "setConsoleLevel m s = s\<lparr>lg_consoleMin := m\<rparr>"

definition setFileLevel :: "Level \<Rightarrow> Sink \<Rightarrow> Sink" where
  "setFileLevel m s = s\<lparr>lg_fileMin := m\<rparr>"

text \<open>The proxy that collects a line.\<close>

record Line =
  ln_level :: Level
  ln_active :: bool
  ln_stream :: string

definition Line_new :: "Level \<Rightarrow> Sink \<Rightarrow> Line" where
  "Line_new level s =
     \<lparr>ln_level = level, ln_active = (level \<ge> lg_consoleMin s \<or> lg_initialized s \<and> level \<ge> lg_fileMin s), ln_stream = []\<rparr>"

definition Line_put :: "string \<Rightarrow> Line \<Rightarrow> Line" where
  "Line_put x l = (if ln_active l then l\<lparr>ln_stream := ln_stream l @ x\<rparr> else l)"

text \<open>The move constructor: the new line and what is left of the old one.\<close>

definition Line_move :: "Line \<Rightarrow> Line \<times> Line" where
  "Line_move l = (\<lparr>ln_level = ln_level l, ln_active = ln_active l, ln_stream = []\<rparr>, l\<lparr>ln_active := False\<rparr>)"

definition Line_end :: "string \<times> string \<Rightarrow> Line \<Rightarrow> Sink \<Rightarrow> Sink" where
  "Line_end stamp l s = (if \<not> ln_active l then s else log_write stamp (ln_level l) (ln_stream l) s)"

text \<open>A directory entry: whether it is a regular file, its name, the time of its last change in hours or none, and
  whether it can be removed.\<close>

record log_entry =
  le_regular :: bool
  le_name :: string
  le_written :: "int option"
  le_removable :: bool

fun pruneOldLogs :: "int \<Rightarrow> int \<Rightarrow> log_entry list \<Rightarrow> log_entry list" where
  "pruneOldLogs now keepDays [] = []"
| "pruneOldLogs now keepDays (e # es) =
     (if \<not> le_regular e then e # pruneOldLogs now keepDays es
      else if take 11 (le_name e) \<noteq> ''remoteplay_'' then e # pruneOldLogs now keepDays es
      else case le_written e of
        None \<Rightarrow> e # pruneOldLogs now keepDays es
      | Some t \<Rightarrow>
          if t < now - 24 * keepDays
          then (if le_removable e then pruneOldLogs now keepDays es else e # es)
          else e # pruneOldLogs now keepDays es)"

text \<open>\<open>created\<close>: the message when the folder cannot be created; \<open>opened\<close>: whether the file can be opened. The entries
  of the folder are the second component.\<close>

definition log_init ::
  "string \<times> string \<Rightarrow> string option \<Rightarrow> bool \<Rightarrow> int \<Rightarrow> string \<Rightarrow> Sink \<times> log_entry list \<Rightarrow> Sink \<times> log_entry list" where
  "log_init stamp created opened now dir =
     (\<lambda>(s, entries).
        case created of
          Some why \<Rightarrow>
            (Line_end stamp (Line_put (''Log directory '' @ [CHR 0x27] @ dir @ [CHR 0x27] @ '' could not be created: '' @ why) (Line_new Warning s)) s, entries)
        | None \<Rightarrow>
            let entries = pruneOldLogs now 7 entries;
                path = dir @ [CHR 0x5C] @ ''remoteplay_'' @ take 10 (fst stamp) @ ''.log''
            in if \<not> opened
               then (Line_end stamp (Line_put (''Log file '' @ [CHR 0x27] @ path @ [CHR 0x27] @ '' could not be opened; console only.'') (Line_new Warning s)) s, entries)
               else (file_append (format_line Info stamp (''Log file opened: '' @ path)) (s\<lparr>lg_filePath := path, lg_initialized := True\<rparr>), entries))"

section \<open>Paths\<close>

text \<open>\<open>known\<close>: the folder of the shell, empty when there is none; \<open>env\<close>: the environment variable.\<close>

definition app_folder :: "string \<Rightarrow> string option \<Rightarrow> string" where
  "app_folder known env =
     (let base = (if known = [] then (case env of Some e \<Rightarrow> e | None \<Rightarrow> []) else known)
      in if base = [] then ''.'' else base @ [CHR 0x5C] @ ''RemotePlay'')"

definition configFilePath :: "string \<Rightarrow> string option \<Rightarrow> string" where
  "configFilePath known env = app_folder known env @ [CHR 0x5C] @ ''config.json''"

definition logDir :: "string \<Rightarrow> string option \<Rightarrow> string" where
  "logDir known env = app_folder known env @ [CHR 0x5C] @ ''Logs''"

definition userName :: "string option \<Rightarrow> string" where
  "userName env = (case env of Some e \<Rightarrow> e | None \<Rightarrow> [])"

datatype address = V4 u8 u8 u8 u8 | V6 string

fun dotted :: "address \<Rightarrow> string" where
  "dotted (V4 a b c d) = dec_digits (unat a) @ ''.'' @ dec_digits (unat b) @ ''.'' @ dec_digits (unat c) @ ''.'' @ dec_digits (unat d)"
| "dotted (V6 x) = x"

fun listable :: "address \<Rightarrow> bool" where
  "listable (V4 a b c d) \<longleftrightarrow> \<not> (a = 127) \<and> \<not> (a = 169 \<and> b = 254)"
| "listable (V6 x) \<longleftrightarrow> False"

definition add_address :: "address \<Rightarrow> string list \<Rightarrow> string list" where
  "add_address a acc = (if \<not> listable a then acc else if dotted a \<in> set acc then acc else acc @ [dotted a])"

text \<open>\<open>resolved\<close>: what the resolver gives for the host's own name, or \<open>None\<close> when the name or the addresses cannot be had.\<close>

definition localIPv4Addresses :: "address list option \<Rightarrow> string list" where
  "localIPv4Addresses resolved = (case resolved of None \<Rightarrow> [] | Some as \<Rightarrow> fold add_address as [])"

section \<open>Properties\<close>

text \<open>A streamed line of the log writes exactly what \<^verbatim>\<open>write\<close> would write of the whole text, whatever the levels are;
  a line that was moved loses the text collected before.\<close>

theorem streamed_line_is_write:
  "Line_end stamp (fold Line_put xs (Line_new level s)) s = log_write stamp level (concat xs) s \<and>
   Line_end stamp (fold Line_put ys (fst (Line_move (fold Line_put xs (Line_new level s))))) s = log_write stamp level (concat ys) s"
proof (intro conjI)
  have put: "fold Line_put zs l = (if ln_active l then l\<lparr>ln_stream := ln_stream l @ concat zs\<rparr> else l)" for zs l
    by (induction zs arbitrary: l) (simp_all add: Line_put_def)
  have inactive: "log_write stamp level m s = s" if "\<not> ln_active (Line_new level s)" for m
    using that by (simp add: log_write_def Line_new_def Let_def)
  show "Line_end stamp (fold Line_put xs (Line_new level s)) s = log_write stamp level (concat xs) s"
    using inactive unfolding put by (simp add: Line_end_def) (simp add: Line_new_def)
  show "Line_end stamp (fold Line_put ys (fst (Line_move (fold Line_put xs (Line_new level s))))) s = log_write stamp level (concat ys) s"
    using inactive unfolding put by (simp add: Line_end_def Line_move_def) (simp add: Line_new_def)
qed

text \<open>The addresses shown to players: every IPv4 address of the machine that is neither a loopback nor a link-local
  one, each once, and nothing else.\<close>

theorem addresses_listed:
  "distinct (localIPv4Addresses (Some as)) \<and> set (localIPv4Addresses (Some as)) = dotted ` {a \<in> set as. listable a}"
proof -
  have "distinct acc \<Longrightarrow> distinct (fold add_address as acc)" for acc
    by (induction as arbitrary: acc) (simp_all add: add_address_def)
  moreover have "set (fold add_address as acc) = set acc \<union> dotted ` {a \<in> set as. listable a}" for acc
    by (induction as arbitrary: acc) (auto simp: add_address_def)
  ultimately show ?thesis by (simp add: localIPv4Addresses_def)
qed

definition old_log :: "int \<Rightarrow> log_entry \<Rightarrow> bool" where
  "old_log now e \<longleftrightarrow> le_regular e \<and> take 11 (le_name e) = ''remoteplay_'' \<and> (case le_written e of None \<Rightarrow> False | Some t \<Rightarrow> t < now - 24 * 7)"

text \<open>Only old files of the log are removed, and they all are when each can be; but the first that cannot be
  removed keeps every entry after it.\<close>

theorem old_logs_removed:
  "pruneOldLogs now 7 es =
     (let before = takeWhile (\<lambda>e. \<not> old_log now e \<or> le_removable e) es
      in filter (\<lambda>e. \<not> old_log now e) before @ drop (length before) es)"
proof (induction es)
  case (Cons e es)
  then show ?case
    by (cases "le_written e") (auto simp: old_log_def Let_def)
qed simp

end
