(* ===== verification/Application.thy ===== *)
theory Application
  imports MainWindow Platform
begin

text \<open>
  \<^verbatim>\<open>app/main.cpp\<close>: the log, the configuration, the main window, the event loop and the exit. What the operating system
  answers is an argument; the icon and the theme are left out. Qt's event loop is the list of the events it delivers and
  the code it returns; the window is destroyed when \<^verbatim>\<open>main\<close> returns.

  The theorem: either the configuration file makes the parser throw what \<^verbatim>\<open>Config::load\<close> does not catch, and the program ends
  before its window is shown, or the settings are in their ranges at every moment, whatever the file holds and whatever is
  entered, and after the exit no session is hosted on the local network and no player is connected.
\<close>

record app_env =
  ae_stamp :: "string \<times> string"
  ae_dirError :: "string option"
  ae_logOpened :: bool
  ae_hours :: int
  ae_known :: string
  ae_appdata :: "string option"
  ae_logs :: "log_entry list"
  ae_windows :: "window list"
  ae_factory :: "adapters option"
  ae_injector :: InputInjector
  ae_recent :: "string list"

definition log_info :: "app_env \<Rightarrow> string list \<Rightarrow> Sink \<Rightarrow> Sink" where
  "log_info a xs s = Line_end (ae_stamp a) (fold Line_put xs (Line_new Info s)) s"

definition exit_code :: "int \<Rightarrow> string" where
  "exit_code c = (if c < 0 then ''-'' @ dec_digits (nat (- c)) else dec_digits (nat c))"

text \<open>Before the event loop: the log, the window and the configuration it works on; \<open>None\<close> when the exception of loading the
  configuration leaves \<^verbatim>\<open>main\<close>, which ends the process.\<close>

definition app_start :: "('j, 't) JsonLib \<Rightarrow> 't option option \<Rightarrow> app_env \<Rightarrow> (Sink \<times> MainWindow) option" where
  "app_start J file a =
     (let (lg, _) = log_init (ae_stamp a) (ae_dirError a) (ae_logOpened a) (ae_hours a) (logDir (ae_known a) (ae_appdata a)) (Sink_new, ae_logs a);
          lg = log_info a [''RemotePlay '', kAppVersion, '' starting''] lg
      in case config_load J file of
           None \<Rightarrow> None
         | Some cfg \<Rightarrow>
             let lg = log_info a [''Configuration loaded from '', configFilePath (ae_known a) (ae_appdata a)] lg
             in Some (lg, MainWindow_new (ae_windows a) (ae_factory a) (ae_injector a) (ae_recent a) cfg))"

text \<open>The destructors of the two pages.\<close>

definition app_destroy :: "ui_env \<Rightarrow> MainWindow \<Rightarrow> MainWindow" where
  "app_destroy u w = w\<lparr>mw_host := stopIfHosting u (mw_host w), mw_client := disconnectIfActive (mw_client w)\<rparr>"

definition app_main ::
  "Qt \<Rightarrow> ('j, 't) JsonLib \<Rightarrow> 't option option \<Rightarrow> app_env \<Rightarrow> ui_env \<Rightarrow> mw_event list \<Rightarrow> int \<Rightarrow> (int \<times> MainWindow \<times> Sink) option" where
  "app_main Q J file a u es code =
     (case app_start J file a of
        None \<Rightarrow> None
      | Some (lg, w) \<Rightarrow>
          let w = fold (mw_handle Q) es w;
              lg = log_info a [''RemotePlay exiting with code '', exit_code code] lg
          in Some (code, app_destroy u w, lg))"

section \<open>Settings and exit\<close>

definition in_range :: "MainWindow \<Rightarrow> bool" where
  "in_range s \<longleftrightarrow> config_ok (mw_config s) \<and> cw_listenPort (mw_client s) = nw_listenPort (cfg_network (mw_config s))"

lemma saved_ok: "config_ok (sw_save Q f c)"
  unfolding sw_save_def Let_def by (rule sanitize_ok) simp_all

lemma port_kept: "cw_listenPort (cw_handle Q e s) = cw_listenPort s"
proof -
  have f: "cw_listenPort (setVideoFullscreen b t) = cw_listenPort t" for b t by (simp add: setVideoFullscreen_def Let_def)
  have st: "cw_listenPort (setStreamingUi b t) = cw_listenPort t" for b t by (simp add: setStreamingUi_def Let_def f)
  show ?thesis
    by (cases e) (simp_all add: f st cw_join_def cw_leave_def disconnectIfActive_def cw_onDisconnected_def cw_showError_def toggleFullscreen_def
        cw_escape_def cw_onStateChanged_def updateQualityBanner_def cw_onConnectedToHost_def rememberHost_def loadRecentHosts_def Let_def
        case_prod_beta split: option.split)
qed

lemma range_handle: "in_range s \<Longrightarrow> in_range (mw_handle Q e s)"
  using port_kept [of Q CwDisconnectIfActive "mw_client s"]
  by (cases e) (simp_all add: in_range_def closeEvent_def share_config_def saved_ok port_kept)

lemma range_new: "config_ok cfg \<Longrightarrow> in_range (MainWindow_new ws factory injector recent cfg)"
  by (simp add: in_range_def MainWindow_new_def ClientWindow_new_def)

interpretation app: event_machine "MainWindow_new ws factory injector recent Config_default" "mw_handle Q" in_range
  by unfold_locales (rule range_new [OF default_ok], rule range_handle)

lemma started_range: "app_start J file a = Some (lg, w) \<Longrightarrow> in_range w"
  by (auto simp: app_start_def Let_def case_prod_beta split: option.splits intro: range_new config_load_ok)

text \<open>The parser throws another exception than a \<^verbatim>\<open>parse_error\<close> on the file's text.\<close>

definition load_throws :: "('j, 't) JsonLib \<Rightarrow> 't option option \<Rightarrow> bool" where
  "load_throws J file \<longleftrightarrow>
     (case file of Some (Some text) \<Rightarrow> jl_parse J text = None \<and> \<not> jl_parse_error J text | _ \<Rightarrow> False)"

lemma started_fails: "app_start J file a = None \<longleftrightarrow> load_throws J file"
  using config_load_throws [of J "file"]
  by (auto simp: load_throws_def app_start_def Let_def case_prod_beta split: option.splits)

text \<open>C36: The program either ends before its window is shown, exactly when the configuration file makes the JSON parser
  throw something else than a \<^verbatim>\<open>parse_error\<close> (such as a number out of range), or it runs and returns the event loop's exit code.
  In the second case, whatever the file holds, whether or not it can be read, and whatever is entered on the settings page,
  the settings of the application are within their ranges after any events and the port players connect to is the configured
  one, between 1 and 65535; and after the exit no session is hosted on the local network and no player is left connected.\<close>

theorem application_settings_in_range:
  "case app_main Q J file a u es code of
     None \<Rightarrow> load_throws J file
   | Some (rc, w, lg) \<Rightarrow>
       \<not> load_throws J file \<and> rc = code \<and> config_ok (mw_config w) \<and> cw_listenPort (mw_client w) = nw_listenPort (cfg_network (mw_config w)) \<and>
       cw_listenPort (mw_client w) \<in> {1..65535} \<and> \<not> co_hosting (hw_coordinator (mw_host w)) \<and>
       (case cc_client (cw_coordinator (mw_client w)) of None \<Rightarrow> True | Some c \<Rightarrow> \<not> ca_connected c)"
proof (cases "app_start J file a")
  case None
  then show ?thesis using started_fails [of J "file" a] by (simp add: app_main_def)
next
  case (Some x)
  then obtain lg w where w: "app_start J file a = Some (lg, w)" by (cases x) simp
  define s where "s = fold (mw_handle Q) es w"
  have r: "in_range s" unfolding s_def by (rule app.inv_fold [OF started_range [OF w]])
  have "in_range (app_destroy u s)"
    using r port_kept [of Q CwDisconnectIfActive "mw_client s"] by (simp add: in_range_def app_destroy_def)
  moreover have "\<not> co_hosting (hw_coordinator (mw_host (app_destroy u s)))"
    using on_coordinator_host [of u "ho_stop (ue_env u) (hw_coordinator (mw_host s))" "mw_host s"]
    by (simp add: app_destroy_def stopIfHosting_def stop_coordinator_def hosting_ui_keeps co_hosting_def)
  moreover have "case cc_client (cw_coordinator (mw_client (app_destroy u s))) of None \<Rightarrow> True | Some c \<Rightarrow> \<not> ca_connected c"
    by (simp add: app_destroy_def disconnectIfActive_def cw_leave_def setStreamingUi_def setVideoFullscreen_def cc_stop_def cc_emit_def Let_def split: option.split)
  moreover have "\<not> load_throws J file" using started_fails [of J "file" a] w by simp
  ultimately show ?thesis by (simp add: app_main_def w Let_def s_def [symmetric] in_range_def config_ok_def)
qed

end
