(* ===== verification/SignalingClient.thy ===== *)
theory SignalingClient
  imports Config
begin

text \<open>
  \<^verbatim>\<open>signaling/SignalingClient.h\<close> and \<^verbatim>\<open>signaling/SignalingClient.cpp\<close>: the client of the session server: requests
  answered by lines of JSON, notifications in between, read by a reader thread. The JSON library is the
  parameter of \<open>Config\<close> with \<^verbatim>\<open>get<int>\<close> added (\<open>ja_getInt\<close>, which also converts other numbers); \<^verbatim>\<open>value\<close> throws when
  the receiver is not an object or the member has another type, which is the outcome \<open>None\<close>. An exception
  that leaves the reader thread, and a joinable thread that is destroyed or overwritten, end the process:
  \<open>sg_terminated\<close>.

  A request waits for the line the reader stashes; the waiting thread is taken to run whenever it is
  notified, so the lines that arrive during a request are an argument of it.

  The theorems: a registration and a join return the members of the server's answer; a line that is not an
  object or whose type is no string ends the process, and no other line of a well-formed conversation
  does; once the server closed the connection or the session, taking the client down ends the process; an
  answer that came too late is taken as the answer of the next request.
\<close>

section \<open>Data\<close>

record HostRegisterResult =
  hr_sessionId :: int
  hr_code :: string
  hr_maxPlayers :: int
  hr_hostToken :: string
  hr_relayTcpPort :: int
  hr_relayUdpPort :: int

record JoinResult =
  jn_sessionId :: int
  jn_playerIndex :: int
  jn_hostName :: string
  jn_token :: string
  jn_relayTcpPort :: int
  jn_relayUdpPort :: int
  jn_hostPublicAddr :: string
  jn_hostPublicPort :: int

record ClientJoined =
  cj_playerIndex :: int
  cj_name :: string
  cj_token :: string
  cj_clientPublicAddr :: string
  cj_clientPublicPort :: int

datatype sg_output = SgWrite string | SgJoined ClientJoined | SgLeft int | SgLog string

record SignalingClient =
  sg_socket :: bool
  sg_thread :: bool
  sg_loop :: bool
  sg_running :: bool
  sg_pendingLine :: string
  sg_onClientJoined :: bool
  sg_onClientLeft :: bool
  sg_onLog :: bool
  sg_terminated :: bool
  sg_out :: "sg_output list"

text \<open>\<open>sg_thread\<close>: the reader thread is joinable; \<open>sg_loop\<close>: its loop has not ended.\<close>

definition SignalingClient_new :: SignalingClient where
  "SignalingClient_new = \<lparr>sg_socket = False, sg_thread = False, sg_loop = False, sg_running = False, sg_pendingLine = [],
     sg_onClientJoined = False, sg_onClientLeft = False, sg_onLog = False, sg_terminated = False, sg_out = []\<rparr>"

definition sg_emit :: "sg_output \<Rightarrow> SignalingClient \<Rightarrow> SignalingClient" where
  "sg_emit x s = s\<lparr>sg_out := sg_out s @ [x]\<rparr>"

section \<open>Members of a message\<close>

record ('j, 't) JsonApi = "('j, 't) JsonLib" +
  ja_getInt :: "'j \<Rightarrow> int option"

definition string_value :: "('j, 't) JsonApi \<Rightarrow> 'j \<Rightarrow> string \<Rightarrow> string \<Rightarrow> string option" where
  "string_value J j key def =
     (if \<not> jl_is_object J j then None else case jl_find J j key of None \<Rightarrow> Some def | Some v \<Rightarrow> jl_string J v)"

definition int_value :: "('j, 't) JsonApi \<Rightarrow> 'j \<Rightarrow> string \<Rightarrow> int \<Rightarrow> int option" where
  "int_value J j key def =
     (if \<not> jl_is_object J j then None else case jl_find J j key of None \<Rightarrow> Some def | Some v \<Rightarrow> ja_getInt J v)"

text \<open>\<^verbatim>\<open>if (j.contains(key)) { addr = j[key].value("addr", ""); port = j[key].value("port", 0); }\<close>\<close>

definition endpoint_value :: "('j, 't) JsonApi \<Rightarrow> 'j \<Rightarrow> string \<Rightarrow> (string \<times> int) option" where
  "endpoint_value J j key =
     (case (if jl_is_object J j then jl_find J j key else None) of
        None \<Rightarrow> Some ([], 0)
      | Some v \<Rightarrow> Option.bind (string_value J v ''addr'' []) (\<lambda>a. map_option (Pair a) (int_value J v ''port'' 0)))"

section \<open>The connection\<close>

definition sg_disconnect :: "SignalingClient \<Rightarrow> SignalingClient" where
  "sg_disconnect s =
     (if \<not> sg_running s then s
      else s\<lparr>sg_running := False, sg_thread := False, sg_loop := False, sg_socket := False\<rparr>)"

text \<open>\<open>ok\<close>: whether resolving and connecting succeeded in time.\<close>

definition sg_connect :: "bool \<Rightarrow> SignalingClient \<Rightarrow> SignalingClient \<times> bool" where
  "sg_connect ok s =
     (let s = sg_disconnect s
      in if \<not> ok then (s\<lparr>sg_socket := False\<rparr>, False)
         else if sg_thread s then (s\<lparr>sg_terminated := True\<rparr>, False)
         else (s\<lparr>sg_socket := True, sg_running := True, sg_thread := True, sg_loop := True\<rparr>, True))"

definition sg_destroy :: "SignalingClient \<Rightarrow> SignalingClient" where
  "sg_destroy s = (let s = sg_disconnect s in if sg_thread s then s\<lparr>sg_terminated := True\<rparr> else s)"

text \<open>\<open>sent\<close>: whether the socket took the line.\<close>

definition sg_writeLine :: "bool \<Rightarrow> string \<Rightarrow> SignalingClient \<Rightarrow> SignalingClient \<times> bool" where
  "sg_writeLine sent line s =
     (if \<not> sg_socket s \<or> \<not> sg_running s then (s, False)
      else if sent then (sg_emit (SgWrite (line @ [CHR 0x0A])) s, True) else (s, False))"

section \<open>The reader\<close>

definition sg_client_joined :: "('j, string) JsonApi \<Rightarrow> 'j \<Rightarrow> ClientJoined option" where
  "sg_client_joined J j =
     Option.bind (int_value J j ''player_index'' (- 1)) (\<lambda>i.
     Option.bind (string_value J j ''name'' []) (\<lambda>n.
     Option.bind (string_value J j ''token'' []) (\<lambda>t.
     map_option (\<lambda>(a, p). \<lparr>cj_playerIndex = i, cj_name = n, cj_token = t, cj_clientPublicAddr = a, cj_clientPublicPort = p\<rparr>)
       (endpoint_value J j ''client_public''))))"

definition responses :: "string list" where
  "responses = [''host_registered'', ''joined'', ''join_rejected'', ''error'', ''keepalive_ok'']"

text \<open>\<open>None\<close>: an exception leaves the function.\<close>

definition handleNotification :: "('j, string) JsonApi \<Rightarrow> string \<Rightarrow> SignalingClient \<Rightarrow> SignalingClient option" where
  "handleNotification J line s =
     (case jl_parse J line of
        None \<Rightarrow> Some s
      | Some j \<Rightarrow>
          Option.bind (string_value J j ''type'' []) (\<lambda>ty.
            if ty = ''client_joined'' then
              (if sg_onClientJoined s then map_option (\<lambda>cj. sg_emit (SgJoined cj) s) (sg_client_joined J j) else Some s)
            else if ty = ''client_left'' then
              (if sg_onClientLeft s then map_option (\<lambda>i. sg_emit (SgLeft i) s) (int_value J j ''player_index'' (- 1)) else Some s)
            else if ty = ''session_closed'' then
              Some ((if sg_onLog s then sg_emit (SgLog ''Session closed by host'') s else s)\<lparr>sg_running := False\<rparr>)
            else if ty \<in> set responses then Some s
            else Some (if sg_onLog s then sg_emit (SgLog (''signaling: '' @ ty)) s else s)))"

text \<open>One pass of the reader loop: the next line, or \<open>None\<close> when reading fails.\<close>

definition reader_pass :: "('j, string) JsonApi \<Rightarrow> string option \<Rightarrow> SignalingClient \<Rightarrow> SignalingClient" where
  "reader_pass J input s =
     (if sg_terminated s \<or> \<not> sg_loop s then s
      else if \<not> sg_running s then s\<lparr>sg_loop := False\<rparr>
      else case input of
        None \<Rightarrow> s\<lparr>sg_running := False, sg_loop := False\<rparr>
      | Some line \<Rightarrow>
          if line = [] then s
          else (case (case jl_parse J line of None \<Rightarrow> Some [] | Some j \<Rightarrow> string_value J j ''type'' []) of
             None \<Rightarrow> s\<lparr>sg_terminated := True\<rparr>
           | Some ty \<Rightarrow>
               if ty \<in> set responses then s\<lparr>sg_pendingLine := line\<rparr>
               else case handleNotification J line s of None \<Rightarrow> s\<lparr>sg_terminated := True\<rparr> | Some s \<Rightarrow> s))"

section \<open>Requests\<close>

text \<open>The lines that arrive before the deadline; no line left is the timeout.\<close>

fun sg_readLine :: "('j, string) JsonApi \<Rightarrow> string option list \<Rightarrow> SignalingClient \<Rightarrow> SignalingClient \<times> string option" where
  "sg_readLine J ls s =
     (if sg_pendingLine s \<noteq> [] then (s\<lparr>sg_pendingLine := []\<rparr>, Some (sg_pendingLine s))
      else case ls of
        [] \<Rightarrow> (s, None)
      | l # ls \<Rightarrow>
          let s = reader_pass J l s
          in if sg_terminated s \<or> \<not> sg_running s then (s, None) else sg_readLine J ls s)"

declare sg_readLine.simps [simp del]

datatype 'r sg_reply = Reply 'r | NoReply | Threw

definition register_result :: "('j, string) JsonApi \<Rightarrow> string \<Rightarrow> HostRegisterResult option" where
  "register_result J line =
     Option.bind (jl_parse J line) (\<lambda>j.
     Option.bind (string_value J j ''type'' []) (\<lambda>ty.
     if ty \<noteq> ''host_registered'' then None
     else
       Option.bind (int_value J j ''session_id'' 0) (\<lambda>sid.
       Option.bind (string_value J j ''code'' []) (\<lambda>code.
       Option.bind (int_value J j ''max_players'' 4) (\<lambda>n.
       Option.bind (string_value J j ''host_token'' []) (\<lambda>token.
       Option.bind (int_value J j ''relay_tcp_port'' 0) (\<lambda>tcp.
       map_option (\<lambda>udp. \<lparr>hr_sessionId = sid, hr_code = code, hr_maxPlayers = n, hr_hostToken = token,
           hr_relayTcpPort = tcp, hr_relayUdpPort = udp\<rparr>) (int_value J j ''relay_udp_port'' 0))))))))"

definition join_result :: "('j, string) JsonApi \<Rightarrow> string \<Rightarrow> JoinResult option" where
  "join_result J line =
     Option.bind (jl_parse J line) (\<lambda>j.
     Option.bind (string_value J j ''type'' []) (\<lambda>ty.
     if ty \<noteq> ''joined'' then None
     else
       Option.bind (int_value J j ''session_id'' 0) (\<lambda>sid.
       Option.bind (int_value J j ''player_index'' 0) (\<lambda>i.
       Option.bind (string_value J j ''host_name'' []) (\<lambda>name.
       Option.bind (string_value J j ''token'' []) (\<lambda>token.
       Option.bind (int_value J j ''relay_tcp_port'' 0) (\<lambda>tcp.
       Option.bind (int_value J j ''relay_udp_port'' 0) (\<lambda>udp.
       map_option (\<lambda>(a, p). \<lparr>jn_sessionId = sid, jn_playerIndex = i, jn_hostName = name, jn_token = token,
           jn_relayTcpPort = tcp, jn_relayUdpPort = udp, jn_hostPublicAddr = a, jn_hostPublicPort = p\<rparr>)
         (endpoint_value J j ''host_public'')))))))))"

definition sg_request ::
  "('j, string) JsonApi \<Rightarrow> 'j \<Rightarrow> (string \<Rightarrow> 'r option) \<Rightarrow> bool \<Rightarrow> string option list \<Rightarrow> SignalingClient \<Rightarrow> SignalingClient \<times> 'r sg_reply" where
  "sg_request J req result sent ls s =
     (case jl_dump J req of
        None \<Rightarrow> (s, Threw)
      | Some text \<Rightarrow>
          (case sg_writeLine sent text s of
             (s, False) \<Rightarrow> (s, NoReply)
           | (s, True) \<Rightarrow>
               (case sg_readLine J ls s of
                  (s, None) \<Rightarrow> (s, NoReply)
                | (s, Some line) \<Rightarrow> (s, case result line of None \<Rightarrow> NoReply | Some r \<Rightarrow> Reply r))))"

definition hostRegister ::
  "('j, string) JsonApi \<Rightarrow> string \<Rightarrow> bool \<Rightarrow> string option list \<Rightarrow> SignalingClient \<Rightarrow> SignalingClient \<times> HostRegisterResult sg_reply" where
  "hostRegister J hostName =
     sg_request J (jl_object J [(''type'', jl_of_string J ''host_register''), (''name'', jl_of_string J hostName)]) (register_result J)"

definition sg_join ::
  "('j, string) JsonApi \<Rightarrow> string \<Rightarrow> string \<Rightarrow> bool \<Rightarrow> string option list \<Rightarrow> SignalingClient \<Rightarrow> SignalingClient \<times> JoinResult sg_reply" where
  "sg_join J code playerName =
     sg_request J (jl_object J [(''type'', jl_of_string J ''join''), (''code'', jl_of_string J code),
       (''name'', jl_of_string J playerName)]) (join_result J)"

section \<open>Laws of the library\<close>

definition api_laws :: "('j, 't) JsonApi \<Rightarrow> bool" where
  "api_laws J \<longleftrightarrow> json_laws (JsonLib.truncate J) \<and>
     (\<forall>n. - (2 ^ 31) \<le> n \<and> n < 2 ^ 31 \<longrightarrow> ja_getInt J (jl_of_int J n) = Some n)"

lemma truncate_simps [simp]:
  "jl_is_object (JsonLib.truncate J) = jl_is_object J" "jl_find (JsonLib.truncate J) = jl_find J"
  "jl_string (JsonLib.truncate J) = jl_string J" "jl_of_string (JsonLib.truncate J) = jl_of_string J"
  "jl_object (JsonLib.truncate J) = jl_object J" "jl_parse (JsonLib.truncate J) = jl_parse J"
  "jl_dump (JsonLib.truncate J) = jl_dump J"
  by (simp_all add: JsonLib.truncate_def)

lemma api_facts:
  assumes "api_laws J"
  shows "jl_is_object J (jl_object J kvs)" "jl_find J (jl_object J kvs) k = map_of kvs k"
    "jl_string J (jl_of_string J x) = Some x" "jl_dump J j = Some text \<Longrightarrow> jl_parse J text = Some j"
    "- (2 ^ 31) \<le> n \<Longrightarrow> n < 2 ^ 31 \<Longrightarrow> ja_getInt J (jl_of_int J n) = Some n"
  using assms by (simp_all add: api_laws_def json_laws_def)

lemma written_values:
  assumes "api_laws J"
  shows "string_value J (jl_object J kvs) k def = (case map_of kvs k of None \<Rightarrow> Some def | Some v \<Rightarrow> jl_string J v)"
    and "int_value J (jl_object J kvs) k n = (case map_of kvs k of None \<Rightarrow> Some n | Some v \<Rightarrow> ja_getInt J v)"
    and "endpoint_value J (jl_object J kvs) k = (case map_of kvs k of None \<Rightarrow> Some ([], 0)
      | Some v \<Rightarrow> Option.bind (string_value J v ''addr'' []) (\<lambda>a. map_option (Pair a) (int_value J v ''port'' 0)))"
  using assms by (simp_all add: string_value_def int_value_def endpoint_value_def api_facts)

section \<open>Answers\<close>

text \<open>A connected client, and the messages of \<^verbatim>\<open>server/signaling-server/server.py\<close>.\<close>

definition connected :: "SignalingClient \<Rightarrow> bool" where
  "connected s \<longleftrightarrow> sg_socket s \<and> sg_running s \<and> sg_loop s \<and> sg_thread s \<and> \<not> sg_terminated s"

definition registered_answer :: "('j, 't) JsonApi \<Rightarrow> HostRegisterResult \<Rightarrow> 'j" where
  "registered_answer J r = jl_object J [(''type'', jl_of_string J ''host_registered''), (''session_id'', jl_of_int J (hr_sessionId r)),
     (''code'', jl_of_string J (hr_code r)), (''max_players'', jl_of_int J (hr_maxPlayers r)), (''host_token'', jl_of_string J (hr_hostToken r)),
     (''relay_tcp_port'', jl_of_int J (hr_relayTcpPort r)), (''relay_udp_port'', jl_of_int J (hr_relayUdpPort r))]"

definition joined_answer :: "('j, 't) JsonApi \<Rightarrow> JoinResult \<Rightarrow> 'j" where
  "joined_answer J r = jl_object J [(''type'', jl_of_string J ''joined''), (''session_id'', jl_of_int J (jn_sessionId r)),
     (''player_index'', jl_of_int J (jn_playerIndex r)), (''host_name'', jl_of_string J (jn_hostName r)), (''token'', jl_of_string J (jn_token r)),
     (''relay_tcp_port'', jl_of_int J (jn_relayTcpPort r)), (''relay_udp_port'', jl_of_int J (jn_relayUdpPort r)),
     (''host_public'', jl_object J [(''addr'', jl_of_string J (jn_hostPublicAddr r)), (''port'', jl_of_int J (jn_hostPublicPort r))])]"

abbreviation fits_int :: "int \<Rightarrow> bool" where "fits_int n \<equiv> - (2 ^ 31) \<le> n \<and> n < 2 ^ 31"

lemma register_result_answer:
  assumes "api_laws J" and "jl_dump J (registered_answer J r) = Some line"
    and "fits_int (hr_sessionId r)" "fits_int (hr_maxPlayers r)" "fits_int (hr_relayTcpPort r)" "fits_int (hr_relayUdpPort r)"
  shows "register_result J line = Some r"
proof -
  have "jl_parse J line = Some (registered_answer J r)" using assms(1,2) by (simp add: api_facts)
  then show ?thesis using assms(3-)
    by (simp add: register_result_def registered_answer_def written_values [OF assms(1)] api_facts [OF assms(1)])
qed

lemma join_result_answer:
  assumes "api_laws J" and "jl_dump J (joined_answer J r) = Some line"
    and "fits_int (jn_sessionId r)" "fits_int (jn_playerIndex r)" "fits_int (jn_relayTcpPort r)" "fits_int (jn_relayUdpPort r)"
      "fits_int (jn_hostPublicPort r)"
  shows "join_result J line = Some r"
proof -
  have "jl_parse J line = Some (joined_answer J r)" using assms(1,2) by (simp add: api_facts)
  then show ?thesis using assms(3-)
    by (simp add: join_result_def joined_answer_def written_values [OF assms(1)] api_facts [OF assms(1)])
qed

text \<open>A line the reader can handle: the end of the input, an empty or unparsable line, or an object with a
  string as its type and the members its kind needs.\<close>

definition well_typed :: "('j, string) JsonApi \<Rightarrow> string option \<Rightarrow> bool" where
  "well_typed J l = (case l of
     None \<Rightarrow> True
   | Some line \<Rightarrow> line = [] \<or>
       (case jl_parse J line of
          None \<Rightarrow> True
        | Some j \<Rightarrow>
            (case string_value J j ''type'' [] of
               None \<Rightarrow> False
             | Some ty \<Rightarrow> (ty = ''client_joined'' \<longrightarrow> sg_client_joined J j \<noteq> None) \<and>
                 (ty = ''client_left'' \<longrightarrow> int_value J j ''player_index'' (- 1) \<noteq> None))))"

definition line_type :: "('j, string) JsonApi \<Rightarrow> string \<Rightarrow> string option" where
  "line_type J line = (case jl_parse J line of None \<Rightarrow> Some [] | Some j \<Rightarrow> string_value J j ''type'' [])"

text \<open>A line that may come before an answer: an empty or unparsable one, or any well-typed message other than an
  answer and the end of the session; in particular every notification that a player joined or left.\<close>

definition interlude :: "('j, string) JsonApi \<Rightarrow> string option \<Rightarrow> bool" where
  "interlude J l = (case l of
     None \<Rightarrow> False
   | Some line \<Rightarrow> line = [] \<or> well_typed J l \<and>
       (case line_type J line of None \<Rightarrow> False | Some ty \<Rightarrow> ty \<notin> set responses \<and> ty \<noteq> ''session_closed''))"

definition same_link :: "SignalingClient \<Rightarrow> SignalingClient \<Rightarrow> bool" where
  "same_link s t \<longleftrightarrow> connected t = connected s \<and> sg_pendingLine t = sg_pendingLine s"

lemma interlude_pass:
  assumes "connected s" "interlude J l"
  shows "same_link s (reader_pass J l s)"
proof (cases "l = Some []")
  case True
  then show ?thesis using assms(1) by (simp add: reader_pass_def same_link_def connected_def)
next
  case False
  then obtain line ty where l: "l = Some line" "line \<noteq> []" "well_typed J (Some line)" "line_type J line = Some ty"
    "ty \<notin> set responses" "ty \<noteq> ''session_closed''"
    using assms(2) by (auto simp: interlude_def split: option.splits)
  have "\<exists>t. handleNotification J line s = Some t \<and> same_link s t"
    using l by (auto simp: handleNotification_def line_type_def well_typed_def same_link_def connected_def sg_emit_def split: option.splits)
  then obtain t where "handleNotification J line s = Some t" "same_link s t" by blast
  then show ?thesis using assms(1) l by (simp add: reader_pass_def connected_def line_type_def [symmetric])
qed

lemma readLine_answer:
  assumes "connected s" "sg_pendingLine s = []" "list_all (interlude J) earlier" "line \<noteq> []"
    and "jl_parse J line = Some j" "string_value J j ''type'' [] = Some ty" "ty \<in> set responses"
  shows "\<exists>t. sg_readLine J (earlier @ Some line # rest) s = (t, Some line) \<and> connected t \<and> sg_pendingLine t = []"
  using assms(1-3)
proof (induction earlier arbitrary: s)
  case Nil
  have p: "reader_pass J (Some line) s = s\<lparr>sg_pendingLine := line\<rparr>"
    using Nil assms(4-) by (cases line) (simp_all add: reader_pass_def connected_def)
  then have "sg_readLine J (Some line # rest) s = sg_readLine J rest (s\<lparr>sg_pendingLine := line\<rparr>)"
    using Nil by (subst sg_readLine.simps) (simp add: Let_def connected_def)
  then show ?case using Nil assms(4) by (simp add: sg_readLine.simps [of J rest] connected_def)
next
  case (Cons l earlier)
  have q: "connected (reader_pass J l s)" "sg_pendingLine (reader_pass J l s) = []"
    using interlude_pass [of s J l] Cons.prems by (auto simp: same_link_def)
  then have "sg_readLine J ((l # earlier) @ Some line # rest) s = sg_readLine J (earlier @ Some line # rest) (reader_pass J l s)"
    using Cons.prems by (subst sg_readLine.simps) (simp add: Let_def connected_def)
  then show ?case using Cons.IH [OF q] Cons.prems by simp
qed

lemma request_answer:
  assumes "connected s" "sg_pendingLine s = []" "list_all (interlude J) earlier" "line \<noteq> []" "jl_dump J req = Some text"
    and "jl_parse J line = Some j" "string_value J j ''type'' [] = Some ty" "ty \<in> set responses" "result line = Some r"
  shows "\<exists>t. sg_request J req result True (earlier @ Some line # rest) s = (t, Reply r) \<and> connected t \<and> sg_pendingLine t = []"
proof -
  let ?s = "sg_emit (SgWrite (text @ [CHR 0x0A])) s"
  have "sg_writeLine True text s = (?s, True)" using assms(1) by (simp add: sg_writeLine_def connected_def)
  moreover have "connected ?s" "sg_pendingLine ?s = []" using assms(1,2) by (simp_all add: sg_emit_def connected_def)
  ultimately show ?thesis
    using readLine_answer [of ?s J earlier line j ty rest] assms by (fastforce simp: sg_request_def)
qed

text \<open>C34: Registering with the session server returns what the server answered. Before the answer may come any
  lines that are empty or unparsable, and any well-typed messages that are neither answers nor the end of the
  session: notifications that players joined or left and messages of unknown types. The server's answer, with
  integers that fit 32 bits, is read back member by member, no line is left over, and the client stays
  connected.\<close>

theorem registration_returns_answer:
  assumes "api_laws J" "connected s" "sg_pendingLine s = []" "list_all (interlude J) earlier" "line \<noteq> []"
    and "jl_dump J (jl_object J [(''type'', jl_of_string J ''host_register''), (''name'', jl_of_string J hostName)]) = Some text"
    and "jl_dump J (registered_answer J r) = Some line"
    and "fits_int (hr_sessionId r)" "fits_int (hr_maxPlayers r)" "fits_int (hr_relayTcpPort r)" "fits_int (hr_relayUdpPort r)"
  shows "\<exists>t. hostRegister J hostName True (earlier @ Some line # rest) s = (t, Reply r) \<and> connected t \<and> sg_pendingLine t = []"
  unfolding hostRegister_def
proof (rule request_answer [OF assms(2-6)])
  show "jl_parse J line = Some (registered_answer J r)" using assms(1,7) by (simp add: api_facts)
  show "string_value J (registered_answer J r) ''type'' [] = Some ''host_registered''"
    using assms(1) by (simp add: registered_answer_def written_values api_facts)
  show "register_result J line = Some r" by (rule register_result_answer [OF assms(1,7-)])
qed (simp add: responses_def)

text \<open>Joining a session likewise returns the server's answer, the host's public address included.\<close>

theorem join_returns_answer:
  assumes "api_laws J" "connected s" "sg_pendingLine s = []" "list_all (interlude J) earlier" "line \<noteq> []"
    and "jl_dump J (jl_object J [(''type'', jl_of_string J ''join''), (''code'', jl_of_string J code), (''name'', jl_of_string J playerName)]) = Some text"
    and "jl_dump J (joined_answer J r) = Some line"
    and "fits_int (jn_sessionId r)" "fits_int (jn_playerIndex r)" "fits_int (jn_relayTcpPort r)" "fits_int (jn_relayUdpPort r)"
      "fits_int (jn_hostPublicPort r)"
  shows "\<exists>t. sg_join J code playerName True (earlier @ Some line # rest) s = (t, Reply r) \<and> connected t \<and> sg_pendingLine t = []"
  unfolding sg_join_def
proof (rule request_answer [OF assms(2-6)])
  show "jl_parse J line = Some (joined_answer J r)" using assms(1,7) by (simp add: api_facts)
  show "string_value J (joined_answer J r) ''type'' [] = Some ''joined''"
    using assms(1) by (simp add: joined_answer_def written_values api_facts)
  show "join_result J line = Some r" by (rule join_result_answer [OF assms(1,7-)])
qed (simp add: responses_def)

section \<open>What ends the process\<close>

lemma sg_emit_flags [simp]:
  "sg_terminated (sg_emit x s) = sg_terminated s" "sg_onClientJoined (sg_emit x s) = sg_onClientJoined s"
  "sg_onClientLeft (sg_emit x s) = sg_onClientLeft s"
  by (simp_all add: sg_emit_def)

lemma well_typed_line:
  assumes "\<not> sg_terminated s" "line \<noteq> []" "well_typed J (Some line)"
  shows "\<exists>ty. line_type J line = Some ty" and "\<exists>t. handleNotification J line s = Some t \<and> \<not> sg_terminated t"
  using assms by (auto simp: well_typed_def line_type_def handleNotification_def split: option.splits)

lemma ill_typed_line:
  assumes "\<not> well_typed J l"
  obtains line where "l = Some line" "line \<noteq> []"
    "line_type J line = None \<or> (\<exists>ty. line_type J line = Some ty \<and> ty \<in> {''client_joined'', ''client_left''} \<and>
       (\<forall>s. sg_onClientJoined s \<longrightarrow> sg_onClientLeft s \<longrightarrow> handleNotification J line s = None))"
  using assms by (auto simp: well_typed_def line_type_def handleNotification_def split: option.splits)

lemma well_typed_pass:
  assumes "\<not> sg_terminated s"
  shows "well_typed J l \<Longrightarrow> \<not> sg_terminated (reader_pass J l s)"
    and "connected s \<Longrightarrow> sg_onClientJoined s \<Longrightarrow> sg_onClientLeft s \<Longrightarrow> \<not> well_typed J l \<Longrightarrow> sg_terminated (reader_pass J l s)"
proof -
  show "\<not> sg_terminated (reader_pass J l s)" if w: "well_typed J l"
  proof (cases "\<exists>line. l = Some line \<and> line \<noteq> []")
    case True
    then obtain line where l: "l = Some line" "line \<noteq> []" by blast
    obtain ty t where "line_type J line = Some ty" "handleNotification J line s = Some t" "\<not> sg_terminated t"
      using well_typed_line [OF assms l(2)] w l(1) by blast
    then show ?thesis using assms l by (simp add: reader_pass_def line_type_def [symmetric])
  next
    case False
    then show ?thesis using assms by (cases l) (auto simp: reader_pass_def)
  qed
  assume c: "connected s" "sg_onClientJoined s" "sg_onClientLeft s" and w: "\<not> well_typed J l"
  from ill_typed_line [OF w] obtain line where l: "l = Some line" "line \<noteq> []"
    "line_type J line = None \<or> (\<exists>ty. line_type J line = Some ty \<and> ty \<in> {''client_joined'', ''client_left''} \<and> handleNotification J line s = None)"
    using c(2,3) by metis
  then show "sg_terminated (reader_pass J l s)"
    using c(1) by (auto simp: reader_pass_def line_type_def [symmetric] connected_def responses_def)
qed

lemma well_typed_run: "\<not> sg_terminated s \<Longrightarrow> list_all (well_typed J) ls \<Longrightarrow> \<not> sg_terminated (fold (reader_pass J) ls s)"
  by (induction ls arbitrary: s) (simp_all add: well_typed_pass)

text \<open>Lines the reader cannot type end the process: no run of well-typed lines does, and with the host's handlers set
  every line that is not well typed (a JSON value that is no object, a type that is no string, a player index
  that is no number) does. The empty and the unparsable line are well typed.\<close>

lemma reader_survives_well_typed:
  assumes "connected s" "list_all (well_typed J) ls"
  shows "\<not> sg_terminated (fold (reader_pass J) ls s) \<and>
    (sg_onClientJoined s \<and> sg_onClientLeft s \<longrightarrow> sg_terminated (reader_pass J l s) = (\<not> well_typed J l))"
  using assms well_typed_run [of s J ls] well_typed_pass [of s J l] by (auto simp: connected_def)

text \<open>C35: Once the server has closed the connection, or has announced that the session is closed, the client
  cannot be taken down any more without ending the process: disconnecting does not join the reader that
  ended itself, so destroying the client, or connecting it again, meets a joinable thread. A client that
  is still connected is taken down cleanly.\<close>

theorem closed_connection_ends_process:
  assumes "connected s"
    and "l = None \<or> (\<exists>line j. l = Some line \<and> line \<noteq> [] \<and> jl_parse J line = Some j \<and> string_value J j ''type'' [] = Some ''session_closed'')"
  shows "sg_terminated (sg_destroy (sg_disconnect (reader_pass J l s))) \<and> sg_terminated (fst (sg_connect True (reader_pass J l s))) \<and>
    \<not> sg_terminated (sg_destroy (sg_disconnect s))"
proof -
  have "\<not> sg_running (reader_pass J l s) \<and> sg_thread (reader_pass J l s)"
    using assms by (auto simp: reader_pass_def connected_def handleNotification_def responses_def sg_emit_def)
  then show ?thesis using assms(1) by (simp add: sg_destroy_def sg_disconnect_def sg_connect_def connected_def Let_def)
qed

text \<open>An answer that arrives after its request timed out is taken for the answer of the next request:
  the join for another code returns the session of the first one, whatever the server answers to it.\<close>

theorem late_answer_taken:
  assumes "connected s" "sg_pendingLine s = []" and line: "line \<noteq> []" "jl_parse J line = Some j"
      "string_value J j ''type'' [] = Some ty" "ty \<in> set responses"
    and first: "sg_join J code1 name1 True [] s = (s1, NoReply)"
    and "jl_dump J (jl_object J [(''type'', jl_of_string J ''join''), (''code'', jl_of_string J code2), (''name'', jl_of_string J name2)]) = Some text"
  shows "snd (sg_join J code2 name2 True ls (reader_pass J (Some line) s1)) =
    (case join_result J line of None \<Rightarrow> NoReply | Some r \<Rightarrow> Reply r)"
proof -
  have "connected s1" using first assms(1,2)
    by (auto simp: sg_join_def sg_request_def sg_writeLine_def sg_emit_def connected_def sg_readLine.simps split: option.splits)
  moreover from this have "reader_pass J (Some line) s1 = s1\<lparr>sg_pendingLine := line\<rparr>"
    using line by (cases line) (simp_all add: reader_pass_def connected_def)
  ultimately show ?thesis using assms(8) line(1)
    by (simp add: sg_join_def sg_request_def sg_writeLine_def sg_emit_def connected_def sg_readLine.simps [of J ls])
qed

section \<open>A small conversation\<close>

text \<open>A library that writes three messages: a registration, a join and the answer to it.\<close>

definition demo_registered :: HostRegisterResult where
  "demo_registered = \<lparr>hr_sessionId = 7, hr_code = ''57EA6A6Q'', hr_maxPlayers = 4, hr_hostToken = ''h'', hr_relayTcpPort = 9001, hr_relayUdpPort = 9002\<rparr>"

definition demo_joined :: JoinResult where
  "demo_joined = \<lparr>jn_sessionId = 7, jn_playerIndex = 1, jn_hostName = ''Host'', jn_token = ''t'', jn_relayTcpPort = 9001, jn_relayUdpPort = 9002,
     jn_hostPublicAddr = ''1.2.3.4'', jn_hostPublicPort = 5000\<rparr>"

definition demo_json :: "(json, string) JsonApi" where
  "demo_json =
     (let obj = JObj;
          base = \<lparr>jl_is_object = jl_is_object json_example, jl_find = jl_find json_example, jl_int = jl_int json_example,
            jl_bool = jl_bool json_example, jl_string = jl_string json_example, jl_of_int = JInt, jl_of_bool = JBool, jl_of_string = JStr,
            jl_object = JObj, jl_parse = (\<lambda>_. None), jl_parse_error = (\<lambda>_. True), jl_dump = (\<lambda>_. None), ja_getInt = jl_int json_example\<rparr>;
          messages = [(''r'', JObj [(''type'', JStr ''host_register''), (''name'', JStr ''Host'')]),
            (''a'', registered_answer base demo_registered),
            (''j'', JObj [(''type'', JStr ''join''), (''code'', JStr ''57EA6A6Q''), (''name'', JStr ''Ann'')]),
            (''k'', joined_answer base demo_joined), (''c'', JObj [(''type'', JStr ''session_closed'')]), (''5'', JInt 5),
            (''n'', JObj [(''type'', JStr ''client_joined''), (''player_index'', JInt 2), (''name'', JStr ''Bob''), (''token'', JStr ''u'')]),
            (''l'', JObj [(''type'', JStr ''client_left''), (''player_index'', JInt 2)])]
      in base\<lparr>jl_parse := map_of messages, jl_dump := map_of (map (\<lambda>(k, v). (v, k)) messages)\<rparr>)"

definition demo_client :: SignalingClient where
  "demo_client = (fst (sg_connect True SignalingClient_new))\<lparr>sg_onClientJoined := True, sg_onClientLeft := True\<rparr>"

lemma demo_connected: "connected demo_client" "sg_pendingLine demo_client = []" "sg_onClientJoined demo_client" "sg_onClientLeft demo_client"
  by (simp_all add: connected_def demo_client_def sg_connect_def sg_disconnect_def SignalingClient_new_def Let_def)

lemma demo_laws: "api_laws demo_json"
  by (auto simp: api_laws_def json_laws_def JsonLib.truncate_def demo_json_def json_example_def registered_answer_def joined_answer_def
      Let_def split: if_splits)

theorem registration_returns_answer_witness:
  "snd (hostRegister demo_json ''Host'' True [Some ''n'', Some ''?'', Some ''l'', Some [], Some ''a''] demo_client) = Reply demo_registered"
proof -
  have q: "list_all (interlude demo_json) [Some ''n'', Some ''?'', Some ''l'', Some []]" by code_simp
  have d: "jl_dump demo_json (jl_object demo_json [(''type'', jl_of_string demo_json ''host_register''), (''name'', jl_of_string demo_json ''Host'')]) = Some ''r''"
    "jl_dump demo_json (registered_answer demo_json demo_registered) = Some ''a''" by code_simp+
  show ?thesis
    using registration_returns_answer [OF demo_laws demo_connected(1,2) q _ d, of "[]"] by (auto simp: demo_registered_def)
qed

text \<open>On the way the two notifications reached their handlers.\<close>

lemma registration_notifies:
  "filter (\<lambda>x. case x of SgJoined _ \<Rightarrow> True | SgLeft _ \<Rightarrow> True | _ \<Rightarrow> False)
     (sg_out (fst (hostRegister demo_json ''Host'' True [Some ''n'', Some ''?'', Some ''l'', Some [], Some ''a''] demo_client))) =
   [SgJoined \<lparr>cj_playerIndex = 2, cj_name = ''Bob'', cj_token = ''u'', cj_clientPublicAddr = [], cj_clientPublicPort = 0\<rparr>, SgLeft 2]"
  by code_simp

lemma untypable_line_terminates: "sg_terminated (reader_pass demo_json (Some ''5'') demo_client)"
proof -
  have "\<not> well_typed demo_json (Some ''5'')" by code_simp
  then show ?thesis using reader_survives_well_typed [OF demo_connected(1), of demo_json "[]" "Some ''5''"] demo_connected(3,4) by simp
qed

theorem closed_connection_ends_process_witness:
  "sg_terminated (sg_destroy (sg_disconnect (reader_pass demo_json (Some ''c'') demo_client)))"
proof -
  have "\<exists>j. jl_parse demo_json ''c'' = Some j \<and> string_value demo_json j ''type'' [] = Some ''session_closed''"
    by (simp add: demo_json_def Let_def string_value_def json_example_def)
  then show ?thesis using closed_connection_ends_process [OF demo_connected(1), of "Some ''c''" demo_json] by auto
qed

theorem late_answer_taken_witness:
  "snd (sg_join demo_json ''57EA6A6Q'' ''Ann'' True [] (reader_pass demo_json (Some ''k'') (fst (sg_join demo_json ''57EA6A6Q'' ''Ann'' True [] demo_client)))) =
     Reply demo_joined"
proof -
  have d: "jl_dump demo_json (jl_object demo_json [(''type'', jl_of_string demo_json ''join''), (''code'', jl_of_string demo_json ''57EA6A6Q''),
      (''name'', jl_of_string demo_json ''Ann'')]) = Some ''j''" by code_simp
  have first: "sg_join demo_json ''57EA6A6Q'' ''Ann'' True [] demo_client = (fst (sg_join demo_json ''57EA6A6Q'' ''Ann'' True [] demo_client), NoReply)"
    by (simp add: prod_eq_iff) code_simp
  have p: "jl_parse demo_json ''k'' = Some (joined_answer demo_json demo_joined)"
    "string_value demo_json (joined_answer demo_json demo_joined) ''type'' [] = Some ''joined''" by code_simp+
  have "join_result demo_json ''k'' = Some demo_joined" by code_simp
  then show ?thesis
    using late_answer_taken [OF demo_connected(1,2) _ p _ first d, of "[]"] by (simp add: responses_def)
qed

end
