(* ===== verification/ComPtr.thy ===== *)
theory ComPtr
  imports RP_Prelude
begin

text \<open>
  \<^verbatim>\<open>capture/ComPtr.h\<close>: the owning pointer to a COM object. The objects are a store of reference counts, 0 for an
  object that does not exist; the \<^verbatim>\<open>ComPtr\<close> variables are the slots of a list, \<open>None\<close> for a null pointer; \<open>cm_ext\<close> counts
  the references held by code that works with raw pointers. Several slots may hold the same object, also the two operands
  of an assignment. \<^verbatim>\<open>AddRef\<close> or \<^verbatim>\<open>Release\<close> on an object that is gone is a fault.

  The theorem: in every run of the operations no such fault occurs and every object lives exactly as long as a reference to
  it is held.
\<close>

record Com =
  cm_refs :: "nat \<Rightarrow> nat"
  cm_slots :: "nat option list"
  cm_ext :: "nat \<Rightarrow> nat"
  cm_fault :: bool

definition Com_new :: Com where
  "Com_new = \<lparr>cm_refs = \<lambda>_. 0, cm_slots = [], cm_ext = \<lambda>_. 0, cm_fault = False\<rparr>"

definition AddRef :: "nat \<Rightarrow> Com \<Rightarrow> Com" where
  "AddRef p s = (if cm_refs s p = 0 then s\<lparr>cm_fault := True\<rparr> else s\<lparr>cm_refs := (cm_refs s)(p := cm_refs s p + 1)\<rparr>)"

definition Release :: "nat \<Rightarrow> Com \<Rightarrow> Com" where
  "Release p s = (if cm_refs s p = 0 then s\<lparr>cm_fault := True\<rparr> else s\<lparr>cm_refs := (cm_refs s)(p := cm_refs s p - 1)\<rparr>)"

definition set_ptr :: "nat \<Rightarrow> nat option \<Rightarrow> Com \<Rightarrow> Com" where
  "set_ptr v p s = s\<lparr>cm_slots := (cm_slots s)[v := p]\<rparr>"

definition cp_addRef :: "nat \<Rightarrow> Com \<Rightarrow> Com" where
  "cp_addRef v s = (case cm_slots s ! v of None \<Rightarrow> s | Some p \<Rightarrow> AddRef p s)"

definition cp_release :: "nat \<Rightarrow> Com \<Rightarrow> Com" where
  "cp_release v s = (case cm_slots s ! v of None \<Rightarrow> s | Some p \<Rightarrow> set_ptr v None (Release p s))"

definition release_old :: "nat option \<Rightarrow> Com \<Rightarrow> Com" where
  "release_old old s = (case old of None \<Rightarrow> s | Some p \<Rightarrow> Release p s)"

section \<open>Constructors\<close>

definition new_slot :: "nat option \<Rightarrow> Com \<Rightarrow> Com" where
  "new_slot p s = s\<lparr>cm_slots := cm_slots s @ [p]\<rparr>"

definition cp_default :: "Com \<Rightarrow> Com" where
  "cp_default s = new_slot None s"

definition cp_raw :: "nat option \<Rightarrow> Com \<Rightarrow> Com" where
  "cp_raw p s = cp_addRef (length (cm_slots s)) (new_slot p s)"

definition cp_copy :: "nat \<Rightarrow> Com \<Rightarrow> Com" where
  "cp_copy w s = cp_addRef (length (cm_slots s)) (new_slot (cm_slots s ! w) s)"

definition cp_move :: "nat \<Rightarrow> Com \<Rightarrow> Com" where
  "cp_move w s = set_ptr w None (new_slot (cm_slots s ! w) s)"

section \<open>Assignments\<close>

definition cp_assign :: "nat \<Rightarrow> nat \<Rightarrow> Com \<Rightarrow> Com" where
  "cp_assign v w s =
     (if v = w then s else let old = cm_slots s ! v in release_old old (cp_addRef v (set_ptr v (cm_slots s ! w) s)))"

definition cp_move_assign :: "nat \<Rightarrow> nat \<Rightarrow> Com \<Rightarrow> Com" where
  "cp_move_assign v w s =
     (if v = w then s else let s = cp_release v s in set_ptr w None (set_ptr v (cm_slots s ! w) s))"

definition cp_assign_raw :: "nat \<Rightarrow> nat option \<Rightarrow> Com \<Rightarrow> Com" where
  "cp_assign_raw v p s = (let old = cm_slots s ! v in release_old old (cp_addRef v (set_ptr v p s)))"

section \<open>Raw pointers\<close>

text \<open>\<open>detach\<close> hands the reference to the caller; \<open>attach\<close>, and a callee that writes through \<^verbatim>\<open>operator&\<close>, hand one over.\<close>

definition give_ext :: "nat option \<Rightarrow> Com \<Rightarrow> Com" where
  "give_ext q s = (case q of None \<Rightarrow> s | Some p \<Rightarrow> s\<lparr>cm_ext := (cm_ext s)(p := cm_ext s p + 1)\<rparr>)"

definition take_ext :: "nat option \<Rightarrow> Com \<Rightarrow> Com" where
  "take_ext q s = (case q of None \<Rightarrow> s | Some p \<Rightarrow> s\<lparr>cm_ext := (cm_ext s)(p := cm_ext s p - 1)\<rparr>)"

definition cp_detach :: "nat \<Rightarrow> Com \<Rightarrow> Com" where
  "cp_detach v s = give_ext (cm_slots s ! v) (set_ptr v None s)"

definition cp_attach :: "nat \<Rightarrow> nat option \<Rightarrow> Com \<Rightarrow> Com" where
  "cp_attach v p s = take_ext p (set_ptr v p (cp_release v s))"

definition cp_addressOf :: "nat \<Rightarrow> nat option \<Rightarrow> Com \<Rightarrow> Com" where
  "cp_addressOf v p s = take_ext p (set_ptr v p (cp_release v s))"

text \<open>\<^verbatim>\<open>QueryInterface\<close> returns the object with one more reference when it supports the interface.\<close>

definition cp_as :: "bool \<Rightarrow> nat \<Rightarrow> Com \<Rightarrow> Com" where
  "cp_as supported v s =
     (let out = length (cm_slots s) in
      case cm_slots s ! v of
        None \<Rightarrow> cp_default s
      | Some p \<Rightarrow> if supported then cp_attach out (Some p) (give_ext (Some p) (AddRef p (cp_default s))) else cp_default s)"

section \<open>Runs\<close>

text \<open>Code with raw pointers creates objects, and adds and releases references of its own. What a program may do: name an
  existing slot, pass an object that exists, hand over a reference it holds.\<close>

datatype cm_event =
    CmDefault
  | CmRaw "nat option"
  | CmCopy nat
  | CmMove nat
  | CmDestroy nat
  | CmAssign nat nat
  | CmMoveAssign nat nat
  | CmAssignRaw nat "nat option"
  | CmAddressOf nat "nat option"
  | CmDetach nat
  | CmReset nat
  | CmAttach nat "nat option"
  | CmAs bool nat
  | RawCreate nat
  | RawAddRef nat
  | RawRelease nat

definition slot_ok :: "nat \<Rightarrow> Com \<Rightarrow> bool" where
  "slot_ok v s \<longleftrightarrow> v < length (cm_slots s)"

definition exists_ok :: "nat option \<Rightarrow> Com \<Rightarrow> bool" where
  "exists_ok q s = (case q of None \<Rightarrow> True | Some p \<Rightarrow> cm_refs s p > 0)"

definition held_ok :: "nat option \<Rightarrow> Com \<Rightarrow> bool" where
  "held_ok q s = (case q of None \<Rightarrow> True | Some p \<Rightarrow> cm_ext s p > 0)"

fun cm_step :: "cm_event \<Rightarrow> Com \<Rightarrow> Com" where
  "cm_step CmDefault s = cp_default s"
| "cm_step (CmRaw p) s = (if exists_ok p s then cp_raw p s else s)"
| "cm_step (CmCopy w) s = (if slot_ok w s then cp_copy w s else s)"
| "cm_step (CmMove w) s = (if slot_ok w s then cp_move w s else s)"
| "cm_step (CmDestroy v) s = (if slot_ok v s then cp_release v s else s)"
| "cm_step (CmAssign v w) s = (if slot_ok v s \<and> slot_ok w s then cp_assign v w s else s)"
| "cm_step (CmMoveAssign v w) s = (if slot_ok v s \<and> slot_ok w s then cp_move_assign v w s else s)"
| "cm_step (CmAssignRaw v p) s = (if slot_ok v s \<and> exists_ok p s then cp_assign_raw v p s else s)"
| "cm_step (CmAddressOf v p) s = (if slot_ok v s \<and> held_ok p s then cp_addressOf v p s else s)"
| "cm_step (CmDetach v) s = (if slot_ok v s then cp_detach v s else s)"
| "cm_step (CmReset v) s = (if slot_ok v s then cp_release v s else s)"
| "cm_step (CmAttach v p) s = (if slot_ok v s \<and> held_ok p s then cp_attach v p s else s)"
| "cm_step (CmAs supported v) s = (if slot_ok v s then cp_as supported v s else s)"
| "cm_step (RawCreate p) s = (if cm_refs s p = 0 then s\<lparr>cm_refs := (cm_refs s)(p := 1), cm_ext := (cm_ext s)(p := 1)\<rparr> else s)"
| "cm_step (RawAddRef p) s = (if exists_ok (Some p) s then give_ext (Some p) (AddRef p s) else s)"
| "cm_step (RawRelease p) s = (if held_ok (Some p) s then take_ext (Some p) (Release p s) else s)"

section \<open>References are counted exactly\<close>

definition holders :: "Com \<Rightarrow> nat \<Rightarrow> nat" where
  "holders s p = count_list (cm_slots s) (Some p) + cm_ext s p"

definition counted :: "Com \<Rightarrow> bool" where
  "counted s \<longleftrightarrow> \<not> cm_fault s \<and> (\<forall>p. cm_refs s p = holders s p)"

lemma count_update:
  "i < length xs \<Longrightarrow> count_list (xs[i := y]) x + (if xs ! i = x then 1 else 0) = count_list xs x + (if y = x then 1 else 0)"
proof (induction xs arbitrary: i)
  case (Cons a xs)
  show ?case
  proof (cases i)
    case (Suc j)
    then have "count_list (xs[j := y]) x + (if xs ! j = x then 1 else 0) = count_list xs x + (if y = x then 1 else 0)"
      using Cons by simp
    then show ?thesis using Suc by (simp split: if_splits)
  qed simp
qed simp

text \<open>What the holders of an object are after each change of the slots.\<close>

lemma holders_set: "slot_ok v s \<Longrightarrow> holders (set_ptr v q s) p + (if cm_slots s ! v = Some p then 1 else 0) = holders s p + (if q = Some p then 1 else 0)"
  using count_update [of v "cm_slots s" q "Some p"] by (simp add: slot_ok_def holders_def set_ptr_def)

lemma holders_new [simp]: "holders (new_slot q s) p = holders s p + (if q = Some p then 1 else 0)"
  by (simp add: holders_def new_slot_def)

lemma held_slot: "slot_ok v s \<Longrightarrow> cm_slots s ! v = Some p \<Longrightarrow> 0 < holders s p"
  using holders_set [of v s None p] by simp

lemma ptr_parts [simp]:
  "cm_refs (set_ptr v q s) = cm_refs s" "cm_fault (set_ptr v q s) = cm_fault s" "cm_ext (set_ptr v q s) = cm_ext s"
  "cm_slots (set_ptr v q s) = (cm_slots s)[v := q]"
  "cm_refs (new_slot q s) = cm_refs s" "cm_fault (new_slot q s) = cm_fault s" "cm_ext (new_slot q s) = cm_ext s"
  "cm_slots (new_slot q s) = cm_slots s @ [q]"
  by (simp_all add: set_ptr_def new_slot_def)

lemma count_parts [simp]:
  "cm_slots (AddRef p s) = cm_slots s" "cm_slots (Release p s) = cm_slots s" "holders (AddRef p s) = holders s" "holders (Release p s) = holders s"
  "cm_slots (give_ext q s) = cm_slots s" "cm_slots (take_ext q s) = cm_slots s"
  "cm_refs (give_ext q s) = cm_refs s" "cm_refs (take_ext q s) = cm_refs s" "cm_fault (give_ext q s) = cm_fault s" "cm_fault (take_ext q s) = cm_fault s"
  by (auto simp: AddRef_def Release_def give_ext_def take_ext_def holders_def fun_eq_iff split: option.split)

lemma holders_ext [simp]:
  "holders (give_ext q s) p = holders s p + (if q = Some p then 1 else 0)"
  "held_ok q s \<Longrightarrow> holders (take_ext q s) p = holders s p - (if q = Some p then 1 else 0)"
  by (auto simp: give_ext_def take_ext_def holders_def held_ok_def split: option.split)

lemma countedI: "\<not> cm_fault s \<Longrightarrow> (\<And>p. cm_refs s p = holders s p) \<Longrightarrow> counted s"
  by (simp add: counted_def)

lemma AddRef_refs: "0 < cm_refs s p \<Longrightarrow> cm_refs (AddRef p s) q = cm_refs s q + (if q = p then 1 else 0) \<and> cm_fault (AddRef p s) = cm_fault s"
  by (simp add: AddRef_def)

lemma Release_refs: "0 < cm_refs s p \<Longrightarrow> cm_refs (Release p s) q = cm_refs s q - (if q = p then 1 else 0) \<and> cm_fault (Release p s) = cm_fault s"
  by (simp add: Release_def)

lemma counted_release:
  assumes "counted s" "slot_ok v s"
  shows "counted (cp_release v s)" "cm_slots (cp_release v s) = (cm_slots s)[v := None]" "cm_ext (cp_release v s) = cm_ext s"
proof -
  show "counted (cp_release v s)"
  proof (cases "cm_slots s ! v")
    case (Some p)
    then have r: "0 < cm_refs s p" using assms held_slot [of v s p] by (simp add: counted_def)
    have h: "holders (set_ptr v None (Release p s)) q = holders s q - (if q = p then 1 else 0)" for q
      using holders_set [of v "Release p s" None q] assms(2) Some by (auto simp: slot_ok_def split: if_splits)
    have "counted (set_ptr v None (Release p s))"
      by (rule countedI) (use assms(1) r Release_refs [OF r] h in \<open>simp_all add: counted_def\<close>)
    then show ?thesis using Some by (simp add: cp_release_def)
  qed (simp add: cp_release_def assms(1))
  show "cm_slots (cp_release v s) = (cm_slots s)[v := None]"
    by (cases "cm_slots s ! v") (simp_all add: cp_release_def, metis list_update_id)
  show "cm_ext (cp_release v s) = cm_ext s"
    by (simp add: cp_release_def Release_def split: option.split)
qed

text \<open>A pointer taken over with a reference of its own.\<close>

lemma counted_add:
  assumes "counted s" "exists_ok q s"
  shows "counted (cp_addRef (length (cm_slots s)) (new_slot q s))"
proof (cases q)
  case None
  then show ?thesis using assms(1) by (simp add: cp_addRef_def counted_def)
next
  case (Some p)
  then have r: "0 < cm_refs (new_slot q s) p" using assms(2) by (simp add: exists_ok_def)
  have "counted (AddRef p (new_slot q s))"
    by (rule countedI) (use assms(1) AddRef_refs [OF r] Some in \<open>auto simp: counted_def\<close>)
  then show ?thesis using Some by (simp add: cp_addRef_def)
qed

lemma slot_exists: "counted s \<Longrightarrow> slot_ok v s \<Longrightarrow> exists_ok (cm_slots s ! v) s"
  using held_slot [of v s] by (auto simp: exists_ok_def counted_def split: option.split)

text \<open>The order of an assignment: the new object is referenced before the old one is released, so it survives also when it
  is the old one.\<close>

lemma counted_assign_raw:
  assumes "counted s" "slot_ok v s" "exists_ok q s"
  shows "counted (cp_assign_raw v q s)"
proof -
  define s1 where "s1 = cp_addRef v (set_ptr v q s)"
  have v: "v < length (cm_slots s)" using assms(2) by (simp add: slot_ok_def)
  have h: "holders (set_ptr v q s) p + (if cm_slots s ! v = Some p then 1 else 0) = holders s p + (if q = Some p then 1 else 0)" for p
    by (rule holders_set [OF assms(2)])
  have s1: "\<not> cm_fault s1 \<and> holders s1 = holders (set_ptr v q s) \<and> cm_refs s1 p = cm_refs s p + (if q = Some p then 1 else 0)" for p
  proof (cases q)
    case (Some x)
    then have r: "0 < cm_refs (set_ptr v q s) x" using assms(3) by (simp add: exists_ok_def)
    show ?thesis using Some v assms(1) AddRef_refs [OF r] by (simp add: s1_def cp_addRef_def counted_def)
  qed (use v assms(1) in \<open>simp add: s1_def cp_addRef_def counted_def\<close>)
  have eq: "cm_refs s1 p = holders s1 p + (if cm_slots s ! v = Some p then 1 else 0)" for p
    using s1 [of p] h [of p] assms(1) by (simp add: counted_def)
  have "counted (release_old (cm_slots s ! v) s1)"
  proof (cases "cm_slots s ! v")
    case None
    then show ?thesis using eq s1 by (simp add: release_old_def counted_def)
  next
    case (Some x)
    then have r: "0 < cm_refs s1 x" using eq [of x] by simp
    have "counted (Release x s1)" by (rule countedI) (use eq s1 Some Release_refs [OF r] in auto)
    then show ?thesis using Some by (simp add: release_old_def)
  qed
  then show ?thesis by (simp add: cp_assign_raw_def s1_def Let_def)
qed

lemma counted_assign: "counted s \<Longrightarrow> slot_ok v s \<Longrightarrow> slot_ok w s \<Longrightarrow> counted (cp_assign v w s)"
  using counted_assign_raw [of s v "cm_slots s ! w"] slot_exists [of s w] by (simp add: cp_assign_def cp_assign_raw_def)

lemma counted_set_null:
  assumes "counted s" "slot_ok v s" "cm_slots s ! v = None" "held_ok q s"
  shows "counted (take_ext q (set_ptr v q s))"
proof (rule countedI)
  have k: "held_ok q (set_ptr v q s)" using assms(4) by (cases q) (simp_all add: held_ok_def)
  fix p
  show "cm_refs (take_ext q (set_ptr v q s)) p = holders (take_ext q (set_ptr v q s)) p"
    using holders_set [OF assms(2), of q p] holders_ext(2) [OF k, of p] assms(1,3) by (simp add: counted_def)
qed (use assms(1) in \<open>simp add: counted_def\<close>)

lemma counted_attach:
  assumes "counted s" "slot_ok v s" "held_ok q s"
  shows "counted (cp_attach v q s)"
  unfolding cp_attach_def
  by (rule counted_set_null)
    (use counted_release [OF assms(1,2)] assms(2,3) in \<open>auto simp: slot_ok_def held_ok_def split: option.splits\<close>)

lemma counted_detach:
  assumes "counted s" "slot_ok v s"
  shows "counted (cp_detach v s)"
  unfolding cp_detach_def
proof (rule countedI)
  fix p
  show "cm_refs (give_ext (cm_slots s ! v) (set_ptr v None s)) p = holders (give_ext (cm_slots s ! v) (set_ptr v None s)) p"
    using holders_set [OF assms(2), of None p] assms(1) by (simp add: counted_def)
qed (use assms(1) in \<open>simp add: counted_def\<close>)

lemma counted_shift:
  assumes "counted s" "slot_ok v s" "slot_ok w s" "v \<noteq> w" "cm_slots s ! v = None"
  shows "counted (set_ptr w None (set_ptr v (cm_slots s ! w) s))"
proof (rule countedI)
  let ?s = "set_ptr v (cm_slots s ! w) s"
  have w: "slot_ok w ?s" "cm_slots ?s ! w = cm_slots s ! w" using assms(3,4) by (simp_all add: slot_ok_def)
  fix p
  show "cm_refs (set_ptr w None ?s) p = holders (set_ptr w None ?s) p"
    using holders_set [OF assms(2), of "cm_slots s ! w" p] holders_set [OF w(1), of None p] w(2) assms(1,5) by (simp add: counted_def)
qed (use assms(1) in \<open>simp add: counted_def\<close>)

lemma counted_move_assign:
  assumes "counted s" "slot_ok v s" "slot_ok w s"
  shows "counted (cp_move_assign v w s)"
proof (cases "v = w")
  case False
  show ?thesis unfolding cp_move_assign_def Let_def
    using counted_shift [OF counted_release(1) [OF assms(1,2)], of v w] False assms(2,3) counted_release(2) [OF assms(1,2)]
    by (simp add: slot_ok_def)
qed (simp add: cp_move_assign_def assms(1))

lemma counted_default: "counted s \<Longrightarrow> counted (cp_default s)"
  by (simp add: counted_def cp_default_def)

lemma counted_move:
  assumes "counted s" "slot_ok w s"
  shows "counted (cp_move w s)"
proof -
  have "set_ptr w None (new_slot (cm_slots s ! w) s) = set_ptr w None (set_ptr (length (cm_slots s)) (cm_slots (cp_default s) ! w) (cp_default s))"
    using assms(2) by (simp add: set_ptr_def new_slot_def cp_default_def slot_ok_def nth_append)
  moreover have "counted \<dots>"
    by (rule counted_shift) (use assms counted_default in \<open>simp_all add: slot_ok_def cp_default_def nth_append\<close>)
  ultimately show ?thesis by (simp add: cp_move_def)
qed

lemma counted_ref: "counted s \<Longrightarrow> 0 < cm_refs s p \<Longrightarrow> counted (give_ext (Some p) (AddRef p s))"
  using AddRef_refs [of s p] by (intro countedI) (auto simp: counted_def)

lemma counted_as:
  assumes "counted s" "slot_ok v s"
  shows "counted (cp_as supported v s)"
proof (cases "cm_slots s ! v")
  case (Some p)
  let ?s = "give_ext (Some p) (AddRef p (cp_default s))"
  have "0 < cm_refs (cp_default s) p" using slot_exists [OF assms] Some by (simp add: exists_ok_def cp_default_def)
  then have "counted ?s" by (rule counted_ref [OF counted_default [OF assms(1)]])
  then have "counted (cp_attach (length (cm_slots s)) (Some p) ?s)"
    by (rule counted_attach) (simp_all add: slot_ok_def cp_default_def held_ok_def give_ext_def)
  then show ?thesis using Some counted_default [OF assms(1)] by (simp add: cp_as_def)
qed (simp add: cp_as_def counted_default assms(1))

lemma counted_raw_release:
  assumes "counted s" "held_ok (Some p) s"
  shows "counted (take_ext (Some p) (Release p s))"
proof (rule countedI)
  have r: "0 < cm_refs s p" using assms by (simp add: counted_def held_ok_def holders_def)
  have k: "held_ok (Some p) (Release p s)" using assms(2) by (simp add: held_ok_def Release_def)
  show "\<not> cm_fault (take_ext (Some p) (Release p s))" using Release_refs [OF r] assms(1) by (simp add: counted_def)
  fix q
  show "cm_refs (take_ext (Some p) (Release p s)) q = holders (take_ext (Some p) (Release p s)) q"
    using Release_refs [OF r, of q] holders_ext(2) [OF k, of q] assms(1) by (simp add: counted_def)
qed

lemma counted_create: "counted s \<Longrightarrow> cm_refs s p = 0 \<Longrightarrow> counted (s\<lparr>cm_refs := (cm_refs s)(p := 1), cm_ext := (cm_ext s)(p := 1)\<rparr>)"
  by (auto simp: counted_def holders_def)

lemma counted_step: "counted s \<Longrightarrow> counted (cm_step e s)"
  by (cases e) (simp_all add: counted_default counted_add cp_raw_def cp_copy_def slot_exists counted_move counted_release counted_assign
      counted_move_assign counted_assign_raw counted_attach cp_addressOf_def cp_attach_def [symmetric] counted_detach counted_as
      counted_ref exists_ok_def [of "Some _"] counted_raw_release counted_create [simplified])

interpretation com: event_machine Com_new cm_step counted
  by unfold_locales (simp add: counted_def Com_new_def holders_def, rule counted_step)

text \<open>C28: References to COM objects are counted exactly. Whatever constructors, copies, moves, assignments (also of a pointer to
  itself or of two pointers to one object), hand-overs to and from raw pointers, interface queries and releases a program
  makes, in any order, no object is referenced or released after it is gone, and every object exists exactly while some
  pointer or some raw owner holds a reference to it.\<close>

theorem com_references_exact:
  "let s = fold cm_step es Com_new
   in \<not> cm_fault s \<and> (\<forall>p. cm_refs s p = count_list (cm_slots s) (Some p) + cm_ext s p)"
  using com.inv_run [of es] by (simp add: counted_def holders_def Let_def)

end
