(* ===== verification/Tools.thy ===== *)
theory Tools
  imports Complex_Main RP_Prelude
begin

text \<open>
  \<^verbatim>\<open>tools/capture_dump.cpp\<close> and \<^verbatim>\<open>tools/encode_test.cpp\<close>: the two drivers that judge the capture and the encoder on a machine.
  What the capture and the encoder deliver during a run are arguments; printing is left out. The counters of a run are
  unbounded here: a run of the length of an \<open>int\<close> of seconds at the pace of a display is meant.

  The lemmas: the test picture is written inside its buffer, pixel by pixel where it belongs; a capture that always shows
  the same picture is never judged to work; the file holds the visible pixels of the last frame.
\<close>

section \<open>The capture test\<close>

definition checksum :: "bytes \<Rightarrow> nat \<Rightarrow> u32" where
  "checksum p n = fold (\<lambda>i h. (h XOR ucast (p ! i)) * 16777619) (map (\<lambda>k. 16 * k) [0..<(n + 15) div 16]) 2166136261"

record DumpFrame =
  df_data :: bytes
  df_width :: nat
  df_height :: nat
  df_stride :: nat

datatype grab = Grabbed DumpFrame rat | GrabTimeout | GrabFailed string

record Dump =
  du_frames :: nat
  du_timeouts :: nat
  du_lastChecksum :: u32
  du_distinct :: nat
  du_captureMs :: rat
  du_frame :: "DumpFrame option"

definition Dump_new :: Dump where
  "Dump_new = \<lparr>du_frames = 0, du_timeouts = 0, du_lastChecksum = 0, du_distinct = 0, du_captureMs = 0, du_frame = None\<rparr>"

definition on_frame :: "DumpFrame \<Rightarrow> rat \<Rightarrow> Dump \<Rightarrow> Dump" where
  "on_frame f ms d =
     (let c = checksum (df_data f) (df_stride f * df_height f);
          d = d\<lparr>du_frames := du_frames d + 1, du_captureMs := du_captureMs d + ms, du_frame := Some f\<rparr>
      in if c \<noteq> du_lastChecksum d then d\<lparr>du_distinct := du_distinct d + 1, du_lastChecksum := c\<rparr> else d)"

text \<open>The loop over the clock and the capture; \<open>None\<close> while it has not ended, \<open>Inl\<close> for a failed capture.\<close>

fun dump_loop :: "rat \<Rightarrow> (rat \<times> grab) list \<Rightarrow> Dump \<Rightarrow> (string + Dump) option" where
  "dump_loop seconds [] d = None"
| "dump_loop seconds ((elapsed, g) # gs) d =
     (if elapsed \<ge> seconds then Some (Inr d)
      else case g of
        Grabbed f ms \<Rightarrow> dump_loop seconds gs (on_frame f ms d)
      | GrabTimeout \<Rightarrow> dump_loop seconds gs (d\<lparr>du_timeouts := du_timeouts d + 1\<rparr>)
      | GrabFailed err \<Rightarrow> Some (Inl err))"

definition dump_rows :: "DumpFrame \<Rightarrow> bytes list" where
  "dump_rows f = map (\<lambda>y. take (df_width f * 4) (drop (y * df_stride f) (df_data f))) [0..<df_height f]"

text \<open>The exit code and the file, when the loop ends.\<close>

definition dump_main :: "bool \<Rightarrow> rat \<Rightarrow> (rat \<times> grab) list \<Rightarrow> (nat \<times> bytes option) option" where
  "dump_main init seconds gs =
     (if \<not> init then Some (1, None)
      else case dump_loop seconds gs Dump_new of
        None \<Rightarrow> None
      | Some (Inl err) \<Rightarrow> Some (2, None)
      | Some (Inr d) \<Rightarrow>
          Some (if du_frames d > 10 \<and> du_distinct d > 3 then 0 else 3,
                if du_frames d > 0 then map_option (\<lambda>f. concat (dump_rows f)) (du_frame d) else None))"

definition still :: "u32 \<Rightarrow> (rat \<times> grab) list \<Rightarrow> bool" where
  "still c gs \<longleftrightarrow> (\<forall>e f ms. (e, Grabbed f ms) \<in> set gs \<longrightarrow> checksum (df_data f) (df_stride f * df_height f) = c)"

lemma still_loop:
  assumes "still c gs" "dump_loop seconds gs d = Some (Inr d')" "du_distinct d = 0 \<and> du_lastChecksum d = 0 \<or> du_distinct d \<le> 1 \<and> du_lastChecksum d = c"
  shows "du_distinct d' \<le> 1"
  using assms
proof (induction seconds gs d rule: dump_loop.induct)
  case (2 seconds elapsed g gs d)
  have st: "still c gs" using "2.prems"(1) by (auto simp: still_def)
  show ?case
  proof (cases "seconds \<le> elapsed")
    case True
    then show ?thesis using "2.prems"(2,3) by auto
  next
    case run: False
    show ?thesis
    proof (cases g)
      case (Grabbed f ms)
      then have "checksum (df_data f) (df_stride f * df_height f) = c" using "2.prems"(1) by (auto simp: still_def)
      then have "du_distinct (on_frame f ms d) = 0 \<and> du_lastChecksum (on_frame f ms d) = 0 \<or>
          du_distinct (on_frame f ms d) \<le> 1 \<and> du_lastChecksum (on_frame f ms d) = c"
        using "2.prems"(3) by (auto simp: on_frame_def Let_def)
      then show ?thesis using 2(1) [OF run Grabbed st] "2.prems"(2) run Grabbed by simp
    next
      case GrabTimeout
      then show ?thesis using 2(2) [OF run GrabTimeout st] "2.prems"(2,3) run by simp
    next
      case (GrabFailed err)
      then show ?thesis using "2.prems"(2) run by simp
    qed
  qed
qed simp

text \<open>A capture whose pictures all have one checksum is not reported as working, however many pictures it delivers.\<close>

theorem still_picture_not_accepted:
  assumes "still c gs" "dump_main init seconds gs = Some (code, file)"
  shows "code \<noteq> 0"
proof (cases "dump_loop seconds gs Dump_new")
  case None
  then show ?thesis using assms(2) by (auto simp: dump_main_def split: if_splits)
next
  case (Some r)
  have "du_distinct d \<le> 1" if "r = Inr d" for d
    using still_loop [OF assms(1), of seconds Dump_new d] Some that by (simp add: Dump_new_def)
  then show ?thesis using assms(2) Some by (cases r) (force simp: dump_main_def split: if_splits)+
qed

lemma dumped_file_size:
  assumes "\<And>y. y < df_height f \<Longrightarrow> y * df_stride f + df_width f * 4 \<le> length (df_data f)"
  shows "length (concat (dump_rows f)) = df_width f * df_height f * 4"
proof -
  have "length (take (df_width f * 4) (drop (y * df_stride f) (df_data f))) = df_width f * 4" if "y < df_height f" for y
    using assms [OF that] by simp
  then have "map length (dump_rows f) = replicate (df_height f) (df_width f * 4)"
    unfolding dump_rows_def by (auto simp: list_eq_iff_nth_eq simp del: length_take)
  then show ?thesis by (simp add: length_concat sum_list_replicate)
qed

section \<open>The encoder test\<close>

definition set_pixel :: "nat \<Rightarrow> bytes \<Rightarrow> bytes \<Rightarrow> bytes" where
  "set_pixel k px buf = buf[k := px ! 0, k + 1 := px ! 1, k + 2 := px ! 2, k + 3 := px ! 3]"

definition test_pixel :: "nat \<Rightarrow> nat \<Rightarrow> nat \<Rightarrow> bytes" where
  "test_pixel i x y = [of_nat (x + i), of_nat y, of_nat ((x XOR y) + i), 255]"

text \<open>The two loops over the rows and the columns.\<close>

definition fill_image :: "nat \<Rightarrow> nat \<Rightarrow> nat \<Rightarrow> bytes \<Rightarrow> bytes" where
  "fill_image W H i buf = fold (\<lambda>y buf. fold (\<lambda>x buf. set_pixel ((y * W + x) * 4) (test_pixel i x y) buf) [0..<W] buf) [0..<H] buf"

text \<open>The packets of one frame: their bytes and whether they are a key frame.\<close>

fun encode_loop :: "(bytes \<times> bool) list option list \<Rightarrow> nat \<Rightarrow> nat \<Rightarrow> nat \<Rightarrow> (nat \<times> nat \<times> nat) option" where
  "encode_loop [] packets keys octets = Some (packets, keys, octets)"
| "encode_loop (None # rs) packets keys octets = None"
| "encode_loop (Some pkts # rs) packets keys octets =
     encode_loop rs (packets + length pkts) (keys + length (filter snd pkts)) (octets + sum_list (map (length \<circ> fst) pkts))"

definition encode_main :: "bool \<Rightarrow> (bytes \<times> bool) list option list \<Rightarrow> rat \<Rightarrow> nat" where
  "encode_main init rs avgMs =
     (if \<not> init then 1
      else case encode_loop rs 0 0 0 of
        None \<Rightarrow> 2
      | Some (packets, keys, octets) \<Rightarrow> if packets \<ge> 120 - 5 \<and> keys \<ge> 1 \<and> avgMs < 100 then 0 else 3)"

lemma length_set_pixel [simp]: "length (set_pixel k px buf) = length buf"
  by (simp add: set_pixel_def)

lemma set_pixel_nth:
  assumes "k + 4 \<le> length buf"
  shows "c < 4 \<Longrightarrow> set_pixel k px buf ! (k + c) = px ! c" "j < k \<or> k + 4 \<le> j \<Longrightarrow> set_pixel k px buf ! j = buf ! j"
proof -
  show "set_pixel k px buf ! (k + c) = px ! c" if "c < 4"
  proof -
    have "c = 0 \<or> c = 1 \<or> c = 2 \<or> c = 3" using that by auto
    then show ?thesis using assms by (auto simp: set_pixel_def nth_list_update)
  qed
  show "set_pixel k px buf ! j = buf ! j" if "j < k \<or> k + 4 \<le> j" using that by (auto simp: set_pixel_def nth_list_update)
qed

lemma pixels_in_order:
  assumes "n * 4 \<le> length buf"
  shows "length (fold (\<lambda>m. set_pixel (m * 4) (g m)) [0..<n] buf) = length buf \<and>
    (\<forall>m < n. \<forall>c < 4. fold (\<lambda>m. set_pixel (m * 4) (g m)) [0..<n] buf ! (m * 4 + c) = g m ! c)"
  using assms
proof (induction n)
  case (Suc n)
  let ?b = "fold (\<lambda>m. set_pixel (m * 4) (g m)) [0..<n] buf"
  have ih: "length ?b = length buf" "\<And>m c. m < n \<Longrightarrow> c < 4 \<Longrightarrow> ?b ! (m * 4 + c) = g m ! c" using Suc by auto
  have room: "n * 4 + 4 \<le> length ?b" using Suc.prems ih(1) by simp
  have "set_pixel (n * 4) (g n) ?b ! (m * 4 + c) = g m ! c" if "m < Suc n" "c < 4" for m c
  proof (cases "m = n")
    case False
    then have "m < n" using that(1) by simp
    then have "m * 4 + c < n * 4" using that(2) by linarith
    then show ?thesis using set_pixel_nth(2) [OF room] ih(2) [OF \<open>m < n\<close> that(2)] by simp
  qed (use set_pixel_nth(1) [OF room that(2)] in simp)
  then show ?case using ih(1) by simp
qed simp

lemma fold_rows: "fold f (concat (map r ys)) b = fold (\<lambda>y. fold f (r y)) ys b"
  by (induction ys arbitrary: b) simp_all

lemma rows_of_pixels: "concat (map (\<lambda>y. map (\<lambda>x. y * W + x) [0..<W]) [0..<H]) = [0..<H * W]"
proof (induction H)
  case (Suc H)
  have "map (\<lambda>x. H * W + x) [0..<W] = [H * W..<H * W + W]" by (simp add: map_add_upt add.commute)
  then show ?case using Suc upt_add_eq_append [of 0 "H * W" W] by (simp add: add.commute)
qed simp

text \<open>The synthetic picture: every write is inside the buffer of \<open>W * H\<close> pixels and every pixel has its four bytes at
  its place.\<close>

theorem test_image_layout:
  assumes "length buf = W * H * 4" "x < W" "y < H" "c < 4"
  shows "length (fill_image W H i buf) = W * H * 4 \<and> fill_image W H i buf ! ((y * W + x) * 4 + c) = test_pixel i x y ! c \<and>
    (y * W + x) * 4 + c < W * H * 4"
proof -
  let ?g = "\<lambda>m. test_pixel i (m mod W) (m div W)"
  have row: "fold (\<lambda>x. set_pixel ((y * W + x) * 4) (test_pixel i x y)) [0..<W] b =
      fold (\<lambda>m. set_pixel (m * 4) (?g m)) (map (\<lambda>x. y * W + x) [0..<W]) b" for y b
    unfolding fold_map by (rule fold_cong) (auto simp: fun_eq_iff)
  have "fill_image W H i buf = fold (\<lambda>m. set_pixel (m * 4) (?g m)) (concat (map (\<lambda>y. map (\<lambda>x. y * W + x) [0..<W]) [0..<H])) buf"
    unfolding fill_image_def row fold_rows ..
  then have f: "fill_image W H i buf = fold (\<lambda>m. set_pixel (m * 4) (?g m)) [0..<H * W] buf" unfolding rows_of_pixels .
  have "y * W + x < Suc y * W" using assms(2) by simp
  also have "\<dots> \<le> H * W" using assms(3) by (intro mult_le_mono1) simp
  finally have m: "y * W + x < H * W" .
  have g: "?g (y * W + x) = test_pixel i x y" using assms(2) by simp
  have len: "H * W * 4 \<le> length buf" using assms(1) by (simp add: mult.commute)
  show ?thesis using pixels_in_order [OF len, of ?g] m assms(1,4) unfolding f [symmetric] g [symmetric]
    by (auto simp: mult.commute [of W H])
qed

end
