(* ===== verification/Spec2Isabelle.thy ===== *)
theory Spec2Isabelle
  imports HostStreamer MediaPath UdpSocket Application SignalingClient ComPtr Tools AdaptiveBitrate InputSender
begin

text \<open>
  RemotePlay lets a host stream a game to up to four players, who send their input back. This library models the
  program's C++ code and proves what makes it correct, and where it is not, what it does instead.

  \<^bold>\<open>Parts of the program and how they interact.\<close> On the host, \<^verbatim>\<open>ui/HostWindow\<close> starts a session through
  \<^verbatim>\<open>app/HostCoordinator\<close>, which owns the control session (\<^verbatim>\<open>host/HostApp\<close>, \<^verbatim>\<open>host/HostSession\<close>), one streamer per player
  (\<^verbatim>\<open>host/HostStreamer\<close>: capture, encoders, UDP) and the injector of input. On the player's side \<^verbatim>\<open>ui/ClientWindow\<close> joins through
  \<^verbatim>\<open>app/ClientCoordinator\<close>, which owns the control session (\<^verbatim>\<open>client/ClientApp\<close>, \<^verbatim>\<open>client/ClientSession\<close>), the
  streamer (\<^verbatim>\<open>client/ClientStreamer\<close>: UDP, decoders, player) and the sender of input. The sessions exchange framed messages
  over TCP (\<^verbatim>\<open>networking/Packet\<close>, \<^verbatim>\<open>Protocol\<close>, \<^verbatim>\<open>TcpTransport\<close>); the streamers exchange sealed datagrams over UDP
  (\<^verbatim>\<open>networking/UdpProtocol\<close>, \<^verbatim>\<open>UdpTransport\<close>, \<^verbatim>\<open>security/SecureChannel\<close>). The internet mode finds its peer through
  \<^verbatim>\<open>signaling/SignalingClient\<close>.

  \<^bold>\<open>Theories, bottom up.\<close>
  \<^item> \<open>RP_Prelude\<close>: bytes, little-endian fields, ordered maps, and the interfaces below. \<open>RP_Types\<close>: \<^verbatim>\<open>common/Types\<close>.
    \<open>Platform\<close>: \<^verbatim>\<open>common/Log\<close> and \<^verbatim>\<open>common/Paths\<close>. \<open>Config\<close>: \<^verbatim>\<open>common/Config\<close>.
  \<^item> \<open>Packet\<close>, \<open>Protocol\<close>, \<open>TcpTransport\<close>: frames, the sixteen control messages, the connection as an event machine over
    the completions of asio.
  \<^item> \<open>SessionCodes\<close>, \<open>Crypto\<close>, \<open>SecureChannel\<close>, \<open>UdpCrypto\<close>: codes, key derivation, sealing and the replay window.
  \<^item> \<open>UdpProtocol\<close>, \<open>Reassembly\<close>, \<open>JitterBuffer\<close>, \<open>UdpTransport\<close>, \<open>UdpSocket\<close>: datagrams, loss accounting, fragments, ordering, the
    socket's handlers, the receive loop of the io thread and the statistics.
  \<^item> \<open>InputProtocol\<close>, \<open>ControllerReader\<close>, \<open>InputSender\<close>, \<open>VirtualGamepad\<close>, \<open>InputInjector\<close>: \<^verbatim>\<open>input/\<close>.
  \<^item> \<open>ComPtr\<close>: \<^verbatim>\<open>capture/ComPtr.h\<close>, the reference-counting pointer. \<open>ScreenCapture\<close>, \<open>VideoEncoder\<close>, \<open>VideoDecoder\<close>, \<open>AudioCodec\<close>, \<open>AudioDevices\<close>: the media parts, with the loops over
    memory written out and buffer overruns as error values.
  \<^item> \<open>HostSession\<close>, \<open>ClientSession\<close>, \<open>HostApp\<close>, \<open>HostStreamer\<close>, \<open>ClientStreamer\<close>, \<open>AdaptiveBitrate\<close>, \<open>SignalingClient\<close>,
    \<open>HostCoordinator\<close>, \<open>ClientCoordinator\<close>: sessions, pipelines and what joins them. \<open>MediaPath\<close>: no code of its own; the host's
    transport, the network and the client's streamer composed, for the properties of a frame's whole way.
  \<^item> \<open>QtText\<close>, \<open>VideoWidget\<close>, \<open>ClientWindow\<close>, \<open>SettingsWindow\<close>, \<open>HostWindow\<close>, \<open>MainWindow\<close>: the user interface without its
    layout. \<open>Application\<close>: \<^verbatim>\<open>app/main.cpp\<close>, from the configuration file to the exit. \<open>Tools\<close>: the two test
    drivers under \<^verbatim>\<open>tools/\<close>.
  \<^item> This theory: properties of both sides together.

  \<^bold>\<open>How code becomes definitions.\<close> A class is a record with the fields of the class, a method a function from the object
  to the object, with what it sends, emits or posts as a list of outputs, in order. A callback, a timer or a message from
  another thread is an event, and an object with events is a function from events to state changes; a run is a fold over
  a list of events, so every interleaving of events is covered, but two handlers of one object never overlap.
  Machine integers are words and wrap; clocks, random numbers and the results of the operating system, Qt, asio, FFmpeg, the
  pad library, the cryptographic provider and the JSON library are arguments. Floating point is rational. Null
  pointers, overruns, exceptions that leave a thread, and joins that never return are values (\<open>ho_fault\<close>, \<open>ct_fault\<close>,
  \<open>feed_fault\<close>, \<open>sg_terminated\<close>, \<open>sr_crashed\<close>), so that their absence is a theorem. Loops are structural or have a termination
  proof; where a loop waits for other threads the length of its trace is an argument (\<open>cp_fuel\<close> of the player's start), and
  the theorems either hold for every length or say which length is enough.

  \<^bold>\<open>Interfaces.\<close> \<open>event_machine\<close> (an initial state, a handler and an invariant every event preserves; the lemmas lift it to
  runs), \<open>guarded_machine\<close> (the same under a condition on the events), \<open>output_machine\<close> (every output of a
  run satisfies a predicate), \<open>machine_refinement\<close> (an abstraction to a simpler machine with the same visible outputs),
  \<open>field_codec\<close> (writer and reader of one field of a message) and \<open>crypto_sink\<close> (what the transport relies on from the channel) are
  locales, interpreted for the host's and the client's
  session, the coordinators, the injector, the transports, the streamers, the capture, the windows and the whole application. An
  abstract specification with a refinement is given for the life cycle of a client, the byte stream of the TCP
  reader, the table of held keys, the jitter buffer and the decode loop.

  \<^bold>\<open>What the theorems show.\<close>
  \<^item> Transport: a byte stream cut in any way delivers exactly the messages written, in order; datagrams survive fragmentation
    in any order; the reassembler stays inside its buffer; frames are released and decoded in increasing order; no
    counter is used twice and none accepted twice; what fails to authenticate changes nothing but the statistics; the
    receive loop outlives every error and ends with the transport.
  \<^item> End to end: without encryption every frame the host sends, its datagrams in any order and repeated, comes to the client's
    decoder once, in order and unchanged; with encryption none does (a defect: the header is authenticated before its
    flag is set).
  \<^item> Sessions: only clients that presented the code are admitted, clients move along the specified life cycle, streams start
    only after the key exchange, both coordinators derive the same keys, what a client leaves is released.
  \<^item> Input: events are applied in order, only with permission, and nothing stays pressed when a player leaves.
  \<^item> Media: captured and painted pixels stay inside their memory, the encoder's loop terminates, a failing capture ends; references to
    COM objects are counted exactly.
  \<^item> User interface: the windows' controls follow the session, errors do not pile up, the selected source is captured; the settings are
    in their ranges from the start of the program to its exit.
  \<^item> Several theorems prove a defect: the confirmation of the keys disconnects its sender, so that no stream starts between
    genuine clients; the client never sends input; a code typed without its dash splits the keys; a rejected
    packet freezes the picture; a client without an audio device stops; a closed signaling connection ends the process.

  \<^bold>\<open>Hypotheses.\<close> Laws of code outside the repository are premises of the theorems that need them: that both sides of
  the key agreement get the same secret, that a cipher opens what it sealed and (\<open>binds_flags\<close>) nothing under other authenticated data, \<open>json_laws\<close> and \<open>api_laws\<close> (a JSON value printed
  and read again), \<open>fifo_laws\<close> (FFmpeg's FIFO), that a decoder sent an empty packet is at the end of its stream, \<open>scaled_inside\<close> and
  \<open>reads_number\<close> of Qt. Each property that uses one has a witness with a concrete instance.

  \<^bold>\<open>Not modelled.\<close> Layout, style sheets, fonts, colours and translation of the windows (\<^verbatim>\<open>ui/Theme.cpp\<close> as a whole), the
  application's icon, the include order of the Windows headers and the tests: they hold no state the
  others depend on. The signaling server is Python and the directories under \<^verbatim>\<open>third_party/\<close> are other projects. Inside the modelled
  parts: log lines, thread tags and time stamps; the conversion of samples to the mix format of a device; the Linux
  variants of the folders; data races between threads that share an object without a lock.
\<close>

section \<open>The key exchange between the two coordinators\<close>

text \<open>The provider of the other side: the same algorithms, its own randomness and key pair.\<close>

definition same_algorithms :: "Cng \<Rightarrow> Cng \<Rightarrow> bool" where
  "same_algorithms a b \<longleftrightarrow> cng_hmac a = cng_hmac b \<and> cng_agree a = cng_agree b"

lemma same_expand:
  "same_algorithms a b \<Longrightarrow> hkdf_expand a prk info t counter left = hkdf_expand b prk info t counter left"
proof (induction a prk info t counter left rule: hkdf_expand.induct)
  case (1 cng prk info t counter left)
  then show ?case
    by (subst (1 2) hkdf_expand.simps) (simp add: hmacSha256_def same_algorithms_def Let_def)
qed

lemma same_finish:
  assumes "same_algorithms a b"
  shows "sc_finish a kp s0 pk sl code host c = sc_finish b kp s0 pk sl code host c"
proof -
  have e: "ecdhP256 a = ecdhP256 b" and h: "hmacSha256 a = hmacSha256 b"
    using assms by (auto simp: same_algorithms_def ecdhP256_def hmacSha256_def fun_eq_iff)
  have k: "hkdfSha256 a = hkdfSha256 b"
    using same_expand [OF assms] h by (auto simp: hkdfSha256_def fun_eq_iff Let_def)
  show ?thesis unfolding sc_finish_def e k ..
qed

lemma generated_public_length: "generateEcdhP256 cng = Some kp \<Longrightarrow> length (kp_public kp) = 64"
  by (auto simp: generateEcdhP256_def Let_def kEcdhPubBytes_def split: option.splits prod.splits if_splits)

lemma key_exchange_decodes:
  assumes "length pk = 64" and "length sl = 16"
  shows "decodeMessage (id_code KeyExchange) (encodeMessage \<lparr>etype = KeyExchange, ebody = MKeyExchange pk sl\<rparr>) =
    Some \<lparr>etype = KeyExchange, ebody = MKeyExchange pk sl\<rparr>"
  using decode_encode [of "\<lparr>etype = KeyExchange, ebody = MKeyExchange pk sl\<rparr>"] assms by (simp add: envelope_wf_def)

definition offer :: "EcdhKeyPair \<Rightarrow> Cng \<Rightarrow> bytes" where
  "offer kp cng = encodeMessage \<lparr>etype = KeyExchange, ebody = MKeyExchange (kp_public kp) (randomBytes cng 16)\<rparr>"

lemma client_begin_effect:
  assumes "cc_ecdh s = None" and "cc_client s = Some a" and "ca_connected a" and "generateEcdhP256 cng = Some kp"
    and t: "t = cc_beginKeyExchange cng s"
  shows "cc_out t = cc_out s @ [CcPost (id_code KeyExchange) (offer kp cng)]" and "cc_ecdh t = Some kp"
    and "cc_ourSalt t = randomBytes cng 16" and "cc_sessionCode t = cc_sessionCode s" and "cc_client t = Some a"
proof -
  obtain ses where "ca_session a = Some ses" using assms(3) by (auto simp: ca_connected_def split: option.splits)
  then show "cc_out t = cc_out s @ [CcPost (id_code KeyExchange) (offer kp cng)]" and "cc_ecdh t = Some kp"
    and "cc_ourSalt t = randomBytes cng 16" and "cc_sessionCode t = cc_sessionCode s" and "cc_client t = Some a"
    using assms by (simp_all add: cc_beginKeyExchange_def cc_sendAppMessage_def ca_sendAppMessage_def cc_emit_def offer_def Let_def
        del: id_code.simps)
qed

lemma client_exchange_effect:
  assumes "cc_ecdh s = Some kp" and "length pk = 64" and "length sl = 16"
  shows "cc_channel (cc_handleAppMessage cng (id_code KeyExchange)
      (encodeMessage \<lparr>etype = KeyExchange, ebody = MKeyExchange pk sl\<rparr>) s) =
    Some (fst (sc_finish cng kp (cc_ourSalt s) pk sl (cc_sessionCode s) False SecureChannel_new))"
  using assms key_exchange_decodes [OF assms(2,3)]
  by (auto simp: cc_handleAppMessage_def cc_onKeyExchange_def Let_def cc_emit_def client_disconnect_def
      cc_sendAppMessage_def set_status_def simp del: id_code.simps split: option.split prod.split)

lemma host_exchange_effect:
  assumes "findStream cid s = Some cs" and "st_ecdh cs = Some kp" and "\<not> st_keysReady cs" and "ho_host s \<noteq> None" and "\<not> ho_fault s"
    and "length pk = 64" and "length sl = 16"
  shows "map_option st_channel (findStream cid (ho_handleAppMessage env cid (id_code KeyExchange)
      (encodeMessage \<lparr>etype = KeyExchange, ebody = MKeyExchange pk sl\<rparr>) s)) =
    Some (Some (fst (sc_finish (he_cng env) kp (st_ourSalt cs) pk sl (ho_sessionCode s) True SecureChannel_new)))"
  using exchange_effect(1) [OF assms(1-5) refl, of env pk sl] key_exchange_decodes [OF assms(6,7)]
  by (simp add: ho_handleAppMessage_def exchanged_def del: id_code.simps)

lemma host_begin_effect:
  assumes "findStream (row_id row) s = None" and "generateEcdhP256 (he_cng env) = Some kp" and "ho_host s = Some a" and "ha_session a = Some hs"
    and "row_state row = Connected" and "\<not> ho_fault s" and t: "t = onClientUpdated env row s"
  shows "PostHost (HAppMessage (row_id row) (id_code KeyExchange) (offer kp (he_cng env))) \<in> set (ho_out t)"
    and "\<exists>cs. findStream (row_id row) t = Some cs \<and> st_ecdh cs = Some kp \<and> \<not> st_keysReady cs \<and>
      st_ourSalt cs = randomBytes (he_cng env) 16"
    and "ho_host t \<noteq> None" and "\<not> ho_fault t" and "ho_sessionCode t = ho_sessionCode s"
  using assms key_begin_effect [OF assms(1,2)]
  by (simp_all add: onClientUpdated_def beginKeyExchange_def Let_def findStream_def offer_def ha_sendAppMessage_def ha_post_def
      via_host_def ho_emit_def put_stream_def del: id_code.simps)

lemma offers_agree:
  assumes d: "cng_dh cng hk ck" and a: "same_algorithms (he_cng env) cng"
    and h: "h = fst (sc_finish (he_cng env) hk hs (kp_public ck) cs code True SecureChannel_new)"
    and k: "k = fst (sc_finish cng ck cs (kp_public hk) hs code False SecureChannel_new)"
  shows "sc_active h = sc_active k \<and> (sc_active h \<longrightarrow>
    sc_sendKey h = sc_recvKey k \<and> sc_recvKey h = sc_sendKey k \<and> sc_nonceSalt h = sc_nonceSalt k)"
  using finish_agree [OF d prod.collapse [symmetric] prod.collapse [symmetric], of hs cs code SecureChannel_new SecureChannel_new]
  unfolding h k same_finish [OF a] by simp

text \<open>C5: The two coordinators agree on their keys: when the host's coordinator sees a client connected and
  the client's coordinator is connected, each posts a KEY_EXCHANGE; when each handles the other's, and
  both are bound to the same session code, either both channels become active or neither does, and
  active channels receive with the key the other sends with, under the same nonce salt.\<close>

theorem coordinators_agree_on_keys:
  assumes host: "\<not> ho_fault s" "ho_host s = Some a" "ha_session a = Some ses" "findStream (row_id row) s = None"
      "row_state row = Connected" "generateEcdhP256 (he_cng env) = Some hk" "length (randomBytes (he_cng env) 16) = 16"
    and client: "cc_ecdh c = None" "cc_client c = Some b" "ca_connected b" "generateEcdhP256 cng = Some ck"
      "length (randomBytes cng 16) = 16"
    and prov: "same_algorithms (he_cng env) cng" "cng_dh cng hk ck" and code: "cc_sessionCode c = ho_sessionCode s"
    and s1: "s1 = onClientUpdated env row s" and c1: "c1 = cc_beginKeyExchange cng c"
  shows "PostHost (HAppMessage (row_id row) (id_code KeyExchange) (offer hk (he_cng env))) \<in> set (ho_out s1) \<and>
    CcPost (id_code KeyExchange) (offer ck cng) \<in> set (cc_out c1) \<and>
    (\<exists>h k. map_option st_channel (findStream (row_id row)
        (ho_handleAppMessage env (row_id row) (id_code KeyExchange) (offer ck cng) s1)) = Some (Some h) \<and>
      cc_channel (cc_handleAppMessage cng (id_code KeyExchange) (offer hk (he_cng env)) c1) = Some k \<and>
      sc_active h = sc_active k \<and> (sc_active h \<longrightarrow>
        sc_sendKey h = sc_recvKey k \<and> sc_recvKey h = sc_sendKey k \<and> sc_nonceSalt h = sc_nonceSalt k))"
proof -
  note hb = host_begin_effect [OF host(4,6,2,3,5,1) s1] and cb = client_begin_effect [OF client(1-4) c1]
  obtain cs where cs: "findStream (row_id row) s1 = Some cs" "st_ecdh cs = Some hk" "\<not> st_keysReady cs"
    "st_ourSalt cs = randomBytes (he_cng env) 16" using hb(2) by blast
  note len = generated_public_length [OF host(6)] generated_public_length [OF client(4)]
  note he = host_exchange_effect [OF cs(1-3) hb(3,4) len(2) client(5), of env]
    and ce = client_exchange_effect [OF cb(2) len(1) host(7), of cng]
  show ?thesis
    using hb(1) cb(1) he ce offers_agree [OF prov(2,1) refl refl, of "randomBytes (he_cng env) 16" "randomBytes cng 16" "ho_sessionCode s"]
    unfolding offer_def cs(4) hb(5) cb(3,4) code by auto
qed

text \<open>A hosting coordinator and a client that was started with its code.\<close>

definition joined_client :: ClientCoordinator where
  "joined_client = fst (cc_startLan [] ''127.0.0.1'' 47999 ''Ann'' (ho_sessionCode lan_host) (ClientCoordinator_new Config_default))"

lemma joined_client_state:
  "cc_ecdh joined_client = None" "cc_sessionCode joined_client = ho_sessionCode lan_host"
  "\<exists>b. cc_client joined_client = Some b \<and> ca_connected b"
  by (simp_all add: joined_client_def cc_startLan_def cc_stop_def Let_def ClientCoordinator_new_def stop_client_streamer_def cc_emit_def
      ca_connect_def ca_connected_def cs_start_def ClientSession_new_def cs_begin_def cs_simps)

lemma lan_host_state: "\<exists>a ses. ho_host lan_host = Some a \<and> ha_session a = Some ses"
proof -
  obtain a ok where "ha_start ''ann'' (\<lambda>_. 0) Some HostLaunchSettings_default HostApp_new = (a, ok)" by force
  then show ?thesis
    by (auto simp: lan_host_def startLan_def ha_start_def hs_start_def HostSession_new_def Let_def ho_emit_def)
qed

lemma demo_provider:
  "generateEcdhP256 demo_cng = Some demo_key" "randomBytes demo_cng 16 = replicate 16 5" "cng_dh demo_cng demo_key demo_key"
  "same_algorithms demo_cng demo_cng" "he_cng env_example = demo_cng"
  by (code_simp, code_simp, simp add: cng_dh_def, simp add: same_algorithms_def, simp add: env_example_def)

theorem coordinators_agree_on_keys_witness:
  "\<exists>h k. map_option st_channel (findStream 1 (ho_handleAppMessage env_example 1 (id_code KeyExchange) (offer demo_key demo_cng)
        (onClientUpdated env_example row_example lan_host))) = Some (Some h) \<and>
     cc_channel (cc_handleAppMessage demo_cng (id_code KeyExchange) (offer demo_key demo_cng)
        (cc_beginKeyExchange demo_cng joined_client)) = Some k \<and> sc_active h = sc_active k"
proof -
  obtain a ses where a: "ho_host lan_host = Some a" "ha_session a = Some ses" using lan_host_state by blast
  obtain b where b: "cc_client joined_client = Some b" "ca_connected b" using joined_client_state(3) by blast
  have row: "row_state row_example = Connected" "row_id row_example = 1" by (simp_all add: row_example_def)
  show ?thesis
    using coordinators_agree_on_keys [OF lan_example(1) [OF lan_host_def] a lan_example(4) [OF lan_host_def] row(1) _ _
        joined_client_state(1) b demo_provider(1) _ _ demo_provider(3) joined_client_state(2) refl refl, of env_example]
    unfolding row(2) demo_provider(2,5) using demo_provider(1,4) by auto
qed

section \<open>The confirmation that is never understood\<close>

text \<open>Frames a client's coordinator posts on some run, and host runs whose application messages all
  come from such clients.\<close>

definition client_posted :: "u16 \<Rightarrow> bytes \<Rightarrow> bool" where
  "client_posted ty p \<longleftrightarrow> (\<exists>cfg es. CcPost ty p \<in> set (cc_out (fold cc_handle es (ClientCoordinator_new cfg))))"

definition genuine_clients :: "(ho_env \<times> ho_event) list \<Rightarrow> bool" where
  "genuine_clients es \<longleftrightarrow> (\<forall>env cid ty p. (env, OAppMessage cid ty p) \<in> set es \<longrightarrow> client_posted ty p)"

lemma confirmation_malformed: "decodeMessage (id_code SessionKeyReady) key_confirmation = None"
  unfolding key_confirmation_def using default_body_not_decodable by (rule conjunct2)

lemma client_never_confirms:
  assumes "client_posted ty p" and "decodeMessage ty p = Some m"
  shows "etype m = KeyExchange"
proof -
  have "ty = id_code KeyExchange \<or> ty = id_code SessionKeyReady \<and> p = key_confirmation"
    using assms(1) posted_frames unfolding client_posted_def by blast
  then have "ty = id_code KeyExchange" using assms(2) confirmation_malformed by auto
  then have "id_code (etype m) = id_code KeyExchange" using decode_id [OF assms(2)] by simp
  then show ?thesis by (cases "etype m") simp_all
qed

text \<open>C6: Host and client of this program never get a stream up: the SESSION_KEY_READY the client's
  coordinator posts keeps the default message body, which the decoder refuses, so in no run of the
  host's coordinator whose messages come from clients of this program is a streamer ever started.\<close>

theorem no_stream_with_genuine_clients:
  assumes "genuine_clients es"
  shows "StreamerStart h sc sid p ch \<notin> set (ho_out (fold ho_handle es (HostCoordinator_new cfg injector)))"
proof
  assume "StreamerStart h sc sid p ch \<in> set (ho_out (fold ho_handle es (HostCoordinator_new cfg injector)))"
  then obtain cid where "key_ready es cid" using started_keyed unfolding start_ok_def by blast
  then obtain env ty payload m where "(env, OAppMessage cid ty payload) \<in> set es" "decodeMessage ty payload = Some m"
    "etype m = SessionKeyReady" unfolding key_ready_def sent_message_def by blast
  then show False using assms client_never_confirms unfolding genuine_clients_def by fastforce
qed

lemma joined_client_posts: "client_posted (id_code KeyExchange) (offer demo_key demo_cng)"
proof -
  obtain b where b: "cc_client joined_client = Some b" "ca_connected b" using joined_client_state(3) by blast
  let ?es = "[(demo_cng, EStartLan [] ''127.0.0.1'' 47999 ''Ann'' (ho_sessionCode lan_host)), (demo_cng, EState Connected)]"
  let ?t = "set_status ''Connected - securing session...'' joined_client"
  have t: "cc_ecdh ?t = None" "cc_client ?t = Some b" using joined_client_state(1) b by (simp_all add: set_status_def)
  have "fold cc_handle ?es (ClientCoordinator_new Config_default) = cc_emit [CcStateChanged] (cc_beginKeyExchange demo_cng ?t)"
    by (simp add: joined_client_def onState_def)
  then have "CcPost (id_code KeyExchange) (offer demo_key demo_cng) \<in>
      set (cc_out (fold cc_handle ?es (ClientCoordinator_new Config_default)))"
    using client_begin_effect(1) [OF t b(2) demo_provider(1) refl] by (simp add: cc_emit_def del: id_code.simps)
  then show ?thesis unfolding client_posted_def by blast
qed

theorem no_stream_with_genuine_clients_witness:
  "\<not> (\<exists>h sc sid p ch. StreamerStart h sc sid p ch \<in> set (ho_out (fold ho_handle
      [(env_example, OStartLan ''ann'' (\<lambda>_. 0) Some HostLaunchSettings_default), (env_example, OClientUpdated row_example),
       (env_example, OAppMessage 1 (id_code KeyExchange) (offer demo_key demo_cng))]
      (HostCoordinator_new Config_default InputInjector_new))))"
proof -
  have "genuine_clients [(env_example, OStartLan ''ann'' (\<lambda>_. 0) Some HostLaunchSettings_default), (env_example, OClientUpdated row_example),
       (env_example, OAppMessage 1 (id_code KeyExchange) (offer demo_key demo_cng))]"
    using joined_client_posts unfolding genuine_clients_def by auto
  from no_stream_with_genuine_clients [OF this] show ?thesis by blast
qed

text \<open>What a coordinator posts when the other side's KEY_EXCHANGE leads to keys.\<close>

lemma host_confirms:
  assumes "findStream cid h = Some st" "st_ecdh st = Some kp" "\<not> st_keysReady st" "ho_host h = Some a" "ha_session a = Some ses"
    and "snd (sc_finish (he_cng env) kp (st_ourSalt st) pk sl (ho_sessionCode h) True SecureChannel_new)"
  shows "ho_out (onKeyExchange env cid pk sl h) =
    ho_out h @ [PostHost (HAppMessage cid (id_code SessionKeyReady) key_confirmation)]"
  using assms
  by (simp add: onKeyExchange_def via_host_def ha_sendAppMessage_def ha_post_def put_stream_def ho_emit_def key_confirmation_def
      Let_def case_prod_beta del: id_code.simps)

lemma client_confirms:
  assumes "cc_ecdh k = Some kp" "cc_client k = Some b" "ca_session b = Some ses"
    and "snd (sc_finish cng kp (cc_ourSalt k) pk sl (cc_sessionCode k) False SecureChannel_new)"
  shows "cc_out (cc_onKeyExchange cng pk sl k) = cc_out k @ [CcPost (id_code SessionKeyReady) key_confirmation]"
  using assms
  by (simp add: cc_onKeyExchange_def cc_sendAppMessage_def ca_sendAppMessage_def set_status_def cc_emit_def key_confirmation_def
      Let_def case_prod_beta del: id_code.simps)

text \<open>C19: A key exchange that succeeds ends the connection, from either side. When the host's coordinator
  handles a client's KEY_EXCHANGE and derives the keys, the one message it posts to that client ends every
  client session that receives it; when the client's coordinator handles the host's KEY_EXCHANGE and
  derives the keys, the one message it posts makes a host session, after any run, remove the connected
  client that sends it.\<close>

theorem key_confirmation_disconnects:
  assumes host: "findStream cid h = Some st" "st_ecdh st = Some kp" "\<not> st_keysReady st" "ho_host h = Some a" "ha_session a = Some hses"
      "snd (sc_finish (he_cng env) kp (st_ourSalt st) pk sl (ho_sessionCode h) True SecureChannel_new)"
    and client: "cc_ecdh k = Some kp'" "cc_client k = Some b" "ca_session b = Some cses"
      "snd (sc_finish cng kp' (cc_ourSalt k) pk' sl' (cc_sessionCode k) False SecureChannel_new)"
    and run: "s = fold hs_handle es (HostSession_new handler)" and live: "hs_thread s" "\<not> hs_stopping s"
    and r: "find_client cid' s = Some r" "rec_connection r = Some c" and live': "\<not> cs_stopping t"
  shows "(\<exists>ty p. ho_out (onKeyExchange env cid pk sl h) = ho_out h @ [PostHost (HAppMessage cid ty p)] \<and>
      finishes t (cs_handleFrame now ty p t)) \<and>
    (\<exists>ty p. cc_out (cc_onKeyExchange cng pk' sl' k) = cc_out k @ [CcPost ty p] \<and>
      hs_clients (hs_handle (HFrame now cid' ty p) s) = omap_del cid' (hs_clients s))"
proof (intro conjI exI)
  show "ho_out (onKeyExchange env cid pk sl h) = ho_out h @ [PostHost (HAppMessage cid (id_code SessionKeyReady) key_confirmation)]"
    by (rule host_confirms [OF host])
  show "cc_out (cc_onKeyExchange cng pk' sl' k) = cc_out k @ [CcPost (id_code SessionKeyReady) key_confirmation]"
    by (rule client_confirms [OF client])
  show "hs_clients (hs_handle (HFrame now cid' (id_code SessionKeyReady) key_confirmation) s) = omap_del cid' (hs_clients s)"
    using malformed_frame_rejected [OF run live r confirmation_malformed] by blast
  show "finishes t (cs_handleFrame now (id_code SessionKeyReady) key_confirmation t)"
    using live' confirmation_malformed by (simp add: cs_handleFrame_def Let_def cs_simps knownId_iff del: id_code.simps)
qed

lemma demo_finish_5:
  "snd (sc_finish demo_cng demo_key (randomBytes demo_cng 16) (kp_public demo_key) (replicate 16 2) code host SecureChannel_new)"
  unfolding demo_provider(2) by (rule demo_finish)

theorem key_confirmation_disconnects_witness:
  "\<exists>ty p. PostHost (HAppMessage 1 ty p) \<in> set (ho_out (onKeyExchange env_example 1 (kp_public demo_key) (replicate 16 2)
        (onClientUpdated env_example row_example lan_host))) \<and>
     finishes (ClientSession_new True) (cs_handleFrame 9 ty p (ClientSession_new True)) \<and>
     (\<exists>ty p. CcPost ty p \<in> set (cc_out (cc_onKeyExchange demo_cng (kp_public demo_key) (replicate 16 2)
        (cc_beginKeyExchange demo_cng joined_client))) \<and>
      find_client 1 (hs_handle (HFrame 9 1 ty p) (fold hs_handle demo_run (HostSession_new True))) = None)"
proof -
  let ?s = "fold hs_handle demo_run (HostSession_new True)"
  let ?h = "onClientUpdated env_example row_example lan_host" and ?k = "cc_beginKeyExchange demo_cng joined_client"
  obtain a ses where a: "ho_host lan_host = Some a" "ha_session a = Some ses" using lan_host_state by blast
  obtain b where b: "cc_client joined_client = Some b" "ca_connected b" using joined_client_state(3) by blast
  then obtain cses where b': "ca_session b = Some cses" by (auto simp: ca_connected_def split: option.splits)
  have row: "row_state row_example = Connected" "row_id row_example = 1" by (simp_all add: row_example_def)
  have env: "generateEcdhP256 (he_cng env_example) = Some demo_key" unfolding demo_provider(5) by (rule demo_provider(1))
  note kb = key_begin_effect [OF lan_example(4) [OF lan_host_def] env lan_example(2) [OF lan_host_def] lan_example(1) [OF lan_host_def], of 1]
  obtain st where st: "findStream 1 ?h = Some st" "st_ecdh st = Some demo_key" "\<not> st_keysReady st"
    "st_ourSalt st = randomBytes demo_cng 16"
    using kb(1) row demo_provider(5) by (auto simp: onClientUpdated_def findStream_def)
  have hh: "ho_host ?h = Some a" using kb(2) row a(1) by (simp add: onClientUpdated_def)
  have hf: "snd (sc_finish (he_cng env_example) demo_key (st_ourSalt st) (kp_public demo_key) (replicate 16 2)
      (ho_sessionCode ?h) True SecureChannel_new)"
    unfolding st(4) demo_provider(5) by (rule demo_finish_5)
  note cb = client_begin_effect [OF joined_client_state(1) b demo_provider(1) refl]
  have cf: "snd (sc_finish demo_cng demo_key (cc_ourSalt ?k) (kp_public demo_key) (replicate 16 2) (cc_sessionCode ?k) False SecureChannel_new)"
    unfolding cb(3) by (rule demo_finish_5)
  from demo_live(3) obtain r where r: "find_client 1 ?s = Some r" "rec_connection r = Some 7" by auto
  have new: "\<not> cs_stopping (ClientSession_new True)" by (simp add: ClientSession_new_def)
  have wf: "omap_wf (hs_clients ?s)" using hs.inv_run [of demo_run True] by (simp add: hs_inv_def)
  obtain ty p ty' p' where m: "ho_out (onKeyExchange env_example 1 (kp_public demo_key) (replicate 16 2) ?h) = ho_out ?h @ [PostHost (HAppMessage 1 ty p)]"
    "finishes (ClientSession_new True) (cs_handleFrame 9 ty p (ClientSession_new True))"
    "cc_out (cc_onKeyExchange demo_cng (kp_public demo_key) (replicate 16 2) ?k) = cc_out ?k @ [CcPost ty' p']"
    "hs_clients (hs_handle (HFrame 9 1 ty' p') ?s) = omap_del 1 (hs_clients ?s)"
    using key_confirmation_disconnects [OF st(1-3) hh a(2) hf cb(2,5) b' cf refl demo_live(1,2) r new, of 9] by blast
  have "find_client 1 (hs_handle (HFrame 9 1 ty' p') ?s) = None" using m(4) wf by (simp add: find_client_def)
  with m show ?thesis by (metis in_set_conv_decomp)
qed

section \<open>The typed session code\<close>

lemma canonical_dashless:
  assumes "is_canonical code"
  shows "verifySessionCode (filter (\<lambda>ch. ch \<noteq> CHR ''-'') code) code" and "length (filter (\<lambda>ch. ch \<noteq> CHR ''-'') code) = 8"
proof -
  obtain a b where ab: "code = a @ ''-'' @ b" "length a = 4" "length b = 4"
    "set a \<subseteq> set kCodeAlphabet" "set b \<subseteq> set kCodeAlphabet" by (rule canonical_split [OF assms])
  have f: "filter (\<lambda>ch. ch \<noteq> CHR ''-'') code = a @ b"
  proof -
    have "filter (\<lambda>ch. ch \<noteq> CHR ''-'') w = w" if "set w \<subseteq> set kCodeAlphabet" for w
      using that alphabet_fixed by (intro filter_True) blast
    then show ?thesis using ab(4,5) by (simp add: ab(1))
  qed
  then show "length (filter (\<lambda>ch. ch \<noteq> CHR ''-'') code) = 8" using ab by simp
  have "code_compact (a @ b) = code_compact code" by (simp add: ab(1) code_compact_append)
  then have "normalizeSessionCode (a @ b) = Some code"
    using normalize_canonical [OF assms] by (simp add: normalizeSessionCode_def)
  then show "verifySessionCode (filter (\<lambda>ch. ch \<noteq> CHR ''-'') code) code"
    using normalize_canonical [OF assms] f by (simp add: verifySessionCode_def constantTimeEqual_iff)
qed

lemma channel_salt_length: "length (channel_salt code a b) = length code + length a + length b"
  by (simp add: channel_salt_def str_bytes_def)

lemma startLan_code:
  "startLan env user rnd listen l s = (s', True) \<Longrightarrow> ho_sessionCode s' = fst (generateSessionCode rnd 0)"
  by (auto simp: startLan_def ha_start_def hs_start_def HostSession_new_def ha_sessionCode_def ha_stop_def Let_def ho_emit_def
      emit_def split: if_splits prod.splits option.splits)

text \<open>C20: A session code typed without its dash admits the client but breaks the stream's keys: the host
  accepts the text, yet the client binds its channel to the text as typed and the host to the code as
  generated, so the two derive their keys from different salts, whatever randomness they exchange.\<close>

theorem dashless_code_splits_keys:
  assumes "startLan env user rnd listen l s = (s', True)"
    and "cc_startLan dec host port name (filter (\<lambda>ch. ch \<noteq> CHR ''-'') (ho_sessionCode s')) c = (c', ok)"
  shows "verifySessionCode (cc_sessionCode c') (ho_sessionCode s') \<and>
    channel_salt (cc_sessionCode c') x y \<noteq> channel_salt (ho_sessionCode s') x y"
proof -
  have can: "is_canonical (ho_sessionCode s')" using startLan_code [OF assms(1)] generate_canonical by simp
  have c': "cc_sessionCode c' = filter (\<lambda>ch. ch \<noteq> CHR ''-'') (ho_sessionCode s')"
    using assms(2) by (auto simp: cc_startLan_def Let_def)
  have "length (ho_sessionCode s') = 9" using can by (simp add: is_canonical_def)
  then have "length (channel_salt (cc_sessionCode c') x y) \<noteq> length (channel_salt (ho_sessionCode s') x y)"
    using canonical_dashless(2) [OF can] by (simp add: channel_salt_length c')
  then show ?thesis using canonical_dashless(1) [OF can] c' by auto
qed

theorem dashless_code_splits_keys_witness:
  "verifySessionCode ''AAAAAAAA'' ''AAAA-AAAA'' \<and> channel_salt ''AAAAAAAA'' [1] [2] \<noteq> channel_salt ''AAAA-AAAA'' [1] [2]"
proof -
  let ?h = "startLan env_example ''ann'' (\<lambda>_. 0) Some HostLaunchSettings_default (HostCoordinator_new Config_default InputInjector_new)"
  have ok: "snd ?h"
    by (simp add: startLan_def ha_start_def hs_start_def HostSession_new_def Let_def split: prod.split)
  then have h: "?h = (fst ?h, True)" by (simp add: prod_eq_iff)
  have code: "ho_sessionCode (fst ?h) = ''AAAA-AAAA''" unfolding startLan_code [OF h] by code_simp
  have typed: "filter (\<lambda>ch. ch \<noteq> CHR ''-'') ''AAAA-AAAA'' = ''AAAAAAAA''" by simp
  let ?c = "cc_startLan [] ''127.0.0.1'' 47999 ''Ann'' ''AAAAAAAA'' (ClientCoordinator_new Config_default)"
  have "cc_sessionCode (fst ?c) = ''AAAAAAAA''" by (simp add: cc_startLan_def Let_def)
  then show ?thesis
    using dashless_code_splits_keys [OF h, unfolded code typed, OF prod.collapse [symmetric], where x = "[1]" and y = "[2]"] by metis
qed

end
